(* ===== verification/Prelude.thy ===== *)
theory Prelude
  imports Complex_Main "HOL-Library.Multiset"
begin

text \<open>
  Shared base of the development.

  \<^item> \<open>jsnum\<close>: a TypeScript \<open>number\<close> where the code itself asks whether the value is finite or
    an integer (\<open>Number.isFinite\<close>, \<open>Number.isInteger\<close>, comparisons that must be false at
    \<open>NaN\<close>). Everywhere else sats, unix seconds, block counts and heights are \<open>int\<close>: the
    sources keep them in SQLite INTEGER columns or behind integer checks, every one of them is
    below \<open>2 ^ 53\<close>, and double arithmetic is exact there.
  \<^item> \<open>ceil_div\<close>: \<open>Math.ceil(a / b)\<close> on integers.
  \<^item> the collections \<open>policy\<close> (the numeric constants of the timing and fee policy) and
    \<open>gate\<close> (the definitions of the decision functions), which the component proofs unfold.
\<close>

section \<open>Fact collections\<close>

named_theorems policy
named_theorems gate

section \<open>JavaScript numbers\<close>

datatype jsnum = Fin rat | NaN | PosInf | NegInf

abbreviation jint :: "int \<Rightarrow> jsnum" where
  "jint i \<equiv> Fin (of_int i)"

fun isFinite :: "jsnum \<Rightarrow> bool" where
  "isFinite (Fin _) = True"
| "isFinite _ = False"

text \<open>\<open>Number.isInteger\<close>, with the integer as the witness.\<close>

fun js_int :: "jsnum \<Rightarrow> int option" where
  "js_int (Fin q) = (if of_int \<lfloor>q\<rfloor> = q then Some \<lfloor>q\<rfloor> else None)"
| "js_int _ = None"

definition isInteger :: "jsnum \<Rightarrow> bool" where
  "isInteger n = (js_int n \<noteq> None)"

text \<open>The comparison operators; every comparison with \<open>NaN\<close> is false.\<close>

fun js_lt :: "jsnum \<Rightarrow> jsnum \<Rightarrow> bool" where
  "js_lt (Fin a) (Fin b) = (a < b)"
| "js_lt NegInf (Fin _) = True"
| "js_lt NegInf PosInf = True"
| "js_lt (Fin _) PosInf = True"
| "js_lt _ _ = False"

fun js_le :: "jsnum \<Rightarrow> jsnum \<Rightarrow> bool" where
  "js_le NaN _ = False"
| "js_le _ NaN = False"
| "js_le a b = (a = b \<or> js_lt a b)"

lemma js_int_jint [simp]: "js_int (jint i) = Some i"
  by simp

lemma js_int_Some_iff: "js_int n = Some i \<longleftrightarrow> n = jint i"
  by (cases n) auto

lemma isInteger_jint [simp]: "isInteger (jint i)"
  by (simp add: isInteger_def)

lemma isInteger_iff: "isInteger n \<longleftrightarrow> (\<exists>i. n = jint i)"
  by (auto simp: isInteger_def js_int_Some_iff)

lemma js_lt_jint [simp]: "js_lt (jint a) (jint b) \<longleftrightarrow> a < b"
  by simp

lemma js_le_jint [simp]: "js_le (jint a) (jint b) \<longleftrightarrow> a \<le> b"
  by (auto simp: le_less)

lemma js_le_Fin [simp]: "js_le (Fin a) (Fin b) \<longleftrightarrow> a \<le> b"
  by (auto simp: le_less)

lemma js_lt_NaN [simp]: "\<not> js_lt NaN x" "\<not> js_lt x NaN"
  by (cases x; simp)+

section \<open>Division that rounds up\<close>

definition ceil_div :: "int \<Rightarrow> int \<Rightarrow> int" where
  "ceil_div a b = - ((- a) div b)"

lemma ceil_div_ge:
  assumes "0 < b"
  shows "a \<le> ceil_div a b * b"
proof -
  have "(- a) div b * b \<le> - a"
    using assms by (simp add: mult.commute minus_mod_eq_mult_div [symmetric])
  then show ?thesis by (simp add: ceil_div_def)
qed

lemma ceil_div_lt:
  assumes "0 < b"
  shows "ceil_div a b * b < a + b"
proof -
  have "- a < (- a) div b * b + b"
    using assms pos_mod_bound [of b "- a"] by (simp add: div_mult_mod_eq minus_mod_eq_div_mult [symmetric])
  then show ?thesis by (simp add: ceil_div_def)
qed

lemma ceil_div_least:
  assumes "0 < b" and "a \<le> k * b"
  shows "ceil_div a b \<le> k"
proof -
  have "ceil_div a b * b < (k + 1) * b"
    using ceil_div_lt [OF assms(1), of a] assms(2) by (simp add: algebra_simps)
  then show ?thesis using assms(1) by (simp add: mult_less_cancel_right)
qed

lemma ceil_div_le_iff:
  assumes "0 < b"
  shows "ceil_div a b \<le> k \<longleftrightarrow> a \<le> k * b"
proof
  assume "ceil_div a b \<le> k"
  then have "ceil_div a b * b \<le> k * b" using assms by simp
  with ceil_div_ge [OF assms, of a] show "a \<le> k * b" by linarith
qed (rule ceil_div_least [OF assms])

lemma ceil_div_mono:
  assumes "0 < b" and "a \<le> a'"
  shows "ceil_div a b \<le> ceil_div a' b"
  using ceil_div_ge [OF assms(1), of a'] assms(2)
  by (intro ceil_div_least [OF assms(1)]) linarith

lemma ceil_div_nonneg: "0 < b \<Longrightarrow> 0 \<le> a \<Longrightarrow> 0 \<le> ceil_div a b"
  by (simp add: ceil_div_def div_nonpos_pos_le0)

lemma ceil_div_mult [simp]: "0 < b \<Longrightarrow> ceil_div (k * b) b = k"
  by (simp add: ceil_div_def flip: mult_minus_left)

section \<open>Results and early returns\<close>

text \<open>
  A fallible or refusing function returns \<open>'e + 'a\<close>, \<open>Inl\<close> the refusal or the thrown error.
  A body with guards and early returns is a chain of \<open>and_then\<close> over \<open>refuse_if\<close>
  (\<open>if (c) return refusal\<close>, \<open>if (c) throw\<close>) and \<open>or_refuse\<close> (a value that must be present).
\<close>

fun and_then :: "'e + 'a \<Rightarrow> ('a \<Rightarrow> 'e + 'b) \<Rightarrow> 'e + 'b" where
  "and_then (Inl e) f = Inl e"
| "and_then (Inr x) f = f x"

definition refuse_if :: "bool \<Rightarrow> 'e \<Rightarrow> 'e + unit" where
  "refuse_if c e = (if c then Inl e else Inr ())"

fun or_refuse :: "'a option \<Rightarrow> 'e \<Rightarrow> 'e + 'a" where
  "or_refuse None e = Inl e"
| "or_refuse (Some x) e = Inr x"

fun map_error :: "('e \<Rightarrow> 'f) \<Rightarrow> 'e + 'a \<Rightarrow> 'f + 'a" where
  "map_error f (Inl e) = Inl (f e)"
| "map_error f (Inr x) = Inr x"

fun is_ok :: "'e + 'a \<Rightarrow> bool" where
  "is_ok (Inr _) = True"
| "is_ok (Inl _) = False"

named_theorems result

text \<open>\<open>a ?? b\<close> on two optional values.\<close>

fun coalesce :: "'a option \<Rightarrow> 'a option \<Rightarrow> 'a option" where
  "coalesce (Some x) _ = Some x"
| "coalesce None y = y"

lemma coalesce_None_iff [simp]: "coalesce a b = None \<longleftrightarrow> a = None \<and> b = None"
  by (cases a) auto

lemma is_ok_iff: "is_ok r \<longleftrightarrow> (\<exists>x. r = Inr x)"
  by (cases r) auto

lemma and_then_Inr [result]: "and_then m f = Inr y \<longleftrightarrow> (\<exists>x. m = Inr x \<and> f x = Inr y)"
  by (cases m) auto

lemma and_then_Inl [result]: "and_then m f = Inl e \<longleftrightarrow> m = Inl e \<or> (\<exists>x. m = Inr x \<and> f x = Inl e)"
  by (cases m) auto

lemma refuse_if_Inr [result]: "refuse_if c e = Inr u \<longleftrightarrow> \<not> c"
  by (simp add: refuse_if_def)

lemma refuse_if_Inl [result]: "refuse_if c e = Inl e' \<longleftrightarrow> c \<and> e' = e"
  by (auto simp: refuse_if_def)

lemma or_refuse_Inr [result]: "or_refuse v e = Inr x \<longleftrightarrow> v = Some x"
  by (cases v) auto

lemma or_refuse_Inl [result]: "or_refuse v e = Inl e' \<longleftrightarrow> v = None \<and> e' = e"
  by (cases v) auto

lemma map_error_Inr [result]: "map_error f m = Inr x \<longleftrightarrow> m = Inr x"
  by (cases m) auto

lemma map_error_Inl [result]: "map_error f m = Inl e \<longleftrightarrow> (\<exists>e'. m = Inl e' \<and> e = f e')"
  by (cases m) auto

lemma refuse_if_simps [simp]:
  "refuse_if True e = Inl e" "refuse_if False e = Inr ()"
  by (simp_all add: refuse_if_def)

section \<open>Reductions over lists\<close>

text \<open>\<open>Math.max\<close> and \<open>Math.min\<close> reductions.\<close>

lemma foldl_max_le: "(a::int) \<le> foldl max a ts"
  by (induction ts arbitrary: a) (auto intro: order_trans [OF max.cobounded1])

lemma foldl_max_ge: "t \<in> set ts \<Longrightarrow> t \<le> foldl max (a::int) ts"
  by (induction ts arbitrary: a) (auto intro: order_trans [OF max.cobounded2 foldl_max_le])

lemma foldl_max_in: "foldl max (a::int) ts \<in> insert a (set ts)"
  by (induction ts arbitrary: a) (fastforce simp: max_def)+

lemma foldl_min_le: "foldl min (a::int) ts \<le> a"
  by (induction ts arbitrary: a) (auto intro: order_trans [OF _ min.cobounded1])

lemma foldl_min_lb: "t \<in> set ts \<Longrightarrow> foldl min (a::int) ts \<le> t"
  by (induction ts arbitrary: a) (auto intro: order_trans [OF foldl_min_le min.cobounded2])

lemma foldl_min_in: "foldl min (a::int) ts \<in> insert a (set ts)"
  by (induction ts arbitrary: a) (fastforce simp: min_def)+

lemma Min_foldl: "Min (set (e # es)) = foldl min (e::int) es"
proof (rule Min_eqI)
  show "foldl min e es \<le> y" if "y \<in> set (e # es)" for y
    using that by (auto simp: foldl_min_le foldl_min_lb)
  show "foldl min e es \<in> set (e # es)" using foldl_min_in [of e es] by simp
qed simp

lemma sum_list_nonneg_map: "(\<And>x. x \<in> set xs \<Longrightarrow> (0::int) \<le> f x) \<Longrightarrow> 0 \<le> sum_list (map f xs)"
  by (induction xs) auto

section \<open>Text\<close>

text \<open>Template literals print integers in decimal; \<open>toLocaleString('en-US')\<close> groups the digits by three.\<close>

definition digit :: "nat \<Rightarrow> char" where
  "digit n = char_of (48 + n)"

fun show_nat :: "nat \<Rightarrow> string" where
  "show_nat n = (if n < 10 then [digit n] else show_nat (n div 10) @ [digit (n mod 10)])"

declare show_nat.simps [simp del]

definition show_int :: "int \<Rightarrow> string" where
  "show_int i = (if i < 0 then CHR 0x2D # show_nat (nat (- i)) else show_nat (nat i))"

fun group_rev :: "string \<Rightarrow> string" where
  "group_rev (a # b # c # d # rest) = a # b # c # CHR 0x2C # group_rev (d # rest)"
| "group_rev ds = ds"

definition toLocaleString :: "int \<Rightarrow> string" where
  "toLocaleString i =
     (if i < 0 then CHR 0x2D # rev (group_rev (rev (show_nat (nat (- i)))))
      else rev (group_rev (rev (show_nat (nat i)))))"

text \<open>The dash the messages use, in UTF-8.\<close>

definition dash :: string where
  "dash = '' '' @ [CHR 0xE2, CHR 0x80, CHR 0x94] @ '' ''"

fun join_with :: "string \<Rightarrow> string list \<Rightarrow> string" where
  "join_with sep [] = []"
| "join_with sep [x] = x"
| "join_with sep (x # xs) = x @ sep @ join_with sep xs"

text \<open>The truth value of an optional string: absent and empty are both false.\<close>

fun truthy :: "string option \<Rightarrow> string option" where
  "truthy (Some []) = None"
| "truthy v = v"

lemma truthy_Some: "truthy v = Some s \<Longrightarrow> v = Some s"
  by (cases v rule: truthy.cases) auto

text \<open>ASCII case, as \<open>toLowerCase\<close> treats the alphabets of the inputs that are lowered.\<close>

definition is_upper :: "char \<Rightarrow> bool" where
  "is_upper c \<longleftrightarrow> 65 \<le> (of_char c :: nat) \<and> (of_char c :: nat) \<le> 90"

definition is_lower :: "char \<Rightarrow> bool" where
  "is_lower c \<longleftrightarrow> 97 \<le> (of_char c :: nat) \<and> (of_char c :: nat) \<le> 122"

definition lower_char :: "char \<Rightarrow> char" where
  "lower_char c = (if is_upper c then char_of ((of_char c :: nat) + 32) else c)"

definition toLowerCase :: "string \<Rightarrow> string" where
  "toLowerCase s = map lower_char s"

end
