(* ===== verification/Timelocks.thy ===== *)
theory Timelocks
  imports Prelude
begin

text \<open>
  \<^verbatim>\<open>solver-core/src/core/timelocks.ts\<close>: the timelock arithmetic of the swap scripts. BIP68
  relative delays and BIP65 absolute locktimes are self-describing (the unit rides on the
  magnitude); the ladder of the three unilateral leaves is derived from the server's exit delay.
  Messages of thrown errors are constructors of \<open>timelock_error\<close>.
\<close>

section \<open>Constants and data\<close>

definition LOCKTIME_THRESHOLD :: int where [policy]: "LOCKTIME_THRESHOLD = 500000000"
definition SEQUENCE_GRANULARITY_SECONDS :: int where [policy]: "SEQUENCE_GRANULARITY_SECONDS = 512"
definition NOMINAL_BLOCK_SECONDS :: int where [policy]: "NOMINAL_BLOCK_SECONDS = 600"
definition MINUTE :: int where [policy]: "MINUTE = 60"
definition HOUR :: int where [policy]: "HOUR = 60 * MINUTE"

datatype TimelockUnit = Seconds | Blocks

record RelativeDelay =
  delayUnit :: TimelockUnit
  delayValue :: int

record UnilateralDelays =
  unilateralClaimDelay :: int
  unilateralRefundDelay :: int
  unilateralRefundWithoutReceiverDelay :: int

datatype timelock_error =
    ExitDelayNotPositive
  | ExitDelayNotWhole
  | ExitDelayTooManyBlocks int
  | ExitDelayExceedsBip68 int
  | LocktimeNotInteger string
  | LocktimeNotPositive string
  | LocktimeReadAsHeight string int
  | LocktimeReadAsSeconds string int
  | RefundHeightReadsAsSeconds int
  | LadderMixesUnits
  | HorizonUnencodable int

section \<open>Relative delays\<close>

definition relativeDelayFrom :: "int \<Rightarrow> RelativeDelay" where [gate]:
  "relativeDelayFrom raw =
     \<lparr>delayUnit = (if raw \<ge> SEQUENCE_GRANULARITY_SECONDS then Seconds else Blocks), delayValue = raw\<rparr>"

definition relativeDelaySeconds :: "RelativeDelay \<Rightarrow> int" where [gate]:
  "relativeDelaySeconds delay =
     (if delayUnit delay = Seconds then delayValue delay else delayValue delay * NOMINAL_BLOCK_SECONDS)"

definition rawDelaySeconds :: "int \<Rightarrow> int" where [gate]:
  "rawDelaySeconds raw = relativeDelaySeconds (relativeDelayFrom raw)"

definition isEncodableRelativeDelay :: "jsnum \<Rightarrow> bool" where [gate]:
  "isEncodableRelativeDelay seconds =
     (case js_int seconds of
        Some s \<Rightarrow> 0 < s \<and> s mod SEQUENCE_GRANULARITY_SECONDS = 0
      | None \<Rightarrow> False)"

text \<open>
  The unit test of \<open>relativeDelayFrom\<close> on an arbitrary number is \<open>raw >= 512\<close>, false at \<open>NaN\<close>.
\<close>

definition isEncodableDelay :: "jsnum \<Rightarrow> bool" where [gate]:
  "isEncodableDelay raw =
     (if \<not> js_le (jint SEQUENCE_GRANULARITY_SECONDS) raw
      then isInteger raw \<and> js_lt (jint 0) raw
      else isEncodableRelativeDelay raw)"

definition SOLO_REFUND_HEADROOM_SECONDS :: int where [policy]:
  "SOLO_REFUND_HEADROOM_SECONDS = 8 * SEQUENCE_GRANULARITY_SECONDS"
definition SOLO_REFUND_HEADROOM_BLOCKS :: int where [policy]: "SOLO_REFUND_HEADROOM_BLOCKS = 8"
definition MAX_BIP68_SECONDS :: int where [policy]:
  "MAX_BIP68_SECONDS = 65535 * SEQUENCE_GRANULARITY_SECONDS"
definition MAX_BIP68_BLOCKS :: int where [policy]:
  "MAX_BIP68_BLOCKS = SEQUENCE_GRANULARITY_SECONDS - SOLO_REFUND_HEADROOM_BLOCKS - 1"

definition ceilToGranularity :: "int \<Rightarrow> int" where [gate]:
  "ceilToGranularity seconds =
     ceil_div seconds SEQUENCE_GRANULARITY_SECONDS * SEQUENCE_GRANULARITY_SECONDS"

definition secondsForBlockRung :: "int \<Rightarrow> int" where [gate]:
  "secondsForBlockRung blocks = ceilToGranularity (blocks * NOMINAL_BLOCK_SECONDS)"

section \<open>The ladder of the unilateral leaves\<close>

definition deriveUnilateralDelays :: "jsnum \<Rightarrow> timelock_error + UnilateralDelays" where
  "deriveUnilateralDelays serverExitDelay =
     (if \<not> isFinite serverExitDelay \<or> js_le serverExitDelay (jint 0) then Inl ExitDelayNotPositive
      else case js_int serverExitDelay of
        None \<Rightarrow> Inl ExitDelayNotWhole
      | Some d \<Rightarrow>
          if delayUnit (relativeDelayFrom d) = Blocks then
            if d > MAX_BIP68_BLOCKS then Inl (ExitDelayTooManyBlocks d)
            else Inr \<lparr>unilateralClaimDelay = d,
                      unilateralRefundDelay = d,
                      unilateralRefundWithoutReceiverDelay = d + SOLO_REFUND_HEADROOM_BLOCKS\<rparr>
          else if d > MAX_BIP68_SECONDS then Inl (ExitDelayExceedsBip68 d)
          else let base = ceilToGranularity d in
            Inr \<lparr>unilateralClaimDelay = base,
                 unilateralRefundDelay = base,
                 unilateralRefundWithoutReceiverDelay = base + SOLO_REFUND_HEADROOM_SECONDS\<rparr>)"

section \<open>Absolute locktimes\<close>

definition absoluteLocktimeUnit :: "int \<Rightarrow> TimelockUnit" where [gate]:
  "absoluteLocktimeUnit locktime = (if locktime \<ge> LOCKTIME_THRESHOLD then Seconds else Blocks)"

text \<open>\<open>assertAbsoluteLocktime\<close> returns nothing; \<open>Inr ()\<close> is the normal return.\<close>

definition assertAbsoluteLocktime ::
    "jsnum \<Rightarrow> string \<Rightarrow> TimelockUnit \<Rightarrow> timelock_error + unit" where
  "assertAbsoluteLocktime locktime label expected =
     (case js_int locktime of
        None \<Rightarrow> Inl (LocktimeNotInteger label)
      | Some l \<Rightarrow>
          if l \<le> 0 then Inl (LocktimeNotPositive label)
          else if absoluteLocktimeUnit l = expected then Inr ()
          else if expected = Seconds then Inl (LocktimeReadAsHeight label l)
          else Inl (LocktimeReadAsSeconds label l))"

record ChainMoment =
  momentNow :: int
  tipHeight :: int

definition absoluteLocktimeSeconds :: "int \<Rightarrow> ChainMoment \<Rightarrow> int" where [gate]:
  "absoluteLocktimeSeconds locktime m =
     (if absoluteLocktimeUnit locktime = Seconds then locktime
      else momentNow m + (locktime - tipHeight m) * NOMINAL_BLOCK_SECONDS)"

definition absoluteLocktimeReached :: "int \<Rightarrow> ChainMoment \<Rightarrow> bool" where [gate]:
  "absoluteLocktimeReached locktime m =
     (if absoluteLocktimeUnit locktime = Seconds then momentNow m \<ge> locktime
      else tipHeight m \<ge> locktime)"

definition absoluteLocktimeIn ::
    "int \<Rightarrow> TimelockUnit \<Rightarrow> ChainMoment \<Rightarrow> timelock_error + int" where
  "absoluteLocktimeIn deadlineSeconds u m =
     (if u = Seconds then Inr deadlineSeconds
      else let height = tipHeight m + ceil_div (deadlineSeconds - momentNow m) NOMINAL_BLOCK_SECONDS in
        if height \<ge> LOCKTIME_THRESHOLD then Inl (RefundHeightReadsAsSeconds height)
        else Inr height)"

section \<open>Facts\<close>

lemma ceilToGranularity_ge: "s \<le> ceilToGranularity s"
  using ceil_div_ge [of SEQUENCE_GRANULARITY_SECONDS s] by (simp add: gate policy)

lemma ceilToGranularity_lt: "ceilToGranularity s < s + 512"
  using ceil_div_lt [of SEQUENCE_GRANULARITY_SECONDS s] by (simp add: gate policy)

lemma ceilToGranularity_mono: "s \<le> s' \<Longrightarrow> ceilToGranularity s \<le> ceilToGranularity s'"
  using ceil_div_mono [of SEQUENCE_GRANULARITY_SECONDS s s'] by (simp add: gate policy)

lemma ceilToGranularity_mod [simp]: "ceilToGranularity s mod 512 = 0"
  by (simp add: gate policy)

lemma ceilToGranularity_headroom_mod [simp]: "(ceilToGranularity s + 4096) mod 512 = 0"
  by (subst mod_add_left_eq [symmetric]) simp

lemma ceilToGranularity_le_max:
  "s \<le> MAX_BIP68_SECONDS \<Longrightarrow> ceilToGranularity s \<le> MAX_BIP68_SECONDS"
  using ceil_div_least [of 512 s 65535] by (simp add: gate policy)

lemma rawDelaySeconds_seconds: "512 \<le> raw \<Longrightarrow> rawDelaySeconds raw = raw"
  by (simp add: gate policy)

lemma rawDelaySeconds_blocks: "raw < 512 \<Longrightarrow> rawDelaySeconds raw = raw * 600"
  by (simp add: gate policy)

lemmas rawDelaySeconds_cases = rawDelaySeconds_seconds rawDelaySeconds_blocks

lemma isEncodableDelay_jint:
  "isEncodableDelay (jint d) \<longleftrightarrow> 0 < d \<and> (d < 512 \<or> d mod 512 = 0)"
  by (auto simp: isEncodableDelay_def isEncodableRelativeDelay_def SEQUENCE_GRANULARITY_SECONDS_def)

lemma secondsForBlockRung_ge: "b * 600 \<le> secondsForBlockRung b"
  using ceilToGranularity_ge [of "b * 600"] by (simp add: secondsForBlockRung_def policy)

lemma secondsForBlockRung_mod [simp]: "secondsForBlockRung b mod 512 = 0"
  by (simp add: secondsForBlockRung_def)

lemma secondsForBlockRung_mono: "b \<le> b' \<Longrightarrow> secondsForBlockRung b \<le> secondsForBlockRung b'"
  by (simp add: secondsForBlockRung_def policy ceilToGranularity_mono)

section \<open>Well-formed ladders\<close>

text \<open>
  What the script builder needs of the three delays: every rung encodes as BIP68, all on one clock,
  and the funder's solo rung opens last.
\<close>

definition ladder_wf :: "UnilateralDelays \<Rightarrow> bool" where
  "ladder_wf L \<longleftrightarrow>
     isEncodableDelay (jint (unilateralClaimDelay L)) \<and>
     isEncodableDelay (jint (unilateralRefundDelay L)) \<and>
     isEncodableDelay (jint (unilateralRefundWithoutReceiverDelay L)) \<and>
     delayUnit (relativeDelayFrom (unilateralRefundDelay L)) =
       delayUnit (relativeDelayFrom (unilateralClaimDelay L)) \<and>
     delayUnit (relativeDelayFrom (unilateralRefundWithoutReceiverDelay L)) =
       delayUnit (relativeDelayFrom (unilateralClaimDelay L)) \<and>
     unilateralClaimDelay L \<le> unilateralRefundDelay L \<and>
     unilateralRefundDelay L < unilateralRefundWithoutReceiverDelay L"

lemma ladder_wf_alt:
  "ladder_wf L \<longleftrightarrow>
     (let c = unilateralClaimDelay L; r = unilateralRefundDelay L;
          s = unilateralRefundWithoutReceiverDelay L
      in 0 < c \<and> c \<le> r \<and> r < s \<and>
         (s < 512 \<or> 512 \<le> c \<and> c mod 512 = 0 \<and> r mod 512 = 0 \<and> s mod 512 = 0))"
  by (auto simp: ladder_wf_def isEncodableDelay_jint relativeDelayFrom_def Let_def
      SEQUENCE_GRANULARITY_SECONDS_def split: if_splits)

lemma deriveUnilateralDelays_jint:
  "deriveUnilateralDelays (jint d) =
     (if d \<le> 0 then Inl ExitDelayNotPositive
      else if d < 512 then
        if 503 < d then Inl (ExitDelayTooManyBlocks d)
        else Inr \<lparr>unilateralClaimDelay = d, unilateralRefundDelay = d,
                  unilateralRefundWithoutReceiverDelay = d + 8\<rparr>
      else if 33553920 < d then Inl (ExitDelayExceedsBip68 d)
      else Inr \<lparr>unilateralClaimDelay = ceilToGranularity d,
                unilateralRefundDelay = ceilToGranularity d,
                unilateralRefundWithoutReceiverDelay = ceilToGranularity d + 4096\<rparr>)"
  by (auto simp: deriveUnilateralDelays_def relativeDelayFrom_def Let_def policy)

lemma deriveUnilateralDelays_okD:
  assumes "deriveUnilateralDelays n = Inr L"
  obtains d where "n = jint d" and "0 < d"
proof -
  from assms have "isInteger n"
    by (auto simp: deriveUnilateralDelays_def isInteger_def split: if_splits option.splits)
  then obtain d where d: "n = jint d" by (auto simp: isInteger_iff)
  with assms have "0 < d" by (auto simp: deriveUnilateralDelays_jint split: if_splits)
  with d show ?thesis by (rule that)
qed

text \<open>
  Every ladder derived from a server exit delay is well formed (all rungs encodable, one clock,
  the funder's solo rung strictly last), no rung is shorter than the server's own minimum, and the
  solo rung opens at least \<open>SOLO_REFUND_HEADROOM_SECONDS\<close> of wall clock after the claim rung.
\<close>

theorem derived_ladder_sound:
  assumes "deriveUnilateralDelays n = Inr L"
  shows "ladder_wf L \<and>
    (\<exists>d. n = jint d \<and> rawDelaySeconds d \<le> rawDelaySeconds (unilateralClaimDelay L)) \<and>
    rawDelaySeconds (unilateralClaimDelay L) + SOLO_REFUND_HEADROOM_SECONDS
      \<le> rawDelaySeconds (unilateralRefundWithoutReceiverDelay L)"
proof -
  from assms obtain d where n: "n = jint d" and d: "0 < d" by (rule deriveUnilateralDelays_okD)
  note ge = ceilToGranularity_ge [of d]
  from assms have L: "deriveUnilateralDelays (jint d) = Inr L" by (simp add: n)
  have "ladder_wf L"
    using L d ge by (auto simp: deriveUnilateralDelays_jint ladder_wf_alt split: if_splits)
  moreover have "rawDelaySeconds d \<le> rawDelaySeconds (unilateralClaimDelay L)"
    using L d ge by (auto simp: deriveUnilateralDelays_jint rawDelaySeconds_cases split: if_splits)
  moreover have "rawDelaySeconds (unilateralClaimDelay L) + SOLO_REFUND_HEADROOM_SECONDS
      \<le> rawDelaySeconds (unilateralRefundWithoutReceiverDelay L)"
    using L d ge
    by (auto simp: deriveUnilateralDelays_jint rawDelaySeconds_cases policy split: if_splits)
  ultimately show ?thesis using n by blast
qed

theorem derived_ladder_sound_witness:
  "ladder_wf \<lparr>unilateralClaimDelay = 605184, unilateralRefundDelay = 605184,
     unilateralRefundWithoutReceiverDelay = 609280\<rparr>"
proof -
  have "deriveUnilateralDelays (jint 604800) =
    Inr \<lparr>unilateralClaimDelay = 605184, unilateralRefundDelay = 605184,
         unilateralRefundWithoutReceiverDelay = 609280\<rparr>"
    unfolding deriveUnilateralDelays_jint by (simp add: ceilToGranularity_def ceil_div_def policy)
  from derived_ladder_sound [OF this] show ?thesis by simp
qed

text \<open>
  C36: a seconds deadline written into a script as a height projects back, at the same chain moment,
  to no earlier than the deadline and to less than one nominal block after it; the height stays
  below the threshold at which it would be read as a timestamp.
\<close>

theorem absoluteLocktimeIn_roundtrip:
  assumes "absoluteLocktimeIn deadline Blocks m = Inr h"
  shows "absoluteLocktimeUnit h = Blocks \<and>
    deadline \<le> absoluteLocktimeSeconds h m \<and>
    absoluteLocktimeSeconds h m < deadline + NOMINAL_BLOCK_SECONDS"
proof -
  let ?k = "ceil_div (deadline - momentNow m) 600"
  from assms have h: "h = tipHeight m + ?k" and lt: "h < LOCKTIME_THRESHOLD"
    by (auto simp: absoluteLocktimeIn_def Let_def NOMINAL_BLOCK_SECONDS_def split: if_splits)
  have "deadline - momentNow m \<le> ?k * 600" "?k * 600 < deadline - momentNow m + 600"
    by (simp_all add: ceil_div_ge ceil_div_lt)
  with h lt show ?thesis
    by (simp add: absoluteLocktimeSeconds_def absoluteLocktimeUnit_def NOMINAL_BLOCK_SECONDS_def)
qed

theorem absoluteLocktimeIn_roundtrip_witness:
  "absoluteLocktimeSeconds 112 \<lparr>momentNow = 1700000000, tipHeight = 100\<rparr> < 1700006901 + 600"
proof -
  have "absoluteLocktimeIn 1700006901 Blocks \<lparr>momentNow = 1700000000, tipHeight = 100\<rparr> = Inr 112"
    by (simp add: absoluteLocktimeIn_def ceil_div_def policy)
  from absoluteLocktimeIn_roundtrip [OF this] show ?thesis by (simp add: NOMINAL_BLOCK_SECONDS_def)
qed

text \<open>
  The seconds ladder does not reserve the headroom under the BIP68 ceiling that the block ladder
  reserves. Every exit delay in the last eight units below the ceiling is accepted and yields a solo
  refund rung that no 16-bit BIP68 field can hold.
\<close>

theorem derived_solo_rung_can_exceed_bip68:
  assumes "MAX_BIP68_SECONDS - SOLO_REFUND_HEADROOM_SECONDS < d" and "d \<le> MAX_BIP68_SECONDS"
  shows "\<exists>L. deriveUnilateralDelays (jint d) = Inr L \<and>
    MAX_BIP68_SECONDS < unilateralRefundWithoutReceiverDelay L"
  using assms ceilToGranularity_ge [of d] unfolding deriveUnilateralDelays_jint
  by (simp add: policy)

theorem derived_solo_rung_can_exceed_bip68_witness:
  "\<exists>L. deriveUnilateralDelays (jint 33553920) = Inr L \<and>
    MAX_BIP68_SECONDS < unilateralRefundWithoutReceiverDelay L"
  by (rule derived_solo_rung_can_exceed_bip68) (simp_all add: policy)

end
