(* ===== verification/Invoice.thy ===== *)
theory Invoice
  imports Prelude
begin

text \<open>
  \<^verbatim>\<open>solver-core/src/invoice/decode.ts\<close>: validation of an untrusted BOLT11 invoice. The bech32/TLV
  parser is the third-party package \<^verbatim>\<open>light-bolt11-decoder\<close>, so its \<open>decode\<close> is the parameter
  \<open>bolt11\<close> (\<open>None\<close> where it throws) and JavaScript's \<open>Number(string)\<close> on the amount it returns is
  the parameter \<open>number_of\<close>; everything the file itself decides is modelled. Strings are ASCII.
\<close>

section \<open>Decoder output\<close>

record RouteHintHop =
  cltv_expiry_delta :: "int option" \<comment> \<open>\<open>None\<close>: not of type number\<close>
  short_channel_id :: "string option" \<comment> \<open>\<open>None\<close>: not of type string\<close>

datatype section_value =
    SvUndefined | SvNull
  | SvString string
  | SvNumber int
  | SvNetwork "string option"
  | SvHops "RouteHintHop list"

record bolt11_decoded =
  boltSections :: "(string \<times> section_value) list"
  boltExpiry :: "int option"

type_synonym bolt11_decode = "string \<Rightarrow> bolt11_decoded option"

definition MAX_INVOICE_LENGTH :: nat where [policy]: "MAX_INVOICE_LENGTH = 2048"
definition DEFAULT_EXPIRY_SECONDS :: int where [policy]: "DEFAULT_EXPIRY_SECONDS = 3600"
definition DEFAULT_MIN_FINAL_CLTV :: int where [policy]: "DEFAULT_MIN_FINAL_CLTV = 18"
definition MAX_CLIENT_FINAL_CLTV_BLOCKS :: int where [policy]: "MAX_CLIENT_FINAL_CLTV_BLOCKS = 288"
definition MAX_CLIENT_CLTV_BLOCKS :: int where [policy]: "MAX_CLIENT_CLTV_BLOCKS = 288"

record DroppedHint =
  dropped_scid :: string
  dropped_cltv :: int

record DecodedInvoice =
  invInvoice :: string
  invPaymentHash :: string
  invAmountSats :: int
  invExpiresAt :: int
  invNetwork :: string
  invMinFinalCltvBlocks :: int
  invWorstRouteHintCltvBlocks :: int
  invBestRouteHintCltvBlocks :: int
  droppedHints :: "DroppedHint list"

datatype InvoiceRejection =
    Too_long | Mixed_case | Malformed | Missing_payment_hash | Missing_amount
  | Sub_satoshi_amount | Missing_network | Missing_timestamp | Cltv_too_large

section \<open>Readers\<close>

text \<open>\<open>sections.find(s => s.name === name)?.value\<close>\<close>

definition section_of :: "bolt11_decoded \<Rightarrow> string \<Rightarrow> section_value" where
  "section_of d name = (case map_of (boltSections d) name of None \<Rightarrow> SvUndefined | Some v \<Rightarrow> v)"

text \<open>\<open>typeof value === 'string'\<close> and \<open>typeof value === 'number'\<close>, with the value.\<close>

fun string_value :: "section_value \<Rightarrow> string option" where
  "string_value (SvString s) = Some s"
| "string_value _ = None"

fun number_value :: "section_value \<Rightarrow> int option" where
  "number_value (SvNumber i) = Some i"
| "number_value _ = None"

fun network_value :: "section_value \<Rightarrow> string" where
  "network_value (SvNetwork (Some b)) = b"
| "network_value _ = ''''"

text \<open>\<open>Number.isFinite(msat) \<and> msat > 0\<close>, with the rational.\<close>

fun positive_finite :: "jsnum \<Rightarrow> rat option" where
  "positive_finite (Fin q) = (if q \<le> 0 then None else Some q)"
| "positive_finite _ = None"

definition parseBolt11 :: "bolt11_decode \<Rightarrow> string \<Rightarrow> InvoiceRejection + bolt11_decoded" where
  "parseBolt11 bolt11 raw =
     and_then (refuse_if (length raw > MAX_INVOICE_LENGTH) Too_long) (\<lambda>_.
     or_refuse (bolt11 (toLowerCase raw)) Malformed)"

definition finalCltvBlocksOf :: "bolt11_decode \<Rightarrow> string \<Rightarrow> InvoiceRejection + int" where
  "finalCltvBlocksOf bolt11 raw =
     and_then (parseBolt11 bolt11 raw) (\<lambda>d. Inr (case number_value (section_of d ''min_final_cltv_expiry'') of
                        Some v \<Rightarrow> v | None \<Rightarrow> DEFAULT_MIN_FINAL_CLTV))"

definition expiresAtOf :: "bolt11_decode \<Rightarrow> string \<Rightarrow> InvoiceRejection + int" where
  "expiresAtOf bolt11 raw =
     and_then (parseBolt11 bolt11 raw) (\<lambda>d.
     and_then (or_refuse (number_value (section_of d ''timestamp'')) Missing_timestamp) (\<lambda>timestamp.
     and_then (refuse_if (timestamp \<le> 0) Missing_timestamp) (\<lambda>_.
     Inr (timestamp + (case boltExpiry d of Some x \<Rightarrow> x | None \<Rightarrow> DEFAULT_EXPIRY_SECONDS)))))"

definition paymentHashOf :: "bolt11_decode \<Rightarrow> string \<Rightarrow> InvoiceRejection + string" where
  "paymentHashOf bolt11 raw =
     and_then (parseBolt11 bolt11 raw) (\<lambda>d.
     and_then (or_refuse (string_value (section_of d ''payment_hash'')) Missing_payment_hash) (\<lambda>h.
     and_then (refuse_if (length h \<noteq> 64) Missing_payment_hash) (\<lambda>_.
     Inr h)))"

text \<open>\<open>Number(value)\<close> on an amount section; an absent, null or empty one is refused before.\<close>

fun amount_number :: "(string \<Rightarrow> jsnum) \<Rightarrow> section_value \<Rightarrow> jsnum option" where
  "amount_number number_of SvUndefined = None"
| "amount_number number_of SvNull = None"
| "amount_number number_of (SvString s) = (if s = '''' then None else Some (number_of s))"
| "amount_number number_of (SvNumber i) = Some (jint i)"
| "amount_number number_of _ = Some NaN"

definition scidOf :: "RouteHintHop \<Rightarrow> string" where
  "scidOf hop = (case short_channel_id hop of Some s \<Rightarrow> toLowerCase s | None \<Rightarrow> '''')"

definition hint_cltv :: "RouteHintHop list \<Rightarrow> int" where
  "hint_cltv hops =
     sum_list (map (\<lambda>hop. case cltv_expiry_delta hop of Some d \<Rightarrow> d | None \<Rightarrow> 0) hops)"

definition deniedScid :: "string list \<Rightarrow> RouteHintHop list \<Rightarrow> string option" where
  "deniedScid denylist hops = find (\<lambda>scid. scid \<in> set denylist) (map scidOf hops)"

definition route_hints :: "bolt11_decoded \<Rightarrow> RouteHintHop list list" where
  "route_hints d =
     map (\<lambda>s. case snd s of SvHops hops \<Rightarrow> hops | _ \<Rightarrow> [])
       (filter (\<lambda>s. fst s = ''route_hint'') (boltSections d))"

definition hintTotals :: "string list \<Rightarrow> RouteHintHop list list \<Rightarrow> int list" where
  "hintTotals denylist hints = map hint_cltv (filter (\<lambda>h. deniedScid denylist h = None) hints)"

definition droppedHintsOf :: "string list \<Rightarrow> RouteHintHop list list \<Rightarrow> DroppedHint list" where
  "droppedHintsOf denylist hints =
     List.map_filter (\<lambda>h. map_option (\<lambda>scid. \<lparr>dropped_scid = scid, dropped_cltv = hint_cltv h\<rparr>)
       (deniedScid denylist h)) hints"

definition worst_total :: "int list \<Rightarrow> int" where
  "worst_total totals = foldl max 0 totals"

definition best_total :: "int list \<Rightarrow> int" where
  "best_total totals = (case totals of [] \<Rightarrow> 0 | t # ts \<Rightarrow> foldl min t ts)"

section \<open>The validating decoder\<close>

definition decodeInvoiceWithPolicy ::
    "bolt11_decode \<Rightarrow> (string \<Rightarrow> jsnum) \<Rightarrow> string \<Rightarrow> string list \<Rightarrow> bool
     \<Rightarrow> InvoiceRejection + DecodedInvoice" where
  "decodeInvoiceWithPolicy bolt11 number_of raw denylist enforceClientCltv =
     and_then (refuse_if (length raw > MAX_INVOICE_LENGTH) Too_long) (\<lambda>_.
     and_then (refuse_if (list_ex is_lower raw \<and> list_ex is_upper raw) Mixed_case) (\<lambda>_.
     and_then (or_refuse (bolt11 (toLowerCase raw)) Malformed) (\<lambda>d.
     and_then (or_refuse (string_value (section_of d ''payment_hash'')) Missing_payment_hash)
       (\<lambda>paymentHash.
     and_then (refuse_if (length paymentHash \<noteq> 64) Missing_payment_hash) (\<lambda>_.
     and_then (refuse_if (network_value (section_of d ''coin_network'') = '''') Missing_network) (\<lambda>_.
     and_then (or_refuse (number_value (section_of d ''timestamp'')) Missing_timestamp) (\<lambda>timestamp.
     and_then (refuse_if (timestamp \<le> 0) Missing_timestamp) (\<lambda>_.
     and_then (or_refuse (Option.bind (amount_number number_of (section_of d ''amount''))
       positive_finite) Missing_amount) (\<lambda>msat.
     and_then (refuse_if (of_int \<lfloor>msat / 1000\<rfloor> \<noteq> msat / 1000) Sub_satoshi_amount) (\<lambda>_.
     let minFinal = (case number_value (section_of d ''min_final_cltv_expiry'') of
                       Some v \<Rightarrow> v | None \<Rightarrow> DEFAULT_MIN_FINAL_CLTV) in
     and_then (refuse_if (enforceClientCltv \<and> minFinal > MAX_CLIENT_FINAL_CLTV_BLOCKS)
       Cltv_too_large) (\<lambda>_.
     let hints = route_hints d;
         totals = hintTotals denylist hints;
         worst = worst_total totals;
         best = best_total totals in
     and_then (refuse_if (enforceClientCltv \<and> minFinal + best > MAX_CLIENT_CLTV_BLOCKS)
       Cltv_too_large) (\<lambda>_.
     Inr \<lparr>invInvoice = toLowerCase raw,
          invPaymentHash = paymentHash,
          invAmountSats = \<lfloor>msat / 1000\<rfloor>,
          invExpiresAt = timestamp +
            (case boltExpiry d of Some x \<Rightarrow> x | None \<Rightarrow> DEFAULT_EXPIRY_SECONDS),
          invNetwork = network_value (section_of d ''coin_network''),
          invMinFinalCltvBlocks = minFinal,
          invWorstRouteHintCltvBlocks = worst,
          invBestRouteHintCltvBlocks = best,
          droppedHints = droppedHintsOf denylist hints\<rparr>))))))))))))"

definition decodeInvoice ::
    "bolt11_decode \<Rightarrow> (string \<Rightarrow> jsnum) \<Rightarrow> string \<Rightarrow> string list \<Rightarrow> InvoiceRejection + DecodedInvoice" where
  "decodeInvoice bolt11 number_of raw denylist =
     decodeInvoiceWithPolicy bolt11 number_of raw denylist True"

definition decodeCoupledInvoice ::
    "bolt11_decode \<Rightarrow> (string \<Rightarrow> jsnum) \<Rightarrow> string \<Rightarrow> string list \<Rightarrow> InvoiceRejection + DecodedInvoice" where
  "decodeCoupledInvoice bolt11 number_of raw denylist =
     decodeInvoiceWithPolicy bolt11 number_of raw denylist False"

definition amountSatsOf ::
    "bolt11_decode \<Rightarrow> (string \<Rightarrow> jsnum) \<Rightarrow> string \<Rightarrow> InvoiceRejection + rat" where
  "amountSatsOf bolt11 number_of raw =
     and_then (parseBolt11 bolt11 raw) (\<lambda>d.
     and_then (or_refuse (Option.bind (amount_number number_of (section_of d ''amount''))
       positive_finite) Missing_amount) (\<lambda>msat.
     Inr (msat / 1000)))"

section \<open>Facts\<close>

lemma worst_total_Max: "worst_total ts = Max (insert 0 (set ts))"
proof (rule Max_eqI [symmetric])
  show "y \<le> worst_total ts" if "y \<in> insert 0 (set ts)" for y
    using that by (auto simp: worst_total_def foldl_max_le foldl_max_ge)
  show "worst_total ts \<in> insert 0 (set ts)"
    unfolding worst_total_def by (rule foldl_max_in)
qed simp

lemma best_total_Min: "ts \<noteq> [] \<Longrightarrow> best_total ts = Min (set ts)"
  by (cases ts) (simp_all only: best_total_def list.case Min_foldl, simp)

lemma best_le_worst: "best_total ts \<le> worst_total ts"
proof (cases "ts = []")
  case False
  then have "best_total ts \<in> set ts" by (simp add: best_total_Min)
  then show ?thesis by (simp add: worst_total_def foldl_max_ge)
qed (simp add: best_total_def worst_total_def)

text \<open>The facts a successful decode establishes, field by field.\<close>

lemma decode_shape:
  assumes "decodeInvoiceWithPolicy bolt11 number_of raw denylist enf = Inr i"
  shows "length raw \<le> MAX_INVOICE_LENGTH \<and> invInvoice i = toLowerCase raw \<and>
    invNetwork i \<noteq> '''' \<and> length (invPaymentHash i) = 64 \<and>
    (enf \<longrightarrow> invMinFinalCltvBlocks i + invBestRouteHintCltvBlocks i \<le> MAX_CLIENT_CLTV_BLOCKS) \<and>
    (\<exists>d msat t. bolt11 (toLowerCase raw) = Some d \<and>
      string_value (section_of d ''payment_hash'') = Some (invPaymentHash i) \<and>
      number_value (section_of d ''timestamp'') = Some t \<and> 0 < t \<and>
      invExpiresAt i = t + (case boltExpiry d of Some x \<Rightarrow> x | None \<Rightarrow> DEFAULT_EXPIRY_SECONDS) \<and>
      Option.bind (amount_number number_of (section_of d ''amount'')) positive_finite = Some msat \<and>
      of_int (invAmountSats i) = msat / 1000 \<and>
      invWorstRouteHintCltvBlocks i = worst_total (hintTotals denylist (route_hints d)) \<and>
      invBestRouteHintCltvBlocks i = best_total (hintTotals denylist (route_hints d)))"
  using assms unfolding decodeInvoiceWithPolicy_def Let_def
  by (simp only: result sum.inject, elim exE conjE, hypsubst)
    (simp add: not_less not_le del: bind_eq_Some_conv)

lemma positive_finite_Some: "positive_finite n = Some q \<longleftrightarrow> n = Fin q \<and> 0 < q"
  by (cases n) auto

lemma amount_exact:
  assumes "of_int a = msat / (1000::rat)" and "0 < msat"
  shows "0 < a \<and> msat = of_int (a * 1000)"
proof -
  have m: "msat = of_int (a * 1000)" using assms(1) by simp
  with assms(2) have "(0::rat) < of_int (a * 1000)" by simp
  then have "0 < a * 1000" by (simp only: of_int_0_less_iff)
  with m show ?thesis by simp
qed

text \<open>
  C27: an invoice the send leg accepts is within the parser's length bound, carries a 64-character
  payment hash and a network, its amount is a positive whole number of sats (exactly a thousandth of
  the millisats the decoder read), and the CLTV its writer can dictate under the most favourable
  route hint is within \<open>MAX_CLIENT_CLTV_BLOCKS\<close>. Both hint totals are those of the hints the denylist
  keeps: the worst is their maximum and the best their minimum, both zero when it keeps none.
\<close>

theorem decodeInvoice_sound:
  assumes "decodeInvoice bolt11 number_of raw denylist = Inr i"
  shows "length raw \<le> MAX_INVOICE_LENGTH \<and> invInvoice i = toLowerCase raw \<and>
    length (invPaymentHash i) = 64 \<and> invNetwork i \<noteq> '''' \<and> 0 < invAmountSats i \<and>
    invMinFinalCltvBlocks i + invBestRouteHintCltvBlocks i \<le> MAX_CLIENT_CLTV_BLOCKS \<and>
    invBestRouteHintCltvBlocks i \<le> invWorstRouteHintCltvBlocks i \<and>
    (\<exists>d kept. bolt11 (toLowerCase raw) = Some d \<and>
      amount_number number_of (section_of d ''amount'') = Some (jint (invAmountSats i * 1000)) \<and>
      kept = hint_cltv ` {h \<in> set (route_hints d). deniedScid denylist h = None} \<and>
      invWorstRouteHintCltvBlocks i = Max (insert 0 kept) \<and>
      invBestRouteHintCltvBlocks i = (if kept = {} then 0 else Min kept))"
proof -
  from decode_shape [OF assms [unfolded decodeInvoice_def]]
  obtain d msat where sh: "length raw \<le> MAX_INVOICE_LENGTH" "invInvoice i = toLowerCase raw"
      "invNetwork i \<noteq> ''''" "length (invPaymentHash i) = 64"
      "invMinFinalCltvBlocks i + invBestRouteHintCltvBlocks i \<le> MAX_CLIENT_CLTV_BLOCKS"
      "bolt11 (toLowerCase raw) = Some d"
    and am: "Option.bind (amount_number number_of (section_of d ''amount'')) positive_finite = Some msat"
      "of_int (invAmountSats i) = msat / 1000"
    and tot: "invWorstRouteHintCltvBlocks i = worst_total (hintTotals denylist (route_hints d))"
      "invBestRouteHintCltvBlocks i = best_total (hintTotals denylist (route_hints d))"
    by blast
  from am(1) have n: "amount_number number_of (section_of d ''amount'') = Some (Fin msat)" "0 < msat"
    by (auto simp: bind_eq_Some_conv positive_finite_Some)
  note ex = amount_exact [OF am(2) n(2)]
  have kept: "set (hintTotals denylist (route_hints d)) =
      hint_cltv ` {h \<in> set (route_hints d). deniedScid denylist h = None}"
    by (auto simp: hintTotals_def)
  have best: "best_total ts = (if set ts = {} then 0 else Min (set ts))" for ts
    by (cases "ts = []") (simp_all add: best_total_Min, simp add: best_total_def)
  have amount: "amount_number number_of (section_of d ''amount'') = Some (jint (invAmountSats i * 1000))"
    using n(1) ex by simp
  have worst: "invWorstRouteHintCltvBlocks i = Max (insert 0 (set (hintTotals denylist (route_hints d))))"
    by (simp add: tot(1) worst_total_Max)
  have "\<exists>d kept. bolt11 (toLowerCase raw) = Some d \<and>
      amount_number number_of (section_of d ''amount'') = Some (jint (invAmountSats i * 1000)) \<and>
      kept = hint_cltv ` {h \<in> set (route_hints d). deniedScid denylist h = None} \<and>
      invWorstRouteHintCltvBlocks i = Max (insert 0 kept) \<and>
      invBestRouteHintCltvBlocks i = (if kept = {} then 0 else Min kept)"
    by (intro exI conjI, rule sh(6), rule amount, rule refl, rule worst [unfolded kept], rule tot(2) [unfolded best kept])
  then show ?thesis
    using sh(1-5) ex best_le_worst [of "hintTotals denylist (route_hints d)"] by (simp add: tot)
qed

text \<open>A concrete decoder output, for the witnesses: 21 sats on regtest, hints of 40 and 40000.\<close>

definition sample_bolt11 :: bolt11_decode where
  "sample_bolt11 s = Some \<lparr>boltSections =
     [(''payment_hash'', SvString (replicate 64 (CHR ''a''))),
      (''coin_network'', SvNetwork (Some ''bcrt'')),
      (''timestamp'', SvNumber 1700000000), (''amount'', SvNumber 21000),
      (''route_hint'', SvHops [\<lparr>cltv_expiry_delta = Some 40, short_channel_id = Some ''0a''\<rparr>]),
      (''route_hint'', SvHops [\<lparr>cltv_expiry_delta = Some 40000, short_channel_id = Some ''0b''\<rparr>])],
     boltExpiry = None\<rparr>"

definition sample_invoice :: DecodedInvoice where
  "sample_invoice = \<lparr>invInvoice = ''lnbcrt1'', invPaymentHash = replicate 64 (CHR ''a''),
     invAmountSats = 21, invExpiresAt = 1700003600, invNetwork = ''bcrt'',
     invMinFinalCltvBlocks = 18, invWorstRouteHintCltvBlocks = 40000,
     invBestRouteHintCltvBlocks = 40, droppedHints = []\<rparr>"

lemma decode_sample: "decodeInvoice sample_bolt11 (\<lambda>_. NaN) ''lnbcrt1'' [] = Inr sample_invoice"
  by (simp add: decodeInvoice_def decodeInvoiceWithPolicy_def sample_bolt11_def section_of_def
      is_upper_def is_lower_def lower_char_def toLowerCase_def refuse_if_def policy Let_def
      route_hints_def hintTotals_def droppedHintsOf_def hint_cltv_def deniedScid_def
      worst_total_def best_total_def sample_invoice_def List.map_filter_simps)

theorem decodeInvoice_sound_witness:
  "0 < invAmountSats sample_invoice \<and>
   invMinFinalCltvBlocks sample_invoice + invBestRouteHintCltvBlocks sample_invoice \<le> 288"
  using decodeInvoice_sound [OF decode_sample] unfolding MAX_CLIENT_CLTV_BLOCKS_def by blast

text \<open>
  The single-field readers that run on rows already accepted (the payment hash a payment is keyed
  by, the amount a quote payload reports, the expiry) answer, without re-running the CLTV ceilings,
  exactly what the validating decode recorded, for the coupled decode as well as the ordinary one.
\<close>

theorem readers_agree_with_decode:
  assumes "decodeInvoiceWithPolicy bolt11 number_of raw denylist enf = Inr i"
  shows "paymentHashOf bolt11 raw = Inr (invPaymentHash i) \<and>
    amountSatsOf bolt11 number_of raw = Inr (of_int (invAmountSats i)) \<and>
    expiresAtOf bolt11 raw = Inr (invExpiresAt i)"
proof -
  from decode_shape [OF assms] obtain d msat t where
    "length raw \<le> MAX_INVOICE_LENGTH" "bolt11 (toLowerCase raw) = Some d"
    "length (invPaymentHash i) = 64"
    "string_value (section_of d ''payment_hash'') = Some (invPaymentHash i)"
    "number_value (section_of d ''timestamp'') = Some t" "0 < t"
    "invExpiresAt i = t + (case boltExpiry d of Some x \<Rightarrow> x | None \<Rightarrow> DEFAULT_EXPIRY_SECONDS)"
    "Option.bind (amount_number number_of (section_of d ''amount'')) positive_finite = Some msat"
    "of_int (invAmountSats i) = msat / 1000"
    by blast
  then show ?thesis
    by (simp add: paymentHashOf_def amountSatsOf_def expiresAtOf_def parseBolt11_def refuse_if_def)
qed

theorem readers_agree_with_decode_witness:
  "paymentHashOf sample_bolt11 ''lnbcrt1'' = Inr (invPaymentHash sample_invoice)"
  using readers_agree_with_decode [OF decode_sample [unfolded decodeInvoice_def]] by blast

end
