(* ===== verification/Send_Gates.thy ===== *)
theory Send_Gates
  imports Timelocks Invoice
begin

text \<open>
  \<^verbatim>\<open>solver-core/src/core/send.ts\<close>: the deadline arithmetic and the two decisions of the
  \<open>arkade:BTC->lightning:BTC\<close> leg. \<open>evaluateSendAcceptance\<close> decides whether to quote and fixes the
  client's refund deadline; \<open>evaluateSendPayment\<close> decides, at the moment of paying, whether the
  solver may still pay. Amounts that the code tests with \<open>Number.isFinite\<close> are \<open>jsnum\<close>.
\<close>

section \<open>Policy constants\<close>

definition MIN_INVOICE_WINDOW :: int where [policy]: "MIN_INVOICE_WINDOW = 2 * MINUTE"
definition MIN_CLAIM_WINDOW :: int where [policy]: "MIN_CLAIM_WINDOW = 90 * MINUTE"
definition DEFAULT_LOCKUP_TIMEOUT :: int where [policy]: "DEFAULT_LOCKUP_TIMEOUT = 15 * MINUTE"
definition SECONDS_PER_BLOCK :: int where [policy]: "SECONDS_PER_BLOCK = 10 * MINUTE"
definition ROUTE_CLTV_BUDGET_BLOCKS :: int where [policy]: "ROUTE_CLTV_BUDGET_BLOCKS = 432"
definition REFUND_SAFETY_MARGIN :: int where [policy]: "REFUND_SAFETY_MARGIN = 2 * HOUR"
definition UNENFORCED_ROUTE_CLTV_BUDGET_BLOCKS :: int where [policy]:
  "UNENFORCED_ROUTE_CLTV_BUDGET_BLOCKS = 2016"
definition MAX_LOCKUP_TIMEOUT :: int where [policy]: "MAX_LOCKUP_TIMEOUT = REFUND_SAFETY_MARGIN"

section \<open>Coupled self-payments\<close>

datatype CouplingDeadlineDecision = Couple | Coupled_deadline_unsafe

definition evaluateCouplingDeadlines :: "int \<Rightarrow> int \<Rightarrow> CouplingDeadlineDecision" where [gate]:
  "evaluateCouplingDeadlines sendRefundLocktime receiveRefundLocktime =
     (if sendRefundLocktime - receiveRefundLocktime \<ge> MIN_CLAIM_WINDOW then Couple
      else Coupled_deadline_unsafe)"

section \<open>Deadlines\<close>

definition lockupDeadlineFor :: "int \<Rightarrow> int \<Rightarrow> int \<Rightarrow> int" where [gate]:
  "lockupDeadlineFor quotedAt invoiceExpiresAt lockupTimeout =
     min (quotedAt + lockupTimeout) (invoiceExpiresAt - MIN_INVOICE_WINDOW)"

record HtlcCltv =
  minFinalCltvBlocks :: int
  worstRouteHintCltvBlocks :: int
  bestRouteHintCltvBlocks :: int
  routeCltvBudgetBlocks :: int
  enforcesRouteCltv :: bool

definition hintCltvBlocks :: "HtlcCltv \<Rightarrow> int" where [gate]:
  "hintCltvBlocks cltv =
     (if enforcesRouteCltv cltv then bestRouteHintCltvBlocks cltv else worstRouteHintCltvBlocks cltv)"

definition worstCaseHtlcBlocks :: "HtlcCltv \<Rightarrow> int" where [gate]:
  "worstCaseHtlcBlocks cltv =
     minFinalCltvBlocks cltv + hintCltvBlocks cltv + routeCltvBudgetBlocks cltv"

definition payableCltvBlocks :: "HtlcCltv \<Rightarrow> int \<Rightarrow> int \<Rightarrow> int" where [gate]:
  "payableCltvBlocks cltv refundLocktime now =
     min (worstCaseHtlcBlocks cltv)
       ((refundLocktime - now - REFUND_SAFETY_MARGIN) div SECONDS_PER_BLOCK)"

definition deadlineContainsHtlc :: "HtlcCltv \<Rightarrow> int \<Rightarrow> int \<Rightarrow> bool" where [gate]:
  "deadlineContainsHtlc cltv refundLocktime now \<longleftrightarrow>
     payableCltvBlocks cltv refundLocktime now \<ge> worstCaseHtlcBlocks cltv"

definition refundLocktimeFor :: "HtlcCltv \<Rightarrow> int \<Rightarrow> int \<Rightarrow> int \<Rightarrow> int" where [gate]:
  "refundLocktimeFor cltv claimDelay now lockupTimeout =
     (let fundingWindow = (if enforcesRouteCltv cltv then 0 else lockupTimeout);
          htlcBound = now + worstCaseHtlcBlocks cltv * SECONDS_PER_BLOCK + fundingWindow
                      + REFUND_SAFETY_MARGIN;
          unilateralBound = now + rawDelaySeconds claimDelay + REFUND_SAFETY_MARGIN
      in max htlcBound unilateralBound)"

section \<open>The ladder of one quote\<close>

text \<open>The set of the rungs' units has size one iff the second and third equal the first.\<close>

definition ladder_units :: "UnilateralDelays \<Rightarrow> TimelockUnit set" where
  "ladder_units base =
     {delayUnit (relativeDelayFrom (unilateralClaimDelay base)),
      delayUnit (relativeDelayFrom (unilateralRefundDelay base)),
      delayUnit (relativeDelayFrom (unilateralRefundWithoutReceiverDelay base))}"

definition unilateralLadderFor ::
    "UnilateralDelays \<Rightarrow> int \<Rightarrow> int \<Rightarrow> timelock_error + UnilateralDelays" where
  "unilateralLadderFor base refundLocktime quotedAt =
     (if card (ladder_units base) \<noteq> 1 then Inl LadderMixesUnits
      else let horizon = max 0 (refundLocktime - quotedAt) in
      if Seconds \<in> ladder_units base then
        let solo = max (unilateralRefundWithoutReceiverDelay base) (ceilToGranularity horizon) in
        if \<not> isEncodableDelay (jint solo) \<or> solo > MAX_BIP68_SECONDS
        then Inl (HorizonUnencodable solo)
        else Inr (base\<lparr>unilateralRefundWithoutReceiverDelay := solo\<rparr>)
      else let requiredBlocks = ceil_div horizon NOMINAL_BLOCK_SECONDS in
      if max (unilateralRefundWithoutReceiverDelay base) requiredBlocks < SEQUENCE_GRANULARITY_SECONDS
      then Inr (base\<lparr>unilateralRefundWithoutReceiverDelay :=
                       max (unilateralRefundWithoutReceiverDelay base) requiredBlocks\<rparr>)
      else let ladder =
        \<lparr>unilateralClaimDelay = secondsForBlockRung (unilateralClaimDelay base),
         unilateralRefundDelay = secondsForBlockRung (unilateralRefundDelay base),
         unilateralRefundWithoutReceiverDelay =
           max (secondsForBlockRung (unilateralRefundWithoutReceiverDelay base))
               (ceilToGranularity horizon)\<rparr> in
        if \<not> isEncodableDelay (jint (unilateralRefundWithoutReceiverDelay ladder)) \<or>
           unilateralRefundWithoutReceiverDelay ladder > MAX_BIP68_SECONDS
        then Inl (HorizonUnencodable (unilateralRefundWithoutReceiverDelay ladder))
        else Inr ladder)"

definition refundWithoutReceiverDelayCovers :: "int \<Rightarrow> int \<Rightarrow> int \<Rightarrow> bool" where [gate]:
  "refundWithoutReceiverDelayCovers delay refundLocktime quotedAt \<longleftrightarrow>
     rawDelaySeconds delay \<ge> refundLocktime - quotedAt"

section \<open>Whether to quote\<close>

record Limits =
  minSats :: int
  maxSats :: int

datatype SendAcceptanceRefusal =
    Sa_invoice_expired | Sa_invoice_expires_too_soon | Sa_wrong_network
  | Sa_amount_out_of_range | Sa_zero_amount_invoice | Sa_cltv_too_large

record SendAcceptanceInput =
  saInvoiceExpiresAt :: int
  saInvoiceAmountSats :: jsnum
  saInvoiceNetwork :: string
  saProviderNetwork :: string
  saLimits :: Limits
  saCltv :: HtlcCltv
  saUnilateralClaimDelay :: int
  saLockupTimeout :: "int option"
  saNow :: int

record SendAcceptance =
  accRefundLocktime :: int
  accLockupDeadline :: int

definition evaluateSendAcceptance ::
    "SendAcceptanceInput \<Rightarrow> SendAcceptanceRefusal + SendAcceptance" where
  "evaluateSendAcceptance input =
     (let lockupTimeout = (case saLockupTimeout input of Some t \<Rightarrow> t | None \<Rightarrow> DEFAULT_LOCKUP_TIMEOUT);
          cltv = saCltv input; now = saNow input; amount = saInvoiceAmountSats input in
      and_then (refuse_if (saInvoiceNetwork input \<noteq> saProviderNetwork input) Sa_wrong_network) (\<lambda>_.
      and_then (refuse_if (\<not> isFinite amount \<or> js_le amount (jint 0)) Sa_zero_amount_invoice) (\<lambda>_.
      and_then (refuse_if (js_lt amount (jint (minSats (saLimits input))) \<or>
                           js_lt (jint (maxSats (saLimits input))) amount) Sa_amount_out_of_range) (\<lambda>_.
      and_then (refuse_if (now \<ge> saInvoiceExpiresAt input) Sa_invoice_expired) (\<lambda>_.
      let lockupDeadline = lockupDeadlineFor now (saInvoiceExpiresAt input) lockupTimeout in
      and_then (refuse_if (lockupDeadline \<le> now) Sa_invoice_expires_too_soon) (\<lambda>_.
      and_then (refuse_if (\<not> enforcesRouteCltv cltv \<and>
                           minFinalCltvBlocks cltv + worstRouteHintCltvBlocks cltv > MAX_CLIENT_CLTV_BLOCKS)
                  Sa_cltv_too_large) (\<lambda>_.
      Inr \<lparr>accRefundLocktime =
             refundLocktimeFor cltv (saUnilateralClaimDelay input) now lockupTimeout,
           accLockupDeadline = lockupDeadline\<rparr>)))))))"

section \<open>Whether to pay\<close>

datatype SendPaymentRefusal =
    Sp_invoice_expired | Sp_invoice_expires_too_soon | Sp_claim_window_too_short
  | Sp_cltv_budget_too_short | Sp_uncapped_route_deadline_too_short | Sp_lockup_insufficient

record SendPaymentInput =
  spInvoiceExpiresAt :: int
  spRefundLocktime :: int
  spLockedSats :: jsnum
  spExpectedSats :: jsnum
  spCltv :: HtlcCltv
  spNow :: int

text \<open>\<open>{ pay: true }\<close> is \<open>Inr ()\<close>.\<close>

definition evaluateSendPayment :: "SendPaymentInput \<Rightarrow> SendPaymentRefusal + unit" where
  "evaluateSendPayment input =
     (let cltv = spCltv input; now = spNow input; refundLocktime = spRefundLocktime input in
      and_then (refuse_if (\<not> isFinite (spLockedSats input) \<or> \<not> isFinite (spExpectedSats input) \<or>
                           js_le (spExpectedSats input) (jint 0) \<or>
                           js_lt (spLockedSats input) (spExpectedSats input))
                  Sp_lockup_insufficient) (\<lambda>_.
      and_then (refuse_if (now \<ge> spInvoiceExpiresAt input) Sp_invoice_expired) (\<lambda>_.
      and_then (refuse_if (spInvoiceExpiresAt input - now < MIN_INVOICE_WINDOW)
                  Sp_invoice_expires_too_soon) (\<lambda>_.
      and_then (refuse_if (refundLocktime - now < MIN_CLAIM_WINDOW) Sp_claim_window_too_short) (\<lambda>_.
      let budget = payableCltvBlocks cltv refundLocktime now in
      and_then (refuse_if (budget \<le> minFinalCltvBlocks cltv + hintCltvBlocks cltv)
                  Sp_cltv_budget_too_short) (\<lambda>_.
      refuse_if (\<not> enforcesRouteCltv cltv \<and> \<not> deadlineContainsHtlc cltv refundLocktime now)
        Sp_uncapped_route_deadline_too_short))))))"

section \<open>Facts\<close>

lemma payable_fits: "now + payableCltvBlocks c R now * 600 + REFUND_SAFETY_MARGIN \<le> R"
proof -
  let ?d = "R - now - 7200"
  have "?d div 600 * 600 \<le> ?d" by (simp add: minus_mod_eq_div_mult [symmetric])
  then have "min (worstCaseHtlcBlocks c) (?d div 600) * 600 \<le> ?d"
    by (simp add: min_def)
  then show ?thesis by (simp add: payableCltvBlocks_def policy)
qed

lemma contains_iff:
  "deadlineContainsHtlc c R now \<longleftrightarrow> now + worstCaseHtlcBlocks c * 600 + REFUND_SAFETY_MARGIN \<le> R"
proof
  assume "deadlineContainsHtlc c R now"
  then have "worstCaseHtlcBlocks c = payableCltvBlocks c R now"
    by (auto simp: deadlineContainsHtlc_def payableCltvBlocks_def)
  with payable_fits [of now c R] show "now + worstCaseHtlcBlocks c * 600 + REFUND_SAFETY_MARGIN \<le> R"
    by simp
next
  assume "now + worstCaseHtlcBlocks c * 600 + REFUND_SAFETY_MARGIN \<le> R"
  then have "worstCaseHtlcBlocks c * 600 \<le> R - now - 7200" by (simp add: policy)
  then have "worstCaseHtlcBlocks c * 600 div 600 \<le> (R - now - 7200) div 600" by (rule zdiv_mono1) simp
  then show "deadlineContainsHtlc c R now"
    by (simp add: deadlineContainsHtlc_def payableCltvBlocks_def policy)
qed

lemma evaluateSendPayment_ok_iff:
  "evaluateSendPayment i = Inr u \<longleftrightarrow>
     isFinite (spLockedSats i) \<and> isFinite (spExpectedSats i) \<and>
     \<not> js_le (spExpectedSats i) (jint 0) \<and> \<not> js_lt (spLockedSats i) (spExpectedSats i) \<and>
     spNow i + MIN_INVOICE_WINDOW \<le> spInvoiceExpiresAt i \<and>
     spNow i + MIN_CLAIM_WINDOW \<le> spRefundLocktime i \<and>
     minFinalCltvBlocks (spCltv i) + hintCltvBlocks (spCltv i)
       < payableCltvBlocks (spCltv i) (spRefundLocktime i) (spNow i) \<and>
     (enforcesRouteCltv (spCltv i) \<or>
      deadlineContainsHtlc (spCltv i) (spRefundLocktime i) (spNow i))"
  by (auto simp: evaluateSendPayment_def Let_def result policy)

lemma evaluateSendAcceptance_ok_iff:
  "evaluateSendAcceptance i = Inr a \<longleftrightarrow>
     (let t = (case saLockupTimeout i of Some t \<Rightarrow> t | None \<Rightarrow> DEFAULT_LOCKUP_TIMEOUT) in
     saInvoiceNetwork i = saProviderNetwork i \<and>
     isFinite (saInvoiceAmountSats i) \<and> \<not> js_le (saInvoiceAmountSats i) (jint 0) \<and>
     \<not> js_lt (saInvoiceAmountSats i) (jint (minSats (saLimits i))) \<and>
     \<not> js_lt (jint (maxSats (saLimits i))) (saInvoiceAmountSats i) \<and>
     saNow i < saInvoiceExpiresAt i \<and>
     saNow i < lockupDeadlineFor (saNow i) (saInvoiceExpiresAt i) t \<and>
     (enforcesRouteCltv (saCltv i) \<or>
      minFinalCltvBlocks (saCltv i) + worstRouteHintCltvBlocks (saCltv i) \<le> MAX_CLIENT_CLTV_BLOCKS) \<and>
     a = \<lparr>accRefundLocktime = refundLocktimeFor (saCltv i) (saUnilateralClaimDelay i) (saNow i) t,
          accLockupDeadline = lockupDeadlineFor (saNow i) (saInvoiceExpiresAt i) t\<rparr>)"
  by (auto simp: evaluateSendAcceptance_def Let_def result not_less)

text \<open>
  C17: the solver pays only while every HTLC the payment may leave outstanding ends a full
  \<open>REFUND_SAFETY_MARGIN\<close> before the client's refund opens. On a rail that enforces the ceiling the
  HTLC is bounded by \<open>payableCltvBlocks\<close>, on one that does not by \<open>worstCaseHtlcBlocks\<close>; in both
  cases the bound leaves the payee and its route hints what they demand. A lockup that is short, not
  a finite number, or expected to be nothing is never paid against, nor an invoice inside its last
  two minutes.
\<close>

theorem pay_never_outlives_refund:
  assumes "evaluateSendPayment i = Inr ()"
  shows "\<exists>locked expected bound.
    spLockedSats i = Fin locked \<and> spExpectedSats i = Fin expected \<and>
    0 < expected \<and> expected \<le> locked \<and>
    spNow i + MIN_INVOICE_WINDOW \<le> spInvoiceExpiresAt i \<and>
    bound = (if enforcesRouteCltv (spCltv i)
             then payableCltvBlocks (spCltv i) (spRefundLocktime i) (spNow i)
             else worstCaseHtlcBlocks (spCltv i)) \<and>
    minFinalCltvBlocks (spCltv i) + hintCltvBlocks (spCltv i) < bound \<and>
    spNow i + bound * SECONDS_PER_BLOCK + REFUND_SAFETY_MARGIN \<le> spRefundLocktime i"
proof -
  from assms have fin: "isFinite (spLockedSats i)" "isFinite (spExpectedSats i)"
    and amt: "\<not> js_le (spExpectedSats i) (jint 0)" "\<not> js_lt (spLockedSats i) (spExpectedSats i)"
    and win: "spNow i + MIN_INVOICE_WINDOW \<le> spInvoiceExpiresAt i"
    and pay: "minFinalCltvBlocks (spCltv i) + hintCltvBlocks (spCltv i)
       < payableCltvBlocks (spCltv i) (spRefundLocktime i) (spNow i)"
    and rail: "enforcesRouteCltv (spCltv i) \<or>
      deadlineContainsHtlc (spCltv i) (spRefundLocktime i) (spNow i)"
    by (auto simp: evaluateSendPayment_ok_iff)
  from fin obtain locked expected where
    le: "spLockedSats i = Fin locked" "spExpectedSats i = Fin expected"
    by (metis isFinite.elims(2))
  have "payableCltvBlocks (spCltv i) (spRefundLocktime i) (spNow i) \<le> worstCaseHtlcBlocks (spCltv i)"
    by (simp add: payableCltvBlocks_def)
  then show ?thesis
    using le amt win pay rail payable_fits [of "spNow i" "spCltv i" "spRefundLocktime i"]
    by (auto simp: contains_iff SECONDS_PER_BLOCK_def MINUTE_def not_le not_less)
qed

text \<open>A concrete rail and swap, for the witnesses.\<close>

definition sample_cltv :: HtlcCltv where
  "sample_cltv = \<lparr>minFinalCltvBlocks = 18, worstRouteHintCltvBlocks = 40000,
     bestRouteHintCltvBlocks = 40, routeCltvBudgetBlocks = 432, enforcesRouteCltv = True\<rparr>"

definition sample_payment :: SendPaymentInput where
  "sample_payment = \<lparr>spInvoiceExpiresAt = 1700003600, spRefundLocktime = 1700612384,
     spLockedSats = jint 21, spExpectedSats = jint 21, spCltv = sample_cltv, spNow = 1700000600\<rparr>"

lemma sample_payment_ok: "evaluateSendPayment sample_payment = Inr ()"
  by (simp add: evaluateSendPayment_ok_iff sample_payment_def sample_cltv_def gate policy)

theorem pay_never_outlives_refund_witness:
  "\<exists>bound. minFinalCltvBlocks sample_cltv + hintCltvBlocks sample_cltv < bound \<and>
    1700000600 + bound * SECONDS_PER_BLOCK + REFUND_SAFETY_MARGIN \<le> 1700612384"
  using pay_never_outlives_refund [OF sample_payment_ok] by (auto simp: sample_payment_def)

text \<open>The refund deadline dominates both of its bounds.\<close>

lemma refundLocktimeFor_ge:
  "now + worstCaseHtlcBlocks c * 600 + (if enforcesRouteCltv c then 0 else t) + REFUND_SAFETY_MARGIN
     \<le> refundLocktimeFor c d now t"
  "now + rawDelaySeconds d + REFUND_SAFETY_MARGIN \<le> refundLocktimeFor c d now t"
  by (simp_all add: refundLocktimeFor_def Let_def SECONDS_PER_BLOCK_def MINUTE_def)

lemma payable_in_window:
  assumes bud: "13 \<le> routeCltvBudgetBlocks c" and t: "t \<le> MAX_LOCKUP_TIMEOUT"
    and now: "now' \<le> now + t"
    and R: "now + worstCaseHtlcBlocks c * 600 + (if enforcesRouteCltv c then 0 else t)
      + REFUND_SAFETY_MARGIN \<le> R"
  shows "minFinalCltvBlocks c + hintCltvBlocks c < payableCltvBlocks c R now' \<and>
    (enforcesRouteCltv c \<or> deadlineContainsHtlc c R now')"
proof -
  have "(worstCaseHtlcBlocks c - 12) * 600 \<le> R - now' - 7200"
    using t now R by (simp add: policy split: if_splits)
  then have "(worstCaseHtlcBlocks c - 12) * 600 div 600 \<le> (R - now' - 7200) div 600"
    by (rule zdiv_mono1) simp
  then have "minFinalCltvBlocks c + hintCltvBlocks c < payableCltvBlocks c R now'"
    using bud by (simp add: payableCltvBlocks_def worstCaseHtlcBlocks_def policy)
  moreover have "enforcesRouteCltv c \<or> deadlineContainsHtlc c R now'"
    using now R by (auto simp: contains_iff split: if_splits)
  ultimately show ?thesis ..
qed

text \<open>
  C21: when an accepted quote does not refuse itself. Suppose the acceptance gate accepted under a funding
  window of at most \<open>MAX_LOCKUP_TIMEOUT\<close> (the bound the operator's setting is held to), for a rail whose
  route budget is at least 13 blocks (more than that window can eat), and an invoice whose CLTV figures
  are not negative. If the client funds in full by the quoted lockup deadline, then the payment gate,
  asked at that moment with the quoted refund deadline, answers "pay". Nothing is said of a longer
  window, nor of the zero budget a coupled quote is accepted with.
\<close>

theorem timely_funding_is_paid:
  assumes acc: "evaluateSendAcceptance q = Inr a"
    and t: "saLockupTimeout q = Some t" "t \<le> MAX_LOCKUP_TIMEOUT"
    and bud: "13 \<le> routeCltvBudgetBlocks (saCltv q)"
    and pos: "0 \<le> minFinalCltvBlocks (saCltv q)" "0 \<le> hintCltvBlocks (saCltv q)"
    and funded: "saNow q \<le> paidAt" "paidAt \<le> accLockupDeadline a" "0 < expected" "expected \<le> locked"
  shows "evaluateSendPayment \<lparr>spInvoiceExpiresAt = saInvoiceExpiresAt q,
    spRefundLocktime = accRefundLocktime a, spLockedSats = jint locked, spExpectedSats = jint expected,
    spCltv = saCltv q, spNow = paidAt\<rparr> = Inr ()"
proof -
  let ?c = "saCltv q" and ?R = "accRefundLocktime a"
  from acc t have a: "?R = refundLocktimeFor ?c (saUnilateralClaimDelay q) (saNow q) t"
    "accLockupDeadline a = lockupDeadlineFor (saNow q) (saInvoiceExpiresAt q) t"
    by (auto simp: evaluateSendAcceptance_ok_iff Let_def)
  from a(2) funded(2) have now: "paidAt \<le> saNow q + t" and inv: "paidAt + MIN_INVOICE_WINDOW \<le> saInvoiceExpiresAt q"
    by (simp_all add: lockupDeadlineFor_def)
  have R: "saNow q + worstCaseHtlcBlocks ?c * 600 + (if enforcesRouteCltv ?c then 0 else t)
      + REFUND_SAFETY_MARGIN \<le> ?R"
    unfolding a(1) by (rule refundLocktimeFor_ge)
  have "13 \<le> worstCaseHtlcBlocks ?c" using pos bud by (simp add: worstCaseHtlcBlocks_def)
  then have "paidAt + MIN_CLAIM_WINDOW \<le> ?R"
    using R now t(2) by (simp add: policy split: if_splits)
  then show ?thesis
    using payable_in_window [OF bud t(2) now R] inv funded(3,4)
    by (simp add: evaluateSendPayment_ok_iff)
qed

definition sample_quote :: SendAcceptanceInput where
  "sample_quote = \<lparr>saInvoiceExpiresAt = 1700003600, saInvoiceAmountSats = jint 2100,
     saInvoiceNetwork = ''bcrt'', saProviderNetwork = ''bcrt'',
     saLimits = \<lparr>minSats = 1000, maxSats = 1000000\<rparr>, saCltv = sample_cltv,
     saUnilateralClaimDelay = 605184, saLockupTimeout = Some 900, saNow = 1700000000\<rparr>"

lemma sample_quote_accepted:
  "evaluateSendAcceptance sample_quote =
     Inr \<lparr>accRefundLocktime = 1700612384, accLockupDeadline = 1700000900\<rparr>"
  by (simp add: evaluateSendAcceptance_ok_iff sample_quote_def sample_cltv_def gate policy)

theorem timely_funding_is_paid_witness:
  "evaluateSendPayment \<lparr>spInvoiceExpiresAt = 1700003600, spRefundLocktime = 1700612384,
     spLockedSats = jint 2100, spExpectedSats = jint 2100, spCltv = sample_cltv,
     spNow = 1700000900\<rparr> = Inr ()"
  using timely_funding_is_paid [OF sample_quote_accepted, of 900 1700000900 2100 2100]
  by (simp add: sample_quote_def sample_cltv_def gate policy)

section \<open>The quoted ladder\<close>

lemma ladder_units_cases:
  assumes "ladder_wf base"
  shows "ladder_units base = {delayUnit (relativeDelayFrom (unilateralClaimDelay base))}"
    "card (ladder_units base) = 1"
  using assms by (simp_all add: ladder_units_def ladder_wf_def)

lemma secondsForBlockRung_strict:
  assumes "r < s" shows "secondsForBlockRung r < secondsForBlockRung s"
proof -
  have "secondsForBlockRung r < r * 600 + 512"
    using ceilToGranularity_lt [of "r * 600"] by (simp add: secondsForBlockRung_def policy)
  also have "\<dots> \<le> s * 600" using assms by simp
  also have "\<dots> \<le> secondsForBlockRung s" by (rule secondsForBlockRung_ge)
  finally show ?thesis .
qed

text \<open>The three ways a well-formed base ladder is stretched, one per branch of the code.\<close>

lemma unilateralLadderFor_cases:
  assumes wf: "ladder_wf base" and ok: "unilateralLadderFor base R q = Inr L"
  defines "h \<equiv> max 0 (R - q)"
  obtains (seconds) "512 \<le> unilateralClaimDelay base"
      "L = base\<lparr>unilateralRefundWithoutReceiverDelay :=
         max (unilateralRefundWithoutReceiverDelay base) (ceilToGranularity h)\<rparr>"
      "unilateralRefundWithoutReceiverDelay L \<le> MAX_BIP68_SECONDS"
    | (blocks) "unilateralRefundWithoutReceiverDelay base < 512"
      "L = base\<lparr>unilateralRefundWithoutReceiverDelay :=
         max (unilateralRefundWithoutReceiverDelay base) (ceil_div h 600)\<rparr>"
      "unilateralRefundWithoutReceiverDelay L < 512"
    | (reclocked) "unilateralRefundWithoutReceiverDelay base < 512"
      "unilateralClaimDelay L = secondsForBlockRung (unilateralClaimDelay base)"
      "unilateralRefundDelay L = secondsForBlockRung (unilateralRefundDelay base)"
      "unilateralRefundWithoutReceiverDelay L =
         max (secondsForBlockRung (unilateralRefundWithoutReceiverDelay base)) (ceilToGranularity h)"
      "unilateralRefundWithoutReceiverDelay L \<le> MAX_BIP68_SECONDS"
proof -
  note simps = unilateralLadderFor_def ladder_units_cases [OF wf] h_def [symmetric] Let_def
    SEQUENCE_GRANULARITY_SECONDS_def NOMINAL_BLOCK_SECONDS_def relativeDelayFrom_def
  have rest: "512 \<le> unilateralClaimDelay base \<or> unilateralRefundWithoutReceiverDelay base < 512"
    "unilateralClaimDelay base < unilateralRefundWithoutReceiverDelay base"
    using wf by (auto simp: ladder_wf_alt Let_def)
  show ?thesis
  proof (cases "512 \<le> unilateralClaimDelay base")
    case True
    with ok show ?thesis by (intro seconds) (auto simp: simps split: if_splits)
  next
    case False
    with rest have small: "unilateralRefundWithoutReceiverDelay base < 512" by simp
    show ?thesis
    proof (cases "max (unilateralRefundWithoutReceiverDelay base) (ceil_div h 600) < 512")
      case True
      with ok False small show ?thesis by (intro blocks) (auto simp: simps)
    next
      case False': False
      with ok False have "L = \<lparr>unilateralClaimDelay = secondsForBlockRung (unilateralClaimDelay base),
          unilateralRefundDelay = secondsForBlockRung (unilateralRefundDelay base),
          unilateralRefundWithoutReceiverDelay =
            max (secondsForBlockRung (unilateralRefundWithoutReceiverDelay base)) (ceilToGranularity h)\<rparr>
        \<and> unilateralRefundWithoutReceiverDelay L \<le> MAX_BIP68_SECONDS"
        by (auto simp: simps split: if_splits)
      with small show ?thesis by (intro reclocked) auto
    qed
  qed
qed

text \<open>
  C26: the ladder a quote is written with is well formed whenever the deployment's base ladder is, no
  rung opens earlier (in nominal seconds) than the base rung it replaces, also when a block ladder
  is re-clocked to seconds, and the client's solo refund rung covers the whole quoted refund horizon,
  which is the test the payment path repeats before paying.
\<close>

theorem quoted_ladder_sound:
  assumes wf: "ladder_wf base" and ok: "unilateralLadderFor base R q = Inr L"
  shows "ladder_wf L \<and>
    refundWithoutReceiverDelayCovers (unilateralRefundWithoutReceiverDelay L) R q \<and>
    rawDelaySeconds (unilateralClaimDelay base) \<le> rawDelaySeconds (unilateralClaimDelay L) \<and>
    rawDelaySeconds (unilateralRefundDelay base) \<le> rawDelaySeconds (unilateralRefundDelay L) \<and>
    rawDelaySeconds (unilateralRefundWithoutReceiverDelay base)
      \<le> rawDelaySeconds (unilateralRefundWithoutReceiverDelay L)"
proof -
  have b: "0 < unilateralClaimDelay base" "unilateralClaimDelay base \<le> unilateralRefundDelay base"
    "unilateralRefundDelay base < unilateralRefundWithoutReceiverDelay base"
    using wf by (auto simp: ladder_wf_alt Let_def)
  have h: "R - q \<le> max 0 (R - q)" by simp
  from wf ok show ?thesis
  proof (cases rule: unilateralLadderFor_cases)
    case seconds
    with wf b h ceilToGranularity_ge [of "max 0 (R - q)"] show ?thesis
      by (auto simp: ladder_wf_alt Let_def refundWithoutReceiverDelayCovers_def
          rawDelaySeconds_seconds max_def split: if_splits)
  next
    case blocks
    with wf b h ceil_div_ge [of 600 "max 0 (R - q)"] show ?thesis
      by (auto simp: ladder_wf_alt Let_def refundWithoutReceiverDelayCovers_def
          rawDelaySeconds_blocks max_def split: if_splits)
  next
    case reclocked
    have ge: "512 \<le> secondsForBlockRung (unilateralClaimDelay base)"
      using b(1) secondsForBlockRung_ge [of "unilateralClaimDelay base"] by simp
    have mono: "secondsForBlockRung (unilateralClaimDelay base)
        \<le> secondsForBlockRung (unilateralRefundDelay base)"
      "secondsForBlockRung (unilateralRefundDelay base)
        < secondsForBlockRung (unilateralRefundWithoutReceiverDelay base)"
      using b by (simp_all add: secondsForBlockRung_mono secondsForBlockRung_strict)
    have sec: "max (secondsForBlockRung (unilateralRefundWithoutReceiverDelay base))
        (ceilToGranularity (max 0 (R - q))) mod 512 = 0" by (simp add: max_def)
    have "R - q \<le> ceilToGranularity (max 0 (R - q))"
      using h ceilToGranularity_ge [of "max 0 (R - q)"] by linarith
    with reclocked b ge mono sec secondsForBlockRung_ge show ?thesis
      by (simp add: ladder_wf_alt Let_def refundWithoutReceiverDelayCovers_def rawDelaySeconds_cases
          le_max_iff_disj less_max_iff_disj)
  qed
qed

definition sample_block_ladder :: UnilateralDelays where
  "sample_block_ladder = \<lparr>unilateralClaimDelay = 20, unilateralRefundDelay = 20,
     unilateralRefundWithoutReceiverDelay = 28\<rparr>"

lemma sample_reclocked:
  "unilateralLadderFor sample_block_ladder 1700612384 1700000000 =
     Inr \<lparr>unilateralClaimDelay = 12288, unilateralRefundDelay = 12288,
          unilateralRefundWithoutReceiverDelay = 612864\<rparr>"
  by (simp add: unilateralLadderFor_def ladder_units_def sample_block_ladder_def Let_def
      relativeDelayFrom_def secondsForBlockRung_def ceilToGranularity_def ceil_div_def
      isEncodableDelay_jint policy)

theorem quoted_ladder_sound_witness:
  "ladder_wf \<lparr>unilateralClaimDelay = 12288, unilateralRefundDelay = 12288,
     unilateralRefundWithoutReceiverDelay = 612864\<rparr> \<and>
   refundWithoutReceiverDelayCovers 612864 1700612384 1700000000"
proof -
  have "ladder_wf sample_block_ladder" by (simp add: ladder_wf_alt sample_block_ladder_def)
  from quoted_ladder_sound [OF this sample_reclocked] show ?thesis by simp
qed

lemma refund_horizon_le:
  assumes "minFinalCltvBlocks c + hintCltvBlocks c \<le> MAX_CLIENT_CLTV_BLOCKS"
    and "routeCltvBudgetBlocks c \<le> UNENFORCED_ROUTE_CLTV_BUDGET_BLOCKS" and "t \<le> MAX_LOCKUP_TIMEOUT"
    and "rawDelaySeconds d + REFUND_SAFETY_MARGIN \<le> MAX_BIP68_SECONDS"
  shows "refundLocktimeFor c d now t - now \<le> MAX_BIP68_SECONDS"
proof -
  have w: "worstCaseHtlcBlocks c \<le> 2304"
    using assms(1,2) by (simp add: worstCaseHtlcBlocks_def policy)
  have "(if enforcesRouteCltv c then 0 else t) \<le> 7200"
    using assms(3) by (simp add: policy)
  with w assms(4) show ?thesis by (simp add: refundLocktimeFor_def Let_def policy)
qed

lemma ladder_fits:
  assumes wf: "ladder_wf base"
    and solo: "rawDelaySeconds (unilateralRefundWithoutReceiverDelay base) + 512 \<le> MAX_BIP68_SECONDS"
    and hor: "R - q \<le> MAX_BIP68_SECONDS"
  shows "\<exists>L. unilateralLadderFor base R q = Inr L"
proof -
  let ?s = "unilateralRefundWithoutReceiverDelay base" and ?h = "max 0 (R - q)"
  have b: "0 < unilateralClaimDelay base" "unilateralClaimDelay base < ?s"
    "?s < 512 \<or> 512 \<le> unilateralClaimDelay base \<and> ?s mod 512 = 0"
    using wf by (auto simp: ladder_wf_alt Let_def)
  have hm: "ceilToGranularity ?h \<le> MAX_BIP68_SECONDS"
    using hor by (intro ceilToGranularity_le_max) (simp add: policy)
  have pos: "0 < ?s" using b by simp
  have enc: "isEncodableDelay (jint (max a (ceilToGranularity ?h)))"
    if "0 < a" "a mod 512 = 0" for a
    using that by (auto simp: isEncodableDelay_jint max_def)
  note simps = unilateralLadderFor_def ladder_units_cases [OF wf] Let_def
    SEQUENCE_GRANULARITY_SECONDS_def NOMINAL_BLOCK_SECONDS_def relativeDelayFrom_def
  show ?thesis
  proof (cases "512 \<le> unilateralClaimDelay base")
    case True
    with b have "?s mod 512 = 0" "rawDelaySeconds ?s = ?s" by (auto simp: rawDelaySeconds_seconds)
    with solo hm pos enc [of ?s] True show ?thesis by (auto simp: simps)
  next
    case False
    with b have s: "?s < 512" by simp
    have "0 < secondsForBlockRung ?s" using pos secondsForBlockRung_ge [of ?s] by simp
    note e = enc [OF this secondsForBlockRung_mod]
    have "secondsForBlockRung ?s \<le> MAX_BIP68_SECONDS"
      using s solo ceilToGranularity_lt [of "?s * 600"]
      by (simp add: secondsForBlockRung_def rawDelaySeconds_blocks policy)
    with False hm e show ?thesis by (auto simp: simps)
  qed
qed

text \<open>
  Every quote the acceptance gate accepts has a ladder: with the CLTV bounds the decoder and the
  gate enforce, a route budget no larger than the one for uncapped rails and a funding window within
  \<open>MAX_LOCKUP_TIMEOUT\<close>, the refund horizon stays encodable as long as the deployment's own base
  ladder leaves room for the safety margin. The \<open>cltv_too_large\<close> fallback of the quote is therefore
  reachable only through the deployment's exit delay, never through an invoice.
\<close>

theorem accepted_quote_has_ladder:
  assumes acc: "evaluateSendAcceptance q = Inr a"
    and inv: "minFinalCltvBlocks (saCltv q) + bestRouteHintCltvBlocks (saCltv q) \<le> MAX_CLIENT_CLTV_BLOCKS"
    and bud: "routeCltvBudgetBlocks (saCltv q) \<le> UNENFORCED_ROUTE_CLTV_BUDGET_BLOCKS"
    and t: "saLockupTimeout q = Some t" "t \<le> MAX_LOCKUP_TIMEOUT"
    and wf: "ladder_wf base" and claim: "saUnilateralClaimDelay q = unilateralClaimDelay base"
    and room: "rawDelaySeconds (unilateralRefundWithoutReceiverDelay base) + REFUND_SAFETY_MARGIN
      \<le> MAX_BIP68_SECONDS"
  shows "\<exists>L. unilateralLadderFor base (accRefundLocktime a) (saNow q) = Inr L"
proof (rule ladder_fits [OF wf])
  from acc t have a: "accRefundLocktime a =
      refundLocktimeFor (saCltv q) (unilateralClaimDelay base) (saNow q) t"
    and worst: "enforcesRouteCltv (saCltv q) \<or>
      minFinalCltvBlocks (saCltv q) + worstRouteHintCltvBlocks (saCltv q) \<le> MAX_CLIENT_CLTV_BLOCKS"
    by (auto simp: evaluateSendAcceptance_ok_iff Let_def claim)
  have "rawDelaySeconds (unilateralClaimDelay base)
      \<le> rawDelaySeconds (unilateralRefundWithoutReceiverDelay base)"
    using wf by (auto simp: ladder_wf_alt Let_def rawDelaySeconds_cases)
  with room have d: "rawDelaySeconds (unilateralClaimDelay base) + REFUND_SAFETY_MARGIN \<le> MAX_BIP68_SECONDS"
    by simp
  have hint: "minFinalCltvBlocks (saCltv q) + hintCltvBlocks (saCltv q) \<le> MAX_CLIENT_CLTV_BLOCKS"
    using inv worst by (auto simp: hintCltvBlocks_def)
  show "accRefundLocktime a - saNow q \<le> MAX_BIP68_SECONDS"
    unfolding a by (rule refund_horizon_le [OF hint bud t(2) d])
  show "rawDelaySeconds (unilateralRefundWithoutReceiverDelay base) + 512 \<le> MAX_BIP68_SECONDS"
    using room by (simp add: policy)
qed

theorem accepted_quote_has_ladder_witness:
  "\<exists>L. unilateralLadderFor \<lparr>unilateralClaimDelay = 605184, unilateralRefundDelay = 605184,
     unilateralRefundWithoutReceiverDelay = 609280\<rparr> 1700612384 1700000000 = Inr L"
  using accepted_quote_has_ladder [OF sample_quote_accepted, of 900
      "\<lparr>unilateralClaimDelay = 605184, unilateralRefundDelay = 605184,
        unilateralRefundWithoutReceiverDelay = 609280\<rparr>"]
  by (simp add: sample_quote_def sample_cltv_def ladder_wf_alt rawDelaySeconds_cases policy)

end
