(* ===== verification/Evm_Gates.thy ===== *)
theory Evm_Gates
  imports Send_Gates
begin

text \<open>
  The pure decisions of the EVM corridors: \<^verbatim>\<open>evmSend.ts\<close> and \<^verbatim>\<open>evmReceive.ts\<close> (the orderings of the
  two refund deadlines), \<^verbatim>\<open>evmSwapState.ts\<close> (the states and which of them expose money),
  \<^verbatim>\<open>evmSendPlan.ts\<close> and \<^verbatim>\<open>evmReceivePlan.ts\<close> (the next action as a function of the row and of what
  was observed), all under \<^verbatim>\<open>solver-core/src/core\<close>.
\<close>

section \<open>Constants\<close>

definition EVM_ORDER_MARGIN_SECONDS :: int where [policy]: "EVM_ORDER_MARGIN_SECONDS = 2 * HOUR"
definition EVM_MIN_CLAIM_WINDOW_SECONDS :: int where [policy]:
  "EVM_MIN_CLAIM_WINDOW_SECONDS = 30 * MINUTE"
definition EVM_MAX_CLIENT_TIMEOUT_SECONDS :: int where [policy]:
  "EVM_MAX_CLIENT_TIMEOUT_SECONDS = 24 * HOUR"
definition EVM_RECEIVE_FUND_LANDING_BLOCKS :: int where [policy]: "EVM_RECEIVE_FUND_LANDING_BLOCKS = 20"
definition EVM_RECEIVE_CLAIM_LANDING_BLOCKS :: int where [policy]:
  "EVM_RECEIVE_CLAIM_LANDING_BLOCKS = 40"
definition EVM_RECEIVE_CLAIM_MARGIN_BLOCKS :: int where [policy]:
  "EVM_RECEIVE_CLAIM_MARGIN_BLOCKS = EVM_RECEIVE_FUND_LANDING_BLOCKS + EVM_RECEIVE_CLAIM_LANDING_BLOCKS"

section \<open>Send: whether the solver may lock tokens\<close>


datatype 'r evm_decision = Ok | Refuse 'r


text \<open>\<open>p ?? d\<close>, also the default of a destructured parameter.\<close>

definition default_to :: "'a \<Rightarrow> 'a option \<Rightarrow> 'a" where
  "default_to d p = (case p of Some v \<Rightarrow> v | None \<Rightarrow> d)"






section \<open>Receive: whether the solver may fund sats\<close>

datatype EvmReceiveFundRefusal =
    Er_evm_lock_expired | Er_evm_timeout_too_far_out | Er_client_claim_window_too_short
  | Er_recourse_after_evm_timeout | Er_deadlines_cannot_be_ordered

record EvmReceiveFundParams =
  erEvmTimeout :: int
  erRefundLocktime :: int
  erNowSeconds :: int
  erOrderMarginSeconds :: "int option"
  erMinClaimWindowSeconds :: "int option"

definition evaluateEvmReceiveFund ::
    "EvmReceiveFundParams \<Rightarrow> timelock_error + EvmReceiveFundRefusal evm_decision" where
  "evaluateEvmReceiveFund p =
     (let orderMargin = default_to EVM_ORDER_MARGIN_SECONDS (erOrderMarginSeconds p);
          minClaimWindow = default_to EVM_MIN_CLAIM_WINDOW_SECONDS (erMinClaimWindowSeconds p) in
      and_then (assertAbsoluteLocktime (jint (erRefundLocktime p)) ''refundLocktime'' Seconds) (\<lambda>_.
      and_then (assertAbsoluteLocktime (jint (erEvmTimeout p)) ''evmTimeout'' Seconds) (\<lambda>_.
      if erEvmTimeout p \<le> erNowSeconds p + orderMargin then Inr (Refuse Er_evm_lock_expired)
      else if erEvmTimeout p > erNowSeconds p + EVM_MAX_CLIENT_TIMEOUT_SECONDS
      then Inr (Refuse Er_evm_timeout_too_far_out) else
      let earliestSafe = erNowSeconds p + minClaimWindow;
          latestSafe = erEvmTimeout p - orderMargin in
      if earliestSafe > latestSafe then Inr (Refuse Er_deadlines_cannot_be_ordered)
      else if erRefundLocktime p < earliestSafe then Inr (Refuse Er_client_claim_window_too_short)
      else if erRefundLocktime p > latestSafe then Inr (Refuse Er_recourse_after_evm_timeout)
      else Inr Ok)))"

definition arkadeRefundLocktimeFor :: "EvmReceiveFundParams \<Rightarrow> timelock_error + int option" where
  "arkadeRefundLocktimeFor p =
     (let latestSafe = erEvmTimeout p - default_to EVM_ORDER_MARGIN_SECONDS (erOrderMarginSeconds p) in
      and_then (evaluateEvmReceiveFund (p\<lparr>erRefundLocktime := latestSafe\<rparr>)) (\<lambda>decision.
      Inr (if decision = Ok then Some latestSafe else None)))"

section \<open>States\<close>

datatype EvmSendSwapState =
    Es_quoted | Es_funded | Es_locking_evm | Es_awaiting_claim | Es_claiming | Es_claimed
  | Es_refunding_evm | Es_refunded | Es_refused | Es_stuck

datatype EvmReceiveSwapState =
    Ev_quoted | Ev_awaiting_lock | Ev_locked | Ev_funding_arkade | Ev_awaiting_claim | Ev_claiming
  | Ev_claimed | Ev_refunding_arkade | Ev_refunded | Ev_refused | Ev_stuck

definition EVM_SEND_NON_TERMINAL :: "EvmSendSwapState list" where
  "EVM_SEND_NON_TERMINAL =
     [Es_quoted, Es_funded, Es_locking_evm, Es_awaiting_claim, Es_claiming, Es_refunding_evm]"

definition EVM_RECEIVE_NON_TERMINAL :: "EvmReceiveSwapState list" where
  "EVM_RECEIVE_NON_TERMINAL =
     [Ev_quoted, Ev_awaiting_lock, Ev_locked, Ev_funding_arkade, Ev_awaiting_claim, Ev_claiming,
      Ev_refunding_arkade]"

definition EVM_SEND_EXPOSED :: "EvmSendSwapState list" where
  "EVM_SEND_EXPOSED = [Es_locking_evm, Es_awaiting_claim, Es_claiming, Es_refunding_evm]"

definition EVM_RECEIVE_EXPOSED :: "EvmReceiveSwapState list" where
  "EVM_RECEIVE_EXPOSED = [Ev_funding_arkade, Ev_awaiting_claim, Ev_claiming, Ev_refunding_arkade]"

section \<open>Send: what to do next\<close>

datatype EvmTransactionOutcome = Tx_pending | Tx_success | Tx_reverted

record EvmSendPlanRow =
  psState :: EvmSendSwapState
  psRefundLocktime :: int
  psEvmTimeout :: int
  psValidUntil :: int
  psMinConfirmations :: int
  psMinAgeSeconds :: int
  psPreimage :: "string option"
  psEvmRefundTxid :: "string option"

record EvmSendObservation =
  osArkadeLockupFunded :: bool
  osEvmLockPresent :: bool
  osEvmLockReverted :: bool
  osEvmRefundOutcome :: EvmTransactionOutcome
  osEvmRefundLanded :: bool
  osEvmLockConfirmations :: int
  osEvmLockAgeSeconds :: int
  osPreimage :: "string option"
  osNowSeconds :: int
  osEvmTimelockHeight :: int

datatype EvmSendAction =
    Wait | Lock_evm | Await_claim | Claim_arkade string | Refund_evm | Record_refund
  | RefuseSwap string | Stick string

definition EVM_SEND_TERMINAL :: "EvmSendSwapState list" where
  "EVM_SEND_TERMINAL = [Es_claimed, Es_refunded, Es_refused, Es_stuck]"

definition plan_send_by_state :: "EvmSendPlanRow \<Rightarrow> EvmSendObservation \<Rightarrow> EvmSendAction" where
  "plan_send_by_state row seen =
     (case psState row of
        Es_quoted \<Rightarrow>
          if \<not> osArkadeLockupFunded seen then
            if osNowSeconds seen \<ge> psValidUntil row
            then RefuseSwap ''quote expired before the client funded''
            else if osNowSeconds seen \<ge> psRefundLocktime row
            then RefuseSwap ''client never funded the Arkade lockup''
            else Wait
          else if osNowSeconds seen \<ge> psValidUntil row
          then RefuseSwap ''lockup funded after the quote expired''
          else Lock_evm
      | Es_funded \<Rightarrow> Lock_evm
      | Es_locking_evm \<Rightarrow>
          if \<not> osEvmLockPresent seen \<and> osEvmLockReverted seen
          then Stick ''the ERC20 lock transaction reverted; no lock was created''
          else if osEvmTimelockHeight seen \<ge> psEvmTimeout row then Refund_evm
          else if \<not> osEvmLockPresent seen then Wait
          else if osEvmLockConfirmations seen \<ge> psMinConfirmations row \<and>
                  osEvmLockAgeSeconds seen \<ge> psMinAgeSeconds row
          then Await_claim else Wait
      | Es_awaiting_claim \<Rightarrow>
          if osEvmTimelockHeight seen \<ge> psEvmTimeout row then Refund_evm else Wait
      | Es_refunding_evm \<Rightarrow>
          if osEvmRefundOutcome seen = Tx_success then Record_refund
          else if osEvmRefundOutcome seen = Tx_reverted \<and> osEvmLockPresent seen
          then Stick ''the ERC20 refund transaction reverted; the lock is still funded''
          else if psEvmRefundTxid row = None \<and> osEvmLockPresent seen \<and>
                  osEvmTimelockHeight seen \<ge> psEvmTimeout row
          then Refund_evm
          else if osEvmRefundLanded seen then Record_refund
          else Wait
      | _ \<Rightarrow> Wait)"

definition planEvmSend :: "EvmSendPlanRow \<Rightarrow> EvmSendObservation \<Rightarrow> EvmSendAction" where
  "planEvmSend row seen =
     (if psState row \<in> set EVM_SEND_TERMINAL then Wait
      else case coalesce (osPreimage seen) (psPreimage row) of
        Some preimage \<Rightarrow>
          if osNowSeconds seen \<ge> psRefundLocktime row
          then Stick ''preimage revealed but the Arkade refund window has closed''
          else Claim_arkade preimage
      | None \<Rightarrow> plan_send_by_state row seen)"

section \<open>Receive: what to do next\<close>

record EvmReceivePlanRow =
  prState :: EvmReceiveSwapState
  prRefundLocktime :: int
  prEvmTimeout :: int
  prValidUntil :: int
  prMinConfirmations :: int
  prMinAgeSeconds :: int
  prPreimage :: "string option"
  prEvmClaimTxid :: "string option"

record EvmReceiveObservation =
  orEvmLockPresent :: bool
  orEvmLockConfirmations :: int
  orEvmLockAgeSeconds :: int
  orArkadeLockupFunded :: bool
  orEvmClaimOutcome :: EvmTransactionOutcome
  orPreimage :: "string option"
  orNowSeconds :: int
  orEvmTimelockHeight :: int

datatype EvmReceiveAction =
    RWait | Fund_arkade | RAwait_claim | Claim_evm string | Record_claim | Refund_arkade
  | RRefuse string | RStick string

definition EVM_RECEIVE_TERMINAL :: "EvmReceiveSwapState list" where
  "EVM_RECEIVE_TERMINAL = [Ev_claimed, Ev_refunded, Ev_refused, Ev_stuck]"

definition EVM_RECEIVE_FUND_WINDOW_REFUSAL :: string where
  "EVM_RECEIVE_FUND_WINDOW_REFUSAL = ''client ERC20 timeout too close to fund against''"

definition evmReceiveFundWindowClosed :: "int \<Rightarrow> int \<Rightarrow> bool" where [gate]:
  "evmReceiveFundWindowClosed evmTimelockHeight evmTimeout \<longleftrightarrow>
     evmTimelockHeight + EVM_RECEIVE_CLAIM_MARGIN_BLOCKS \<ge> evmTimeout"

text \<open>The shared case \<open>quoted\<close> / \<open>awaiting_lock\<close>.\<close>

definition plan_receive_unlocked :: "EvmReceivePlanRow \<Rightarrow> EvmReceiveObservation \<Rightarrow> EvmReceiveAction" where
  "plan_receive_unlocked row seen =
     (if \<not> orEvmLockPresent seen then
        if orNowSeconds seen \<ge> prValidUntil row then RRefuse ''quote expired before the client locked''
        else if orNowSeconds seen \<ge> prRefundLocktime row then RRefuse ''client never locked the ERC20''
        else RWait
      else if orNowSeconds seen \<ge> prValidUntil row
      then RRefuse ''ERC20 lock observed after the quote expired''
      else if orEvmLockConfirmations seen < prMinConfirmations row \<or>
              orEvmLockAgeSeconds seen < prMinAgeSeconds row then RWait
      else if evmReceiveFundWindowClosed (orEvmTimelockHeight seen) (prEvmTimeout row)
      then RRefuse EVM_RECEIVE_FUND_WINDOW_REFUSAL
      else Fund_arkade)"

definition planEvmReceive :: "EvmReceivePlanRow \<Rightarrow> EvmReceiveObservation \<Rightarrow> EvmReceiveAction" where
  "planEvmReceive row seen =
     (if prState row \<in> set EVM_RECEIVE_TERMINAL then RWait
      else case coalesce (orPreimage seen) (prPreimage row) of
        Some preimage \<Rightarrow>
          if prEvmClaimTxid row \<noteq> None \<and> orEvmClaimOutcome seen = Tx_success then Record_claim
          else if orEvmTimelockHeight seen \<ge> prEvmTimeout row
          then RStick ''preimage revealed but the client ERC20 timeout has passed''
          else if prEvmClaimTxid row \<noteq> None then
            if orEvmClaimOutcome seen = Tx_reverted
            then RStick ''the ERC20 claim transaction reverted; the solver has not been paid''
            else RWait
          else Claim_evm preimage
      | None \<Rightarrow>
          (case prState row of
             Ev_quoted \<Rightarrow> plan_receive_unlocked row seen
           | Ev_awaiting_lock \<Rightarrow> plan_receive_unlocked row seen
           | Ev_locked \<Rightarrow> Fund_arkade
           | Ev_funding_arkade \<Rightarrow> if orArkadeLockupFunded seen then RAwait_claim else RWait
           | Ev_awaiting_claim \<Rightarrow>
               if orNowSeconds seen \<ge> prRefundLocktime row then Refund_arkade else RWait
           | Ev_refunding_arkade \<Rightarrow> if orArkadeLockupFunded seen then Refund_arkade else RWait
           | _ \<Rightarrow> RWait))"

section \<open>Facts\<close>

lemma assert_seconds:
  "assertAbsoluteLocktime (jint l) label Seconds = Inr u \<longleftrightarrow> LOCKTIME_THRESHOLD \<le> l"
  by (auto simp: assertAbsoluteLocktime_def absoluteLocktimeUnit_def policy)


lemma evaluateEvmReceiveFund_ok_iff:
  "evaluateEvmReceiveFund p = Inr Ok \<longleftrightarrow>
     (let margin = default_to EVM_ORDER_MARGIN_SECONDS (erOrderMarginSeconds p);
          window = default_to EVM_MIN_CLAIM_WINDOW_SECONDS (erMinClaimWindowSeconds p) in
     LOCKTIME_THRESHOLD \<le> erRefundLocktime p \<and> LOCKTIME_THRESHOLD \<le> erEvmTimeout p \<and>
     erNowSeconds p + margin < erEvmTimeout p \<and>
     erEvmTimeout p \<le> erNowSeconds p + EVM_MAX_CLIENT_TIMEOUT_SECONDS \<and>
     erNowSeconds p + window \<le> erRefundLocktime p \<and>
     erRefundLocktime p + margin \<le> erEvmTimeout p)"
  by (auto simp: evaluateEvmReceiveFund_def Let_def result assert_seconds)






lemmas planEvmSend_defs =
  planEvmSend_def plan_send_by_state_def EVM_SEND_TERMINAL_def EVM_SEND_NON_TERMINAL_def

lemma planEvmSend_Lock_evm:
  "planEvmSend row seen = Lock_evm \<longleftrightarrow>
     coalesce (osPreimage seen) (psPreimage row) = None \<and>
     (psState row = Es_funded \<or>
      psState row = Es_quoted \<and> osArkadeLockupFunded seen \<and> osNowSeconds seen < psValidUntil row)"
  by (cases "psState row"; cases "coalesce (osPreimage seen) (psPreimage row)") (simp_all add: planEvmSend_defs)

lemma planEvmSend_Claim_arkade:
  "planEvmSend row seen = Claim_arkade q \<longleftrightarrow>
     psState row \<in> set EVM_SEND_NON_TERMINAL \<and> coalesce (osPreimage seen) (psPreimage row) = Some q \<and>
     osNowSeconds seen < psRefundLocktime row"
  by (cases "psState row"; cases "coalesce (osPreimage seen) (psPreimage row)")
    (auto simp: planEvmSend_defs)

lemma planEvmSend_Refund_evm:
  "planEvmSend row seen = Refund_evm \<longleftrightarrow>
     coalesce (osPreimage seen) (psPreimage row) = None \<and> psEvmTimeout row \<le> osEvmTimelockHeight seen \<and>
     (psState row = Es_awaiting_claim \<or>
      psState row = Es_locking_evm \<and> \<not> (osEvmLockReverted seen \<and> \<not> osEvmLockPresent seen) \<or>
      psState row = Es_refunding_evm \<and> psEvmRefundTxid row = None \<and> osEvmLockPresent seen \<and>
        osEvmRefundOutcome seen = Tx_pending)"
  by (cases "psState row"; cases "coalesce (osPreimage seen) (psPreimage row)";
    cases "osEvmRefundOutcome seen") (auto simp: planEvmSend_defs)

text \<open>
  C18: the money rules of the EVM send plan, each action characterised exactly. Tokens are locked
  only for a client lockup seen funded before the quote expired (or already recorded so) while no
  preimage is known; the client's sats are claimed exactly when a preimage is known and the client's
  refund has not opened; the solver's lock is refunded only while no preimage is known and the chain
  has passed the timeout, from an exposed state.
\<close>

theorem planEvmSend_money_rules:
  "(planEvmSend row seen = Lock_evm \<longleftrightarrow>
     coalesce (osPreimage seen) (psPreimage row) = None \<and>
     (psState row = Es_funded \<or>
      psState row = Es_quoted \<and> osArkadeLockupFunded seen \<and> osNowSeconds seen < psValidUntil row)) \<and>
   (planEvmSend row seen = Claim_arkade q \<longleftrightarrow>
     psState row \<in> set EVM_SEND_NON_TERMINAL \<and> coalesce (osPreimage seen) (psPreimage row) = Some q \<and>
     osNowSeconds seen < psRefundLocktime row) \<and>
   (planEvmSend row seen = Refund_evm \<longleftrightarrow>
     coalesce (osPreimage seen) (psPreimage row) = None \<and> psEvmTimeout row \<le> osEvmTimelockHeight seen \<and>
     (psState row = Es_awaiting_claim \<or>
      psState row = Es_locking_evm \<and> \<not> (osEvmLockReverted seen \<and> \<not> osEvmLockPresent seen) \<or>
      psState row = Es_refunding_evm \<and> psEvmRefundTxid row = None \<and> osEvmLockPresent seen \<and>
        osEvmRefundOutcome seen = Tx_pending))"
  by (intro conjI planEvmSend_Lock_evm planEvmSend_Claim_arkade planEvmSend_Refund_evm)

lemmas planEvmReceive_defs =
  planEvmReceive_def plan_receive_unlocked_def EVM_RECEIVE_TERMINAL_def
  EVM_RECEIVE_NON_TERMINAL_def evmReceiveFundWindowClosed_def EVM_RECEIVE_CLAIM_MARGIN_BLOCKS_def

lemma planEvmReceive_Fund_arkade:
  "planEvmReceive row seen = Fund_arkade \<longleftrightarrow>
     coalesce (orPreimage seen) (prPreimage row) = None \<and>
     (prState row = Ev_locked \<or>
      prState row \<in> {Ev_quoted, Ev_awaiting_lock} \<and> orEvmLockPresent seen \<and>
      orNowSeconds seen < prValidUntil row \<and> prMinConfirmations row \<le> orEvmLockConfirmations seen \<and>
      prMinAgeSeconds row \<le> orEvmLockAgeSeconds seen \<and>
      orEvmTimelockHeight seen + EVM_RECEIVE_FUND_LANDING_BLOCKS + EVM_RECEIVE_CLAIM_LANDING_BLOCKS
        < prEvmTimeout row)"
  by (cases "prState row"; cases "coalesce (orPreimage seen) (prPreimage row)")
    (auto simp: planEvmReceive_defs)

lemma planEvmReceive_Claim_evm:
  "planEvmReceive row seen = Claim_evm q \<longleftrightarrow>
     prState row \<in> set EVM_RECEIVE_NON_TERMINAL \<and> coalesce (orPreimage seen) (prPreimage row) = Some q \<and>
     prEvmClaimTxid row = None \<and> orEvmTimelockHeight seen < prEvmTimeout row"
  by (cases "prState row"; cases "coalesce (orPreimage seen) (prPreimage row)")
    (auto simp: planEvmReceive_defs)

lemma planEvmReceive_Refund_arkade:
  "planEvmReceive row seen = Refund_arkade \<longleftrightarrow>
     coalesce (orPreimage seen) (prPreimage row) = None \<and>
     (prState row = Ev_awaiting_claim \<and> prRefundLocktime row \<le> orNowSeconds seen \<or>
      prState row = Ev_refunding_arkade \<and> orArkadeLockupFunded seen)"
  by (cases "prState row"; cases "coalesce (orPreimage seen) (prPreimage row)") (simp_all add: planEvmReceive_defs)

text \<open>
  C19: when the EVM receive plan moves money, exactly. Sats are funded from \<open>quoted\<close> and \<open>awaiting_lock\<close> only
  against a lock that was seen present, buried and old enough before the quote expired and with room for
  both landings before the client's timeout, and from \<open>locked\<close>, which records that this was seen, without
  looking again; never once a preimage is known. The client's tokens are claimed in every live state
  exactly when a preimage is known, no claim was sent and the client's timeout has not passed. The
  solver's sats are refunded exactly when no preimage is known and either a client that was awaited let
  the refund locktime pass, or a refund was begun and the lockup is still funded.
\<close>

theorem planEvmReceive_money_rules:
  "(planEvmReceive row seen = Fund_arkade \<longleftrightarrow>
     coalesce (orPreimage seen) (prPreimage row) = None \<and>
     (prState row = Ev_locked \<or>
      prState row \<in> {Ev_quoted, Ev_awaiting_lock} \<and> orEvmLockPresent seen \<and>
      orNowSeconds seen < prValidUntil row \<and> prMinConfirmations row \<le> orEvmLockConfirmations seen \<and>
      prMinAgeSeconds row \<le> orEvmLockAgeSeconds seen \<and>
      orEvmTimelockHeight seen + EVM_RECEIVE_FUND_LANDING_BLOCKS + EVM_RECEIVE_CLAIM_LANDING_BLOCKS
        < prEvmTimeout row)) \<and>
   (planEvmReceive row seen = Claim_evm q \<longleftrightarrow>
     prState row \<in> set EVM_RECEIVE_NON_TERMINAL \<and> coalesce (orPreimage seen) (prPreimage row) = Some q \<and>
     prEvmClaimTxid row = None \<and> orEvmTimelockHeight seen < prEvmTimeout row) \<and>
   (planEvmReceive row seen = Refund_arkade \<longleftrightarrow>
     coalesce (orPreimage seen) (prPreimage row) = None \<and>
     (prState row = Ev_awaiting_claim \<and> prRefundLocktime row \<le> orNowSeconds seen \<or>
      prState row = Ev_refunding_arkade \<and> orArkadeLockupFunded seen))"
  by (intro conjI planEvmReceive_Fund_arkade planEvmReceive_Claim_evm planEvmReceive_Refund_arkade)

text \<open>
  C33: \<open>arkadeRefundLocktimeFor\<close> answers with a refund locktime the funding gate accepts, and no
  later one is accepted: the most time the client can be given to claim.
\<close>

theorem arkadeRefundLocktimeFor_latest:
  assumes "arkadeRefundLocktimeFor p = Inr (Some t)"
  shows "evaluateEvmReceiveFund (p\<lparr>erRefundLocktime := t\<rparr>) = Inr Ok \<and>
    (\<forall>t'. evaluateEvmReceiveFund (p\<lparr>erRefundLocktime := t'\<rparr>) = Inr Ok \<longrightarrow> t' \<le> t)"
  using assms
  by (auto simp: arkadeRefundLocktimeFor_def Let_def result evaluateEvmReceiveFund_ok_iff split: if_splits)

theorem arkadeRefundLocktimeFor_latest_witness:
  "\<exists>p. arkadeRefundLocktimeFor p = Inr (Some 1700014400) \<and>
    evaluateEvmReceiveFund (p\<lparr>erRefundLocktime := 1700014400\<rparr>) = Inr Ok"
proof -
  let ?p = "\<lparr>erEvmTimeout = 1700021600, erRefundLocktime = 0, erNowSeconds = 1700000000,
    erOrderMarginSeconds = None, erMinClaimWindowSeconds = None\<rparr>"
  have "arkadeRefundLocktimeFor ?p = Inr (Some 1700014400)"
    by (simp add: arkadeRefundLocktimeFor_def evaluateEvmReceiveFund_def default_to_def Let_def
        assertAbsoluteLocktime_def absoluteLocktimeUnit_def policy)
  with arkadeRefundLocktimeFor_latest [OF this] show ?thesis by blast
qed

end
