(* ===== verification/Receive_Gates.thy ===== *)
theory Receive_Gates
  imports Timelocks
begin

text \<open>
  \<^verbatim>\<open>solver-core/src/core/receive.ts\<close>: the gates of the \<open>lightning:BTC->arkade:BTC\<close> leg. The solver
  funds an Arkade lockup before it settles the held HTLC, whose deadline is called \<open>E\<close>; the gates
  decide whether it may fund now, and how long a final CLTV delta the invoice it mints must carry.
\<close>

section \<open>Policy constants\<close>

definition MIN_SETTLE_WINDOW :: int where [policy]: "MIN_SETTLE_WINDOW = 90 * MINUTE"
definition SETTLE_SAFETY_MARGIN :: int where [policy]: "SETTLE_SAFETY_MARGIN = 15 * MINUTE"
definition UNILATERAL_RECOURSE_MARGIN :: int where [policy]: "UNILATERAL_RECOURSE_MARGIN = 30 * MINUTE"
definition MAX_FINAL_CLTV_BLOCKS :: int where [policy]: "MAX_FINAL_CLTV_BLOCKS = 2016"
definition HTLC_SECONDS_PER_BLOCK :: int where [policy]: "HTLC_SECONDS_PER_BLOCK = 150"
definition MAX_REFUND_HORIZON :: int where [policy]: "MAX_REFUND_HORIZON = 2 * HOUR"

section \<open>How long an invoice must hold\<close>

definition minHtlcWindowFor :: "int \<Rightarrow> bool \<Rightarrow> int" where [gate]:
  "minHtlcWindowFor soloDelay acceptUnilateralGap =
     max (max MIN_SETTLE_WINDOW (MAX_REFUND_HORIZON + SETTLE_SAFETY_MARGIN))
       (if acceptUnilateralGap then 0 else rawDelaySeconds soloDelay + UNILATERAL_RECOURSE_MARGIN)"

definition minFinalCltvBlocksFor :: "int \<Rightarrow> bool \<Rightarrow> int" where [gate]:
  "minFinalCltvBlocksFor soloDelay acceptUnilateralGap =
     ceil_div (minHtlcWindowFor soloDelay acceptUnilateralGap) HTLC_SECONDS_PER_BLOCK"

datatype exit_delay_error = NoExitDelayServable | DeriveThrew timelock_error

text \<open>The search loop of \<open>maxServableExitDelay\<close>, from \<open>u\<close> units down to one.\<close>

fun search_exit_delay :: "nat \<Rightarrow> exit_delay_error + int" where
  "search_exit_delay 0 = Inl NoExitDelayServable"
| "search_exit_delay (Suc u) =
     (let delay = int (Suc u) * SEQUENCE_GRANULARITY_SECONDS in
      case deriveUnilateralDelays (jint delay) of
        Inl e \<Rightarrow> Inl (DeriveThrew e)
      | Inr L \<Rightarrow>
          if minFinalCltvBlocksFor (unilateralRefundWithoutReceiverDelay L) False \<le> MAX_FINAL_CLTV_BLOCKS
          then Inr delay
          else search_exit_delay u)"

definition maxServableExitDelay :: "exit_delay_error + int" where
  "maxServableExitDelay =
     (let ceilingSeconds = MAX_FINAL_CLTV_BLOCKS * HTLC_SECONDS_PER_BLOCK in
      search_exit_delay (nat (ceilingSeconds div SEQUENCE_GRANULARITY_SECONDS)))"

definition htlcDeadlineFromHeight :: "int \<Rightarrow> int \<Rightarrow> int \<Rightarrow> int" where [gate]:
  "htlcDeadlineFromHeight timeoutHeight currentHeight now =
     now + (timeoutHeight - currentHeight) * HTLC_SECONDS_PER_BLOCK"

section \<open>Whether to fund\<close>

datatype ReceiveFundingRefusal =
    Rf_invoice_expired | Rf_htlc_not_armed | Rf_settle_window_too_short
  | Rf_refund_deadline_too_late | Rf_unilateral_recourse_after_htlc

record ReceiveFundingInput =
  rfInvoiceExpiresAt :: int
  rfHtlcExpiresAt :: "int option"
  rfRefundLocktime :: int
  rfSoloDelay :: int
  rfAcceptUnilateralGap :: bool
  rfNow :: int

text \<open>Either the assertion on the locktime throws, or the gate answers.\<close>

datatype ReceiveFundingDecision = Fund | DoNotFund ReceiveFundingRefusal

definition evaluateReceiveFunding ::
    "ReceiveFundingInput \<Rightarrow> timelock_error + ReceiveFundingDecision" where
  "evaluateReceiveFunding input =
     (if rfNow input \<ge> rfInvoiceExpiresAt input then Inr (DoNotFund Rf_invoice_expired)
      else case rfHtlcExpiresAt input of
        None \<Rightarrow> Inr (DoNotFund Rf_htlc_not_armed)
      | Some htlcExpiresAt \<Rightarrow>
          if htlcExpiresAt - rfNow input < MIN_SETTLE_WINDOW
          then Inr (DoNotFund Rf_settle_window_too_short)
          else and_then (assertAbsoluteLocktime (jint (rfRefundLocktime input)) ''refundLocktime'' Seconds)
            (\<lambda>_.
              if rfRefundLocktime input > htlcExpiresAt - SETTLE_SAFETY_MARGIN
              then Inr (DoNotFund Rf_refund_deadline_too_late)
              else if \<not> rfAcceptUnilateralGap input \<and>
                rfNow input + rawDelaySeconds (rfSoloDelay input) + UNILATERAL_RECOURSE_MARGIN
                  > htlcExpiresAt
              then Inr (DoNotFund Rf_unilateral_recourse_after_htlc)
              else Inr Fund))"

section \<open>Facts\<close>

lemma assertAbsoluteLocktime_seconds:
  "assertAbsoluteLocktime (jint l) label Seconds = Inr u \<longleftrightarrow> LOCKTIME_THRESHOLD \<le> l"
  by (auto simp: assertAbsoluteLocktime_def absoluteLocktimeUnit_def policy)

lemma evaluateReceiveFunding_fund_iff:
  "evaluateReceiveFunding i = Inr Fund \<longleftrightarrow>
     (\<exists>E. rfHtlcExpiresAt i = Some E \<and> rfNow i < rfInvoiceExpiresAt i \<and>
       rfNow i + MIN_SETTLE_WINDOW \<le> E \<and> LOCKTIME_THRESHOLD \<le> rfRefundLocktime i \<and>
       rfRefundLocktime i + SETTLE_SAFETY_MARGIN \<le> E \<and>
       (rfAcceptUnilateralGap i \<or>
        rfNow i + rawDelaySeconds (rfSoloDelay i) + UNILATERAL_RECOURSE_MARGIN \<le> E))"
  by (auto simp: evaluateReceiveFunding_def result assertAbsoluteLocktime_seconds not_less
      split: option.splits if_splits)

lemma minFinalCltvBlocksFor_covers:
  "minHtlcWindowFor d g \<le> minFinalCltvBlocksFor d g * HTLC_SECONDS_PER_BLOCK"
  unfolding minFinalCltvBlocksFor_def by (rule ceil_div_ge) (simp add: policy)

text \<open>
  C23: an invoice minted with the chosen final CLTV delta cannot be refused by a gate the chooser
  forgot. If, when the HTLC is armed, its timeout height is at least \<open>minFinalCltvBlocksFor\<close> above the
  tip, the invoice is live and the committed refund deadline is within \<open>MAX_REFUND_HORIZON\<close> of now,
  then the funding gate answers "fund".
\<close>

theorem minted_delta_is_fundable:
  assumes "minFinalCltvBlocksFor soloDelay gap \<le> timeoutHeight - tip"
    and "now < invoiceExpiresAt" and "LOCKTIME_THRESHOLD \<le> refundLocktime"
    and "refundLocktime \<le> now + MAX_REFUND_HORIZON"
  shows "evaluateReceiveFunding \<lparr>rfInvoiceExpiresAt = invoiceExpiresAt,
    rfHtlcExpiresAt = Some (htlcDeadlineFromHeight timeoutHeight tip now),
    rfRefundLocktime = refundLocktime, rfSoloDelay = soloDelay, rfAcceptUnilateralGap = gap,
    rfNow = now\<rparr> = Inr Fund"
proof -
  have "minFinalCltvBlocksFor soloDelay gap * 150 \<le> (timeoutHeight - tip) * 150"
    using assms(1) by simp
  with minFinalCltvBlocksFor_covers [of soloDelay gap]
  have "minHtlcWindowFor soloDelay gap \<le> (timeoutHeight - tip) * 150"
    by (simp add: HTLC_SECONDS_PER_BLOCK_def)
  then show ?thesis using assms(2-4)
    by (auto simp: evaluateReceiveFunding_fund_iff htlcDeadlineFromHeight_def minHtlcWindowFor_def
        HTLC_SECONDS_PER_BLOCK_def policy split: if_splits)
qed

theorem minted_delta_is_fundable_witness:
  "evaluateReceiveFunding \<lparr>rfInvoiceExpiresAt = 1700003600,
    rfHtlcExpiresAt = Some (htlcDeadlineFromHeight 801000 800000 1700000000),
    rfRefundLocktime = 1700007200, rfSoloDelay = 28, rfAcceptUnilateralGap = False,
    rfNow = 1700000000\<rparr> = Inr Fund"
  by (rule minted_delta_is_fundable)
    (simp_all add: minFinalCltvBlocksFor_def minHtlcWindowFor_def rawDelaySeconds_cases ceil_div_def
      policy)

text \<open>When a unit passes the test of the search loop.\<close>

lemma servable_unit:
  assumes "1 \<le> u" "u \<le> 590"
  shows "\<exists>L. deriveUnilateralDelays (jint (u * 512)) = Inr L \<and>
    (minFinalCltvBlocksFor (unilateralRefundWithoutReceiverDelay L) False \<le> MAX_FINAL_CLTV_BLOCKS
      \<longleftrightarrow> u \<le> 579)"
proof -
  have c: "ceilToGranularity (u * 512) = u * 512"
    by (simp add: ceilToGranularity_def SEQUENCE_GRANULARITY_SECONDS_def)
  have "deriveUnilateralDelays (jint (u * 512)) = Inr \<lparr>unilateralClaimDelay = u * 512,
      unilateralRefundDelay = u * 512, unilateralRefundWithoutReceiverDelay = u * 512 + 4096\<rparr>"
    using assms unfolding deriveUnilateralDelays_jint c by simp
  moreover have "minFinalCltvBlocksFor (u * 512 + 4096) False \<le> MAX_FINAL_CLTV_BLOCKS \<longleftrightarrow> u \<le> 579"
    using assms by (auto simp: minFinalCltvBlocksFor_def minHtlcWindowFor_def ceil_div_le_iff
        rawDelaySeconds_cases policy)
  ultimately show ?thesis by simp
qed

lemma search_exit_delay_eq:
  "u \<le> 590 \<Longrightarrow> search_exit_delay u =
     (if u = 0 then Inl NoExitDelayServable else Inr (int (min u 579) * 512))"
proof (induction u)
  case (Suc u)
  from servable_unit [of "int (Suc u)"] Suc.prems obtain L where
    L: "deriveUnilateralDelays (jint (int (Suc u) * 512)) = Inr L"
      "minFinalCltvBlocksFor (unilateralRefundWithoutReceiverDelay L) False \<le> MAX_FINAL_CLTV_BLOCKS
        \<longleftrightarrow> Suc u \<le> 579"
    by fastforce
  show ?case
  proof (cases "Suc u \<le> 579")
    case True
    with L show ?thesis by (simp add: SEQUENCE_GRANULARITY_SECONDS_def Let_def del: of_nat_Suc)
  next
    case False
    with L Suc show ?thesis by (simp add: SEQUENCE_GRANULARITY_SECONDS_def Let_def del: of_nat_Suc)
  qed
qed simp

text \<open>
  C35: the exit-delay ceiling the search returns is 296448 seconds, it is served with the solo-recourse
  gate intact, and it is the largest: a whole exit delay in seconds needs at most the final CLTV delta
  a stock payer routes exactly when it does not exceed that ceiling.
\<close>

theorem maxServableExitDelay_exact:
  "maxServableExitDelay = Inr 296448 \<and>
   (\<forall>d L. 512 \<le> d \<and> deriveUnilateralDelays (jint d) = Inr L \<longrightarrow>
     (minFinalCltvBlocksFor (unilateralRefundWithoutReceiverDelay L) False \<le> MAX_FINAL_CLTV_BLOCKS
       \<longleftrightarrow> d \<le> 296448))"
proof
  show "maxServableExitDelay = Inr 296448"
    by (simp add: maxServableExitDelay_def search_exit_delay_eq policy)
  have "minFinalCltvBlocksFor (unilateralRefundWithoutReceiverDelay L) False \<le> MAX_FINAL_CLTV_BLOCKS
       \<longleftrightarrow> d \<le> 296448"
    if d: "512 \<le> d" and L: "deriveUnilateralDelays (jint d) = Inr L" for d L
  proof -
    have s: "unilateralRefundWithoutReceiverDelay L = ceilToGranularity d + 4096"
      using L d unfolding deriveUnilateralDelays_jint by (auto split: if_splits)
    have "512 \<le> ceilToGranularity d + 4096" using d ceilToGranularity_ge [of d] by simp
    then have "minFinalCltvBlocksFor (ceilToGranularity d + 4096) False \<le> MAX_FINAL_CLTV_BLOCKS
        \<longleftrightarrow> ceilToGranularity d \<le> 296504"
      by (auto simp: minFinalCltvBlocksFor_def minHtlcWindowFor_def ceil_div_le_iff
          rawDelaySeconds_seconds policy)
    also have "\<dots> \<longleftrightarrow> ceil_div d 512 \<le> 579"
      by (auto simp: ceilToGranularity_def SEQUENCE_GRANULARITY_SECONDS_def)
    also have "\<dots> \<longleftrightarrow> d \<le> 296448" by (simp add: ceil_div_le_iff)
    finally show ?thesis by (simp add: s)
  qed
  then show "\<forall>d L. 512 \<le> d \<and> deriveUnilateralDelays (jint d) = Inr L \<longrightarrow>
     (minFinalCltvBlocksFor (unilateralRefundWithoutReceiverDelay L) False \<le> MAX_FINAL_CLTV_BLOCKS
       \<longleftrightarrow> d \<le> 296448)"
    by blast
qed

theorem maxServableExitDelay_exact_witness:
  "minFinalCltvBlocksFor 300544 False \<le> MAX_FINAL_CLTV_BLOCKS"
proof -
  have "deriveUnilateralDelays (jint 296448) = Inr \<lparr>unilateralClaimDelay = 296448,
      unilateralRefundDelay = 296448, unilateralRefundWithoutReceiverDelay = 300544\<rparr>"
    unfolding deriveUnilateralDelays_jint by (simp add: ceilToGranularity_def ceil_div_def policy)
  with maxServableExitDelay_exact [THEN conjunct2, rule_format, of 296448
      "\<lparr>unilateralClaimDelay = 296448, unilateralRefundDelay = 296448,
        unilateralRefundWithoutReceiverDelay = 300544\<rparr>"]
  show ?thesis by simp
qed

end
