(* ===== verification/Machines.thy ===== *)
theory Machines
  imports Prelude
begin

text \<open>
  The swap lifecycles: \<^verbatim>\<open>solver-core/src/core/stateMachine.ts\<close> (\<open>defineMachine\<close>, \<open>stepFor\<close>) and the
  three tables under \<^verbatim>\<open>solver-corridors/src/machines\<close>. A table is an association list in declaration
  order, as \<open>Object.keys\<close> reads it; \<open>defineMachine\<close> throws on an exposed terminal state and on an edge
  to an unknown state. The locale \<open>lifecycle\<close> states what the stores and the orchestrators rely on,
  and is interpreted on each of the three machines.
\<close>

section \<open>defineMachine and stepFor\<close>

record 's StateSpec =
  ssLive :: bool
  ssExposed :: bool
  ssTo :: "'s list"
  ssFlags :: "string list"

datatype 's machine_error =
    Exposed_not_live 's | Unknown_edge 's 's | Live_without_step 's | Terminal_with_step 's

record 's StateMachine =
  mStates :: "'s list"
  mLive :: "'s list"
  mExposed :: "'s list"
  mTerminal :: "'s list"
  mEdges :: "'s \<Rightarrow> 's list"
  mWhere :: "string \<Rightarrow> 's list"

definition spec_of :: "('s \<times> 's StateSpec) list \<Rightarrow> 's \<Rightarrow> 's StateSpec" where
  "spec_of table s = (case map_of table s of Some spec \<Rightarrow> spec
     | None \<Rightarrow> \<lparr>ssLive = False, ssExposed = False, ssTo = [], ssFlags = []\<rparr>)"

text \<open>The validation loop: the first offending state throws.\<close>

fun check_edges :: "'s list \<Rightarrow> 's \<Rightarrow> 's list \<Rightarrow> 's machine_error + unit" where
  "check_edges states s [] = Inr ()"
| "check_edges states s (t # ts) =
     and_then (refuse_if (t \<notin> set states) (Unknown_edge s t)) (\<lambda>_. check_edges states s ts)"

fun check_table :: "'s list \<Rightarrow> ('s \<times> 's StateSpec) list \<Rightarrow> 's machine_error + unit" where
  "check_table states [] = Inr ()"
| "check_table states ((s, spec) # rest) =
     and_then (refuse_if (ssExposed spec \<and> \<not> ssLive spec) (Exposed_not_live s)) (\<lambda>_.
     and_then (check_edges states s (ssTo spec)) (\<lambda>_. check_table states rest))"

definition defineMachine :: "('s \<times> 's StateSpec) list \<Rightarrow> 's machine_error + 's StateMachine" where
  "defineMachine table =
     (let states = map fst table;
          pick = (\<lambda>test. filter (\<lambda>s. test (spec_of table s)) states) in
      and_then (check_table states table) (\<lambda>_.
      Inr \<lparr>mStates = states, mLive = pick ssLive, mExposed = pick ssExposed,
           mTerminal = pick (\<lambda>spec. \<not> ssLive spec),
           mEdges = (\<lambda>s. ssTo (spec_of table s)),
           mWhere = (\<lambda>flag. pick (\<lambda>spec. flag \<in> set (ssFlags spec)))\<rparr>))"

definition isLive :: "'s StateMachine \<Rightarrow> 's \<Rightarrow> bool" where
  "isLive m s \<longleftrightarrow> s \<in> set (mLive m)"

definition isTerminal :: "'s StateMachine \<Rightarrow> 's \<Rightarrow> bool" where
  "isTerminal m s \<longleftrightarrow> s \<notin> set (mLive m)"

definition isExposed :: "'s StateMachine \<Rightarrow> 's \<Rightarrow> bool" where
  "isExposed m s \<longleftrightarrow> s \<in> set (mExposed m)"

definition canTransition :: "'s StateMachine \<Rightarrow> 's \<Rightarrow> 's \<Rightarrow> bool" where
  "canTransition m s t \<longleftrightarrow> s \<in> set (mStates m) \<and> t \<in> set (mEdges m s)"

text \<open>
  \<open>stepFor\<close> checks that exactly the live states have a handler and returns the dispatcher; a state
  without a handler answers false, here \<open>skip\<close>.
\<close>

fun check_handlers :: "'s StateMachine \<Rightarrow> ('s \<Rightarrow> 'h option) \<Rightarrow> 's list \<Rightarrow> 's machine_error + unit" where
  "check_handlers m handlers [] = Inr ()"
| "check_handlers m handlers (s # ss) =
     and_then (refuse_if (isLive m s \<noteq> (handlers s \<noteq> None))
       (if isLive m s then Live_without_step s else Terminal_with_step s)) (\<lambda>_.
     check_handlers m handlers ss)"

definition stepFor ::
    "'s StateMachine \<Rightarrow> ('s \<Rightarrow> ('row \<Rightarrow> 'r) option) \<Rightarrow> 'r \<Rightarrow> ('row \<Rightarrow> 's) \<Rightarrow> 's machine_error + ('row \<Rightarrow> 'r)" where
  "stepFor m handlers skip state_of =
     and_then (check_handlers m handlers (mStates m)) (\<lambda>_.
     Inr (\<lambda>row. case handlers (state_of row) of Some h \<Rightarrow> h row | None \<Rightarrow> skip))"

section \<open>The tables\<close>

abbreviation live_state :: "'s list \<Rightarrow> 's StateSpec" where
  "live_state to \<equiv> \<lparr>ssLive = True, ssExposed = False, ssTo = to, ssFlags = []\<rparr>"

abbreviation exposed_state :: "'s list \<Rightarrow> 's StateSpec" where
  "exposed_state to \<equiv> \<lparr>ssLive = True, ssExposed = True, ssTo = to, ssFlags = []\<rparr>"

abbreviation terminal_state :: "'s list \<Rightarrow> 's StateSpec" where
  "terminal_state to \<equiv> \<lparr>ssLive = False, ssExposed = False, ssTo = to, ssFlags = []\<rparr>"

datatype LnSendSwapState =
    S_quoted | S_funded | S_paying | S_paid | S_claiming | S_claimed | S_refused | S_stuck

definition lnSendTable :: "(LnSendSwapState \<times> LnSendSwapState StateSpec) list" where
  "lnSendTable =
     [(S_quoted, live_state [S_funded, S_refused]),
      (S_funded, live_state [S_paying, S_claiming, S_refused]),
      (S_paying, exposed_state [S_paid, S_stuck, S_refused]),
      (S_paid, exposed_state [S_claiming, S_stuck, S_refused]),
      (S_claiming, exposed_state [S_claimed, S_stuck]),
      (S_claimed, terminal_state []),
      (S_refused, terminal_state []),
      (S_stuck, terminal_state [S_claiming, S_refused])]"

datatype LnReceiveSwapState =
    R_quoted | R_armed | R_funded | R_claimed | R_refunding | R_settled | R_refunded | R_refused | R_stuck

definition lnReceiveTable :: "(LnReceiveSwapState \<times> LnReceiveSwapState StateSpec) list" where
  "lnReceiveTable =
     [(R_quoted, live_state [R_armed, R_refused]),
      (R_armed, live_state [R_funded, R_refused, R_stuck]),
      (R_funded, exposed_state [R_claimed, R_refunding, R_refunded, R_stuck]),
      (R_claimed, exposed_state [R_settled, R_stuck]),
      (R_refunding, exposed_state [R_refunded, R_claimed, R_stuck]),
      (R_settled, terminal_state []),
      (R_refunded, terminal_state []),
      (R_refused, terminal_state []),
      (R_stuck, terminal_state [])]"

datatype OnchainSendSwapState =
    O_quoted | O_funded | O_funding_onchain | O_awaiting_claim | O_claiming | O_refunding_onchain
  | O_claimed | O_refunded | O_refused | O_stuck

definition onchainSendTable :: "(OnchainSendSwapState \<times> OnchainSendSwapState StateSpec) list" where
  "onchainSendTable =
     [(O_quoted, (live_state [O_funded, O_refused])\<lparr>ssFlags := [''owesPayout'']\<rparr>),
      (O_funded, (live_state [O_funding_onchain, O_refused])\<lparr>ssFlags := [''owesPayout'', ''outgoing'']\<rparr>),
      (O_funding_onchain, (exposed_state [O_awaiting_claim, O_refused, O_stuck])
         \<lparr>ssFlags := [''owesPayout'', ''outgoing'']\<rparr>),
      (O_awaiting_claim, (exposed_state [O_claiming, O_refunding_onchain, O_stuck])\<lparr>ssFlags := [''outgoing'']\<rparr>),
      (O_claiming, (exposed_state [O_claimed, O_stuck])\<lparr>ssFlags := [''outgoing'']\<rparr>),
      (O_refunding_onchain, (exposed_state [O_claiming, O_refunded, O_stuck])\<lparr>ssFlags := [''outgoing'']\<rparr>),
      (O_claimed, terminal_state []),
      (O_refunded, terminal_state []),
      (O_refused, terminal_state []),
      (O_stuck, (terminal_state [O_claiming])\<lparr>ssFlags := [''outgoing'']\<rparr>)]"

text \<open>
  Each module evaluates \<open>defineMachine\<close> when it loads, so a table that throws would be no machine at
  all; \<open>lnSend_defined\<close> and its twins below show that none does.
\<close>

definition LnSendMachine :: "LnSendSwapState StateMachine" where
  "LnSendMachine = projr (defineMachine lnSendTable)"

definition LnReceiveMachine :: "LnReceiveSwapState StateMachine" where
  "LnReceiveMachine = projr (defineMachine lnReceiveTable)"

definition OnchainSendMachine :: "OnchainSendSwapState StateMachine" where
  "OnchainSendMachine = projr (defineMachine onchainSendTable)"

section \<open>What defineMachine guarantees\<close>

lemma check_edges_ok: "check_edges states s ts = Inr u \<longleftrightarrow> set ts \<subseteq> set states"
  by (induction ts) (auto simp: result)

lemma check_table_ok:
  "check_table states tab = Inr u \<longleftrightarrow>
     (\<forall>(s, spec) \<in> set tab. (ssExposed spec \<longrightarrow> ssLive spec) \<and> set (ssTo spec) \<subseteq> set states)"
  by (induction tab) (auto simp: result check_edges_ok)

lemma spec_of_mem: "s \<in> set (map fst table) \<Longrightarrow> (s, spec_of table s) \<in> set table"
  by (auto simp: spec_of_def map_of_eq_None_iff split: option.split dest: map_of_SomeD)

text \<open>
  C31: the invariants of every machine \<open>defineMachine\<close> accepts: exposed states are live, live and
  terminal states partition the states, a legal transition ends in a declared state and the edge test
  agrees with the published edge lists.
\<close>

theorem defineMachine_invariants:
  assumes "defineMachine table = Inr m"
  shows "set (mExposed m) \<subseteq> set (mLive m) \<and>
    set (mLive m) \<union> set (mTerminal m) = set (mStates m) \<and> set (mLive m) \<inter> set (mTerminal m) = {} \<and>
    (\<forall>s t. canTransition m s t \<longrightarrow> t \<in> set (mStates m)) \<and>
    (\<forall>s \<in> set (mStates m). isTerminal m s \<longleftrightarrow> s \<in> set (mTerminal m))"
proof -
  from assms have ok: "\<forall>(s, spec) \<in> set table. (ssExposed spec \<longrightarrow> ssLive spec) \<and>
      set (ssTo spec) \<subseteq> set (map fst table)"
    and m: "m = \<lparr>mStates = map fst table, mLive = filter (\<lambda>s. ssLive (spec_of table s)) (map fst table),
      mExposed = filter (\<lambda>s. ssExposed (spec_of table s)) (map fst table),
      mTerminal = filter (\<lambda>s. \<not> ssLive (spec_of table s)) (map fst table),
      mEdges = (\<lambda>s. ssTo (spec_of table s)),
      mWhere = (\<lambda>flag. filter (\<lambda>s. flag \<in> set (ssFlags (spec_of table s))) (map fst table))\<rparr>"
    by (auto simp: defineMachine_def Let_def result check_table_ok)
  have "ssExposed (spec_of table s) \<Longrightarrow> ssLive (spec_of table s)"
    and "t \<in> set (ssTo (spec_of table s)) \<Longrightarrow> t \<in> set (map fst table)"
    if "s \<in> set (map fst table)" for s t
    using ok spec_of_mem [OF that] by blast+
  then show ?thesis unfolding m canTransition_def isTerminal_def by (auto simp del: set_map)
qed

theorem defineMachine_invariants_witness:
  "\<exists>m. defineMachine lnSendTable = Inr m \<and> set (mExposed m) \<subseteq> set (mLive m)"
proof -
  have "is_ok (defineMachine lnSendTable)"
    by (simp add: defineMachine_def lnSendTable_def)
  then obtain m where "defineMachine lnSendTable = Inr m" by (auto simp: is_ok_iff)
  with defineMachine_invariants [OF this] show ?thesis by blast
qed

section \<open>Paths\<close>

text \<open>A path: the legal edges a swap took, in order.\<close>

inductive mpath :: "'s StateMachine \<Rightarrow> 's \<Rightarrow> ('s \<times> 's) list \<Rightarrow> 's \<Rightarrow> bool" for m where
  mpath_nil: "mpath m s [] s"
| mpath_snoc: "mpath m s es t \<Longrightarrow> canTransition m t u \<Longrightarrow> mpath m s (es @ [(t, u)]) u"

inductive_cases mpath_nilE: "mpath m s [] t"

lemma mpath_closed:
  assumes "mpath m s es t" and "s \<in> A"
    and "\<And>a b. a \<in> A \<Longrightarrow> canTransition m a b \<Longrightarrow> b \<in> A"
  shows "t \<in> A"
  using assms by (induction rule: mpath.induct) blast+

section \<open>The lifecycle contract\<close>

text \<open>
  What the stores and orchestrators need of a machine. \<open>commit\<close> is the state whose entry commits the
  payout (the compare-and-swap that gates spending) and \<open>after\<close> the states behind it.
\<close>

locale commit_machine =
  fixes m :: "'s StateMachine" and start refused stuck commit :: 's and after :: "'s set"
  assumes refused_final: "\<not> canTransition m refused s"
    and past_commit: "canTransition m commit s \<Longrightarrow> s \<in> after"
    and past_closed: "s \<in> after \<Longrightarrow> canTransition m s t \<Longrightarrow> t \<in> after"
    and commit_not_past: "commit \<notin> after"
begin

lemma no_reentry: "mpath m s es t \<Longrightarrow> s = commit \<or> s \<in> after \<Longrightarrow> es \<noteq> [] \<Longrightarrow> t \<in> after"
proof (induction rule: mpath.induct)
  case (mpath_snoc s es t u)
  then show ?case using past_commit past_closed by (cases "es = []") (auto elim: mpath_nilE)
qed simp

lemma after_commit:
  "mpath m s es t \<Longrightarrow> \<exists>e \<in> set es. snd e = commit \<Longrightarrow> t = commit \<or> t \<in> after"
proof (induction rule: mpath.induct)
  case (mpath_snoc s es t u)
  then show ?case using past_commit past_closed by auto
qed simp

text \<open>Whatever the interleaving, a swap enters the commit state at most once.\<close>

lemma commit_once: "mpath m s es t \<Longrightarrow> length (filter (\<lambda>e. snd e = commit) es) \<le> 1"
proof (induction rule: mpath.induct)
  case (mpath_snoc s es t u)
  show ?case
  proof (cases "u = commit")
    case True
    then have "\<not> (\<exists>e \<in> set es. snd e = commit)"
      using after_commit [OF mpath_snoc.hyps(1)] mpath_snoc.hyps(2) past_commit past_closed commit_not_past
      by blast
    then have "filter (\<lambda>e. snd e = commit) es = []" by (auto simp: filter_empty_conv)
    then show ?thesis by simp
  qed (use mpath_snoc.IH in simp)
qed simp

lemma refused_stays: "mpath m refused es t \<Longrightarrow> t = refused"
  by (rule singletonD, rule mpath_closed [where A = "{refused}"]) (auto simp: refused_final)

end

text \<open>
  The lifecycles the corridors declare as a table: \<open>fail\<close> is always a legal edge and, operator recovery from
  \<open>stuck\<close> aside, every edge goes forward.
\<close>

locale lifecycle = commit_machine m start refused stuck commit after
  for m :: "'s StateMachine" and start refused stuck commit and after +
  fixes rank :: "'s \<Rightarrow> nat"
  assumes start_live: "isLive m start" and start_unexposed: "\<not> isExposed m start"
    and exposed_live: "isExposed m s \<Longrightarrow> isLive m s"
    and fail_exposed: "isExposed m s \<Longrightarrow> canTransition m s stuck"
    and fail_unexposed: "isLive m s \<Longrightarrow> \<not> isExposed m s \<Longrightarrow> canTransition m s refused"
    and fail_terminal: "isTerminal m stuck" "isTerminal m refused"
    and only_recovery: "canTransition m s t \<Longrightarrow> isTerminal m s \<Longrightarrow> s = stuck"
    and forward: "canTransition m s t \<Longrightarrow> s \<noteq> stuck \<Longrightarrow> rank s < rank t"
    and commit_exposed: "isExposed m commit"
begin

text \<open>\<open>fail\<close> of the store is never an illegal edge from a live state.\<close>

lemma fail_legal: "isLive m s \<Longrightarrow> canTransition m s (if isExposed m s then stuck else refused)"
  by (simp add: fail_exposed fail_unexposed)

text \<open>Without an operator recovery from \<open>stuck\<close> the length of a lifecycle is bounded.\<close>

lemma bounded_life:
  "mpath m s es t \<Longrightarrow> \<forall>e \<in> set es. fst e \<noteq> stuck \<Longrightarrow> length es + rank s \<le> rank t"
proof (induction rule: mpath.induct)
  case (mpath_snoc s es t u)
  then show ?case using forward [of t u] by auto
qed simp

end

section \<open>The three machines\<close>

lemma lnSend_defined: "defineMachine lnSendTable = Inr LnSendMachine"
  by (simp add: LnSendMachine_def defineMachine_def lnSendTable_def)

lemma lnReceive_defined: "defineMachine lnReceiveTable = Inr LnReceiveMachine"
  by (simp add: LnReceiveMachine_def defineMachine_def lnReceiveTable_def)

lemma onchainSend_defined: "defineMachine onchainSendTable = Inr OnchainSendMachine"
  by (simp add: OnchainSendMachine_def defineMachine_def onchainSendTable_def)

lemma lnSend_edges:
  "mStates LnSendMachine = [S_quoted, S_funded, S_paying, S_paid, S_claiming, S_claimed, S_refused, S_stuck]"
  "mLive LnSendMachine = [S_quoted, S_funded, S_paying, S_paid, S_claiming]"
  "mExposed LnSendMachine = [S_paying, S_paid, S_claiming]"
  "mEdges LnSendMachine s = ssTo (spec_of lnSendTable s)"
  by (simp_all add: LnSendMachine_def defineMachine_def lnSendTable_def spec_of_def)

lemma lnSend_live [simp]: "isLive LnSendMachine s \<longleftrightarrow> s \<in> {S_quoted, S_funded, S_paying, S_paid, S_claiming}"
  by (simp add: isLive_def lnSend_edges)

lemma lnSend_terminal [simp]: "isTerminal LnSendMachine s \<longleftrightarrow> s \<in> {S_claimed, S_refused, S_stuck}"
  by (cases s) (simp_all add: isTerminal_def lnSend_edges)

lemma lnSend_exposed [simp]: "isExposed LnSendMachine s \<longleftrightarrow> s \<in> {S_paying, S_paid, S_claiming}"
  by (simp add: isExposed_def lnSend_edges)

lemma lnSend_can [simp]:
  "canTransition LnSendMachine s t \<longleftrightarrow> (case s of
     S_quoted \<Rightarrow> t \<in> {S_funded, S_refused} | S_funded \<Rightarrow> t \<in> {S_paying, S_claiming, S_refused}
   | S_paying \<Rightarrow> t \<in> {S_paid, S_stuck, S_refused} | S_paid \<Rightarrow> t \<in> {S_claiming, S_stuck, S_refused}
   | S_claiming \<Rightarrow> t \<in> {S_claimed, S_stuck} | S_stuck \<Rightarrow> t \<in> {S_claiming, S_refused} | _ \<Rightarrow> False)"
  by (cases s) (simp_all add: canTransition_def lnSend_edges spec_of_def lnSendTable_def)

fun lnSend_rank :: "LnSendSwapState \<Rightarrow> nat" where
  "lnSend_rank S_quoted = 0"
| "lnSend_rank S_funded = 1"
| "lnSend_rank S_paying = 2"
| "lnSend_rank S_paid = 3"
| "lnSend_rank S_claiming = 4"
| "lnSend_rank _ = 5"

interpretation ln_send: lifecycle LnSendMachine S_quoted S_refused S_stuck S_paying
  "{S_paid, S_stuck, S_refused, S_claiming, S_claimed}" lnSend_rank
  by unfold_locales (simp_all split: LnSendSwapState.splits, auto)

lemma lnReceive_edges:
  "mStates LnReceiveMachine =
     [R_quoted, R_armed, R_funded, R_claimed, R_refunding, R_settled, R_refunded, R_refused, R_stuck]"
  "mLive LnReceiveMachine = [R_quoted, R_armed, R_funded, R_claimed, R_refunding]"
  "mExposed LnReceiveMachine = [R_funded, R_claimed, R_refunding]"
  "mEdges LnReceiveMachine s = ssTo (spec_of lnReceiveTable s)"
  by (simp_all add: LnReceiveMachine_def defineMachine_def lnReceiveTable_def spec_of_def)

lemma lnReceive_live [simp]:
  "isLive LnReceiveMachine s \<longleftrightarrow> s \<in> {R_quoted, R_armed, R_funded, R_claimed, R_refunding}"
  by (simp add: isLive_def lnReceive_edges)

lemma lnReceive_terminal [simp]:
  "isTerminal LnReceiveMachine s \<longleftrightarrow> s \<in> {R_settled, R_refunded, R_refused, R_stuck}"
  by (cases s) (simp_all add: isTerminal_def lnReceive_edges)

lemma lnReceive_exposed [simp]: "isExposed LnReceiveMachine s \<longleftrightarrow> s \<in> {R_funded, R_claimed, R_refunding}"
  by (simp add: isExposed_def lnReceive_edges)

lemma lnReceive_can [simp]:
  "canTransition LnReceiveMachine s t \<longleftrightarrow> (case s of
     R_quoted \<Rightarrow> t \<in> {R_armed, R_refused} | R_armed \<Rightarrow> t \<in> {R_funded, R_refused, R_stuck}
   | R_funded \<Rightarrow> t \<in> {R_claimed, R_refunding, R_refunded, R_stuck} | R_claimed \<Rightarrow> t \<in> {R_settled, R_stuck}
   | R_refunding \<Rightarrow> t \<in> {R_refunded, R_claimed, R_stuck} | _ \<Rightarrow> False)"
  by (cases s) (simp_all add: canTransition_def lnReceive_edges spec_of_def lnReceiveTable_def)

fun lnReceive_rank :: "LnReceiveSwapState \<Rightarrow> nat" where
  "lnReceive_rank R_quoted = 0"
| "lnReceive_rank R_armed = 1"
| "lnReceive_rank R_funded = 2"
| "lnReceive_rank R_refunding = 3"
| "lnReceive_rank R_claimed = 4"
| "lnReceive_rank _ = 5"

interpretation ln_receive: lifecycle LnReceiveMachine R_quoted R_refused R_stuck R_funded
  "{R_claimed, R_refunding, R_settled, R_refunded, R_stuck}" lnReceive_rank
  by unfold_locales (simp_all split: LnReceiveSwapState.splits, auto)

lemma onchainSend_edges:
  "mStates OnchainSendMachine = [O_quoted, O_funded, O_funding_onchain, O_awaiting_claim, O_claiming,
     O_refunding_onchain, O_claimed, O_refunded, O_refused, O_stuck]"
  "mLive OnchainSendMachine =
     [O_quoted, O_funded, O_funding_onchain, O_awaiting_claim, O_claiming, O_refunding_onchain]"
  "mExposed OnchainSendMachine = [O_funding_onchain, O_awaiting_claim, O_claiming, O_refunding_onchain]"
  "mEdges OnchainSendMachine s = ssTo (spec_of onchainSendTable s)"
  "mWhere OnchainSendMachine ''owesPayout'' = [O_quoted, O_funded, O_funding_onchain]"
  "mWhere OnchainSendMachine ''outgoing'' =
     [O_funded, O_funding_onchain, O_awaiting_claim, O_claiming, O_refunding_onchain, O_stuck]"
  by (simp_all add: OnchainSendMachine_def defineMachine_def onchainSendTable_def spec_of_def)

lemma onchainSend_live [simp]: "isLive OnchainSendMachine s \<longleftrightarrow>
    s \<in> {O_quoted, O_funded, O_funding_onchain, O_awaiting_claim, O_claiming, O_refunding_onchain}"
  by (simp add: isLive_def onchainSend_edges)

lemma onchainSend_terminal [simp]:
  "isTerminal OnchainSendMachine s \<longleftrightarrow> s \<in> {O_claimed, O_refunded, O_refused, O_stuck}"
  by (cases s) (simp_all add: isTerminal_def onchainSend_edges)

lemma onchainSend_exposed [simp]: "isExposed OnchainSendMachine s \<longleftrightarrow>
    s \<in> {O_funding_onchain, O_awaiting_claim, O_claiming, O_refunding_onchain}"
  by (simp add: isExposed_def onchainSend_edges)

lemma onchainSend_can [simp]:
  "canTransition OnchainSendMachine s t \<longleftrightarrow> (case s of
     O_quoted \<Rightarrow> t \<in> {O_funded, O_refused} | O_funded \<Rightarrow> t \<in> {O_funding_onchain, O_refused}
   | O_funding_onchain \<Rightarrow> t \<in> {O_awaiting_claim, O_refused, O_stuck}
   | O_awaiting_claim \<Rightarrow> t \<in> {O_claiming, O_refunding_onchain, O_stuck}
   | O_claiming \<Rightarrow> t \<in> {O_claimed, O_stuck}
   | O_refunding_onchain \<Rightarrow> t \<in> {O_claiming, O_refunded, O_stuck} | O_stuck \<Rightarrow> t = O_claiming | _ \<Rightarrow> False)"
  by (cases s) (simp_all add: canTransition_def onchainSend_edges spec_of_def onchainSendTable_def)

fun onchainSend_rank :: "OnchainSendSwapState \<Rightarrow> nat" where
  "onchainSend_rank O_quoted = 0"
| "onchainSend_rank O_funded = 1"
| "onchainSend_rank O_funding_onchain = 2"
| "onchainSend_rank O_awaiting_claim = 3"
| "onchainSend_rank O_refunding_onchain = 4"
| "onchainSend_rank O_claiming = 5"
| "onchainSend_rank _ = 6"

interpretation onchain_send: lifecycle OnchainSendMachine O_quoted O_refused O_stuck O_funding_onchain
  "{O_awaiting_claim, O_claiming, O_refunding_onchain, O_claimed, O_refunded, O_refused, O_stuck}"
  onchainSend_rank
  by unfold_locales (simp_all split: OnchainSendSwapState.splits, auto)

text \<open>
  C20: in each corridor the compare-and-swap that commits the payout is won at most once in the whole
  life of a swap, operator recovery from \<open>stuck\<close> included: no legal path, from whatever state, enters
  \<open>paying\<close> (Lightning send), \<open>funded\<close> (Lightning receive) or \<open>funding_onchain\<close> (onchain send) twice. A path
  that entered it ends there or in a state behind it: never in \<open>quoted\<close>, \<open>funded\<close> (Lightning send, onchain
  send) or \<open>armed\<close> (Lightning receive), and on the receive leg not in \<open>refused\<close> either.
\<close>

theorem payout_committed_once:
  "(mpath LnSendMachine s1 p1 t1 \<longrightarrow> length (filter (\<lambda>e. snd e = S_paying) p1) \<le> 1 \<and>
     ((\<exists>e \<in> set p1. snd e = S_paying) \<longrightarrow>
        t1 \<in> {S_paying, S_paid, S_claiming, S_claimed, S_stuck, S_refused})) \<and>
   (mpath LnReceiveMachine s2 p2 t2 \<longrightarrow> length (filter (\<lambda>e. snd e = R_funded) p2) \<le> 1 \<and>
     ((\<exists>e \<in> set p2. snd e = R_funded) \<longrightarrow>
        t2 \<in> {R_funded, R_claimed, R_refunding, R_settled, R_refunded, R_stuck})) \<and>
   (mpath OnchainSendMachine s3 p3 t3 \<longrightarrow> length (filter (\<lambda>e. snd e = O_funding_onchain) p3) \<le> 1 \<and>
     ((\<exists>e \<in> set p3. snd e = O_funding_onchain) \<longrightarrow>
        t3 \<in> {O_funding_onchain, O_awaiting_claim, O_claiming, O_refunding_onchain, O_claimed, O_refunded, O_refused, O_stuck}))"
  using ln_send.commit_once [of s1 p1 t1] ln_send.after_commit [of s1 p1 t1]
    ln_receive.commit_once [of s2 p2 t2] ln_receive.after_commit [of s2 p2 t2]
    onchain_send.commit_once [of s3 p3 t3] onchain_send.after_commit [of s3 p3 t3]
  by auto

lemma mpath_Cons: "canTransition m s t \<Longrightarrow> mpath m t es u \<Longrightarrow> mpath m s ((s, t) # es) u"
proof (rotate_tac, induction rule: mpath.induct)
  case (mpath_nil t)
  then show ?case using mpath_snoc [OF mpath.mpath_nil [of m s], of t] by simp
next
  case (mpath_snoc t es u v)
  then show ?case using mpath.mpath_snoc [of m s "(s, t) # es" u v] by simp
qed

theorem payout_committed_once_witness:
  "mpath LnSendMachine S_quoted [(S_quoted, S_funded), (S_funded, S_paying), (S_paying, S_stuck),
     (S_stuck, S_claiming), (S_claiming, S_claimed)] S_claimed \<and>
   length (filter (\<lambda>e. snd e = S_paying) [(S_quoted, S_funded), (S_funded, S_paying), (S_paying, S_stuck),
     (S_stuck, S_claiming), (S_claiming, S_claimed)]) \<le> 1"
proof -
  have p: "mpath LnSendMachine S_quoted [(S_quoted, S_funded), (S_funded, S_paying), (S_paying, S_stuck),
     (S_stuck, S_claiming), (S_claiming, S_claimed)] S_claimed"
    by (intro mpath_Cons mpath_nil) simp_all
  from p payout_committed_once [of S_quoted _ S_claimed R_quoted "[]" R_quoted O_quoted "[]" O_quoted]
  show ?thesis by blast
qed

text \<open>
  C25: a lifecycle ends. Leaving operator recovery aside, a swap takes at most five transitions
  (Lightning legs) or six (onchain send) from its quote to a terminal state, and a live state always
  has a legal failure edge, to \<open>stuck\<close> exactly when money is exposed.
\<close>

theorem lifecycles_end:
  "(mpath LnSendMachine S_quoted p1 t1 \<and> (\<forall>e. e \<in> set p1 \<longrightarrow> fst e \<noteq> S_stuck) \<longrightarrow> length p1 \<le> 5) \<and>
   (mpath LnReceiveMachine R_quoted p2 t2 \<and> (\<forall>e. e \<in> set p2 \<longrightarrow> fst e \<noteq> R_stuck) \<longrightarrow> length p2 \<le> 5) \<and>
   (mpath OnchainSendMachine O_quoted p3 t3 \<and> (\<forall>e. e \<in> set p3 \<longrightarrow> fst e \<noteq> O_stuck) \<longrightarrow> length p3 \<le> 6) \<and>
   (isLive LnSendMachine s1 \<longrightarrow>
      canTransition LnSendMachine s1 (if isExposed LnSendMachine s1 then S_stuck else S_refused)) \<and>
   (isLive LnReceiveMachine s2 \<longrightarrow>
      canTransition LnReceiveMachine s2 (if isExposed LnReceiveMachine s2 then R_stuck else R_refused)) \<and>
   (isLive OnchainSendMachine s3 \<longrightarrow>
      canTransition OnchainSendMachine s3 (if isExposed OnchainSendMachine s3 then O_stuck else O_refused))"
proof -
  have r: "lnSend_rank t1 \<le> 5" "lnReceive_rank t2 \<le> 5" "onchainSend_rank t3 \<le> 6"
      apply (cases t1; simp)
     apply (cases t2; simp)
    apply (cases t3; simp)
    done
  have "mpath LnSendMachine S_quoted p1 t1 \<and> (\<forall>e. e \<in> set p1 \<longrightarrow> fst e \<noteq> S_stuck) \<longrightarrow> length p1 \<le> 5"
    using ln_send.bounded_life [of S_quoted p1 t1] r(1) by fastforce
  moreover have
    "mpath LnReceiveMachine R_quoted p2 t2 \<and> (\<forall>e. e \<in> set p2 \<longrightarrow> fst e \<noteq> R_stuck) \<longrightarrow> length p2 \<le> 5"
    using ln_receive.bounded_life [of R_quoted p2 t2] r(2) by fastforce
  moreover have
    "mpath OnchainSendMachine O_quoted p3 t3 \<and> (\<forall>e. e \<in> set p3 \<longrightarrow> fst e \<noteq> O_stuck) \<longrightarrow> length p3 \<le> 6"
    using onchain_send.bounded_life [of O_quoted p3 t3] r(3) by fastforce
  ultimately show ?thesis
    using ln_send.fail_legal [of s1] ln_receive.fail_legal [of s2] onchain_send.fail_legal [of s3] by blast
qed

theorem lifecycles_end_witness:
  "mpath LnSendMachine S_quoted [(S_quoted, S_funded), (S_funded, S_refused)] S_refused \<and>
   length [(S_quoted, S_funded), (S_funded, S_refused)] \<le> 5"
proof -
  have "mpath LnSendMachine S_quoted [(S_quoted, S_funded), (S_funded, S_refused)] S_refused"
    by (intro mpath_Cons mpath_nil) simp_all
  with lifecycles_end [of "[(S_quoted, S_funded), (S_funded, S_refused)]" S_refused
      "[]" R_quoted "[]" O_quoted S_quoted R_quoted O_quoted]
  show ?thesis by auto
qed

end
