(* ===== verification/Effects.thy ===== *)
theory Effects
  imports Prelude
begin

text \<open>
  Asynchronous code over a shared database. A worker is a function of the world: the database, the
  position in the worker's schedule and the log of what was done so far by this worker and by the
  others. Every \<open>await\<close> is a point at which the process may die and at which other workers (another
  tick, the refund sweep, an operator command, another process) may act on the database: the
  schedule decides both. What the others may do is an alphabet of actions with their effect
  \<open>exec\<close>, which is undefined on a database where the action is not enabled; an action that is not
  enabled when its turn comes does nothing, so every schedule is a possible interleaving.
\<close>

section \<open>Worlds and schedules\<close>

text \<open>
  The errors the code tells apart: \<open>PaymentHashRegistered\<close> and \<open>PaymentNotStarted\<close> of
  \<^verbatim>\<open>ports/lightning.ts\<close>, \<open>UniqueConstraintError\<close>, \<open>FundNotSubmittedError\<close> of \<^verbatim>\<open>fundLockup.ts\<close>, \<open>GiveUp\<close> of \<^verbatim>\<open>util/poll.ts\<close>,
  \<open>UnknownLockupError\<close> of \<^verbatim>\<open>send/onchainOrchestrator.ts\<close>, \<open>EvmClaimVerificationError\<close> of \<^verbatim>\<open>ports/evm.ts\<close>,
  \<open>EvmPayoutFundingQuarantinedError\<close> of \<^verbatim>\<open>ports/evmPayoutFunding.ts\<close>, \<open>OfferNotSubmittedError\<close> of
  \<^verbatim>\<open>arkade/offerFulfill.ts\<close>, and everything else. \<open>Crash\<close> is the death of the
  process, which no handler catches.
\<close>

datatype exn = Crash | Thrown string | PaymentHashRegistered string | PaymentNotStarted string
  | UniqueConstraint string | FundNotSubmitted string | GiveUp string | UnknownLockup string
  | ClaimVerification string | FundingQuarantined string | OfferNotSubmitted string

fun message :: "exn \<Rightarrow> string" where
  "message Crash = []"
| "message (Thrown s) = s"
| "message (PaymentHashRegistered s) = s"
| "message (PaymentNotStarted s) = s"
| "message (UniqueConstraint s) = s"
| "message (FundNotSubmitted s) = s"
| "message (GiveUp s) = s"
| "message (UnknownLockup s) = s"
| "message (ClaimVerification s) = s"
| "message (FundingQuarantined s) = s"
| "message (OfferNotSubmitted s) = s"

datatype 'act logged = Own 'act | Rival 'act

record ('db, 'act) world =
  wDb :: 'db
  wPos :: nat
  wLog :: "'act logged list"

record ('db, 'act) schedule =
  scRival :: "nat \<Rightarrow> 'db \<Rightarrow> 'act list"
  scCrash :: "nat \<Rightarrow> bool"
  scClock :: "nat \<Rightarrow> int"

type_synonym ('db, 'act, 'a) worker = "('db, 'act) world \<Rightarrow> (exn + 'a) \<times> ('db, 'act) world"

section \<open>Combinators\<close>

definition ret :: "'a \<Rightarrow> ('db, 'act, 'a) worker" where
  "ret x = (\<lambda>w. (Inr x, w))"

definition throw :: "exn \<Rightarrow> ('db, 'act, 'a) worker" where
  "throw e = (\<lambda>w. (Inl e, w))"

definition bnd :: "('db, 'act, 'a) worker \<Rightarrow> ('a \<Rightarrow> ('db, 'act, 'b) worker) \<Rightarrow> ('db, 'act, 'b) worker" where
  "bnd m f = (\<lambda>w. case m w of (Inl e, w') \<Rightarrow> (Inl e, w') | (Inr x, w') \<Rightarrow> f x w')"

abbreviation thn :: "('db, 'act, 'a) worker \<Rightarrow> ('db, 'act, 'b) worker \<Rightarrow> ('db, 'act, 'b) worker" where
  "thn m k \<equiv> bnd m (\<lambda>_. k)"

text \<open>\<open>try { m } catch (e) { h }\<close>.\<close>

definition catch :: "('db, 'act, 'a) worker \<Rightarrow> (exn \<Rightarrow> ('db, 'act, 'a) worker) \<Rightarrow> ('db, 'act, 'a) worker" where
  "catch m h = (\<lambda>w. case m w of (Inl e, w') \<Rightarrow> if e = Crash then (Inl e, w') else h e w' | r \<Rightarrow> r)"

text \<open>The others' actions, each performed if it is enabled when its turn comes.\<close>

fun run_rivals :: "('act \<Rightarrow> 'db \<Rightarrow> 'db option) \<Rightarrow> 'act list \<Rightarrow> 'db \<Rightarrow> 'act list \<times> 'db" where
  "run_rivals exec [] db = ([], db)"
| "run_rivals exec (a # as) db = (case exec a db of
     None \<Rightarrow> run_rivals exec as db
   | Some db' \<Rightarrow> (let (done, db'') = run_rivals exec as db' in (a # done, db'')))"

text \<open>One await: the process may die, or the others act and this worker resumes.\<close>

definition await ::
    "('act \<Rightarrow> 'db \<Rightarrow> 'db option) \<Rightarrow> ('db, 'act) schedule \<Rightarrow> ('db, 'act, unit) worker" where
  "await exec sc = (\<lambda>w.
     if scCrash sc (wPos w) then (Inl Crash, w)
     else let (acts, db) = run_rivals exec (scRival sc (wPos w) (wDb w)) (wDb w) in
       (Inr (), w\<lparr>wDb := db, wLog := wLog w @ map Rival acts, wPos := Suc (wPos w)\<rparr>))"

definition now :: "('db, 'act) schedule \<Rightarrow> ('db, 'act, int) worker" where
  "now sc = (\<lambda>w. (Inr (scClock sc (wPos w)), w\<lparr>wPos := Suc (wPos w)\<rparr>))"

text \<open>An awaited call to the outside: what it answers depends on when it is asked.\<close>

definition ask ::
    "('act \<Rightarrow> 'db \<Rightarrow> 'db option) \<Rightarrow> ('db, 'act) schedule \<Rightarrow> (nat \<Rightarrow> exn + 'a) \<Rightarrow> ('db, 'act, 'a) worker" where
  "ask exec sc f = bnd (await exec sc) (\<lambda>_ w. (f (wPos w), w\<lparr>wPos := Suc (wPos w)\<rparr>))"

text \<open>An awaited call that has an effect on the world outside, logged whether or not it throws.\<close>

definition perform ::
    "('act \<Rightarrow> 'db \<Rightarrow> 'db option) \<Rightarrow> ('db, 'act) schedule \<Rightarrow> 'act \<Rightarrow> (nat \<Rightarrow> exn + 'a) \<Rightarrow> ('db, 'act, 'a) worker" where
  "perform exec sc a f = bnd (await exec sc)
     (\<lambda>_ w. (f (wPos w), w\<lparr>wLog := wLog w @ [Own a], wPos := Suc (wPos w)\<rparr>))"

text \<open>The same where the log entry tells how the call ended.\<close>

definition perform_as ::
    "('act \<Rightarrow> 'db \<Rightarrow> 'db option) \<Rightarrow> ('db, 'act) schedule \<Rightarrow> (exn + 'a \<Rightarrow> 'act) \<Rightarrow> (nat \<Rightarrow> exn + 'a) \<Rightarrow>
     ('db, 'act, 'a) worker" where
  "perform_as exec sc act f = bnd (await exec sc)
     (\<lambda>_ w. (f (wPos w), w\<lparr>wLog := wLog w @ [Own (act (f (wPos w)))], wPos := Suc (wPos w)\<rparr>))"

text \<open>An awaited database read, and an awaited write with its log entries.\<close>

definition read_db ::
    "('act \<Rightarrow> 'db \<Rightarrow> 'db option) \<Rightarrow> ('db, 'act) schedule \<Rightarrow> ('db \<Rightarrow> exn + 'a) \<Rightarrow> ('db, 'act, 'a) worker" where
  "read_db exec sc f = bnd (await exec sc) (\<lambda>_ w. (f (wDb w), w))"

definition write_db ::
    "('act \<Rightarrow> 'db \<Rightarrow> 'db option) \<Rightarrow> ('db, 'act) schedule \<Rightarrow> ('db \<Rightarrow> 'act list \<times> 'a \<times> 'db) \<Rightarrow> ('db, 'act, 'a) worker" where
  "write_db exec sc f = bnd (await exec sc) (\<lambda>_ w.
     let (acts, x, db) = f (wDb w) in (Inr x, w\<lparr>wDb := db, wLog := wLog w @ map Own acts\<rparr>))"

definition only_if :: "bool \<Rightarrow> ('db, 'act, unit) worker \<Rightarrow> ('db, 'act, unit) worker" where
  "only_if c m = (if c then m else ret ())"

text \<open>A synchronous call that may throw.\<close>

definition from_result :: "exn + 'a \<Rightarrow> ('db, 'act, 'a) worker" where
  "from_result r = (case r of Inl e \<Rightarrow> throw e | Inr x \<Rightarrow> ret x)"

lemma bnd_ret [simp]: "bnd (ret x) f = f x"
  by (simp add: bnd_def ret_def)

lemma bnd_throw [simp]: "bnd (throw e) f = throw e"
  by (simp add: bnd_def throw_def)

section \<open>Specifications\<close>

text \<open>
  \<open>spec P m Q\<close>: from a world with \<open>P\<close> every way \<open>m\<close> can end satisfies \<open>Q\<close>, the crash included.
\<close>

definition spec ::
    "(('db, 'act) world \<Rightarrow> bool) \<Rightarrow> ('db, 'act, 'a) worker \<Rightarrow> (exn + 'a \<Rightarrow> ('db, 'act) world \<Rightarrow> bool) \<Rightarrow> bool" where
  "spec P m Q \<longleftrightarrow> (\<forall>w. P w \<longrightarrow> (case m w of (r, w') \<Rightarrow> Q r w'))"

text \<open>\<open>keeps I m\<close>: whatever happens, \<open>I\<close> still holds at the end.\<close>

abbreviation keeps :: "(('db, 'act) world \<Rightarrow> bool) \<Rightarrow> ('db, 'act, 'a) worker \<Rightarrow> bool" where
  "keeps I m \<equiv> spec I m (\<lambda>_. I)"

named_theorems keep

lemma spec_weaken:
  "spec P m Q \<Longrightarrow> (\<And>w. P' w \<Longrightarrow> P w) \<Longrightarrow> (\<And>r w. Q r w \<Longrightarrow> Q' r w) \<Longrightarrow> spec P' m Q'"
  unfolding spec_def by (metis (mono_tags, lifting) case_prod_beta)

lemma world_same [simp]: "w\<lparr>wDb := wDb w\<rparr> = w" "w\<lparr>wDb := wDb w, wLog := wLog w\<rparr> = w"
  by simp_all

lemma spec_bnd:
  assumes "spec P m R" and "\<And>e w. R (Inl e) w \<Longrightarrow> Q (Inl e) w" and "\<And>x. spec (R (Inr x)) (f x) Q"
  shows "spec P (bnd m f) Q"
proof -
  have "case bnd m f w of (r, w') \<Rightarrow> Q r w'" if "P w" for w
  proof -
    obtain r w' where m: "m w = (r, w')" by fastforce
    then have "R r w'" using assms(1) that unfolding spec_def by fastforce
    then show ?thesis
      using assms(2) assms(3) m unfolding bnd_def spec_def by (cases r) auto
  qed
  then show ?thesis unfolding spec_def by blast
qed

lemma spec_conj: "spec P m Q \<Longrightarrow> spec P' m Q' \<Longrightarrow> spec (\<lambda>w. P w \<and> P' w) m (\<lambda>r w. Q r w \<and> Q' r w)"
  unfolding spec_def by (auto split: prod.splits)

text \<open>Continue with what a step taught.\<close>

lemma keeps_knowing:
  assumes "spec (I K) m (\<lambda>r w. I K w \<and> (\<forall>x. r = Inr x \<longrightarrow> L x (wDb w)))"
    and "\<And>x w. I (\<lambda>d. K d \<and> L x d) w \<longleftrightarrow> I K w \<and> L x (wDb w)"
    and "\<And>x. keeps (I (\<lambda>d. K d \<and> L x d)) (f x)"
  shows "keeps (I K) (bnd m f)"
proof (rule spec_bnd [OF assms(1)])
  fix x
  show "spec (\<lambda>w. I K w \<and> (\<forall>y. Inr x = Inr y \<longrightarrow> L y (wDb w))) (f x) (\<lambda>_. I K)"
    by (rule spec_weaken [OF assms(3) [of x]]) (simp_all add: assms(2))
qed simp

lemma keeps_ret [keep]: "keeps I (ret x)"
  by (simp add: spec_def ret_def)

lemma keeps_throw [keep]: "keeps I (throw e)"
  by (simp add: spec_def throw_def)

lemma keeps_bnd [keep]: "keeps I m \<Longrightarrow> (\<And>x. keeps I (f x)) \<Longrightarrow> keeps I (bnd m f)"
  by (rule spec_bnd)

lemma keeps_catch [keep]:
  assumes "keeps I m" and "\<And>e. keeps I (h e)"
  shows "keeps I (catch m h)"
proof -
  have "case catch m h w of (r, w') \<Rightarrow> I w'" if "I w" for w
  proof -
    obtain r w' where m: "m w = (r, w')" by fastforce
    then have "I w'" using assms(1) that unfolding spec_def by fastforce
    then show ?thesis using assms(2) m unfolding catch_def spec_def by (cases r) auto
  qed
  then show ?thesis unfolding spec_def by blast
qed

lemma spec_catch:
  assumes "spec P m R" and "\<And>x w. R (Inr x) w \<Longrightarrow> Q (Inr x) w" and "\<And>w. R (Inl Crash) w \<Longrightarrow> Q (Inl Crash) w"
    and "\<And>e. e \<noteq> Crash \<Longrightarrow> spec (R (Inl e)) (h e) Q"
  shows "spec P (catch m h) Q"
proof -
  have "case catch m h w of (r, w') \<Rightarrow> Q r w'" if "P w" for w
  proof -
    obtain r w' where m: "m w = (r, w')" by fastforce
    then have "R r w'" using assms(1) that unfolding spec_def by fastforce
    then show ?thesis
      using assms(2-4) m unfolding catch_def spec_def by (cases r) auto
  qed
  then show ?thesis unfolding spec_def by blast
qed

lemma keeps_if [keep]: "(c \<Longrightarrow> keeps I m) \<Longrightarrow> (\<not> c \<Longrightarrow> keeps I k) \<Longrightarrow> keeps I (if c then m else k)"
  by simp

lemma keeps_when [keep]: "(c \<Longrightarrow> keeps I m) \<Longrightarrow> keeps I (only_if c m)"
  by (simp add: only_if_def keeps_ret)

lemma keeps_case_option [keep]:
  "(v = None \<Longrightarrow> keeps I m) \<Longrightarrow> (\<And>x. v = Some x \<Longrightarrow> keeps I (f x)) \<Longrightarrow>
     keeps I (case v of None \<Rightarrow> m | Some x \<Rightarrow> f x)"
  by (cases v) auto

lemma keeps_case_prod [keep]: "(\<And>a b. x = (a, b) \<Longrightarrow> keeps I (f a b)) \<Longrightarrow> keeps I (case x of (a, b) \<Rightarrow> f a b)"
  by (cases x) simp

lemma keeps_case_exn [keep]:
  "(e = Crash \<Longrightarrow> keeps I a) \<Longrightarrow> (\<And>m. e = Thrown m \<Longrightarrow> keeps I (b m)) \<Longrightarrow>
   (\<And>m. e = PaymentHashRegistered m \<Longrightarrow> keeps I (c m)) \<Longrightarrow> (\<And>m. e = PaymentNotStarted m \<Longrightarrow> keeps I (f m)) \<Longrightarrow>
   (\<And>m. e = UniqueConstraint m \<Longrightarrow> keeps I (g m)) \<Longrightarrow> (\<And>m. e = FundNotSubmitted m \<Longrightarrow> keeps I (h m)) \<Longrightarrow>
   (\<And>m. e = GiveUp m \<Longrightarrow> keeps I (j m)) \<Longrightarrow> (\<And>m. e = UnknownLockup m \<Longrightarrow> keeps I (k m)) \<Longrightarrow>
   (\<And>m. e = ClaimVerification m \<Longrightarrow> keeps I (l m)) \<Longrightarrow> (\<And>m. e = FundingQuarantined m \<Longrightarrow> keeps I (n m)) \<Longrightarrow>
   (\<And>m. e = OfferNotSubmitted m \<Longrightarrow> keeps I (q m)) \<Longrightarrow>
     keeps I (case e of Crash \<Rightarrow> a | Thrown m \<Rightarrow> b m | PaymentHashRegistered m \<Rightarrow> c m
       | PaymentNotStarted m \<Rightarrow> f m | UniqueConstraint m \<Rightarrow> g m | FundNotSubmitted m \<Rightarrow> h m | GiveUp m \<Rightarrow> j m
       | UnknownLockup m \<Rightarrow> k m | ClaimVerification m \<Rightarrow> l m | FundingQuarantined m \<Rightarrow> n m
       | OfferNotSubmitted m \<Rightarrow> q m)"
  by (cases e) auto

lemma keeps_case_sum [keep]:
  "(\<And>e. v = Inl e \<Longrightarrow> keeps I (f e)) \<Longrightarrow> (\<And>x. v = Inr x \<Longrightarrow> keeps I (g x)) \<Longrightarrow>
     keeps I (case v of Inl e \<Rightarrow> f e | Inr x \<Rightarrow> g x)"
  by (cases v) auto

lemma keeps_from_result: "keeps I (from_result r)"
  by (cases r) (simp_all add: from_result_def keeps_throw keeps_ret)

lemma keeps_Let [keep]: "(\<And>x. x = v \<Longrightarrow> keeps I (f x)) \<Longrightarrow> keeps I (Let v f)"
  by (simp add: Let_def)

section \<open>Results\<close>

text \<open>\<open>yields I m G\<close>: \<open>I\<close> is kept, and a value that is returned satisfies \<open>G\<close>.\<close>

abbreviation yields :: "(('db, 'act) world \<Rightarrow> bool) \<Rightarrow> ('db, 'act, 'a) worker \<Rightarrow> ('a \<Rightarrow> bool) \<Rightarrow> bool" where
  "yields I m G \<equiv> spec I m (\<lambda>r w. I w \<and> (\<forall>x. r = Inr x \<longrightarrow> G x))"

lemma yields_keeps: "yields I m G \<Longrightarrow> keeps I m"
  by (erule spec_weaken) auto

lemma keeps_yields: "keeps I m \<Longrightarrow> yields I m (\<lambda>_. True)"
  by (erule spec_weaken) auto

lemma yields_ret: "G x \<Longrightarrow> yields I (ret x) G"
  by (simp add: spec_def ret_def)

lemma yields_throw: "yields I (throw e) G"
  by (simp add: spec_def throw_def)

lemma yields_bnd: "yields I m H \<Longrightarrow> (\<And>x. H x \<Longrightarrow> yields I (f x) G) \<Longrightarrow> yields I (bnd m f) G"
proof (rule spec_bnd, assumption)
  fix x
  assume "\<And>x. H x \<Longrightarrow> yields I (f x) G"
  then show "spec (\<lambda>w. I w \<and> (\<forall>y. Inr x = Inr y \<longrightarrow> H y)) (f x) (\<lambda>r w. I w \<and> (\<forall>x. r = Inr x \<longrightarrow> G x))"
    by (cases "H x") (auto simp: spec_def)
qed auto

lemma keeps_given:
  assumes "yields I m H" and "\<And>x. H x \<Longrightarrow> keeps I (f x)"
  shows "keeps I (bnd m f)"
  by (rule yields_keeps [OF yields_bnd [OF assms(1)]]) (rule keeps_yields [OF assms(2)])

lemma yields_catch:
  assumes "yields I m G" and "\<And>e. yields I (h e) G"
  shows "yields I (catch m h) G"
  by (rule spec_catch [OF assms(1)]) (auto intro: spec_weaken [OF assms(2)])

lemma yields_option:
  "(v = None \<Longrightarrow> yields I m G) \<Longrightarrow> (\<And>x. v = Some x \<Longrightarrow> yields I (f x) G) \<Longrightarrow>
     yields I (case v of None \<Rightarrow> m | Some x \<Rightarrow> f x) G"
  by (cases v) auto

section \<open>Invariants under interference\<close>

text \<open>
  The contract of an invariant that the schedule and the worker's own bookkeeping cannot break: it
  does not look at the position and it survives whatever the others do at an await.
\<close>

locale interference =
  fixes exec :: "'act \<Rightarrow> 'db \<Rightarrow> 'db option" and I :: "('db, 'act) world \<Rightarrow> bool"
  assumes pos_irrelevant: "I w \<Longrightarrow> I (w\<lparr>wPos := n\<rparr>)"
    and rival_keeps: "I w \<Longrightarrow> exec a (wDb w) = Some db \<Longrightarrow>
      I (w\<lparr>wDb := db, wLog := wLog w @ [Rival a]\<rparr>)"
begin

lemma rivals_keep:
  "I w \<Longrightarrow> run_rivals exec as (wDb w) = (acts, db) \<Longrightarrow>
     I (w\<lparr>wDb := db, wLog := wLog w @ map Rival acts\<rparr>)"
proof (induction as arbitrary: w acts)
  case (Cons a as)
  show ?case
  proof (cases "exec a (wDb w)")
    case (Some db')
    let ?w = "w\<lparr>wDb := db', wLog := wLog w @ [Rival a]\<rparr>"
    obtain acts' where "run_rivals exec as db' = (acts', db)" "acts = a # acts'"
      using Cons.prems(2) Some by (auto split: prod.splits)
    with Cons.IH [of ?w acts'] rival_keeps [OF Cons.prems(1) Some] show ?thesis by simp
  qed (use Cons in simp)
qed auto

lemma keeps_await: "keeps I (await exec sc)"
proof -
  have "I (w\<lparr>wDb := db, wLog := wLog w @ map Rival acts, wPos := n\<rparr>)"
    if "I w" "run_rivals exec as (wDb w) = (acts, db)" for w db n acts as
    using pos_irrelevant [OF rivals_keep [OF that], of n] by simp
  then show ?thesis by (auto simp: spec_def await_def split: prod.splits)
qed

lemma keeps_now: "keeps I (now sc)"
  by (auto simp: spec_def now_def intro: pos_irrelevant)

lemma keeps_ask: "keeps I (ask exec sc f)"
  unfolding ask_def by (rule keeps_bnd [OF keeps_await]) (auto simp: spec_def intro: pos_irrelevant)

lemma yields_ask: "(\<And>n x. f n = Inr x \<Longrightarrow> G x) \<Longrightarrow> yields I (ask exec sc f) G"
  unfolding ask_def by (rule yields_bnd [OF keeps_yields [OF keeps_await]]) (auto simp: spec_def intro: pos_irrelevant)

lemma keeps_read: "keeps I (read_db exec sc f)"
  unfolding read_db_def by (rule keeps_bnd [OF keeps_await]) (auto simp: spec_def)

text \<open>What a read returns may be assumed of the database it was read from.\<close>

lemma spec_read:
  assumes "\<And>w x. I w \<Longrightarrow> f (wDb w) = Inr x \<Longrightarrow> K x w"
  shows "spec I (read_db exec sc f) (\<lambda>r w. I w \<and> (\<forall>x. r = Inr x \<longrightarrow> K x w))"
  unfolding read_db_def
  by (rule spec_bnd [OF keeps_await]) (use assms in \<open>auto simp: spec_def\<close>)

lemma keeps_write:
  assumes "\<And>w acts x db. I w \<Longrightarrow> f (wDb w) = (acts, x, db) \<Longrightarrow>
    I (w\<lparr>wDb := db, wLog := wLog w @ map Own acts\<rparr>)"
  shows "keeps I (write_db exec sc f)"
  unfolding write_db_def
  by (rule keeps_bnd [OF keeps_await]) (use assms in \<open>auto simp: spec_def split: prod.splits\<close>)

lemma keeps_perform:
  assumes "\<And>w. I w \<Longrightarrow> I (w\<lparr>wLog := wLog w @ [Own a]\<rparr>)"
  shows "keeps I (perform exec sc a f)"
  unfolding perform_def
proof (rule keeps_bnd [OF keeps_await])
  fix x :: unit
  have "I (w\<lparr>wLog := wLog w @ [Own a], wPos := n\<rparr>)" if "I w" for w n
    using pos_irrelevant [OF assms [OF that], of n] by simp
  then show "keeps I (\<lambda>w. (f (wPos w), w\<lparr>wLog := wLog w @ [Own a], wPos := Suc (wPos w)\<rparr>))"
    by (simp add: spec_def)
qed

lemma await_only_crashes: "spec I (await exec sc) (\<lambda>r w. I w \<and> (\<forall>e. r = Inl e \<longrightarrow> e = Crash))"
proof -
  have "spec (\<lambda>_. True) (await exec sc) (\<lambda>r _. \<forall>e. r = Inl e \<longrightarrow> e = Crash)"
    by (simp add: spec_def await_def Let_def split: prod.split)
  from spec_conj [OF keeps_await this] show ?thesis by (rule spec_weaken) auto
qed

lemma spec_perform_as:
  assumes "\<And>w r n. I w \<Longrightarrow> Q r (w\<lparr>wLog := wLog w @ [Own (act r)], wPos := n\<rparr>)" and "\<And>w. I w \<Longrightarrow> Q (Inl Crash) w"
  shows "spec I (perform_as exec sc act f) Q"
  unfolding perform_as_def
  by (rule spec_bnd [OF await_only_crashes]) (use assms in \<open>auto simp: spec_def\<close>)

end

lemma interference_conj:
  "interference exec I \<Longrightarrow> interference exec J \<Longrightarrow> interference exec (\<lambda>w. I w \<and> J w)"
  unfolding interference_def by blast

text \<open>What one of a worker's clocks can read.\<close>

lemma spec_now:
  assumes "\<And>w n. I w \<Longrightarrow> I (w\<lparr>wPos := n\<rparr>)"
  shows "spec I (now sc) (\<lambda>r w. I w \<and> (\<exists>n. r = Inr (scClock sc n)))"
  using assms by (auto simp: spec_def now_def)

section \<open>A worker's own acts\<close>

text \<open>What a worker did itself is in its log and no other worker can add to it.\<close>

fun own_acts :: "'act logged list \<Rightarrow> 'act list" where
  "own_acts [] = []"
| "own_acts (Own a # ls) = a # own_acts ls"
| "own_acts (Rival _ # ls) = own_acts ls"

lemma own_acts_append [simp]: "own_acts (ls @ ks) = own_acts ls @ own_acts ks"
  by (induction ls rule: own_acts.induct) auto

lemma own_acts_Own [simp]: "own_acts (map Own as) = as"
  by (induction as) auto

definition did :: "('act list \<Rightarrow> bool) \<Rightarrow> ('db, 'act) world \<Rightarrow> bool" where
  "did P w \<longleftrightarrow> P (own_acts (wLog w))"

interpretation own_log: interference exec "did P" for exec P
  by unfold_locales (auto simp: did_def)

lemma keeps_did_write:
  assumes "\<And>d acts x d' as. f d = (acts, x, d') \<Longrightarrow> P as \<Longrightarrow> P (as @ acts)"
  shows "keeps (did P) (write_db exec sc f)"
  by (rule own_log.keeps_write) (auto simp: did_def dest: assms)

lemma keeps_did_perform: "(\<And>as. P as \<Longrightarrow> P (as @ [a])) \<Longrightarrow> keeps (did P) (perform exec sc a f)"
  by (rule own_log.keeps_perform) (auto simp: did_def)

text \<open>The acts of one worker in a log that names who did what.\<close>

definition acts_by :: "'w \<Rightarrow> ('w \<times> 'act) list \<Rightarrow> 'act list" where
  "acts_by w trace = map snd (filter (\<lambda>x. fst x = w) trace)"

lemma acts_by_snoc: "acts_by w (trace @ [(v, a)]) = (if v = w then acts_by w trace @ [a] else acts_by w trace)"
  by (simp add: acts_by_def)

text \<open>What is counted act by act is the sum of what the workers contribute.\<close>

lemma sum_by_worker:
  fixes f :: "'act \<Rightarrow> nat"
  assumes "finite W" and "fst ` set trace \<subseteq> W"
  shows "sum_list (map f (map snd trace)) = (\<Sum>w \<in> W. sum_list (map f (acts_by w trace)))"
  using assms(2)
proof (induction trace)
  case (Cons x trace)
  obtain v a where x: "x = (v, a)" by (cases x)
  have "sum_list (map f (acts_by w (x # trace))) = (if v = w then f a else 0) + sum_list (map f (acts_by w trace))" for w
    by (simp add: acts_by_def x)
  then show ?case using Cons x assms(1) by (simp add: sum.distrib)
qed (simp add: acts_by_def)

lemma counts_by_worker:
  fixes f g :: "'act \<Rightarrow> nat"
  assumes "\<And>w. sum_list (map f (acts_by w trace)) \<le> sum_list (map g (acts_by w trace))"
  shows "sum_list (map f (map snd trace)) \<le> sum_list (map g (map snd trace))"
  unfolding sum_by_worker [OF finite_imageI [OF finite_set] subset_refl] by (rule sum_mono) (rule assms)

end
