(* ===== verification/Swap_Store.thy ===== *)
theory Swap_Store
  imports Machines Effects
begin

text \<open>
  \<^verbatim>\<open>solver-corridors/src/db/baseSwapStore.ts\<close>: the table and event log every corridor keeps, generic in
  the lifecycle states and the columns. A row is the primary key, the state, the two timestamps and
  the remaining columns as SQLite values; a statement is a function of the database; a method is a
  worker that awaits once per statement. The theory also gives the same writes as actions with an
  enabling condition (\<open>exec_store\<close>), which is what concurrent workers are allowed to do and what a
  worker's own log is checked against.
\<close>

section \<open>Tables\<close>

text \<open>
  A TEXT column that holds \<open>JSON.stringify(v)\<close> is represented by \<open>v\<close>: \<open>SOutpoints\<close> for the lockup
  outputs adopted at funding, \<open>SSteps\<close> for the last step of each L1 claim by outpoint.
\<close>

datatype unrolled_step = U_waiting | U_spent | U_closed string | U_pending string | U_confirmed string

datatype sqlval = SNull | SInt int | SReal real | SText string
  | SOutpoints "(string \<times> int \<times> int) list" | SSteps "((string \<times> int) \<times> unrolled_step) list"

fun textOf :: "sqlval \<Rightarrow> string option" where
  "textOf (SText s) = Some s"
| "textOf _ = None"

lemma textOf_Some: "textOf v = Some s \<longleftrightarrow> v = SText s"
  by (cases v) auto

fun numberOrNull :: "sqlval \<Rightarrow> int option" where
  "numberOrNull (SInt i) = Some i"
| "numberOrNull _ = None"

fun realOrNull :: "sqlval \<Rightarrow> real option" where
  "realOrNull (SReal x) = Some x"
| "realOrNull (SInt i) = Some (of_int i)"
| "realOrNull _ = None"

fun sql_steps :: "sqlval \<Rightarrow> ((string \<times> int) \<times> unrolled_step) list option" where
  "sql_steps (SSteps xs) = Some xs"
| "sql_steps _ = None"

fun sql_outpoints :: "sqlval \<Rightarrow> (string \<times> int \<times> int) list option" where
  "sql_outpoints (SOutpoints xs) = Some xs"
| "sql_outpoints _ = None"

text \<open>\<open>String(value).split(' ').filter(Boolean)\<close>.\<close>

fun split_spaces :: "string \<Rightarrow> string list" where
  "split_spaces [] = [[]]"
| "split_spaces (c # cs) = (if c = CHR '' '' then [] # split_spaces cs
     else case split_spaces cs of [] \<Rightarrow> [[c]] | w # ws \<Rightarrow> (c # w) # ws)"

fun txidList :: "sqlval \<Rightarrow> string list" where
  "txidList (SText s) = filter (\<lambda>w. w \<noteq> []) (split_spaces s)"
| "txidList _ = []"

fun sql_text :: "sqlval \<Rightarrow> string" where
  "sql_text (SText s) = s"
| "sql_text _ = ''null''"

fun opt_text :: "string option \<Rightarrow> sqlval" where
  "opt_text (Some s) = SText s"
| "opt_text None = SNull"

fun opt_int :: "int option \<Rightarrow> sqlval" where
  "opt_int (Some i) = SInt i"
| "opt_int None = SNull"

record ('s, 'c) raw =
  rwId :: string
  rwState :: 's
  rwCreated :: int
  rwUpdated :: int
  rwCols :: "'c \<Rightarrow> sqlval"

record 's swap_event =
  evSwap :: string
  evAt :: int
  evFrom :: "'s option"
  evTo :: 's
  evDetail :: "string option"

record ('s, 'c) db =
  dbRows :: "('s, 'c) raw list"
  dbEvents :: "'s swap_event list"

text \<open>
  \<open>StoreShape\<close>: what differs per store. \<open>shStuck\<close>, \<open>shRefused\<close> and \<open>shStart\<close> name the states the
  source writes as string literals; the column fields name the columns the shared statements use.
  \<open>shOnce\<close> is the column a store fills by a statement of its own, once and in one state.
\<close>

record ('s, 'c) StoreShape =
  shNoun :: string
  shLabel :: string
  shEdges :: "'s \<Rightarrow> 's list"
  shTransitionColumns :: "'c list"
  shPatchColumns :: "'c list"
  shLive :: "'s list"
  shExposed :: "'s list"
  shStart :: 's
  shStuck :: 's
  shRefused :: 's
  shPaymentHash :: 'c
  shRfqId :: 'c
  shPkScript :: 'c
  shAmount :: 'c
  shFailure :: 'c
  shLease :: "'c option"
  shOnce :: "'c option"

text \<open>A column written with \<open>join(' ')\<close> reads back as the list it was joined from.\<close>

lemma split_spaces_word: "CHR '' '' \<notin> set w \<Longrightarrow> split_spaces w = [w]"
  by (induction w) auto

lemma split_spaces_append: "CHR '' '' \<notin> set w \<Longrightarrow> split_spaces (w @ CHR '' '' # s) = w # split_spaces s"
  by (induction w) auto

lemma txidList_joined:
  assumes "\<forall>w \<in> set ws. w \<noteq> [] \<and> CHR '' '' \<notin> set w"
  shows "txidList (SText (join_with '' '' ws)) = ws"
  using assms
  by (induction "'' ''" ws rule: join_with.induct) (auto simp: split_spaces_word split_spaces_append)

section \<open>Reads\<close>

definition row_of :: "('s, 'c) db \<Rightarrow> string \<Rightarrow> ('s, 'c) raw option" where
  "row_of d i = find (\<lambda>r. rwId r = i) (dbRows d)"

text \<open>\<open>ORDER BY created_at\<close> and its descending twin; equal keys stay in rowid order.\<close>

definition by_created :: "('s, 'c) raw list \<Rightarrow> ('s, 'c) raw list" where
  "by_created rs = sort_key rwCreated rs"

definition newest_first :: "('s, 'c) raw list \<Rightarrow> ('s, 'c) raw list" where
  "newest_first rs = sort_key (\<lambda>r. - rwCreated r) rs"

definition first_of :: "'a list \<Rightarrow> 'a option" where
  "first_of xs = (case xs of [] \<Rightarrow> None | x # _ \<Rightarrow> Some x)"

definition findBy :: "'c \<Rightarrow> string \<Rightarrow> ('s, 'c) db \<Rightarrow> ('s, 'c) raw option" where
  "findBy c v d = first_of (newest_first (filter (\<lambda>r. rwCols r c = SText v) (dbRows d)))"

definition findByRfqId :: "('s, 'c) StoreShape \<Rightarrow> string \<Rightarrow> ('s, 'c) db \<Rightarrow> ('s, 'c) raw option" where
  "findByRfqId sh v d = findBy (shRfqId sh) v d"

definition findByPkScript :: "('s, 'c) StoreShape \<Rightarrow> string \<Rightarrow> ('s, 'c) db \<Rightarrow> ('s, 'c) raw option" where
  "findByPkScript sh v d = findBy (shPkScript sh) v d"

definition findByPaymentHash :: "('s, 'c) StoreShape \<Rightarrow> string \<Rightarrow> ('s, 'c) db \<Rightarrow> ('s, 'c) raw option" where
  "findByPaymentHash sh v d = findBy (shPaymentHash sh) v d"

definition findLiveByPaymentHash :: "('s, 'c) StoreShape \<Rightarrow> string \<Rightarrow> ('s, 'c) db \<Rightarrow> ('s, 'c) raw option" where
  "findLiveByPaymentHash sh v d =
     find (\<lambda>r. rwCols r (shPaymentHash sh) = SText v \<and> rwState r \<noteq> shRefused sh) (dbRows d)"

fun sql_int :: "sqlval \<Rightarrow> int" where
  "sql_int (SInt i) = i"
| "sql_int _ = 0"

definition committedSats :: "('s, 'c) StoreShape \<Rightarrow> ('s, 'c) db \<Rightarrow> int" where
  "committedSats sh d =
     sum_list (map (\<lambda>r. sql_int (rwCols r (shAmount sh)))
       (filter (\<lambda>r. rwState r \<in> set (shLive sh)) (dbRows d)))"

definition countByStates :: "'s list \<Rightarrow> ('s, 'c) db \<Rightarrow> int" where
  "countByStates ss d = (if ss = [] then 0 else int (length (filter (\<lambda>r. rwState r \<in> set ss) (dbRows d))))"

record FindByStatesOptions =
  fbNewestFirst :: bool
  fbLimit :: "int option"

definition findByStates :: "'s list \<Rightarrow> FindByStatesOptions \<Rightarrow> ('s, 'c) db \<Rightarrow> ('s, 'c) raw list" where
  "findByStates ss opts d =
     (if ss = [] then []
      else let rs = filter (\<lambda>r. rwState r \<in> set ss) (dbRows d);
               ordered = (if fbNewestFirst opts then sort_key (\<lambda>r. - rwUpdated r) rs else by_created rs) in
           case fbLimit opts of None \<Rightarrow> ordered | Some n \<Rightarrow> take (nat (max 0 n)) ordered)"

definition findRecoverable :: "('s, 'c) StoreShape \<Rightarrow> ('s, 'c) db \<Rightarrow> ('s, 'c) raw list" where
  "findRecoverable sh d = findByStates (shLive sh) \<lparr>fbNewestFirst = False, fbLimit = None\<rparr> d"

text \<open>The P\&L window; \<open>limit\<close> is the clamped cap and one row more tells whether it overflowed.\<close>

definition ledgerRows :: "int \<Rightarrow> int \<Rightarrow> nat \<Rightarrow> ('s, 'c) db \<Rightarrow> ('s, 'c) raw list \<times> bool" where
  "ledgerRows since until limit d =
     (let found = take (limit + 1)
            (sort_key (\<lambda>r. - rwUpdated r) (filter (\<lambda>r. since \<le> rwUpdated r \<and> rwUpdated r < until) (dbRows d)))
      in (take limit found, limit < length found))"

definition history :: "string \<Rightarrow> ('s, 'c) db \<Rightarrow> (int \<times> 's option \<times> 's \<times> string option) list" where
  "history i d = map (\<lambda>e. (evAt e, evFrom e, evTo e, evDetail e)) (filter (\<lambda>e. evSwap e = i) (dbEvents d))"

section \<open>Writes\<close>

type_synonym 'c fields = "('c \<times> sqlval) list"

definition set_fields :: "'c fields \<Rightarrow> ('s, 'c) raw \<Rightarrow> ('s, 'c) raw" where
  "set_fields fs r = r\<lparr>rwCols := (\<lambda>c. case map_of fs c of Some v \<Rightarrow> v | None \<Rightarrow> rwCols r c)\<rparr>"

text \<open>\<open>UPDATE ... WHERE\<close>: the changed rows are counted.\<close>

definition update_rows ::
    "(('s, 'c) raw \<Rightarrow> bool) \<Rightarrow> (('s, 'c) raw \<Rightarrow> ('s, 'c) raw) \<Rightarrow> ('s, 'c) db \<Rightarrow> nat \<times> ('s, 'c) db" where
  "update_rows p f d =
     (length (filter p (dbRows d)), d\<lparr>dbRows := map (\<lambda>r. if p r then f r else r) (dbRows d)\<rparr>)"

text \<open>The compare-and-swap; \<open>guard\<close> is the extra SQL condition of \<open>transitionWhere\<close>.\<close>

definition cas ::
    "string \<Rightarrow> 's \<Rightarrow> 's \<Rightarrow> 'c fields \<Rightarrow> (('s, 'c) raw \<Rightarrow> bool) \<Rightarrow> int \<Rightarrow> ('s, 'c) db \<Rightarrow> nat \<times> ('s, 'c) db" where
  "cas i s t fs guard tm = update_rows (\<lambda>r. rwId r = i \<and> rwState r = s \<and> guard r)
     (\<lambda>r. (set_fields fs r)\<lparr>rwState := t, rwUpdated := tm\<rparr>)"

definition patch_row :: "string \<Rightarrow> 'c fields \<Rightarrow> int \<Rightarrow> ('s, 'c) db \<Rightarrow> nat \<times> ('s, 'c) db" where
  "patch_row i fs tm = update_rows (\<lambda>r. rwId r = i) (\<lambda>r. (set_fields fs r)\<lparr>rwUpdated := tm\<rparr>)"

definition lease_row ::
    "('s, 'c) StoreShape \<Rightarrow> string \<Rightarrow> 's \<Rightarrow> int option \<Rightarrow> int \<Rightarrow> int \<Rightarrow> ('s, 'c) db \<Rightarrow> nat \<times> ('s, 'c) db" where
  "lease_row sh i s staleBefore tm1 tm2 d =
     (case shLease sh of
        None \<Rightarrow> (0, d)
      | Some c \<Rightarrow> update_rows
          (\<lambda>r. rwId r = i \<and> rwState r = s \<and>
             (case rwCols r c of
                SNull \<Rightarrow> True
              | SInt v \<Rightarrow> v \<le> (case staleBefore of Some b \<Rightarrow> b | None \<Rightarrow> -1)
              | _ \<Rightarrow> False))
          (\<lambda>r. (set_fields [(c, SInt tm1)] r)\<lparr>rwUpdated := tm2\<rparr>) d)"

definition release_row :: "('s, 'c) StoreShape \<Rightarrow> string \<Rightarrow> ('s, 'c) db \<Rightarrow> nat \<times> ('s, 'c) db" where
  "release_row sh i d =
     (case shLease sh of
        None \<Rightarrow> (0, d)
      | Some c \<Rightarrow> update_rows (\<lambda>r. rwId r = i) (set_fields [(c, SNull)]) d)"

definition once_row ::
    "('s, 'c) StoreShape \<Rightarrow> string \<Rightarrow> 's \<Rightarrow> sqlval \<Rightarrow> int \<Rightarrow> ('s, 'c) db \<Rightarrow> nat \<times> ('s, 'c) db" where
  "once_row sh i s v tm d =
     (case shOnce sh of
        None \<Rightarrow> (0, d)
      | Some c \<Rightarrow> update_rows (\<lambda>r. rwId r = i \<and> rwState r = s \<and> rwCols r c = SNull)
          (\<lambda>r. (set_fields [(c, v)] r)\<lparr>rwUpdated := tm\<rparr>) d)"

definition add_event :: "'s swap_event \<Rightarrow> ('s, 'c) db \<Rightarrow> ('s, 'c) db" where
  "add_event e d = d\<lparr>dbEvents := dbEvents d @ [e]\<rparr>"

section \<open>Actions\<close>

datatype ('s, 'c) store_act =
    Insert "('s, 'c) raw"
  | Cas string 's 's "'c fields" int
  | Patch string "'c fields" int
  | Lease string 's "int option" int int
  | Release string
  | Once string 's sqlval int
  | Note "'s swap_event"

text \<open>
  Which writes a store ever performs: an insert of a fresh id in the start state, a compare-and-swap
  along a legal edge that sets transition columns and wins on exactly one row, a patch of patch
  columns, the funding lease, the first value of a write-once column, an appended event. \<open>ok\<close> adds what a corridor promises on top.
\<close>

fun exec_store ::
    "('s, 'c) StoreShape \<Rightarrow> (('s, 'c) store_act \<Rightarrow> ('s, 'c) db \<Rightarrow> bool) \<Rightarrow> ('s, 'c) store_act \<Rightarrow>
     ('s, 'c) db \<Rightarrow> ('s, 'c) db option" where
  "exec_store sh ok (Insert r) d =
     (if rwId r \<notin> rwId ` set (dbRows d) \<and> rwState r = shStart sh \<and> ok (Insert r) d
      then Some (d\<lparr>dbRows := dbRows d @ [r]\<rparr>) else None)"
| "exec_store sh ok (Cas i s t fs tm) d =
     (if t \<in> set (shEdges sh s) \<and> fst ` set fs \<subseteq> set (shTransitionColumns sh) \<and>
         fst (cas i s t fs (\<lambda>_. True) tm d) = 1 \<and> ok (Cas i s t fs tm) d
      then Some (snd (cas i s t fs (\<lambda>_. True) tm d)) else None)"
| "exec_store sh ok (Patch i fs tm) d =
     (if fst ` set fs \<subseteq> set (shPatchColumns sh) \<and> ok (Patch i fs tm) d
      then Some (snd (patch_row i fs tm d)) else None)"
| "exec_store sh ok (Lease i s stale tm1 tm2) d =
     (if fst (lease_row sh i s stale tm1 tm2 d) = 1 \<and> ok (Lease i s stale tm1 tm2) d
      then Some (snd (lease_row sh i s stale tm1 tm2 d)) else None)"
| "exec_store sh ok (Release i) d =
     (if ok (Release i) d then Some (snd (release_row sh i d)) else None)"
| "exec_store sh ok (Once i s v tm) d =
     (if fst (once_row sh i s v tm d) = 1 \<and> ok (Once i s v tm) d
      then Some (snd (once_row sh i s v tm d)) else None)"
| "exec_store sh ok (Note e) d = (if ok (Note e) d then Some (add_event e d) else None)"

text \<open>A whole log of actions, each enabled when it ran.\<close>

fun run_all :: "('a \<Rightarrow> 'd \<Rightarrow> 'd option) \<Rightarrow> 'a list \<Rightarrow> 'd \<Rightarrow> 'd option" where
  "run_all exec [] d = Some d"
| "run_all exec (a # as) d = (case exec a d of None \<Rightarrow> None | Some d' \<Rightarrow> run_all exec as d')"

lemma run_all_append [simp]:
  "run_all exec (as @ bs) d = (case run_all exec as d of None \<Rightarrow> None | Some d' \<Rightarrow> run_all exec bs d')"
  by (induction as arbitrary: d) (auto split: option.splits)

lemma run_all_keeps:
  assumes "run_all exec as d = Some d'" and "J d" and "\<And>a d d'. J d \<Longrightarrow> exec a d = Some d' \<Longrightarrow> J d'"
  shows "J d'"
  using assms(1,2) by (induction as arbitrary: d) (auto split: option.splits intro: assms(3))

section \<open>Methods\<close>

text \<open>
  A store as a worker uses it: the shape, the schedule it runs under, the alphabet of the corridor
  and how a store action is written in it.
\<close>

record ('s, 'c, 'act) store =
  soShape :: "('s, 'c) StoreShape"
  soExec :: "'act \<Rightarrow> ('s, 'c) db \<Rightarrow> ('s, 'c) db option"
  soAct :: "('s, 'c) store_act \<Rightarrow> 'act"
  soSchedule :: "(('s, 'c) db, 'act) schedule"

type_synonym ('s, 'c, 'act, 'a) job = "(('s, 'c) db, 'act, 'a) worker"

definition getRow :: "('s, 'c, 'act) store \<Rightarrow> string \<Rightarrow> ('s, 'c, 'act, ('s, 'c) raw) job" where
  "getRow st i = read_db (soExec st) (soSchedule st) (\<lambda>d.
     case row_of d i of
       None \<Rightarrow> Inl (Thrown (shNoun (soShape st) @ '' '' @ i @ '' not found''))
     | Some r \<Rightarrow> Inr r)"

text \<open>The statement of a write, logged when it changed a row.\<close>

definition logged_write ::
    "('s, 'c, 'act) store \<Rightarrow> ('s, 'c) store_act \<Rightarrow> (('s, 'c) db \<Rightarrow> nat \<times> ('s, 'c) db) \<Rightarrow> ('s, 'c, 'act, nat) job" where
  "logged_write st a f = write_db (soExec st) (soSchedule st) (\<lambda>d.
     let (n, d') = f d in (if n = 0 then [] else [soAct st a], n, d'))"

text \<open>The same for a statement that is an action of the corridor's own.\<close>

definition logged_act ::
    "('act \<Rightarrow> 'd \<Rightarrow> 'd option) \<Rightarrow> ('d, 'act) schedule \<Rightarrow> 'act \<Rightarrow> ('d \<Rightarrow> nat \<times> 'd) \<Rightarrow> ('d, 'act, nat) worker" where
  "logged_act exec sc a f = write_db exec sc (\<lambda>d. let (n, d') = f d in (if n = 0 then [] else [a], n, d'))"

lemma logged_write_act: "logged_write st a f = logged_act (soExec st) (soSchedule st) (soAct st a) f"
  by (simp add: logged_write_def logged_act_def)

definition recordEvent ::
    "('s, 'c, 'act) store \<Rightarrow> string \<Rightarrow> 's option \<Rightarrow> 's \<Rightarrow> string option \<Rightarrow> ('s, 'c, 'act, unit) job" where
  "recordEvent st i s t detail =
     bnd (now (soSchedule st)) (\<lambda>tm.
     let e = \<lparr>evSwap = i, evAt = tm, evFrom = s, evTo = t, evDetail = detail\<rparr> in
     thn (logged_write st (Note e) (\<lambda>d. (1, add_event e d))) (ret ()))"

definition assertColumns :: "'c list \<Rightarrow> 'c list \<Rightarrow> string \<Rightarrow> ('s, 'c, 'act, unit) job" where
  "assertColumns cs allowed meth =
     (if set cs \<subseteq> set allowed then ret () else throw (Thrown (meth @ '' may not set column'')))"

definition transitionWhere ::
    "('s, 'c, 'act) store \<Rightarrow> string \<Rightarrow> 's \<Rightarrow> 's \<Rightarrow> 'c fields \<Rightarrow> (('s, 'c) raw \<Rightarrow> bool) \<Rightarrow> ('s, 'c, 'act, bool) job" where
  "transitionWhere st i s t fs guard =
     (if t \<notin> set (shEdges (soShape st) s)
      then throw (Thrown (''illegal transition: not an edge of the '' @ shLabel (soShape st)))
      else
        thn (assertColumns (map fst fs) (shTransitionColumns (soShape st)) ''transition()'')
        (bnd (now (soSchedule st)) (\<lambda>tm.
         bnd (logged_write st (Cas i s t fs tm) (cas i s t fs guard tm)) (\<lambda>changes.
         if changes = 1 then thn (recordEvent st i (Some s) t None) (ret True) else ret False))))"

definition transition ::
    "('s, 'c, 'act) store \<Rightarrow> string \<Rightarrow> 's \<Rightarrow> 's \<Rightarrow> 'c fields \<Rightarrow> ('s, 'c, 'act, bool) job" where
  "transition st i s t fs = transitionWhere st i s t fs (\<lambda>_. True)"

definition patch :: "('s, 'c, 'act) store \<Rightarrow> string \<Rightarrow> 'c fields \<Rightarrow> ('s, 'c, 'act, unit) job" where
  "patch st i fs =
     (if fs = [] then ret ()
      else thn (assertColumns (map fst fs) (shPatchColumns (soShape st)) ''patch()'')
        (bnd (now (soSchedule st)) (\<lambda>tm.
         thn (logged_write st (Patch i fs tm) (patch_row i fs tm)) (ret ()))))"

definition failRow :: "('s, 'c, 'act) store \<Rightarrow> string \<Rightarrow> 's \<Rightarrow> string \<Rightarrow> ('s, 'c, 'act, unit) job" where
  "failRow st i s reason =
     (let t = (if s \<in> set (shExposed (soShape st)) then shStuck (soShape st) else shRefused (soShape st)) in
      thn (transition st i s t [(shFailure (soShape st), SText reason)]) (ret ()))"

definition claimFundLease ::
    "('s, 'c, 'act) store \<Rightarrow> string \<Rightarrow> 's \<Rightarrow> int option \<Rightarrow> ('s, 'c, 'act, bool) job" where
  "claimFundLease st i s stale =
     bnd (now (soSchedule st)) (\<lambda>tm1.
     bnd (now (soSchedule st)) (\<lambda>tm2.
     bnd (logged_write st (Lease i s stale tm1 tm2) (lease_row (soShape st) i s stale tm1 tm2)) (\<lambda>changes.
     ret (changes = 1))))"

definition releaseFundLease :: "('s, 'c, 'act) store \<Rightarrow> string \<Rightarrow> ('s, 'c, 'act, unit) job" where
  "releaseFundLease st i = thn (logged_write st (Release i) (release_row (soShape st) i)) (ret ())"

section \<open>What a table keeps\<close>

lemma set_fields_simps [simp]:
  "rwId (set_fields fs r) = rwId r" "rwState (set_fields fs r) = rwState r"
  "rwCreated (set_fields fs r) = rwCreated r" "rwUpdated (set_fields fs r) = rwUpdated r"
  by (simp_all add: set_fields_def)

lemma set_fields_cols:
  "rwCols (set_fields fs r) c = (case map_of fs c of Some v \<Rightarrow> v | None \<Rightarrow> rwCols r c)"
  by (simp add: set_fields_def)

lemma set_fields_other [simp]: "c \<notin> fst ` set fs \<Longrightarrow> rwCols (set_fields fs r) c = rwCols r c"
  by (simp add: set_fields_cols map_of_eq_None_iff [THEN iffD2])

definition ids_distinct :: "('s, 'c) db \<Rightarrow> bool" where
  "ids_distinct d \<longleftrightarrow> distinct (map rwId (dbRows d))"

lemma row_of_Some:
  "row_of d i = Some r \<Longrightarrow> r \<in> set (dbRows d) \<and> rwId r = i"
  unfolding row_of_def by (auto simp: find_Some_iff)

lemma find_append_Some: "find P xs = Some x \<Longrightarrow> find P (xs @ ys) = Some x"
  by (induction xs) auto

lemma row_of_None: "row_of d i = None \<longleftrightarrow> i \<notin> rwId ` set (dbRows d)"
  unfolding row_of_def by (auto simp: find_None_iff)

lemma row_of_eq: "ids_distinct d \<Longrightarrow> row_of d i = Some r \<longleftrightarrow> r \<in> set (dbRows d) \<and> rwId r = i"
proof
  assume d: "ids_distinct d" and r: "r \<in> set (dbRows d) \<and> rwId r = i"
  then obtain r' where r': "row_of d i = Some r'" using row_of_None [of d i] by (cases "row_of d i") auto
  with row_of_Some [OF r'] r d show "row_of d i = Some r"
    unfolding ids_distinct_def distinct_map inj_on_def by auto
qed (rule row_of_Some)

text \<open>An update that keeps the primary keys acts on the row of each id.\<close>

lemma update_rows_row_of:
  assumes "\<And>r. rwId (f r) = rwId r"
  shows "row_of (snd (update_rows p f d)) i = map_option (\<lambda>r. if p r then f r else r) (row_of d i)"
proof -
  have "find (\<lambda>r. rwId r = i) (map (\<lambda>r. if p r then f r else r) rs) =
      map_option (\<lambda>r. if p r then f r else r) (find (\<lambda>r. rwId r = i) rs)" for rs
    by (induction rs) (auto simp: assms)
  then show ?thesis by (simp add: update_rows_def row_of_def)
qed

lemma update_rows_ids:
  assumes "\<And>r. rwId (f r) = rwId r"
  shows "map rwId (dbRows (snd (update_rows p f d))) = map rwId (dbRows d)"
  by (simp add: update_rows_def assms if_distrib)

lemma update_rows_one:
  "fst (update_rows p f d) \<noteq> 0 \<longleftrightarrow> (\<exists>r \<in> set (dbRows d). p r)"
  by (auto simp: update_rows_def filter_empty_conv)

lemma update_rows_none: "fst (update_rows p f d) = 0 \<Longrightarrow> snd (update_rows p f d) = d"
proof -
  assume "fst (update_rows p f d) = 0"
  then have "\<forall>r \<in> set (dbRows d). \<not> p r" by (auto simp: update_rows_def filter_empty_conv)
  then have "map (\<lambda>r. if p r then f r else r) (dbRows d) = dbRows d" by (simp cong: map_cong)
  then show ?thesis by (simp add: update_rows_def)
qed

lemma update_by_id_count:
  assumes "ids_distinct d" and "\<And>r. p r \<Longrightarrow> rwId r = i"
  shows "fst (update_rows p f d) \<le> 1"
proof -
  have "length (filter p rs) \<le> 1" if "distinct (map rwId rs)" for rs
    using that
  proof (induction rs)
    case (Cons r rs)
    have "filter p rs = []" if "p r"
      using Cons.prems assms(2) that by (auto simp: filter_empty_conv)
    with Cons show ?case by auto
  qed simp
  then show ?thesis using assms(1) by (simp add: update_rows_def ids_distinct_def)
qed

section \<open>The store contract\<close>

text \<open>The edges the swap \<open>i\<close> took in a log.\<close>

fun edge_of :: "string \<Rightarrow> ('s, 'c) store_act \<Rightarrow> ('s \<times> 's) list" where
  "edge_of i (Cas j s t fs tm) = (if j = i then [(s, t)] else [])"
| "edge_of i _ = []"

definition edges_in :: "('act \<Rightarrow> ('s, 'c) store_act option) \<Rightarrow> string \<Rightarrow> 'act list \<Rightarrow> ('s \<times> 's) list" where
  "edges_in part i as = concat (map (\<lambda>a. case part a of None \<Rightarrow> [] | Some b \<Rightarrow> edge_of i b) as)"

lemma edges_in_simps [simp]:
  "edges_in part i [] = []"
  "edges_in part i (a # as) = (case part a of None \<Rightarrow> [] | Some b \<Rightarrow> edge_of i b) @ edges_in part i as"
  by (simp_all add: edges_in_def)

lemma mpath_append: "mpath m t es' u \<Longrightarrow> mpath m s es t \<Longrightarrow> mpath m s (es @ es') u"
proof (induction rule: mpath.induct)
  case (mpath_snoc t es' u v)
  then show ?case using mpath.mpath_snoc [of m s "es @ es'" u v] by simp
qed simp

text \<open>At most one row per payment hash that is not refused.\<close>

definition live_hash_unique :: "('s, 'c) StoreShape \<Rightarrow> ('s, 'c) db \<Rightarrow> bool" where
  "live_hash_unique sh d \<longleftrightarrow> (\<forall>i j r q. row_of d i = Some r \<longrightarrow> row_of d j = Some q \<longrightarrow>
     rwCols r (shPaymentHash sh) = rwCols q (shPaymentHash sh) \<longrightarrow>
     rwState r \<noteq> shRefused sh \<longrightarrow> rwState q \<noteq> shRefused sh \<longrightarrow> i = j)"

lemma no_live_row_with_hash:
  "findLiveByPaymentHash sh h d = None \<Longrightarrow> row_of d i = Some r \<Longrightarrow> rwCols r (shPaymentHash sh) = SText h \<Longrightarrow>
     rwState r = shRefused sh"
  using row_of_Some [of d i r] by (auto simp: findLiveByPaymentHash_def find_None_iff)

text \<open>Every action keeps the keys and moves the row of each id along one legal edge or not at all.\<close>

lemmas update_defs = cas_def patch_row_def lease_row_def release_row_def once_row_def

lemma store_ids:
  assumes "exec_store sh ok a d = Some d'" and "ids_distinct d"
  shows "ids_distinct d'"
  using assms
  by (cases a) (auto simp: ids_distinct_def update_defs update_rows_ids add_event_def
      split: if_splits option.splits)

text \<open>Without a compare-and-swap of its own a row keeps its state and every column outside the patchable ones.\<close>

lemma store_row_still:
  assumes "exec_store sh ok a d = Some d'" and "row_of d i = Some r" and "\<forall>s t fs tm. a \<noteq> Cas i s t fs tm"
  shows "\<exists>r'. row_of d' i = Some r' \<and> rwState r' = rwState r \<and> rwCreated r' = rwCreated r \<and>
    (\<forall>c. c \<notin> set (shPatchColumns sh) \<union> set_option (shLease sh) \<union> set_option (shOnce sh) \<longrightarrow> rwCols r' c = rwCols r c)"
proof (cases a)
  case (Insert q)
  then show ?thesis using assms(1,2) by (auto simp: row_of_def find_append_Some split: if_splits)
next
  case (Cas j s t fs tm)
  then have "j \<noteq> i" and d': "d' = snd (cas j s t fs (\<lambda>_. True) tm d)" using assms(1,3) by (auto split: if_splits)
  then have "row_of d' i = Some r"
    using row_of_Some [OF assms(2)] assms(2) by (simp add: d' cas_def update_rows_row_of)
  then show ?thesis by simp
next
  case (Patch j fs tm)
  then have d': "d' = snd (patch_row j fs tm d)" and "fst ` set fs \<subseteq> set (shPatchColumns sh)"
    using assms(1) by (auto split: if_splits)
  then show ?thesis using assms(2)
    by (auto simp: d' patch_row_def update_rows_row_of intro!: set_fields_other)
next
  case (Lease j s st tm1 tm2)
  then have d': "d' = snd (lease_row sh j s st tm1 tm2 d)" using assms(1) by (auto split: if_splits)
  show ?thesis using assms(2)
    by (cases "shLease sh") (simp_all add: d' lease_row_def update_rows_row_of)
next
  case (Release j)
  then have d': "d' = snd (release_row sh j d)" using assms(1) by (auto split: if_splits)
  show ?thesis using assms(2)
    by (cases "shLease sh") (simp_all add: d' release_row_def update_rows_row_of)
next
  case (Once j s v tm)
  then have d': "d' = snd (once_row sh j s v tm d)" using assms(1) by (auto split: if_splits)
  show ?thesis using assms(2)
    by (cases "shOnce sh") (simp_all add: d' once_row_def update_rows_row_of)
next
  case (Note e)
  then show ?thesis using assms(1,2) by (auto simp: add_event_def row_of_def split: if_splits)
qed

text \<open>No row appears but by an insert.\<close>

lemma store_row_back:
  assumes "exec_store sh ok a d = Some d'" and "row_of d' i = Some r'" and "row_of d i = None"
  shows "\<exists>q. a = Insert q \<and> q = r' \<and> rwId q = i"
proof -
  have "map rwId (dbRows d') = map rwId (dbRows d)" if "\<forall>q. a \<noteq> Insert q"
    using assms(1) that
    by (cases a) (auto simp: update_defs update_rows_ids add_event_def split: if_splits option.splits)
  moreover have "i \<in> set (map rwId (dbRows d'))" "i \<notin> set (map rwId (dbRows d))"
    using row_of_Some [OF assms(2)] assms(3) row_of_None [of d i] by auto
  ultimately obtain q where a: "a = Insert q" by metis
  then have "dbRows d' = dbRows d @ [q]" using assms(1) by (auto split: if_splits)
  moreover have "find (\<lambda>r. rwId r = i) (xs @ [q]) = Some r' \<Longrightarrow> find (\<lambda>r. rwId r = i) xs = None \<Longrightarrow>
      q = r' \<and> rwId q = i" for xs
    by (induction xs) (auto split: if_splits)
  ultimately show ?thesis using a assms(2,3) by (auto simp: row_of_def)
qed

text \<open>A winning compare-and-swap found the row in the state it names and wrote it.\<close>

lemma store_cas_row:
  assumes "exec_store sh ok (Cas i s t fs tm) d = Some d'" and "row_of d i = Some r" and "ids_distinct d"
  shows "rwState r = s \<and> t \<in> set (shEdges sh s) \<and> fst ` set fs \<subseteq> set (shTransitionColumns sh) \<and> ok (Cas i s t fs tm) d \<and>
    row_of d' i = Some ((set_fields fs r)\<lparr>rwState := t, rwUpdated := tm\<rparr>)"
proof -
  from assms(1) have d': "d' = snd (cas i s t fs (\<lambda>_. True) tm d)" and one: "fst (cas i s t fs (\<lambda>_. True) tm d) = 1"
    and rest: "t \<in> set (shEdges sh s)" "fst ` set fs \<subseteq> set (shTransitionColumns sh)" "ok (Cas i s t fs tm) d"
    by (auto split: if_splits)
  obtain q where "q \<in> set (dbRows d)" "rwId q = i" "rwState q = s"
    using one update_rows_one [of "\<lambda>r. rwId r = i \<and> rwState r = s \<and> True"
        "\<lambda>r. (set_fields fs r)\<lparr>rwState := t, rwUpdated := tm\<rparr>" d] unfolding cas_def by auto
  then have "row_of d i = Some q" by (simp add: row_of_eq [OF assms(3)])
  with assms(2) \<open>rwState q = s\<close> \<open>rwId q = i\<close> have "rwState r = s" "rwId r = i" by simp_all
  then show ?thesis using rest assms(2) by (simp add: d' cas_def update_rows_row_of)
qed

locale swap_store = commit_machine m start refused stuck commit after
  for m :: "'s StateMachine" and start refused stuck commit after +
  fixes sh :: "('s, 'c) StoreShape"
    and ok :: "('s, 'c) store_act \<Rightarrow> ('s, 'c) db \<Rightarrow> bool"
    and exec :: "'act \<Rightarrow> ('s, 'c) db \<Rightarrow> ('s, 'c) db option"
    and part :: "'act \<Rightarrow> ('s, 'c) store_act option"
  assumes shape_edges: "t \<in> set (shEdges sh s) \<longleftrightarrow> canTransition m s t"
    and shape_states: "shStart sh = start" "shStuck sh = stuck" "shRefused sh = refused"
    and shape_exposed: "s \<in> set (shExposed sh) \<longleftrightarrow> isExposed m s"
    and shape_live: "s \<in> set (shLive sh) \<longleftrightarrow> isLive m s"
    and failure_settable: "shFailure sh \<in> set (shTransitionColumns sh)"
    and identity_fixed: "{shPaymentHash sh, shAmount sh} \<inter>
      (set (shTransitionColumns sh) \<union> set (shPatchColumns sh) \<union> set_option (shLease sh) \<union> set_option (shOnce sh)) = {}"
    and exec_part: "exec a d = Some d' \<Longrightarrow>
      (case part a of None \<Rightarrow> d' = d | Some b \<Rightarrow> exec_store sh ok b d = Some d')"
begin

abbreviation same_identity :: "('s, 'c) raw \<Rightarrow> ('s, 'c) raw \<Rightarrow> bool" where
  "same_identity r r' \<equiv> rwCreated r' = rwCreated r \<and>
     rwCols r' (shPaymentHash sh) = rwCols r (shPaymentHash sh) \<and>
     rwCols r' (shAmount sh) = rwCols r (shAmount sh)"

lemma identity_set_fields:
  assumes "fst ` set fs \<subseteq> set (shTransitionColumns sh) \<union> set (shPatchColumns sh) \<union> set_option (shLease sh)"
  shows "rwCols (set_fields fs r) (shPaymentHash sh) = rwCols r (shPaymentHash sh)"
    "rwCols (set_fields fs r) (shAmount sh) = rwCols r (shAmount sh)"
  using assms identity_fixed by (auto intro!: set_fields_other)

lemma store_row_cas:
  assumes "exec_store sh ok (Cas i s t fs tm) d = Some d'" and "row_of d i = Some r" and "ids_distinct d"
  shows "rwState r = s \<and> canTransition m s t \<and>
    row_of d' i = Some ((set_fields fs r)\<lparr>rwState := t, rwUpdated := tm\<rparr>) \<and> same_identity r (set_fields fs r)"
  using store_cas_row [OF assms] identity_set_fields [of fs r] by (auto simp: shape_edges)

lemma store_row:
  assumes "exec_store sh ok a d = Some d'" and "row_of d i = Some r" and "ids_distinct d"
  shows "\<exists>r'. row_of d' i = Some r' \<and> mpath m (rwState r) (edge_of i a) (rwState r') \<and> same_identity r r'"
proof (cases "\<exists>s t fs tm. a = Cas i s t fs tm")
  case True
  then obtain s t fs tm where a: "a = Cas i s t fs tm" by blast
  have "mpath m (rwState r) (edge_of i a) t"
    using store_row_cas [OF assms(1) [unfolded a] assms(2,3)] by (auto simp: a intro: mpath_Cons [OF _ mpath_nil])
  then show ?thesis using store_row_cas [OF assms(1) [unfolded a] assms(2,3)] by auto
next
  case False
  then have "edge_of i a = []" by (cases a) auto
  moreover obtain r' where "row_of d' i = Some r'" "rwState r' = rwState r" "same_identity r r'"
    using store_row_still [OF assms(1,2)] False identity_fixed by fastforce
  ultimately show ?thesis using mpath_nil [of m "rwState r"] by auto
qed

text \<open>Where a row came from: itself before the action, not refused if it is not now, or a fresh quote.\<close>

lemma store_row_origin:
  assumes "exec_store sh ok a d = Some d'" and "ids_distinct d" and "row_of d' i = Some r'"
  obtains (old) r where "row_of d i = Some r" "rwCols r' (shPaymentHash sh) = rwCols r (shPaymentHash sh)"
      "rwState r' \<noteq> refused \<Longrightarrow> rwState r \<noteq> refused"
    | (fresh) "a = Insert r'" "rwId r' = i"
proof (cases "row_of d i")
  case None
  with store_row_back [OF assms(1,3)] fresh show ?thesis by auto
next
  case (Some r)
  obtain q where q: "row_of d' i = Some q" "mpath m (rwState r) (edge_of i a) (rwState q)" "same_identity r q"
    using store_row [OF assms(1) Some assms(2)] by blast
  then have "rwState r = refused \<Longrightarrow> rwState q = refused"
    using refused_stays [of "edge_of i a" "rwState q"] by simp
  with old [OF Some] q assms(3) show ?thesis by auto
qed

lemma store_keeps_unique:
  assumes "exec_store sh ok a d = Some d'" and "ids_distinct d" and "live_hash_unique sh d"
    and fresh: "\<And>q i r. a = Insert q \<Longrightarrow> ok (Insert q) d \<Longrightarrow> row_of d i = Some r \<Longrightarrow>
      rwCols r (shPaymentHash sh) = rwCols q (shPaymentHash sh) \<Longrightarrow> rwState r = refused"
  shows "live_hash_unique sh d'"
  unfolding live_hash_unique_def shape_states
proof (intro allI impI)
  fix i j r q
  assume r: "row_of d' i = Some r" and q: "row_of d' j = Some q"
    and h: "rwCols r (shPaymentHash sh) = rwCols q (shPaymentHash sh)"
    and live: "rwState r \<noteq> refused" "rwState q \<noteq> refused"
  have new: "rwState p = refused" if "a = Insert x" "row_of d k = Some p"
      "rwCols p (shPaymentHash sh) = rwCols x (shPaymentHash sh)" for x k p
    using fresh [OF that(1) _ that(2,3)] assms(1) that(1) by (simp split: if_splits)
  show "i = j"
  proof (rule store_row_origin [OF assms(1,2) r]; rule store_row_origin [OF assms(1,2) q])
    fix r0 q0
    assume "row_of d i = Some r0" "rwCols r (shPaymentHash sh) = rwCols r0 (shPaymentHash sh)"
      "rwState r \<noteq> refused \<Longrightarrow> rwState r0 \<noteq> refused"
      "row_of d j = Some q0" "rwCols q (shPaymentHash sh) = rwCols q0 (shPaymentHash sh)"
      "rwState q \<noteq> refused \<Longrightarrow> rwState q0 \<noteq> refused"
    with assms(3) h live show "i = j" unfolding live_hash_unique_def shape_states by metis
  qed (use new h live in \<open>metis store_act.inject(1)\<close>)+
qed

text \<open>The same for a whole log of the corridor's actions, whoever performed them.\<close>

lemma exec_ids: "exec a d = Some d' \<Longrightarrow> ids_distinct d \<Longrightarrow> ids_distinct d'"
  using exec_part [of a d d'] store_ids by (auto split: option.splits)

lemma run_ids: "run_all exec as d = Some d' \<Longrightarrow> ids_distinct d \<Longrightarrow> ids_distinct d'"
  by (rule run_all_keeps) (auto intro: exec_ids)

lemma exec_row:
  assumes "exec a d = Some d'" and "row_of d i = Some r" and "ids_distinct d"
  shows "\<exists>r'. row_of d' i = Some r' \<and> mpath m (rwState r) (edges_in part i [a]) (rwState r') \<and> same_identity r r'"
  using exec_part [OF assms(1)] store_row [of _ d d' i r] assms(2,3)
  by (cases "part a") (auto intro: mpath_nil)

lemma run_row:
  assumes "run_all exec as d = Some d'" and "row_of d i = Some r" and "ids_distinct d"
  shows "\<exists>r'. row_of d' i = Some r' \<and> mpath m (rwState r) (edges_in part i as) (rwState r') \<and> same_identity r r'"
  using assms
proof (induction as arbitrary: d r)
  case Nil
  then show ?case by (auto intro: mpath_nil)
next
  case (Cons a as)
  then obtain d1 where d1: "exec a d = Some d1" "run_all exec as d1 = Some d'" by (auto split: option.splits)
  obtain r1 where r1: "row_of d1 i = Some r1" "mpath m (rwState r) (edges_in part i [a]) (rwState r1)"
    "same_identity r r1"
    using exec_row [OF d1(1) Cons.prems(2,3)] by blast
  obtain r' where "row_of d' i = Some r'" "mpath m (rwState r1) (edges_in part i as) (rwState r')"
    "same_identity r1 r'"
    using Cons.IH [OF d1(2) r1(1) exec_ids [OF d1(1) Cons.prems(3)]] by blast
  with r1 show ?case using mpath_append [of m "rwState r1" "edges_in part i as"] by fastforce
qed

lemma exec_no_row:
  assumes "exec a d = Some d'" and "row_of d i = None"
  shows "edges_in part i [a] = []"
proof (cases "part a")
  case (Some b)
  then have b: "exec_store sh ok b d = Some d'" using exec_part [OF assms(1)] by simp
  have "\<forall>s t fs tm. b \<noteq> Cas i s t fs tm"
  proof (intro allI notI)
    fix s t fs tm
    assume "b = Cas i s t fs tm"
    with b have "fst (cas i s t fs (\<lambda>_. True) tm d) = 1" by (simp split: if_split_asm)
    then have "\<exists>r \<in> set (dbRows d). rwId r = i"
      using update_rows_one [of "\<lambda>r. rwId r = i \<and> rwState r = s \<and> True"
          "\<lambda>r. (set_fields fs r)\<lparr>rwState := t, rwUpdated := tm\<rparr>" d] unfolding cas_def by auto
    with assms(2) show False by (auto simp: row_of_None)
  qed
  with Some show ?thesis by (cases b) auto
qed simp

lemma run_commit_once:
  "run_all exec as d = Some d' \<Longrightarrow> ids_distinct d \<Longrightarrow>
     length (filter (\<lambda>e. snd e = commit) (edges_in part i as)) \<le> 1"
proof (induction as arbitrary: d)
  case (Cons a as)
  show ?case
  proof (cases "row_of d i")
    case None
    obtain d1 where d1: "exec a d = Some d1" "run_all exec as d1 = Some d'"
      using Cons.prems(1) by (auto split: option.splits)
    have "edges_in part i (a # as) = edges_in part i as"
      using exec_no_row [OF d1(1) None] by simp
    then show ?thesis using Cons.IH [OF d1(2) exec_ids [OF d1(1) Cons.prems(2)]] by simp
  next
    case (Some r)
    then show ?thesis using run_row [OF Cons.prems(1) Some Cons.prems(2)] commit_once by blast
  qed
qed simp

text \<open>What is behind a row stays behind it: the states reached from a closed set stay in it.\<close>

lemma run_stays:
  assumes "run_all exec as d = Some d'" and "row_of d i = Some r" and "ids_distinct d" and "rwState r \<in> A"
    and "\<And>a b. a \<in> A \<Longrightarrow> canTransition m a b \<Longrightarrow> b \<in> A"
  shows "\<exists>r'. row_of d' i = Some r' \<and> rwState r' \<in> A"
  using run_row [OF assms(1-3)] mpath_closed [of m _ _ _ A] assms(4,5) by blast

end

section \<open>Workers on a store\<close>

primrec act_of :: "'act logged \<Rightarrow> 'act" where
  "act_of (Own a) = a"
| "act_of (Rival a) = a"

text \<open>
  \<open>tracks exec d0 K\<close>: the log so far, own actions and the others', is a run of enabled actions from
  \<open>d0\<close> to the present database, and \<open>K\<close> is known of that database. Knowledge is \<open>stable\<close> when no
  enabled action can take it away.
\<close>

definition tracks ::
    "('act \<Rightarrow> ('s, 'c) db \<Rightarrow> ('s, 'c) db option) \<Rightarrow> ('s, 'c) db \<Rightarrow> (('s, 'c) db \<Rightarrow> bool) \<Rightarrow>
     (('s, 'c) db, 'act) world \<Rightarrow> bool" where
  "tracks exec d0 K w \<longleftrightarrow>
     run_all exec (map act_of (wLog w)) d0 = Some (wDb w) \<and> ids_distinct (wDb w) \<and> K (wDb w)"

definition stable :: "('act \<Rightarrow> ('s, 'c) db \<Rightarrow> ('s, 'c) db option) \<Rightarrow> (('s, 'c) db \<Rightarrow> bool) \<Rightarrow> bool" where
  "stable exec K \<longleftrightarrow> (\<forall>a d d'. K d \<longrightarrow> ids_distinct d \<longrightarrow> exec a d = Some d' \<longrightarrow> K d')"

lemma stable_True [intro]: "stable exec (\<lambda>_. True)"
  by (simp add: stable_def)

lemma stable_conj [intro]: "stable exec K \<Longrightarrow> stable exec L \<Longrightarrow> stable exec (\<lambda>d. K d \<and> L d)"
  by (auto simp: stable_def)

lemma stable_imp [intro]: "(c \<Longrightarrow> stable exec K) \<Longrightarrow> stable exec (\<lambda>d. c \<longrightarrow> K d)"
  by (cases c) (auto simp: stable_def)

lemma tracks_conj: "tracks exec d0 (\<lambda>d. K d \<and> L d) w \<longleftrightarrow> tracks exec d0 K w \<and> L (wDb w)"
  by (auto simp: tracks_def)

lemma keeps_learn:
  assumes "spec (tracks exec d0 K) m (\<lambda>r w. tracks exec d0 K w \<and> (\<forall>x. r = Inr x \<longrightarrow> L x (wDb w)))"
    and "\<And>x. keeps (tracks exec d0 (\<lambda>d. K d \<and> L x d)) (f x)"
  shows "keeps (tracks exec d0 K) (bnd m f)"
  using assms(1) tracks_conj assms(2) by (rule keeps_knowing)

text \<open>Knowledge that follows from what is known may be used at any point.\<close>

lemma keeps_use:
  assumes "\<And>d. K d \<Longrightarrow> ids_distinct d \<Longrightarrow> L d" and "keeps (tracks exec d0 (\<lambda>d. K d \<and> L d)) m"
  shows "keeps (tracks exec d0 K) m"
  by (rule spec_weaken [OF assms(2)]) (auto simp: tracks_def assms(1))

text \<open>
  A job is lawful when, from any point of its schedule, all it and the others did is a run of enabled
  actions that ends in the present database, where the invariant holds.
\<close>

definition lawful_run ::
    "('act \<Rightarrow> ('s, 'c) db \<Rightarrow> ('s, 'c) db option) \<Rightarrow> (('s, 'c) db \<Rightarrow> bool) \<Rightarrow> ('s, 'c) db \<Rightarrow> ('s, 'c, 'act, 'a) job \<Rightarrow> bool" where
  "lawful_run exec J d0 m \<longleftrightarrow> (\<forall>pos. let w = snd (m \<lparr>wDb = d0, wPos = pos, wLog = []\<rparr>) in
     run_all exec (map act_of (wLog w)) d0 = Some (wDb w) \<and> J (wDb w))"

lemma lawful_run_if_keeps:
  assumes "keeps (tracks exec d0 J) m" and "J d0" and "ids_distinct d0"
  shows "lawful_run exec J d0 m"
  unfolding lawful_run_def Let_def
proof (intro allI)
  fix pos
  let ?w0 = "\<lparr>wDb = d0, wPos = pos, wLog = []\<rparr>"
  have "tracks exec d0 J ?w0" using assms(2,3) by (simp add: tracks_def)
  then have "tracks exec d0 J (snd (m ?w0))" using assms(1) unfolding spec_def by (metis case_prod_beta)
  then show "run_all exec (map act_of (wLog (snd (m ?w0)))) d0 = Some (wDb (snd (m ?w0))) \<and> J (wDb (snd (m ?w0)))"
    by (simp add: tracks_def)
qed

text \<open>Any service whose actions keep the primary keys apart: what a worker knows of such a table survives its own actions and the others'.\<close>

locale keyed =
  fixes exec :: "'act \<Rightarrow> ('s, 'c) db \<Rightarrow> ('s, 'c) db option"
  assumes keys_kept: "exec a d = Some d' \<Longrightarrow> ids_distinct d \<Longrightarrow> ids_distinct d'"
begin

lemma tracks_interference:
  assumes "stable exec K"
  shows "interference exec (tracks exec d0 K)"
proof
  fix w a d
  assume w: "tracks exec d0 K w" and a: "exec a (wDb w) = Some d"
  then have "K d" using assms unfolding stable_def tracks_def by blast
  then show "tracks exec d0 K (w\<lparr>wDb := d, wLog := wLog w @ [Rival a]\<rparr>)"
    using w a keys_kept [OF a] by (simp add: tracks_def)
qed (simp add: tracks_def)

lemmas keeps_await' = interference.keeps_await [OF tracks_interference]
lemmas keeps_now' = interference.keeps_now [OF tracks_interference]
lemmas keeps_ask' = interference.keeps_ask [OF tracks_interference]
lemmas keeps_read' = interference.keeps_read [OF tracks_interference]

lemma tracks_own:
  assumes "stable exec K" and "tracks exec d0 K w" and "exec a (wDb w) = Some d"
  shows "tracks exec d0 K (w\<lparr>wDb := d, wLog := wLog w @ [Own a]\<rparr>)"
proof -
  have "K d" using assms unfolding stable_def tracks_def by blast
  then show ?thesis using assms(2,3) keys_kept [OF assms(3)] by (simp add: tracks_def)
qed

lemma keeps_perform':
  assumes "stable exec K" and "\<And>d. K d \<Longrightarrow> ids_distinct d \<Longrightarrow> exec a d = Some d"
  shows "keeps (tracks exec d0 K) (perform exec sc a f)"
proof (rule interference.keeps_perform [OF tracks_interference [OF assms(1)]])
  fix w
  assume w: "tracks exec d0 K w"
  then have "exec a (wDb w) = Some (wDb w)" using assms(2) by (simp add: tracks_def)
  then show "tracks exec d0 K (w\<lparr>wLog := wLog w @ [Own a]\<rparr>)"
    using tracks_own [OF assms(1) w, of a "wDb w"] by simp
qed

text \<open>A write is fine if it is enabled when it changes something and does nothing otherwise.\<close>

lemma spec_logged_act:
  assumes "stable exec K"
    and "\<And>d n d'. K d \<Longrightarrow> ids_distinct d \<Longrightarrow> f d = (n, d') \<Longrightarrow>
      (n = 0 \<and> d' = d) \<or> (n = 1 \<and> exec a d = Some d')"
    and "\<And>d d'. K d \<Longrightarrow> ids_distinct d \<Longrightarrow> exec a d = Some d' \<Longrightarrow> L d'"
  shows "spec (tracks exec d0 K) (logged_act exec sc a f)
    (\<lambda>r w. tracks exec d0 K w \<and> (\<forall>n. r = Inr n \<longrightarrow> n \<le> 1 \<and> (n = 1 \<longrightarrow> L (wDb w))))"
proof -
  let ?Q = "\<lambda>r w. tracks exec d0 K w \<and> (\<forall>n. r = Inr n \<longrightarrow> n \<le> 1 \<and> (n = 1 \<longrightarrow> L (wDb w)))"
  let ?m = "\<lambda>w. let (acts, x, db) = let (n, d') = f (wDb w) in (if n = 0 then [] else [a], n, d') in
      (Inr x, w\<lparr>wDb := db, wLog := wLog w @ map Own acts\<rparr>)"
  have step: "tracks exec d0 K (w\<lparr>wDb := d', wLog := wLog w @ map Own (if n = 0 then [] else [a])\<rparr>) \<and>
      n \<le> 1 \<and> (n = 1 \<longrightarrow> L d')" if w: "tracks exec d0 K w" and f: "f (wDb w) = (n, d')" for w n d'
  proof (cases "n = 0")
    case True
    then have "d' = wDb w" using w assms(2) [of "wDb w" n d', OF _ _ f] by (simp add: tracks_def)
    then show ?thesis using True w by simp
  next
    case False
    then have n: "n = 1" and e: "exec a (wDb w) = Some d'"
      using w assms(2) [of "wDb w" n d', OF _ _ f] by (simp_all add: tracks_def)
    have "L d'" using assms(3) [OF _ _ e] w by (simp add: tracks_def)
    with n e show ?thesis using tracks_own [OF assms(1) w] by simp
  qed
  have "spec (tracks exec d0 K) ?m ?Q" unfolding spec_def
  proof (intro allI impI)
    fix w
    assume w: "tracks exec d0 K w"
    obtain n d' where f: "f (wDb w) = (n, d')" by (cases "f (wDb w)")
    from step [OF w f] show "case ?m w of (r, w') \<Rightarrow> ?Q r w'" unfolding f Let_def by auto
  qed
  then have "spec (tracks exec d0 K) (bnd (await exec sc) (\<lambda>_. ?m)) ?Q"
    by (intro spec_bnd [where R = "\<lambda>_. tracks exec d0 K", OF keeps_await' [OF assms(1)]]) auto
  then show ?thesis unfolding logged_act_def write_db_def .
qed

end

text \<open>A service that performs the writes of the store among its actions, as the actions of \<open>exec_store\<close>.\<close>

locale store_client = keyed exec
  for exec :: "'act \<Rightarrow> ('s, 'c) db \<Rightarrow> ('s, 'c) db option" +
  fixes sh :: "('s, 'c) StoreShape"
    and ok :: "('s, 'c) store_act \<Rightarrow> ('s, 'c) db \<Rightarrow> bool"
    and act :: "('s, 'c) store_act \<Rightarrow> 'act"
  assumes client_exec: "exec (act b) d = exec_store sh ok b d"
    and client_note: "ok (Note e) d"
begin

abbreviation here :: "(('s, 'c) db, 'act) schedule \<Rightarrow> ('s, 'c, 'act) store" where
  "here sc \<equiv> \<lparr>soShape = sh, soExec = exec, soAct = act, soSchedule = sc\<rparr>"

lemma spec_logged_write:
  assumes "stable exec K"
    and "\<And>d n d'. K d \<Longrightarrow> ids_distinct d \<Longrightarrow> f d = (n, d') \<Longrightarrow>
      (n = 0 \<and> d' = d) \<or> (n = 1 \<and> exec (act b) d = Some d')"
    and "\<And>d d'. K d \<Longrightarrow> ids_distinct d \<Longrightarrow> exec (act b) d = Some d' \<Longrightarrow> L d'"
  shows "spec (tracks exec d0 K) (logged_write (here sc) b f)
    (\<lambda>r w. tracks exec d0 K w \<and> (\<forall>n. r = Inr n \<longrightarrow> n \<le> 1 \<and> (n = 1 \<longrightarrow> L (wDb w))))"
  using spec_logged_act [OF assms] by (simp add: logged_write_act)

lemma keeps_logged_write:
  assumes "stable exec K"
    and "\<And>d n d'. K d \<Longrightarrow> ids_distinct d \<Longrightarrow> f d = (n, d') \<Longrightarrow>
      (n = 0 \<and> d' = d) \<or> (n = 1 \<and> exec (act b) d = Some d')"
  shows "keeps (tracks exec d0 K) (logged_write (here sc) b f)"
  by (rule spec_weaken [OF spec_logged_write [where L = "\<lambda>_. True", OF assms]]) auto

lemma keeps_recordEvent:
  assumes "stable exec K"
  shows "keeps (tracks exec d0 K) (recordEvent (here sc) i s t detail)"
  unfolding recordEvent_def Let_def
  by (intro keep keeps_now' [OF assms, simplified] keeps_logged_write [OF assms])
    (auto simp: client_exec client_note keeps_now' [OF assms])

text \<open>The compare-and-swap wins on one row or none, and the winner's action is enabled.\<close>

lemma cas_guarded:
  assumes "ids_distinct d" and "row_of d i = Some r" and "guard r"
  shows "cas i s t fs guard tm d = cas i s t fs (\<lambda>_. True) tm d"
proof -
  have "guard q" if "q \<in> set (dbRows d)" "rwId q = i" for q
    using row_of_eq [OF assms(1), of i q] assms(2,3) that by simp
  then show ?thesis unfolding cas_def update_rows_def
    by (auto intro!: arg_cong [where f = length] filter_cong arg_cong [where f = "\<lambda>rs. d\<lparr>dbRows := rs\<rparr>"] map_cong)
qed

lemma cas_enabled:
  assumes "ids_distinct d" and "t \<in> set (shEdges sh s)" and "fst ` set fs \<subseteq> set (shTransitionColumns sh)"
    and "\<And>r. row_of d i = Some r \<Longrightarrow> rwState r = s \<Longrightarrow> guard r \<Longrightarrow> ok (Cas i s t fs tm) d"
    and "cas i s t fs guard tm d = (n, d')"
  shows "(n = 0 \<and> d' = d) \<or> (n = 1 \<and> exec (act (Cas i s t fs tm)) d = Some d')"
proof -
  let ?p = "\<lambda>r. rwId r = i \<and> rwState r = s \<and> guard r"
  let ?f = "\<lambda>r. (set_fields fs r)\<lparr>rwState := t, rwUpdated := tm\<rparr>"
  have u: "update_rows ?p ?f d = (n, d')" using assms(5) by (simp add: cas_def)
  then have "n \<le> 1" using update_by_id_count [OF assms(1), of ?p i ?f] by simp
  moreover have "d' = d" if "n = 0" using update_rows_none [of ?p ?f d] u that by simp
  moreover have "ok (Cas i s t fs tm) d \<and> cas i s t fs (\<lambda>_. True) tm d = (n, d')" if nz: "n \<noteq> 0"
  proof -
    obtain r where "r \<in> set (dbRows d)" "rwId r = i" "rwState r = s" "guard r"
      using update_rows_one [of ?p ?f d] u nz by auto
    then have "row_of d i = Some r" "rwState r = s" "guard r" using row_of_eq [OF assms(1)] by auto
    then show ?thesis using assms(4,5) cas_guarded [OF assms(1)] by metis
  qed
  ultimately show ?thesis using assms(2,3) by (cases n) (auto simp: client_exec le_Suc_eq)
qed

lemma spec_transitionWhere:
  assumes K: "stable exec K"
    and ok: "\<And>d r tm. K d \<Longrightarrow> ids_distinct d \<Longrightarrow> row_of d i = Some r \<Longrightarrow> rwState r = s \<Longrightarrow> guard r \<Longrightarrow>
      t \<in> set (shEdges sh s) \<Longrightarrow> ok (Cas i s t fs tm) d"
    and L: "stable exec L" "\<And>d d' tm. K d \<Longrightarrow> ids_distinct d \<Longrightarrow> exec (act (Cas i s t fs tm)) d = Some d' \<Longrightarrow> L d'"
  shows "spec (tracks exec d0 K) (transitionWhere (here sc) i s t fs guard)
    (\<lambda>r w. tracks exec d0 K w \<and> (\<forall>won. r = Inr won \<longrightarrow> won \<longrightarrow> L (wDb w)))"
proof -
  let ?Q = "\<lambda>r w. tracks exec d0 K w \<and> (\<forall>won. r = Inr won \<longrightarrow> won \<longrightarrow> L (wDb w))"
  have skip: "spec (tracks exec d0 K) (throw e) ?Q" "spec (tracks exec d0 K) (ret False) ?Q" for e
    by (simp_all add: spec_def throw_def ret_def)
  have won: "spec (tracks exec d0 (\<lambda>d. K d \<and> L d)) (thn (recordEvent (here sc) i (Some s) t None) (ret True)) ?Q"
    by (rule spec_weaken [OF keeps_bnd [OF keeps_recordEvent [OF stable_conj [OF K L(1)]] keeps_ret]])
      (auto simp: tracks_conj)
  have body: "spec (tracks exec d0 K)
      (bnd (logged_write (here sc) (Cas i s t fs tm) (cas i s t fs guard tm)) (\<lambda>changes.
        if changes = 1 then thn (recordEvent (here sc) i (Some s) t None) (ret True) else ret False)) ?Q"
    if t: "t \<in> set (shEdges sh s)" and c: "fst ` set fs \<subseteq> set (shTransitionColumns sh)" for tm
  proof (rule spec_bnd)
    show "spec (tracks exec d0 K) (logged_write (here sc) (Cas i s t fs tm) (cas i s t fs guard tm))
        (\<lambda>r w. tracks exec d0 K w \<and> (\<forall>n. r = Inr n \<longrightarrow> n \<le> 1 \<and> (n = 1 \<longrightarrow> L (wDb w))))"
      by (rule spec_logged_write [OF K cas_enabled [where guard = guard, OF _ t c] L(2)]) (use ok t in blast)+
    fix n :: nat
    show "spec (\<lambda>w. tracks exec d0 K w \<and> (\<forall>n'. Inr n = Inr n' \<longrightarrow> n' \<le> 1 \<and> (n' = 1 \<longrightarrow> L (wDb w))))
        (if n = 1 then thn (recordEvent (here sc) i (Some s) t None) (ret True) else ret False) ?Q"
      using won skip(2) by (cases "n = 1") (auto elim!: spec_weaken simp: tracks_conj)
  qed auto
  show ?thesis
  proof (cases "t \<in> set (shEdges sh s) \<and> fst ` set fs \<subseteq> set (shTransitionColumns sh)")
    case True
    then have "transitionWhere (here sc) i s t fs guard = thn (ret ()) (bnd (now sc) (\<lambda>tm.
        bnd (logged_write (here sc) (Cas i s t fs tm) (cas i s t fs guard tm)) (\<lambda>changes.
        if changes = 1 then thn (recordEvent (here sc) i (Some s) t None) (ret True) else ret False)))"
      by (simp add: transitionWhere_def assertColumns_def)
    moreover have "spec (tracks exec d0 K) (bnd (now sc) (\<lambda>tm.
        bnd (logged_write (here sc) (Cas i s t fs tm) (cas i s t fs guard tm)) (\<lambda>changes.
        if changes = 1 then thn (recordEvent (here sc) i (Some s) t None) (ret True) else ret False))) ?Q"
      by (rule spec_bnd [OF keeps_now' [OF K]]) (use True body in auto)
    ultimately show ?thesis by (auto intro: spec_bnd [OF keeps_ret])
  next
    case False
    then show ?thesis using skip(1) unfolding transitionWhere_def assertColumns_def
      by (auto simp: spec_def bnd_def throw_def)
  qed
qed

lemma spec_transition:
  assumes "stable exec K"
    and "\<And>d r tm. K d \<Longrightarrow> ids_distinct d \<Longrightarrow> row_of d i = Some r \<Longrightarrow> rwState r = s \<Longrightarrow>
      t \<in> set (shEdges sh s) \<Longrightarrow> ok (Cas i s t fs tm) d"
    and "stable exec L" "\<And>d d' tm. K d \<Longrightarrow> ids_distinct d \<Longrightarrow> exec (act (Cas i s t fs tm)) d = Some d' \<Longrightarrow> L d'"
  shows "spec (tracks exec d0 K) (transition (here sc) i s t fs)
    (\<lambda>r w. tracks exec d0 K w \<and> (\<forall>won. r = Inr won \<longrightarrow> won \<longrightarrow> L (wDb w)))"
  unfolding transition_def by (rule spec_transitionWhere [OF assms(1)]) (use assms(2-) in blast)+

lemma keeps_transition:
  assumes "stable exec K"
    and "\<And>d r tm. K d \<Longrightarrow> ids_distinct d \<Longrightarrow> row_of d i = Some r \<Longrightarrow> rwState r = s \<Longrightarrow>
      t \<in> set (shEdges sh s) \<Longrightarrow> ok (Cas i s t fs tm) d"
  shows "keeps (tracks exec d0 K) (transition (here sc) i s t fs)"
  by (rule spec_weaken [OF spec_transition [where L = "\<lambda>_. True", OF assms]]) (auto simp: stable_True)

lemma spec_getRow:
  assumes "stable exec K" and "\<And>d r. K d \<Longrightarrow> ids_distinct d \<Longrightarrow> row_of d i = Some r \<Longrightarrow> L r d"
  shows "spec (tracks exec d0 K) (getRow (here sc) i)
    (\<lambda>res w. tracks exec d0 K w \<and> (\<forall>r. res = Inr r \<longrightarrow> L r (wDb w)))"
  unfolding getRow_def store.simps
  by (rule interference.spec_read [OF tracks_interference [OF assms(1)]])
    (use assms(2) in \<open>auto simp: tracks_def split: option.splits\<close>)

lemma keeps_getRow: "stable exec K \<Longrightarrow> keeps (tracks exec d0 K) (getRow (here sc) i)"
  unfolding getRow_def store.simps by (rule keeps_read')

end

locale service = swap_store m start refused stuck commit after sh ok exec part
  for m :: "'s StateMachine" and start refused stuck commit after and sh :: "('s, 'c) StoreShape"
    and ok and exec :: "'act \<Rightarrow> ('s, 'c) db \<Rightarrow> ('s, 'c) db option" and part +
  fixes act :: "('s, 'c) store_act \<Rightarrow> 'act"
  assumes exec_act: "exec (act b) d = exec_store sh ok b d"
    and note_ok: "ok (Note e) d"

sublocale service \<subseteq> store_client exec sh ok act
  by unfold_locales (auto intro: exec_ids exec_act note_ok)

context service
begin

lemma keeps_failRow:
  assumes "stable exec K"
    and "\<And>d r t tm. K d \<Longrightarrow> ids_distinct d \<Longrightarrow> row_of d i = Some r \<Longrightarrow> rwState r = s \<Longrightarrow>
      t \<in> {stuck, refused} \<Longrightarrow> t = (if isExposed m s then stuck else refused) \<Longrightarrow> t \<in> set (shEdges sh s) \<Longrightarrow>
      ok (Cas i s t [(shFailure sh, SText reason)] tm) d"
  shows "keeps (tracks exec d0 K) (failRow (here sc) i s reason)"
  unfolding failRow_def Let_def
  by (intro keep keeps_transition [OF assms(1)]) (simp add: assms(2) shape_states shape_exposed split: if_splits)

lemma patch_enabled:
  assumes "ids_distinct d" and "fst ` set fs \<subseteq> set (shPatchColumns sh)"
    and "\<And>r. row_of d i = Some r \<Longrightarrow> ok (Patch i fs tm) d" and "patch_row i fs tm d = (n, d')"
  shows "(n = 0 \<and> d' = d) \<or> (n = 1 \<and> exec (act (Patch i fs tm)) d = Some d')"
proof -
  let ?p = "\<lambda>r. rwId r = i" and ?f = "\<lambda>r. (set_fields fs r)\<lparr>rwUpdated := tm\<rparr>"
  have u: "update_rows ?p ?f d = (n, d')" using assms(4) by (simp add: patch_row_def)
  then have "n \<le> 1" using update_by_id_count [OF assms(1), of ?p i ?f] by simp
  moreover have "d' = d" if "n = 0" using update_rows_none [of ?p ?f d] u that by simp
  moreover have "ok (Patch i fs tm) d" if "n \<noteq> 0"
    using update_rows_one [of ?p ?f d] u that row_of_eq [OF assms(1)] assms(3) by fastforce
  ultimately show ?thesis using assms(2,4) by (cases n) (auto simp: exec_act le_Suc_eq)
qed

lemma keeps_patch:
  assumes "stable exec K" and "\<And>d r tm. K d \<Longrightarrow> row_of d i = Some r \<Longrightarrow> ok (Patch i fs tm) d"
  shows "keeps (tracks exec d0 K) (patch (here sc) i fs)"
proof (cases "fst ` set fs \<subseteq> set (shPatchColumns sh)")
  case True
  show ?thesis unfolding patch_def assertColumns_def store.simps
    by (intro keep keeps_now' [OF assms(1)] keeps_logged_write [OF assms(1)] patch_enabled True) (simp_all add: assms(2))
next
  case False
  then show ?thesis unfolding patch_def assertColumns_def store.simps by (simp add: keeps_throw keeps_ret)
qed

text \<open>The fund lease goes to one caller, and giving it back changes one row or none.\<close>

lemma lease_enabled:
  assumes "ids_distinct d" and "ok (Lease i s stale tm1 tm2) d" and "lease_row sh i s stale tm1 tm2 d = (n, d')"
  shows "(n = 0 \<and> d' = d) \<or> (n = 1 \<and> exec (act (Lease i s stale tm1 tm2)) d = Some d')"
proof (cases "shLease sh")
  case (Some c)
  let ?p = "\<lambda>r. rwId r = i \<and> rwState r = s \<and> (case rwCols r c of SNull \<Rightarrow> True
    | SInt v \<Rightarrow> v \<le> (case stale of Some b \<Rightarrow> b | None \<Rightarrow> -1) | _ \<Rightarrow> False)"
  let ?f = "\<lambda>r. (set_fields [(c, SInt tm1)] r)\<lparr>rwUpdated := tm2\<rparr>"
  have u: "update_rows ?p ?f d = (n, d')" using assms(3) Some by (simp add: lease_row_def)
  then have "n \<le> 1" using update_by_id_count [OF assms(1), of ?p i ?f] by simp
  moreover have "d' = d" if "n = 0" using update_rows_none [of ?p ?f d] u that by simp
  ultimately show ?thesis using assms(2,3) by (cases n) (auto simp: exec_act le_Suc_eq)
qed (use assms(3) in \<open>simp add: lease_row_def\<close>)

lemma release_enabled:
  assumes "ids_distinct d" and "ok (Release i) d" and "release_row sh i d = (n, d')"
  shows "(n = 0 \<and> d' = d) \<or> (n = 1 \<and> exec (act (Release i)) d = Some d')"
proof (cases "shLease sh")
  case (Some c)
  let ?f = "set_fields [(c, SNull)]"
  have u: "update_rows (\<lambda>r. rwId r = i) ?f d = (n, d')" using assms(3) Some by (simp add: release_row_def)
  then have "n \<le> 1" using update_by_id_count [OF assms(1), of "\<lambda>r. rwId r = i" i ?f] by simp
  moreover have "d' = d" if "n = 0" using update_rows_none [of "\<lambda>r. rwId r = i" ?f d] u that by simp
  ultimately show ?thesis using assms(2,3) by (cases n) (auto simp: exec_act le_Suc_eq)
qed (use assms(3) in \<open>simp add: release_row_def\<close>)

text \<open>A write-once column is filled by one caller.\<close>

lemma once_enabled:
  assumes "ids_distinct d" and "ok (Once i s v tm) d" and "once_row sh i s v tm d = (n, d')"
  shows "(n = 0 \<and> d' = d) \<or> (n = 1 \<and> exec (act (Once i s v tm)) d = Some d')"
proof (cases "shOnce sh")
  case (Some c)
  let ?p = "\<lambda>r. rwId r = i \<and> rwState r = s \<and> rwCols r c = SNull"
  let ?f = "\<lambda>r. (set_fields [(c, v)] r)\<lparr>rwUpdated := tm\<rparr>"
  have u: "update_rows ?p ?f d = (n, d')" using assms(3) Some by (simp add: once_row_def)
  then have "n \<le> 1" using update_by_id_count [OF assms(1), of ?p i ?f] by simp
  moreover have "d' = d" if "n = 0" using update_rows_none [of ?p ?f d] u that by simp
  ultimately show ?thesis using assms(2,3) by (cases n) (auto simp: exec_act le_Suc_eq)
qed (use assms(3) in \<open>simp add: once_row_def\<close>)

lemma keeps_releaseFundLease:
  assumes "stable exec K" and "\<And>d. K d \<Longrightarrow> ok (Release i) d"
  shows "keeps (tracks exec d0 K) (releaseFundLease (here sc) i)"
  unfolding releaseFundLease_def store.simps
  by (intro keep keeps_logged_write [OF assms(1)] release_enabled) (auto intro: assms(2))

lemma spec_once:
  assumes "stable exec K" and "\<And>d tm. K d \<Longrightarrow> ok (Once i s v tm) d"
    and "\<And>d d' tm. K d \<Longrightarrow> ids_distinct d \<Longrightarrow> exec (act (Once i s v tm)) d = Some d' \<Longrightarrow> L d'"
  shows "spec (tracks exec d0 K)
    (bnd (now sc) (\<lambda>tm. bnd (logged_write (here sc) (Once i s v tm) (once_row sh i s v tm)) (\<lambda>changes. ret (changes = 1))))
    (\<lambda>r w. tracks exec d0 K w \<and> (\<forall>won. r = Inr won \<longrightarrow> won \<longrightarrow> L (wDb w)))"
proof (rule spec_bnd [OF keeps_now' [OF assms(1)]])
  fix tm
  show "spec (tracks exec d0 K)
      (bnd (logged_write (here sc) (Once i s v tm) (once_row sh i s v tm)) (\<lambda>changes. ret (changes = 1)))
      (\<lambda>r w. tracks exec d0 K w \<and> (\<forall>won. r = Inr won \<longrightarrow> won \<longrightarrow> L (wDb w)))"
    by (rule spec_bnd [OF spec_logged_write [OF assms(1) once_enabled [OF _ assms(2)] assms(3)]])
      (auto simp: spec_def ret_def)
qed simp

text \<open>Knowledge about one row: its state is in a set closed under the legal edges.\<close>

lemma stable_past:
  assumes "\<And>s t. s \<in> A \<Longrightarrow> canTransition m s t \<Longrightarrow> t \<in> A"
  shows "stable exec (\<lambda>d. \<exists>r. row_of d i = Some r \<and> rwState r \<in> A)"
  unfolding stable_def using exec_row mpath_closed [of m _ _ _ A] assms by blast

end

section \<open>A worker's own writes\<close>

text \<open>
  A property of what a worker did survives every store method whose actions it tolerates. None of
  these facts looks at the table.
\<close>

lemma keeps_did_logged_write:
  "(\<And>as. P as \<Longrightarrow> P (as @ [soAct st a])) \<Longrightarrow> keeps (did P) (logged_write st a f)"
  unfolding logged_write_def by (rule keeps_did_write) (auto split: prod.splits if_splits)

lemmas did_keep = keep own_log.keeps_now own_log.keeps_ask own_log.keeps_read own_log.keeps_await keeps_did_logged_write

lemma keeps_did_recordEvent:
  "(\<And>as e. P as \<Longrightarrow> P (as @ [soAct st (Note e)])) \<Longrightarrow> keeps (did P) (recordEvent st i s t detail)"
  unfolding recordEvent_def by (intro did_keep)

lemma keeps_did_transition:
  assumes "\<And>as tm. P as \<Longrightarrow> P (as @ [soAct st (Cas i s t fs tm)])" and "\<And>as e. P as \<Longrightarrow> P (as @ [soAct st (Note e)])"
  shows "keeps (did P) (transition st i s t fs)"
  unfolding transition_def transitionWhere_def assertColumns_def by (intro did_keep keeps_did_recordEvent assms)

lemma keeps_did_patch:
  "(\<And>as tm. P as \<Longrightarrow> P (as @ [soAct st (Patch i fs tm)])) \<Longrightarrow> keeps (did P) (patch st i fs)"
  unfolding patch_def assertColumns_def by (intro did_keep)

lemma keeps_did_failRow:
  assumes "\<And>as t tm. P as \<Longrightarrow> P (as @ [soAct st (Cas i s t [(shFailure (soShape st), SText reason)] tm)])"
    and "\<And>as e. P as \<Longrightarrow> P (as @ [soAct st (Note e)])"
  shows "keeps (did P) (failRow st i s reason)"
  unfolding failRow_def by (intro keep keeps_did_transition assms)

lemma keeps_did_getRow: "keeps (did P) (getRow st i)"
  unfolding getRow_def by (rule own_log.keeps_read)

lemma spec_did_logged_write:
  assumes "\<And>as. P as \<Longrightarrow> Q (as @ [soAct st a])"
  shows "spec (did P) (logged_write st a f) (\<lambda>r w. case r of Inr n \<Rightarrow> did (if n = 0 then P else Q) w | Inl _ \<Rightarrow> did P w)"
  unfolding logged_write_def write_db_def
  by (rule spec_bnd [OF own_log.keeps_await]) (auto simp: spec_def did_def assms split: prod.splits)

text \<open>A write that moves a worker from \<open>P\<close> to \<open>Q\<close> when it happens at all.\<close>

lemma spec_did_throw: "(\<And>as. P as \<Longrightarrow> Q as) \<Longrightarrow> spec (did P) (throw e) (\<lambda>_. did Q)"
  by (simp add: spec_def throw_def did_def)

lemma spec_did_transition:
  assumes "\<And>as tm. P as \<Longrightarrow> Q (as @ [soAct st (Cas i s t fs tm)])" and "\<And>as. P as \<Longrightarrow> Q as"
    and "\<And>as e. Q as \<Longrightarrow> Q (as @ [soAct st (Note e)])"
  shows "spec (did P) (transition st i s t fs) (\<lambda>_. did Q)"
proof -
  have wrote: "spec (did P) (logged_write st (Cas i s t fs tm) f) (\<lambda>_. did Q)" for f tm
    by (rule spec_weaken [OF spec_did_logged_write [of P Q, OF assms(1)]])
      (auto simp: did_def assms(2) split: sum.splits if_splits)
  have noted: "keeps (did Q) (if n = 1 then thn (recordEvent st i (Some s) t None) (ret True) else ret False)" for n :: nat
    by (intro keep keeps_did_recordEvent assms(3))
  have "spec (did P) (bnd (now (soSchedule st)) (\<lambda>tm.
      bnd (logged_write st (Cas i s t fs tm) (cas i s t fs (\<lambda>_. True) tm)) (\<lambda>changes.
      if changes = 1 then thn (recordEvent st i (Some s) t None) (ret True) else ret False))) (\<lambda>_. did Q)"
    by (rule spec_bnd [OF own_log.keeps_now _ spec_bnd [OF wrote _ noted]]) (auto simp: did_def assms(2))
  then show ?thesis by (simp add: transition_def transitionWhere_def assertColumns_def spec_did_throw assms(2))
qed

lemma spec_did_release:
  assumes "\<And>as. P as \<Longrightarrow> Q (as @ [soAct st (Release i)])" and "\<And>as. P as \<Longrightarrow> Q as"
  shows "spec (did P) (releaseFundLease st i) (\<lambda>_. did Q)"
  unfolding releaseFundLease_def
  by (rule spec_bnd [OF spec_weaken [OF spec_did_logged_write [of P Q, OF assms(1)]] _ keeps_ret [of "did Q"]])
    (auto simp: did_def assms(2) split: sum.splits if_splits)

context service
begin

text \<open>Taking the lease: on the answer \<open>true\<close>, and only then, the act is in the worker's own log.\<close>

lemma spec_claimFundLease:
  assumes K: "stable exec K" and ok: "\<And>d n tm2. K d \<Longrightarrow> ok (Lease i s stale (scClock sc n) tm2) d"
    and Q: "\<And>as tm1 tm2. P as \<Longrightarrow> Q (as @ [act (Lease i s stale tm1 tm2)])"
  shows "spec (\<lambda>w. tracks exec d0 K w \<and> did P w) (claimFundLease (here sc) i s stale)
    (\<lambda>r w. tracks exec d0 K w \<and> did (if r = Inr True then Q else P) w)"
proof -
  let ?I = "\<lambda>w. tracks exec d0 K w \<and> did P w"
  let ?R = "\<lambda>r w. tracks exec d0 K w \<and> did (if r = Inr True then Q else P) w"
  let ?taking = "\<lambda>tm1 tm2. logged_write (here sc) (Lease i s stale tm1 tm2) (lease_row sh i s stale tm1 tm2)"
  have did: "spec (did P) (?taking tm1 tm2) (\<lambda>r w. case r of Inr n \<Rightarrow> did (if n = 0 then P else Q) w | Inl _ \<Rightarrow> did P w)"
    for tm1 tm2 by (rule spec_did_logged_write) (simp add: Q)
  have "spec ?I (bnd (?taking (scClock sc n) tm2) (\<lambda>changes. ret (changes = 1))) ?R" for n tm2
  proof (rule spec_bnd [OF spec_conj [OF spec_logged_write [OF K lease_enabled [OF _ ok], where L = "\<lambda>_. True"] did]])
    fix c :: nat
    show "spec (\<lambda>w. (tracks exec d0 K w \<and> (\<forall>n. Inr c = Inr n \<longrightarrow> n \<le> 1 \<and> (n = 1 \<longrightarrow> True))) \<and>
        (case Inr c of Inl e \<Rightarrow> did P w | Inr n \<Rightarrow> did (if n = 0 then P else Q) w)) (ret (c = 1)) ?R"
      by (auto simp: spec_def ret_def le_Suc_eq)
  qed auto
  then have taking: "spec (\<lambda>w. ?I w \<and> (\<exists>k. Inr tm2 = (Inr (scClock sc k) :: exn + int)))
      (bnd (?taking (scClock sc n) tm2) (\<lambda>changes. ret (changes = 1))) ?R" for n tm2
    by (rule spec_weaken) simp_all
  have clock: "spec ?I (now sc) (\<lambda>r w. ?I w \<and> (\<exists>n. r = Inr (scClock sc n)))"
    by (rule spec_now) (simp add: tracks_def did_def)
  have "spec (\<lambda>w. ?I w \<and> (\<exists>n. Inr tm1 = (Inr (scClock sc n) :: exn + int)))
      (bnd (now sc) (\<lambda>tm2. bnd (?taking tm1 tm2) (\<lambda>changes. ret (changes = 1)))) ?R" for tm1
  proof (cases "\<exists>n. tm1 = scClock sc n")
    case True
    then obtain n where n: "tm1 = scClock sc n" ..
    show ?thesis unfolding n
      by (rule spec_weaken [OF spec_bnd [OF clock _ taking]]) auto
  qed (simp add: spec_def)
  then show ?thesis unfolding claimFundLease_def store.simps by (intro spec_bnd [OF clock]) auto
qed

end

end
