(* ===== verification/Lockups.thy ===== *)
theory Lockups
  imports Effects Timelocks
begin

text \<open>
  What both legs know of an Arkade lockup: the output selection of
  \<^verbatim>\<open>solver-arkade/src/arkade/wallet.ts\<close>, the pure rules of \<^verbatim>\<open>solver-corridors/src/legs/arkadeLockup.ts\<close>
  and the hash check of \<^verbatim>\<open>solver-core/src/core/preimage.ts\<close>. The hex codec and SHA-256 are third-party
  packages and parameters.
\<close>

section \<open>Outputs\<close>

record FundedOutput =
  foTxid :: string
  foVout :: int
  foValue :: int
  foAssets :: "(string \<times> int) list"
  foExpiresAt :: "int option"

record LockupOutpoint =
  opTxid :: string
  opVout :: int
  opValue :: int
  opSpent :: bool
  opUnrolled :: bool

datatype LockupSpendEvidence = Ev_unknown | Ev_unspent | Ev_spent

definition MAX_LOCKUP_SPEND_INPUTS :: nat where [policy]: "MAX_LOCKUP_SPEND_INPUTS = 16"
definition LOCKUP_SPEND_EXPIRY_MARGIN :: int where [policy]: "LOCKUP_SPEND_EXPIRY_MARGIN = 5 * 60"

definition totalValue :: "FundedOutput list \<Rightarrow> int" where
  "totalValue outs = sum_list (map foValue outs)"

definition satsOutputs :: "FundedOutput list \<Rightarrow> FundedOutput list" where
  "satsOutputs outs = filter (\<lambda>o1. foAssets o1 = []) outs"

definition claimOutputs :: "FundedOutput list \<Rightarrow> int \<Rightarrow> FundedOutput list" where
  "claimOutputs outs amountSats =
     (let clean = satsOutputs outs in if totalValue clean \<ge> amountSats then clean else outs)"

definition boundedSpendInputs :: "FundedOutput list \<Rightarrow> int \<Rightarrow> FundedOutput list" where
  "boundedSpendInputs funded tm =
     (let usable = filter (\<lambda>o1. case foExpiresAt o1 of None \<Rightarrow> True
            | Some e \<Rightarrow> e - tm > LOCKUP_SPEND_EXPIRY_MARGIN) funded in
      if length usable \<le> MAX_LOCKUP_SPEND_INPUTS then usable
      else let kept = take MAX_LOCKUP_SPEND_INPUTS (sort_key (\<lambda>o1. - foValue o1) usable) in
        filter (\<lambda>o1. o1 \<in> set kept) usable)"

section \<open>Rules of the lockup leg\<close>

text \<open>The solver's own earlier funding, an unspent one first.\<close>

definition adoptFunding :: "LockupOutpoint list \<Rightarrow> int \<Rightarrow> LockupOutpoint option" where
  "adoptFunding outpoints payoutSats =
     (let ours = filter (\<lambda>o1. opValue o1 = payoutSats) outpoints in
      case find (\<lambda>o1. \<not> opSpent o1) ours of
        Some o1 \<Rightarrow> Some o1
      | None \<Rightarrow> (case ours of [] \<Rightarrow> None | o1 # _ \<Rightarrow> Some o1))"

definition providerKeyCurrent :: "string \<Rightarrow> string \<Rightarrow> bool" where
  "providerKeyCurrent quotedPubkey livePubkey \<longleftrightarrow> quotedPubkey = livePubkey"

definition outpoint_key :: "LockupOutpoint \<Rightarrow> string \<times> int" where
  "outpoint_key o1 = (opTxid o1, opVout o1)"

definition uncollected ::
    "(string \<times> int \<times> int) list \<Rightarrow> LockupOutpoint list \<Rightarrow> (string \<times> int) set \<Rightarrow> (string \<times> int) set \<Rightarrow>
     (string \<times> int) set \<Rightarrow> (string \<times> int) list" where
  "uncollected adopted outpoints claimedOffchain claimedOnL1 ours =
     filter (\<lambda>key.
       if key \<in> claimedOffchain then False
       else case find (\<lambda>o1. outpoint_key o1 = key) outpoints of
         None \<Rightarrow> True
       | Some seen \<Rightarrow>
           if opUnrolled seen then key \<notin> claimedOnL1
           else if opSpent seen then key \<notin> ours else True)
     (map (\<lambda>(t, v, _). (t, v)) adopted)"

section \<open>Preimages\<close>

text \<open>Malformed hex is a mismatch, not a throw.\<close>

definition preimageMatchesHash :: "(string \<Rightarrow> 'bytes option) \<Rightarrow> ('bytes \<Rightarrow> string) \<Rightarrow> string \<Rightarrow> string \<Rightarrow> bool" where
  "preimageMatchesHash hexDecode sha256Hex preimageHex paymentHashHex =
     (case hexDecode preimageHex of None \<Rightarrow> False | Some b \<Rightarrow> sha256Hex b = paymentHashHex)"

text \<open>A codec with the law the hex package documents: it decodes what it encodes.\<close>

fun unary_decode :: "nat \<Rightarrow> string \<Rightarrow> nat list option" where
  "unary_decode k [] = (if k = 0 then Some [] else None)"
| "unary_decode k (c # cs) =
     (if c = CHR ''1'' then unary_decode (Suc k) cs else map_option (\<lambda>ns. k # ns) (unary_decode 0 cs))"

fun unary_encode :: "nat list \<Rightarrow> string" where
  "unary_encode [] = []"
| "unary_encode (n # ns) = replicate n (CHR ''1'') @ CHR ''0'' # unary_encode ns"

lemma unary_decode_run:
  "unary_decode k (replicate n (CHR ''1'') @ CHR ''0'' # s) = map_option (\<lambda>ns. (k + n) # ns) (unary_decode 0 s)"
  by (induction n arbitrary: k) auto

lemma unary_roundtrip: "unary_decode 0 (unary_encode b) = Some b"
  by (induction b) (auto simp: unary_decode_run)

text \<open>
  \<open>findClaimPreimage\<close> of \<^verbatim>\<open>wallet.ts\<close>. The indexer is a third-party service and a parameter: the coins at
  the given outpoints, and the decoded transactions of a list of ids, page after page, where reading or
  parsing one may throw.
\<close>

record VirtualCoin =
  vcSpentBy :: "string option"
  vcSettledBy :: "string option"

record 'bytes tx_input =
  tiTxid :: "string option"
  tiIndex :: int
  tiConditionWitness :: "'bytes list"
  tiFinalScriptWitness :: "'bytes list option"

record 'bytes indexer =
  ixCoins :: "(string \<times> int) list \<Rightarrow> exn + VirtualCoin list"
  ixVirtualTxs :: "string list \<Rightarrow> (exn + 'bytes tx_input list) list"

definition hashMatches :: "('bytes \<Rightarrow> string) \<Rightarrow> 'bytes \<Rightarrow> string \<Rightarrow> bool" where
  "hashMatches sha256Hex candidate paymentHashHex \<longleftrightarrow> sha256Hex candidate = paymentHashHex"

definition candidateWitnessItems :: "'bytes tx_input \<Rightarrow> 'bytes list" where
  "candidateWitnessItems inp =
     tiConditionWitness inp @ (case tiFinalScriptWitness inp of None \<Rightarrow> [] | Some ws \<Rightarrow> ws)"

definition spendingTxids :: "VirtualCoin list \<Rightarrow> string list" where
  "spendingTxids vtxos =
     (let ids = concat (map (\<lambda>v. filter (\<lambda>x. x \<noteq> []) (List.map_filter id [vcSpentBy v, vcSettledBy v])) vtxos) in
      rev (remdups (rev ids)))"

definition matchesOurOutpoint :: "(string \<times> int) list \<Rightarrow> 'bytes tx_input \<Rightarrow> bool" where
  "matchesOurOutpoint outpoints inp \<longleftrightarrow>
     (case tiTxid inp of None \<Rightarrow> False | Some t \<Rightarrow> t \<noteq> [] \<and> (t, tiIndex inp) \<in> set outpoints)"

definition revealed_in :: "('bytes \<Rightarrow> string) \<Rightarrow> (string \<times> int) list \<Rightarrow> string \<Rightarrow> 'bytes tx_input list \<Rightarrow> 'bytes option" where
  "revealed_in sha256Hex outpoints paymentHashHex tx =
     find (\<lambda>c. hashMatches sha256Hex c paymentHashHex)
       (concat (map candidateWitnessItems (filter (matchesOurOutpoint outpoints) tx)))"

fun search_txs :: "('bytes tx_input list \<Rightarrow> 'bytes option) \<Rightarrow> (exn + 'bytes tx_input list) list \<Rightarrow> exn + 'bytes option" where
  "search_txs reveals [] = Inr None"
| "search_txs reveals (Inl e # _) = Inl e"
| "search_txs reveals (Inr tx # txs) =
     (case reveals tx of Some c \<Rightarrow> Inr (Some c) | None \<Rightarrow> search_txs reveals txs)"

definition findClaimPreimage ::
    "('bytes \<Rightarrow> string) \<Rightarrow> 'bytes indexer \<Rightarrow> (string \<times> int) list \<Rightarrow> string \<Rightarrow> exn + 'bytes option" where
  "findClaimPreimage sha256Hex ix outpoints paymentHashHex =
     (if outpoints = [] then Inr None
      else case ixCoins ix outpoints of
        Inl e \<Rightarrow> Inl e
      | Inr vtxos \<Rightarrow>
          (if spendingTxids vtxos = [] then Inr None
           else search_txs (revealed_in sha256Hex outpoints paymentHashHex) (ixVirtualTxs ix (spendingTxids vtxos))))"

lemma find_SomeD: "find P xs = Some x \<Longrightarrow> P x \<and> x \<in> set xs"
  by (auto simp: find_Some_iff)

lemma search_txs_reveals:
  "search_txs reveals txs = Inr (Some c) \<Longrightarrow> \<exists>tx. Inr tx \<in> set txs \<and> reveals tx = Some c"
  by (induction reveals txs rule: search_txs.induct) (auto split: option.splits)

text \<open>What is found opens the hash and is a witness item of an input that spends one of the outpoints.\<close>

lemma findClaimPreimage_sound:
  assumes "findClaimPreimage sha256Hex ix outpoints h = Inr (Some c)"
  shows "sha256Hex c = h"
    and "\<exists>ids tx inp. Inr tx \<in> set (ixVirtualTxs ix ids) \<and> inp \<in> set tx \<and> matchesOurOutpoint outpoints inp \<and>
      c \<in> set (candidateWitnessItems inp)"
proof -
  obtain vtxos tx where "Inr tx \<in> set (ixVirtualTxs ix (spendingTxids vtxos))"
    and "revealed_in sha256Hex outpoints h tx = Some c"
    using assms by (auto simp: findClaimPreimage_def split: if_splits sum.splits dest!: search_txs_reveals)
  then show "sha256Hex c = h"
    and "\<exists>ids tx inp. Inr tx \<in> set (ixVirtualTxs ix ids) \<and> inp \<in> set tx \<and> matchesOurOutpoint outpoints inp \<and>
      c \<in> set (candidateWitnessItems inp)"
    by (force simp: revealed_in_def hashMatches_def dest!: find_SomeD)+
qed

section \<open>Bounds\<close>

text \<open>
  The spend takes only unexpired outputs, in the order they were found, and of distinct outputs never more
  than the limit; an output it leaves out is expiring or worth no more than any it takes.
\<close>

lemma boundedSpendInputs_subset: "set (boundedSpendInputs funded tm) \<subseteq> set funded"
  by (auto simp: boundedSpendInputs_def Let_def)

lemma boundedSpendInputs_bound:
  assumes "distinct funded"
  shows "length (boundedSpendInputs funded tm) \<le> MAX_LOCKUP_SPEND_INPUTS"
proof -
  define usable where "usable = filter (\<lambda>o1. case foExpiresAt o1 of None \<Rightarrow> True
    | Some e \<Rightarrow> e - tm > LOCKUP_SPEND_EXPIRY_MARGIN) funded"
  define kept where "kept = take MAX_LOCKUP_SPEND_INPUTS (sort_key (\<lambda>o1. - foValue o1) usable)"
  have "length (filter (\<lambda>o1. o1 \<in> set kept) usable) = card (set usable \<inter> set kept)"
    using assms distinct_card [of "filter (\<lambda>o1. o1 \<in> set kept) usable"]
    by (simp add: usable_def Int_def)
  also have "\<dots> \<le> length kept" by (meson card_length card_mono finite_set inf_le2 le_trans)
  also have "\<dots> \<le> MAX_LOCKUP_SPEND_INPUTS" by (simp add: kept_def)
  finally show ?thesis by (simp add: boundedSpendInputs_def Let_def flip: usable_def kept_def)
qed

end
