(* ===== verification/Send_Store.thy ===== *)
theory Send_Store
  imports Swap_Store Lockups
begin

text \<open>
  \<^verbatim>\<open>solver-corridors/src/db/swaps.ts\<close>: the Lightning send table, its shape, the statements this store
  adds to the shared ones and the actions of the whole send service on it. The actions are the
  service's contract: what a worker may write and when it may pay, claim or refund. The invariant of
  the table is proved for every sequence of such actions, so it holds under any interleaving.
\<close>

section \<open>The table\<close>

datatype send_col =
    C_invoice | C_payment_hash | C_amount_sats | C_invoice_expires_at | C_quoted_refund_deadline
  | C_refund_locktime | C_sender_pubkey | C_receiver_pubkey | C_server_pubkey | C_claim_delay
  | C_refund_delay | C_refund_without_receiver_delay | C_pk_script | C_lockup_address
  | C_refund_pk_script | C_emulator_pubkey | C_client_refund_pubkey | C_receiver_pk_script
  | C_non_interactive_parameters | C_refund_ark_txid | C_refund_outcome | C_refund_attempt
  | C_payment_backend | C_payment_wallet | C_quoted_routing_fee_sats | C_lockup_txid | C_lockup_vout
  | C_lockup_value | C_idempotency_key | C_pay_attempted_at | C_payment_id | C_preimage
  | C_claim_ark_txid | C_failure_reason | C_rfq_id | C_payment_evidence | C_payment_failure_reason
  | C_routing_fee_paid_sats | C_unrolled_claim | C_lockup_outpoints

type_synonym send_raw = "(LnSendSwapState, send_col) raw"
type_synonym send_db = "(LnSendSwapState, send_col) db"

definition TRANSITION_COLUMNS :: "send_col list" where
  "TRANSITION_COLUMNS =
     [C_lockup_txid, C_lockup_vout, C_lockup_value, C_idempotency_key, C_pay_attempted_at,
      C_payment_backend, C_payment_wallet, C_payment_id, C_preimage, C_claim_ark_txid, C_failure_reason,
      C_lockup_outpoints]"

definition PATCH_COLUMNS :: "send_col list" where
  "PATCH_COLUMNS =
     [C_lockup_value, C_payment_id, C_pay_attempted_at, C_refund_ark_txid, C_refund_outcome,
      C_payment_evidence, C_payment_failure_reason, C_refund_attempt, C_payment_backend,
      C_payment_wallet, C_routing_fee_paid_sats, C_unrolled_claim, C_claim_ark_txid]"

record SendSwapRow =
  srId :: string
  srState :: LnSendSwapState
  srCreatedAt :: int
  srUpdatedAt :: int
  srInvoice :: string
  srPaymentHash :: string
  srAmountSats :: int
  srInvoiceExpiresAt :: int
  srQuotedRefundDeadline :: "int option"
  srRefundLocktime :: int
  srSenderPubkey :: string
  srReceiverPubkey :: string
  srServerPubkey :: string
  srClaimDelay :: int
  srRefundDelay :: int
  srRefundWithoutReceiverDelay :: int
  srPkScript :: string
  srLockupAddress :: string
  srRefundPkScript :: "string option"
  srEmulatorPubkey :: "string option"
  srClientRefundPubkey :: "string option"
  srReceiverPkScript :: "string option"
  srNonInteractiveParameters :: "bool option"
  srRefundArkTxid :: "string option"
  srRefundOutcome :: "string option"
  srRefundAttempt :: "string option"
  srPaymentBackend :: "string option"
  srPaymentWallet :: "string option"
  srQuotedRoutingFeeSats :: "int option"
  srLockupTxid :: "string option"
  srLockupVout :: "int option"
  srLockupValue :: "int option"
  srIdempotencyKey :: "string option"
  srPayAttemptedAt :: "int option"
  srPaymentId :: "string option"
  srPreimage :: "string option"
  srClaimArkTxid :: "string option"
  srFailureReason :: "string option"
  srPaymentEvidence :: "string option"
  srPaymentFailureReason :: "string option"
  srRoutingFeePaidSats :: "int option"
  srUnrolledClaim :: "((string \<times> int) \<times> unrolled_step) list option"
  srLockupOutpoints :: "(string \<times> int \<times> int) list option"
  srRfqId :: "string option"

text \<open>\<open>String(raw.x)\<close> on a NOT NULL TEXT column.\<close>

definition toRow :: "send_raw \<Rightarrow> SendSwapRow" where
  "toRow raw = (let c = rwCols raw in
     \<lparr>srId = rwId raw, srState = rwState raw, srCreatedAt = rwCreated raw, srUpdatedAt = rwUpdated raw,
      srInvoice = sql_text (c C_invoice), srPaymentHash = sql_text (c C_payment_hash),
      srAmountSats = sql_int (c C_amount_sats), srInvoiceExpiresAt = sql_int (c C_invoice_expires_at),
      srQuotedRefundDeadline = numberOrNull (c C_quoted_refund_deadline),
      srRefundLocktime = sql_int (c C_refund_locktime), srSenderPubkey = sql_text (c C_sender_pubkey),
      srReceiverPubkey = sql_text (c C_receiver_pubkey), srServerPubkey = sql_text (c C_server_pubkey),
      srClaimDelay = sql_int (c C_claim_delay), srRefundDelay = sql_int (c C_refund_delay),
      srRefundWithoutReceiverDelay = sql_int (c C_refund_without_receiver_delay),
      srPkScript = sql_text (c C_pk_script), srLockupAddress = sql_text (c C_lockup_address),
      srRefundPkScript = textOf (c C_refund_pk_script), srEmulatorPubkey = textOf (c C_emulator_pubkey),
      srClientRefundPubkey = textOf (c C_client_refund_pubkey),
      srReceiverPkScript = textOf (c C_receiver_pk_script),
      srNonInteractiveParameters =
        (if c C_non_interactive_parameters = SNull then None
         else Some (c C_non_interactive_parameters = SText ''1'')),
      srRefundArkTxid = textOf (c C_refund_ark_txid), srRefundOutcome = textOf (c C_refund_outcome),
      srRefundAttempt = textOf (c C_refund_attempt), srPaymentBackend = textOf (c C_payment_backend),
      srPaymentWallet = textOf (c C_payment_wallet),
      srQuotedRoutingFeeSats = numberOrNull (c C_quoted_routing_fee_sats),
      srLockupTxid = textOf (c C_lockup_txid), srLockupVout = numberOrNull (c C_lockup_vout),
      srLockupValue = numberOrNull (c C_lockup_value), srIdempotencyKey = textOf (c C_idempotency_key),
      srPayAttemptedAt = numberOrNull (c C_pay_attempted_at), srPaymentId = textOf (c C_payment_id),
      srPreimage = textOf (c C_preimage), srClaimArkTxid = textOf (c C_claim_ark_txid),
      srFailureReason = textOf (c C_failure_reason), srPaymentEvidence = textOf (c C_payment_evidence),
      srPaymentFailureReason = textOf (c C_payment_failure_reason),
      srRoutingFeePaidSats = numberOrNull (c C_routing_fee_paid_sats),
      srUnrolledClaim = sql_steps (c C_unrolled_claim),
      srLockupOutpoints = sql_outpoints (c C_lockup_outpoints), srRfqId = textOf (c C_rfq_id)\<rparr>)"

definition SHAPE :: "(LnSendSwapState, send_col) StoreShape" where
  "SHAPE =
     \<lparr>shNoun = ''swap'', shLabel = ''swap lifecycle'', shEdges = mEdges LnSendMachine,
      shTransitionColumns = TRANSITION_COLUMNS, shPatchColumns = PATCH_COLUMNS,
      shLive = mLive LnSendMachine, shExposed = mExposed LnSendMachine, shStart = S_quoted,
      shStuck = S_stuck, shRefused = S_refused, shPaymentHash = C_payment_hash, shRfqId = C_rfq_id,
      shPkScript = C_pk_script, shAmount = C_amount_sats, shFailure = C_failure_reason, shLease = None, shOnce = None\<rparr>"

section \<open>Statements of this store\<close>

text \<open>A row that still blocks its hash: not refused, or refused with a lockup not yet returned.\<close>

definition blocks_hash :: "send_raw \<Rightarrow> bool" where
  "blocks_hash r \<longleftrightarrow> rwState r \<noteq> S_refused \<or>
     (sql_int (rwCols r C_lockup_value) > 0 \<and> rwCols r C_refund_outcome = SNull)"

definition findLiveSend :: "string \<Rightarrow> send_db \<Rightarrow> send_raw option" where
  "findLiveSend h d = find (\<lambda>r. rwCols r C_payment_hash = SText h \<and> blocks_hash r) (dbRows d)"

definition findByLockupTxid :: "string \<Rightarrow> send_db \<Rightarrow> send_raw option" where
  "findByLockupTxid txid d = findBy C_lockup_txid txid d"

definition findRefundable :: "int \<Rightarrow> send_db \<Rightarrow> send_raw list" where
  "findRefundable tm d = by_created (filter (\<lambda>r. rwState r = S_refused \<and> rwCols r C_refund_outcome = SNull \<and>
     rwCols r C_refund_pk_script \<noteq> SNull \<and>
     (rwCols r C_client_refund_pubkey \<noteq> SNull \<or> sql_int (rwCols r C_refund_locktime) \<le> tm)) (dbRows d))"

text \<open>\<open>ORDER BY created_at DESC, rowid DESC LIMIT 1\<close>.\<close>

definition findMostRecent :: "send_db \<Rightarrow> send_raw option" where
  "findMostRecent d = first_of (newest_first (rev (dbRows d)))"

record QuoteRecord =
  qrId :: string
  qrInvoice :: string
  qrPaymentHash :: string
  qrAmountSats :: int
  qrInvoiceExpiresAt :: int
  qrQuotedRefundDeadline :: int
  qrRefundLocktime :: int
  qrSenderPubkey :: string
  qrReceiverPubkey :: string
  qrServerPubkey :: string
  qrClaimDelay :: int
  qrRefundDelay :: int
  qrRefundWithoutReceiverDelay :: int
  qrPkScript :: string
  qrLockupAddress :: string
  qrRefundPkScript :: "string option"
  qrEmulatorPubkey :: "string option"
  qrClientRefundPubkey :: "string option"
  qrReceiverPkScript :: "string option"
  qrNonInteractiveParameters :: bool
  qrQuotedRoutingFeeSats :: "int option"
  qrRfqId :: "string option"

definition quote_cols :: "QuoteRecord \<Rightarrow> send_col \<Rightarrow> sqlval" where
  "quote_cols q c = (case c of
      C_invoice \<Rightarrow> SText (qrInvoice q) | C_payment_hash \<Rightarrow> SText (qrPaymentHash q)
    | C_amount_sats \<Rightarrow> SInt (qrAmountSats q) | C_invoice_expires_at \<Rightarrow> SInt (qrInvoiceExpiresAt q)
    | C_quoted_refund_deadline \<Rightarrow> SInt (qrQuotedRefundDeadline q)
    | C_refund_locktime \<Rightarrow> SInt (qrRefundLocktime q) | C_sender_pubkey \<Rightarrow> SText (qrSenderPubkey q)
    | C_receiver_pubkey \<Rightarrow> SText (qrReceiverPubkey q) | C_server_pubkey \<Rightarrow> SText (qrServerPubkey q)
    | C_claim_delay \<Rightarrow> SInt (qrClaimDelay q) | C_refund_delay \<Rightarrow> SInt (qrRefundDelay q)
    | C_refund_without_receiver_delay \<Rightarrow> SInt (qrRefundWithoutReceiverDelay q)
    | C_pk_script \<Rightarrow> SText (qrPkScript q) | C_lockup_address \<Rightarrow> SText (qrLockupAddress q)
    | C_refund_pk_script \<Rightarrow> opt_text (qrRefundPkScript q)
    | C_emulator_pubkey \<Rightarrow> opt_text (qrEmulatorPubkey q)
    | C_client_refund_pubkey \<Rightarrow> opt_text (qrClientRefundPubkey q)
    | C_receiver_pk_script \<Rightarrow> opt_text (qrReceiverPkScript q)
    | C_non_interactive_parameters \<Rightarrow> (if qrNonInteractiveParameters q then SText ''1'' else SNull)
    | C_quoted_routing_fee_sats \<Rightarrow> opt_int (qrQuotedRoutingFeeSats q)
    | C_rfq_id \<Rightarrow> opt_text (qrRfqId q)
    | _ \<Rightarrow> SNull)"

definition quote_row :: "QuoteRecord \<Rightarrow> int \<Rightarrow> send_raw" where
  "quote_row q tm = \<lparr>rwId = qrId q, rwState = S_quoted, rwCreated = tm, rwUpdated = tm, rwCols = quote_cols q\<rparr>"

section \<open>The actions of the send service\<close>

text \<open>
  \<open>PayInvoice id invoice maxFeeSats idempotencyKey maxCltvBlocks\<close>, \<open>ClaimLockup id preimage\<close> (the
  collaborative claim), \<open>ClaimUnrolled id preimage outpoint\<close> (one step of an L1 claim) and
  \<open>RefundLockup id\<close> are the calls that move money. \<open>opens p h\<close> is whether the preimage \<open>p\<close> hashes to
  \<open>h\<close>.
\<close>

datatype send_act =
    St "(LnSendSwapState, send_col) store_act"
  | PayInvoice string string int string int
  | ClaimLockup string string
  | ClaimUnrolled string string "string \<times> int"
  | RefundLockup string

fun store_part :: "send_act \<Rightarrow> (LnSendSwapState, send_col) store_act option" where
  "store_part (St a) = Some a"
| "store_part _ = None"

definition hash_of :: "send_raw \<Rightarrow> string" where
  "hash_of r = sql_text (rwCols r C_payment_hash)"

definition swap_key :: "string \<Rightarrow> string" where
  "swap_key h = ''swap-'' @ h"

text \<open>Does the row hold a preimage of its own payment hash?\<close>

definition opened :: "(string \<Rightarrow> string \<Rightarrow> bool) \<Rightarrow> send_raw \<Rightarrow> bool" where
  "opened opens r = (case rwCols r C_preimage of SText p \<Rightarrow> opens p (hash_of r) | _ \<Rightarrow> False)"

text \<open>
  What the service adds to the rules of a store: a quote is inserted only for a hash nothing blocks
  and carries no payment yet; the idempotency key is written by the entry into \<open>paying\<close> and by
  nothing else, and derives from the payment hash; \<open>claiming\<close> is entered only with a verified
  preimage, and no other step past \<open>paid\<close> touches it.
\<close>

fun send_ok :: "(string \<Rightarrow> string \<Rightarrow> bool) \<Rightarrow> (LnSendSwapState, send_col) store_act \<Rightarrow> send_db \<Rightarrow> bool" where
  "send_ok opens (Insert q) d \<longleftrightarrow>
     (case textOf (rwCols q C_payment_hash) of None \<Rightarrow> False | Some h \<Rightarrow> findLiveSend h d = None) \<and>
     textOf (rwCols q C_invoice) \<noteq> None \<and> rwCols q C_idempotency_key = SNull \<and> rwCols q C_preimage = SNull"
| "send_ok opens (Cas i s t fs tm) d \<longleftrightarrow> (case row_of d i of
     None \<Rightarrow> False
   | Some r \<Rightarrow>
       rwCols (set_fields fs r) C_idempotency_key =
         (if t = S_paying then SText (swap_key (hash_of r)) else rwCols r C_idempotency_key) \<and>
       (t = S_claiming \<longrightarrow> opened opens (set_fields fs r)) \<and>
       (t \<notin> {S_paid, S_claiming} \<longrightarrow> rwCols (set_fields fs r) C_preimage = rwCols r C_preimage))"
| "send_ok opens _ d \<longleftrightarrow> True"

lemma send_ok_Insert [simp]:
  "send_ok opens (Insert q) d \<longleftrightarrow>
     (\<exists>h. rwCols q C_payment_hash = SText h \<and> findLiveSend h d = None) \<and>
     (\<exists>s. rwCols q C_invoice = SText s) \<and> rwCols q C_idempotency_key = SNull \<and> rwCols q C_preimage = SNull"
  by (cases "rwCols q C_payment_hash"; cases "rwCols q C_invoice") simp_all

declare send_ok.simps(1) [simp del]

text \<open>
  The calls that move money: an invoice is paid only for a row that committed to it, under the key of
  that commitment; a lockup is claimed only with the preimage of the row's hash and after the row
  entered \<open>claiming\<close>; a lockup is refunded only once the row left \<open>quoted\<close> and \<open>funded\<close>.
\<close>

definition may_pay :: "send_raw \<Rightarrow> string \<Rightarrow> string \<Rightarrow> bool" where
  "may_pay r invoice key \<longleftrightarrow> rwState r \<notin> {S_quoted, S_funded} \<and> rwCols r C_invoice = SText invoice \<and>
     rwCols r C_idempotency_key = SText key \<and> key = swap_key (hash_of r)"

definition may_claim :: "(string \<Rightarrow> string \<Rightarrow> bool) \<Rightarrow> send_raw \<Rightarrow> string \<Rightarrow> bool" where
  "may_claim opens r p \<longleftrightarrow> rwState r \<in> {S_claiming, S_claimed, S_stuck, S_refused} \<and> opens p (hash_of r)"

definition may_refund :: "send_raw \<Rightarrow> bool" where
  "may_refund r \<longleftrightarrow> rwState r \<notin> {S_quoted, S_funded}"

definition permitted :: "(send_raw \<Rightarrow> bool) \<Rightarrow> string \<Rightarrow> send_db \<Rightarrow> send_db option" where
  "permitted p i d = (case row_of d i of None \<Rightarrow> None | Some r \<Rightarrow> if p r then Some d else None)"

fun exec_send :: "(string \<Rightarrow> string \<Rightarrow> bool) \<Rightarrow> send_act \<Rightarrow> send_db \<Rightarrow> send_db option" where
  "exec_send opens (St a) d = exec_store SHAPE (send_ok opens) a d"
| "exec_send opens (PayInvoice i invoice fee key cltv) d = permitted (\<lambda>r. may_pay r invoice key) i d"
| "exec_send opens (ClaimLockup i p) d = permitted (\<lambda>r. may_claim opens r p) i d"
| "exec_send opens (ClaimUnrolled i p _) d = permitted (\<lambda>r. may_claim opens r p) i d"
| "exec_send opens (RefundLockup i) d = permitted may_refund i d"

section \<open>The store contract for this table\<close>

lemma permitted_Some: "permitted p i d = Some d' \<longleftrightarrow> d' = d \<and> (\<exists>r. row_of d i = Some r \<and> p r)"
  by (auto simp: permitted_def split: option.splits if_splits)

interpretation send_store: swap_store LnSendMachine S_quoted S_refused S_stuck S_paying
  "{S_paid, S_stuck, S_refused, S_claiming, S_claimed}" SHAPE "send_ok opens" "exec_send opens"
  store_part
  for opens
proof unfold_locales
  fix s t
  show "t \<in> set (shEdges SHAPE s) \<longleftrightarrow> canTransition LnSendMachine s t"
    by (cases s) (simp_all add: SHAPE_def canTransition_def lnSend_edges)
next
  fix a d d'
  assume "exec_send opens a d = Some d'"
  then show "case store_part a of None \<Rightarrow> d' = d | Some b \<Rightarrow> exec_store SHAPE (send_ok opens) b d = Some d'"
    by (cases a) (auto simp: permitted_Some)
qed (auto simp: SHAPE_def TRANSITION_COLUMNS_def PATCH_COLUMNS_def isExposed_def isLive_def)

section \<open>The invariant of the table\<close>

definition row_ok :: "(string \<Rightarrow> string \<Rightarrow> bool) \<Rightarrow> send_raw \<Rightarrow> bool" where
  "row_ok opens r \<longleftrightarrow>
     (\<exists>h. rwCols r C_payment_hash = SText h) \<and> (\<exists>s. rwCols r C_invoice = SText s) \<and>
     rwCols r C_idempotency_key \<in> {SNull, SText (swap_key (hash_of r))} \<and>
     (rwState r \<in> {S_quoted, S_funded} \<longrightarrow> rwCols r C_idempotency_key = SNull) \<and>
     (rwState r \<in> {S_paying, S_paid} \<longrightarrow> rwCols r C_idempotency_key \<noteq> SNull) \<and>
     (rwState r \<in> {S_claiming, S_claimed} \<longrightarrow> opened opens r)"

definition one_live_per_hash :: "send_db \<Rightarrow> bool" where
  "one_live_per_hash d \<longleftrightarrow> (\<forall>i j r q. row_of d i = Some r \<longrightarrow> row_of d j = Some q \<longrightarrow>
     hash_of r = hash_of q \<longrightarrow> rwState r \<noteq> S_refused \<longrightarrow> rwState q \<noteq> S_refused \<longrightarrow> i = j)"

definition send_inv :: "(string \<Rightarrow> string \<Rightarrow> bool) \<Rightarrow> send_db \<Rightarrow> bool" where
  "send_inv opens d \<longleftrightarrow> ids_distinct d \<and> (\<forall>i r. row_of d i = Some r \<longrightarrow> row_ok opens r) \<and> one_live_per_hash d"

text \<open>A row is fixed where neither a patch nor a lease of this store may write.\<close>

lemma still_cols:
  assumes "exec_store SHAPE (send_ok opens) a d = Some d'" and "row_of d i = Some r"
    and "\<forall>s t fs tm. a \<noteq> Cas i s t fs tm"
  obtains r' where "row_of d' i = Some r'" "rwState r' = rwState r"
    "rwCols r' C_payment_hash = rwCols r C_payment_hash" "rwCols r' C_invoice = rwCols r C_invoice"
    "rwCols r' C_idempotency_key = rwCols r C_idempotency_key" "rwCols r' C_preimage = rwCols r C_preimage"
proof -
  have c: "c \<notin> set (shPatchColumns SHAPE) \<union> set_option (shLease SHAPE) \<union> set_option (shOnce SHAPE)"
    if "c \<in> {C_payment_hash, C_invoice, C_idempotency_key, C_preimage}" for c
    using that by (auto simp: SHAPE_def PATCH_COLUMNS_def)
  show ?thesis using store_row_still [OF assms] c that by blast
qed

lemma opened_cong:
  "rwCols q C_preimage = rwCols r C_preimage \<Longrightarrow> rwCols q C_payment_hash = rwCols r C_payment_hash \<Longrightarrow>
     opened opens q = opened opens r"
  by (simp add: opened_def hash_of_def split: sqlval.split)

lemma cas_cols:
  assumes "exec_store SHAPE (send_ok opens) (Cas i s t fs tm) d = Some d'" and "row_of d i = Some r"
    and "ids_distinct d"
  obtains r' where "row_of d' i = Some r'" "rwState r = s" "rwState r' = t" "canTransition LnSendMachine s t"
    "rwCols r' C_payment_hash = rwCols r C_payment_hash" "rwCols r' C_invoice = rwCols r C_invoice"
    "rwCols r' C_idempotency_key =
       (if t = S_paying then SText (swap_key (hash_of r)) else rwCols r C_idempotency_key)"
    "t = S_claiming \<Longrightarrow> opened opens r'" "t \<notin> {S_paid, S_claiming} \<Longrightarrow> rwCols r' C_preimage = rwCols r C_preimage"
proof -
  let ?r = "(set_fields fs r)\<lparr>rwState := t, rwUpdated := tm\<rparr>"
  have "fst ` set fs \<subseteq> set TRANSITION_COLUMNS" and ok: "send_ok opens (Cas i s t fs tm) d"
    using assms(1) by (simp_all add: SHAPE_def del: send_ok.simps split: if_split_asm)
  then have "C_invoice \<notin> fst ` set fs" by (auto simp: TRANSITION_COLUMNS_def)
  moreover have "opened opens (set_fields fs r) \<longleftrightarrow> opened opens ?r" by (rule opened_cong) simp_all
  ultimately show ?thesis
    using send_store.store_row_cas [OF assms] ok assms(2) that [of ?r] by (auto simp: SHAPE_def)
qed

lemma store_keeps_row_ok:
  assumes "exec_store SHAPE (send_ok opens) a d = Some d'" and "send_inv opens d" and "row_of d' i = Some r'"
  shows "row_ok opens r'"
proof (cases "row_of d i")
  case None
  with store_row_back [OF assms(1,3)] assms(1)
  show ?thesis by (auto simp: row_ok_def SHAPE_def split: if_splits)
next
  case (Some r)
  then have r: "row_ok opens r" and d: "ids_distinct d" using assms(2) by (auto simp: send_inv_def)
  show ?thesis
  proof (cases "\<exists>s t fs tm. a = Cas i s t fs tm")
    case True
    then obtain s t fs tm where a: "a = Cas i s t fs tm" by blast
    obtain q where q: "row_of d' i = Some q" "rwState r = s" "rwState q = t" "canTransition LnSendMachine s t"
      "rwCols q C_payment_hash = rwCols r C_payment_hash" "rwCols q C_invoice = rwCols r C_invoice"
      "rwCols q C_idempotency_key =
         (if t = S_paying then SText (swap_key (hash_of r)) else rwCols r C_idempotency_key)"
      "t = S_claiming \<Longrightarrow> opened opens q" "t \<notin> {S_paid, S_claiming} \<Longrightarrow> rwCols q C_preimage = rwCols r C_preimage"
      using cas_cols [OF assms(1) [unfolded a] Some d] by metis
    with r opened_cong [of q r opens] have "row_ok opens q"
      by (cases s; cases t; simp add: row_ok_def hash_of_def)
    with assms(3) q(1) show ?thesis by simp
  next
    case False
    obtain q where q: "row_of d' i = Some q" "rwState q = rwState r"
      "rwCols q C_payment_hash = rwCols r C_payment_hash" "rwCols q C_invoice = rwCols r C_invoice"
      "rwCols q C_idempotency_key = rwCols r C_idempotency_key" "rwCols q C_preimage = rwCols r C_preimage"
      using still_cols [OF assms(1) Some] False by metis
    with r opened_cong [of q r opens] have "row_ok opens q" by (simp add: row_ok_def hash_of_def)
    with assms(3) q(1) show ?thesis by simp
  qed
qed

text \<open>Where a row came from: itself before the action, not refused if it is not now, or a fresh quote.\<close>

lemma row_origin:
  assumes "exec_store SHAPE (send_ok opens) a d = Some d'" and "ids_distinct d" and "row_of d' i = Some r'"
  obtains (old) r where "row_of d i = Some r" "hash_of r' = hash_of r"
      "rwState r' \<noteq> S_refused \<Longrightarrow> rwState r \<noteq> S_refused"
    | (fresh) "a = Insert r'" "row_of d i = None" "rwId r' = i"
proof (cases "row_of d i")
  case None
  with store_row_back [OF assms(1,3)] fresh show ?thesis by auto
next
  case (Some r)
  obtain q where q: "row_of d' i = Some q" "mpath LnSendMachine (rwState r) (edge_of i a) (rwState q)"
    "rwCols q C_payment_hash = rwCols r C_payment_hash"
    using send_store.store_row [OF assms(1) Some assms(2)] by (auto simp: SHAPE_def)
  then have "rwState r = S_refused \<Longrightarrow> rwState q = S_refused"
    using ln_send.refused_stays [of "edge_of i a" "rwState q"] by simp
  with old [OF Some] q assms(3) show ?thesis by (auto simp: hash_of_def)
qed

lemma no_live_row: "findLiveSend h d = None \<Longrightarrow> row_of d i = Some r \<Longrightarrow> row_ok opens r \<Longrightarrow>
    hash_of r = h \<Longrightarrow> rwState r = S_refused"
  using row_of_Some [of d i r]
  by (auto simp: findLiveSend_def find_None_iff blocks_hash_def row_ok_def hash_of_def)

lemma store_keeps_one_live:
  assumes "exec_store SHAPE (send_ok opens) a d = Some d'" and inv: "send_inv opens d"
  shows "one_live_per_hash d'"
proof -
  have ids: "ids_distinct d" and ok: "\<And>i r. row_of d i = Some r \<Longrightarrow> row_ok opens r"
    and one: "one_live_per_hash d" using inv by (auto simp: send_inv_def)
  have fresh: "rwState r = S_refused"
    if "a = Insert q" "row_of d i = Some r" "hash_of r = hash_of q" for q i r
    using no_live_row [OF _ that(2) ok [OF that(2)]] assms(1) that
    by (auto simp: hash_of_def split: if_splits)
  show ?thesis unfolding one_live_per_hash_def
  proof (intro allI impI)
    fix i j r q
    assume r: "row_of d' i = Some r" and q: "row_of d' j = Some q" and h: "hash_of r = hash_of q"
      and live: "rwState r \<noteq> S_refused" "rwState q \<noteq> S_refused"
    show "i = j"
    proof (rule row_origin [OF assms(1) ids r]; rule row_origin [OF assms(1) ids q])
      fix r0 q0
      assume "row_of d i = Some r0" "hash_of r = hash_of r0" "rwState r \<noteq> S_refused \<Longrightarrow> rwState r0 \<noteq> S_refused"
        "row_of d j = Some q0" "hash_of q = hash_of q0" "rwState q \<noteq> S_refused \<Longrightarrow> rwState q0 \<noteq> S_refused"
      with one h live show "i = j" unfolding one_live_per_hash_def by metis
    qed (use fresh h live in \<open>metis store_act.inject(1)\<close>)+
  qed
qed

lemma exec_keeps_send_inv:
  assumes "exec_send opens a d = Some d'" and "send_inv opens d"
  shows "send_inv opens d'"
proof (cases a)
  case (St b)
  then have b: "exec_store SHAPE (send_ok opens) b d = Some d'" using assms(1) by simp
  show ?thesis unfolding send_inv_def
    using store_ids [OF b] store_keeps_row_ok [OF b assms(2)] store_keeps_one_live [OF b assms(2)]
      assms(2) by (auto simp: send_inv_def)
qed (use assms in \<open>auto simp: permitted_Some\<close>)

lemma run_keeps_send_inv:
  "run_all (exec_send opens) as d = Some d' \<Longrightarrow> send_inv opens d \<Longrightarrow> send_inv opens d'"
  by (rule run_all_keeps) (auto intro: exec_keeps_send_inv)

section \<open>Paying at most once\<close>

text \<open>A row carries a key only after its commit, so a payment is always preceded by one.\<close>

lemma key_after_commit:
  assumes "run_all (exec_send opens) as d = Some d'" and "ids_distinct d" and "row_of d' i = Some r'"
    and "rwCols r' C_idempotency_key \<noteq> SNull"
    and "\<forall>r. row_of d i = Some r \<longrightarrow> rwCols r C_idempotency_key = SNull"
  shows "S_paying \<in> snd ` set (edges_in store_part i as)"
  using assms
proof (induction as arbitrary: d)
  case (Cons a as)
  obtain d1 where d1: "exec_send opens a d = Some d1" "run_all (exec_send opens) as d1 = Some d'"
    using Cons.prems(1) by (auto split: option.splits)
  have ids: "ids_distinct d1" using send_store.exec_ids [OF d1(1) Cons.prems(2)] .
  show ?case
  proof (cases "\<exists>s fs tm. a = St (Cas i s S_paying fs tm)")
    case False
    have "rwCols r1 C_idempotency_key = SNull" if r1: "row_of d1 i = Some r1" for r1
    proof (cases a)
      case (St b)
      then have b: "exec_store SHAPE (send_ok opens) b d = Some d1" using d1(1) by simp
      show ?thesis
      proof (cases "row_of d i")
        case None
        with store_row_back [OF b r1] b show ?thesis by (auto split: if_splits)
      next
        case (Some r)
        with False St cas_cols [of opens i _ _ _ _ d d1 r] still_cols [OF b Some] b Cons.prems(2,5) r1
        show ?thesis by (metis option.inject)
      qed
    qed (use d1(1) r1 Cons.prems(5) in \<open>auto simp: permitted_Some\<close>)
    then show ?thesis using Cons.IH [OF d1(2) ids Cons.prems(3,4)] by (simp add: image_Un)
  qed auto
qed auto

text \<open>The database before anything was quoted.\<close>

definition empty_db :: send_db where
  "empty_db = \<lparr>dbRows = [], dbEvents = []\<rparr>"

lemma empty_inv: "send_inv opens empty_db"
  by (simp add: send_inv_def empty_db_def ids_distinct_def one_live_per_hash_def row_of_def)

text \<open>
  C1: the promise of the send table, for every interleaving of any number of workers. Whatever
  sequence of service actions led to the present database, no two swaps that are not refused share a
  payment hash; the commit into \<open>paying\<close> was won at most once per swap; an invoice was paid only
  after that commit and always under the key derived from its payment hash; and every row in
  \<open>claiming\<close> or \<open>claimed\<close> holds a preimage of its own hash.
\<close>

theorem service_pays_once:
  assumes "run_all (exec_send opens) as empty_db = Some d"
  shows "one_live_per_hash d \<and>
    (\<forall>i. length (filter (\<lambda>e. snd e = S_paying) (edges_in store_part i as)) \<le> 1) \<and>
    (\<forall>bs i inv fee key cltv cs. as = bs @ PayInvoice i inv fee key cltv # cs \<longrightarrow>
       S_paying \<in> snd ` set (edges_in store_part i bs) \<and>
       (\<exists>r. row_of d i = Some r \<and> rwCols r C_payment_hash = SText (hash_of r) \<and> key = swap_key (hash_of r))) \<and>
    (\<forall>i r. row_of d i = Some r \<longrightarrow> rwState r \<in> {S_claiming, S_claimed} \<longrightarrow> opened opens r)"
proof (intro conjI allI impI)
  have inv: "send_inv opens d" using run_keeps_send_inv [OF assms empty_inv] .
  then show "one_live_per_hash d" by (simp add: send_inv_def)
  fix i
  show "length (filter (\<lambda>e. snd e = S_paying) (edges_in store_part i as)) \<le> 1"
    using send_store.run_commit_once [OF assms] by (simp add: empty_db_def ids_distinct_def)
  show "opened opens r" if "row_of d i = Some r" "rwState r \<in> {S_claiming, S_claimed}" for r
    using inv that by (auto simp: send_inv_def row_ok_def)
next
  fix bs i inv fee key cltv cs
  assume as: "as = bs @ PayInvoice i inv fee key cltv # cs"
  obtain d1 where d1: "run_all (exec_send opens) bs empty_db = Some d1"
    and rest: "run_all (exec_send opens) (PayInvoice i inv fee key cltv # cs) d1 = Some d"
    using assms unfolding as by (auto split: option.splits)
  have inv1: "send_inv opens d1" using run_keeps_send_inv [OF d1 empty_inv] .
  obtain r where r: "row_of d1 i = Some r" "may_pay r inv key"
    using rest by (auto simp: permitted_def split: option.splits if_splits)
  show "S_paying \<in> snd ` set (edges_in store_part i bs)"
    by (rule key_after_commit [OF d1 _ r(1)])
      (use r(2) in \<open>auto simp: empty_db_def ids_distinct_def row_of_def may_pay_def\<close>)
  obtain r' where "row_of d i = Some r'" "rwCols r' C_payment_hash = rwCols r C_payment_hash"
    using send_store.run_row [OF rest r(1)] inv1 by (auto simp: send_inv_def SHAPE_def)
  moreover have "row_ok opens r'"
    using run_keeps_send_inv [OF assms empty_inv] \<open>row_of d i = Some r'\<close> by (auto simp: send_inv_def)
  ultimately show "\<exists>r. row_of d i = Some r \<and> rwCols r C_payment_hash = SText (hash_of r) \<and>
      key = swap_key (hash_of r)"
    using r(2) by (auto simp: may_pay_def hash_of_def row_ok_def)
qed

definition sample_quote_record :: QuoteRecord where
  "sample_quote_record =
     \<lparr>qrId = ''a'', qrInvoice = ''lnbcrt1'', qrPaymentHash = ''ff'', qrAmountSats = 1000,
      qrInvoiceExpiresAt = 1700003600, qrQuotedRefundDeadline = 1700100000, qrRefundLocktime = 1700100000,
      qrSenderPubkey = ''02'', qrReceiverPubkey = ''02'', qrServerPubkey = ''03'', qrClaimDelay = 512,
      qrRefundDelay = 1024, qrRefundWithoutReceiverDelay = 102400, qrPkScript = ''51'',
      qrLockupAddress = ''tark1'', qrRefundPkScript = Some ''52'', qrEmulatorPubkey = Some ''04'',
      qrClientRefundPubkey = Some ''05'', qrReceiverPkScript = Some ''53'',
      qrNonInteractiveParameters = True, qrQuotedRoutingFeeSats = Some 25, qrRfqId = None\<rparr>"

definition sample_acts :: "send_act list" where
  "sample_acts =
     [St (Insert (quote_row sample_quote_record 0)),
      St (Cas ''a'' S_quoted S_funded [(C_lockup_value, SInt 1000)] 1),
      St (Cas ''a'' S_funded S_paying [(C_idempotency_key, SText ''swap-ff'')] 2),
      PayInvoice ''a'' ''lnbcrt1'' 25 ''swap-ff'' 100]"

lemma sample_acts_run: "run_all (exec_send opens) sample_acts empty_db \<noteq> None"
  by (simp add: sample_acts_def sample_quote_record_def quote_row_def quote_cols_def empty_db_def SHAPE_def
      findLiveSend_def TRANSITION_COLUMNS_def cas_def update_rows_def row_of_def set_fields_def
      permitted_def may_pay_def hash_of_def swap_key_def lnSend_edges spec_of_def lnSendTable_def)

theorem service_pays_once_witness:
  "\<exists>d. run_all (exec_send (=)) sample_acts empty_db = Some d \<and>
     length (filter (\<lambda>e. snd e = S_paying) (edges_in store_part ''a'' sample_acts)) \<le> 1"
  using sample_acts_run [of "(=)"] service_pays_once [of "(=)" sample_acts] by blast

section \<open>Workers on the send table\<close>

interpretation send_service: service LnSendMachine S_quoted S_refused S_stuck S_paying
  "{S_paid, S_stuck, S_refused, S_claiming, S_claimed}" SHAPE "send_ok opens" "exec_send opens"
  store_part St
  for opens
  by unfold_locales simp_all

interpretation send_worker: interference "exec_send opens" "tracks (exec_send opens) d0 (send_inv opens)"
  for opens d0
  by (rule send_service.tracks_interference) (auto simp: stable_def intro: exec_keeps_send_inv)

type_synonym send_store = "(LnSendSwapState, send_col, send_act) store"
type_synonym 'a send_job = "(LnSendSwapState, send_col, send_act, 'a) job"
type_synonym send_schedule = "(send_db, send_act) schedule"

definition swap_store_on :: "(string \<Rightarrow> string \<Rightarrow> bool) \<Rightarrow> send_schedule \<Rightarrow> send_store" where
  "swap_store_on opens sc = \<lparr>soShape = SHAPE, soExec = exec_send opens, soAct = St, soSchedule = sc\<rparr>"

definition get_swap :: "send_store \<Rightarrow> string \<Rightarrow> SendSwapRow send_job" where
  "get_swap st i = bnd (getRow st i) (\<lambda>r. ret (toRow r))"

text \<open>\<open>INSERT ... SELECT ... WHERE NOT EXISTS\<close>; a taken primary key is the driver's own error.\<close>

definition insertQuote :: "send_store \<Rightarrow> QuoteRecord \<Rightarrow> SendSwapRow send_job" where
  "insertQuote st q =
     bnd (now (soSchedule st)) (\<lambda>tm.
     bnd (write_db (soExec st) (soSchedule st) (\<lambda>d.
       if findLiveSend (qrPaymentHash q) d \<noteq> None then ([], Inr False, d)
       else if row_of d (qrId q) \<noteq> None
       then ([], Inl (UniqueConstraint ''UNIQUE constraint failed: send_swap.id''), d)
       else ([soAct st (Insert (quote_row q tm))], Inr True, d\<lparr>dbRows := dbRows d @ [quote_row q tm]\<rparr>)))
     (\<lambda>res. case res of
        Inl e \<Rightarrow> throw e
      | Inr inserted \<Rightarrow>
          if \<not> inserted
          then throw (UniqueConstraint ''UNIQUE constraint failed: send_swap.payment_hash'')
          else thn (recordEvent st (qrId q) None S_quoted None) (get_swap st (qrId q))))"

definition funding_detail :: "FundedOutput \<Rightarrow> string" where
  "funding_detail o1 = ''funding '' @ foTxid o1 @ '':'' @ show_int (foVout o1) @ dash @
     toLocaleString (foValue o1) @ '' sats''"

fun note_each :: "send_store \<Rightarrow> string \<Rightarrow> LnSendSwapState \<Rightarrow> string list \<Rightarrow> FundedOutput list \<Rightarrow> unit send_job" where
  "note_each st i s already [] = ret ()"
| "note_each st i s already (o1 # outs) =
     (if funding_detail o1 \<in> set already then note_each st i s already outs
      else thn (recordEvent st i (Some s) s (Some (funding_detail o1)))
        (note_each st i s (funding_detail o1 # already) outs))"

definition noteFundings :: "send_store \<Rightarrow> string \<Rightarrow> FundedOutput list \<Rightarrow> unit send_job" where
  "noteFundings st i outputs =
     (if outputs = [] then ret ()
      else bnd (read_db (soExec st) (soSchedule st) (\<lambda>d. Inr (row_of d i))) (\<lambda>found.
        case found of
          None \<Rightarrow> ret ()
        | Some r \<Rightarrow>
            bnd (read_db (soExec st) (soSchedule st) (\<lambda>d. Inr (map (\<lambda>e. the (evDetail e))
              (filter (\<lambda>e. evSwap e = i \<and> evDetail e \<noteq> None \<and> take 8 (the (evDetail e)) = ''funding '')
                (dbEvents d))))) (\<lambda>seen.
            note_each st i (rwState r) seen outputs)))"

text \<open>The override of \<open>patch\<close>: a refund outcome also leaves a note in the history.\<close>

definition patchSwap :: "send_store \<Rightarrow> string \<Rightarrow> send_col fields \<Rightarrow> unit send_job" where
  "patchSwap st i fs =
     (case map_of fs C_refund_outcome of
        None \<Rightarrow> patch st i fs
      | Some outcome \<Rightarrow>
          bnd (read_db (soExec st) (soSchedule st) (\<lambda>d. Inr (row_of d i))) (\<lambda>before.
          thn (patch st i fs)
          (case outcome of
             SText o1 \<Rightarrow>
               (case before of
                  None \<Rightarrow> ret ()
                | Some r \<Rightarrow> recordEvent st i (Some (rwState r)) (rwState r)
                    (Some (''refund '' @ o1 @
                      (case map_of fs C_refund_ark_txid of Some (SText t) \<Rightarrow> '' '' @ t | _ \<Rightarrow> []))))
           | _ \<Rightarrow> ret ())))"

section \<open>What a worker knows of a row it read\<close>

text \<open>
  A snapshot ages while its worker awaits, but not in everything: the hash and the invoice are fixed, an
  idempotency key once written stays, a row never returns to \<open>quoted\<close> or \<open>funded\<close>, and one seen
  \<open>claiming\<close> (or parked after it) with its preimage holds one for good.
\<close>

definition committed :: "LnSendSwapState set" where
  "committed = {S_paying, S_paid, S_claiming, S_claimed, S_refused, S_stuck}"

definition collecting :: "LnSendSwapState set" where
  "collecting = {S_claiming, S_claimed, S_stuck, S_refused}"

definition knows :: "(string \<Rightarrow> string \<Rightarrow> bool) \<Rightarrow> SendSwapRow \<Rightarrow> send_db \<Rightarrow> bool" where
  "knows opens row d \<longleftrightarrow> send_inv opens d \<and> (\<exists>r. row_of d (srId row) = Some r \<and>
     rwCols r C_payment_hash = SText (srPaymentHash row) \<and> rwCols r C_invoice = SText (srInvoice row) \<and>
     (\<forall>k. srIdempotencyKey row = Some k \<longrightarrow> rwCols r C_idempotency_key = SText k) \<and>
     (srState row \<in> committed \<longrightarrow> rwState r \<in> committed) \<and>
     (srState row \<in> collecting \<longrightarrow> rwState r \<in> collecting) \<and>
     (srState row = S_claiming \<longrightarrow> (\<exists>p. srPreimage row = Some p \<and> opens p (srPaymentHash row))) \<and>
     (srState row \<in> collecting \<and> (\<exists>p. srPreimage row = Some p \<and> opens p (srPaymentHash row)) \<longrightarrow>
        opened opens r))"

lemma stable_send_inv [intro]: "stable (exec_send opens) (send_inv opens)"
  by (auto simp: stable_def intro: exec_keeps_send_inv)

lemma key_kept:
  assumes "exec_send opens a d = Some d'" and "send_inv opens d" and "row_of d i = Some r"
  obtains r' where "row_of d' i = Some r'" "rwCols r' C_payment_hash = rwCols r C_payment_hash"
    "rwCols r' C_invoice = rwCols r C_invoice"
    "\<And>k. rwCols r C_idempotency_key = SText k \<Longrightarrow> rwCols r' C_idempotency_key = SText k"
    "rwState r \<in> collecting \<Longrightarrow> opened opens r \<Longrightarrow> opened opens r'"
proof (cases a)
  case (St b)
  then have b: "exec_store SHAPE (send_ok opens) b d = Some d'" using assms(1) by simp
  have ids: "ids_distinct d" and r: "row_ok opens r" using assms(2,3) by (auto simp: send_inv_def)
  show ?thesis
  proof (cases "\<exists>s t fs tm. b = Cas i s t fs tm")
    case True
    then obtain s t fs tm where c: "b = Cas i s t fs tm" by blast
    obtain r' where r': "row_of d' i = Some r'" "rwCols r' C_payment_hash = rwCols r C_payment_hash"
      "rwCols r' C_invoice = rwCols r C_invoice" "rwCols r' C_idempotency_key =
       (if t = S_paying then SText (swap_key (hash_of r)) else rwCols r C_idempotency_key)"
      "rwState r = s" "canTransition LnSendMachine s t" "t = S_claiming \<Longrightarrow> opened opens r'"
      "t \<notin> {S_paid, S_claiming} \<Longrightarrow> rwCols r' C_preimage = rwCols r C_preimage"
      using cas_cols [OF b [unfolded c] assms(3) ids] by metis
    have "opened opens r'" if "rwState r \<in> collecting" "opened opens r"
      using that r'(2,5-8) opened_cong [of r' r opens] by (cases s; cases t) (auto simp: collecting_def)
    then show ?thesis by (intro that [OF r'(1-3)]) (use r r'(4) in \<open>auto simp: row_ok_def\<close>)
  next
    case False
    obtain r' where r': "row_of d' i = Some r'" "rwCols r' C_payment_hash = rwCols r C_payment_hash"
      "rwCols r' C_invoice = rwCols r C_invoice"
      "rwCols r' C_idempotency_key = rwCols r C_idempotency_key" "rwCols r' C_preimage = rwCols r C_preimage"
      using still_cols [OF b assms(3)] False by metis
    show ?thesis by (rule that [OF r'(1-3)]) (use r' opened_cong [of r' r opens] in auto)
  qed
qed (use assms that in \<open>auto simp: permitted_Some\<close>)

lemma committed_closed: "a \<in> committed \<Longrightarrow> canTransition LnSendMachine a b \<Longrightarrow> b \<in> committed"
  by (cases a) (auto simp: committed_def)

lemma collecting_closed: "a \<in> collecting \<Longrightarrow> canTransition LnSendMachine a b \<Longrightarrow> b \<in> collecting"
  by (cases a) (auto simp: collecting_def)

lemma stable_knows [intro]: "stable (exec_send opens) (knows opens row)"
  unfolding stable_def
proof (intro allI impI)
  fix a d d'
  assume k: "knows opens row d" and ids: "ids_distinct d" and e: "exec_send opens a d = Some d'"
  then obtain r where r: "row_of d (srId row) = Some r" and inv: "send_inv opens d"
    by (auto simp: knows_def)
  obtain r' where r': "row_of d' (srId row) = Some r'" "rwCols r' C_payment_hash = rwCols r C_payment_hash"
    "rwCols r' C_invoice = rwCols r C_invoice"
    "\<And>k. rwCols r C_idempotency_key = SText k \<Longrightarrow> rwCols r' C_idempotency_key = SText k"
    "rwState r \<in> collecting \<Longrightarrow> opened opens r \<Longrightarrow> opened opens r'"
    using key_kept [OF e inv r] by metis
  obtain es where path: "mpath LnSendMachine (rwState r) es (rwState r')"
    using send_store.exec_row [OF e r ids] r'(1) by auto
  have "rwState r' \<in> committed" if "rwState r \<in> committed"
    by (rule mpath_closed [OF path that]) (rule committed_closed)
  moreover have "rwState r' \<in> collecting" if "rwState r \<in> collecting"
    by (rule mpath_closed [OF path that]) (rule collecting_closed)
  moreover have "rwCols r C_payment_hash = SText (srPaymentHash row) \<and> rwCols r C_invoice = SText (srInvoice row) \<and>
     (\<forall>k. srIdempotencyKey row = Some k \<longrightarrow> rwCols r C_idempotency_key = SText k) \<and>
     (srState row \<in> committed \<longrightarrow> rwState r \<in> committed) \<and>
     (srState row \<in> collecting \<longrightarrow> rwState r \<in> collecting) \<and>
     (srState row = S_claiming \<longrightarrow> (\<exists>p. srPreimage row = Some p \<and> opens p (srPaymentHash row))) \<and>
     (srState row \<in> collecting \<and> (\<exists>p. srPreimage row = Some p \<and> opens p (srPaymentHash row)) \<longrightarrow>
        opened opens r)"
    using k unfolding knows_def r by simp
  ultimately show "knows opens row d'"
    unfolding knows_def using r' exec_keeps_send_inv [OF e inv] by simp
qed

lemma opened_Some: "opened opens r \<longleftrightarrow> (\<exists>p. textOf (rwCols r C_preimage) = Some p \<and> opens p (hash_of r))"
  by (cases "rwCols r C_preimage") (auto simp: opened_def)

lemma toRow_sel [simp]:
  "srId (toRow r) = rwId r" "srState (toRow r) = rwState r" "srInvoice (toRow r) = sql_text (rwCols r C_invoice)"
  "srPaymentHash (toRow r) = hash_of r" "srIdempotencyKey (toRow r) = textOf (rwCols r C_idempotency_key)"
  "srPreimage (toRow r) = textOf (rwCols r C_preimage)"
  by (simp_all add: toRow_def Let_def hash_of_def)

lemma knows_read:
  assumes "send_inv opens d" and "row_of d i = Some r"
  shows "knows opens (toRow r) d"
proof -
  have i: "rwId r = i" using row_of_Some [OF assms(2)] by simp
  have ok: "row_ok opens r" using assms by (auto simp: send_inv_def)
  then have "rwCols r C_payment_hash = SText (hash_of r)"
    "rwCols r C_invoice = SText (sql_text (rwCols r C_invoice))"
    by (auto simp: row_ok_def hash_of_def)
  moreover have "rwState r = S_claiming \<Longrightarrow> opened opens r" using ok by (simp add: row_ok_def)
  ultimately show ?thesis using assms i
    unfolding knows_def by (auto simp: textOf_Some opened_Some)
qed

lemma knows_inv: "knows opens row d \<Longrightarrow> send_inv opens d"
  by (simp add: knows_def)

section \<open>The methods keep the log in step\<close>

named_theorems send_keep

abbreviation follows ::
    "(string \<Rightarrow> string \<Rightarrow> bool) \<Rightarrow> send_db \<Rightarrow> (send_db \<Rightarrow> bool) \<Rightarrow> (send_db, send_act) world \<Rightarrow> bool" where
  "follows opens d0 K \<equiv> tracks (exec_send opens) d0 K"

lemma on_here: "swap_store_on opens sc = \<lparr>soShape = SHAPE, soExec = exec_send opens, soAct = St, soSchedule = sc\<rparr>"
  by (rule swap_store_on_def)

lemma keeps_now_send [send_keep]: "stable (exec_send opens) K \<Longrightarrow> keeps (follows opens d0 K) (now sc)"
  by (rule send_service.keeps_now')

lemma keeps_ask_send [send_keep]: "stable (exec_send opens) K \<Longrightarrow> keeps (follows opens d0 K) (ask (exec_send opens) sc f)"
  by (rule send_service.keeps_ask')

lemma keeps_read_send [send_keep]:
  "stable (exec_send opens) K \<Longrightarrow> keeps (follows opens d0 K) (read_db (exec_send opens) sc f)"
  by (rule send_service.keeps_read')

lemma plain_cas_ok:
  assumes "row_of d i = Some r" and "t \<noteq> S_paying" and "t \<noteq> S_claiming"
    and "C_idempotency_key \<notin> fst ` set fs" and "t \<noteq> S_paid \<Longrightarrow> C_preimage \<notin> fst ` set fs"
  shows "send_ok opens (Cas i s t fs tm) d"
  using assms by simp

lemma keeps_plain_transition [send_keep]:
  assumes "stable (exec_send opens) K" and "t \<noteq> S_paying" and "t \<noteq> S_claiming"
    and "C_idempotency_key \<notin> fst ` set fs" and "t \<noteq> S_paid \<Longrightarrow> C_preimage \<notin> fst ` set fs"
  shows "keeps (follows opens d0 K) (transition (swap_store_on opens sc) i s t fs)"
  unfolding on_here by (rule send_service.keeps_transition [OF assms(1)]) (rule plain_cas_ok [OF _ assms(2-5)])

lemma spec_plain_transition:
  assumes "stable (exec_send opens) K" and "t \<noteq> S_paying" and "t \<noteq> S_claiming"
    and "C_idempotency_key \<notin> fst ` set fs" and "t \<noteq> S_paid \<Longrightarrow> C_preimage \<notin> fst ` set fs"
    and "stable (exec_send opens) L" "\<And>d d' r. K d \<Longrightarrow> row_of d' i = Some r \<Longrightarrow> rwState r = t \<Longrightarrow> L d'"
    and "\<And>d. K d \<Longrightarrow> \<exists>r. row_of d i = Some r"
  shows "spec (follows opens d0 K) (transition (swap_store_on opens sc) i s t fs)
    (\<lambda>r w. follows opens d0 K w \<and> (\<forall>won. r = Inr won \<longrightarrow> won \<longrightarrow> L (wDb w)))"
  unfolding on_here
proof (rule send_service.spec_transition [OF assms(1) _ assms(6)])
  fix d d' tm
  assume K: "K d" and ids: "ids_distinct d" and e: "exec_send opens (St (Cas i s t fs tm)) d = Some d'"
  obtain r where "row_of d i = Some r" using assms(8) [OF K] by blast
  then obtain r' where "row_of d' i = Some r'" "rwState r' = t"
    using cas_cols [of opens i s t fs tm d d' r] e ids by (metis exec_send.simps(1))
  then show "L d'" using assms(7) [OF K] by blast
qed (rule plain_cas_ok [OF _ assms(2-5)])

lemma keeps_fail [send_keep]:
  assumes "stable (exec_send opens) K"
  shows "keeps (follows opens d0 K) (failRow (swap_store_on opens sc) i s reason)"
  unfolding on_here by (rule send_service.keeps_failRow [OF assms]) (auto simp: SHAPE_def set_fields_cols)

lemma keeps_commit [send_keep]:
  assumes "stable (exec_send opens) K" and "\<And>d r. K d \<Longrightarrow> row_of d i = Some r \<Longrightarrow> hash_of r = h"
    and "map_of fs C_idempotency_key = Some (SText (swap_key h))" and "map_of fs C_preimage = None"
  shows "keeps (follows opens d0 K) (transition (swap_store_on opens sc) i s S_paying fs)"
  unfolding on_here
  by (rule send_service.keeps_transition [OF assms(1)]) (auto simp: set_fields_cols assms(3,4) dest: assms(2))

lemma keeps_claiming [send_keep]:
  assumes "stable (exec_send opens) K" and "\<And>d r. K d \<Longrightarrow> row_of d i = Some r \<Longrightarrow> hash_of r = h"
    and "opens p h"
  shows "keeps (follows opens d0 K) (transition (swap_store_on opens sc) i s S_claiming [(C_preimage, SText p)])"
  unfolding on_here
proof (rule send_service.keeps_transition [OF assms(1)])
  fix d r tm
  assume "K d" and r: "row_of d i = Some r"
  then have "hash_of (set_fields [(C_preimage, SText p)] r) = h"
    using assms(2) by (simp add: hash_of_def set_fields_cols)
  then show "send_ok opens (Cas i s S_claiming [(C_preimage, SText p)] tm) d"
    using r assms(3) by (simp add: opened_def set_fields_cols)
qed

lemma keeps_record [send_keep]:
  "stable (exec_send opens) K \<Longrightarrow> keeps (follows opens d0 K) (recordEvent (swap_store_on opens sc) i s t detail)"
  unfolding on_here by (rule send_service.keeps_recordEvent)

lemma keeps_patch_send [send_keep]:
  assumes "stable (exec_send opens) K"
  shows "keeps (follows opens d0 K) (patchSwap (swap_store_on opens sc) i fs)"
proof -
  have p: "keeps (follows opens d0 K) (patch (swap_store_on opens sc) i fs)"
    unfolding on_here by (rule send_service.keeps_patch [OF assms]) simp
  have r: "keeps (follows opens d0 K)
      (read_db (soExec (swap_store_on opens sc)) (soSchedule (swap_store_on opens sc)) f)" for f
    unfolding on_here store.simps by (rule keeps_read_send [OF assms])
  show ?thesis unfolding patchSwap_def
    by (auto intro!: keep p r keeps_record [OF assms] split: sqlval.split option.split)
qed

lemma keeps_noteFundings [send_keep]:
  assumes "stable (exec_send opens) K"
  shows "keeps (follows opens d0 K) (noteFundings (swap_store_on opens sc) i outs)"
proof -
  have n: "keeps (follows opens d0 K) (note_each (swap_store_on opens sc) i s seen os)" for s seen os
    by (induction "swap_store_on opens sc" i s seen os rule: note_each.induct)
      (auto intro!: keep keeps_record [OF assms])
  have r: "keeps (follows opens d0 K)
      (read_db (soExec (swap_store_on opens sc)) (soSchedule (swap_store_on opens sc)) f)" for f
    unfolding on_here store.simps by (rule keeps_read_send [OF assms])
  show ?thesis unfolding noteFundings_def by (auto intro!: keep n r split: option.split)
qed

text \<open>A row that was read is known.\<close>

lemma spec_get_swap:
  assumes "stable (exec_send opens) K" and "\<And>d. K d \<Longrightarrow> send_inv opens d"
  shows "spec (follows opens d0 K) (get_swap (swap_store_on opens sc) i)
    (\<lambda>r w. follows opens d0 K w \<and> (\<forall>row. r = Inr row \<longrightarrow> knows opens row (wDb w) \<and> srId row = i))"
  unfolding get_swap_def on_here
proof (rule spec_bnd)
  show "spec (follows opens d0 K)
     (getRow \<lparr>soShape = SHAPE, soExec = exec_send opens, soAct = St, soSchedule = sc\<rparr> i)
     (\<lambda>res w. follows opens d0 K w \<and> (\<forall>r. res = Inr r \<longrightarrow> knows opens (toRow r) (wDb w) \<and> rwId r = i))"
    by (rule send_service.spec_getRow [OF assms(1)]) (use assms(2) knows_read row_of_Some in blast)
qed (auto simp: spec_def ret_def)

lemma keeps_get_swap:
  assumes "stable (exec_send opens) K" and "\<And>d. K d \<Longrightarrow> send_inv opens d"
    and "\<And>row. srId row = i \<Longrightarrow> keeps (follows opens d0 (\<lambda>d. K d \<and> knows opens row d)) (f row)"
  shows "keeps (follows opens d0 K) (bnd (get_swap (swap_store_on opens sc) i) f)"
proof (rule keeps_learn [OF spec_get_swap [OF assms(1,2)]])
  fix row
  show "keeps (follows opens d0 (\<lambda>d. K d \<and> knows opens row d \<and> srId row = i)) (f row)"
    using assms(3) [of row] by (cases "srId row = i") (auto simp: spec_def tracks_def)
qed

end
