(* ===== verification/Unrolled_Claims.thy ===== *)
theory Unrolled_Claims
  imports Swap_Store Lockups
begin

text \<open>
  \<^verbatim>\<open>solver-corridors/src/unrolledSpendStep.ts\<close>, the part both send legs share: collecting a lockup whose
  outputs were unrolled to L1, and telling whether anything of it is left. The functions are generic in
  the store they are called with; \<open>claim_leg\<close> holds that store, its \<open>patch\<close> method (one store overrides it),
  the columns and states they name, the ports and how a claim on L1 is written in the corridor's alphabet.
\<close>

section \<open>Steps\<close>

text \<open>The steps are a JavaScript object: an existing key keeps its place.\<close>

type_synonym steps = "((string \<times> int) \<times> unrolled_step) list"

fun set_step :: "string \<times> int \<Rightarrow> unrolled_step \<Rightarrow> steps \<Rightarrow> steps" where
  "set_step k v [] = [(k, v)]"
| "set_step k v ((k', v') # rest) = (if k' = k then (k, v) # rest else (k', v') # set_step k v rest)"

record UnrolledClaims =
  ucSettled :: bool
  ucLost :: "string list"
  ucConfirmed :: "(string \<times> int) list"
  ucError :: "exn option"

text \<open>
  \<open>clClaimUnrolled\<close> answers with the records it saved through its callback before it ended and with how it
  ended. An optional method of a port is an optional field.
\<close>

record ('s, 'c, 'act) claim_leg =
  clStore :: "('s, 'c, 'act) store"
  clPatch :: "string \<Rightarrow> 'c fields \<Rightarrow> ('s, 'c, 'act, unit) job"
  clUnrolledClaimColumn :: 'c
  clClaimArkTxidColumn :: 'c
  clClaiming :: 's
  clClaimed :: 's
  clClaimAct :: "string \<Rightarrow> string \<Rightarrow> string \<times> int \<Rightarrow> 'act"
  clFindLockupOutpoints :: "(nat \<Rightarrow> string \<Rightarrow> exn + LockupOutpoint list) option"
  clFindClaimPreimage :: "(nat \<Rightarrow> LockupOutpoint \<Rightarrow> string \<Rightarrow> exn + string option) option"
  clClaimUnrolled :: "(nat \<Rightarrow> string \<times> int \<Rightarrow> string option \<Rightarrow> string list \<times> (exn + unrolled_step)) option"

text \<open>The fields these functions take of a row.\<close>

record claim_row =
  kwId :: string
  kwPkScript :: string
  kwPaymentHash :: string
  kwUnrolledClaim :: "steps option"
  kwLockupOutpoints :: "(string \<times> int \<times> int) list option"

abbreviation leg_call :: "('s, 'c, 'act) claim_leg \<Rightarrow> (nat \<Rightarrow> exn + 'a) \<Rightarrow> ('s, 'c, 'act, 'a) job" where
  "leg_call leg f \<equiv> ask (soExec (clStore leg)) (soSchedule (clStore leg)) f"

section \<open>Claiming unrolled outputs\<close>

text \<open>
  \<open>keep\<close> sets the step before it awaits the write, so the steps in memory move on even when the write
  throws: the error is returned beside them.
\<close>

definition keep_step ::
    "('s, 'c, 'act) claim_leg \<Rightarrow> string \<Rightarrow> string \<times> int \<Rightarrow> unrolled_step \<Rightarrow> steps \<Rightarrow>
     ('s, 'c, 'act, steps \<times> exn option) job" where
  "keep_step leg i key step steps =
     (if map_of steps key = Some step then ret (steps, None)
      else let steps' = set_step key step steps in
        catch (thn (clPatch leg i [(clUnrolledClaimColumn leg, SSteps steps')]) (ret (steps', None)))
          (\<lambda>e. ret (steps', Some e)))"

fun save_all ::
    "('s, 'c, 'act) claim_leg \<Rightarrow> string \<Rightarrow> string \<times> int \<Rightarrow> string list \<Rightarrow> steps \<Rightarrow>
     ('s, 'c, 'act, steps \<times> exn option) job" where
  "save_all leg i key [] steps = ret (steps, None)"
| "save_all leg i key (r # rs) steps =
     bnd (keep_step leg i key (U_pending r) steps) (\<lambda>(steps', err).
     case err of Some e \<Rightarrow> ret (steps', Some e) | None \<Rightarrow> save_all leg i key rs steps')"

fun pending_record :: "unrolled_step option \<Rightarrow> string option" where
  "pending_record (Some (U_pending r)) = Some r"
| "pending_record _ = None"

definition claim_one ::
    "('s, 'c, 'act) claim_leg \<Rightarrow> (nat \<Rightarrow> string \<times> int \<Rightarrow> string option \<Rightarrow> string list \<times> (exn + unrolled_step)) \<Rightarrow> string \<Rightarrow>
     string \<Rightarrow> string \<times> int \<Rightarrow> steps \<Rightarrow> ('s, 'c, 'act, steps \<times> exn option) job" where
  "claim_one leg claimUnrolled i preimage key steps =
     bnd (perform (soExec (clStore leg)) (soSchedule (clStore leg)) (clClaimAct leg i preimage key)
       (\<lambda>n. Inr (claimUnrolled n key (pending_record (map_of steps key))))) (\<lambda>(saved, res).
     bnd (save_all leg i key saved steps) (\<lambda>(steps', err).
     case err of
       Some e \<Rightarrow> ret (steps', Some e)
     | None \<Rightarrow> (case res of
           Inl e \<Rightarrow> ret (steps', Some e)
         | Inr step \<Rightarrow> if step = U_waiting then ret (steps', None) else keep_step leg i key step steps')))"

fun is_confirmed :: "unrolled_step option \<Rightarrow> bool" where
  "is_confirmed (Some (U_confirmed _)) = True"
| "is_confirmed _ = False"

text \<open>Each output has its turn even when another threw; the first error is held.\<close>

fun claim_each ::
    "('s, 'c, 'act) claim_leg \<Rightarrow> (nat \<Rightarrow> string \<times> int \<Rightarrow> string option \<Rightarrow> string list \<times> (exn + unrolled_step)) \<Rightarrow> string \<Rightarrow>
     string \<Rightarrow> (string \<times> int) list \<Rightarrow> steps \<Rightarrow> exn option \<Rightarrow> ('s, 'c, 'act, steps \<times> exn option) job" where
  "claim_each leg cu i preimage [] steps err = ret (steps, err)"
| "claim_each leg cu i preimage (key # keys) steps err =
     (if is_confirmed (map_of steps key) then claim_each leg cu i preimage keys steps err
      else bnd (claim_one leg cu i preimage key steps) (\<lambda>(steps', thrown).
        claim_each leg cu i preimage keys steps' (coalesce err thrown)))"

definition show_outpoint :: "string \<times> int \<Rightarrow> string" where
  "show_outpoint key = fst key @ '':'' @ show_int (snd key)"

definition claims_summary :: "(string \<times> int) list \<Rightarrow> steps \<Rightarrow> exn option \<Rightarrow> UnrolledClaims" where
  "claims_summary keys steps err =
     \<lparr>ucSettled = (\<forall>k \<in> set keys. case map_of steps k of
          Some U_spent \<Rightarrow> True | Some (U_closed _) \<Rightarrow> True | Some (U_confirmed _) \<Rightarrow> True | _ \<Rightarrow> False),
      ucLost = concat (map (\<lambda>k. case map_of steps k of
          Some U_spent \<Rightarrow> [show_outpoint k @ '' spent on L1 by a transaction that is not ours'']
        | Some (U_closed reason) \<Rightarrow> [show_outpoint k @ '': '' @ reason] | _ \<Rightarrow> []) keys),
      ucConfirmed = filter (\<lambda>k. is_confirmed (map_of steps k)) keys, ucError = err\<rparr>"

definition advanceUnrolledClaims ::
    "('s, 'c, 'act) claim_leg \<Rightarrow> claim_row \<Rightarrow> string \<Rightarrow> ('s, 'c, 'act, UnrolledClaims option) job" where
  "advanceUnrolledClaims leg row preimage = (case (clFindLockupOutpoints leg, clClaimUnrolled leg) of
     (Some outpointsOf, Some cu) \<Rightarrow>
       let steps = (case kwUnrolledClaim row of None \<Rightarrow> [] | Some s \<Rightarrow> s) in
       bnd (leg_call leg (\<lambda>n. outpointsOf n (kwPkScript row))) (\<lambda>outs.
       let found = filter opUnrolled outs;
           keys = rev (remdups (rev (map fst steps @ map outpoint_key found))) in
       if keys = [] then ret None
       else bnd (claim_each leg cu (kwId row) preimage keys steps None) (\<lambda>(steps', err).
         ret (Some (claims_summary keys steps' err))))
   | _ \<Rightarrow> ret None)"

definition settleUnrolledClaims ::
    "('s, 'c, 'act) claim_leg \<Rightarrow> string \<Rightarrow> UnrolledClaims \<Rightarrow> string \<Rightarrow> ('s, 'c, 'act, bool) job" where
  "settleUnrolledClaims leg i claims recourse =
     (if \<not> ucSettled claims then (case ucError claims of Some e \<Rightarrow> throw e | None \<Rightarrow> ret False)
      else if ucLost claims = [] then transition (clStore leg) i (clClaiming leg) (clClaimed leg) []
      else thn (failRow (clStore leg) i (clClaiming leg)
        (''L1 claim of the unrolled lockup lost: '' @ join_with ''; '' (ucLost claims) @ dash @ recourse))
        (ret False))"

section \<open>What is left at the script\<close>

fun spent_by_us ::
    "('s, 'c, 'act) claim_leg \<Rightarrow> (nat \<Rightarrow> LockupOutpoint \<Rightarrow> string \<Rightarrow> exn + string option) \<Rightarrow> string \<Rightarrow> LockupOutpoint list \<Rightarrow>
     ('s, 'c, 'act, (string \<times> int) set) job" where
  "spent_by_us leg f h [] = ret {}"
| "spent_by_us leg f h (o1 # os) =
     bnd (leg_call leg (\<lambda>n. f n o1 h)) (\<lambda>found.
     bnd (spent_by_us leg f h os) (\<lambda>rest. ret (if found \<noteq> None then insert (outpoint_key o1) rest else rest)))"

definition lockupLeftover ::
    "('s, 'c, 'act) claim_leg \<Rightarrow> claim_row \<Rightarrow> (string \<times> int) set \<Rightarrow> UnrolledClaims option \<Rightarrow>
     ('s, 'c, 'act, (string \<times> int) list) job" where
  "lockupLeftover leg row claimedNow claims = (case (kwLockupOutpoints row, clFindLockupOutpoints leg) of
     (Some adopted, Some outpointsOf) \<Rightarrow>
       bnd (leg_call leg (\<lambda>n. outpointsOf n (kwPkScript row))) (\<lambda>outs.
       let candidates = filter (\<lambda>o1. opSpent o1 \<and> \<not> opUnrolled o1 \<and> outpoint_key o1 \<notin> claimedNow) outs in
       bnd (case clFindClaimPreimage leg of
              None \<Rightarrow> ret (outpoint_key ` set candidates)
            | Some f \<Rightarrow> spent_by_us leg f (kwPaymentHash row) candidates) (\<lambda>ours.
       ret (uncollected adopted outs claimedNow
         (case claims of None \<Rightarrow> {} | Some c \<Rightarrow> set (ucConfirmed c)) ours)))
   | _ \<Rightarrow> ret [])"

definition awaitLeftover ::
    "('s, 'c, 'act) claim_leg \<Rightarrow> string \<Rightarrow> string option \<Rightarrow> (string \<times> int) list \<Rightarrow> bool \<Rightarrow> string \<Rightarrow> ('s, 'c, 'act, bool) job" where
  "awaitLeftover leg i claimTxid leftover pastDeadline recourse =
     thn (case claimTxid of
            None \<Rightarrow> ret () | Some t \<Rightarrow> clPatch leg i [(clClaimArkTxidColumn leg, SText t)])
     (if \<not> pastDeadline
      then throw (Thrown (''swap '' @ i @ '': lockup output(s) '' @
        join_with '', '' (map show_outpoint leftover) @ '' not yet collected''))
      else thn (failRow (clStore leg) i (clClaiming leg)
        (''lockup output(s) '' @ join_with '', '' (map show_outpoint leftover) @
         '' uncollected at the refund deadline'' @ dash @ recourse)) (ret False))"

section \<open>The contract of a leg\<close>

text \<open>
  What a corridor promises of the store it hands in: its methods keep the history lawful whatever is
  known of the table, and so does an L1 claim of a row the corridor may collect.
\<close>

locale claim_contract =
  fixes exec :: "'act \<Rightarrow> ('s, 'c) db \<Rightarrow> ('s, 'c) db option" and d0 :: "('s, 'c) db"
    and leg :: "('s, 'c, 'act) claim_leg" and may_collect :: "string \<Rightarrow> string \<Rightarrow> ('s, 'c) db \<Rightarrow> bool"
  assumes leg_exec: "soExec (clStore leg) = exec"
    and leg_interference: "stable exec K \<Longrightarrow> interference exec (tracks exec d0 K)"
    and patch_keeps: "stable exec K \<Longrightarrow> keeps (tracks exec d0 K) (clPatch leg i fs)"
    and fail_keeps: "stable exec K \<Longrightarrow> keeps (tracks exec d0 K) (failRow (clStore leg) i (clClaiming leg) reason)"
    and done_keeps: "stable exec K \<Longrightarrow> fs = [] \<or> (\<exists>v. fs = [(clClaimArkTxidColumn leg, v)]) \<Longrightarrow>
      keeps (tracks exec d0 K) (transition (clStore leg) i (clClaiming leg) (clClaimed leg) fs)"
    and claim_keeps: "stable exec K \<Longrightarrow> (\<And>d. K d \<Longrightarrow> may_collect i p d) \<Longrightarrow>
      keeps (tracks exec d0 K) (perform exec sc (clClaimAct leg i p key) (f :: nat \<Rightarrow> exn + string list \<times> (exn + unrolled_step)))"
begin

lemma call_keeps: "stable exec K \<Longrightarrow> keeps (tracks exec d0 K) (leg_call leg f)"
  unfolding leg_exec by (rule interference.keeps_ask [OF leg_interference])

lemma keep_step_keeps: "stable exec K \<Longrightarrow> keeps (tracks exec d0 K) (keep_step leg i key step steps)"
  unfolding keep_step_def by (intro keep patch_keeps)

lemma save_all_keeps: "stable exec K \<Longrightarrow> keeps (tracks exec d0 K) (save_all leg i key rs steps)"
proof (induction rs arbitrary: steps)
  case (Cons r rs)
  then show ?case unfolding save_all.simps by (intro keep keep_step_keeps)
qed (simp add: keeps_ret)

lemma claim_each_keeps:
  assumes K: "stable exec K" "\<And>d. K d \<Longrightarrow> may_collect i p d"
  shows "keeps (tracks exec d0 K) (claim_each leg cu i p keys steps err)"
proof (induction keys arbitrary: steps err)
  case (Cons key keys)
  have "keeps (tracks exec d0 K) (claim_one leg cu i p key steps)"
    unfolding claim_one_def leg_exec by (intro keep save_all_keeps keep_step_keeps claim_keeps K)
  then show ?case unfolding claim_each.simps using Cons.IH by (intro keep)
qed (simp add: keeps_ret)

lemma advance_keeps:
  assumes "stable exec K" "\<And>d. K d \<Longrightarrow> may_collect (kwId row) p d"
  shows "keeps (tracks exec d0 K) (advanceUnrolledClaims leg row p)"
  unfolding advanceUnrolledClaims_def by (intro keep call_keeps claim_each_keeps assms)

lemma settle_keeps: "stable exec K \<Longrightarrow> keeps (tracks exec d0 K) (settleUnrolledClaims leg i c recourse)"
  unfolding settleUnrolledClaims_def by (intro keep done_keeps fail_keeps) simp_all

lemma spent_by_us_keeps: "stable exec K \<Longrightarrow> keeps (tracks exec d0 K) (spent_by_us leg f h os)"
proof (induction os)
  case (Cons a os)
  then show ?case unfolding spent_by_us.simps by (intro keep call_keeps)
qed (simp add: keeps_ret)

lemma leftover_keeps: "stable exec K \<Longrightarrow> keeps (tracks exec d0 K) (lockupLeftover leg row now1 claims)"
  unfolding lockupLeftover_def Let_def by (intro keep call_keeps spent_by_us_keeps)

lemma awaitLeftover_keeps: "stable exec K \<Longrightarrow> keeps (tracks exec d0 K) (awaitLeftover leg i t leftover past recourse)"
  unfolding awaitLeftover_def by (intro keep patch_keeps fail_keeps)

lemmas collect_keep = call_keeps advance_keeps settle_keeps leftover_keeps awaitLeftover_keeps done_keeps fail_keeps patch_keeps

end

section \<open>What the summary promises\<close>

text \<open>
  Claims count as settled without loss only when every unrolled output was confirmed as ours.
\<close>

lemma claims_summary_collected:
  "ucSettled (claims_summary keys steps err) \<Longrightarrow> ucLost (claims_summary keys steps err) = [] \<Longrightarrow>
     ucConfirmed (claims_summary keys steps err) = keys"
  unfolding claims_summary_def
  by (induction keys) (auto split: option.splits unrolled_step.splits)

end
