(* ===== verification/Pricing.thy ===== *)
theory Pricing
  imports Send_Gates
begin

text \<open>
  The amount and fee policy of \<^verbatim>\<open>solver-core/src/core\<close>: \<^verbatim>\<open>limits.ts\<close> and \<^verbatim>\<open>networks.ts\<close> (ranges that
  only narrow), \<^verbatim>\<open>corridorPolicy.ts\<close> (what a corridor keeps, in both directions), \<^verbatim>\<open>pricing.ts\<close> (the
  pricing strategies), \<^verbatim>\<open>approvalGate.ts\<close> (the large-swap gate) and \<^verbatim>\<open>rateLimit.ts\<close> (quote quotas).
  Fees and amounts are integers; the basis points a deployment can configure lie in \<open>0..9999\<close>.
\<close>

section \<open>Limits\<close>

definition TESTNET_LIMITS :: Limits where "TESTNET_LIMITS = \<lparr>minSats = 1000, maxSats = 1000000\<rparr>"
definition BITCOIN_LIMITS :: Limits where "BITCOIN_LIMITS = \<lparr>minSats = 500, maxSats = 50000\<rparr>"

datatype SwapNetwork = Bitcoin | Mutinynet | Signet | Regtest

fun network_limits :: "SwapNetwork \<Rightarrow> Limits" where
  "network_limits Bitcoin = BITCOIN_LIMITS"
| "network_limits _ = TESTNET_LIMITS"

fun invoicePrefix :: "SwapNetwork \<Rightarrow> string" where
  "invoicePrefix Bitcoin = ''bc''"
| "invoicePrefix Mutinynet = ''tbs''"
| "invoicePrefix Signet = ''tbs''"
| "invoicePrefix Regtest = ''bcrt''"

datatype limits_error = Bad_override string | Empty_limits

record LimitsOverride =
  ovMinSats :: "jsnum option"
  ovMaxSats :: "jsnum option"

text \<open>
  An override value is a JavaScript number and need not be whole, so limits are rationals while they
  are narrowed.
\<close>

fun bad_override :: "jsnum option \<Rightarrow> bool" where
  "bad_override None = False"
| "bad_override (Some v) = (\<not> isFinite v \<or> js_le v (jint 0))"

fun override_value :: "jsnum option \<Rightarrow> rat \<Rightarrow> rat" where
  "override_value (Some (Fin q)) d = q"
| "override_value _ d = d"

record RatLimits =
  rlMin :: rat
  rlMax :: rat

definition narrow :: "RatLimits \<Rightarrow> LimitsOverride \<Rightarrow> limits_error + RatLimits" where
  "narrow base ov =
     and_then (refuse_if (bad_override (ovMinSats ov)) (Bad_override ''minSats'')) (\<lambda>_.
     and_then (refuse_if (bad_override (ovMaxSats ov)) (Bad_override ''maxSats'')) (\<lambda>_.
     let mn = max (rlMin base) (override_value (ovMinSats ov) (rlMin base));
         mx = min (rlMax base) (override_value (ovMaxSats ov) (rlMax base)) in
     if mn > mx then Inl Empty_limits else Inr \<lparr>rlMin = mn, rlMax = mx\<rparr>))"

definition rat_limits :: "Limits \<Rightarrow> RatLimits" where
  "rat_limits l = \<lparr>rlMin = of_int (minSats l), rlMax = of_int (maxSats l)\<rparr>"

definition resolveLimits :: "SwapNetwork \<Rightarrow> LimitsOverride \<Rightarrow> limits_error + RatLimits" where
  "resolveLimits net ov = narrow (rat_limits (network_limits net)) ov"

definition MIN_ROUTING_FEE_CAP_SATS :: int where [policy]: "MIN_ROUTING_FEE_CAP_SATS = 25"

text \<open>
  \<open>Math.ceil(amountSats * 0.005)\<close>. The double nearest to 0.005 exceeds it by less than one part in
  \<open>2 ^ 55\<close>, so for a whole number of sats below \<open>2 ^ 51\<close> the rounded product has the ceiling of
  \<open>amountSats / 200\<close>.
\<close>

definition maxRoutingFeeSats :: "int \<Rightarrow> int" where
  "maxRoutingFeeSats amountSats = max MIN_ROUTING_FEE_CAP_SATS (ceil_div amountSats 200)"

section \<open>Fees\<close>

record Fee =
  feeBps :: int
  flatSats :: int

definition FREE :: Fee where "FREE = \<lparr>feeBps = 0, flatSats = 0\<rparr>"

definition feeSatsFor :: "int \<Rightarrow> Fee \<Rightarrow> int" where
  "feeSatsFor amountSats fee = ceil_div (amountSats * feeBps fee) 10000 + flatSats fee"

definition payoutSatsFor :: "int \<Rightarrow> Fee \<Rightarrow> int" where
  "payoutSatsFor giveSats fee = giveSats - feeSatsFor giveSats fee"

text \<open>
  The exact-out direction: the algebraic inverse, then \<open>while (payout < wanted) give++\<close>. Not returning
  is \<open>None\<close>.
\<close>

partial_function (option) correct_give :: "int \<Rightarrow> int \<Rightarrow> Fee \<Rightarrow> int option" where
  "correct_give give payoutSats fee =
     (if payoutSatsFor give fee < payoutSats then correct_give (give + 1) payoutSats fee else Some give)"

definition giveSatsFor :: "int \<Rightarrow> Fee \<Rightarrow> int option" where
  "giveSatsFor payoutSats fee =
     correct_give (ceil_div ((payoutSats + flatSats fee) * 10000) (10000 - feeBps fee)) payoutSats fee"

section \<open>Strategies\<close>

record PricingStrategy =
  payoutFor :: "int \<Rightarrow> int"
  giveFor :: "int \<Rightarrow> int option"

definition fixedFeePricing :: "Fee \<Rightarrow> PricingStrategy" where
  "fixedFeePricing fee =
     \<lparr>payoutFor = (\<lambda>giveSats. payoutSatsFor giveSats fee), giveFor = (\<lambda>payoutSats. giveSatsFor payoutSats fee)\<rparr>"

record NetworkFeeInputs =
  nfBase :: Fee
  nfCostSats :: "int \<Rightarrow> jsnum option"
  nfCapSats :: int
  nfMinSats :: int

text \<open>The cost estimate, where it is a finite number that is not negative, rounded up.\<close>

definition known_cost :: "Fee \<Rightarrow> jsnum option \<Rightarrow> int" where
  "known_cost base cost = (case cost of
     Some (Fin q) \<Rightarrow> if q < 0 then flatSats base else \<lceil>q\<rceil>
   | _ \<Rightarrow> flatSats base)"

definition feeNow :: "NetworkFeeInputs \<Rightarrow> int \<Rightarrow> Fee" where
  "feeNow nf giveSats =
     \<lparr>feeBps = feeBps (nfBase nf),
      flatSats = max (nfMinSats nf) (min (known_cost (nfBase nf) (nfCostSats nf giveSats)) (nfCapSats nf))\<rparr>"

definition networkFeePricing :: "NetworkFeeInputs \<Rightarrow> string + PricingStrategy" where
  "networkFeePricing nf =
     (if nfMinSats nf > nfCapSats nf then Inl ''minSats exceeds capSats, so the cap can never hold''
      else Inr \<lparr>payoutFor = (\<lambda>giveSats. payoutSatsFor giveSats (feeNow nf giveSats)),
                giveFor = (\<lambda>payoutSats. giveSatsFor payoutSats (feeNow nf payoutSats))\<rparr>)"

section \<open>Approval gate\<close>

datatype ApprovalRecord = Approved | No_approval | Unreadable

datatype ApprovalVerdict = Proceed | Hold

definition evaluateApproval :: "int \<Rightarrow> int option \<Rightarrow> ApprovalRecord \<Rightarrow> string + ApprovalVerdict" where
  "evaluateApproval amount threshold approval = (case threshold of
     None \<Rightarrow> Inr Proceed
   | Some th \<Rightarrow>
       if th < 0 then Inl ''approval threshold is negative''
       else if amount < th then Inr Proceed
       else if approval = Approved then Inr Proceed else Inr Hold)"

section \<open>Rate limiter\<close>

record window =
  winStart :: int
  winCount :: int

text \<open>The \<open>Map\<close> of windows, in insertion order.\<close>

type_synonym windows = "(string \<times> window) list"

definition MAX_TRACKED_KEYS :: nat where "MAX_TRACKED_KEYS = 10000"

definition prune :: "int \<Rightarrow> int \<Rightarrow> windows \<Rightarrow> windows" where
  "prune windowSeconds tm ws =
     (let kept = filter (\<lambda>(k, w). \<not> tm - winStart w \<ge> windowSeconds) ws in
      if length kept < MAX_TRACKED_KEYS then kept
      else drop (length kept - MAX_TRACKED_KEYS div 2) kept)"

definition bump :: "string \<Rightarrow> windows \<Rightarrow> windows" where
  "bump key ws = map (\<lambda>(k, w). if k = key then (k, w\<lparr>winCount := winCount w + 1\<rparr>) else (k, w)) ws"

definition take_one :: "int \<Rightarrow> int \<Rightarrow> int \<Rightarrow> string \<Rightarrow> windows \<Rightarrow> bool \<times> windows" where
  "take_one limit windowSeconds tm key ws0 =
     (let ws = (if length ws0 \<ge> MAX_TRACKED_KEYS then prune windowSeconds tm ws0 else ws0);
          fresh = filter (\<lambda>(k, w). k \<noteq> key) ws @ [(key, \<lparr>winStart = tm, winCount = 1\<rparr>)] in
      case map_of ws key of
        None \<Rightarrow> (True, fresh)
      | Some w \<Rightarrow>
          if tm - winStart w \<ge> windowSeconds then (True, fresh)
          else if winCount w \<ge> limit then (False, ws)
          else (True, bump key ws))"

section \<open>Facts\<close>

lemma payoutSatsFor_floor:
  "payoutSatsFor g fee = (g * (10000 - feeBps fee)) div 10000 - flatSats fee"
proof -
  have "g * (10000 - feeBps fee) = - (g * feeBps fee) + g * 10000" by (simp add: algebra_simps)
  then have "(g * (10000 - feeBps fee)) div 10000 = (- (g * feeBps fee)) div 10000 + g" by simp
  then show ?thesis by (simp add: payoutSatsFor_def feeSatsFor_def ceil_div_def)
qed

lemma div_ge_iff: "(k::int) \<le> a div 10000 \<longleftrightarrow> k * 10000 \<le> a"
proof
  assume "k \<le> a div 10000"
  then show "k * 10000 \<le> a" by linarith
next
  assume "k * 10000 \<le> a"
  then show "k \<le> a div 10000" by linarith
qed

lemma payout_reaches_iff:
  assumes "feeBps fee < 10000"
  shows "p \<le> payoutSatsFor g fee \<longleftrightarrow> ceil_div ((p + flatSats fee) * 10000) (10000 - feeBps fee) \<le> g"
proof -
  have "p \<le> payoutSatsFor g fee \<longleftrightarrow> p + flatSats fee \<le> (g * (10000 - feeBps fee)) div 10000"
    by (auto simp: payoutSatsFor_floor)
  also have "\<dots> \<longleftrightarrow> (p + flatSats fee) * 10000 \<le> g * (10000 - feeBps fee)"
    by (rule div_ge_iff)
  finally show ?thesis using assms by (simp add: ceil_div_le_iff)
qed

text \<open>
  C30: the exact-out price. For every spread a deployment can configure (below 10000 bps) the search
  of \<open>giveSatsFor\<close> ends, its answer pays at least what was asked for, and no smaller amount does: the
  taker is charged the least \<open>give\<close> that delivers the payout. In whole sats the correction loop never
  has to step.
\<close>

theorem giveSatsFor_least:
  assumes "feeBps fee < 10000"
  shows "\<exists>g. giveSatsFor p fee = Some g \<and> g = ceil_div ((p + flatSats fee) * 10000) (10000 - feeBps fee) \<and>
    p \<le> payoutSatsFor g fee \<and> (\<forall>g'. p \<le> payoutSatsFor g' fee \<longrightarrow> g \<le> g')"
proof -
  let ?g = "ceil_div ((p + flatSats fee) * 10000) (10000 - feeBps fee)"
  have "p \<le> payoutSatsFor ?g fee" using payout_reaches_iff [OF assms, of p ?g] by simp
  then have "giveSatsFor p fee = Some ?g" unfolding giveSatsFor_def by (subst correct_give.simps) simp
  then show ?thesis using payout_reaches_iff [OF assms, of p] by auto
qed

theorem giveSatsFor_least_witness:
  "\<exists>g. giveSatsFor 1000 \<lparr>feeBps = 30, flatSats = 7\<rparr> = Some g \<and>
     1000 \<le> payoutSatsFor g \<lparr>feeBps = 30, flatSats = 7\<rparr>"
  using giveSatsFor_least [of "\<lparr>feeBps = 30, flatSats = 7\<rparr>" 1000] by auto

text \<open>
  Narrowing never raises the amount at risk. Whatever the override, the result lies inside the
  base range and is not empty; a \<open>NaN\<close>, an infinite, a zero or a negative override throws instead of
  silently removing the cap, and layers of overrides compose to a range inside each of them.
\<close>

theorem narrow_only_narrows:
  assumes "narrow base ov = Inr l"
  shows "rlMin base \<le> rlMin l \<and> rlMax l \<le> rlMax base \<and> rlMin l \<le> rlMax l \<and>
    (\<forall>v. ovMaxSats ov = Some v \<longrightarrow> (\<exists>q > 0. v = Fin q \<and> rlMax l \<le> q)) \<and>
    (\<forall>v. ovMinSats ov = Some v \<longrightarrow> (\<exists>q > 0. v = Fin q \<and> q \<le> rlMin l)) \<and>
    (\<forall>ov' l'. narrow l ov' = Inr l' \<longrightarrow> rlMin base \<le> rlMin l' \<and> rlMax l' \<le> rlMax base)"
proof -
  have shape: "rlMin b \<le> rlMin l \<and> rlMax l \<le> rlMax b \<and> rlMin l \<le> rlMax l \<and>
      (\<forall>v. ovMaxSats ov = Some v \<longrightarrow> (\<exists>q > 0. v = Fin q \<and> rlMax l \<le> q)) \<and>
      (\<forall>v. ovMinSats ov = Some v \<longrightarrow> (\<exists>q > 0. v = Fin q \<and> q \<le> rlMin l))"
    if n: "narrow b ov = Inr l" for b ov l
  proof -
    have ok: "\<exists>q > 0. v = Fin q" if "\<not> bad_override (Some v)" for v
      using that by (cases v) auto
    from n have "\<not> bad_override (ovMinSats ov)" "\<not> bad_override (ovMaxSats ov)"
      and l: "rlMin l = max (rlMin b) (override_value (ovMinSats ov) (rlMin b))"
        "rlMax l = min (rlMax b) (override_value (ovMaxSats ov) (rlMax b))" "rlMin l \<le> rlMax l"
      by (auto simp: narrow_def result Let_def split: if_splits)
    then show ?thesis using ok by (fastforce simp: l(1,2))
  qed
  show ?thesis using shape [OF assms] shape order_trans by meson
qed

theorem narrow_only_narrows_witness:
  "\<exists>l. narrow (rat_limits BITCOIN_LIMITS) \<lparr>ovMinSats = None, ovMaxSats = Some (jint 20000)\<rparr> = Inr l \<and>
     rlMax l \<le> rlMax (rat_limits BITCOIN_LIMITS)"
proof -
  let ?ov = "\<lparr>ovMinSats = None, ovMaxSats = Some (jint 20000)\<rparr>"
  have "narrow (rat_limits BITCOIN_LIMITS) ?ov = Inr \<lparr>rlMin = 500, rlMax = 20000\<rparr>"
    by (simp add: narrow_def rat_limits_def BITCOIN_LIMITS_def)
  with narrow_only_narrows [OF this] show ?thesis by blast
qed

section \<open>The limiter's books\<close>

definition windows_ok :: "int \<Rightarrow> windows \<Rightarrow> bool" where
  "windows_ok limit ws \<longleftrightarrow> distinct (map fst ws) \<and> length ws \<le> MAX_TRACKED_KEYS \<and>
     (\<forall>(k, w) \<in> set ws. 1 \<le> winCount w \<and> winCount w \<le> limit)"

lemma prune_props:
  assumes "windows_ok limit ws"
  shows "windows_ok limit (prune win tm ws)" "length (prune win tm ws) < MAX_TRACKED_KEYS"
proof -
  let ?k = "filter (\<lambda>(k, w). \<not> tm - winStart w \<ge> win) ws"
  have "length ?k \<le> length ws" by simp
  then have le: "length ?k \<le> MAX_TRACKED_KEYS" using assms unfolding windows_ok_def by linarith
  show "length (prune win tm ws) < MAX_TRACKED_KEYS"
    using le by (auto simp: prune_def Let_def MAX_TRACKED_KEYS_def)
  have "set (prune win tm ws) \<subseteq> set ?k"
    using set_drop_subset [of "length ?k - MAX_TRACKED_KEYS div 2" ?k] by (simp add: prune_def Let_def)
  then have "set (prune win tm ws) \<subseteq> set ws" by auto
  moreover have "distinct (map fst (prune win tm ws))"
    using assms by (auto simp: prune_def Let_def windows_ok_def distinct_map_filter drop_map [symmetric])
  ultimately show "windows_ok limit (prune win tm ws)"
    using assms \<open>length (prune win tm ws) < MAX_TRACKED_KEYS\<close> unfolding windows_ok_def by fastforce
qed

lemma bump_props: "map fst (bump key ws) = map fst ws" "length (bump key ws) = length ws"
  by (simp_all add: bump_def case_prod_beta if_distrib)

lemma take_one_below:
  assumes "windows_ok limit ws" and "1 \<le> limit" and "length ws < MAX_TRACKED_KEYS"
  shows "windows_ok limit (snd (take_one limit win tm key ws))"
    "fst (take_one limit win tm key ws) \<longleftrightarrow>
      \<not> (\<exists>w. map_of ws key = Some w \<and> tm - winStart w < win \<and> limit \<le> winCount w)"
proof -
  let ?fresh = "filter (\<lambda>(k, w). k \<noteq> key) ws @ [(key, \<lparr>winStart = tm, winCount = 1\<rparr>)]"
  have "length (filter (\<lambda>(k, w). k \<noteq> key) ws) < MAX_TRACKED_KEYS"
    using length_filter_le [of "\<lambda>(k, w). k \<noteq> key" ws] assms(3) by linarith
  then have fresh: "windows_ok limit ?fresh"
    using assms unfolding windows_ok_def by (auto simp: distinct_map_filter)
  have bumped: "windows_ok limit (bump key ws)" if "map_of ws key = Some w" "winCount w < limit" for w
  proof -
    have "winCount v \<le> limit \<and> 1 \<le> winCount v" if b: "(k, v) \<in> set (bump key ws)" for k v
    proof -
      obtain u where u: "(k, u) \<in> set ws" "v = (if k = key then u\<lparr>winCount := winCount u + 1\<rparr> else u)"
        using b by (auto simp: bump_def split: if_splits)
      have "k = key \<Longrightarrow> u = w"
        using map_of_is_SomeI [of ws k u] u(1) assms(1) \<open>map_of ws key = Some w\<close> by (auto simp: windows_ok_def)
      with u assms(1) \<open>winCount w < limit\<close> show ?thesis by (fastforce simp: windows_ok_def)
    qed
    then show ?thesis using assms(1) unfolding windows_ok_def bump_props by fastforce
  qed
  show "windows_ok limit (snd (take_one limit win tm key ws))"
    using assms fresh bumped by (cases "map_of ws key") (simp_all add: take_one_def Let_def)
  show "fst (take_one limit win tm key ws) \<longleftrightarrow>
      \<not> (\<exists>w. map_of ws key = Some w \<and> tm - winStart w < win \<and> limit \<le> winCount w)"
    using assms(3) by (cases "map_of ws key") (auto simp: take_one_def Let_def)
qed

lemma take_one_full:
  "length ws \<ge> MAX_TRACKED_KEYS \<Longrightarrow> length (prune win tm ws) < MAX_TRACKED_KEYS \<Longrightarrow>
     take_one limit win tm key ws = take_one limit win tm key (prune win tm ws)"
  by (simp add: take_one_def)

text \<open>
  C32: the quota's books stay bounded and honest. Whatever the keys and the clock, a limiter holds at
  most \<open>MAX_TRACKED_KEYS\<close> windows, one per key, and no window ever counts more takes than the limit;
  below that bound a take is refused exactly when its key's window is still open and full.
\<close>

theorem take_one_quota:
  assumes "windows_ok limit ws" and "1 \<le> limit"
  shows "windows_ok limit (snd (take_one limit win tm key ws)) \<and>
    (length ws < MAX_TRACKED_KEYS \<longrightarrow> (fst (take_one limit win tm key ws) \<longleftrightarrow>
      \<not> (\<exists>w. map_of ws key = Some w \<and> tm - winStart w < win \<and> limit \<le> winCount w)))"
  using take_one_below [OF assms] prune_props [OF assms(1)] take_one_full [of ws win tm limit key]
    take_one_below(1) [OF prune_props(1) [OF assms(1)] assms(2) prune_props(2) [OF assms(1)]]
  by (cases "length ws < MAX_TRACKED_KEYS") (auto simp: not_less)

theorem take_one_quota_witness:
  "windows_ok 5 (snd (take_one 5 900 100 ''ip'' [(''ip'', \<lparr>winStart = 0, winCount = 5\<rparr>)])) \<and>
   \<not> fst (take_one 5 900 100 ''ip'' [(''ip'', \<lparr>winStart = 0, winCount = 5\<rparr>)])"
  using take_one_quota [of 5 "[(''ip'', \<lparr>winStart = 0, winCount = 5\<rparr>)]" 900 100 "''ip''"]
  by (auto simp: windows_ok_def MAX_TRACKED_KEYS_def)

end
