(* ===== verification/Chain_Clock.thy ===== *)
theory Chain_Clock
  imports Swap_Store Timelocks
begin

text \<open>
  \<^verbatim>\<open>solver-corridors/src/chainClock.ts\<close>: a refund deadline read against the clock it was written for. A
  height needs the chain tip, which is an optional port.
\<close>

type_synonym chain_tip = "(nat \<Rightarrow> exn + int) option"

definition absoluteLocktimeFor ::
    "('act \<Rightarrow> 'db \<Rightarrow> 'db option) \<Rightarrow> ('db, 'act) schedule \<Rightarrow> chain_tip \<Rightarrow> int \<Rightarrow> int \<Rightarrow> ('db, 'act, int) worker" where
  "absoluteLocktimeFor exec sc chainTip deadlineSeconds ladderDelay =
     (if delayUnit (relativeDelayFrom ladderDelay) = Seconds then ret deadlineSeconds
      else case chainTip of
        None \<Rightarrow> throw (Thrown ''block-typed timelocks, but no chainTip provider is wired'')
      | Some tip \<Rightarrow>
          bnd (now sc) (\<lambda>tm.
          bnd (ask exec sc tip) (\<lambda>h.
          case absoluteLocktimeIn deadlineSeconds Blocks \<lparr>momentNow = tm, tipHeight = h\<rparr> of
            Inl _ \<Rightarrow> throw (Thrown ''deadline is not a block height'')
          | Inr locktime \<Rightarrow> ret locktime)))"

definition refundDeadlineSeconds ::
    "('act \<Rightarrow> 'db \<Rightarrow> 'db option) \<Rightarrow> ('db, 'act) schedule \<Rightarrow> chain_tip \<Rightarrow> int \<Rightarrow> ('db, 'act, int) worker" where
  "refundDeadlineSeconds exec sc chainTip refundLocktime =
     bnd (now sc) (\<lambda>tm.
     if absoluteLocktimeUnit refundLocktime = Seconds then ret refundLocktime
     else case chainTip of
       None \<Rightarrow> throw (Thrown ''refund locktime is a block height, but no chainTip provider is wired'')
     | Some tip \<Rightarrow> bnd (ask exec sc tip) (\<lambda>h.
         ret (absoluteLocktimeSeconds refundLocktime \<lparr>momentNow = tm, tipHeight = h\<rparr>)))"

definition refundDeadlineReached ::
    "('act \<Rightarrow> 'db \<Rightarrow> 'db option) \<Rightarrow> ('db, 'act) schedule \<Rightarrow> chain_tip \<Rightarrow> int \<Rightarrow> ('db, 'act, bool) worker" where
  "refundDeadlineReached exec sc chainTip refundLocktime =
     bnd (now sc) (\<lambda>tm.
     if absoluteLocktimeUnit refundLocktime = Seconds then ret (tm \<ge> refundLocktime)
     else case chainTip of
       None \<Rightarrow> throw (Thrown ''refund locktime is a block height, but no chainTip provider is wired'')
     | Some tip \<Rightarrow> bnd (ask exec sc tip) (\<lambda>h.
         ret (absoluteLocktimeReached refundLocktime \<lparr>momentNow = tm, tipHeight = h\<rparr>)))"

context interference
begin

lemma keeps_absoluteLocktimeFor: "keeps I (absoluteLocktimeFor exec sc tip t d)"
  unfolding absoluteLocktimeFor_def by (intro keep keeps_now keeps_ask)

lemma keeps_refundDeadlineSeconds: "keeps I (refundDeadlineSeconds exec sc tip t)"
  unfolding refundDeadlineSeconds_def by (intro keep keeps_now keeps_ask)

lemma keeps_refundDeadlineReached: "keeps I (refundDeadlineReached exec sc tip t)"
  unfolding refundDeadlineReached_def by (intro keep keeps_now keeps_ask)

end

end
