(* ===== verification/Sweeps.thy ===== *)
theory Sweeps
  imports Swap_Store
begin

text \<open>
  \<^verbatim>\<open>solver-core/src/util/sweep.ts\<close>: drive one swap until it stops advancing, and tick every row of a
  sweep once; \<^verbatim>\<open>util/poll.ts\<close>: wait for something to appear. The locale \<open>driver\<close> is what the loop asks of a corridor: reading a row teaches something
  that no concurrent action can take away, and that is all a step relies on.
\<close>

text \<open>The loop of \<open>guardedTick\<close>; running out of fuel is \<open>None\<close>.\<close>

fun drive_loop ::
    "('row \<Rightarrow> ('db, 'act, bool) worker) \<Rightarrow> ('db, 'act, 'row) worker \<Rightarrow> nat \<Rightarrow> 'row \<Rightarrow> ('db, 'act, unit option) worker" where
  "drive_loop step get 0 row = ret None"
| "drive_loop step get (Suc fuel) row =
     bnd (step row) (\<lambda>advanced.
     if \<not> advanced then ret (Some ()) else bnd get (drive_loop step get fuel))"

text \<open>\<open>busy\<close>: another tick of this process is driving the swap (\<open>inFlight\<close>).\<close>

definition guardedTick ::
    "('row \<Rightarrow> ('db, 'act, bool) worker) \<Rightarrow> (string \<Rightarrow> ('db, 'act, 'row) worker) \<Rightarrow> nat \<Rightarrow> bool \<Rightarrow> string \<Rightarrow>
     ('db, 'act, 'row option) worker" where
  "guardedTick step get fuel busy i =
     (if busy then bnd (get i) (\<lambda>row. ret (Some row))
      else bnd (get i) (\<lambda>row.
        bnd (drive_loop step (get i) fuel row) (\<lambda>ended.
        bnd (get i) (\<lambda>final. ret (map_option (\<lambda>_. final) ended)))))"

text \<open>A sweep with one worker: each row ticked once, a throw isolated to its row.\<close>

fun sweep ::
    "(string \<Rightarrow> ('db, 'act, 'a) worker) \<Rightarrow> (string \<Rightarrow> ('db, 'act, 'row) worker) \<Rightarrow> (string \<Rightarrow> bool) \<Rightarrow> string list \<Rightarrow>
     ('db, 'act, unit) worker" where
  "sweep tick get skip [] = ret ()"
| "sweep tick get skip (i # is) =
     (if skip i then sweep tick get skip is
      else thn (catch (thn (tick i) (ret ())) (\<lambda>_. catch (thn (get i) (ret ())) (\<lambda>_. ret ())))
        (sweep tick get skip is))"

text \<open>
  \<^verbatim>\<open>solver-core/src/util/poll.ts\<close>: probe until there is a value. \<open>GiveUp\<close> ends the poll, any other throw
  of the probe is one failed attempt. \<open>attempts\<close> is \<open>None\<close> for \<open>Infinity\<close>; a poll that is still waiting
  when its fuel runs out has not returned, which no code can tell from the death of the process.
\<close>

fun poll ::
    "('db, 'act, 'a option) worker \<Rightarrow> ('db, 'act, unit) worker \<Rightarrow> nat option \<Rightarrow> string \<Rightarrow> nat \<Rightarrow> nat \<Rightarrow> exn option \<Rightarrow>
     ('db, 'act, 'a) worker" where
  "poll probe sleep attempts whenExhausted 0 attempt lastError = throw Crash"
| "poll probe sleep attempts whenExhausted (Suc fuel) attempt lastError =
     (if (case attempts of None \<Rightarrow> False | Some n \<Rightarrow> attempt \<ge> n)
      then throw (Thrown (whenExhausted @
        (case lastError of None \<Rightarrow> [] | Some e \<Rightarrow> ''; last error: '' @ message e)))
      else bnd (catch (bnd probe (\<lambda>v. ret (Inr v)))
          (\<lambda>e. case e of GiveUp m \<Rightarrow> throw e | _ \<Rightarrow> ret (Inl e))) (\<lambda>res.
        case res of
          Inr (Some v) \<Rightarrow> ret v
        | Inr None \<Rightarrow>
            thn (only_if (attempts \<noteq> Some (Suc attempt)) sleep)
              (poll probe sleep attempts whenExhausted fuel (Suc attempt) None)
        | Inl e \<Rightarrow>
            thn (only_if (attempts \<noteq> Some (Suc attempt)) sleep)
              (poll probe sleep attempts whenExhausted fuel (Suc attempt) (Some e))))"

lemma keeps_poll:
  assumes "keeps I probe" and "keeps I sleep"
  shows "keeps I (poll probe sleep attempts whenExhausted fuel attempt lastError)"
proof (induction fuel arbitrary: attempt lastError)
  case (Suc fuel)
  show ?case unfolding poll.simps by (intro keep assms Suc.IH)
qed (simp add: keeps_throw)

text \<open>
  An unbounded poll ends once its probe gives up: at every position from \<open>N\<close> on it does, and every
  attempt takes time.
\<close>

lemma poll_ends:
  fixes probe :: "('db, 'act, 'a option) worker" and sleep :: "('db, 'act, unit) worker"
  assumes "\<And>w r w'. probe w = (r, w') \<Longrightarrow> wPos w < wPos w' \<and> r \<noteq> Inl Crash"
    and "\<And>w. N \<le> wPos w \<Longrightarrow> \<exists>m. fst (probe w) = Inl (GiveUp m)"
    and "\<And>w r w'. sleep w = (r, w') \<Longrightarrow> r = Inr () \<and> wPos w \<le> wPos w'"
    and "N - wPos w < fuel"
  shows "fst (poll probe sleep None msg fuel attempt lastError w) \<noteq> Inl Crash"
  using assms(4)
proof (induction fuel arbitrary: attempt lastError w)
  case (Suc fuel)
  obtain r w1 where p: "probe w = (r, w1)" by fastforce
  note adv = assms(1) [OF p]
  obtain u w2 where z: "sleep w1 = (u, w2)" by fastforce
  note nap = assms(3) [OF z]
  have again: "fst (poll probe sleep None msg fuel a l w2) \<noteq> Inl Crash" if "wPos w < N" for a l
    by (rule Suc.IH) (use Suc.prems adv nap that in linarith)
  show ?case
  proof (cases r)
    case (Inl e)
    show ?thesis
    proof (cases "\<exists>m. e = GiveUp m")
      case True
      then show ?thesis using p Inl by (auto simp: bnd_def catch_def throw_def)
    next
      case False
      then have "wPos w < N" using assms(2) [of w] p Inl by (cases "N \<le> wPos w") auto
      then show ?thesis using p Inl False adv z nap again
        by (cases e) (simp_all add: bnd_def catch_def throw_def ret_def only_if_def)
    qed
  next
    case (Inr v)
    then have "wPos w < N" using assms(2) [of w] p by (cases "N \<le> wPos w") auto
    then show ?thesis using p Inr z nap again
      by (cases v) (simp_all add: bnd_def catch_def ret_def only_if_def)
  qed
qed simp

locale driver =
  fixes exec :: "'act \<Rightarrow> ('s, 'c) db \<Rightarrow> ('s, 'c) db option"
    and follow :: "(('s, 'c) db \<Rightarrow> bool) \<Rightarrow> (('s, 'c) db, 'act) world \<Rightarrow> bool"
    and inv :: "('s, 'c) db \<Rightarrow> bool"
    and know :: "'row \<Rightarrow> ('s, 'c) db \<Rightarrow> bool"
    and get :: "string \<Rightarrow> (('s, 'c) db, 'act, 'row) worker"
    and step :: "'row \<Rightarrow> (('s, 'c) db, 'act, bool) worker"
  assumes follow_conj: "follow (\<lambda>d. K d \<and> L d) w \<longleftrightarrow> follow K w \<and> L (wDb w)"
    and know_stable: "stable exec (know row)"
    and know_inv: "know row d \<Longrightarrow> inv d"
    and get_knows: "stable exec K \<Longrightarrow> (\<And>d. K d \<Longrightarrow> inv d) \<Longrightarrow>
      spec (follow K) (get i) (\<lambda>r w. follow K w \<and> (\<forall>row. r = Inr row \<longrightarrow> know row (wDb w)))"
    and step_keeps: "stable exec K \<Longrightarrow> (\<And>d. K d \<Longrightarrow> know row d) \<Longrightarrow> keeps (follow K) (step row)"
begin

lemma keeps_get:
  assumes "stable exec K" and "\<And>d. K d \<Longrightarrow> inv d"
  shows "keeps (follow K) (get i)"
  by (rule spec_weaken [OF get_knows [OF assms]]) auto

lemma keeps_get_then:
  assumes "stable exec K" and "\<And>d. K d \<Longrightarrow> inv d" and "\<And>row. keeps (follow (\<lambda>d. K d \<and> know row d)) (f row)"
  shows "keeps (follow K) (bnd (get i) f)"
  using get_knows [OF assms(1,2)] follow_conj assms(3) by (rule keeps_knowing)

lemma keeps_drive_loop:
  assumes "stable exec K" and "\<And>d. K d \<Longrightarrow> know row d"
  shows "keeps (follow K) (drive_loop step (get i) fuel row)"
  using assms
proof (induction fuel arbitrary: K row)
  case (Suc fuel)
  have inv: "inv d" if "K d" for d using know_inv [OF Suc.prems(2) [OF that]] .
  have rest: "keeps (follow (\<lambda>d. K d \<and> know row' d)) (drive_loop step (get i) fuel row')" for row'
    by (rule Suc.IH [OF stable_conj [OF Suc.prems(1) know_stable]]) simp
  show ?case unfolding drive_loop.simps
    by (intro keep step_keeps [OF Suc.prems] keeps_get_then [OF Suc.prems(1) inv rest])
qed (simp add: keeps_ret)

lemma keeps_guardedTick:
  assumes K: "stable exec K" and inv: "\<And>d. K d \<Longrightarrow> inv d"
  shows "keeps (follow K) (guardedTick step get fuel busy i)"
proof -
  have body: "keeps (follow (\<lambda>d. K d \<and> know row d)) (bnd (drive_loop step (get i) fuel row) (\<lambda>ended.
      bnd (get i) (\<lambda>final. ret (map_option (\<lambda>_. final) ended))))" for row
    by (intro keep keeps_drive_loop keeps_get stable_conj [OF K know_stable]) (simp_all add: inv)
  have "keeps (follow K) (bnd (get i) (\<lambda>row. bnd (drive_loop step (get i) fuel row) (\<lambda>ended.
      bnd (get i) (\<lambda>final. ret (map_option (\<lambda>_. final) ended)))))"
    by (rule keeps_get_then [OF K inv body])
  then show ?thesis unfolding guardedTick_def by (simp add: keeps_bnd [OF keeps_get [OF K inv] keeps_ret])
qed

lemma keeps_sweep:
  assumes K: "stable exec K" and inv: "\<And>d. K d \<Longrightarrow> inv d"
  shows "keeps (follow K) (sweep (\<lambda>i. guardedTick step get fuel (busy i) i) get skip is)"
proof (induction "is")
  case (Cons i "is")
  show ?case unfolding sweep.simps by (intro keep keeps_get [OF K inv] keeps_guardedTick [OF K inv] Cons.IH)
qed (simp add: keeps_ret)

end

end
