(* ===== verification/Lightning_Port.thy ===== *)
theory Lightning_Port
  imports Main
begin

text \<open>
  The answers of a Lightning backend, \<^verbatim>\<open>solver-core/src/ports/lightning.ts\<close>. The backends themselves are
  adapters to third-party nodes and stay parameters.
\<close>

datatype PaymentStatus = P_pending | P_succeeded | P_failed

record PaymentResult =
  pmId :: string
  pmStatus :: PaymentStatus
  pmEvidence :: "string option"
  pmFailureReason :: "string option"
  pmPreimage :: "string option"
  pmFeePaidSats :: "int option"

datatype SendHtlcStatus = Htlc_committed | Htlc_settled | Htlc_returned

record SendHtlcState =
  shtStatus :: SendHtlcStatus
  shtPreimage :: "string option"

datatype HoldStatus = H_pending | H_armed | H_settled | H_cancelled | H_unknown

record HoldState =
  hsStatus :: HoldStatus
  hsExpiresAt :: "int option"

end
