(* ===== verification/Send_Orchestrator.thy ===== *)
theory Send_Orchestrator
  imports Send_Store Unrolled_Claims Pricing Chain_Clock Sweeps Lightning_Port
begin

text \<open>
  \<^verbatim>\<open>solver-corridors/src/send/orchestrator.ts\<close>: the driver of the \<open>arkade:BTC->lightning:BTC\<close> leg, handler
  by handler, with the steps it takes from \<^verbatim>\<open>unrolledSpendStep.ts\<close>. A handler is a
  worker on the send table: it awaits where the code awaits, may die at every await and shares the
  table with any number of others. The Lightning backend, the Arkade wallet, the chain tip, the
  coupled receive store and the approval gate are the fields of \<open>SendServiceDeps\<close>: functions from the
  position in the schedule to an answer or an error. Logging hooks (\<open>onTickError\<close>, \<open>onFundingTiming\<close>)
  are left out.
\<close>

section \<open>Ports\<close>

record CoupledReceiveRow =
  crState :: LnReceiveSwapState
  crInvoice :: string
  crRefundLocktime :: int
  crPkScript :: string
  crHtlcExpiresAt :: "int option"
  crFundStartedAt :: "int option"
  crInvoiceWalletFingerprint :: "string option"
  crInvoiceBackendName :: "string option"

record Coupling =
  cpFindLive :: "nat \<Rightarrow> string \<Rightarrow> exn + CoupledReceiveRow option"
  cpFindAny :: "nat \<Rightarrow> string \<Rightarrow> exn + CoupledReceiveRow option"
  cpOutpoints :: "nat \<Rightarrow> string \<Rightarrow> exn + LockupOutpoint list"
  cpClaimPreimage :: "nat \<Rightarrow> LockupOutpoint list \<Rightarrow> string \<Rightarrow> exn + string option"

text \<open>
  An optional method of a port is an optional field. \<open>dpClaimUnrolled\<close> answers with the records it saved
  through its callback before it ended and with how it ended.
\<close>

record SendServiceDeps =
  dpSchedule :: send_schedule
  dpHexDecode :: "string \<Rightarrow> nat list option"
  dpSha256Hex :: "nat list \<Rightarrow> string"
  dpDecodeBolt11 :: bolt11_decode
  dpNumberOf :: "string \<Rightarrow> jsnum"
  dpProviderPubkey :: string
  dpBackendName :: "string option"
  dpNetwork :: "SwapNetwork option"
  dpLockupTimeout :: int
  dpDenylist :: "string list"
  dpRouteBudget :: int
  dpEnforces :: bool
  dpRecourse :: "SendSwapRow \<Rightarrow> string"
  dpFindLockups :: "nat \<Rightarrow> string \<Rightarrow> exn + FundedOutput list"
  dpProvablySpent :: "nat \<Rightarrow> string \<Rightarrow> exn + bool"
  dpSpendEvidence :: "nat \<Rightarrow> string \<Rightarrow> exn + LockupSpendEvidence"
  dpClaim :: "nat \<Rightarrow> exn + string"
  dpFinalizePendingClaim :: "(nat \<Rightarrow> exn + string option) option"
  dpRefund :: "nat \<Rightarrow> exn + string"
  dpLockupOutpoints :: "(nat \<Rightarrow> string \<Rightarrow> exn + LockupOutpoint list) option"
  dpFindClaimPreimage :: "(nat \<Rightarrow> LockupOutpoint \<Rightarrow> string \<Rightarrow> exn + string option) option"
  dpClaimUnrolled :: "(nat \<Rightarrow> string \<times> int \<Rightarrow> string option \<Rightarrow> string list \<times> (exn + unrolled_step)) option"
  dpPayInvoice :: "nat \<Rightarrow> exn + PaymentResult"
  dpGetPayment :: "nat \<Rightarrow> string \<Rightarrow> exn + PaymentResult"
  dpGetSendHtlcState :: "(nat \<Rightarrow> string \<Rightarrow> exn + SendHtlcState option) option"
  dpWalletFingerprint :: "(nat \<Rightarrow> exn + string) option"
  dpGetOwnInvoiceState :: "(nat \<Rightarrow> string \<Rightarrow> exn + HoldStatus option) option"
  dpGetKnownInvoiceState :: "(nat \<Rightarrow> string \<Rightarrow> exn + HoldStatus) option"
  dpChainTip :: "(nat \<Rightarrow> exn + int) option"
  dpApprovalGate :: "(nat \<Rightarrow> string \<Rightarrow> int \<Rightarrow> exn + bool) option"
  dpCoupling :: "Coupling option"

abbreviation opens_of :: "SendServiceDeps \<Rightarrow> string \<Rightarrow> string \<Rightarrow> bool" where
  "opens_of dp \<equiv> preimageMatchesHash (dpHexDecode dp) (dpSha256Hex dp)"

abbreviation store_of :: "SendServiceDeps \<Rightarrow> send_store" where
  "store_of dp \<equiv> swap_store_on (opens_of dp) (dpSchedule dp)"

abbreviation call :: "SendServiceDeps \<Rightarrow> (nat \<Rightarrow> exn + 'a) \<Rightarrow> 'a send_job" where
  "call dp f \<equiv> ask (exec_send (opens_of dp)) (dpSchedule dp) f"

abbreviation commit_act :: "SendServiceDeps \<Rightarrow> send_act \<Rightarrow> (nat \<Rightarrow> exn + 'a) \<Rightarrow> 'a send_job" where
  "commit_act dp a f \<equiv> perform (exec_send (opens_of dp)) (dpSchedule dp) a f"

abbreviation clock :: "SendServiceDeps \<Rightarrow> int send_job" where
  "clock dp \<equiv> now (dpSchedule dp)"

section \<open>Probes\<close>

abbreviation deadlineSeconds :: "SendServiceDeps \<Rightarrow> int \<Rightarrow> int send_job" where
  "deadlineSeconds dp \<equiv> refundDeadlineSeconds (exec_send (opens_of dp)) (dpSchedule dp) (dpChainTip dp)"

abbreviation deadlineReached :: "SendServiceDeps \<Rightarrow> int \<Rightarrow> bool send_job" where
  "deadlineReached dp \<equiv> refundDeadlineReached (exec_send (opens_of dp)) (dpSchedule dp) (dpChainTip dp)"

text \<open>\<open>core/approvalGate.ts\<close>, \<open>askApproval\<close>.\<close>

definition askApproval :: "SendServiceDeps \<Rightarrow> string \<Rightarrow> int \<Rightarrow> bool send_job" where
  "askApproval dp swapId amountSats = (case dpApprovalGate dp of
     None \<Rightarrow> ret True | Some gate \<Rightarrow> call dp (\<lambda>n. gate n swapId amountSats))"

text \<open>\<open>walletFingerprint?.().catch(() => undefined)\<close>.\<close>

definition fingerprint :: "SendServiceDeps \<Rightarrow> string option send_job" where
  "fingerprint dp = (case dpWalletFingerprint dp of
     None \<Rightarrow> ret None
   | Some f \<Rightarrow> catch (bnd (call dp f) (\<lambda>s. ret (Some s))) (\<lambda>_. ret None))"

definition decode_row :: "SendServiceDeps \<Rightarrow> string \<Rightarrow> DecodedInvoice send_job" where
  "decode_row dp invoice =
     (case decodeInvoice (dpDecodeBolt11 dp) (dpNumberOf dp) invoice (dpDenylist dp) of
        Inl e \<Rightarrow> throw (Thrown ''InvalidInvoice'') | Inr d \<Rightarrow> ret d)"

definition cltv_of :: "SendServiceDeps \<Rightarrow> DecodedInvoice \<Rightarrow> HtlcCltv" where
  "cltv_of dp di =
     \<lparr>minFinalCltvBlocks = invMinFinalCltvBlocks di,
      worstRouteHintCltvBlocks = invWorstRouteHintCltvBlocks di,
      bestRouteHintCltvBlocks = invBestRouteHintCltvBlocks di,
      routeCltvBudgetBlocks = dpRouteBudget dp, enforcesRouteCltv = dpEnforces dp\<rparr>"

section \<open>Refunds\<close>

definition SP :: "send_col \<Rightarrow> string \<Rightarrow> send_col \<times> sqlval" where
  "SP c s = (c, SText s)"

definition opt_field :: "send_col \<Rightarrow> string option \<Rightarrow> send_col fields" where
  "opt_field c v = (case truthy v of Some s \<Rightarrow> [(c, SText s)] | None \<Rightarrow> [])"

definition pushRefund :: "SendServiceDeps \<Rightarrow> SendSwapRow \<Rightarrow> bool send_job" where
  "pushRefund dp row =
     bnd (call dp (\<lambda>n. dpFindLockups dp n (srPkScript row))) (\<lambda>outputs.
     if outputs = [] then
       bnd (call dp (\<lambda>n. dpProvablySpent dp n (srPkScript row))) (\<lambda>spent.
       thn (only_if spent (patchSwap (store_of dp) (srId row) [(C_refund_outcome, SText ''external'')]))
       (ret False))
     else
       bnd (commit_act dp (RefundLockup (srId row)) (dpRefund dp)) (\<lambda>txid.
       bnd (clock dp) (\<lambda>tm.
       let all = (length (boundedSpendInputs outputs tm) = length outputs) in
       thn (patchSwap (store_of dp) (srId row)
         ((if all then [(C_refund_outcome, SText ''pushed'')] else []) @ [(C_refund_ark_txid, SText txid)]))
       (ret True))))"

text \<open>
  Only the two Arkade calls are tried; what they did is recorded best-effort. \<open>Some (txid, all)\<close> is a
  refund on the wire, \<open>all\<close> when it took every output.
\<close>

definition refundAfterTerminalFailure :: "SendServiceDeps \<Rightarrow> SendSwapRow \<Rightarrow> bool send_job" where
  "refundAfterTerminalFailure dp row =
     bnd (catch
       (bnd (call dp (\<lambda>n. dpFindLockups dp n (srPkScript row))) (\<lambda>outputs.
        if outputs = [] then
          thn (catch (patchSwap (store_of dp) (srId row) [(C_refund_attempt, SText ''nothing-at-script'')])
            (\<lambda>_. ret ())) (ret None)
        else
          bnd (commit_act dp (RefundLockup (srId row)) (dpRefund dp)) (\<lambda>txid.
          bnd (clock dp) (\<lambda>tm.
          ret (Some (txid, length (boundedSpendInputs outputs tm) = length outputs))))))
       (\<lambda>e. thn (catch (patchSwap (store_of dp) (srId row)
            [(C_refund_attempt, SText (take 500 (''failed: '' @ message e)))]) (\<lambda>_. ret ())) (ret None)))
     (\<lambda>res. case res of
        None \<Rightarrow> ret False
      | Some (txid, all) \<Rightarrow>
          thn (catch (patchSwap (store_of dp) (srId row)
            ((if all then [(C_refund_outcome, SText ''pushed'')] else []) @
             [(C_refund_ark_txid, SText txid), (C_refund_attempt, SText ''pushed'')])) (\<lambda>_. ret ()))
          (ret True))"

datatype SelfPaymentVerdict = V_resolved | V_withhold | V_not_ours | V_unknown

definition stuckBecause :: "bool \<Rightarrow> SelfPaymentVerdict \<Rightarrow> string" where
  "stuckBecause refunded verdict =
     (if verdict = V_withhold then ''refund withheld'' @ dash @ ''our own node may still collect against this hash''
      else if \<not> refunded then ''the refund did not land'' @ dash @ ''see refund_attempt''
      else ''client refunded, but the self-payment probe could not be asked'')"

definition refundProvenSelfPayment ::
    "SendServiceDeps \<Rightarrow> SendSwapRow \<Rightarrow> LnSendSwapState \<Rightarrow> SelfPaymentVerdict send_job" where
  "refundProvenSelfPayment dp row from = (case dpGetOwnInvoiceState dp of
     None \<Rightarrow> ret V_unknown
   | Some probe \<Rightarrow>
       bnd (catch (bnd (call dp (\<lambda>n. probe n (srPaymentHash row))) (\<lambda>own. ret (Some own))) (\<lambda>_. ret None)) (\<lambda>asked.
       case asked of
         None \<Rightarrow> ret V_unknown
       | Some None \<Rightarrow> ret V_not_ours
       | Some (Some status) \<Rightarrow>
           if status \<noteq> H_pending \<and> status \<noteq> H_cancelled then ret V_withhold
           else
             bnd (transition (store_of dp) (srId row) from S_refused
               [SP C_failure_reason ''self-payment failed terminally; our own node says it was never paid'']) (\<lambda>won.
             if \<not> won then ret V_withhold
             else if srClientRefundPubkey row = None then ret V_resolved
             else thn (catch (thn (pushRefund dp row) (ret ())) (\<lambda>_. ret ())) (ret V_resolved))))"

definition settleTerminalFailure ::
    "SendServiceDeps \<Rightarrow> SendSwapRow \<Rightarrow> LnSendSwapState \<Rightarrow> bool \<Rightarrow> SelfPaymentVerdict \<Rightarrow> unit send_job" where
  "settleTerminalFailure dp row from refunded verdict =
     (if \<not> (refunded \<and> verdict = V_not_ours)
      then failRow (store_of dp) (srId row) from
        (''lightning payment failed terminally; '' @ stuckBecause refunded verdict)
      else thn (transition (store_of dp) (srId row) from S_refused
        [SP C_failure_reason ''lightning payment failed terminally; client refunded'']) (ret ()))"

text \<open>The common end of a payment that provably died, from the immediate answer or a later poll.\<close>

definition after_terminal_failure :: "SendServiceDeps \<Rightarrow> SendSwapRow \<Rightarrow> LnSendSwapState \<Rightarrow> bool send_job" where
  "after_terminal_failure dp row from =
     bnd (refundProvenSelfPayment dp row from) (\<lambda>verdict.
     if verdict = V_resolved then ret False
     else bnd (if verdict \<noteq> V_withhold then refundAfterTerminalFailure dp row else ret False) (\<lambda>refunded.
       thn (settleTerminalFailure dp row from refunded verdict) (ret False)))"

section \<open>Paying\<close>

definition claimWithPreimage ::
    "SendServiceDeps \<Rightarrow> string \<Rightarrow> string \<Rightarrow> string \<Rightarrow> LnSendSwapState \<Rightarrow> bool send_job" where
  "claimWithPreimage dp i paymentHash preimage from =
     (if \<not> preimageMatchesHash (dpHexDecode dp) (dpSha256Hex dp) preimage paymentHash
      then thn (failRow (store_of dp) i from ''preimage does not match the payment hash'') (ret False)
      else transition (store_of dp) i from S_claiming [(C_preimage, SText preimage)])"

definition NO_RECORD_GRACE_SECONDS :: int where [policy]: "NO_RECORD_GRACE_SECONDS = 60"
definition ORPHANED_REGISTRATION_SECONDS :: int where [policy]: "ORPHANED_REGISTRATION_SECONDS = 3600"

fun cover_deadline :: "int \<Rightarrow> int \<Rightarrow> int \<Rightarrow> FundedOutput list \<Rightarrow> int" where
  "cover_deadline deadline covered funded [] = deadline"
| "cover_deadline deadline covered funded (o1 # os) =
     (if covered \<ge> funded then deadline
      else cover_deadline (case foExpiresAt o1 of None \<Rightarrow> deadline | Some e \<Rightarrow> min deadline e)
        (covered + foValue o1) funded os)"

text \<open>Latest expiry first, an output without one before all others.\<close>

definition latest_first :: "FundedOutput list \<Rightarrow> FundedOutput list" where
  "latest_first outs = filter (\<lambda>o1. foExpiresAt o1 = None) outs @
     sort_key (\<lambda>o1. - the (foExpiresAt o1)) (filter (\<lambda>o1. foExpiresAt o1 \<noteq> None) outs)"

definition payDeadline :: "SendServiceDeps \<Rightarrow> SendSwapRow \<Rightarrow> int \<Rightarrow> int send_job" where
  "payDeadline dp row refundDeadline =
     bnd (call dp (\<lambda>n. dpFindLockups dp n (srPkScript row))) (\<lambda>outputs.
     let held = totalValue outputs; funded = (case srLockupValue row of Some v \<Rightarrow> v | None \<Rightarrow> held) in
     if outputs = [] \<or> held < funded then clock dp
     else if dpNetwork dp = Some Regtest then ret refundDeadline
     else ret (cover_deadline refundDeadline 0 funded (latest_first outputs)))"

definition refuseUnsubmittedPayment :: "SendServiceDeps \<Rightarrow> SendSwapRow \<Rightarrow> string \<Rightarrow> unit send_job" where
  "refuseUnsubmittedPayment dp row detail =
     bnd (transition (store_of dp) (srId row) S_paying S_refused
       [SP C_failure_reason (''refused before Lightning submission: '' @ detail)]) (\<lambda>won.
     only_if won (thn (refundAfterTerminalFailure dp row) (ret ())))"

text \<open>A gate of \<open>submitPayment\<close> that said no: refused when nothing can be committed, parked otherwise.\<close>

definition refuse_or_park :: "SendServiceDeps \<Rightarrow> SendSwapRow \<Rightarrow> bool \<Rightarrow> string \<Rightarrow> bool send_job" where
  "refuse_or_park dp row nothingCommitted reason =
     thn (if nothingCommitted
          then thn (transition (store_of dp) (srId row) (srState row) S_refused [SP C_failure_reason reason]) (ret ())
          else failRow (store_of dp) (srId row) (srState row) reason)
     (ret False)"

definition record_payment :: "SendServiceDeps \<Rightarrow> SendSwapRow \<Rightarrow> PaymentResult \<Rightarrow> bool send_job" where
  "record_payment dp row res =
     bnd (fingerprint dp) (\<lambda>wallet.
     bnd (clock dp) (\<lambda>tm.
     thn (patchSwap (store_of dp) (srId row)
       ([(C_payment_id, SText (pmId res)), (C_pay_attempted_at, SInt tm)] @
        opt_field C_payment_backend (dpBackendName dp) @ opt_field C_payment_wallet wallet @
        (case pmFeePaidSats res of None \<Rightarrow> [] | Some f \<Rightarrow> [(C_routing_fee_paid_sats, SInt f)])))
     (if pmStatus res = P_failed then after_terminal_failure dp row S_paying
      else bnd (transition (store_of dp) (srId row) S_paying S_paid [(C_payment_id, SText (pmId res))]) (\<lambda>won.
        if \<not> won then ret False
        else case truthy (pmPreimage res) of
          None \<Rightarrow> ret True
        | Some p \<Rightarrow> thn (claimWithPreimage dp (srId row) (srPaymentHash row) p S_paid) (ret True)))))"

definition submitPayment :: "SendServiceDeps \<Rightarrow> SendSwapRow \<Rightarrow> bool \<Rightarrow> bool send_job" where
  "submitPayment dp row nothingCommitted = (case truthy (srIdempotencyKey row) of
     None \<Rightarrow> thn (failRow (store_of dp) (srId row) (srState row) ''paying state with no idempotency key'') (ret False)
   | Some key \<Rightarrow>
       if srReceiverPubkey row \<noteq> dpProviderPubkey dp
       then refuse_or_park dp row nothingCommitted ''refused to pay: provider key rotated since quote''
       else bnd (deadlineSeconds dp (srRefundLocktime row)) (\<lambda>refundDeadline.
       if \<not> refundWithoutReceiverDelayCovers (srRefundWithoutReceiverDelay row)
            (case srQuotedRefundDeadline row of Some q \<Rightarrow> q | None \<Rightarrow> refundDeadline) (srCreatedAt row)
       then refuse_or_park dp row nothingCommitted ''refused to pay: client_solo_refund_too_soon''
       else bnd (decode_row dp (srInvoice row)) (\<lambda>invoice.
       let cltv = cltv_of dp invoice in
       bnd (payDeadline dp row refundDeadline) (\<lambda>deadline.
       bnd (clock dp) (\<lambda>tm1.
       if \<not> dpEnforces dp \<and> \<not> deadlineContainsHtlc cltv deadline tm1
       then refuse_or_park dp row nothingCommitted ''refused to pay: uncapped_route_deadline_too_short''
       else bnd (clock dp) (\<lambda>tm2.
       let maxCltvBlocks = payableCltvBlocks cltv deadline tm2 in
       if maxCltvBlocks \<le> minFinalCltvBlocks cltv + hintCltvBlocks cltv
       then refuse_or_park dp row nothingCommitted ''refused to pay: cltv_budget_too_short''
       else
         bnd (catch
           (bnd (commit_act dp (PayInvoice (srId row) (srInvoice row)
             (case srQuotedRoutingFeeSats row of Some f \<Rightarrow> f | None \<Rightarrow> maxRoutingFeeSats (invAmountSats invoice))
             key maxCltvBlocks) (dpPayInvoice dp)) (\<lambda>res. ret (Some res)))
           (\<lambda>e. case e of
              PaymentNotStarted msg \<Rightarrow>
                if nothingCommitted then thn (refuseUnsubmittedPayment dp row msg) (ret None) else throw e
            | _ \<Rightarrow> throw e))
         (\<lambda>outcome. case outcome of None \<Rightarrow> ret False | Some res \<Rightarrow> record_payment dp row res)))))))"

section \<open>The handler of paying\<close>

fun within_grace :: "int option \<Rightarrow> int \<Rightarrow> bool" where
  "within_grace None tm = False"
| "within_grace (Some attempted) tm = (tm - attempted < NO_RECORD_GRACE_SECONDS)"

definition recoverCommitted :: "SendServiceDeps \<Rightarrow> SendSwapRow \<Rightarrow> SendHtlcState \<Rightarrow> bool send_job" where
  "recoverCommitted dp row htlc = (case shtStatus htlc of
     Htlc_settled \<Rightarrow>
       (case truthy (shtPreimage htlc) of
          None \<Rightarrow> thn (failRow (store_of dp) (srId row) S_paying
            ''backend settled the payment but reported no preimage'') (ret False)
        | Some p \<Rightarrow>
            bnd (transition (store_of dp) (srId row) S_paying S_paid [(C_preimage, SText p)]) (\<lambda>won.
            if \<not> won then ret False
            else claimWithPreimage dp (srId row) (srPaymentHash row) p S_paid))
   | Htlc_returned \<Rightarrow>
       bnd (refundProvenSelfPayment dp row S_paying) (\<lambda>verdict.
       if verdict = V_resolved then ret False
       else thn (if verdict \<noteq> V_withhold then thn (refundAfterTerminalFailure dp row) (ret ()) else ret ())
         (thn (failRow (store_of dp) (srId row) S_paying ''lightning payment returned by the backend'') (ret False)))
   | Htlc_committed \<Rightarrow> ret False)"

definition whenHashBlocked :: "SendServiceDeps \<Rightarrow> SendSwapRow \<Rightarrow> exn \<Rightarrow> bool send_job" where
  "whenHashBlocked dp row e = (case srPayAttemptedAt row of
     None \<Rightarrow> throw e
   | Some since \<Rightarrow>
       bnd (clock dp) (\<lambda>tm.
       if tm - since < ORPHANED_REGISTRATION_SECONDS then throw e
       else thn (failRow (store_of dp) (srId row) S_paying
         (''orphaned registration: '' @ message e @ '', yet it reports no commitment for this hash'' @ dash @
          ''unpayable and unclearable by retrying. Read the wallet transfers before refunding or claiming.''))
         (ret False)))"

definition settleFromBackend :: "SendServiceDeps \<Rightarrow> SendSwapRow \<Rightarrow> LnSendSwapState \<Rightarrow> bool send_job" where
  "settleFromBackend dp row from = (case truthy (srPaymentId row) of
     None \<Rightarrow>
       (case truthy (srPreimage row) of
          None \<Rightarrow> ret False
        | Some p \<Rightarrow> claimWithPreimage dp (srId row) (srPaymentHash row) p S_paid)
   | Some pid \<Rightarrow>
       bnd (call dp (\<lambda>n. dpGetPayment dp n pid)) (\<lambda>polled.
       thn (only_if (pmEvidence polled \<noteq> None \<and> pmEvidence polled \<noteq> srPaymentEvidence row)
         (patchSwap (store_of dp) (srId row) [(C_payment_evidence, SText (the (pmEvidence polled)))]))
       (thn (only_if (pmFailureReason polled \<noteq> None \<and> pmFailureReason polled \<noteq> srPaymentFailureReason row)
         (patchSwap (store_of dp) (srId row) [(C_payment_failure_reason, SText (the (pmFailureReason polled)))]))
       (thn (only_if (pmFeePaidSats polled \<noteq> None \<and> pmFeePaidSats polled \<noteq> srRoutingFeePaidSats row)
         (patchSwap (store_of dp) (srId row) [(C_routing_fee_paid_sats, SInt (the (pmFeePaidSats polled)))]))
       (if pmStatus polled = P_failed then
          bnd (clock dp) (\<lambda>tm.
          if pmEvidence polled = Some ''no_record'' \<and>
             within_grace (srPayAttemptedAt row) tm then ret False
          else after_terminal_failure dp row from)
        else
          bnd (if from = S_paying then transition (store_of dp) (srId row) S_paying S_paid [] else ret True) (\<lambda>won.
          if \<not> won then ret False
          else case truthy (pmPreimage polled) of
            None \<Rightarrow> ret (from = S_paying)
          | Some p \<Rightarrow> claimWithPreimage dp (srId row) (srPaymentHash row) p S_paid))))))"

definition foreign :: "string option \<Rightarrow> string option \<Rightarrow> bool" where
  "foreign recorded live = (case (truthy recorded, truthy live) of
     (Some a, Some b) \<Rightarrow> a \<noteq> b | _ \<Rightarrow> False)"

fun or_question :: "string option \<Rightarrow> string" where
  "or_question (Some s) = s"
| "or_question None = ''?''"

definition whenPaying :: "SendServiceDeps \<Rightarrow> SendSwapRow \<Rightarrow> bool send_job" where
  "whenPaying dp row =
     (if truthy (srPaymentId row) \<noteq> None then settleFromBackend dp row S_paying
      else bnd (fingerprint dp) (\<lambda>liveWallet.
      if foreign (srPaymentBackend row) (dpBackendName dp) \<or> foreign (srPaymentWallet row) liveWallet
      then thn (failRow (store_of dp) (srId row) S_paying
        (''refused to re-submit: payment attempted on '' @ or_question (srPaymentBackend row) @ ''/'' @
         or_question (srPaymentWallet row) @ '', now on '' @ or_question (dpBackendName dp) @ ''/'' @
         or_question liveWallet @ ''; a payment there is invisible here'' @ dash @ ''reconcile before retry''))
        (ret False)
      else
        bnd (case dpGetSendHtlcState dp of
               None \<Rightarrow> ret None
             | Some probe \<Rightarrow> call dp (\<lambda>n. probe n (srPaymentHash row))) (\<lambda>committed.
        case committed of
          Some htlc \<Rightarrow> recoverCommitted dp row htlc
        | None \<Rightarrow>
            bnd (clock dp) (\<lambda>tm.
            if dpGetSendHtlcState dp \<noteq> None \<and>
               within_grace (srPayAttemptedAt row) tm then ret False
            else catch (submitPayment dp row (dpGetSendHtlcState dp \<noteq> None))
              (\<lambda>e. case e of
                 PaymentHashRegistered _ \<Rightarrow>
                   if dpGetSendHtlcState dp = None then throw e else whenHashBlocked dp row e
               | _ \<Rightarrow> throw e)))))"

section \<open>The handler of funded\<close>

text \<open>The probe of our own invoice for a coupled receive that failed: \<open>None\<close> when it cannot be asked.\<close>

definition probe_own_invoice ::
    "SendServiceDeps \<Rightarrow> SendSwapRow \<Rightarrow> CoupledReceiveRow \<Rightarrow> HoldStatus option send_job" where
  "probe_own_invoice dp row failed = (case (dpGetOwnInvoiceState dp, dpGetKnownInvoiceState dp) of
     (Some probe, _) \<Rightarrow> call dp (\<lambda>n. probe n (srPaymentHash row))
   | (None, None) \<Rightarrow> ret None
   | (None, Some known) \<Rightarrow>
       bnd (case dpWalletFingerprint dp of
              None \<Rightarrow> ret None | Some f \<Rightarrow> bnd (call dp f) (\<lambda>s. ret (Some s))) (\<lambda>currentWallet.
       if truthy (crInvoiceWalletFingerprint failed) = None \<or> truthy currentWallet = None \<or>
          crInvoiceWalletFingerprint failed \<noteq> currentWallet \<or>
          truthy (crInvoiceBackendName failed) = None \<or> crInvoiceBackendName failed \<noteq> dpBackendName dp
       then ret None
       else bnd (call dp (\<lambda>n. known n (srPaymentHash row))) (\<lambda>s. ret (Some s))))"

definition refund_failed_coupling ::
    "SendServiceDeps \<Rightarrow> SendSwapRow \<Rightarrow> CoupledReceiveRow \<Rightarrow> bool send_job" where
  "refund_failed_coupling dp row failed =
     (if crFundStartedAt failed \<noteq> None \<or> crHtlcExpiresAt failed \<noteq> None then ret False
      else bnd (probe_own_invoice dp row failed) (\<lambda>own.
      if own \<noteq> Some H_pending \<and> own \<noteq> Some H_cancelled then ret False
      else bnd (transition (store_of dp) (srId row) S_funded S_refused
          [SP C_failure_reason ''coupled receive refused before funding; client refund pending'']) (\<lambda>won.
        thn (only_if won (thn (refundAfterTerminalFailure dp row) (ret ()))) (ret False))))"

definition payment_refusal :: "SendPaymentRefusal \<Rightarrow> string" where
  "payment_refusal r = ''refused to pay: '' @ (case r of
     Sp_invoice_expired \<Rightarrow> ''invoice_expired'' | Sp_invoice_expires_too_soon \<Rightarrow> ''invoice_expires_too_soon''
   | Sp_claim_window_too_short \<Rightarrow> ''claim_window_too_short'' | Sp_cltv_budget_too_short \<Rightarrow> ''cltv_budget_too_short''
   | Sp_uncapped_route_deadline_too_short \<Rightarrow> ''uncapped_route_deadline_too_short''
   | Sp_lockup_insufficient \<Rightarrow> ''lockup_insufficient'')"

text \<open>Past the coupling: decide, commit, submit.\<close>

definition pay_funded :: "SendServiceDeps \<Rightarrow> SendSwapRow \<Rightarrow> int \<Rightarrow> bool send_job" where
  "pay_funded dp row refundDeadline =
     bnd (decode_row dp (srInvoice row)) (\<lambda>invoice.
     bnd (payDeadline dp row refundDeadline) (\<lambda>deadline.
     bnd (clock dp) (\<lambda>tm.
     case evaluateSendPayment \<lparr>spInvoiceExpiresAt = srInvoiceExpiresAt row, spRefundLocktime = deadline,
         spLockedSats = jint (case srLockupValue row of Some v \<Rightarrow> v | None \<Rightarrow> 0),
         spExpectedSats = jint (srAmountSats row), spCltv = cltv_of dp invoice, spNow = tm\<rparr> of
       Inl refusal \<Rightarrow> thn (failRow (store_of dp) (srId row) S_funded (payment_refusal refusal)) (ret False)
     | Inr _ \<Rightarrow>
         bnd (askApproval dp (srId row) (srAmountSats row)) (\<lambda>approved.
         if \<not> approved then ret False
         else bnd (fingerprint dp) (\<lambda>payWallet.
         bnd (clock dp) (\<lambda>attempted.
         bnd (transition (store_of dp) (srId row) S_funded S_paying
           ([(C_pay_attempted_at, SInt attempted), (C_idempotency_key, SText (swap_key (srPaymentHash row)))] @
            opt_field C_payment_backend (dpBackendName dp) @ opt_field C_payment_wallet payWallet)) (\<lambda>won.
         if \<not> won then ret False
         else bnd (get_swap (store_of dp) (srId row)) (\<lambda>fresh. submitPayment dp fresh True))))))))"

definition whenFunded :: "SendServiceDeps \<Rightarrow> SendSwapRow \<Rightarrow> bool send_job" where
  "whenFunded dp row =
     (if srReceiverPubkey row \<noteq> dpProviderPubkey dp
      then thn (failRow (store_of dp) (srId row) S_funded
        ''provider key rotated since quote; refusing to pay an unclaimable lockup'') (ret False)
      else bnd (deadlineSeconds dp (srRefundLocktime row)) (\<lambda>refundDeadline.
      if \<not> refundWithoutReceiverDelayCovers (srRefundWithoutReceiverDelay row)
           (case srQuotedRefundDeadline row of Some q \<Rightarrow> q | None \<Rightarrow> refundDeadline) (srCreatedAt row)
      then thn (failRow (store_of dp) (srId row) S_funded
        ''refused to proceed: client solo refund opens before the quoted refund'') (ret False)
      else (case dpCoupling dp of
        None \<Rightarrow> pay_funded dp row refundDeadline
      | Some coupling \<Rightarrow>
          bnd (call dp (\<lambda>n. cpFindLive coupling n (srPaymentHash row))) (\<lambda>coupled.
          case coupled of
            Some receive \<Rightarrow>
              if crHtlcExpiresAt receive \<noteq> None
              then thn (failRow (store_of dp) (srId row) S_funded
                ''refused to collect: receive took a real htlc'') (ret False)
              else bnd (call dp (\<lambda>n. cpOutpoints coupling n (crPkScript receive))) (\<lambda>outpoints.
                bnd (if outpoints = [] then ret None
                     else call dp (\<lambda>n. cpClaimPreimage coupling n outpoints (srPaymentHash row))) (\<lambda>preimage.
                case preimage of
                  None \<Rightarrow> ret False
                | Some p \<Rightarrow> claimWithPreimage dp (srId row) (srPaymentHash row) p S_funded))
          | None \<Rightarrow>
              bnd (call dp (\<lambda>n. cpFindAny coupling n (srPaymentHash row))) (\<lambda>failedReceive.
              case failedReceive of
                Some failed \<Rightarrow>
                  if toLowerCase (crInvoice failed) = toLowerCase (srInvoice row) \<and> crState failed = R_refused
                  then refund_failed_coupling dp row failed
                  else pay_funded dp row refundDeadline
              | None \<Rightarrow> pay_funded dp row refundDeadline)))))"

section \<open>The handler of quoted\<close>

definition whenQuoted :: "SendServiceDeps \<Rightarrow> SendSwapRow \<Rightarrow> bool send_job" where
  "whenQuoted dp row =
     bnd (call dp (\<lambda>n. dpFindLockups dp n (srPkScript row))) (\<lambda>all.
     let outputs = satsOutputs all; locked = totalValue outputs; held = totalValue all in
     bnd (clock dp) (\<lambda>tm1.
     bnd (clock dp) (\<lambda>tm2.
     let timedOut = (tm1 \<ge> lockupDeadlineFor (srCreatedAt row) (srInvoiceExpiresAt row) (dpLockupTimeout dp));
         expired = (tm2 \<ge> srInvoiceExpiresAt row);
         refuse = (\<lambda>v reason. thn (patchSwap (store_of dp) (srId row) [(C_lockup_value, SInt v)])
           (thn (failRow (store_of dp) (srId row) S_quoted reason) (ret False))) in
     if locked > srAmountSats row
     then refuse locked (''overfunded lockup: '' @ show_int locked @ '' > '' @ show_int (srAmountSats row) @ '' sats'')
     else if locked = srAmountSats row \<and> length outputs > MAX_LOCKUP_SPEND_INPUTS
     then refuse locked (''lockup funded in '' @ show_int (int (length outputs)) @ '' outputs, over '' @
       show_int (int MAX_LOCKUP_SPEND_INPUTS))
     else if locked < srAmountSats row \<and> held \<ge> srAmountSats row
     then refuse held (''lockup funded on an asset vtxo a claim cannot spend: '' @ show_int held @ '' held, '' @
       show_int locked @ '' spendable'')
     else if locked = srAmountSats row \<and> \<not> timedOut \<and> \<not> expired then
       thn (noteFundings (store_of dp) (srId row) outputs)
       (transition (store_of dp) (srId row) S_quoted S_funded
         [(C_lockup_txid, opt_text (map_option foTxid (first_of outputs))),
          (C_lockup_vout, opt_int (map_option foVout (first_of outputs))),
          (C_lockup_value, SInt locked),
          (C_lockup_outpoints, SOutpoints (map (\<lambda>o1. (foTxid o1, foVout o1, foValue o1)) outputs))])
     else if timedOut \<or> expired then
       thn (only_if (held > 0) (patchSwap (store_of dp) (srId row) [(C_lockup_value, SInt held)]))
       (thn (failRow (store_of dp) (srId row) S_quoted
         (if expired then ''invoice expired before funding completed''
          else if locked \<ge> srAmountSats row then ''lockup arrived after the funding deadline''
          else if locked > 0 then ''lockup timeout with partial '' @ show_int locked @ '' sats''
          else ''lockup timeout''))
       (ret False))
     else ret False)))"

section \<open>The leg as the unrolled claims see it\<close>

abbreviation send_leg :: "SendServiceDeps \<Rightarrow> (LnSendSwapState, send_col, send_act) claim_leg" where
  "send_leg dp \<equiv>
     \<lparr>clStore = store_of dp, clPatch = patchSwap (store_of dp), clUnrolledClaimColumn = C_unrolled_claim,
      clClaimArkTxidColumn = C_claim_ark_txid, clClaiming = S_claiming, clClaimed = S_claimed,
      clClaimAct = ClaimUnrolled, clFindLockupOutpoints = dpLockupOutpoints dp,
      clFindClaimPreimage = dpFindClaimPreimage dp, clClaimUnrolled = dpClaimUnrolled dp\<rparr>"

definition send_claim_row :: "SendSwapRow \<Rightarrow> claim_row" where
  "send_claim_row row =
     \<lparr>kwId = srId row, kwPkScript = srPkScript row, kwPaymentHash = srPaymentHash row,
      kwUnrolledClaim = srUnrolledClaim row, kwLockupOutpoints = srLockupOutpoints row\<rparr>"

section \<open>The handler of claiming\<close>

definition show_evidence :: "LockupSpendEvidence \<Rightarrow> string" where
  "show_evidence e = (case e of Ev_unknown \<Rightarrow> ''unknown'' | Ev_unspent \<Rightarrow> ''unspent'' | Ev_spent \<Rightarrow> ''spent'')"

text \<open>Too little at the script and nothing unrolled: only a finalized claim of ours may still say \<open>claimed\<close>.\<close>

definition when_short :: "SendServiceDeps \<Rightarrow> SendSwapRow \<Rightarrow> int \<Rightarrow> bool send_job" where
  "when_short dp row held =
     bnd (call dp (\<lambda>n. dpSpendEvidence dp n (srPkScript row))) (\<lambda>evidence.
     bnd (if evidence \<noteq> Ev_spent then deadlineReached dp (srRefundLocktime row) else ret True) (\<lambda>proceed.
     if \<not> proceed
     then throw (Thrown (''swap '' @ srId row @ '': lockup holds '' @ show_int held @ '' < '' @
       show_int (srAmountSats row) @ '' while claiming but no spend is provable ('' @ show_evidence evidence @ '')''))
     else bnd (case dpFinalizePendingClaim dp of
         None \<Rightarrow> ret None
       | Some f \<Rightarrow> if evidence = Ev_spent then call dp f else ret None) (\<lambda>pending.
       case truthy pending of
         Some txid \<Rightarrow>
           transition (store_of dp) (srId row) S_claiming S_claimed [(C_claim_ark_txid, SText txid)]
       | None \<Rightarrow>
           thn (failRow (store_of dp) (srId row) S_claiming
             (''lockup holds '' @ show_int held @ '' < amount '' @ show_int (srAmountSats row) @
              '' while claiming; no claim txid recorded; needs review'')) (ret False))))"

text \<open>The collaborative claim: \<open>Inl done\<close> when its failure was escalated, \<open>Inr txid\<close> otherwise.\<close>

definition claim_offchain ::
    "SendServiceDeps \<Rightarrow> SendSwapRow \<Rightarrow> string \<Rightarrow> FundedOutput list \<Rightarrow> (bool + string option) send_job" where
  "claim_offchain dp row preimage outputs =
     (if outputs = [] then ret (Inr None)
      else catch (bnd (commit_act dp (ClaimLockup (srId row) preimage) (dpClaim dp)) (\<lambda>txid. ret (Inr (Some txid))))
        (\<lambda>e. bnd (deadlineReached dp (srRefundLocktime row)) (\<lambda>reached.
           if reached
           then thn (failRow (store_of dp) (srId row) S_claiming
             (''claim failing past the refund deadline: '' @ message e @ dash @ dpRecourse dp row)) (ret (Inl False))
           else throw e)))"

definition finish_claim ::
    "SendServiceDeps \<Rightarrow> SendSwapRow \<Rightarrow> FundedOutput list \<Rightarrow> UnrolledClaims option \<Rightarrow> string option \<Rightarrow> bool send_job" where
  "finish_claim dp row outputs unrolled txid =
     bnd (case unrolled of
            Some c \<Rightarrow> if ucSettled c then ret True else ret False
          | None \<Rightarrow> ret True) (\<lambda>checkLeftover.
     bnd (if \<not> checkLeftover then ret []
          else bnd (clock dp) (\<lambda>tm.
            lockupLeftover (send_leg dp) (send_claim_row row)
              (if txid = None then {} else (\<lambda>o1. (foTxid o1, foVout o1)) ` set (boundedSpendInputs outputs tm))
              unrolled)) (\<lambda>leftover.
     if leftover \<noteq> [] then
       bnd (deadlineReached dp (srRefundLocktime row)) (\<lambda>pastDeadline.
       awaitLeftover (send_leg dp) (srId row) txid leftover pastDeadline (dpRecourse dp row))
     else case unrolled of
       None \<Rightarrow>
         thn (transition (store_of dp) (srId row) S_claiming S_claimed [(C_claim_ark_txid, opt_text txid)]) (ret False)
     | Some c \<Rightarrow>
         thn (case txid of
                None \<Rightarrow> ret () | Some t \<Rightarrow> patchSwap (store_of dp) (srId row) [(C_claim_ark_txid, SText t)])
         (settleUnrolledClaims (send_leg dp) (srId row) c (dpRecourse dp row))))"

definition whenClaiming :: "SendServiceDeps \<Rightarrow> SendSwapRow \<Rightarrow> bool send_job" where
  "whenClaiming dp row = (case truthy (srPreimage row) of
     None \<Rightarrow> thn (failRow (store_of dp) (srId row) S_claiming ''claiming state with no preimage'') (ret False)
   | Some preimage \<Rightarrow>
       bnd (call dp (\<lambda>n. dpFindLockups dp n (srPkScript row))) (\<lambda>found.
       let outputs = claimOutputs found (srAmountSats row) in
       bnd (advanceUnrolledClaims (send_leg dp) (send_claim_row row) preimage) (\<lambda>unrolled.
       let held = totalValue outputs in
       if held < srAmountSats row \<and> unrolled = None then when_short dp row held
       else bnd (claim_offchain dp row preimage outputs) (\<lambda>claimed.
         case claimed of
           Inl done \<Rightarrow> ret done
         | Inr txid \<Rightarrow> finish_claim dp row outputs unrolled txid))))"

section \<open>Driving a swap\<close>

definition step :: "SendServiceDeps \<Rightarrow> SendSwapRow \<Rightarrow> bool send_job" where
  "step dp row = (case srState row of
     S_quoted \<Rightarrow> whenQuoted dp row
   | S_funded \<Rightarrow> whenFunded dp row
   | S_paying \<Rightarrow> whenPaying dp row
   | S_paid \<Rightarrow> settleFromBackend dp row S_paid
   | S_claiming \<Rightarrow> whenClaiming dp row
   | _ \<Rightarrow> ret False)"

definition tick :: "SendServiceDeps \<Rightarrow> nat \<Rightarrow> bool \<Rightarrow> string \<Rightarrow> SendSwapRow option send_job" where
  "tick dp = guardedTick (step dp) (get_swap (store_of dp))"

definition driveRows :: "SendServiceDeps \<Rightarrow> nat \<Rightarrow> (string \<Rightarrow> bool) \<Rightarrow> string list \<Rightarrow> unit send_job" where
  "driveRows dp fuel = sweep (tick dp fuel False) (get_swap (store_of dp))"

definition tickAll :: "SendServiceDeps \<Rightarrow> nat \<Rightarrow> (string \<Rightarrow> bool) \<Rightarrow> unit send_job" where
  "tickAll dp fuel skip =
     bnd (read_db (exec_send (opens_of dp)) (dpSchedule dp) (\<lambda>d. Inr (map rwId (findRecoverable SHAPE d))))
       (driveRows dp fuel skip)"

definition tickHot :: "SendServiceDeps \<Rightarrow> nat \<Rightarrow> (string \<Rightarrow> bool) \<Rightarrow> unit send_job" where
  "tickHot dp fuel skip =
     bnd (read_db (exec_send (opens_of dp)) (dpSchedule dp) (\<lambda>d.
       Inr (map rwId (findByStates [S_paying, S_paid] \<lparr>fbNewestFirst = False, fbLimit = None\<rparr> d))))
       (driveRows dp fuel skip)"

fun refund_each :: "SendServiceDeps \<Rightarrow> SendSwapRow list \<Rightarrow> string list send_job" where
  "refund_each dp [] = ret []"
| "refund_each dp (row # rows) =
     (if (case srLockupValue row of Some v \<Rightarrow> v | None \<Rightarrow> 0) \<le> 0 then refund_each dp rows
      else bnd (catch (pushRefund dp row) (\<lambda>_. ret False)) (\<lambda>pushed.
        bnd (refund_each dp rows) (\<lambda>rest. ret (if pushed then srId row # rest else rest))))"

definition refundSweep :: "SendServiceDeps \<Rightarrow> string list send_job" where
  "refundSweep dp =
     bnd (clock dp) (\<lambda>tm.
     bnd (read_db (exec_send (opens_of dp)) (dpSchedule dp) (\<lambda>d. Inr (map toRow (findRefundable tm d))))
       (refund_each dp))"

section \<open>Operator recovery\<close>

text \<open>\<^verbatim>\<open>solver-app/src/ops/claims.ts\<close>.\<close>

definition claimNow :: "SendServiceDeps \<Rightarrow> string \<Rightarrow> string option \<Rightarrow> unit send_job" where
  "claimNow dp i preimageHex =
     bnd (get_swap (store_of dp) i) (\<lambda>row.
     if srState row \<noteq> S_stuck then throw (Thrown ''not stuck; only a stuck row is recovered by hand'')
     else bnd (case coalesce preimageHex (srPreimage row) of
           Some p \<Rightarrow> ret (Some p)
         | None \<Rightarrow> (case dpGetSendHtlcState dp of
               None \<Rightarrow> ret None
             | Some probe \<Rightarrow> bnd (call dp (\<lambda>n. probe n (srPaymentHash row))) (\<lambda>s.
                 ret (case s of None \<Rightarrow> None | Some h \<Rightarrow> shtPreimage h)))) (\<lambda>preimage.
     case truthy preimage of
       None \<Rightarrow> throw (Thrown ''swap has no preimage: none was given and the backend holds none'')
     | Some p \<Rightarrow>
         if \<not> preimageMatchesHash (dpHexDecode dp) (dpSha256Hex dp) p (srPaymentHash row)
         then throw (Thrown ''preimage does not match the payment hash'')
         else bnd (transition (store_of dp) i S_stuck S_claiming [(C_preimage, SText p)]) (\<lambda>won.
           if \<not> won then throw (Thrown ''moved out of stuck while being recovered'') else ret ())))"

fun text_includes :: "string \<Rightarrow> string \<Rightarrow> bool" where
  "text_includes [] t = (t = [])"
| "text_includes (c # s) t = (take (length t) (c # s) = t \<or> text_includes s t)"

fun rearm_each :: "SendServiceDeps \<Rightarrow> SendSwapRow list \<Rightarrow> string list send_job" where
  "rearm_each dp [] = ret []"
| "rearm_each dp (row # rows) =
     bnd (if \<not> (case srFailureReason row of None \<Rightarrow> False
                | Some why \<Rightarrow> text_includes why ''while claiming; no claim txid recorded'') then ret False
          else case truthy (srPreimage row) of
            None \<Rightarrow> ret False
          | Some p \<Rightarrow>
              if \<not> preimageMatchesHash (dpHexDecode dp) (dpSha256Hex dp) p (srPaymentHash row) then ret False
              else transition (store_of dp) (srId row) S_stuck S_claiming []) (\<lambda>won.
     bnd (rearm_each dp rows) (\<lambda>rest. ret (if won then srId row # rest else rest)))"

definition rearmPendingClaims :: "SendServiceDeps \<Rightarrow> string list send_job" where
  "rearmPendingClaims dp =
     bnd (read_db (exec_send (opens_of dp)) (dpSchedule dp) (\<lambda>d.
       Inr (map toRow (findByStates [S_stuck] \<lparr>fbNewestFirst = False, fbLimit = None\<rparr> d)))) (rearm_each dp)"

end
