(* ===== verification/Send_Refinement.thy ===== *)
theory Send_Refinement
  imports Send_Orchestrator
begin

text \<open>
  Every handler of the send orchestrator is a run of enabled service actions. For each handler a lemma
  \<open>keeps_...\<close> shows that it keeps the history of the table lawful whatever the schedule does, from what
  the row it was given tells it of the present database (\<open>knows\<close>, \<open>past_commit_of\<close>, \<open>all_known\<close>), and the
  last section puts them together for the jobs the service runs.
\<close>

section \<open>Every handler is a run of the service\<close>

lemma keeps_case_htlc [keep]:
  "(s = Htlc_committed \<Longrightarrow> keeps I a) \<Longrightarrow> (s = Htlc_settled \<Longrightarrow> keeps I b) \<Longrightarrow> (s = Htlc_returned \<Longrightarrow> keeps I c) \<Longrightarrow>
     keeps I (case s of Htlc_committed \<Rightarrow> a | Htlc_settled \<Rightarrow> b | Htlc_returned \<Rightarrow> c)"
  by (cases s) auto

lemmas step_keep = keep send_keep

text \<open>A row known to be past its commit may be refunded.\<close>

definition past_commit_of :: "SendSwapRow \<Rightarrow> send_db \<Rightarrow> bool" where
  "past_commit_of row d \<longleftrightarrow> (\<exists>r. row_of d (srId row) = Some r \<and> rwState r \<in> committed)"

lemma keeps_refund_act:
  assumes "stable (exec_send opens) K" and "\<And>d. K d \<Longrightarrow> past_commit_of row d"
  shows "keeps (follows opens d0 K) (perform (exec_send opens) sc (RefundLockup (srId row)) f)"
proof (rule send_service.keeps_perform' [OF assms(1)])
  fix d
  assume "K d"
  from assms(2) [OF this] show "exec_send opens (RefundLockup (srId row)) d = Some d"
    by (auto simp: past_commit_of_def permitted_def may_refund_def committed_def)
qed

lemma keeps_pushRefund:
  assumes K: "stable (exec_send (opens_of dp)) K" and "\<And>d. K d \<Longrightarrow> past_commit_of row d"
  shows "keeps (follows (opens_of dp) d0 K) (pushRefund dp row)"
  unfolding pushRefund_def Let_def
  by (intro step_keep K keeps_refund_act [OF K assms(2)])

lemma keeps_refundAfterTerminalFailure:
  assumes K: "stable (exec_send (opens_of dp)) K" and "\<And>d. K d \<Longrightarrow> past_commit_of row d"
  shows "keeps (follows (opens_of dp) d0 K) (refundAfterTerminalFailure dp row)"
  unfolding refundAfterTerminalFailure_def
  by (intro step_keep K keeps_refund_act [OF K assms(2)])

lemma keeps_refuse:
  "stable (exec_send opens) K \<Longrightarrow>
     keeps (follows opens d0 K) (transition (swap_store_on opens sc) i s S_refused [SP C_failure_reason reason])"
  by (rule keeps_plain_transition) (simp_all add: SP_def)

lemma keeps_refundProvenSelfPayment:
  assumes K: "stable (exec_send (opens_of dp)) K" and "\<And>d. K d \<Longrightarrow> past_commit_of row d"
  shows "keeps (follows (opens_of dp) d0 K) (refundProvenSelfPayment dp row from)"
  unfolding refundProvenSelfPayment_def
  by (intro step_keep K keeps_refuse [OF K] keeps_pushRefund [OF K assms(2)])

lemma keeps_settleTerminalFailure:
  "stable (exec_send (opens_of dp)) K \<Longrightarrow>
     keeps (follows (opens_of dp) d0 K) (settleTerminalFailure dp row from refunded verdict)"
  unfolding settleTerminalFailure_def by (intro step_keep keeps_refuse)

lemma keeps_after_terminal_failure:
  assumes K: "stable (exec_send (opens_of dp)) K" and "\<And>d. K d \<Longrightarrow> past_commit_of row d"
  shows "keeps (follows (opens_of dp) d0 K) (after_terminal_failure dp row from)"
  unfolding after_terminal_failure_def
  by (intro step_keep keeps_refundProvenSelfPayment [OF K assms(2)] keeps_settleTerminalFailure [OF K]
      keeps_refundAfterTerminalFailure [OF K assms(2)])

lemma knows_hash: "knows opens row d \<Longrightarrow> row_of d (srId row) = Some r \<Longrightarrow> hash_of r = srPaymentHash row"
  by (auto simp: knows_def hash_of_def)

lemma keeps_claimWithPreimage:
  assumes K: "stable (exec_send (opens_of dp)) K" and "\<And>d. K d \<Longrightarrow> knows (opens_of dp) row d"
  shows "keeps (follows (opens_of dp) d0 K) (claimWithPreimage dp (srId row) (srPaymentHash row) p from)"
  unfolding claimWithPreimage_def
  by (intro step_keep K keeps_claiming [OF K, where h = "srPaymentHash row"])
    (auto dest!: assms(2) intro: knows_hash)

lemma keeps_fingerprint: "stable (exec_send (opens_of dp)) K \<Longrightarrow> keeps (follows (opens_of dp) d0 K) (fingerprint dp)"
  unfolding fingerprint_def by (intro step_keep)

lemma keeps_deadlineSeconds:
  "stable (exec_send (opens_of dp)) K \<Longrightarrow> keeps (follows (opens_of dp) d0 K) (deadlineSeconds dp t)"
  unfolding refundDeadlineSeconds_def by (intro step_keep)

lemma keeps_deadlineReached:
  "stable (exec_send (opens_of dp)) K \<Longrightarrow> keeps (follows (opens_of dp) d0 K) (deadlineReached dp t)"
  unfolding refundDeadlineReached_def by (intro step_keep)

lemma keeps_payDeadline:
  "stable (exec_send (opens_of dp)) K \<Longrightarrow> keeps (follows (opens_of dp) d0 K) (payDeadline dp row t)"
  unfolding payDeadline_def Let_def by (intro step_keep)

lemma keeps_decode: "keeps I (decode_row dp s)"
  unfolding decode_row_def by (intro keep)

lemma keeps_askApproval:
  "stable (exec_send (opens_of dp)) K \<Longrightarrow> keeps (follows (opens_of dp) d0 K) (askApproval dp i n)"
  unfolding askApproval_def by (intro step_keep)

lemmas probe_keep = keeps_fingerprint keeps_deadlineSeconds keeps_deadlineReached
  keeps_payDeadline keeps_decode keeps_askApproval

lemma keeps_refuse_or_park:
  "stable (exec_send (opens_of dp)) K \<Longrightarrow> keeps (follows (opens_of dp) d0 K) (refuse_or_park dp row b reason)"
  unfolding refuse_or_park_def by (intro step_keep keeps_refuse)

text \<open>The transition to \<open>paid\<close> may carry the preimage; it is verified on the way to \<open>claiming\<close>.\<close>

lemma keeps_to_paid:
  "stable (exec_send opens) K \<Longrightarrow> C_idempotency_key \<notin> fst ` set fs \<Longrightarrow>
     keeps (follows opens d0 K) (transition (swap_store_on opens sc) i s S_paid fs)"
  by (rule keeps_plain_transition) simp_all

lemma keeps_record_payment:
  assumes K: "stable (exec_send (opens_of dp)) K" and k: "\<And>d. K d \<Longrightarrow> knows (opens_of dp) row d"
    and c: "\<And>d. K d \<Longrightarrow> past_commit_of row d"
  shows "keeps (follows (opens_of dp) d0 K) (record_payment dp row res)"
  unfolding record_payment_def
  by (intro step_keep probe_keep K keeps_after_terminal_failure [OF K c] keeps_to_paid [OF K]
      keeps_claimWithPreimage [OF K k]) auto

text \<open>A row with an idempotency key is past its commit, whatever else changed.\<close>

lemma key_means_commit:
  assumes "knows opens row d" and "srIdempotencyKey row = Some key"
  shows "past_commit_of row d" "exec_send opens (PayInvoice (srId row) (srInvoice row) fee key cltv) d = Some d"
proof -
  obtain r where r: "row_of d (srId row) = Some r" "rwCols r C_idempotency_key = SText key"
    "rwCols r C_invoice = SText (srInvoice row)" "row_ok opens r"
    using assms by (auto simp: knows_def send_inv_def)
  then have "rwState r \<notin> {S_quoted, S_funded}" "key = swap_key (hash_of r)" by (auto simp: row_ok_def)
  then show "past_commit_of row d" "exec_send opens (PayInvoice (srId row) (srInvoice row) fee key cltv) d = Some d"
    using r by (cases "rwState r"; auto simp: past_commit_of_def committed_def permitted_def may_pay_def)+
qed

lemma keeps_pay_act:
  assumes K: "stable (exec_send opens) K" and "\<And>d. K d \<Longrightarrow> knows opens row d" and "srIdempotencyKey row = Some key"
  shows "keeps (follows opens d0 K) (perform (exec_send opens) sc (PayInvoice (srId row) (srInvoice row) fee key cltv) f)"
  by (rule send_service.keeps_perform' [OF K]) (use assms(2,3) key_means_commit in blast)

lemma keeps_submitPayment:
  assumes K: "stable (exec_send (opens_of dp)) K" and k: "\<And>d. K d \<Longrightarrow> knows (opens_of dp) row d"
  shows "keeps (follows (opens_of dp) d0 K) (submitPayment dp row b)"
proof (cases "truthy (srIdempotencyKey row)")
  case None
  then show ?thesis unfolding submitPayment_def by (simp, intro step_keep K)
next
  case (Some key)
  then have key: "srIdempotencyKey row = Some key" by (rule truthy_Some)
  have c: "past_commit_of row d" if "K d" for d using key_means_commit(1) [OF k [OF that] key] .
  have u: "keeps (follows (opens_of dp) d0 K) (refuseUnsubmittedPayment dp row msg)" for msg
    unfolding refuseUnsubmittedPayment_def
    by (intro step_keep keeps_refuse [OF K] keeps_refundAfterTerminalFailure [OF K c])
  show ?thesis unfolding submitPayment_def Some option.case Let_def
    by (intro step_keep probe_keep K keeps_refuse_or_park [OF K] keeps_pay_act [OF K k key] u
        keeps_record_payment [OF K k c])
qed

lemma keeps_recoverCommitted:
  assumes K: "stable (exec_send (opens_of dp)) K" and k: "\<And>d. K d \<Longrightarrow> knows (opens_of dp) row d"
    and c: "\<And>d. K d \<Longrightarrow> past_commit_of row d"
  shows "keeps (follows (opens_of dp) d0 K) (recoverCommitted dp row htlc)"
  unfolding recoverCommitted_def
  by (intro step_keep K keeps_to_paid [OF K] keeps_claimWithPreimage [OF K k]
      keeps_refundProvenSelfPayment [OF K c] keeps_refundAfterTerminalFailure [OF K c]) auto

lemma keeps_settleFromBackend:
  assumes K: "stable (exec_send (opens_of dp)) K" and k: "\<And>d. K d \<Longrightarrow> knows (opens_of dp) row d"
    and c: "\<And>d. K d \<Longrightarrow> past_commit_of row d"
  shows "keeps (follows (opens_of dp) d0 K) (settleFromBackend dp row from)"
  unfolding settleFromBackend_def
  by (intro step_keep K keeps_to_paid [OF K] keeps_claimWithPreimage [OF K k]
      keeps_after_terminal_failure [OF K c]) auto

lemma keeps_whenHashBlocked:
  "stable (exec_send (opens_of dp)) K \<Longrightarrow> keeps (follows (opens_of dp) d0 K) (whenHashBlocked dp row e)"
  unfolding whenHashBlocked_def by (intro step_keep)

lemma keeps_whenPaying:
  assumes K: "stable (exec_send (opens_of dp)) K" and k: "\<And>d. K d \<Longrightarrow> knows (opens_of dp) row d"
    and c: "\<And>d. K d \<Longrightarrow> past_commit_of row d"
  shows "keeps (follows (opens_of dp) d0 K) (whenPaying dp row)"
  unfolding whenPaying_def
  by (intro step_keep probe_keep K keeps_settleFromBackend [OF K k c] keeps_recoverCommitted [OF K k c]
      keeps_submitPayment [OF K k] keeps_whenHashBlocked [OF K])

text \<open>After the refusal of a coupled row was won, its row is known to be refused.\<close>

lemma keeps_refund_failed_coupling:
  assumes K: "stable (exec_send (opens_of dp)) K" and k: "\<And>d. K d \<Longrightarrow> knows (opens_of dp) row d"
  shows "keeps (follows (opens_of dp) d0 K) (refund_failed_coupling dp row failed)"
proof -
  let ?L = "past_commit_of row"
  have L: "stable (exec_send (opens_of dp)) ?L" unfolding past_commit_of_def
    by (rule send_service.stable_past) (rule committed_closed)
  have won: "spec (follows (opens_of dp) d0 K) (transition (store_of dp) (srId row) S_funded S_refused
      [SP C_failure_reason why]) (\<lambda>r w. follows (opens_of dp) d0 K w \<and> (\<forall>won. r = Inr won \<longrightarrow> won \<longrightarrow> ?L (wDb w)))" for why
  proof (rule spec_plain_transition [OF K _ _ _ _ L])
    show "past_commit_of row d'" if "row_of d' (srId row) = Some r" "rwState r = S_refused" for d' r
      using that by (simp add: past_commit_of_def committed_def)
    show "\<exists>r. row_of d (srId row) = Some r" if "K d" for d using k [OF that] by (auto simp: knows_def)
  qed (simp_all add: SP_def)
  have refund: "keeps (follows (opens_of dp) d0 K) (bnd (transition (store_of dp) (srId row) S_funded S_refused
      [SP C_failure_reason why]) (\<lambda>won. thn (only_if won (thn (refundAfterTerminalFailure dp row) (ret ()))) (ret False)))" for why
  proof (rule keeps_learn [OF won])
    fix won :: bool
    have s: "stable (exec_send (opens_of dp)) (\<lambda>d. K d \<and> (won \<longrightarrow> ?L d))"
      by (rule stable_conj [OF K stable_imp]) (rule L)
    have r: "keeps (follows (opens_of dp) d0 (\<lambda>d. K d \<and> (won \<longrightarrow> ?L d))) (refundAfterTerminalFailure dp row)" if won
      by (rule keeps_refundAfterTerminalFailure [OF s]) (use that in simp)
    show "keeps (follows (opens_of dp) d0 (\<lambda>d. K d \<and> (won \<longrightarrow> ?L d)))
       (thn (only_if won (thn (refundAfterTerminalFailure dp row) (ret ()))) (ret False))"
      by (intro step_keep r)
  qed
  have probe: "keeps (follows (opens_of dp) d0 K) (probe_own_invoice dp row failed)"
    unfolding probe_own_invoice_def by (intro step_keep K)
  show ?thesis unfolding refund_failed_coupling_def by (intro refund probe step_keep)
qed

lemma opt_field_cols [simp]: "c' \<noteq> c \<Longrightarrow> map_of (opt_field c v) c' = None"
  by (simp add: opt_field_def split: option.split)

lemma keeps_pay_funded:
  assumes K: "stable (exec_send (opens_of dp)) K" and k: "\<And>d. K d \<Longrightarrow> knows (opens_of dp) row d"
  shows "keeps (follows (opens_of dp) d0 K) (pay_funded dp row t)"
proof -
  have submit: "keeps (follows (opens_of dp) d0 K)
      (bnd (get_swap (store_of dp) (srId row)) (\<lambda>fresh. submitPayment dp fresh True))"
    by (rule keeps_get_swap [OF K]) (auto intro!: keeps_submitPayment K dest!: k knows_inv)
  have commit: "keeps (follows (opens_of dp) d0 K) (transition (store_of dp) (srId row) S_funded S_paying
      ([(C_pay_attempted_at, SInt tm), (C_idempotency_key, SText (swap_key (srPaymentHash row)))] @
       opt_field C_payment_backend b @ opt_field C_payment_wallet w))" for tm b w
    by (rule keeps_commit [OF K, where h = "srPaymentHash row"])
      (auto dest!: k intro: knows_hash simp: map_add_def)
  show ?thesis unfolding pay_funded_def by (intro step_keep probe_keep K submit commit)
qed

lemma keeps_whenFunded:
  assumes K: "stable (exec_send (opens_of dp)) K" and k: "\<And>d. K d \<Longrightarrow> knows (opens_of dp) row d"
  shows "keeps (follows (opens_of dp) d0 K) (whenFunded dp row)"
  unfolding whenFunded_def
  by (intro step_keep probe_keep K keeps_pay_funded [OF K k] keeps_claimWithPreimage [OF K k]
      keeps_refund_failed_coupling [OF K k])

lemma keeps_whenQuoted:
  assumes K: "stable (exec_send (opens_of dp)) K"
  shows "keeps (follows (opens_of dp) d0 K) (whenQuoted dp row)"
  unfolding whenQuoted_def Let_def by (intro step_keep K) auto

text \<open>A row read in \<open>claiming\<close> may be claimed with its own preimage from then on.\<close>

lemma claiming_may_claim:
  assumes "knows opens row d" and "srState row = S_claiming" and "srPreimage row = Some p"
  shows "exec_send opens (ClaimLockup (srId row) p) d = Some d"
    "exec_send opens (ClaimUnrolled (srId row) p key) d = Some d"
  using assms by (auto simp: knows_def permitted_def may_claim_def hash_of_def collecting_def)

lemma keeps_claim_acts:
  assumes K: "stable (exec_send opens) K" and k: "\<And>d. K d \<Longrightarrow> knows opens row d"
    and s: "srState row = S_claiming" "srPreimage row = Some p"
  shows "keeps (follows opens d0 K) (perform (exec_send opens) sc (ClaimLockup (srId row) p) f)"
    "keeps (follows opens d0 K) (perform (exec_send opens) sc (ClaimUnrolled (srId row) p key) g)"
  by (rule send_service.keeps_perform' [OF K], use claiming_may_claim [OF k s] in blast)+

lemma keeps_to_claimed:
  "stable (exec_send opens) K \<Longrightarrow> fs = [] \<or> (\<exists>v. fs = [(C_claim_ark_txid, v)]) \<Longrightarrow>
     keeps (follows opens d0 K) (transition (swap_store_on opens sc) i s S_claimed fs)"
  by (rule keeps_plain_transition) auto

text \<open>The contract of the unrolled claims, on this leg.\<close>

definition may_collect :: "(string \<Rightarrow> string \<Rightarrow> bool) \<Rightarrow> string \<Rightarrow> string \<Rightarrow> send_db \<Rightarrow> bool" where
  "may_collect opens i p d \<longleftrightarrow> (\<exists>r. row_of d i = Some r \<and> may_claim opens r p)"

interpretation send_collects: claim_contract "exec_send (opens_of dp)" d0 "send_leg dp" "may_collect (opens_of dp)"
  for dp d0
proof unfold_locales
  show "keeps (tracks (exec_send (opens_of dp)) d0 K) (perform (exec_send (opens_of dp)) sc (clClaimAct (send_leg dp) i p key) f)"
    if "stable (exec_send (opens_of dp)) K" "\<And>d. K d \<Longrightarrow> may_collect (opens_of dp) i p d"
    for K i p sc key and f :: "nat \<Rightarrow> exn + string list \<times> (exn + unrolled_step)"
    by (rule send_service.keeps_perform' [OF that(1)]) (auto simp: permitted_Some may_collect_def dest: that(2))
qed (auto simp: on_here intro: interference.pos_irrelevant [OF send_service.tracks_interference]
  interference.rival_keeps [OF send_service.tracks_interference] keeps_patch_send [unfolded on_here]
  keeps_fail [unfolded on_here] keeps_to_claimed [unfolded on_here])

lemma keeps_finish_claim:
  assumes K: "stable (exec_send (opens_of dp)) K"
  shows "keeps (follows (opens_of dp) d0 K) (finish_claim dp row outs unrolled txid)"
  unfolding finish_claim_def
  by (intro send_collects.leftover_keeps send_collects.awaitLeftover_keeps send_collects.settle_keeps
      keeps_to_claimed [OF K] probe_keep step_keep K) auto

lemma keeps_whenClaiming:
  assumes K: "stable (exec_send (opens_of dp)) K" and k: "\<And>d. K d \<Longrightarrow> knows (opens_of dp) row d"
    and s: "srState row = S_claiming"
  shows "keeps (follows (opens_of dp) d0 K) (whenClaiming dp row)"
proof (cases "truthy (srPreimage row)")
  case None
  then show ?thesis unfolding whenClaiming_def by (simp, intro step_keep K)
next
  case (Some p)
  then have p: "srPreimage row = Some p" by (rule truthy_Some)
  have short: "keeps (follows (opens_of dp) d0 K) (when_short dp row held)" for held
    unfolding when_short_def by (intro keeps_to_claimed [OF K] probe_keep step_keep K) simp
  have off: "keeps (follows (opens_of dp) d0 K) (claim_offchain dp row p outs)" for outs
    unfolding claim_offchain_def by (intro keeps_claim_acts(1) [OF K k s p] probe_keep step_keep K)
  have collect: "may_collect (opens_of dp) (kwId (send_claim_row row)) p d" if "K d" for d
    using k [OF that] s p by (auto simp: may_collect_def send_claim_row_def knows_def may_claim_def hash_of_def collecting_def)
  show ?thesis unfolding whenClaiming_def Some option.case Let_def
    by (intro short off send_collects.advance_keeps [OF K collect] keeps_finish_claim [OF K] step_keep K)
qed

lemma knows_committed: "knows opens row d \<Longrightarrow> srState row \<in> committed \<Longrightarrow> past_commit_of row d"
  unfolding knows_def past_commit_of_def by blast

lemma keeps_step:
  assumes K: "stable (exec_send (opens_of dp)) K" and k: "\<And>d. K d \<Longrightarrow> knows (opens_of dp) row d"
  shows "keeps (follows (opens_of dp) d0 K) (step dp row)"
proof (cases "srState row")
  case S_paying
  have "keeps (follows (opens_of dp) d0 K) (whenPaying dp row)"
    by (rule keeps_whenPaying [OF K k knows_committed [OF k]]) (simp_all add: S_paying committed_def)
  then show ?thesis by (simp add: step_def S_paying)
next
  case S_paid
  have "keeps (follows (opens_of dp) d0 K) (settleFromBackend dp row S_paid)"
    by (rule keeps_settleFromBackend [OF K k knows_committed [OF k]]) (simp_all add: S_paid committed_def)
  then show ?thesis by (simp add: step_def S_paid)
next
  case S_claiming
  then show ?thesis using keeps_whenClaiming [OF K k S_claiming] by (simp add: step_def)
next
  case S_funded
  then show ?thesis using keeps_whenFunded [OF K k] by (simp add: step_def)
qed (simp_all add: step_def keeps_ret keeps_whenQuoted [OF K])

interpretation send_driver: driver "exec_send (opens_of dp)" "follows (opens_of dp) d0" "send_inv (opens_of dp)"
  "knows (opens_of dp)" "get_swap (store_of dp)" "step dp"
  for dp d0
proof unfold_locales
  show "spec (follows (opens_of dp) d0 K) (get_swap (store_of dp) i)
      (\<lambda>r w. follows (opens_of dp) d0 K w \<and> (\<forall>row. r = Inr row \<longrightarrow> knows (opens_of dp) row (wDb w)))"
    if "stable (exec_send (opens_of dp)) K" "\<And>d. K d \<Longrightarrow> send_inv (opens_of dp) d" for K i
    by (rule spec_weaken [OF spec_get_swap [OF that]]) auto
qed (auto simp: tracks_conj intro: stable_knows knows_inv keeps_step)

lemma keeps_tick:
  assumes "stable (exec_send (opens_of dp)) K" and "\<And>d. K d \<Longrightarrow> send_inv (opens_of dp) d"
  shows "keeps (follows (opens_of dp) d0 K) (tick dp fuel busy i)"
  unfolding tick_def by (rule send_driver.keeps_guardedTick [OF assms])

lemma keeps_driveRows:
  assumes "stable (exec_send (opens_of dp)) K" and "\<And>d. K d \<Longrightarrow> send_inv (opens_of dp) d"
  shows "keeps (follows (opens_of dp) d0 K) (driveRows dp fuel skip is)"
  unfolding driveRows_def tick_def by (rule send_driver.keeps_sweep [OF assms])

text \<open>Rows that were read together are each known.\<close>

definition all_known :: "(string \<Rightarrow> string \<Rightarrow> bool) \<Rightarrow> LnSendSwapState \<Rightarrow> SendSwapRow list \<Rightarrow> send_db \<Rightarrow> bool" where
  "all_known opens s rows d \<longleftrightarrow> (\<forall>row \<in> set rows. knows opens row d \<and> srState row = s)"

lemma stable_all_known: "stable (exec_send opens) (all_known opens s rows)"
  using stable_knows [of opens] unfolding stable_def all_known_def by blast

lemma keeps_read_rows:
  assumes K: "stable (exec_send opens) K" and inv: "\<And>d. K d \<Longrightarrow> send_inv opens d"
    and pick: "\<And>d r. r \<in> set (pick d) \<Longrightarrow> r \<in> set (dbRows d) \<and> rwState r = s"
    and f: "\<And>rows. keeps (follows opens d0 (\<lambda>d. K d \<and> all_known opens s rows d)) (f rows)"
  shows "keeps (follows opens d0 K) (bnd (read_db (exec_send opens) sc (\<lambda>d. Inr (map toRow (pick d)))) f)"
proof (rule keeps_learn [OF _ f])
  show "spec (follows opens d0 K) (read_db (exec_send opens) sc (\<lambda>d. Inr (map toRow (pick d))))
      (\<lambda>r w. follows opens d0 K w \<and> (\<forall>rows. r = Inr rows \<longrightarrow> all_known opens s rows (wDb w)))"
  proof (rule interference.spec_read [OF send_service.tracks_interference [OF K]])
    fix w rows
    assume w: "follows opens d0 K w" and "Inr (map toRow (pick (wDb w))) = (Inr rows :: exn + _)"
    then have rows: "rows = map toRow (pick (wDb w))" by simp
    have i: "send_inv opens (wDb w)" and ids: "ids_distinct (wDb w)" using w inv by (auto simp: tracks_def)
    have "knows opens (toRow r) (wDb w) \<and> srState (toRow r) = s" if "r \<in> set (pick (wDb w))" for r
      using knows_read [OF i, of "rwId r" r] row_of_eq [OF ids, of "rwId r" r] pick [OF that] by simp
    then show "all_known opens s rows (wDb w)" by (auto simp: all_known_def rows)
  qed
qed

lemma keeps_refund_each:
  assumes "stable (exec_send (opens_of dp)) K" and "\<And>d. K d \<Longrightarrow> all_known (opens_of dp) S_refused rows d"
  shows "keeps (follows (opens_of dp) d0 K) (refund_each dp rows)"
  using assms
proof (induction rows)
  case (Cons row rows)
  have "past_commit_of row d" if "K d" for d
    using Cons.prems(2) [OF that] knows_committed [of "opens_of dp" row d] by (simp add: all_known_def committed_def)
  then have "keeps (follows (opens_of dp) d0 K) (pushRefund dp row)" by (rule keeps_pushRefund [OF Cons.prems(1)])
  moreover have "keeps (follows (opens_of dp) d0 K) (refund_each dp rows)"
    by (rule Cons.IH [OF Cons.prems(1)]) (use Cons.prems(2) in \<open>simp add: all_known_def\<close>)
  ultimately show ?case unfolding refund_each.simps by (intro keep)
qed (simp add: keeps_ret)

lemma keeps_rearm_each:
  assumes "stable (exec_send (opens_of dp)) K" and "\<And>d. K d \<Longrightarrow> all_known (opens_of dp) S_stuck rows d"
  shows "keeps (follows (opens_of dp) d0 K) (rearm_each dp rows)"
  using assms
proof (induction rows)
  case (Cons row rows)
  have arm: "keeps (follows (opens_of dp) d0 K) (transition (store_of dp) (srId row) S_stuck S_claiming [])"
    if p: "truthy (srPreimage row) = Some p" "opens_of dp p (srPaymentHash row)" for p
    unfolding on_here
  proof (rule send_service.keeps_transition [OF Cons.prems(1)])
    fix d r tm
    assume "K d" and r: "row_of d (srId row) = Some r"
    then have "knows (opens_of dp) row d" "srState row \<in> collecting"
      using Cons.prems(2) by (auto simp: all_known_def collecting_def)
    then have "opened (opens_of dp) r"
      using r p(2) truthy_Some [OF p(1)] unfolding knows_def by simp
    then show "send_ok (opens_of dp) (Cas (srId row) S_stuck S_claiming [] tm) d"
      using r by (simp add: set_fields_def)
  qed
  have "keeps (follows (opens_of dp) d0 K) (rearm_each dp rows)"
    by (rule Cons.IH [OF Cons.prems(1)]) (use Cons.prems(2) in \<open>simp add: all_known_def\<close>)
  then show ?case unfolding rearm_each.simps by (intro arm keep) simp_all
qed (simp add: keeps_ret)

lemma keeps_claimNow:
  assumes K: "stable (exec_send (opens_of dp)) K" and inv: "\<And>d. K d \<Longrightarrow> send_inv (opens_of dp) d"
  shows "keeps (follows (opens_of dp) d0 K) (claimNow dp i given)"
  unfolding claimNow_def
proof (rule keeps_get_swap [OF K inv])
  fix row :: SendSwapRow
  assume i: "srId row = i"
  let ?J = "\<lambda>d. K d \<and> knows (opens_of dp) row d"
  have J: "stable (exec_send (opens_of dp)) ?J" by (rule stable_conj [OF K stable_knows])
  have arm: "keeps (follows (opens_of dp) d0 ?J) (transition (store_of dp) i S_stuck S_claiming [(C_preimage, SText p)])"
    if "opens_of dp p (srPaymentHash row)" for p
    by (rule keeps_claiming [OF J _ that]) (use i knows_hash in blast)
  show "keeps (follows (opens_of dp) d0 ?J) (if srState row \<noteq> S_stuck
      then throw (Thrown ''not stuck; only a stuck row is recovered by hand'')
      else bnd (case coalesce given (srPreimage row) of
           Some p \<Rightarrow> ret (Some p)
         | None \<Rightarrow> (case dpGetSendHtlcState dp of
               None \<Rightarrow> ret None
             | Some probe \<Rightarrow> bnd (call dp (\<lambda>n. probe n (srPaymentHash row))) (\<lambda>s.
                 ret (case s of None \<Rightarrow> None | Some h \<Rightarrow> shtPreimage h)))) (\<lambda>preimage.
     case truthy preimage of
       None \<Rightarrow> throw (Thrown ''swap has no preimage: none was given and the backend holds none'')
     | Some p \<Rightarrow>
         if \<not> opens_of dp p (srPaymentHash row)
         then throw (Thrown ''preimage does not match the payment hash'')
         else bnd (transition (store_of dp) i S_stuck S_claiming [(C_preimage, SText p)]) (\<lambda>won.
           if \<not> won then throw (Thrown ''moved out of stuck while being recovered'') else ret ())))"
    by (intro arm step_keep J) simp
qed

section \<open>The service\<close>

text \<open>
  A job is lawful when, from any point of its schedule, all it and the others did to the table is a run
  of enabled service actions that ends in the present database, whichever await it died at.
\<close>

definition lawful :: "SendServiceDeps \<Rightarrow> send_db \<Rightarrow> 'a send_job \<Rightarrow> bool" where
  "lawful dp d0 m \<longleftrightarrow> (\<forall>pos. let w = snd (m \<lparr>wDb = d0, wPos = pos, wLog = []\<rparr>) in
     run_all (exec_send (opens_of dp)) (map act_of (wLog w)) d0 = Some (wDb w) \<and> send_inv (opens_of dp) (wDb w))"

lemma lawful_if_keeps:
  assumes "keeps (follows (opens_of dp) d0 (send_inv (opens_of dp))) m" and "send_inv (opens_of dp) d0"
  shows "lawful dp d0 m"
  unfolding lawful_def Let_def
proof (intro allI)
  fix pos
  let ?w0 = "\<lparr>wDb = d0, wPos = pos, wLog = []\<rparr>"
  have "follows (opens_of dp) d0 (send_inv (opens_of dp)) ?w0"
    using assms(2) by (simp add: tracks_def send_inv_def)
  then have "follows (opens_of dp) d0 (send_inv (opens_of dp)) (snd (m ?w0))"
    using assms(1) unfolding spec_def by (metis case_prod_beta)
  then show "run_all (exec_send (opens_of dp)) (map act_of (wLog (snd (m ?w0)))) d0 = Some (wDb (snd (m ?w0))) \<and>
      send_inv (opens_of dp) (wDb (snd (m ?w0)))"
    by (simp add: tracks_def)
qed

lemma in_by_created: "r \<in> set (by_created rs) \<longleftrightarrow> r \<in> set rs"
  by (simp add: by_created_def)

lemma keeps_refundSweep:
  assumes K: "stable (exec_send (opens_of dp)) K" and inv: "\<And>d. K d \<Longrightarrow> send_inv (opens_of dp) d"
  shows "keeps (follows (opens_of dp) d0 K) (refundSweep dp)"
  unfolding refundSweep_def
proof (rule keeps_bnd)
  show "keeps (follows (opens_of dp) d0 K) (clock dp)"
    by (rule keeps_now_send [OF K])
  fix tm
  show "keeps (follows (opens_of dp) d0 K) (bnd (read_db (exec_send (opens_of dp)) (dpSchedule dp)
      (\<lambda>d. Inr (map toRow (findRefundable tm d)))) (refund_each dp))"
  proof (rule keeps_read_rows [OF K inv, where s = S_refused])
    show "keeps (follows (opens_of dp) d0 (\<lambda>d. K d \<and> all_known (opens_of dp) S_refused rows d)) (refund_each dp rows)"
      for rows
      by (rule keeps_refund_each [OF stable_conj [OF K stable_all_known]]) simp
  qed (auto simp: findRefundable_def in_by_created)
qed

lemma keeps_rearmPendingClaims:
  assumes K: "stable (exec_send (opens_of dp)) K" and inv: "\<And>d. K d \<Longrightarrow> send_inv (opens_of dp) d"
  shows "keeps (follows (opens_of dp) d0 K) (rearmPendingClaims dp)"
  unfolding rearmPendingClaims_def
proof (rule keeps_read_rows [OF K inv, where s = S_stuck])
  show "keeps (follows (opens_of dp) d0 (\<lambda>d. K d \<and> all_known (opens_of dp) S_stuck rows d)) (rearm_each dp rows)"
    for rows
    by (rule keeps_rearm_each [OF stable_conj [OF K stable_all_known]]) simp
qed (auto simp: findByStates_def in_by_created)

text \<open>
  C2: the orchestrator refines the service contract. Every job of the send leg (a tick, the recovery
  and hot sweeps, the refund sweep, the operator's claim and the boot-time re-arming) performs only
  enabled service actions, under every schedule: any interleaving with other workers, any answer or
  error of the Lightning backend, the Arkade wallet, the chain tip and the coupled store, and a crash
  at any await. The table invariant holds wherever the job stops.
\<close>

theorem send_service_refines:
  assumes "send_inv (opens_of dp) d0"
  shows "lawful dp d0 (tick dp fuel busy i) \<and> lawful dp d0 (tickAll dp fuel skip) \<and>
    lawful dp d0 (tickHot dp fuel skip) \<and> lawful dp d0 (refundSweep dp) \<and>
    lawful dp d0 (claimNow dp i given) \<and> lawful dp d0 (rearmPendingClaims dp)"
proof -
  let ?I = "send_inv (opens_of dp)"
  have K: "stable (exec_send (opens_of dp)) ?I" by (rule stable_send_inv)
  have sweeps: "keeps (follows (opens_of dp) d0 ?I) (tickAll dp fuel skip)"
    "keeps (follows (opens_of dp) d0 ?I) (tickHot dp fuel skip)"
    unfolding tickAll_def tickHot_def by (intro keeps_bnd keeps_read_send [OF K] keeps_driveRows [OF K]; assumption)+
  show ?thesis
    by (intro conjI lawful_if_keeps [OF _ assms] sweeps keeps_refundSweep [OF K] keeps_rearmPendingClaims [OF K]
      keeps_tick [OF K] keeps_claimNow [OF K]; assumption)
qed

text \<open>A service wired to ports that cooperate, and a table with one fresh quote of 21 sats.\<close>

definition sample_deps :: SendServiceDeps where
  "sample_deps = \<lparr>dpSchedule = \<lparr>scRival = \<lambda>_ _. [], scCrash = \<lambda>_. False, scClock = \<lambda>_. 1700000100\<rparr>,
     dpHexDecode = \<lambda>s. if s = ''00'' then Some [0] else None,
     dpSha256Hex = \<lambda>b. if b = [0] then invPaymentHash sample_invoice else [],
     dpDecodeBolt11 = sample_bolt11, dpNumberOf = \<lambda>_. NaN, dpProviderPubkey = ''02'', dpBackendName = None,
     dpNetwork = Some Regtest, dpLockupTimeout = 600, dpDenylist = [], dpRouteBudget = 40,
     dpEnforces = True, dpRecourse = \<lambda>_. [],
     dpFindLockups = \<lambda>_ _. Inr [\<lparr>foTxid = ''t'', foVout = 0, foValue = 21, foAssets = [], foExpiresAt = None\<rparr>],
     dpProvablySpent = \<lambda>_ _. Inr False, dpSpendEvidence = \<lambda>_ _. Inr Ev_unspent,
     dpClaim = \<lambda>_. Inr ''c'', dpFinalizePendingClaim = None, dpRefund = \<lambda>_. Inr ''r'',
     dpLockupOutpoints = None, dpFindClaimPreimage = None, dpClaimUnrolled = None,
     dpPayInvoice = \<lambda>_. Inr \<lparr>pmId = ''p'', pmStatus = P_succeeded, pmEvidence = None, pmFailureReason = None,
       pmPreimage = Some ''00'', pmFeePaidSats = Some 1\<rparr>,
     dpGetPayment = \<lambda>_ _. Inl (Thrown []), dpGetSendHtlcState = None, dpWalletFingerprint = None,
     dpGetOwnInvoiceState = None, dpGetKnownInvoiceState = None, dpChainTip = None, dpApprovalGate = None,
     dpCoupling = None\<rparr>"

definition sample_db :: send_db where
  "sample_db = \<lparr>dbRows = [quote_row (sample_quote_record\<lparr>qrPaymentHash := invPaymentHash sample_invoice,
     qrAmountSats := 21\<rparr>) 1700000000], dbEvents = []\<rparr>"

lemma sample_db_inv: "send_inv opens sample_db"
proof -
  have "run_all (exec_send opens) [St (Insert (hd (dbRows sample_db)))] empty_db = Some sample_db"
    by (simp add: sample_db_def empty_db_def sample_quote_record_def quote_row_def quote_cols_def SHAPE_def
        findLiveSend_def row_of_def spec_of_def lnSendTable_def)
  then show ?thesis using run_keeps_send_inv empty_inv by blast
qed

theorem send_service_refines_witness:
  "lawful sample_deps sample_db (tick sample_deps 10 False ''a'') \<and>
   lawful sample_deps sample_db (refundSweep sample_deps)"
  using send_service_refines [OF sample_db_inv] by blast

end
