(* ===== verification/Receive_Store.thy ===== *)
theory Receive_Store
  imports Swap_Store Lockups
begin

text \<open>
  \<^verbatim>\<open>solver-corridors/src/db/receiveSwaps.ts\<close>: the table of the \<open>lightning:BTC->arkade:BTC\<close> leg, and the
  contract of the service that runs on it. The columns are those of the schema; the partial unique
  index on the payment hash of rows that are not refused is part of the insertion.
\<close>

section \<open>Columns and rows\<close>

datatype receive_col =
    D_payment_hash | D_amount_sats | D_payout_sats | D_invoice | D_invoice_expires_at |
    D_htlc_expires_at | D_payout_address | D_payout_pk_script | D_payout_pubkey | D_claim_packet |
    D_refund_locktime | D_solver_pubkey | D_server_pubkey | D_claim_delay | D_refund_delay |
    D_refund_without_receiver_delay | D_emulator_pubkey | D_pk_script | D_lockup_address |
    D_solver_refund_pk_script | D_non_interactive_parameters | D_arkade_lockup_txid |
    D_arkade_lockup_vout | D_arkade_lockup_value | D_revealed_at | D_stamped_at | D_settle_attempted_at
    | D_preimage | D_refund_ark_txid | D_failure_reason | D_rfq_id | D_fund_started_at |
    D_invoice_wallet_fingerprint | D_invoice_backend_name | D_unrolled_refund

type_synonym receive_raw = "(LnReceiveSwapState, receive_col) raw"
type_synonym receive_db = "(LnReceiveSwapState, receive_col) db"

definition RECEIVE_TRANSITION_COLUMNS :: "receive_col list" where
  "RECEIVE_TRANSITION_COLUMNS =
     [D_htlc_expires_at, D_arkade_lockup_txid, D_arkade_lockup_vout, D_arkade_lockup_value, D_preimage,
      D_refund_ark_txid, D_failure_reason, D_fund_started_at]"

definition RECEIVE_PATCH_COLUMNS :: "receive_col list" where
  "RECEIVE_PATCH_COLUMNS =
     [D_revealed_at, D_stamped_at, D_settle_attempted_at, D_arkade_lockup_value, D_refund_ark_txid, D_unrolled_refund]"

record ReceiveSwapRow =
  rrId :: string
  rrState :: LnReceiveSwapState
  rrCreatedAt :: int
  rrUpdatedAt :: int
  rrPaymentHash :: string
  rrAmountSats :: int
  rrPayoutSats :: int
  rrInvoice :: string
  rrInvoiceWalletFingerprint :: "string option"
  rrInvoiceBackendName :: "string option"
  rrInvoiceExpiresAt :: int
  rrHtlcExpiresAt :: "int option"
  rrPayoutAddress :: string
  rrPayoutPkScript :: string
  rrPayoutPubkey :: string
  rrClaimPacket :: "string option"
  rrRefundLocktime :: int
  rrSolverPubkey :: string
  rrServerPubkey :: string
  rrClaimDelay :: int
  rrRefundDelay :: int
  rrRefundWithoutReceiverDelay :: int
  rrEmulatorPubkey :: string
  rrPkScript :: string
  rrLockupAddress :: string
  rrSolverRefundPkScript :: string
  rrNonInteractiveParameters :: "bool option"
  rrFundStartedAt :: "int option"
  rrArkadeLockupTxid :: "string option"
  rrArkadeLockupVout :: "int option"
  rrArkadeLockupValue :: "int option"
  rrRevealedAt :: "int option"
  rrStampedAt :: "int option"
  rrSettleAttemptedAt :: "int option"
  rrPreimage :: "string option"
  rrRefundArkTxid :: "string option"
  rrUnrolledRefund :: "string option"
  rrFailureReason :: "string option"
  rrRfqId :: "string option"

definition receive_toRow :: "receive_raw \<Rightarrow> ReceiveSwapRow" where
  "receive_toRow r = (let c = rwCols r in
     \<lparr>rrId = rwId r, rrState = rwState r, rrCreatedAt = rwCreated r, rrUpdatedAt = rwUpdated r,
      rrPaymentHash = sql_text (c D_payment_hash), rrAmountSats = sql_int (c D_amount_sats),
      rrPayoutSats = (case numberOrNull (c D_payout_sats) of Some v \<Rightarrow> v | None \<Rightarrow> sql_int (c D_amount_sats)),
      rrInvoice = sql_text (c D_invoice),
      rrInvoiceWalletFingerprint = textOf (c D_invoice_wallet_fingerprint),
      rrInvoiceBackendName = textOf (c D_invoice_backend_name),
      rrInvoiceExpiresAt = sql_int (c D_invoice_expires_at),
      rrHtlcExpiresAt = numberOrNull (c D_htlc_expires_at),
      rrPayoutAddress = sql_text (c D_payout_address), rrPayoutPkScript = sql_text (c D_payout_pk_script),
      rrPayoutPubkey = sql_text (c D_payout_pubkey),
      rrClaimPacket = (if c D_claim_packet = SText [] then None else textOf (c D_claim_packet)),
      rrRefundLocktime = sql_int (c D_refund_locktime), rrSolverPubkey = sql_text (c D_solver_pubkey),
      rrServerPubkey = sql_text (c D_server_pubkey), rrClaimDelay = sql_int (c D_claim_delay),
      rrRefundDelay = sql_int (c D_refund_delay),
      rrRefundWithoutReceiverDelay = sql_int (c D_refund_without_receiver_delay),
      rrEmulatorPubkey = sql_text (c D_emulator_pubkey), rrPkScript = sql_text (c D_pk_script),
      rrLockupAddress = sql_text (c D_lockup_address),
      rrSolverRefundPkScript = sql_text (c D_solver_refund_pk_script),
      rrNonInteractiveParameters =
        (case c D_non_interactive_parameters of SNull \<Rightarrow> None | v \<Rightarrow> Some (v = SText ''1'')),
      rrFundStartedAt = numberOrNull (c D_fund_started_at),
      rrArkadeLockupTxid = textOf (c D_arkade_lockup_txid),
      rrArkadeLockupVout = numberOrNull (c D_arkade_lockup_vout),
      rrArkadeLockupValue = numberOrNull (c D_arkade_lockup_value),
      rrRevealedAt = numberOrNull (c D_revealed_at), rrStampedAt = numberOrNull (c D_stamped_at),
      rrSettleAttemptedAt = numberOrNull (c D_settle_attempted_at), rrPreimage = textOf (c D_preimage),
      rrRefundArkTxid = textOf (c D_refund_ark_txid), rrUnrolledRefund = textOf (c D_unrolled_refund),
      rrFailureReason = textOf (c D_failure_reason), rrRfqId = textOf (c D_rfq_id)\<rparr>)"

definition RECEIVE_SHAPE :: "(LnReceiveSwapState, receive_col) StoreShape" where
  "RECEIVE_SHAPE =
     \<lparr>shNoun = ''receive swap'', shLabel = ''receive swap lifecycle'', shEdges = mEdges LnReceiveMachine,
      shTransitionColumns = RECEIVE_TRANSITION_COLUMNS, shPatchColumns = RECEIVE_PATCH_COLUMNS,
      shLive = mLive LnReceiveMachine, shExposed = mExposed LnReceiveMachine, shStart = R_quoted,
      shStuck = R_stuck, shRefused = R_refused, shPaymentHash = D_payment_hash, shRfqId = D_rfq_id,
      shPkScript = D_pk_script, shAmount = D_amount_sats, shFailure = D_failure_reason,
      shLease = Some D_fund_started_at, shOnce = None\<rparr>"

section \<open>Quotes\<close>

record ReceiveQuoteRecord =
  rqId :: string
  rqPaymentHash :: string
  rqAmountSats :: int
  rqPayoutSats :: int
  rqInvoice :: string
  rqInvoiceWalletFingerprint :: "string option"
  rqInvoiceBackendName :: "string option"
  rqInvoiceExpiresAt :: int
  rqPayoutAddress :: string
  rqPayoutPkScript :: string
  rqPayoutPubkey :: string
  rqClaimPacket :: "string option"
  rqRefundLocktime :: int
  rqSolverPubkey :: string
  rqServerPubkey :: string
  rqClaimDelay :: int
  rqRefundDelay :: int
  rqRefundWithoutReceiverDelay :: int
  rqEmulatorPubkey :: string
  rqPkScript :: string
  rqLockupAddress :: string
  rqSolverRefundPkScript :: string
  rqNonInteractiveParameters :: bool
  rqRfqId :: "string option"

definition receive_quote_cols :: "ReceiveQuoteRecord \<Rightarrow> receive_col \<Rightarrow> sqlval" where
  "receive_quote_cols q = (\<lambda>c. case c of
      D_payment_hash \<Rightarrow> SText (rqPaymentHash q)
    | D_amount_sats \<Rightarrow> SInt (rqAmountSats q)
    | D_payout_sats \<Rightarrow> SInt (rqPayoutSats q)
    | D_invoice \<Rightarrow> SText (rqInvoice q)
    | D_invoice_expires_at \<Rightarrow> SInt (rqInvoiceExpiresAt q)
    | D_payout_address \<Rightarrow> SText (rqPayoutAddress q)
    | D_payout_pk_script \<Rightarrow> SText (rqPayoutPkScript q)
    | D_payout_pubkey \<Rightarrow> SText (rqPayoutPubkey q)
    | D_claim_packet \<Rightarrow> SText (case rqClaimPacket q of Some p \<Rightarrow> p | None \<Rightarrow> [])
    | D_refund_locktime \<Rightarrow> SInt (rqRefundLocktime q)
    | D_solver_pubkey \<Rightarrow> SText (rqSolverPubkey q)
    | D_server_pubkey \<Rightarrow> SText (rqServerPubkey q)
    | D_claim_delay \<Rightarrow> SInt (rqClaimDelay q)
    | D_refund_delay \<Rightarrow> SInt (rqRefundDelay q)
    | D_refund_without_receiver_delay \<Rightarrow> SInt (rqRefundWithoutReceiverDelay q)
    | D_emulator_pubkey \<Rightarrow> SText (rqEmulatorPubkey q)
    | D_pk_script \<Rightarrow> SText (rqPkScript q)
    | D_lockup_address \<Rightarrow> SText (rqLockupAddress q)
    | D_solver_refund_pk_script \<Rightarrow> SText (rqSolverRefundPkScript q)
    | D_non_interactive_parameters \<Rightarrow> (if rqNonInteractiveParameters q then SText ''1'' else SNull)
    | D_rfq_id \<Rightarrow> opt_text (rqRfqId q)
    | D_invoice_wallet_fingerprint \<Rightarrow> opt_text (rqInvoiceWalletFingerprint q)
    | D_invoice_backend_name \<Rightarrow> opt_text (rqInvoiceBackendName q)
    | _ \<Rightarrow> SNull)"

definition receive_quote_row :: "ReceiveQuoteRecord \<Rightarrow> int \<Rightarrow> receive_raw" where
  "receive_quote_row q tm =
     \<lparr>rwId = rqId q, rwState = R_quoted, rwCreated = tm, rwUpdated = tm, rwCols = receive_quote_cols q\<rparr>"

section \<open>The actions of the receive service\<close>

text \<open>
  \<open>FundReceive id sats submitted\<close> is a call that funds the solver's lockup; \<open>submitted\<close> is false when
  it failed with the proof that nothing was sent (\<open>FundNotSubmittedError\<close>) and true otherwise, a
  call of unknown outcome included. \<open>SettleHold id preimage\<close> collects the Lightning payment,
  \<open>CancelHold hash\<close> gives it back, \<open>RefundOwn id\<close> and \<open>RefundUnrolled id\<close> take the lockup back.
\<close>

datatype receive_act =
    RSt "(LnReceiveSwapState, receive_col) store_act"
  | FundReceive string int bool
  | SettleHold string string
  | CancelHold string
  | RefundOwn string
  | RefundUnrolled string

fun receive_part :: "receive_act \<Rightarrow> (LnReceiveSwapState, receive_col) store_act option" where
  "receive_part (RSt a) = Some a"
| "receive_part _ = None"

definition receive_hash :: "receive_raw \<Rightarrow> string" where
  "receive_hash r = sql_text (rwCols r D_payment_hash)"

definition receive_opened :: "(string \<Rightarrow> string \<Rightarrow> bool) \<Rightarrow> receive_raw \<Rightarrow> bool" where
  "receive_opened opens r = (case textOf (rwCols r D_preimage) of Some p \<Rightarrow> opens p (receive_hash r) | None \<Rightarrow> False)"

text \<open>
  What the service adds to the rules of a store: a quote is inserted only for a hash no live row has
  (the unique index); the lease is taken from \<open>armed\<close> only, without expiry; \<open>claimed\<close> is entered only
  with a preimage of the row's own hash, and no other step touches it; a transition may clear the
  lease but not take it.
\<close>

fun receive_ok :: "(string \<Rightarrow> string \<Rightarrow> bool) \<Rightarrow> (LnReceiveSwapState, receive_col) store_act \<Rightarrow> receive_db \<Rightarrow> bool" where
  "receive_ok opens (Insert q) d \<longleftrightarrow>
     (case textOf (rwCols q D_payment_hash) of
        None \<Rightarrow> False | Some h \<Rightarrow> findLiveByPaymentHash RECEIVE_SHAPE h d = None) \<and>
     numberOrNull (rwCols q D_payout_sats) \<noteq> None \<and> rwCols q D_preimage = SNull \<and> rwCols q D_fund_started_at = SNull"
| "receive_ok opens (Cas i s t fs tm) d \<longleftrightarrow> (case row_of d i of
     None \<Rightarrow> False
   | Some r \<Rightarrow>
       (if t = R_claimed then receive_opened opens (set_fields fs r)
        else rwCols (set_fields fs r) D_preimage = rwCols r D_preimage) \<and>
       rwCols (set_fields fs r) D_fund_started_at \<in> {rwCols r D_fund_started_at, SNull})"
| "receive_ok opens (Lease i s stale tm1 tm2) d \<longleftrightarrow> s = R_armed \<and> stale = None \<and> 0 \<le> tm1"
| "receive_ok opens _ d \<longleftrightarrow> True"

definition may_fund :: "receive_raw \<Rightarrow> int \<Rightarrow> bool" where
  "may_fund r sats \<longleftrightarrow> rwState r \<noteq> R_quoted \<and> rwCols r D_payout_sats = SInt sats"

definition may_settle :: "(string \<Rightarrow> string \<Rightarrow> bool) \<Rightarrow> receive_raw \<Rightarrow> string \<Rightarrow> bool" where
  "may_settle opens r p \<longleftrightarrow> rwState r \<in> {R_claimed, R_settled, R_stuck} \<and>
     rwCols r D_preimage = SText p \<and> opens p (receive_hash r)"

definition may_take_back :: "receive_raw \<Rightarrow> bool" where
  "may_take_back r \<longleftrightarrow> rwState r \<notin> {R_quoted, R_armed, R_refused}"

definition receive_permitted :: "(receive_raw \<Rightarrow> bool) \<Rightarrow> string \<Rightarrow> receive_db \<Rightarrow> receive_db option" where
  "receive_permitted p i d = (case row_of d i of None \<Rightarrow> None | Some r \<Rightarrow> if p r then Some d else None)"

fun exec_receive :: "(string \<Rightarrow> string \<Rightarrow> bool) \<Rightarrow> receive_act \<Rightarrow> receive_db \<Rightarrow> receive_db option" where
  "exec_receive opens (RSt a) d = exec_store RECEIVE_SHAPE (receive_ok opens) a d"
| "exec_receive opens (FundReceive i sats _) d = receive_permitted (\<lambda>r. may_fund r sats) i d"
| "exec_receive opens (SettleHold i p) d = receive_permitted (\<lambda>r. may_settle opens r p) i d"
| "exec_receive opens (CancelHold h) d = Some d"
| "exec_receive opens (RefundOwn i) d = receive_permitted may_take_back i d"
| "exec_receive opens (RefundUnrolled i) d = receive_permitted may_take_back i d"

lemma receive_permitted_Some:
  "receive_permitted p i d = Some d' \<longleftrightarrow> d' = d \<and> (\<exists>r. row_of d i = Some r \<and> p r)"
  by (auto simp: receive_permitted_def split: option.splits if_splits)

interpretation receive_store: swap_store LnReceiveMachine R_quoted R_refused R_stuck R_funded
  "{R_claimed, R_refunding, R_settled, R_refunded, R_stuck}" RECEIVE_SHAPE "receive_ok opens"
  "exec_receive opens" receive_part
  for opens
proof unfold_locales
  fix s t
  show "t \<in> set (shEdges RECEIVE_SHAPE s) \<longleftrightarrow> canTransition LnReceiveMachine s t"
    by (cases s) (simp_all add: RECEIVE_SHAPE_def canTransition_def lnReceive_edges)
next
  fix a d d'
  assume "exec_receive opens a d = Some d'"
  then show "case receive_part a of None \<Rightarrow> d' = d | Some b \<Rightarrow> exec_store RECEIVE_SHAPE (receive_ok opens) b d = Some d'"
    by (cases a) (auto simp: receive_permitted_Some)
qed (auto simp: RECEIVE_SHAPE_def RECEIVE_TRANSITION_COLUMNS_def RECEIVE_PATCH_COLUMNS_def isExposed_def isLive_def)

interpretation receive_service: service LnReceiveMachine R_quoted R_refused R_stuck R_funded
  "{R_claimed, R_refunding, R_settled, R_refunded, R_stuck}" RECEIVE_SHAPE "receive_ok opens"
  "exec_receive opens" receive_part RSt
  for opens
  by unfold_locales simp_all

section \<open>The invariant of the table\<close>

definition receive_row_ok :: "(string \<Rightarrow> string \<Rightarrow> bool) \<Rightarrow> receive_raw \<Rightarrow> bool" where
  "receive_row_ok opens r \<longleftrightarrow>
     textOf (rwCols r D_payment_hash) \<noteq> None \<and> numberOrNull (rwCols r D_payout_sats) \<noteq> None \<and>
     (rwState r \<in> {R_claimed, R_settled} \<longrightarrow> receive_opened opens r) \<and>
     (case rwCols r D_fund_started_at of SNull \<Rightarrow> True | SInt v \<Rightarrow> 0 \<le> v | _ \<Rightarrow> False)"

definition receive_inv :: "(string \<Rightarrow> string \<Rightarrow> bool) \<Rightarrow> receive_db \<Rightarrow> bool" where
  "receive_inv opens d \<longleftrightarrow> ids_distinct d \<and> live_hash_unique RECEIVE_SHAPE d \<and>
     (\<forall>i r. row_of d i = Some r \<longrightarrow> receive_row_ok opens r)"

lemma receive_opened_cong:
  "rwCols r D_preimage = rwCols q D_preimage \<Longrightarrow> rwCols r D_payment_hash = rwCols q D_payment_hash \<Longrightarrow>
     receive_opened opens r = receive_opened opens q"
  by (simp add: receive_opened_def receive_hash_def split: option.split)

text \<open>What an action may change of a row that exists, by the kind of action.\<close>

lemma receive_row_cas:
  assumes "exec_store RECEIVE_SHAPE (receive_ok opens) (Cas i s t fs tm) d = Some d'" and "row_of d i = Some r"
    and "ids_distinct d"
  obtains r' where "row_of d' i = Some r'" "rwState r = s" "rwState r' = t" "canTransition LnReceiveMachine s t"
    "rwCols r' D_payment_hash = rwCols r D_payment_hash" "rwCols r' D_payout_sats = rwCols r D_payout_sats"
    "t = R_claimed \<Longrightarrow> receive_opened opens r'" "t \<noteq> R_claimed \<Longrightarrow> rwCols r' D_preimage = rwCols r D_preimage"
    "rwCols r' D_fund_started_at \<in> {rwCols r D_fund_started_at, SNull}"
    "D_fund_started_at \<notin> fst ` set fs \<Longrightarrow> rwCols r' D_fund_started_at = rwCols r D_fund_started_at"
proof -
  let ?r = "(set_fields fs r)\<lparr>rwState := t, rwUpdated := tm\<rparr>"
  have "fst ` set fs \<subseteq> set RECEIVE_TRANSITION_COLUMNS" and ok: "receive_ok opens (Cas i s t fs tm) d"
    using assms(1) by (simp_all add: RECEIVE_SHAPE_def del: receive_ok.simps split: if_split_asm)
  then have "D_payout_sats \<notin> fst ` set fs" by (auto simp: RECEIVE_TRANSITION_COLUMNS_def)
  moreover have "receive_opened opens (set_fields fs r) \<longleftrightarrow> receive_opened opens ?r" by (rule receive_opened_cong) simp_all
  ultimately show ?thesis
    using receive_store.store_row_cas [OF assms] ok assms(2)
    by (intro that [of ?r]) (auto simp: RECEIVE_SHAPE_def split: if_splits)
qed

lemma receive_row_still:
  assumes "exec_store RECEIVE_SHAPE (receive_ok opens) a d = Some d'" and "row_of d i = Some r"
    and "\<forall>s t fs tm. a \<noteq> Cas i s t fs tm"
  obtains r' where "row_of d' i = Some r'" "rwState r' = rwState r"
    "rwCols r' D_payment_hash = rwCols r D_payment_hash" "rwCols r' D_payout_sats = rwCols r D_payout_sats"
    "rwCols r' D_preimage = rwCols r D_preimage"
  using store_row_still [OF assms]
  by (auto simp: RECEIVE_SHAPE_def RECEIVE_PATCH_COLUMNS_def)

text \<open>The lease column of a row moves only by its own lease, release or compare-and-swap.\<close>

lemma lease_column:
  assumes "exec_store RECEIVE_SHAPE (receive_ok opens) a d = Some d'" and "row_of d i = Some r" and "row_of d' i = Some r'"
    and "\<forall>s t fs tm. a \<noteq> Cas i s t fs tm" and ids: "ids_distinct d"
  shows "rwCols r' D_fund_started_at = (case a of
      Lease j s stale tm1 tm2 \<Rightarrow> if j = i then SInt tm1 else rwCols r D_fund_started_at
    | Release j \<Rightarrow> if j = i then SNull else rwCols r D_fund_started_at
    | _ \<Rightarrow> rwCols r D_fund_started_at)"
proof (cases a)
  case (Lease j s stale tm1 tm2)
  let ?p = "\<lambda>r. rwId r = j \<and> rwState r = s \<and> (case rwCols r D_fund_started_at of SNull \<Rightarrow> True
    | SInt v \<Rightarrow> v \<le> (case stale of Some b \<Rightarrow> b | None \<Rightarrow> -1) | _ \<Rightarrow> False)"
  let ?f = "\<lambda>r. (set_fields [(D_fund_started_at, SInt tm1)] r)\<lparr>rwUpdated := tm2\<rparr>"
  have d': "d' = snd (update_rows ?p ?f d)" and one: "fst (update_rows ?p ?f d) = 1"
    using assms(1) Lease by (auto simp: RECEIVE_SHAPE_def lease_row_def split: if_splits)
  have "?p r" if "j = i"
  proof -
    obtain q where "q \<in> set (dbRows d)" "?p q" using one update_rows_one [of ?p ?f d] by auto
    then show ?thesis using row_of_eq [OF ids, of i q] assms(2) that by auto
  qed
  moreover have "rwId r = i" using row_of_Some [OF assms(2)] by simp
  ultimately show ?thesis
    using assms(2,3) Lease by (auto simp: d' update_rows_row_of set_fields_cols)
next
  case (Release j)
  have "rwId r = i" using row_of_Some [OF assms(2)] by simp
  then show ?thesis
    using assms(1-3) Release by (auto simp: RECEIVE_SHAPE_def release_row_def update_rows_row_of set_fields_cols)
next
  case (Insert q)
  then have "row_of d' i = row_of d i"
    using assms(1,2) find_append_Some [of "\<lambda>r. rwId r = i" "dbRows d" r "[q]"] by (auto simp: row_of_def split: if_splits)
  then show ?thesis using assms(2,3) Insert by simp
next
  case (Patch j fs tm)
  then have "D_fund_started_at \<notin> fst ` set fs"
    using assms(1) by (auto simp: RECEIVE_SHAPE_def RECEIVE_PATCH_COLUMNS_def split: if_splits)
  then show ?thesis
    using assms(1-3) Patch by (auto simp: patch_row_def update_rows_row_of split: if_splits)
next
  case (Cas j s t fs tm)
  then have "j \<noteq> i" using assms(4) by auto
  moreover have "rwId r = i" using row_of_Some [OF assms(2)] by simp
  ultimately show ?thesis
    using assms(1-3) Cas by (auto simp: cas_def update_rows_row_of split: if_splits)
next
  case (Once j s v tm)
  then show ?thesis using assms(1) by (simp add: RECEIVE_SHAPE_def once_row_def)
qed (use assms in \<open>auto simp: add_event_def row_of_def split: if_splits\<close>)

lemma store_keeps_receive_row_ok:
  assumes "exec_store RECEIVE_SHAPE (receive_ok opens) a d = Some d'" and "receive_inv opens d" and "row_of d' i = Some r'"
  shows "receive_row_ok opens r'"
proof (cases "row_of d i")
  case None
  with store_row_back [OF assms(1,3)] assms(1)
  show ?thesis by (auto simp: receive_row_ok_def RECEIVE_SHAPE_def split: if_splits option.splits)
next
  case (Some r)
  then have r: "receive_row_ok opens r" and ids: "ids_distinct d" using assms(2) by (auto simp: receive_inv_def)
  show ?thesis
  proof (cases "\<exists>s t fs tm. a = Cas i s t fs tm")
    case True
    then obtain s t fs tm where a: "a = Cas i s t fs tm" by blast
    obtain q where q: "row_of d' i = Some q" "rwState r = s" "rwState q = t" "canTransition LnReceiveMachine s t"
      "rwCols q D_payment_hash = rwCols r D_payment_hash" "rwCols q D_payout_sats = rwCols r D_payout_sats"
      "t = R_claimed \<Longrightarrow> receive_opened opens q" "t \<noteq> R_claimed \<Longrightarrow> rwCols q D_preimage = rwCols r D_preimage"
      "rwCols q D_fund_started_at \<in> {rwCols r D_fund_started_at, SNull}"
      using receive_row_cas [OF assms(1) [unfolded a] Some ids] by metis
    with r receive_opened_cong [of q r opens] have "receive_row_ok opens q"
      by (cases s; cases t) (auto simp: receive_row_ok_def)
    with assms(3) q(1) show ?thesis by simp
  next
    case False
    obtain q where q: "row_of d' i = Some q" "rwState q = rwState r"
      "rwCols q D_payment_hash = rwCols r D_payment_hash" "rwCols q D_payout_sats = rwCols r D_payout_sats"
      "rwCols q D_preimage = rwCols r D_preimage"
      by (rule receive_row_still [OF assms(1) Some]) (use False in auto)
    moreover have "case rwCols q D_fund_started_at of SNull \<Rightarrow> True | SInt v \<Rightarrow> 0 \<le> v | _ \<Rightarrow> False"
      using lease_column [OF assms(1) Some q(1) _ ids] False r assms(1)
      by (cases a) (auto simp: receive_row_ok_def split: if_splits)
    ultimately have "receive_row_ok opens q"
      using r receive_opened_cong [of q r opens] by (simp add: receive_row_ok_def)
    with assms(3) q(1) show ?thesis by simp
  qed
qed

lemma exec_keeps_receive_inv:
  assumes "exec_receive opens a d = Some d'" and "receive_inv opens d"
  shows "receive_inv opens d'"
proof (cases a)
  case (RSt b)
  then have b: "exec_store RECEIVE_SHAPE (receive_ok opens) b d = Some d'" using assms(1) by simp
  have ids: "ids_distinct d" and u: "live_hash_unique RECEIVE_SHAPE d"
    and rows: "\<And>i r. row_of d i = Some r \<Longrightarrow> receive_row_ok opens r"
    using assms(2) by (auto simp: receive_inv_def)
  have "live_hash_unique RECEIVE_SHAPE d'"
  proof (rule receive_store.store_keeps_unique [OF b ids u])
    fix q i r
    assume "receive_ok opens (Insert q) d" "row_of d i = Some r"
      "rwCols r (shPaymentHash RECEIVE_SHAPE) = rwCols q (shPaymentHash RECEIVE_SHAPE)"
    then show "rwState r = R_refused"
      using no_live_row_with_hash [of RECEIVE_SHAPE _ d i r]
      by (cases "rwCols q D_payment_hash") (auto simp: RECEIVE_SHAPE_def)
  qed
  then show ?thesis unfolding receive_inv_def
    using store_ids [OF b ids] store_keeps_receive_row_ok [OF b assms(2)] by blast
qed (use assms in \<open>auto simp: receive_permitted_Some\<close>)

lemma run_keeps_receive_inv:
  "run_all (exec_receive opens) as d = Some d' \<Longrightarrow> receive_inv opens d \<Longrightarrow> receive_inv opens d'"
  by (rule run_all_keeps) (auto intro: exec_keeps_receive_inv)

section \<open>Funding at most once\<close>

text \<open>
  A worker's own acts, read for one swap: it funds only under a lease it has taken and not yet used, and
  gives a lease up (by releasing it, or by a transition that clears it) only after a funding call that
  proved nothing was sent.
\<close>

datatype phase = Idle | Held | Rejected | Spent

fun phase_step :: "string \<Rightarrow> receive_act \<Rightarrow> phase \<Rightarrow> phase option" where
  "phase_step i (FundReceive j sats submitted) ph =
     (if j \<noteq> i then Some ph
      else if ph = Held then Some (if submitted then Spent else Rejected) else None)"
| "phase_step i (RSt (Lease j s stale tm1 tm2)) ph = Some (if j = i then Held else ph)"
| "phase_step i (RSt (Release j)) ph =
     (if j \<noteq> i then Some ph else if ph = Rejected then Some Idle else None)"
| "phase_step i (RSt (Cas j s t fs tm)) ph =
     (if j \<noteq> i \<or> D_fund_started_at \<notin> fst ` set fs then Some ph
      else if ph = Rejected then Some Idle else None)"
| "phase_step i _ ph = Some ph"

fun phase_of :: "string \<Rightarrow> receive_act list \<Rightarrow> phase option" where
  "phase_of i as = fold (\<lambda>a ph. Option.bind ph (phase_step i a)) as (Some Idle)"

declare phase_of.simps [simp del]

lemma phase_of_Nil [simp]: "phase_of i [] = Some Idle"
  by (simp add: phase_of.simps)

lemma phase_of_snoc [simp]: "phase_of i (as @ [a]) = Option.bind (phase_of i as) (phase_step i a)"
  by (simp add: phase_of.simps)

definition disciplined :: "receive_act list \<Rightarrow> bool" where
  "disciplined as \<longleftrightarrow> (\<forall>i. phase_of i as \<noteq> None)"

definition lease_of :: "receive_db \<Rightarrow> string \<Rightarrow> sqlval" where
  "lease_of d i = (case row_of d i of None \<Rightarrow> SNull | Some r \<Rightarrow> rwCols r D_fund_started_at)"

lemma lease_taken:
  assumes "exec_receive opens (RSt (Lease i s stale tm1 tm2)) d = Some d'" and "receive_inv opens d"
  shows "lease_of d i = SNull \<and> lease_of d' i \<noteq> SNull"
proof -
  let ?p = "\<lambda>r. rwId r = i \<and> rwState r = s \<and> (case rwCols r D_fund_started_at of SNull \<Rightarrow> True
    | SInt v \<Rightarrow> v \<le> (case stale of Some b \<Rightarrow> b | None \<Rightarrow> -1) | _ \<Rightarrow> False)"
  let ?f = "\<lambda>r. (set_fields [(D_fund_started_at, SInt tm1)] r)\<lparr>rwUpdated := tm2\<rparr>"
  have d': "d' = snd (update_rows ?p ?f d)" and one: "fst (update_rows ?p ?f d) = 1"
    and st: "stale = None"
    using assms(1) by (auto simp: RECEIVE_SHAPE_def lease_row_def split: if_splits)
  have ids: "ids_distinct d" using assms(2) by (simp add: receive_inv_def)
  obtain r where r: "r \<in> set (dbRows d)" "?p r" using one update_rows_one [of ?p ?f d] by auto
  then have row: "row_of d i = Some r" using row_of_eq [OF ids] by blast
  then have "receive_row_ok opens r" using assms(2) by (auto simp: receive_inv_def)
  then have "rwCols r D_fund_started_at = SNull"
    using r(2) st by (cases "rwCols r D_fund_started_at") (auto simp: receive_row_ok_def)
  moreover have "row_of d' i = Some (?f r)" using row r(2) by (simp add: d' update_rows_row_of)
  ultimately show ?thesis using row by (simp add: lease_of_def set_fields_cols)
qed

fun moves_lease :: "string \<Rightarrow> receive_act \<Rightarrow> bool" where
  "moves_lease i (RSt (Lease j _ _ _ _)) \<longleftrightarrow> j = i"
| "moves_lease i (RSt (Release j)) \<longleftrightarrow> j = i"
| "moves_lease i (RSt (Cas j _ _ fs _)) \<longleftrightarrow> j = i \<and> D_fund_started_at \<in> fst ` set fs"
| "moves_lease i _ \<longleftrightarrow> False"

lemma lease_kept:
  assumes "exec_receive opens a d = Some d'" and inv: "receive_inv opens d" and "\<not> moves_lease i a"
  shows "lease_of d' i = lease_of d i"
proof (cases a)
  case (RSt b)
  then have b: "exec_store RECEIVE_SHAPE (receive_ok opens) b d = Some d'" using assms(1) by simp
  have ids: "ids_distinct d" using inv by (simp add: receive_inv_def)
  show ?thesis
  proof (cases "row_of d i")
    case None
    show ?thesis
    proof (cases "row_of d' i")
      case (Some r')
      then show ?thesis
        using store_row_back [OF b Some None] b None by (auto simp: lease_of_def split: if_splits)
    qed (simp add: lease_of_def None)
  next
    case (Some r)
    obtain r' where r': "row_of d' i = Some r'" using receive_store.store_row [OF b Some ids] by blast
    show ?thesis
    proof (cases "\<exists>s t fs tm. b = Cas i s t fs tm")
      case True
      then obtain s t fs tm where c: "b = Cas i s t fs tm" by blast
      with RSt assms(3) have "D_fund_started_at \<notin> fst ` set fs" by simp
      then have "rwCols r' D_fund_started_at = rwCols r D_fund_started_at"
        using receive_row_cas [OF b [unfolded c] Some ids] r' by (metis option.inject)
      then show ?thesis using Some r' by (simp add: lease_of_def)
    next
      case False
      then have "rwCols r' D_fund_started_at = rwCols r D_fund_started_at"
        using lease_column [OF b Some r' _ ids] RSt assms(3) by (cases b) auto
      then show ?thesis using Some r' by (simp add: lease_of_def)
    qed
  qed
qed (use assms(1) in \<open>auto simp: receive_permitted_Some\<close>)

text \<open>The acts of one worker in a log of many, and the fundings of a swap that may have been sent.\<close>

fun sent_funding :: "string \<Rightarrow> receive_act \<Rightarrow> bool" where
  "sent_funding i (FundReceive j sats submitted) \<longleftrightarrow> j = i \<and> submitted"
| "sent_funding i _ \<longleftrightarrow> False"

definition sent_fundings :: "string \<Rightarrow> receive_act list \<Rightarrow> nat" where
  "sent_fundings i as = length (filter (sent_funding i) as)"

text \<open>
  One worker at most is anywhere but idle for a swap, nobody is while its lease is free, and a funding
  was sent only if some worker has spent the lease.
\<close>

definition lease_inv :: "string \<Rightarrow> ('w \<times> receive_act) list \<Rightarrow> receive_db \<Rightarrow> bool" where
  "lease_inv i trace d \<longleftrightarrow>
     (\<forall>v w. phase_of i (acts_by v trace) \<noteq> Some Idle \<longrightarrow> phase_of i (acts_by w trace) \<noteq> Some Idle \<longrightarrow> v = w) \<and>
     (lease_of d i = SNull \<longrightarrow> (\<forall>w. phase_of i (acts_by w trace) = Some Idle)) \<and>
     (sent_fundings i (map snd trace) = 0 \<or>
       sent_fundings i (map snd trace) = 1 \<and> (\<exists>w. phase_of i (acts_by w trace) = Some Spent))"

lemma phase_step_cases:
  assumes "phase_step i a ph \<noteq> None"
  obtains (still) "phase_step i a ph = Some ph" "\<not> sent_funding i a" "\<not> moves_lease i a"
    | (take) s stale tm1 tm2 where "a = RSt (Lease i s stale tm1 tm2)"
    | (fund) sats sub where "a = FundReceive i sats sub" "ph = Held"
    | (clear) "moves_lease i a" "ph = Rejected" "phase_step i a ph = Some Idle" "\<not> sent_funding i a"
proof (cases a)
  case (RSt b)
  with assms that show ?thesis by (cases b) (auto split: if_splits)
next
  case (FundReceive j sats sub)
  with assms that show ?thesis by (cases "j = i") (auto split: if_splits)
qed (use that in auto)

lemma lease_inv_step:
  assumes inv: "lease_inv i trace d" and e: "exec_receive opens a d = Some d'" and r: "receive_inv opens d"
    and p: "phase_of i (acts_by w (trace @ [(w, a)])) \<noteq> None"
  shows "lease_inv i (trace @ [(w, a)]) d'"
proof -
  let ?ph = "\<lambda>v. phase_of i (acts_by v trace)"
  let ?ph' = "\<lambda>v. phase_of i (acts_by v (trace @ [(w, a)]))"
  obtain ph where ph: "?ph w = Some ph" and ph': "?ph' w = phase_step i a ph"
    using p by (cases "?ph w") (auto simp: acts_by_snoc)
  have other: "?ph' v = ?ph v" if "v \<noteq> w" for v using that by (simp add: acts_by_snoc)
  have one: "v = u" if "?ph v \<noteq> Some Idle" "?ph u \<noteq> Some Idle" for v u
    using inv that unfolding lease_inv_def by blast
  have free: "?ph v = Some Idle" if "lease_of d i = SNull" for v
    using inv that unfolding lease_inv_def by blast
  have sent: "sent_fundings i (map snd trace) = 0 \<or>
      sent_fundings i (map snd trace) = 1 \<and> (\<exists>v. ?ph v = Some Spent)"
    using inv unfolding lease_inv_def by blast
  have count: "sent_fundings i (map snd (trace @ [(w, a)])) =
      sent_fundings i (map snd trace) + (if sent_funding i a then 1 else 0)"
    by (simp add: sent_fundings_def)
  have "phase_step i a ph \<noteq> None" using p ph' by simp
  then show ?thesis
  proof (cases rule: phase_step_cases)
    case still
    then have "?ph' v = ?ph v" for v using ph ph' other by (cases "v = w") auto
    then show ?thesis using inv still(2) lease_kept [OF e r still(3)] count by (simp add: lease_inv_def)
  next
    case (take s stale tm1 tm2)
    have idle: "?ph v = Some Idle" for v using free lease_taken [OF e [unfolded take] r] by blast
    have new: "?ph' v = (if v = w then Some Held else Some Idle)" for v
      using ph' other idle take by (cases "v = w") simp_all
    have "sent_fundings i (map snd (trace @ [(w, a)])) = 0" using sent idle count take by simp
    then show ?thesis
      using lease_taken [OF e [unfolded take] r] unfolding lease_inv_def new by simp
  next
    case (fund sats sub)
    have idle: "?ph v = Some Idle" if "v \<noteq> w" for v using one [of v w] ph fund(2) that by auto
    have new: "?ph' v = (if v = w then Some (if sub then Spent else Rejected) else Some Idle)" for v
      using ph' other idle fund by (cases "v = w") simp_all
    have "?ph v \<noteq> Some Spent" for v using idle ph fund(2) by (cases "v = w") auto
    then have "sent_fundings i (map snd (trace @ [(w, a)])) = (if sub then 1 else 0)"
      using sent count fund(1) by simp
    moreover have "lease_of d' i \<noteq> SNull" using lease_kept [OF e r] fund free [of w] ph by auto
    ultimately show ?thesis unfolding lease_inv_def new by auto
  next
    case clear
    have idle: "?ph v = Some Idle" if "v \<noteq> w" for v using one [of v w] ph clear(2) that by auto
    have new: "?ph' v = Some Idle" for v using ph' other idle clear(3) by (cases "v = w") simp_all
    have "?ph v \<noteq> Some Spent" for v using idle ph clear(2) by (cases "v = w") auto
    then have "sent_fundings i (map snd (trace @ [(w, a)])) = 0" using sent count clear(4) by simp
    then show ?thesis unfolding lease_inv_def new by simp
  qed
qed

definition empty_receive_db :: receive_db where
  "empty_receive_db = \<lparr>dbRows = [], dbEvents = []\<rparr>"

lemma empty_receive_inv: "receive_inv opens empty_receive_db"
  by (simp add: receive_inv_def empty_receive_db_def ids_distinct_def live_hash_unique_def row_of_def)

lemma disciplined_prefix: "disciplined (as @ [a]) \<Longrightarrow> disciplined as"
  unfolding disciplined_def phase_of_snoc by (metis bind.bind_lzero)

lemma lease_inv_run:
  assumes "run_all (exec_receive opens) (map snd trace) d0 = Some d" and inv: "receive_inv opens d0"
    and "\<forall>w. disciplined (acts_by w trace)"
  shows "lease_inv i trace d"
  using assms(1,3)
proof (induction trace arbitrary: d rule: rev_induct)
  case Nil
  then show ?case by (simp add: lease_inv_def acts_by_def sent_fundings_def)
next
  case (snoc x trace)
  obtain w a where x: "x = (w, a)" by fastforce
  obtain d1 where d1: "run_all (exec_receive opens) (map snd trace) d0 = Some d1"
    and e: "exec_receive opens a d1 = Some d"
    using snoc.prems(1) by (auto simp: x split: option.splits)
  have "disciplined (acts_by v trace)" for v
    using snoc.prems(2) disciplined_prefix [of "acts_by v trace" a] by (auto simp: x acts_by_snoc split: if_splits)
  then have "lease_inv i trace d1" using snoc.IH [OF d1] by blast
  moreover have "phase_of i (acts_by w (trace @ [(w, a)])) \<noteq> None"
    using snoc.prems(2) x unfolding disciplined_def by blast
  ultimately show ?case
    unfolding x by (intro lease_inv_step [OF _ e run_keeps_receive_inv [OF d1 inv]])
qed

text \<open>
  The solver's lockup is funded at most once. In every interleaving of any number of workers whose
  own acts keep to the lease, however often calls fail, processes die or workers retry, at most one
  funding call per swap can have reached the Arkade server.
\<close>

theorem lockup_funded_once:
  assumes "run_all (exec_receive opens) (map snd trace) empty_receive_db = Some d"
    and "\<forall>w. disciplined (acts_by w trace)"
  shows "sent_fundings i (map snd trace) \<le> 1"
  using lease_inv_run [OF assms(1) empty_receive_inv assms(2), of i] by (auto simp: lease_inv_def)

definition sample_receive_quote :: ReceiveQuoteRecord where
  "sample_receive_quote =
     \<lparr>rqId = ''a'', rqPaymentHash = ''ff'', rqAmountSats = 1000, rqPayoutSats = 990, rqInvoice = ''lnbcrt1'',
      rqInvoiceWalletFingerprint = None, rqInvoiceBackendName = None, rqInvoiceExpiresAt = 1700003600,
      rqPayoutAddress = ''tark1'', rqPayoutPkScript = ''51'', rqPayoutPubkey = ''02'', rqClaimPacket = None,
      rqRefundLocktime = 1700007200, rqSolverPubkey = ''03'', rqServerPubkey = ''04'', rqClaimDelay = 512,
      rqRefundDelay = 1024, rqRefundWithoutReceiverDelay = 5120, rqEmulatorPubkey = ''05'', rqPkScript = ''52'',
      rqLockupAddress = ''tark1l'', rqSolverRefundPkScript = ''53'', rqNonInteractiveParameters = True,
      rqRfqId = None\<rparr>"

text \<open>Two workers: the first is refused by the server and gives the lease back, the second funds.\<close>

definition sample_receive_trace :: "(nat \<times> receive_act) list" where
  "sample_receive_trace =
     [(0, RSt (Insert (receive_quote_row sample_receive_quote 0))),
      (1, RSt (Cas ''a'' R_quoted R_armed [(D_htlc_expires_at, SInt 1700090000)] 1)),
      (1, RSt (Lease ''a'' R_armed None 2 2)), (1, FundReceive ''a'' 990 False),
      (2, CancelHold ''ee''), (1, RSt (Release ''a'')),
      (2, RSt (Lease ''a'' R_armed None 3 3)), (2, FundReceive ''a'' 990 True),
      (2, RSt (Cas ''a'' R_armed R_funded [(D_arkade_lockup_txid, SText ''t'')] 4))]"

lemmas receive_eval =
  sample_receive_quote_def receive_quote_row_def receive_quote_cols_def RECEIVE_SHAPE_def
  findLiveByPaymentHash_def RECEIVE_TRANSITION_COLUMNS_def cas_def update_rows_def row_of_def set_fields_def
  receive_permitted_def may_fund_def may_settle_def receive_opened_def receive_hash_def lnReceive_edges spec_of_def
  lnReceiveTable_def lease_row_def release_row_def empty_receive_db_def

lemma sample_receive_runs:
  "run_all (exec_receive opens) (map snd sample_receive_trace) empty_receive_db \<noteq> None"
  by (simp add: sample_receive_trace_def receive_eval)

lemma sample_receive_disciplined: "disciplined (acts_by w sample_receive_trace)"
  by (auto simp: disciplined_def acts_by_def sample_receive_trace_def phase_of.simps)

theorem lockup_funded_once_witness:
  "sent_fundings ''a'' (map snd sample_receive_trace) = 1 \<and> sent_fundings ''a'' (map snd sample_receive_trace) \<le> 1"
proof -
  obtain d where "run_all (exec_receive (=)) (map snd sample_receive_trace) empty_receive_db = Some d"
    using sample_receive_runs [of "(=)"] by blast
  then have "sent_fundings ''a'' (map snd sample_receive_trace) \<le> 1"
    by (rule lockup_funded_once) (simp add: sample_receive_disciplined)
  then show ?thesis by (simp add: sample_receive_trace_def sent_fundings_def)
qed

section \<open>Settling\<close>

text \<open>A row holds a preimage only after it was claimed.\<close>

lemma preimage_after_claim:
  assumes "run_all (exec_receive opens) as d = Some d'" and "ids_distinct d" and "row_of d' i = Some r'"
    and "rwCols r' D_preimage \<noteq> SNull" and "\<forall>r. row_of d i = Some r \<longrightarrow> rwCols r D_preimage = SNull"
  shows "R_claimed \<in> snd ` set (edges_in receive_part i as)"
  using assms
proof (induction as arbitrary: d)
  case (Cons a as)
  obtain d1 where d1: "exec_receive opens a d = Some d1" "run_all (exec_receive opens) as d1 = Some d'"
    using Cons.prems(1) by (auto split: option.splits)
  have ids: "ids_distinct d1" using receive_store.exec_ids [OF d1(1) Cons.prems(2)] .
  show ?case
  proof (cases "\<exists>s fs tm. a = RSt (Cas i s R_claimed fs tm)")
    case False
    have "rwCols r1 D_preimage = SNull" if r1: "row_of d1 i = Some r1" for r1
    proof (cases a)
      case (RSt b)
      then have b: "exec_store RECEIVE_SHAPE (receive_ok opens) b d = Some d1" using d1(1) by simp
      show ?thesis
      proof (cases "row_of d i")
        case None
        with store_row_back [OF b r1] b show ?thesis by (auto split: if_splits)
      next
        case (Some r)
        with False RSt receive_row_cas [of opens i _ _ _ _ d d1 r] receive_row_still [OF b Some] b Cons.prems(2,5) r1
        show ?thesis by (metis option.inject)
      qed
    qed (use d1(1) r1 Cons.prems(5) in \<open>auto simp: receive_permitted_Some\<close>)
    then show ?thesis using Cons.IH [OF d1(2) ids Cons.prems(3,4)] by (simp add: image_Un)
  qed auto
qed auto

lemma payout_fixed:
  assumes "run_all (exec_receive opens) as d = Some d'" and "row_of d i = Some r" and "ids_distinct d"
  shows "\<exists>r'. row_of d' i = Some r' \<and> receive_hash r' = receive_hash r \<and> rwCols r' D_payout_sats = rwCols r D_payout_sats"
  using assms
proof (induction as arbitrary: d r)
  case (Cons a as)
  obtain d1 where d1: "exec_receive opens a d = Some d1" "run_all (exec_receive opens) as d1 = Some d'"
    using Cons.prems(1) by (auto split: option.splits)
  have "\<exists>r1. row_of d1 i = Some r1 \<and> receive_hash r1 = receive_hash r \<and> rwCols r1 D_payout_sats = rwCols r D_payout_sats"
  proof (cases a)
    case (RSt b)
    then have b: "exec_store RECEIVE_SHAPE (receive_ok opens) b d = Some d1" using d1(1) by simp
    then show ?thesis
      using receive_row_cas [of opens i _ _ _ _ d d1 r] receive_row_still [OF b Cons.prems(2)] Cons.prems(2,3)
      unfolding receive_hash_def by metis
  qed (use d1(1) Cons.prems(2) in \<open>auto simp: receive_permitted_Some\<close>)
  then obtain r1 where "row_of d1 i = Some r1" "receive_hash r1 = receive_hash r"
    "rwCols r1 D_payout_sats = rwCols r D_payout_sats" by blast
  with Cons.IH [OF d1(2) _ receive_store.exec_ids [OF d1(1) Cons.prems(3)]] show ?case by fastforce
qed auto

text \<open>
  C16: the promise of the receive table, for every interleaving of any number of workers. At most one
  swap per payment hash is not refused; \<open>funded\<close> is entered at most once per swap; a Lightning payment
  is settled only after the swap was claimed and with a preimage of its own hash; a lockup is funded
  with the quoted payout and nothing else.
\<close>

theorem receive_service_sound:
  assumes "run_all (exec_receive opens) as empty_receive_db = Some d"
  shows "live_hash_unique RECEIVE_SHAPE d \<and>
    (\<forall>i. length (filter (\<lambda>e. snd e = R_funded) (edges_in receive_part i as)) \<le> 1) \<and>
    (\<forall>bs i p cs. as = bs @ SettleHold i p # cs \<longrightarrow>
       R_claimed \<in> snd ` set (edges_in receive_part i bs) \<and>
       (\<exists>r. row_of d i = Some r \<and> opens p (receive_hash r))) \<and>
    (\<forall>bs i sats sub cs. as = bs @ FundReceive i sats sub # cs \<longrightarrow>
       (\<exists>r. row_of d i = Some r \<and> rrPayoutSats (receive_toRow r) = sats))"
proof (intro conjI allI impI)
  have empty: "ids_distinct empty_receive_db" "\<forall>r. row_of empty_receive_db i = Some r \<longrightarrow> Q r" for i Q
    by (simp_all add: empty_receive_db_def ids_distinct_def row_of_def)
  show "live_hash_unique RECEIVE_SHAPE d"
    using run_keeps_receive_inv [OF assms empty_receive_inv] by (simp add: receive_inv_def)
  show "length (filter (\<lambda>e. snd e = R_funded) (edges_in receive_part i as)) \<le> 1" for i
    using receive_store.run_commit_once [OF assms empty(1)] .
  have at: "\<exists>d1 r1 r. run_all (exec_receive opens) bs empty_receive_db = Some d1 \<and> row_of d1 i = Some r1 \<and> P r1 \<and>
      row_of d i = Some r \<and> receive_hash r = receive_hash r1 \<and> rwCols r D_payout_sats = rwCols r1 D_payout_sats"
    if as: "as = bs @ a # cs" and a: "\<And>d d'. exec_receive opens a d = Some d' \<Longrightarrow> \<exists>r. row_of d i = Some r \<and> P r"
    for bs a cs i P
  proof -
    obtain d1 where d1: "run_all (exec_receive opens) bs empty_receive_db = Some d1"
      and rest: "run_all (exec_receive opens) (a # cs) d1 = Some d"
      using assms unfolding as by (auto split: option.splits)
    then obtain r1 where r1: "row_of d1 i = Some r1" "P r1" using a by (auto split: option.splits)
    show ?thesis
      using d1 r1 payout_fixed [OF rest r1(1) receive_store.run_ids [OF d1 empty(1)]] by blast
  qed
  fix bs i cs
  have settle: "\<exists>d1 r1 r. run_all (exec_receive opens) bs empty_receive_db = Some d1 \<and> row_of d1 i = Some r1 \<and>
      may_settle opens r1 p \<and> row_of d i = Some r \<and> receive_hash r = receive_hash r1"
    if as: "as = bs @ SettleHold i p # cs" for p
    using at [OF as, where i = i and P = "\<lambda>r. may_settle opens r p"] by (auto simp: receive_permitted_Some)
  show "R_claimed \<in> snd ` set (edges_in receive_part i bs)" if as: "as = bs @ SettleHold i p # cs" for p
    using settle [OF as] preimage_after_claim [OF _ empty(1) _ _ empty(2)] by (fastforce simp: may_settle_def)
  show "\<exists>r. row_of d i = Some r \<and> opens p (receive_hash r)" if as: "as = bs @ SettleHold i p # cs" for p
    using settle [OF as] by (auto simp: may_settle_def)
  show "\<exists>r. row_of d i = Some r \<and> rrPayoutSats (receive_toRow r) = sats"
    if as: "as = bs @ FundReceive i sats sub # cs" for sats sub
    using at [OF as, where i = i and P = "\<lambda>r. may_fund r sats"]
    by (auto simp: receive_permitted_Some may_fund_def receive_toRow_def Let_def)
qed

theorem receive_service_sound_witness:
  "\<exists>d. run_all (exec_receive (=)) (map snd sample_receive_trace) empty_receive_db = Some d \<and>
     live_hash_unique RECEIVE_SHAPE d"
  using sample_receive_runs [of "(=)"] receive_service_sound [of "(=)"] by blast

end
