(* ===== verification/Receive_Orchestrator.thy ===== *)
theory Receive_Orchestrator
  imports Receive_Store Receive_Gates Send_Gates Chain_Clock Sweeps Lightning_Port
begin

text \<open>
  \<^verbatim>\<open>solver-corridors/src/receive/orchestrator.ts\<close>: the driver of the \<open>lightning:BTC->arkade:BTC\<close> leg,
  handler by handler, with \<^verbatim>\<open>receive/lockupPreimage.ts\<close>, the single-spend step of
  \<^verbatim>\<open>unrolledSpendStep.ts\<close> and the two methods \<^verbatim>\<open>db/receiveSwaps.ts\<close> adds to the base store. On this leg
  the solver pays first: it funds an Arkade lockup from its own balance against a hold invoice, and
  collects on Lightning with the preimage the client's claim reveals. The Lightning backend, the Arkade
  wallet and indexer, the chain tip and the coupled send store are fields of \<open>ReceiveServiceDeps\<close>;
  timing hooks and logging are left out.
\<close>

section \<open>Ports\<close>

type_synonym receive_schedule = "(receive_db, receive_act) schedule"
type_synonym 'a receive_job = "(LnReceiveSwapState, receive_col, receive_act, 'a) job"

record CoupledSendRow =
  csState :: LnSendSwapState
  csPkScript :: string
  csAmountSats :: int
  csRefundLocktime :: int
  csRefundWithoutReceiverDelay :: int
  csCreatedAt :: int

text \<open>
  \<open>rdStamp\<close> is \<open>claimPacketStamp\<close> on the row's covenant script, of which the code only asks whether there is
  one; \<open>rdHasClaimLeaf\<close> tells whether that script has the leaf a reveal needs. \<open>rdDateNow\<close> is \<open>Date.now()\<close>,
  in milliseconds. \<open>rdRefundUnrolled\<close> answers with the records it saved through its callback before it
  ended, and with how it ended.
\<close>

record ReceiveServiceDeps =
  rdSchedule :: receive_schedule
  rdDateNow :: "nat \<Rightarrow> int"
  rdHexDecode :: "string \<Rightarrow> nat list option"
  rdHexEncode :: "nat list \<Rightarrow> string"
  rdSha256Hex :: "nat list \<Rightarrow> string"
  rdAcceptUnilateralGap :: bool
  rdRecourse :: "ReceiveSwapRow \<Rightarrow> string"
  rdStamp :: "ReceiveSwapRow \<Rightarrow> exn + bool"
  rdHasClaimLeaf :: "ReceiveSwapRow \<Rightarrow> exn + bool"
  rdGetHoldState :: "nat \<Rightarrow> string \<Rightarrow> exn + HoldState"
  rdSettleHold :: "nat \<Rightarrow> exn + unit"
  rdCancelHold :: "(nat \<Rightarrow> exn + unit) option"
  rdFindLockups :: "nat \<Rightarrow> string \<Rightarrow> exn + FundedOutput list"
  rdFindLockupOutpoints :: "nat \<Rightarrow> string \<Rightarrow> exn + LockupOutpoint list"
  rdIndexer :: "nat \<Rightarrow> nat list indexer"
  rdFund :: "nat \<Rightarrow> exn + string"
  rdRefund :: "nat \<Rightarrow> exn + string"
  rdFinalizePendingRefund :: "(nat \<Rightarrow> exn + string option) option"
  rdRefundUnrolled :: "(nat \<Rightarrow> LockupOutpoint \<Rightarrow> string option \<Rightarrow> string list \<times> (exn + unrolled_step)) option"
  rdFindSpendWitness :: "(nat \<Rightarrow> string \<times> int \<Rightarrow> exn + nat list list option) option"
  rdReveal :: "(nat \<Rightarrow> ReceiveSwapRow \<Rightarrow> exn + unit) option"
  rdCoupledSendStore :: "(nat \<Rightarrow> string \<Rightarrow> exn + CoupledSendRow option) option"
  rdChainTip :: chain_tip

abbreviation ropens :: "ReceiveServiceDeps \<Rightarrow> string \<Rightarrow> string \<Rightarrow> bool" where
  "ropens dp \<equiv> preimageMatchesHash (rdHexDecode dp) (rdSha256Hex dp)"

abbreviation rstore :: "ReceiveServiceDeps \<Rightarrow> (LnReceiveSwapState, receive_col, receive_act) store" where
  "rstore dp \<equiv> \<lparr>soShape = RECEIVE_SHAPE, soExec = exec_receive (ropens dp), soAct = RSt, soSchedule = rdSchedule dp\<rparr>"

abbreviation rcall :: "ReceiveServiceDeps \<Rightarrow> (nat \<Rightarrow> exn + 'a) \<Rightarrow> 'a receive_job" where
  "rcall dp f \<equiv> ask (exec_receive (ropens dp)) (rdSchedule dp) f"

abbreviation ract :: "ReceiveServiceDeps \<Rightarrow> receive_act \<Rightarrow> (nat \<Rightarrow> exn + 'a) \<Rightarrow> 'a receive_job" where
  "ract dp a f \<equiv> perform (exec_receive (ropens dp)) (rdSchedule dp) a f"

abbreviation rclock :: "ReceiveServiceDeps \<Rightarrow> int receive_job" where
  "rclock dp \<equiv> now (rdSchedule dp)"

abbreviation rdeadlineSeconds :: "ReceiveServiceDeps \<Rightarrow> int \<Rightarrow> int receive_job" where
  "rdeadlineSeconds dp \<equiv> refundDeadlineSeconds (exec_receive (ropens dp)) (rdSchedule dp) (rdChainTip dp)"

abbreviation rdeadlineReached :: "ReceiveServiceDeps \<Rightarrow> int \<Rightarrow> bool receive_job" where
  "rdeadlineReached dp \<equiv> refundDeadlineReached (exec_receive (ropens dp)) (rdSchedule dp) (rdChainTip dp)"

definition FUND_CONFIRM_BUDGET_MS :: int where "FUND_CONFIRM_BUDGET_MS = 8000"
definition EMPTY_LOCKUP_GRACE :: int where "EMPTY_LOCKUP_GRACE = 120"
definition REFUND_CENSORSHIP_GRACE :: int where "REFUND_CENSORSHIP_GRACE = 6 * 60 * 60"

section \<open>The store's own methods\<close>

text \<open>The row and its event; the unique index refuses a hash that a live row has.\<close>

definition insertQuote :: "ReceiveServiceDeps \<Rightarrow> ReceiveQuoteRecord \<Rightarrow> ReceiveSwapRow receive_job" where
  "insertQuote dp quote =
     bnd (rclock dp) (\<lambda>tm.
     let r = receive_quote_row quote tm in
     bnd (write_db (exec_receive (ropens dp)) (rdSchedule dp) (\<lambda>d.
       if findLiveByPaymentHash RECEIVE_SHAPE (rqPaymentHash quote) d \<noteq> None then ([], Inl (UniqueConstraint ''payment_hash''), d)
       else if rqId quote \<in> rwId ` set (dbRows d) then ([], Inl (UniqueConstraint ''UNIQUE constraint failed: receive_swap.id''), d)
       else ([RSt (Insert r)], Inr (), d\<lparr>dbRows := dbRows d @ [r]\<rparr>))) (\<lambda>res.
     case res of
       Inl e \<Rightarrow> throw e
     | Inr _ \<Rightarrow>
         thn (recordEvent (rstore dp) (rqId quote) None R_quoted None)
         (bnd (getRow (rstore dp) (rqId quote)) (\<lambda>raw. ret (receive_toRow raw)))))"

definition get_receive :: "ReceiveServiceDeps \<Rightarrow> string \<Rightarrow> ReceiveSwapRow receive_job" where
  "get_receive dp i = bnd (getRow (rstore dp) i) (\<lambda>raw. ret (receive_toRow raw))"

definition note_headroom :: "ReceiveServiceDeps \<Rightarrow> string \<Rightarrow> int \<Rightarrow> int \<Rightarrow> unit receive_job" where
  "note_headroom dp i headroomSeconds spareSeconds =
     recordEvent (rstore dp) i (Some R_armed) R_armed
       (Some (''cltv headroom '' @ show_int headroomSeconds @ ''s'' @ dash @ show_int spareSeconds @ ''s spare''))"

abbreviation rmove :: "ReceiveServiceDeps \<Rightarrow> string \<Rightarrow> LnReceiveSwapState \<Rightarrow> LnReceiveSwapState \<Rightarrow> receive_col fields \<Rightarrow> bool receive_job" where
  "rmove dp \<equiv> transition (rstore dp)"

abbreviation rfail :: "ReceiveServiceDeps \<Rightarrow> string \<Rightarrow> LnReceiveSwapState \<Rightarrow> string \<Rightarrow> unit receive_job" where
  "rfail dp \<equiv> failRow (rstore dp)"

section \<open>The handler of quoted\<close>

text \<open>Best effort: whatever \<open>cancelHold\<close> throws is swallowed.\<close>

definition retireInvoice :: "ReceiveServiceDeps \<Rightarrow> string \<Rightarrow> unit receive_job" where
  "retireInvoice dp paymentHash = (case rdCancelHold dp of
     None \<Rightarrow> ret ()
   | Some cancel \<Rightarrow> catch (ract dp (CancelHold paymentHash) cancel) (\<lambda>_. ret ()))"

definition noteCltvHeadroom :: "ReceiveServiceDeps \<Rightarrow> ReceiveSwapRow \<Rightarrow> int option \<Rightarrow> unit receive_job" where
  "noteCltvHeadroom dp row htlcExpiresAt = (case htlcExpiresAt of
     None \<Rightarrow> ret ()
   | Some e \<Rightarrow>
       let spare = e - rrCreatedAt row - (MAX_REFUND_HORIZON + SETTLE_SAFETY_MARGIN) in
       catch (bnd (rclock dp) (\<lambda>tm. note_headroom dp (rrId row) (e - tm) spare)) (\<lambda>_. ret ()))"

definition findCoupled :: "ReceiveServiceDeps \<Rightarrow> string \<Rightarrow> CoupledSendRow option receive_job" where
  "findCoupled dp paymentHash = (case rdCoupledSendStore dp of
     None \<Rightarrow> ret None | Some find1 \<Rightarrow> rcall dp (\<lambda>n. find1 n paymentHash))"

definition short_lockup :: "CoupledSendRow \<Rightarrow> ReceiveSwapRow \<Rightarrow> string" where
  "short_lockup coupled row =
     ''refused to fund: coupled send lockup of '' @ show_int (csAmountSats coupled) @ '' sats cannot cover a '' @
     show_int (rrPayoutSats row) @ '' sat payout''"

definition whenCoupledQuoted :: "ReceiveServiceDeps \<Rightarrow> ReceiveSwapRow \<Rightarrow> CoupledSendRow \<Rightarrow> bool receive_job" where
  "whenCoupledQuoted dp row coupled =
     (if csAmountSats coupled < rrPayoutSats row
      then thn (rfail dp (rrId row) R_quoted (short_lockup coupled row)) (ret False)
      else if csState coupled = S_refused
      then thn (retireInvoice dp (rrPaymentHash row))
        (thn (rfail dp (rrId row) R_quoted ''coupled send was refused; the receive leg can never fund against it'')
        (ret False))
      else if csState coupled \<noteq> S_funded then ret False
      else
        bnd (rdeadlineSeconds dp (csRefundLocktime coupled)) (\<lambda>deadline.
        if \<not> refundWithoutReceiverDelayCovers (csRefundWithoutReceiverDelay coupled) deadline (csCreatedAt coupled)
        then thn (rfail dp (rrId row) R_quoted ''refused to fund: coupled send refund timing is unsafe'') (ret False)
        else
          bnd (rcall dp (\<lambda>n. rdFindLockups dp n (csPkScript coupled))) (\<lambda>outputs.
          if \<not> (\<exists>o1 \<in> set (satsOutputs outputs). foValue o1 = csAmountSats coupled) then ret False
          else thn (retireInvoice dp (rrPaymentHash row))
            (rmove dp (rrId row) R_quoted R_armed [(D_htlc_expires_at, SNull)]))))"

definition whenQuoted :: "ReceiveServiceDeps \<Rightarrow> ReceiveSwapRow \<Rightarrow> bool receive_job" where
  "whenQuoted dp row =
     bnd (rcall dp (\<lambda>n. rdGetHoldState dp n (rrPaymentHash row))) (\<lambda>state.
     if hsStatus state = H_armed then
       bnd (rmove dp (rrId row) R_quoted R_armed [(D_htlc_expires_at, opt_int (hsExpiresAt state))]) (\<lambda>armed.
       thn (only_if armed (noteCltvHeadroom dp row (hsExpiresAt state))) (ret armed))
     else
       bnd (findCoupled dp (rrPaymentHash row)) (\<lambda>coupled.
       case coupled of
         Some c \<Rightarrow> whenCoupledQuoted dp row c
       | None \<Rightarrow>
           bnd (rclock dp) (\<lambda>tm.
           thn (only_if (tm \<ge> rrInvoiceExpiresAt row)
             (thn (retireInvoice dp (rrPaymentHash row))
               (rfail dp (rrId row) R_quoted ''invoice expired before it was ever armed'')))
           (ret False))))"

section \<open>The handler of armed\<close>

fun receive_refusal_text :: "ReceiveFundingRefusal \<Rightarrow> string" where
  "receive_refusal_text Rf_invoice_expired = ''invoice_expired''"
| "receive_refusal_text Rf_htlc_not_armed = ''htlc_not_armed''"
| "receive_refusal_text Rf_settle_window_too_short = ''settle_window_too_short''"
| "receive_refusal_text Rf_refund_deadline_too_late = ''refund_deadline_too_late''"
| "receive_refusal_text Rf_unilateral_recourse_after_htlc = ''unilateral_recourse_after_htlc''"

fun send_state_text :: "LnSendSwapState \<Rightarrow> string" where
  "send_state_text S_quoted = ''quoted''"
| "send_state_text S_funded = ''funded''"
| "send_state_text S_paying = ''paying''"
| "send_state_text S_paid = ''paid''"
| "send_state_text S_claiming = ''claiming''"
| "send_state_text S_claimed = ''claimed''"
| "send_state_text S_refused = ''refused''"
| "send_state_text S_stuck = ''stuck''"

text \<open>The lease was taken and no lockup was seen: only the deadline moves the row.\<close>

definition awaitLostFunding :: "ReceiveServiceDeps \<Rightarrow> ReceiveSwapRow \<Rightarrow> bool receive_job" where
  "awaitLostFunding dp row =
     bnd (rdeadlineSeconds dp (rrRefundLocktime row)) (\<lambda>deadline.
     bnd (rclock dp) (\<lambda>tm.
     thn (only_if (tm \<ge> deadline)
       (thn (rmove dp (rrId row) R_armed R_stuck
         [(D_failure_reason, SText (''funding response lost; refund deadline reached with no lockup adopted'' @ dash @
           ''review for a stray lockup''))]) (ret ())))
     (ret False)))"

text \<open>Why the payout may not go out, for the coupled leg and for the Lightning leg.\<close>

definition coupled_refusal :: "ReceiveServiceDeps \<Rightarrow> ReceiveSwapRow \<Rightarrow> CoupledSendRow \<Rightarrow> string option receive_job" where
  "coupled_refusal dp row coupled =
     (if csState coupled \<noteq> S_funded
      then ret (Some (''refused to fund: coupled send swap is '' @ send_state_text (csState coupled) @ '', not funded''))
      else
        bnd (rdeadlineSeconds dp (csRefundLocktime coupled)) (\<lambda>deadline.
        if \<not> refundWithoutReceiverDelayCovers (csRefundWithoutReceiverDelay coupled) deadline (csCreatedAt coupled)
        then ret (Some ''refused to fund: coupled send refund timing is unsafe'')
        else if csAmountSats coupled < rrPayoutSats row then ret (Some (short_lockup coupled row))
        else bnd (rclock dp) (\<lambda>tm.
          ret (if tm \<ge> rrInvoiceExpiresAt row then Some ''refused to fund: invoice_expired'' else None))))"

definition lightning_refusal :: "ReceiveServiceDeps \<Rightarrow> ReceiveSwapRow \<Rightarrow> int option \<Rightarrow> string option receive_job" where
  "lightning_refusal dp row htlcExpiresAt =
     bnd (rdeadlineSeconds dp (rrRefundLocktime row)) (\<lambda>deadline.
     bnd (rclock dp) (\<lambda>tm.
     case evaluateReceiveFunding
       \<lparr>rfInvoiceExpiresAt = rrInvoiceExpiresAt row, rfHtlcExpiresAt = htlcExpiresAt, rfRefundLocktime = deadline,
        rfSoloDelay = rrRefundWithoutReceiverDelay row, rfAcceptUnilateralGap = rdAcceptUnilateralGap dp, rfNow = tm\<rparr> of
       Inl _ \<Rightarrow> throw (Thrown ''refundLocktime must be an absolute locktime'')
     | Inr Fund \<Rightarrow> ret None
     | Inr (DoNotFund reason) \<Rightarrow> ret (Some (''refused to fund: '' @ receive_refusal_text reason))))"

text \<open>
  The funding call itself. \<open>FundNotSubmittedError\<close> is the proof that nothing was sent: a coupled swap is
  refused and its lease cleared in one statement, a Lightning swap gives the lease back. Any other
  error leaves the lease taken. \<open>None\<close>: the coupled swap was refused.
\<close>

definition funding_act :: "ReceiveSwapRow \<Rightarrow> exn + string \<Rightarrow> receive_act" where
  "funding_act row res =
     FundReceive (rrId row) (rrPayoutSats row) (case res of Inl (FundNotSubmitted _) \<Rightarrow> False | _ \<Rightarrow> True)"

definition fundOnce :: "ReceiveServiceDeps \<Rightarrow> ReceiveSwapRow \<Rightarrow> bool \<Rightarrow> string option receive_job" where
  "fundOnce dp row isCoupled =
     catch (bnd (perform_as (exec_receive (ropens dp)) (rdSchedule dp) (funding_act row) (rdFund dp)) (\<lambda>txid. ret (Some txid)))
       (\<lambda>e. case e of
          FundNotSubmitted msg \<Rightarrow>
            if isCoupled then
              thn (retireInvoice dp (rrPaymentHash row))
              (thn (rmove dp (rrId row) R_armed R_refused
                [(D_fund_started_at, SNull), (D_failure_reason, SText (''refused to fund coupled payout: '' @ msg))])
              (ret None))
            else thn (releaseFundLease (rstore dp) (rrId row)) (throw e)
        | _ \<Rightarrow> throw e)"

definition confirmFunding :: "ReceiveServiceDeps \<Rightarrow> nat \<Rightarrow> ReceiveSwapRow \<Rightarrow> string \<Rightarrow> LockupOutpoint receive_job" where
  "confirmFunding dp fuel row fundTxid =
     (let exhausted = ''swap '' @ rrId row @ '': funded output never appeared at the indexer'';
          millis = now ((rdSchedule dp)\<lparr>scClock := rdDateNow dp\<rparr>) in
      bnd millis (\<lambda>started.
      let giveUpAt = started + FUND_CONFIRM_BUDGET_MS in
      poll
        (bnd millis (\<lambda>tm.
         if tm \<ge> giveUpAt then throw (GiveUp exhausted)
         else bnd (rcall dp (\<lambda>n. rdFindLockupOutpoints dp n (rrPkScript row))) (\<lambda>outs.
           ret (find (\<lambda>o1. opTxid o1 = fundTxid) outs))))
        (await (exec_receive (ropens dp)) (rdSchedule dp)) None exhausted fuel 0 None))"

definition outpoint_fields :: "LockupOutpoint \<Rightarrow> receive_col fields" where
  "outpoint_fields o1 =
     [(D_arkade_lockup_txid, SText (opTxid o1)), (D_arkade_lockup_vout, SInt (opVout o1)),
      (D_arkade_lockup_value, SInt (opValue o1))]"

definition fundUnderLease :: "ReceiveServiceDeps \<Rightarrow> nat \<Rightarrow> ReceiveSwapRow \<Rightarrow> bool \<Rightarrow> bool receive_job" where
  "fundUnderLease dp fuel row isCoupled =
     (case rdStamp dp row of
        Inl e \<Rightarrow> throw e
      | Inr stamp \<Rightarrow>
          bnd (fundOnce dp row isCoupled) (\<lambda>sent.
          case sent of
            None \<Rightarrow> ret False
          | Some fundTxid \<Rightarrow>
              thn (only_if stamp (bnd (rclock dp) (\<lambda>tm. patch (rstore dp) (rrId row) [(D_stamped_at, SInt tm)])))
              (bnd (confirmFunding dp fuel row fundTxid) (\<lambda>funded.
               rmove dp (rrId row) R_armed R_funded (outpoint_fields funded)))))"

definition whenArmed :: "ReceiveServiceDeps \<Rightarrow> nat \<Rightarrow> ReceiveSwapRow \<Rightarrow> bool receive_job" where
  "whenArmed dp fuel row =
     bnd (rcall dp (\<lambda>n. rdFindLockupOutpoints dp n (rrPkScript row))) (\<lambda>outs.
     case adoptFunding outs (rrPayoutSats row) of
       Some o1 \<Rightarrow> rmove dp (rrId row) R_armed R_funded (outpoint_fields o1)
     | None \<Rightarrow>
         if rrFundStartedAt row \<noteq> None then awaitLostFunding dp row
         else
           bnd (rcall dp (\<lambda>n. rdGetHoldState dp n (rrPaymentHash row))) (\<lambda>fresh.
           let htlcExpiresAt = (if hsStatus fresh = H_armed then hsExpiresAt fresh else None) in
           bnd (if htlcExpiresAt = None then findCoupled dp (rrPaymentHash row) else ret None) (\<lambda>coupled.
           bnd (case coupled of
               Some c \<Rightarrow> coupled_refusal dp row c
             | None \<Rightarrow> lightning_refusal dp row htlcExpiresAt) (\<lambda>refusal.
           case refusal of
             Some reason \<Rightarrow> thn (rfail dp (rrId row) R_armed reason) (ret False)
           | None \<Rightarrow>
               bnd (claimFundLease (rstore dp) (rrId row) R_armed None) (\<lambda>mine.
               if \<not> mine then ret False else fundUnderLease dp fuel row (coupled \<noteq> None))))))"

section \<open>Reading the preimage\<close>

text \<open>
  \<^verbatim>\<open>receive/lockupPreimage.ts\<close>: from the Arkade transactions that spend the outpoints, and for outputs
  unrolled onto L1 from the spend's witness. An unreadable output does not hide a readable one; its
  error is thrown only when none revealed the preimage.
\<close>

definition revealed_onchain :: "ReceiveServiceDeps \<Rightarrow> string \<Rightarrow> nat list list option \<Rightarrow> nat list option" where
  "revealed_onchain dp paymentHash witness = (case witness of
     None \<Rightarrow> None
   | Some items \<Rightarrow> find (\<lambda>item. length item = 32 \<and> rdSha256Hex dp item = paymentHash) items)"

fun read_unrolled ::
    "ReceiveServiceDeps \<Rightarrow> (nat \<Rightarrow> string \<times> int \<Rightarrow> exn + nat list list option) \<Rightarrow> string \<Rightarrow> LockupOutpoint list \<Rightarrow>
     exn option \<Rightarrow> nat list option receive_job" where
  "read_unrolled dp spendWitness paymentHash [] unread =
     (case unread of None \<Rightarrow> ret None | Some e \<Rightarrow> throw e)"
| "read_unrolled dp spendWitness paymentHash (o1 # outs) unread =
     bnd (catch
       (bnd (rcall dp (\<lambda>n. spendWitness n (outpoint_key o1))) (\<lambda>witness.
        ret (Inr (revealed_onchain dp paymentHash witness))))
       (\<lambda>e. ret (Inl e))) (\<lambda>res.
     case res of
       Inr (Some revealed) \<Rightarrow> ret (Some revealed)
     | Inr None \<Rightarrow> read_unrolled dp spendWitness paymentHash outs unread
     | Inl e \<Rightarrow> read_unrolled dp spendWitness paymentHash outs (coalesce unread (Some e)))"

definition find_preimage :: "ReceiveServiceDeps \<Rightarrow> ReceiveSwapRow \<Rightarrow> LockupOutpoint list \<Rightarrow> nat list option receive_job" where
  "find_preimage dp row outpoints =
     (if outpoints = [] then ret None
      else
        bnd (rcall dp (\<lambda>n.
          findClaimPreimage (rdSha256Hex dp) (rdIndexer dp n) (map outpoint_key outpoints) (rrPaymentHash row))) (\<lambda>claimed.
        case claimed of
          Some c \<Rightarrow> ret (Some c)
        | None \<Rightarrow>
            (let unrolled = filter opUnrolled outpoints in
             if unrolled = [] then ret None
             else case rdFindSpendWitness dp of
               None \<Rightarrow> ret None
             | Some spendWitness \<Rightarrow>
                 (case rdHexDecode dp (rrPkScript row) of
                    None \<Rightarrow> throw (Thrown ''invalid hex'')
                  | Some _ \<Rightarrow> read_unrolled dp spendWitness (rrPaymentHash row) unrolled None))))"

text \<open>Every outpoint the script ever held, or the recorded one while the indexer shows none.\<close>

definition searchable :: "LockupOutpoint list \<Rightarrow> string \<Rightarrow> int \<Rightarrow> LockupOutpoint list" where
  "searchable historical txid vout =
     (if historical \<noteq> [] then historical
      else [\<lparr>opTxid = txid, opVout = vout, opValue = 0, opSpent = False, opUnrolled = False\<rparr>])"

section \<open>The handler of funded\<close>

definition revealToCovclaimd :: "ReceiveServiceDeps \<Rightarrow> ReceiveSwapRow \<Rightarrow> unit receive_job" where
  "revealToCovclaimd dp row = (case rdReveal dp of
     None \<Rightarrow> ret ()
   | Some reveal \<Rightarrow>
       if rrClaimPacket row = None \<or> rrStampedAt row \<noteq> None then ret ()
       else case rdHasClaimLeaf dp row of
         Inl e \<Rightarrow> throw e
       | Inr leaf \<Rightarrow>
           if \<not> leaf then throw (Thrown (''swap '' @ rrId row @ '': covenant script has no nonInteractiveClaim leaf to reveal against''))
           else thn (rcall dp (\<lambda>n. reveal n row))
             (bnd (rclock dp) (\<lambda>tm. patch (rstore dp) (rrId row) [(D_revealed_at, SInt tm)])))"

definition refundOnceDue :: "ReceiveServiceDeps \<Rightarrow> ReceiveSwapRow \<Rightarrow> bool receive_job \<Rightarrow> bool receive_job" where
  "refundOnceDue dp row otherwise =
     bnd (rdeadlineReached dp (rrRefundLocktime row)) (\<lambda>due.
     if due then rmove dp (rrId row) R_funded R_refunding [] else otherwise)"

definition whenFunded :: "ReceiveServiceDeps \<Rightarrow> ReceiveSwapRow \<Rightarrow> bool receive_job" where
  "whenFunded dp row =
     bnd (rcall dp (\<lambda>n. rdFindLockups dp n (rrPkScript row))) (\<lambda>outputs.
     case (rrArkadeLockupTxid row, rrArkadeLockupVout row) of
       (Some txid, Some vout) \<Rightarrow>
         if \<exists>o1 \<in> set outputs. foTxid o1 = txid \<and> foVout o1 = vout
         then refundOnceDue dp row
           (thn (only_if (rrRevealedAt row = None \<and> rdReveal dp \<noteq> None \<and> rrClaimPacket row \<noteq> None)
             (revealToCovclaimd dp row)) (ret False))
         else
           bnd (rcall dp (\<lambda>n. rdFindLockupOutpoints dp n (rrPkScript row))) (\<lambda>historical.
           bnd (find_preimage dp row (searchable historical txid vout)) (\<lambda>preimage.
           case preimage of
             Some p \<Rightarrow> rmove dp (rrId row) R_funded R_claimed [(D_preimage, SText (rdHexEncode dp p))]
           | None \<Rightarrow> refundOnceDue dp row (ret False)))
     | _ \<Rightarrow> thn (rfail dp (rrId row) R_funded ''funded state with no funded outpoint recorded'') (ret False))"

section \<open>The handler of claimed\<close>

text \<open>\<open>settleHold\<close> threw: its success may be known, the window may be over, or the tick fails.\<close>

definition settleFailed :: "ReceiveServiceDeps \<Rightarrow> ReceiveSwapRow \<Rightarrow> exn \<Rightarrow> bool receive_job" where
  "settleFailed dp row e =
     bnd (if rrSettleAttemptedAt row \<noteq> None
          then catch (bnd (rcall dp (\<lambda>n. rdGetHoldState dp n (rrPaymentHash row))) (\<lambda>state.
              ret (hsStatus state = H_settled))) (\<lambda>_. ret False)
          else ret False) (\<lambda>settled.
     if settled then rmove dp (rrId row) R_claimed R_settled []
     else case rrHtlcExpiresAt row of
       None \<Rightarrow> thn (rfail dp (rrId row) R_claimed ''claimed state with no htlcExpiresAt recorded'') (ret False)
     | Some htlcExpiresAt \<Rightarrow>
         bnd (rclock dp) (\<lambda>tm.
         if tm \<ge> htlcExpiresAt
         then thn (rfail dp (rrId row) R_claimed (''settle failing past E: '' @ message e)) (ret False)
         else throw e))"

text \<open>\<open>return store.transition(...)\<close> inside the \<open>try\<close> is not awaited there, so only \<open>settleHold\<close> is tried.\<close>

definition whenClaimed :: "ReceiveServiceDeps \<Rightarrow> ReceiveSwapRow \<Rightarrow> bool receive_job" where
  "whenClaimed dp row = (case truthy (rrPreimage row) of
     None \<Rightarrow> thn (rfail dp (rrId row) R_claimed ''claimed state with no preimage'') (ret False)
   | Some preimage \<Rightarrow>
       bnd (if rrHtlcExpiresAt row = None then findCoupled dp (rrPaymentHash row) else ret None) (\<lambda>coupled.
       if coupled \<noteq> None then rmove dp (rrId row) R_claimed R_settled []
       else
         thn (only_if (rrSettleAttemptedAt row = None)
           (bnd (rclock dp) (\<lambda>tm. patch (rstore dp) (rrId row) [(D_settle_attempted_at, SInt tm)])))
         (bnd (catch (bnd (ract dp (SettleHold (rrId row) preimage) (rdSettleHold dp)) (\<lambda>_. ret None))
            (\<lambda>e. ret (Some e))) (\<lambda>failed.
          case failed of
            None \<Rightarrow> rmove dp (rrId row) R_claimed R_settled []
          | Some e \<Rightarrow> settleFailed dp row e))))"

section \<open>The handler of refunding\<close>

text \<open>\<^verbatim>\<open>unrolledSpendStep.ts\<close>, \<open>applyUnrolledSpendStep\<close>, on the edge from refunding to refunded.\<close>

definition keep_record :: "ReceiveServiceDeps \<Rightarrow> ReceiveSwapRow \<Rightarrow> string \<Rightarrow> unit receive_job" where
  "keep_record dp row record =
     only_if (Some record \<noteq> rrUnrolledRefund row) (patch (rstore dp) (rrId row) [(D_unrolled_refund, SText record)])"

definition applyUnrolledSpendStep :: "ReceiveServiceDeps \<Rightarrow> ReceiveSwapRow \<Rightarrow> unrolled_step \<Rightarrow> bool \<Rightarrow> bool receive_job" where
  "applyUnrolledSpendStep dp row step preimageStillUseful = (case step of
     U_waiting \<Rightarrow> ret False
   | U_pending record \<Rightarrow> thn (keep_record dp row record) (ret False)
   | U_confirmed record \<Rightarrow> thn (keep_record dp row record) (rmove dp (rrId row) R_refunding R_refunded [])
   | U_spent \<Rightarrow>
       if preimageStillUseful then ret False
       else thn (rfail dp (rrId row) R_refunding
         ''unrolled lockup spent on L1 by a transaction that is not ours; needs review'') (ret False)
   | U_closed reason \<Rightarrow>
       if preimageStillUseful then ret False
       else thn (rfail dp (rrId row) R_refunding
         (''L1 refund of the unrolled lockup refused: '' @ reason @ dash @ rdRecourse dp row)) (ret False))"

fun save_records :: "ReceiveServiceDeps \<Rightarrow> string \<Rightarrow> string list \<Rightarrow> unit receive_job" where
  "save_records dp i [] = ret ()"
| "save_records dp i (r # rs) = thn (patch (rstore dp) i [(D_unrolled_refund, SText r)]) (save_records dp i rs)"

definition refundUnrolledStep ::
    "ReceiveServiceDeps \<Rightarrow> ReceiveSwapRow \<Rightarrow> (nat \<Rightarrow> LockupOutpoint \<Rightarrow> string option \<Rightarrow> string list \<times> (exn + unrolled_step)) \<Rightarrow>
     LockupOutpoint \<Rightarrow> bool receive_job" where
  "refundUnrolledStep dp row refundUnrolled unrolled =
     bnd (ract dp (RefundUnrolled (rrId row)) (\<lambda>n. Inr (refundUnrolled n unrolled (rrUnrolledRefund row)))) (\<lambda>(saved, res).
     thn (save_records dp (rrId row) saved)
     (case res of
        Inl e \<Rightarrow> throw e
      | Inr step \<Rightarrow>
          bnd (case rrHtlcExpiresAt row of
              None \<Rightarrow> ret False | Some e \<Rightarrow> bnd (rclock dp) (\<lambda>tm. ret (tm < e)))
            (applyUnrolledSpendStep dp row step)))"

text \<open>The funded output is gone and no claim revealed the preimage.\<close>

definition whenLockupGone :: "ReceiveServiceDeps \<Rightarrow> ReceiveSwapRow \<Rightarrow> bool receive_job" where
  "whenLockupGone dp row =
     bnd (case rdFinalizePendingRefund dp of
         None \<Rightarrow> ret None | Some finalize \<Rightarrow> ract dp (RefundOwn (rrId row)) finalize) (\<lambda>own.
     case truthy own of
       Some txid \<Rightarrow> rmove dp (rrId row) R_refunding R_refunded [(D_refund_ark_txid, SText txid)]
     | None \<Rightarrow>
         bnd (rclock dp) (\<lambda>tm1.
         if tm1 - rrUpdatedAt row < EMPTY_LOCKUP_GRACE then ret False
         else
           bnd (case rrHtlcExpiresAt row of
               None \<Rightarrow> ret False | Some e \<Rightarrow> bnd (rclock dp) (\<lambda>tm. ret (tm < e))) (\<lambda>early.
           if early then ret False
           else thn (rfail dp (rrId row) R_refunding
             ''funded output gone during refunding with no matching claim found; needs review'') (ret False))))"

definition refundLockup :: "ReceiveServiceDeps \<Rightarrow> ReceiveSwapRow \<Rightarrow> bool receive_job" where
  "refundLockup dp row =
     bnd (catch (bnd (ract dp (RefundOwn (rrId row)) (rdRefund dp)) (\<lambda>txid. ret (Inr txid))) (\<lambda>e. ret (Inl e))) (\<lambda>res.
     case res of
       Inr txid \<Rightarrow> rmove dp (rrId row) R_refunding R_refunded [(D_refund_ark_txid, SText txid)]
     | Inl e \<Rightarrow>
         bnd (rclock dp) (\<lambda>tm.
         if tm - rrUpdatedAt row \<ge> REFUND_CENSORSHIP_GRACE
         then thn (rfail dp (rrId row) R_refunding
           (''refund failing past the refund deadline: '' @ message e @ dash @ rdRecourse dp row)) (ret False)
         else throw e))"

definition whenRefunding :: "ReceiveServiceDeps \<Rightarrow> ReceiveSwapRow \<Rightarrow> bool receive_job" where
  "whenRefunding dp row = (case (rrArkadeLockupTxid row, rrArkadeLockupVout row) of
     (Some txid, Some vout) \<Rightarrow>
       bnd (rcall dp (\<lambda>n. rdFindLockupOutpoints dp n (rrPkScript row))) (\<lambda>historical.
       bnd (find_preimage dp row (searchable historical txid vout)) (\<lambda>late.
       case late of
         Some p \<Rightarrow> rmove dp (rrId row) R_refunding R_claimed [(D_preimage, SText (rdHexEncode dp p))]
       | None \<Rightarrow>
           (case (find (\<lambda>o1. opUnrolled o1 \<and> opTxid o1 = txid \<and> opVout o1 = vout) historical, rdRefundUnrolled dp) of
              (Some unrolled, Some refundUnrolled) \<Rightarrow> refundUnrolledStep dp row refundUnrolled unrolled
            | _ \<Rightarrow>
                bnd (rcall dp (\<lambda>n. rdFindLockups dp n (rrPkScript row))) (\<lambda>outputs.
                if \<not> (\<exists>o1 \<in> set outputs. foTxid o1 = txid \<and> foVout o1 = vout) then whenLockupGone dp row
                else refundLockup dp row))))
   | _ \<Rightarrow> thn (rfail dp (rrId row) R_refunding ''refunding state with no funded outpoint recorded'') (ret False))"

section \<open>Driving a swap\<close>

definition step :: "ReceiveServiceDeps \<Rightarrow> nat \<Rightarrow> ReceiveSwapRow \<Rightarrow> bool receive_job" where
  "step dp fuel row = (case rrState row of
     R_quoted \<Rightarrow> whenQuoted dp row
   | R_armed \<Rightarrow> whenArmed dp fuel row
   | R_funded \<Rightarrow> whenFunded dp row
   | R_claimed \<Rightarrow> whenClaimed dp row
   | R_refunding \<Rightarrow> whenRefunding dp row
   | _ \<Rightarrow> ret False)"

definition tick :: "ReceiveServiceDeps \<Rightarrow> nat \<Rightarrow> bool \<Rightarrow> string \<Rightarrow> ReceiveSwapRow option receive_job" where
  "tick dp fuel = guardedTick (step dp fuel) (get_receive dp) fuel"

definition tickAll :: "ReceiveServiceDeps \<Rightarrow> nat \<Rightarrow> (string \<Rightarrow> bool) \<Rightarrow> unit receive_job" where
  "tickAll dp fuel skip =
     bnd (read_db (exec_receive (ropens dp)) (rdSchedule dp) (\<lambda>d. Inr (map rwId (findRecoverable RECEIVE_SHAPE d))))
       (sweep (tick dp fuel False) (get_receive dp) skip)"

section \<open>Operator recovery\<close>

definition refundNow :: "ReceiveServiceDeps \<Rightarrow> string \<Rightarrow> string option receive_job" where
  "refundNow dp i =
     bnd (get_receive dp i) (\<lambda>row.
     if \<not> isExposed LnReceiveMachine (rrState row) \<and> rrState row \<noteq> R_stuck
     then throw (Thrown (''swap '' @ i @ '' has nothing to refund here'' @ dash @
       ''the lockup of the solver is open only while funded/claimed/refunding or stuck'' @
       (if rrState row = R_armed then dash @ ''let the sweep escalate a lost funding to stuck first, then refund'' else [])))
     else
       bnd (rcall dp (\<lambda>n. rdFindLockups dp n (rrPkScript row))) (\<lambda>outputs.
       if outputs = [] then ret None
       else
         bnd (ract dp (RefundOwn (rrId row)) (rdRefund dp)) (\<lambda>txid.
         thn (patch (rstore dp) (rrId row) [(D_refund_ark_txid, SText txid)]) (ret (Some txid)))))"

end
