(* ===== verification/Receive_Refinement.thy ===== *)
theory Receive_Refinement
  imports Receive_Orchestrator
begin

text \<open>
  The receive orchestrator keeps to the service contract of \<open>Receive_Store\<close>: whatever the ports answer,
  whoever else works on the table and wherever the process dies, every act of a job is enabled when it
  happens and its own acts keep to the fund lease. Together with \<open>lockup_funded_once\<close> this is why the
  solver's payout leaves at most once.
\<close>

section \<open>What a handler knows of its row\<close>

definition taken_back :: "LnReceiveSwapState set" where
  "taken_back = - {R_quoted, R_armed, R_refused}"

definition collected :: "LnReceiveSwapState set" where
  "collected = {R_claimed, R_settled, R_stuck}"

definition rknows :: "(string \<Rightarrow> string \<Rightarrow> bool) \<Rightarrow> ReceiveSwapRow \<Rightarrow> receive_db \<Rightarrow> bool" where
  "rknows opens row d \<longleftrightarrow> receive_inv opens d \<and> (case row_of d (rrId row) of
     None \<Rightarrow> False
   | Some r \<Rightarrow>
       receive_hash r = rrPaymentHash row \<and> rwCols r D_payout_sats = SInt (rrPayoutSats row) \<and>
       (rrState row \<noteq> R_quoted \<longrightarrow> rwState r \<noteq> R_quoted) \<and>
       (rrState row \<in> taken_back \<longrightarrow> rwState r \<in> taken_back) \<and>
       (rrState row = R_claimed \<longrightarrow> rwState r \<in> collected \<and> receive_opened opens r \<and>
          textOf (rwCols r D_preimage) = rrPreimage row))"

lemma rknows_inv: "rknows opens row d \<Longrightarrow> receive_inv opens d"
  by (simp add: rknows_def)

lemma collected_closed: "s \<in> collected \<Longrightarrow> canTransition LnReceiveMachine s t \<Longrightarrow> t \<in> collected \<and> t \<noteq> R_claimed"
  by (cases s) (auto simp: collected_def)

lemma taken_back_closed: "s \<in> taken_back \<Longrightarrow> canTransition LnReceiveMachine s t \<Longrightarrow> t \<in> taken_back"
  by (cases s) (auto simp: taken_back_def)

lemma never_quoted: "canTransition LnReceiveMachine s t \<Longrightarrow> t \<noteq> R_quoted"
  by (cases s) auto

text \<open>One enabled action on a row, as far as knowledge is concerned.\<close>

lemma receive_row_step:
  assumes "exec_receive opens a d = Some d'" and "row_of d i = Some r" and "ids_distinct d"
  obtains r' where "row_of d' i = Some r'" "receive_hash r' = receive_hash r"
    "rwCols r' D_payout_sats = rwCols r D_payout_sats"
    "rwState r' = rwState r \<or> canTransition LnReceiveMachine (rwState r) (rwState r')"
    "rwState r' \<noteq> R_claimed \<or> rwState r' = rwState r \<Longrightarrow> rwCols r' D_preimage = rwCols r D_preimage"
proof (cases a)
  case (RSt b)
  then have b: "exec_store RECEIVE_SHAPE (receive_ok opens) b d = Some d'" using assms(1) by simp
  show thesis
  proof (cases "\<exists>s t fs tm. b = Cas i s t fs tm")
    case True
    then obtain s t fs tm where c: "b = Cas i s t fs tm" by blast
    have irrefl: "s \<noteq> t" if "canTransition LnReceiveMachine s t" for s t using that by (cases s) auto
    show thesis
      using receive_row_cas [OF b [unfolded c] assms(2,3)] that irrefl unfolding receive_hash_def by metis
  next
    case False
    then show thesis using receive_row_still [OF b assms(2)] that unfolding receive_hash_def by metis
  qed
qed (use that assms(1,2) in \<open>auto simp: receive_permitted_Some\<close>)

lemma stable_rknows [intro]: "stable (exec_receive opens) (rknows opens row)"
  unfolding stable_def
proof (intro allI impI)
  fix a d d'
  assume k: "rknows opens row d" and ids: "ids_distinct d" and e: "exec_receive opens a d = Some d'"
  then obtain r where r: "row_of d (rrId row) = Some r" by (auto simp: rknows_def split: option.splits)
  obtain r' where r': "row_of d' (rrId row) = Some r'" "receive_hash r' = receive_hash r"
    "rwCols r' D_payout_sats = rwCols r D_payout_sats"
    "rwState r' = rwState r \<or> canTransition LnReceiveMachine (rwState r) (rwState r')"
    "rwState r' \<noteq> R_claimed \<or> rwState r' = rwState r \<Longrightarrow> rwCols r' D_preimage = rwCols r D_preimage"
    using receive_row_step [OF e r ids] by metis
  have "rwState r' \<noteq> R_quoted" if "rwState r \<noteq> R_quoted" using r'(4) that never_quoted by metis
  moreover have "rwState r' \<in> taken_back" if "rwState r \<in> taken_back" using r'(4) that taken_back_closed by metis
  moreover have "rwState r' \<in> collected \<and> rwCols r' D_preimage = rwCols r D_preimage" if "rwState r \<in> collected"
    using r'(4,5) that collected_closed by metis
  moreover have "receive_opened opens r' = receive_opened opens r" if "rwCols r' D_preimage = rwCols r D_preimage"
    unfolding receive_opened_def that r'(2) ..
  ultimately show "rknows opens row d'"
    using k r r'(1-3) exec_keeps_receive_inv [OF e] unfolding rknows_def by auto
qed

lemma stable_receive_inv [intro]: "stable (exec_receive opens) (receive_inv opens)"
  unfolding stable_def by (auto intro: exec_keeps_receive_inv)

lemma rknows_read:
  assumes "receive_inv opens d" and "row_of d i = Some r"
  shows "rknows opens (receive_toRow r) d"
proof -
  have id: "rwId r = i" using row_of_Some [OF assms(2)] by simp
  have ok: "receive_row_ok opens r" using assms by (simp add: receive_inv_def)
  then obtain v where "rwCols r D_payout_sats = SInt v" by (cases "rwCols r D_payout_sats") (auto simp: receive_row_ok_def)
  then show ?thesis
    using assms ok id
    by (simp add: rknows_def receive_toRow_def Let_def receive_hash_def receive_row_ok_def collected_def)
qed

section \<open>What a worker has done\<close>

fun neutral :: "receive_act \<Rightarrow> bool" where
  "neutral (FundReceive _ _ _) = False"
| "neutral (RSt (Lease _ _ _ _ _)) = False"
| "neutral (RSt (Release _)) = False"
| "neutral (RSt (Cas _ _ _ fs _)) = (D_fund_started_at \<notin> fst ` set fs)"
| "neutral _ = True"

definition tolerant :: "(receive_act list \<Rightarrow> bool) \<Rightarrow> bool" where
  "tolerant P \<longleftrightarrow> (\<forall>as a. P as \<longrightarrow> neutral a \<longrightarrow> P (as @ [a]))"

lemma tolerantD: "tolerant P \<Longrightarrow> P as \<Longrightarrow> neutral a \<Longrightarrow> P (as @ [a])"
  by (simp add: tolerant_def)

lemma neutral_phase: "neutral a \<Longrightarrow> phase_step i a ph = Some ph"
  by (cases a rule: neutral.cases) auto

lemma disciplinedE:
  assumes "disciplined as"
  obtains ph where "phase_of i as = Some ph"
  using assms by (auto simp: disciplined_def)

lemma tolerant_disciplined [intro]: "tolerant disciplined"
  unfolding tolerant_def
proof (intro allI impI)
  fix as a
  assume "disciplined as" "neutral a"
  then have "phase_of i (as @ [a]) = phase_of i as" for i
    using disciplinedE [of as i] by (metis bind.bind_lunit neutral_phase phase_of_snoc)
  with \<open>disciplined as\<close> show "disciplined (as @ [a])" by (simp only: disciplined_def) simp
qed

definition at_phase :: "string \<Rightarrow> phase \<Rightarrow> receive_act list \<Rightarrow> bool" where
  "at_phase i ph as \<longleftrightarrow> disciplined as \<and> phase_of i as = Some ph"

lemma tolerant_at_phase [intro]: "tolerant (at_phase i ph)"
  using tolerant_disciplined by (auto simp: tolerant_def at_phase_def neutral_phase)

lemma at_phase_disciplined: "at_phase i ph as \<Longrightarrow> disciplined as"
  by (simp add: at_phase_def)

lemma phase_elsewhere:
  assumes "disciplined as" and "\<And>j ph. j \<noteq> i \<Longrightarrow> phase_step j a ph = Some ph" and "phase_of i (as @ [a]) = Some ph"
  shows "at_phase i ph (as @ [a])"
proof -
  have "phase_of j (as @ [a]) \<noteq> None" for j
  proof (cases "j = i")
    case False
    then show ?thesis using assms(2) by (cases rule: disciplinedE [OF assms(1), of j]) auto
  qed (use assms(3) in auto)
  then show ?thesis using assms(3) by (simp only: at_phase_def disciplined_def) simp
qed

lemma lease_phase:
  assumes "disciplined as"
  shows "at_phase i Held (as @ [RSt (Lease i s stale tm1 tm2)])"
  by (rule disciplinedE [OF assms, of i]) (rule phase_elsewhere [OF assms], auto)

lemma fund_phase:
  "at_phase i Held as \<Longrightarrow> at_phase i (if sub then Spent else Rejected) (as @ [FundReceive i sats sub])"
  by (rule phase_elsewhere) (auto simp: at_phase_def)

lemma release_phase: "at_phase i Rejected as \<Longrightarrow> at_phase i Idle (as @ [RSt (Release i)])"
  by (rule phase_elsewhere) (auto simp: at_phase_def)

lemma clear_phase:
  "at_phase i Rejected as \<Longrightarrow> D_fund_started_at \<in> fst ` set fs \<Longrightarrow> at_phase i Idle (as @ [RSt (Cas i s t fs tm)])"
  by (rule phase_elsewhere) (auto simp: at_phase_def)

section \<open>Base steps\<close>

text \<open>The present database is reached by enabled acts and known to satisfy \<open>K\<close>; the worker's own acts satisfy \<open>P\<close>.\<close>

definition rfollows ::
    "(string \<Rightarrow> string \<Rightarrow> bool) \<Rightarrow> receive_db \<Rightarrow> (receive_act list \<Rightarrow> bool) \<Rightarrow> (receive_db \<Rightarrow> bool) \<Rightarrow>
     (receive_db, receive_act) world \<Rightarrow> bool" where
  "rfollows opens d0 P K w \<longleftrightarrow> tracks (exec_receive opens) d0 K w \<and> did P w"

lemma rfollows_conj: "rfollows opens d0 P (\<lambda>d. K d \<and> L d) w \<longleftrightarrow> rfollows opens d0 P K w \<and> L (wDb w)"
  by (auto simp: rfollows_def tracks_conj)

lemma rfollows_interference:
  "stable (exec_receive opens) K \<Longrightarrow> interference (exec_receive opens) (rfollows opens d0 P K)"
  unfolding rfollows_def [abs_def]
  by (intro interference_conj receive_service.tracks_interference own_log.interference_axioms)

lemma rkeep_both:
  "keeps (tracks (exec_receive opens) d0 K) m \<Longrightarrow> keeps (did P) m \<Longrightarrow> keeps (rfollows opens d0 P K) m"
  unfolding rfollows_def [abs_def] by (rule spec_conj)

lemmas rkeep_now = interference.keeps_now [OF rfollows_interference]
lemmas rkeep_ask = interference.keeps_ask [OF rfollows_interference]
lemmas rkeep_read = interference.keeps_read [OF rfollows_interference]
lemmas rkeep_await = interference.keeps_await [OF rfollows_interference]
lemmas rkeep_seconds = interference.keeps_refundDeadlineSeconds [OF rfollows_interference]
lemmas rkeep_reached = interference.keeps_refundDeadlineReached [OF rfollows_interference]

abbreviation on_table :: "(string \<Rightarrow> string \<Rightarrow> bool) \<Rightarrow> receive_schedule \<Rightarrow> (LnReceiveSwapState, receive_col, receive_act) store" where
  "on_table opens sc \<equiv> \<lparr>soShape = RECEIVE_SHAPE, soExec = exec_receive opens, soAct = RSt, soSchedule = sc\<rparr>"

lemma rkeep_event:
  "stable (exec_receive opens) K \<Longrightarrow> tolerant P \<Longrightarrow>
     keeps (rfollows opens d0 P K) (recordEvent (on_table opens sc) i s t detail)"
  by (intro rkeep_both receive_service.keeps_recordEvent keeps_did_recordEvent) (auto intro: tolerantD)

lemma rkeep_patch:
  "stable (exec_receive opens) K \<Longrightarrow> tolerant P \<Longrightarrow> keeps (rfollows opens d0 P K) (patch (on_table opens sc) i fs)"
  by (intro rkeep_both receive_service.keeps_patch keeps_did_patch) (auto intro: tolerantD)

text \<open>A transition that leaves the preimage and the lease alone and does not enter \<open>claimed\<close>.\<close>

lemma rkeep_move:
  assumes "stable (exec_receive opens) K" and "tolerant P" and "t \<noteq> R_claimed"
    and fs: "D_preimage \<notin> fst ` set fs" "D_fund_started_at \<notin> fst ` set fs"
  shows "keeps (rfollows opens d0 P K) (transition (on_table opens sc) i s t fs)"
  by (intro rkeep_both receive_service.keeps_transition keeps_did_transition assms(1))
    (use assms(2,3) fs in \<open>auto intro: tolerantD\<close>)

lemma failure_column: "shFailure RECEIVE_SHAPE = D_failure_reason"
  by (simp add: RECEIVE_SHAPE_def)

lemma rkeep_fail:
  assumes "stable (exec_receive opens) K" and "tolerant P"
  shows "keeps (rfollows opens d0 P K) (failRow (on_table opens sc) i s reason)"
  by (intro rkeep_both receive_service.keeps_failRow keeps_did_failRow assms(1))
    (auto simp: failure_column set_fields_cols intro: tolerantD [OF assms(2)])

lemma rkeep_act:
  assumes "stable (exec_receive opens) K" and "tolerant P" and "neutral a"
    and "\<And>d. K d \<Longrightarrow> exec_receive opens a d = Some d"
  shows "keeps (rfollows opens d0 P K) (perform (exec_receive opens) sc a f)"
  by (intro rkeep_both receive_service.keeps_perform' keeps_did_perform assms(1,4) tolerantD [OF assms(2) _ assms(3)])

text \<open>Entering \<open>claimed\<close> with a preimage of the row's hash.\<close>

lemma rkeep_claimed:
  assumes K: "stable (exec_receive opens) K" and P: "tolerant P" and k: "\<And>d. K d \<Longrightarrow> rknows opens row d"
    and p: "opens p (rrPaymentHash row)"
  shows "keeps (rfollows opens d0 P K) (transition (on_table opens sc) (rrId row) s R_claimed [(D_preimage, SText p)])"
proof (rule rkeep_both)
  show "keeps (tracks (exec_receive opens) d0 K)
      (transition (on_table opens sc) (rrId row) s R_claimed [(D_preimage, SText p)])"
  proof (rule receive_service.keeps_transition [OF K])
    fix d r tm
    assume "K d" and r: "row_of d (rrId row) = Some r"
    then have "receive_hash r = rrPaymentHash row" using k [of d] by (simp add: rknows_def)
    then show "receive_ok opens (Cas (rrId row) s R_claimed [(D_preimage, SText p)] tm) d"
      using p r by (simp add: receive_opened_def receive_hash_def set_fields_cols)
  qed
qed (intro keeps_did_transition, auto intro: tolerantD [OF P])

lemma rkeep_get:
  assumes K: "stable (exec_receive opens) K" and "\<And>d. K d \<Longrightarrow> receive_inv opens d"
  shows "spec (rfollows opens d0 P K) (bnd (getRow (on_table opens sc) i) (\<lambda>raw. ret (receive_toRow raw)))
    (\<lambda>r w. rfollows opens d0 P K w \<and> (\<forall>row. r = Inr row \<longrightarrow> rknows opens row (wDb w) \<and> rrId row = i))"
proof -
  have "spec (tracks (exec_receive opens) d0 K) (getRow (on_table opens sc) i)
      (\<lambda>res w. tracks (exec_receive opens) d0 K w \<and>
        (\<forall>r. res = Inr r \<longrightarrow> rknows opens (receive_toRow r) (wDb w) \<and> rrId (receive_toRow r) = i))"
    by (rule receive_service.spec_getRow [OF K])
      (use assms(2) rknows_read row_of_Some in \<open>fastforce simp: receive_toRow_def Let_def\<close>)
  from spec_conj [OF this keeps_did_getRow [of P]] show ?thesis
    unfolding rfollows_def [abs_def] by (rule spec_bnd) (auto simp: spec_def ret_def)
qed

lemmas rkeep = keep rkeep_now rkeep_ask rkeep_read rkeep_await rkeep_seconds rkeep_reached rkeep_event rkeep_patch rkeep_fail

section \<open>Handlers\<close>

lemma rkeep_retire:
  "stable (exec_receive (ropens dp)) K \<Longrightarrow> tolerant P \<Longrightarrow> keeps (rfollows (ropens dp) d0 P K) (retireInvoice dp h)"
  unfolding retireInvoice_def by (intro rkeep rkeep_act) simp_all

lemma rkeep_coupled: "stable (exec_receive (ropens dp)) K \<Longrightarrow> keeps (rfollows (ropens dp) d0 P K) (findCoupled dp h)"
  unfolding findCoupled_def by (intro rkeep)

lemma rkeep_whenQuoted:
  assumes "stable (exec_receive (ropens dp)) K" and "tolerant P"
  shows "keeps (rfollows (ropens dp) d0 P K) (whenQuoted dp row)"
proof -
  have coupled: "keeps (rfollows (ropens dp) d0 P K) (whenCoupledQuoted dp row c)" for c
    unfolding whenCoupledQuoted_def by (intro rkeep rkeep_retire rkeep_move assms) simp_all
  show ?thesis unfolding whenQuoted_def noteCltvHeadroom_def note_headroom_def
    by (intro rkeep rkeep_retire rkeep_coupled rkeep_move coupled assms) simp_all
qed

text \<open>What is found opens the hash, in the hex the code stores.\<close>

definition hex_roundtrip :: "ReceiveServiceDeps \<Rightarrow> bool" where
  "hex_roundtrip dp \<longleftrightarrow> (\<forall>b. rdHexDecode dp (rdHexEncode dp b) = Some b)"

lemma yields_read_unrolled:
  "stable (exec_receive (ropens dp)) K \<Longrightarrow>
     yields (rfollows (ropens dp) d0 P K) (read_unrolled dp sw h outs unread)
       (\<lambda>r. \<forall>p. r = Some p \<longrightarrow> rdSha256Hex dp p = h)"
proof (induction outs arbitrary: unread)
  case (Cons o1 outs)
  let ?G = "\<lambda>r. \<forall>p. r = Some p \<longrightarrow> rdSha256Hex dp p = h"
  let ?I = "rfollows (ropens dp) d0 P K"
  have one: "?G (revealed_onchain dp h witness)" for witness
    by (auto simp: revealed_onchain_def split: option.splits dest!: find_SomeD)
  have "yields ?I (catch (bnd (rcall dp (\<lambda>n. sw n (outpoint_key o1))) (\<lambda>witness.
      ret (Inr (revealed_onchain dp h witness)))) (\<lambda>e. ret (Inl e)))
      (\<lambda>res. case res of Inl e \<Rightarrow> True | Inr r \<Rightarrow> ?G r)"
    by (intro yields_catch yields_bnd [OF keeps_yields [OF rkeep_ask [OF Cons.prems]]] yields_ret) (simp_all add: one)
  then show ?case unfolding read_unrolled.simps
  proof (rule yields_bnd)
    fix res :: "exn + nat list option"
    assume "case res of Inl e \<Rightarrow> True | Inr r \<Rightarrow> ?G r"
    then show "yields ?I (case res of
       Inr (Some revealed) \<Rightarrow> ret (Some revealed)
     | Inr None \<Rightarrow> read_unrolled dp sw h outs unread
     | Inl e \<Rightarrow> read_unrolled dp sw h outs (coalesce unread (Some e))) ?G"
      using Cons by (auto split: sum.splits option.splits intro: yields_ret)
  qed
qed (auto intro: yields_throw yields_ret split: option.splits)

lemma yields_find_preimage:
  assumes K: "stable (exec_receive (ropens dp)) K"
  shows "yields (rfollows (ropens dp) d0 P K) (find_preimage dp row outs)
    (\<lambda>r. \<forall>p. r = Some p \<longrightarrow> rdSha256Hex dp p = rrPaymentHash row)"
proof (cases "outs = []")
  case False
  let ?G = "\<lambda>r. \<forall>p. r = Some p \<longrightarrow> rdSha256Hex dp p = rrPaymentHash row"
  have "yields (rfollows (ropens dp) d0 P K) (rcall dp (\<lambda>n.
      findClaimPreimage (rdSha256Hex dp) (rdIndexer dp n) (map outpoint_key outs) (rrPaymentHash row))) ?G"
    by (rule interference.yields_ask [OF rfollows_interference [OF K]]) (auto dest: findClaimPreimage_sound)
  with False show ?thesis unfolding find_preimage_def Let_def
    by (auto intro!: yields_bnd [where H = ?G] yields_option yields_ret yields_throw yields_read_unrolled [OF K])
qed (simp add: find_preimage_def yields_ret)

lemma hex_opens: "hex_roundtrip dp \<Longrightarrow> rdSha256Hex dp p = h \<Longrightarrow> ropens dp (rdHexEncode dp p) h"
  by (simp add: hex_roundtrip_def preimageMatchesHash_def)

lemma rkeep_whenFunded:
  assumes K: "stable (exec_receive (ropens dp)) K" and P: "tolerant P" and hex: "hex_roundtrip dp"
    and k: "\<And>d. K d \<Longrightarrow> rknows (ropens dp) row d"
  shows "keeps (rfollows (ropens dp) d0 P K) (whenFunded dp row)"
proof -
  have due: "keeps (rfollows (ropens dp) d0 P K) (refundOnceDue dp row m)" if "keeps (rfollows (ropens dp) d0 P K) m" for m
    unfolding refundOnceDue_def by (intro rkeep rkeep_move K P that) simp_all
  have reveal: "keeps (rfollows (ropens dp) d0 P K) (revealToCovclaimd dp row)"
    unfolding revealToCovclaimd_def by (intro rkeep K P)
  show ?thesis unfolding whenFunded_def
    by (intro rkeep due reveal K P keeps_given [OF yields_find_preimage [OF K]]
        rkeep_claimed [OF K P k] hex_opens [OF hex]) auto
qed

lemma claimed_settles:
  assumes "rknows opens row d" and "rrState row = R_claimed" and "rrPreimage row = Some p"
  shows "exec_receive opens (SettleHold (rrId row) p) d = Some d"
  using assms
  by (auto simp: rknows_def receive_permitted_Some may_settle_def receive_opened_def textOf_Some collected_def
      split: option.splits)

lemma rkeep_whenClaimed:
  assumes K: "stable (exec_receive (ropens dp)) K" and P: "tolerant P" and k: "\<And>d. K d \<Longrightarrow> rknows (ropens dp) row d"
    and s: "rrState row = R_claimed"
  shows "keeps (rfollows (ropens dp) d0 P K) (whenClaimed dp row)"
proof -
  have settled: "keeps (rfollows (ropens dp) d0 P K) (settleFailed dp row e)" for e
    unfolding settleFailed_def by (intro rkeep rkeep_move K P) simp_all
  have settle: "keeps (rfollows (ropens dp) d0 P K) (ract dp (SettleHold (rrId row) p) (rdSettleHold dp))"
    if "truthy (rrPreimage row) = Some p" for p
    by (rule rkeep_act [OF K P]) (use claimed_settles [OF k s] truthy_Some [OF that] in auto)
  show ?thesis unfolding whenClaimed_def
    by (intro rkeep rkeep_move rkeep_coupled settled settle K P) simp_all
qed

lemma may_refund_own:
  assumes "rknows opens row d" and "rrState row \<in> taken_back"
  shows "exec_receive opens (RefundOwn (rrId row)) d = Some d" "exec_receive opens (RefundUnrolled (rrId row)) d = Some d"
  using assms by (auto simp: rknows_def receive_permitted_Some may_take_back_def taken_back_def split: option.splits)

lemma keeps_case_step:
  "keeps I a \<Longrightarrow> keeps I b \<Longrightarrow> (\<And>x. keeps I (c x)) \<Longrightarrow> (\<And>x. keeps I (p x)) \<Longrightarrow> (\<And>x. keeps I (q x)) \<Longrightarrow>
     keeps I (case st of U_waiting \<Rightarrow> a | U_spent \<Rightarrow> b | U_closed x \<Rightarrow> c x | U_pending x \<Rightarrow> p x | U_confirmed x \<Rightarrow> q x)"
  by (cases st) auto

lemma rkeep_whenRefunding:
  assumes K: "stable (exec_receive (ropens dp)) K" and P: "tolerant P" and hex: "hex_roundtrip dp"
    and k: "\<And>d. K d \<Longrightarrow> rknows (ropens dp) row d" and s: "rrState row = R_refunding"
  shows "keeps (rfollows (ropens dp) d0 P K) (whenRefunding dp row)"
proof -
  let ?I = "rfollows (ropens dp) d0 P K"
  have tb: "rrState row \<in> taken_back" by (simp add: s taken_back_def)
  have own: "keeps ?I (ract dp (RefundOwn (rrId row)) f)" "keeps ?I (ract dp (RefundUnrolled (rrId row)) g)" for f g
    by (rule rkeep_act [OF K P]; use may_refund_own [OF k tb] in simp)+
  have save: "keeps ?I (save_records dp i rs)" for i rs
  proof (induction rs)
    case (Cons r rs)
    then show ?case unfolding save_records.simps by (intro rkeep K P)
  qed (simp add: keeps_ret)
  have apply_step: "keeps ?I (applyUnrolledSpendStep dp row st useful)" for st useful
    unfolding applyUnrolledSpendStep_def keep_record_def by (intro rkeep keeps_case_step rkeep_move K P) simp_all
  have unrolled: "keeps ?I (refundUnrolledStep dp row f o1)" for f o1
    unfolding refundUnrolledStep_def by (intro rkeep own save apply_step K P)
  have gone: "keeps ?I (whenLockupGone dp row)"
    unfolding whenLockupGone_def by (intro rkeep rkeep_move own K P) simp_all
  have refund: "keeps ?I (refundLockup dp row)"
    unfolding refundLockup_def by (intro rkeep rkeep_move own K P) simp_all
  show ?thesis unfolding whenRefunding_def
    by (intro rkeep unrolled gone refund K P keeps_given [OF yields_find_preimage [OF K]]
        rkeep_claimed [OF K P k] hex_opens [OF hex]) auto
qed

section \<open>The handler of armed\<close>

lemma may_fund_known:
  assumes "rknows opens row d" and "rrState row = R_armed"
  shows "exec_receive opens (FundReceive (rrId row) (rrPayoutSats row) sub) d = Some d"
  using assms by (auto simp: rknows_def receive_permitted_Some may_fund_def split: option.splits)

text \<open>The funding call under the lease: only its own proof that nothing was sent leaves the lease to give back.\<close>

lemma spec_funding:
  assumes K: "stable (exec_receive (ropens dp)) K" and k: "\<And>d. K d \<Longrightarrow> rknows (ropens dp) row d"
    and s: "rrState row = R_armed"
  shows "spec (rfollows (ropens dp) d0 (at_phase (rrId row) Held) K)
    (perform_as (exec_receive (ropens dp)) (rdSchedule dp) (funding_act row) (rdFund dp))
    (\<lambda>r. rfollows (ropens dp) d0
       (case r of Inl (FundNotSubmitted _) \<Rightarrow> at_phase (rrId row) Rejected | _ \<Rightarrow> disciplined) K)"
proof (rule interference.spec_perform_as [OF rfollows_interference [OF K]])
  fix w n and r :: "exn + string"
  assume w: "rfollows (ropens dp) d0 (at_phase (rrId row) Held) K w"
  define sub where "sub = (case r of Inl (FundNotSubmitted _) \<Rightarrow> False | _ \<Rightarrow> True)"
  have "exec_receive (ropens dp) (funding_act row r) (wDb w) = Some (wDb w)"
    using w may_fund_known [OF k s] by (simp add: rfollows_def tracks_def funding_act_def)
  then have "tracks (exec_receive (ropens dp)) d0 K (w\<lparr>wLog := wLog w @ [Own (funding_act row r)], wPos := n\<rparr>)"
    using w by (simp add: rfollows_def tracks_def)
  moreover have "at_phase (rrId row) (if sub then Spent else Rejected) (own_acts (wLog w) @ [funding_act row r])"
    using w fund_phase by (simp add: rfollows_def did_def funding_act_def flip: sub_def)
  ultimately show "rfollows (ropens dp) d0
      (case r of Inl (FundNotSubmitted _) \<Rightarrow> at_phase (rrId row) Rejected | _ \<Rightarrow> disciplined) K
      (w\<lparr>wLog := wLog w @ [Own (funding_act row r)], wPos := n\<rparr>)"
    by (auto simp: rfollows_def did_def sub_def dest: at_phase_disciplined split: sum.splits exn.splits)
next
  fix w
  assume "rfollows (ropens dp) d0 (at_phase (rrId row) Held) K w"
  then show "rfollows (ropens dp) d0 (case Inl Crash of Inl (FundNotSubmitted _) \<Rightarrow> at_phase (rrId row) Rejected
      | _ \<Rightarrow> disciplined) K w"
    by (auto simp: rfollows_def did_def dest: at_phase_disciplined)
qed

lemma spec_release:
  assumes "stable (exec_receive opens) K"
  shows "spec (rfollows opens d0 (at_phase i Rejected) K) (releaseFundLease (on_table opens sc) i)
    (\<lambda>_. rfollows opens d0 disciplined K)"
  unfolding rfollows_def [abs_def]
  by (intro spec_conj receive_service.keeps_releaseFundLease spec_did_release assms)
    (auto dest: release_phase at_phase_disciplined)

lemma spec_refuse:
  assumes "stable (exec_receive opens) K" and "t \<noteq> R_claimed"
  shows "spec (rfollows opens d0 (at_phase i Rejected) K)
    (transition (on_table opens sc) i s t [(D_fund_started_at, SNull), (D_failure_reason, SText reason)])
    (\<lambda>_. rfollows opens d0 disciplined K)"
  unfolding rfollows_def [abs_def]
  by (intro spec_conj receive_service.keeps_transition spec_did_transition assms(1))
    (use assms(2) in \<open>auto simp: set_fields_cols intro: tolerantD [OF tolerant_disciplined]
      at_phase_disciplined [OF clear_phase] at_phase_disciplined\<close>)

lemma rfollows_disciplined: "rfollows opens d0 (at_phase i ph) K w \<Longrightarrow> rfollows opens d0 disciplined K w"
  by (auto simp: rfollows_def did_def dest: at_phase_disciplined)

lemma spec_refused:
  assumes K: "stable (exec_receive (ropens dp)) K"
  shows "spec (rfollows (ropens dp) d0 (at_phase i Rejected) K)
    (thn (retireInvoice dp h)
      (thn (rmove dp i R_armed R_refused [(D_fund_started_at, SNull), (D_failure_reason, SText reason)]) (ret x)))
    (\<lambda>_. rfollows (ropens dp) d0 disciplined K)"
  by (rule spec_bnd [OF rkeep_retire [OF K tolerant_at_phase] rfollows_disciplined
        spec_bnd [OF spec_refuse [OF K] _ keeps_ret]]) simp_all

lemma spec_released:
  assumes "stable (exec_receive (ropens dp)) K"
  shows "spec (rfollows (ropens dp) d0 (at_phase i Rejected) K)
    (thn (releaseFundLease (rstore dp) i) (throw e)) (\<lambda>_. rfollows (ropens dp) d0 disciplined K)"
  by (rule spec_bnd [OF spec_release [OF assms] _ keeps_throw])

lemma spec_fundOnce:
  assumes K: "stable (exec_receive (ropens dp)) K" and k: "\<And>d. K d \<Longrightarrow> rknows (ropens dp) row d"
    and s: "rrState row = R_armed"
  shows "spec (rfollows (ropens dp) d0 (at_phase (rrId row) Held) K) (fundOnce dp row isCoupled)
    (\<lambda>_. rfollows (ropens dp) d0 disciplined K)"
  unfolding fundOnce_def
proof (rule spec_catch)
  let ?R = "\<lambda>r. rfollows (ropens dp) d0
     (case r of Inl (FundNotSubmitted _) \<Rightarrow> at_phase (rrId row) Rejected | _ \<Rightarrow> disciplined) K"
  show "spec (rfollows (ropens dp) d0 (at_phase (rrId row) Held) K)
      (bnd (perform_as (exec_receive (ropens dp)) (rdSchedule dp) (funding_act row) (rdFund dp)) (\<lambda>txid. ret (Some txid)))
      (\<lambda>r. rfollows (ropens dp) d0
        (case r of Inl (FundNotSubmitted _) \<Rightarrow> at_phase (rrId row) Rejected | _ \<Rightarrow> disciplined) K)"
    by (rule spec_bnd [OF spec_funding [OF assms]]) (auto simp: spec_def ret_def split: exn.splits)
  fix e
  assume "e \<noteq> Crash"
  show "spec (rfollows (ropens dp) d0
        (case Inl e of Inl (FundNotSubmitted _) \<Rightarrow> at_phase (rrId row) Rejected | _ \<Rightarrow> disciplined) K)
      (case e of
          FundNotSubmitted msg \<Rightarrow>
            if isCoupled then
              thn (retireInvoice dp (rrPaymentHash row))
              (thn (rmove dp (rrId row) R_armed R_refused
                [(D_fund_started_at, SNull), (D_failure_reason, SText (''refused to fund coupled payout: '' @ msg))])
              (ret None))
            else thn (releaseFundLease (rstore dp) (rrId row)) (throw e)
        | _ \<Rightarrow> throw e) (\<lambda>_. rfollows (ropens dp) d0 disciplined K)"
    by (cases e) (simp_all add: keeps_throw spec_refused [OF K] spec_released [OF K])
qed auto

lemma rkeep_confirm:
  "stable (exec_receive (ropens dp)) K \<Longrightarrow> keeps (rfollows (ropens dp) d0 P K) (confirmFunding dp fuel row txid)"
  unfolding confirmFunding_def Let_def by (intro rkeep keeps_poll)

lemma spec_fundUnderLease:
  assumes K: "stable (exec_receive (ropens dp)) K" and k: "\<And>d. K d \<Longrightarrow> rknows (ropens dp) row d"
    and s: "rrState row = R_armed"
  shows "spec (rfollows (ropens dp) d0 (at_phase (rrId row) Held) K) (fundUnderLease dp fuel row isCoupled)
    (\<lambda>_. rfollows (ropens dp) d0 disciplined K)"
proof (cases "rdStamp dp row")
  case (Inl e)
  then show ?thesis by (simp add: fundUnderLease_def spec_def throw_def rfollows_disciplined)
next
  case (Inr stamp)
  have rest: "keeps (rfollows (ropens dp) d0 disciplined K) (case sent of
            None \<Rightarrow> ret False
          | Some fundTxid \<Rightarrow>
              thn (only_if stamp (bnd (rclock dp) (\<lambda>tm. patch (rstore dp) (rrId row) [(D_stamped_at, SInt tm)])))
              (bnd (confirmFunding dp fuel row fundTxid) (\<lambda>funded.
               rmove dp (rrId row) R_armed R_funded (outpoint_fields funded))))" for sent
    by (intro rkeep rkeep_confirm rkeep_move K tolerant_disciplined) (simp_all add: outpoint_fields_def)
  from Inr show ?thesis
    by (simp add: fundUnderLease_def spec_bnd [OF spec_fundOnce [OF K k s] _ rest])
qed

definition clock_nonneg :: "ReceiveServiceDeps \<Rightarrow> bool" where
  "clock_nonneg dp \<longleftrightarrow> (\<forall>n. 0 \<le> scClock (rdSchedule dp) n)"

lemma rkeep_lease:
  assumes K: "stable (exec_receive (ropens dp)) K" and k: "\<And>d. K d \<Longrightarrow> rknows (ropens dp) row d"
    and s: "rrState row = R_armed" and clock: "clock_nonneg dp"
  shows "keeps (rfollows (ropens dp) d0 disciplined K) (bnd (claimFundLease (rstore dp) (rrId row) R_armed None)
    (\<lambda>mine. if \<not> mine then ret False else fundUnderLease dp fuel row isCoupled))"
proof (rule spec_bnd)
  show "spec (rfollows (ropens dp) d0 disciplined K) (claimFundLease (rstore dp) (rrId row) R_armed None)
      (\<lambda>r. rfollows (ropens dp) d0 (if r = Inr True then at_phase (rrId row) Held else disciplined) K)"
    unfolding rfollows_def [abs_def]
    by (rule receive_service.spec_claimFundLease [OF K]) (use clock in \<open>auto simp: clock_nonneg_def lease_phase\<close>)
  fix mine
  show "spec (rfollows (ropens dp) d0 (if Inr mine = (Inr True :: exn + bool) then at_phase (rrId row) Held else disciplined) K)
      (if \<not> mine then ret False else fundUnderLease dp fuel row isCoupled) (\<lambda>_. rfollows (ropens dp) d0 disciplined K)"
    by (cases mine) (simp_all add: keeps_ret spec_fundUnderLease [OF K k s])
qed auto

lemma rkeep_whenArmed:
  assumes K: "stable (exec_receive (ropens dp)) K" and k: "\<And>d. K d \<Longrightarrow> rknows (ropens dp) row d"
    and s: "rrState row = R_armed" and clock: "clock_nonneg dp"
  shows "keeps (rfollows (ropens dp) d0 disciplined K) (whenArmed dp fuel row)"
proof -
  note P = tolerant_disciplined
  have lost: "keeps (rfollows (ropens dp) d0 disciplined K) (awaitLostFunding dp row)"
    unfolding awaitLostFunding_def by (intro rkeep rkeep_move K P) simp_all
  have coupled: "keeps (rfollows (ropens dp) d0 disciplined K) (coupled_refusal dp row c)" for c
    unfolding coupled_refusal_def by (intro rkeep K)
  have lightning: "keeps (rfollows (ropens dp) d0 disciplined K) (lightning_refusal dp row h)" for h
    unfolding lightning_refusal_def
    by (intro rkeep K) (auto split: ReceiveFundingDecision.split intro: keeps_ret)
  show ?thesis unfolding whenArmed_def
    by (intro rkeep rkeep_move rkeep_coupled lost coupled lightning rkeep_lease [OF K k s clock] K P)
      (simp_all add: outpoint_fields_def)
qed

section \<open>The service\<close>

lemma rkeep_step:
  assumes K: "stable (exec_receive (ropens dp)) K" and k: "\<And>d. K d \<Longrightarrow> rknows (ropens dp) row d"
    and hex: "hex_roundtrip dp" and clock: "clock_nonneg dp"
  shows "keeps (rfollows (ropens dp) d0 disciplined K) (step dp fuel row)"
proof -
  note P = tolerant_disciplined
  show ?thesis
    by (cases "rrState row")
      (simp_all add: step_def keeps_ret rkeep_whenQuoted [OF K P] rkeep_whenArmed [OF K k _ clock]
        rkeep_whenFunded [OF K P hex k] rkeep_whenClaimed [OF K P k] rkeep_whenRefunding [OF K P hex k])
qed

lemma receive_driver:
  assumes "hex_roundtrip dp" and "clock_nonneg dp"
  shows "driver (exec_receive (ropens dp)) (rfollows (ropens dp) d0 disciplined) (receive_inv (ropens dp))
    (rknows (ropens dp)) (get_receive dp) (step dp fuel)"
proof unfold_locales
  show "spec (rfollows (ropens dp) d0 disciplined K) (get_receive dp i)
      (\<lambda>r w. rfollows (ropens dp) d0 disciplined K w \<and> (\<forall>row. r = Inr row \<longrightarrow> rknows (ropens dp) row (wDb w)))"
    if "stable (exec_receive (ropens dp)) K" "\<And>d. K d \<Longrightarrow> receive_inv (ropens dp) d" for K i
    unfolding get_receive_def by (rule spec_weaken [OF rkeep_get [OF that]]) auto
qed (auto simp: rfollows_conj intro: rknows_inv rkeep_step assms)

lemma rkeep_refundNow:
  assumes K: "stable (exec_receive (ropens dp)) K" and inv: "\<And>d. K d \<Longrightarrow> receive_inv (ropens dp) d"
  shows "keeps (rfollows (ropens dp) d0 disciplined K) (refundNow dp i)"
  unfolding refundNow_def get_receive_def
proof (rule keeps_knowing [OF rkeep_get [OF K inv] rfollows_conj])
  fix row
  let ?J = "\<lambda>d. K d \<and> rknows (ropens dp) row d \<and> rrId row = i"
  have J: "stable (exec_receive (ropens dp)) ?J" using K stable_rknows unfolding stable_def by blast
  have own: "keeps (rfollows (ropens dp) d0 disciplined ?J) (ract dp (RefundOwn (rrId row)) (rdRefund dp))"
    if "\<not> (\<not> isExposed LnReceiveMachine (rrState row) \<and> rrState row \<noteq> R_stuck)"
  proof (rule rkeep_act [OF J tolerant_disciplined])
    have "rrState row \<in> taken_back"
      using that by (cases "rrState row") (auto simp: taken_back_def)
    then show "exec_receive (ropens dp) (RefundOwn (rrId row)) d = Some d" if "?J d" for d
      using that may_refund_own(1) by blast
  qed simp
  show "keeps (rfollows (ropens dp) d0 disciplined ?J) (if \<not> isExposed LnReceiveMachine (rrState row) \<and> rrState row \<noteq> R_stuck
     then throw (Thrown (''swap '' @ i @ '' has nothing to refund here'' @ dash @
       ''the lockup of the solver is open only while funded/claimed/refunding or stuck'' @
       (if rrState row = R_armed then dash @ ''let the sweep escalate a lost funding to stuck first, then refund'' else [])))
     else
       bnd (rcall dp (\<lambda>n. rdFindLockups dp n (rrPkScript row))) (\<lambda>outputs.
       if outputs = [] then ret None
       else
         bnd (ract dp (RefundOwn (rrId row)) (rdRefund dp)) (\<lambda>txid.
         thn (patch (rstore dp) (rrId row) [(D_refund_ark_txid, SText txid)]) (ret (Some txid)))))"
    by (intro rkeep own J tolerant_disciplined)
qed

text \<open>
  A job is lawful when, from any point of its schedule, all it and the others did is a run of enabled
  service actions that ends in the present database, and its own acts keep to the fund lease.
\<close>

definition lawful_receive :: "ReceiveServiceDeps \<Rightarrow> receive_db \<Rightarrow> 'a receive_job \<Rightarrow> bool" where
  "lawful_receive dp d0 m \<longleftrightarrow> (\<forall>pos. let w = snd (m \<lparr>wDb = d0, wPos = pos, wLog = []\<rparr>) in
     run_all (exec_receive (ropens dp)) (map act_of (wLog w)) d0 = Some (wDb w) \<and>
     receive_inv (ropens dp) (wDb w) \<and> disciplined (own_acts (wLog w)))"

lemma lawful_receive_if_keeps:
  assumes "keeps (rfollows (ropens dp) d0 disciplined (receive_inv (ropens dp))) m" and "receive_inv (ropens dp) d0"
  shows "lawful_receive dp d0 m"
  unfolding lawful_receive_def Let_def
proof (intro allI)
  fix pos
  let ?w0 = "\<lparr>wDb = d0, wPos = pos, wLog = []\<rparr>"
  have "rfollows (ropens dp) d0 disciplined (receive_inv (ropens dp)) ?w0"
    using assms(2) by (simp add: rfollows_def tracks_def receive_inv_def did_def disciplined_def)
  then have "rfollows (ropens dp) d0 disciplined (receive_inv (ropens dp)) (snd (m ?w0))"
    using assms(1) unfolding spec_def by (metis case_prod_beta)
  then show "run_all (exec_receive (ropens dp)) (map act_of (wLog (snd (m ?w0)))) d0 = Some (wDb (snd (m ?w0))) \<and>
      receive_inv (ropens dp) (wDb (snd (m ?w0))) \<and> disciplined (own_acts (wLog (snd (m ?w0))))"
    by (simp add: rfollows_def tracks_def did_def)
qed

lemma receive_jobs_lawful:
  assumes "receive_inv (ropens dp) d0" and "hex_roundtrip dp" and "clock_nonneg dp"
  shows "lawful_receive dp d0 (tick dp fuel busy i)" "lawful_receive dp d0 (tickAll dp fuel skip)"
    "lawful_receive dp d0 (refundNow dp i)"
proof -
  let ?I = "receive_inv (ropens dp)"
  note K = stable_receive_inv [of "ropens dp"]
  note driven = receive_driver [OF assms(2,3)]
  have "keeps (rfollows (ropens dp) d0 disciplined ?I) (tick dp fuel busy i)"
    unfolding tick_def by (rule driver.keeps_guardedTick [OF driven K])
  moreover have "keeps (rfollows (ropens dp) d0 disciplined ?I) (tickAll dp fuel skip)"
    unfolding tickAll_def tick_def by (intro keeps_bnd rkeep_read [OF K] driver.keeps_sweep [OF driven K])
  moreover have "keeps (rfollows (ropens dp) d0 disciplined ?I) (refundNow dp i)"
    by (rule rkeep_refundNow [OF K])
  ultimately show "lawful_receive dp d0 (tick dp fuel busy i)" "lawful_receive dp d0 (tickAll dp fuel skip)"
    "lawful_receive dp d0 (refundNow dp i)"
    using lawful_receive_if_keeps assms(1) by blast+
qed

text \<open>
  C3: the receive orchestrator refines the service contract. A tick of any swap, the recovery sweep and
  the operator's refund perform only enabled acts, under every interleaving with other workers, every
  answer or error of the ports and a crash at any await; the table invariant holds wherever the job
  stops, and the job funds a lockup only under a lease of its own that it has not used. The hex codec
  must decode what it encodes and the clock must not be before 1970.
\<close>

theorem receive_service_refines:
  assumes "receive_inv (ropens dp) d0" and "hex_roundtrip dp" and "clock_nonneg dp"
  shows "lawful_receive dp d0 (tick dp fuel busy i) \<and> lawful_receive dp d0 (tickAll dp fuel skip) \<and>
    lawful_receive dp d0 (refundNow dp i)"
  by (intro conjI receive_jobs_lawful assms)

section \<open>A service with cooperating ports\<close>

definition sample_receive_deps :: ReceiveServiceDeps where
  "sample_receive_deps =
     \<lparr>rdSchedule = \<lparr>scRival = \<lambda>_ _. [], scCrash = \<lambda>_. False, scClock = \<lambda>_. 1700000000\<rparr>, rdDateNow = int,
      rdHexDecode = unary_decode 0, rdHexEncode = unary_encode, rdSha256Hex = \<lambda>b. if b = [1] then ''ff'' else [],
      rdAcceptUnilateralGap = False, rdRecourse = \<lambda>_. [], rdStamp = \<lambda>_. Inr False, rdHasClaimLeaf = \<lambda>_. Inr False,
      rdGetHoldState = \<lambda>_ _. Inr \<lparr>hsStatus = H_armed, hsExpiresAt = Some 1700090000\<rparr>, rdSettleHold = \<lambda>_. Inr (),
      rdCancelHold = None, rdFindLockups = \<lambda>_ _. Inr [], rdFindLockupOutpoints = \<lambda>_ _. Inr [],
      rdIndexer = \<lambda>_. \<lparr>ixCoins = \<lambda>_. Inr [], ixVirtualTxs = \<lambda>_. []\<rparr>,
      rdFund = \<lambda>_. Inr ''t'', rdRefund = \<lambda>_. Inr ''r'', rdFinalizePendingRefund = None, rdRefundUnrolled = None,
      rdFindSpendWitness = None, rdReveal = None, rdCoupledSendStore = None, rdChainTip = None\<rparr>"

definition sample_receive_db :: receive_db where
  "sample_receive_db = \<lparr>dbRows = [receive_quote_row sample_receive_quote 1699999000], dbEvents = []\<rparr>"

lemma sample_receive_db_inv: "receive_inv opens sample_receive_db"
proof -
  have "run_all (exec_receive opens) [RSt (Insert (hd (dbRows sample_receive_db)))] empty_receive_db = Some sample_receive_db"
    by (simp add: sample_receive_db_def receive_eval)
  then show ?thesis using run_keeps_receive_inv empty_receive_inv by blast
qed

theorem receive_service_refines_witness:
  "lawful_receive sample_receive_deps sample_receive_db (tick sample_receive_deps 10 False ''a'') \<and>
   lawful_receive sample_receive_deps sample_receive_db (refundNow sample_receive_deps ''a'')"
proof -
  have "hex_roundtrip sample_receive_deps" "clock_nonneg sample_receive_deps"
    by (simp_all add: hex_roundtrip_def clock_nonneg_def sample_receive_deps_def unary_roundtrip)
  then show ?thesis using receive_service_refines [OF sample_receive_db_inv] by blast
qed

section \<open>Many workers\<close>

text \<open>The own acts of one run of a job, from any table in order and any point of its schedule.\<close>

definition job_acts :: "ReceiveServiceDeps \<Rightarrow> receive_act list \<Rightarrow> bool" where
  "job_acts dp as \<longleftrightarrow> (\<exists>d0 pos. receive_inv (ropens dp) d0 \<and>
     (\<exists>w. (\<exists>fuel busy i. w = snd (tick dp fuel busy i \<lparr>wDb = d0, wPos = pos, wLog = []\<rparr>)) \<and> as = own_acts (wLog w) \<or>
          (\<exists>fuel skip. w = snd (tickAll dp fuel skip \<lparr>wDb = d0, wPos = pos, wLog = []\<rparr>)) \<and> as = own_acts (wLog w) \<or>
          (\<exists>i. w = snd (refundNow dp i \<lparr>wDb = d0, wPos = pos, wLog = []\<rparr>)) \<and> as = own_acts (wLog w)))"

lemma job_acts_disciplined:
  assumes "job_acts dp as" and "hex_roundtrip dp" and "clock_nonneg dp"
  shows "disciplined as"
  using assms(1) receive_jobs_lawful [OF _ assms(2,3)]
  by (auto simp: job_acts_def lawful_receive_def Let_def)

text \<open>
  C6: the solver pays out at most once per receive swap. Any number of workers, each running ticks, sweeps
  or operator refunds as the code has them, each with its own schedule, crashes and port answers: in
  every interleaving of what they did on the shared table, at most one funding call for a swap can have
  reached the Arkade server.
\<close>

theorem receive_pays_out_once:
  assumes "run_all (exec_receive opens) (map snd trace) d0 = Some d" and "receive_inv opens d0"
    and "\<forall>w. \<exists>dp. hex_roundtrip dp \<and> clock_nonneg dp \<and> job_acts dp (acts_by w trace)"
  shows "sent_fundings i (map snd trace) \<le> 1"
proof -
  have "\<forall>w. disciplined (acts_by w trace)" using assms(3) job_acts_disciplined by blast
  from lease_inv_run [OF assms(1,2) this, of i] show ?thesis by (auto simp: lease_inv_def)
qed

text \<open>One worker's tick of an armed swap up to the funding call, as it runs; the others find nothing to refund.\<close>

definition armed_db :: receive_db where
  "armed_db = \<lparr>dbRows = [(receive_quote_row sample_receive_quote 1700000000)\<lparr>rwState := R_armed\<rparr>], dbEvents = []\<rparr>"

lemma armed_db_inv: "receive_inv opens armed_db"
proof -
  have "run_all (exec_receive opens) [RSt (Insert (receive_quote_row sample_receive_quote 1700000000)),
      RSt (Cas ''a'' R_quoted R_armed [] 1700000000)] empty_receive_db = Some armed_db"
    by (simp add: armed_db_def receive_eval)
  then show ?thesis using run_keeps_receive_inv empty_receive_inv by blast
qed

definition sample_tick_acts :: "receive_act list" where
  "sample_tick_acts = [RSt (Lease ''a'' R_armed None 1700000000 1700000000), FundReceive ''a'' 990 True]"

fun leased_and_funded :: "receive_act list \<Rightarrow> bool" where
  "leased_and_funded [RSt (Lease i s stale tm1 tm2), FundReceive j sats sub] \<longleftrightarrow>
     i = ''a'' \<and> j = ''a'' \<and> s = R_armed \<and> stale = None \<and> tm1 = 1700000000 \<and> tm2 = 1700000000 \<and> sats = 990 \<and> sub"
| "leased_and_funded _ \<longleftrightarrow> False"

lemma leased_and_funded_eq: "leased_and_funded as \<Longrightarrow> as = sample_tick_acts"
  by (cases as rule: leased_and_funded.cases) (simp_all add: sample_tick_acts_def)

lemma sample_tick_acts_run:
  "own_acts (wLog (snd (tick sample_receive_deps 1 False ''a'' \<lparr>wDb = armed_db, wPos = 0, wLog = []\<rparr>))) = sample_tick_acts"
  by (rule leased_and_funded_eq) code_simp

lemma sample_refund_acts:
  "own_acts (wLog (snd (refundNow sample_receive_deps ''a'' \<lparr>wDb = armed_db, wPos = 0, wLog = []\<rparr>))) = []"
proof -
  have "length (own_acts (wLog (snd (refundNow sample_receive_deps ''a'' \<lparr>wDb = armed_db, wPos = 0, wLog = []\<rparr>)))) = 0"
    by code_simp
  then show ?thesis by simp
qed

lemma sample_tick_runs: "\<exists>d. run_all (exec_receive opens) sample_tick_acts armed_db = Some d"
  by (simp add: sample_tick_acts_def armed_db_def receive_eval)

theorem receive_pays_out_once_witness:
  "sent_fundings ''a'' sample_tick_acts = 1 \<and> sent_fundings ''a'' (map snd (map (Pair (0::nat)) sample_tick_acts)) \<le> 1"
proof -
  let ?t = "map (Pair (0::nat)) sample_tick_acts"
  have deps: "hex_roundtrip sample_receive_deps" "clock_nonneg sample_receive_deps"
    by (simp_all add: hex_roundtrip_def clock_nonneg_def sample_receive_deps_def unary_roundtrip)
  have ids: "map snd ?t = sample_tick_acts" "acts_by 0 ?t = sample_tick_acts" "acts_by (Suc n) ?t = []" for n
    by (simp_all add: acts_by_def filter_map o_def)
  have "job_acts sample_receive_deps sample_tick_acts" "job_acts sample_receive_deps []"
    unfolding job_acts_def using armed_db_inv sample_tick_acts_run sample_refund_acts by metis+
  then have "\<forall>w. \<exists>dp. hex_roundtrip dp \<and> clock_nonneg dp \<and> job_acts dp (acts_by w ?t)"
    using deps ids(2,3) by (metis not0_implies_Suc)
  moreover obtain d where "run_all (exec_receive (=)) (map snd ?t) armed_db = Some d"
    using sample_tick_runs [of "(=)"] ids(1) by auto
  ultimately have "sent_fundings ''a'' (map snd ?t) \<le> 1"
    using receive_pays_out_once [OF _ armed_db_inv] by blast
  then show ?thesis by (simp add: sample_tick_acts_def sent_fundings_def)
qed

section \<open>A refusal against a stale snapshot\<close>

text \<open>\<open>races sc n acts\<close>: no crash, and the others do \<open>acts\<close> at the await at position \<open>n\<close> and nothing elsewhere.\<close>

definition races :: "('d, 'act) schedule \<Rightarrow> nat \<Rightarrow> 'act list \<Rightarrow> bool" where
  "races sc n acts \<longleftrightarrow> (\<forall>k. \<not> scCrash sc k) \<and> (\<forall>k d. scRival sc k d = (if k = n then acts else []))"

lemma run_rivals_all: "run_all exec as d = Some d' \<Longrightarrow> run_rivals exec as d = (as, d')"
  by (induction as arbitrary: d) (auto split: option.splits)

lemma race_awaits:
  "races sc n acts \<Longrightarrow> wPos w \<noteq> n \<Longrightarrow> await exec sc w = (Inr (), w\<lparr>wPos := Suc (wPos w)\<rparr>)"
  "races sc n acts \<Longrightarrow> wPos w = n \<Longrightarrow> run_all exec acts (wDb w) = Some d \<Longrightarrow>
     await exec sc w = (Inr (), w\<lparr>wDb := d, wLog := wLog w @ map Rival acts, wPos := Suc n\<rparr>)"
  by (simp_all add: races_def await_def run_rivals_all)

text \<open>The refusal itself looks at the state and at nothing else.\<close>

lemma armed_row_refused:
  assumes sc: "races (rdSchedule dp) n acts" and pos: "n < wPos w"
    and d: "ids_distinct (wDb w)" and r: "row_of (wDb w) i = Some r" "rwState r = R_armed"
  shows "\<exists>w' own. rfail dp i R_armed reason w = (Inr (), w') \<and> ids_distinct (wDb w') \<and>
    map_option rwState (row_of (wDb w') i) = Some R_refused \<and> wLog w' = wLog w @ map Own own \<and> sent_fundings i own = 0"
proof -
  define tm where "tm = scClock (rdSchedule dp) (wPos w)"
  let ?fs = "[(D_failure_reason, SText reason)]"
  obtain c d' where c: "cas i R_armed R_refused ?fs (\<lambda>_. True) tm (wDb w) = (c, d')" by fastforce
  have "fst (cas i R_armed R_refused ?fs (\<lambda>_. True) tm (wDb w)) = 1"
    using update_rows_one [of "\<lambda>r. rwId r = i \<and> rwState r = R_armed \<and> True"] update_by_id_count [OF d]
      row_of_Some [OF r(1)] r(2) unfolding cas_def by (metis (mono_tags, lifting) le_Suc_eq le_zero_eq One_nat_def)
  then have one: "c = 1" using c by simp
  have d': "d' = snd (cas i R_armed R_refused ?fs (\<lambda>_. True) tm (wDb w))" using c by simp
  have ids: "ids_distinct d'" using d unfolding d' cas_def ids_distinct_def by (simp add: update_rows_ids set_fields_def)
  have state: "map_option rwState (row_of d' i) = Some R_refused"
    using r row_of_Some [OF r(1)] unfolding d' cas_def by (simp add: update_rows_row_of set_fields_def)
  have edge: "R_refused \<in> set (mEdges LnReceiveMachine R_armed)" "R_armed \<notin> set (mExposed LnReceiveMachine)"
    using lnReceive_can [of R_armed R_refused] lnReceive_exposed [of R_armed] by (simp_all add: canTransition_def isExposed_def)
  show ?thesis
    unfolding failRow_def transition_def transitionWhere_def
    using c one ids state edge pos
    by (simp add: RECEIVE_SHAPE_def RECEIVE_TRANSITION_COLUMNS_def assertColumns_def bnd_def ret_def now_def logged_write_def
        write_db_def recordEvent_def race_awaits(1) [OF sc] tm_def [symmetric] add_event_def Let_def ids_distinct_def row_of_def
        sent_fundings_def)
      (rule exI [where x = "[RSt (Cas i R_armed R_refused ?fs tm), RSt (Note \<lparr>evSwap = i,
        evAt = scClock (rdSchedule dp) (Suc (Suc (wPos w))), evFrom = Some R_armed, evTo = R_refused, evDetail = None\<rparr>)]"], simp)
qed

text \<open>A refused row stays refused, and no action the service allows takes its lockup back.\<close>

lemma refused_for_good:
  assumes "run_all (exec_receive opens) as d = Some d'" and "ids_distinct d" and "map_option rwState (row_of d i) = Some R_refused"
  shows "map_option rwState (row_of d' i) = Some R_refused \<and> RefundOwn i \<notin> set as \<and> RefundUnrolled i \<notin> set as"
  using assms
proof (induction as arbitrary: d)
  case (Cons a as)
  obtain d1 where d1: "exec_receive opens a d = Some d1" "run_all (exec_receive opens) as d1 = Some d'"
    using Cons.prems(1) by (auto split: option.splits)
  obtain r where r: "row_of d i = Some r" "rwState r = R_refused" using Cons.prems(3) by auto
  obtain r1 where "row_of d1 i = Some r1" "rwState r1 = rwState r \<or> canTransition LnReceiveMachine (rwState r) (rwState r1)"
    using receive_row_step [OF d1(1) r(1) Cons.prems(2)] by metis
  then have "map_option rwState (row_of d1 i) = Some R_refused" using r(2) by simp
  moreover have "a \<noteq> RefundOwn i" "a \<noteq> RefundUnrolled i"
    using d1(1) r by (auto simp: receive_permitted_Some may_take_back_def)
  moreover have "ids_distinct d1" by (rule receive_store.exec_ids [OF d1(1) Cons.prems(2)])
  ultimately show ?case using Cons.IH [OF d1(2)] by simp
qed simp

lemma rivals_run: "run_rivals exec as d = (acts, d') \<Longrightarrow> run_all exec acts d = Some d'"
  by (induction as arbitrary: d acts) (auto simp: Let_def split: option.splits prod.splits)

lemma refused_not_refunded:
  assumes "ids_distinct (wDb w)" and "map_option rwState (row_of (wDb w) i) = Some R_refused"
  shows "\<exists>e. fst (refundNow dp i w) = Inl e"
proof (cases "scCrash (rdSchedule dp) (wPos w)")
  case False
  obtain acts d where run: "run_rivals (exec_receive (ropens dp)) (scRival (rdSchedule dp) (wPos w) (wDb w)) (wDb w) = (acts, d)"
    by fastforce
  then obtain r where "row_of d i = Some r" "rwState r = R_refused"
    using refused_for_good [OF rivals_run [OF run] assms] by auto
  then show ?thesis using run False
    by (simp add: refundNow_def get_receive_def getRow_def read_db_def bnd_def await_def ret_def throw_def receive_toRow_def Let_def)
qed (simp add: refundNow_def get_receive_def getRow_def read_db_def bnd_def await_def)

text \<open>
  C38: the refusal of an armed swap does not look at the lease. A worker reads an armed row on which no
  funding has begun, finds no output to adopt, and the invoice has expired by its clock (the refund
  locktime is in seconds). While it awaits the state of the hold invoice, another worker acts (any enabled
  actions that send the payout and leave the row \<open>armed\<close>: for instance the tick of a worker whose clock is
  behind, until its funding confirms). The hold invoice is answered as armed with an expiry, or is in any
  state where no coupled send store is configured. Then the first worker moves the row to \<open>refused\<close>
  although the payout was sent; and from then on the row stays refused and no action the service allows
  takes the payout back, and every operator's refund throws.
\<close>

theorem stale_refusal_strands_payout:
  assumes row: "row_of d0 i = Some r" "rwState r = R_armed" "rwCols r D_fund_started_at = SNull" and ids: "ids_distinct d0"
    and unit: "absoluteLocktimeUnit (rrRefundLocktime (receive_toRow r)) = Seconds"
    and others: "run_all (exec_receive (ropens dp)) acts d0 = Some d1" "map_option rwState (row_of d1 i) = Some R_armed"
      "0 < sent_fundings i acts"
    and race: "races (rdSchedule dp) (pos + 2) acts"
    and expired: "\<And>n. rrInvoiceExpiresAt (receive_toRow r) \<le> scClock (rdSchedule dp) n"
    and unseen: "rdFindLockupOutpoints dp (pos + 1) (rrPkScript (receive_toRow r)) = Inr outs"
      "adoptFunding outs (rrPayoutSats (receive_toRow r)) = None"
    and hold: "rdGetHoldState dp (pos + 3) (rrPaymentHash (receive_toRow r)) = Inr fresh"
    and lightning: "hsStatus fresh = H_armed \<and> hsExpiresAt fresh \<noteq> None \<or> rdCoupledSendStore dp = None"
  shows "case whenArmed dp fuel (receive_toRow r) \<lparr>wDb = d0, wPos = pos, wLog = []\<rparr> of (res, w) \<Rightarrow>
    res = Inr False \<and> sent_fundings i (map act_of (wLog w)) = sent_fundings i acts \<and>
    map_option rwState (row_of (wDb w) i) = Some R_refused \<and>
    (\<forall>as d. run_all (exec_receive (ropens dp)) as (wDb w) = Some d \<longrightarrow>
       map_option rwState (row_of d i) = Some R_refused \<and> RefundOwn i \<notin> set as \<and> RefundUnrolled i \<notin> set as) \<and>
    (\<forall>operator. \<exists>e. fst (refundNow operator i w) = Inl e)"
proof -
  let ?row = "receive_toRow r"
  have at: "races (rdSchedule dp) (Suc (Suc pos)) acts"
    "rdFindLockupOutpoints dp (Suc pos) (rrPkScript ?row) = Inr outs"
    "rdGetHoldState dp (Suc (Suc (Suc pos))) (rrPaymentHash ?row) = Inr fresh"
    using race unseen(1) hold by (simp_all add: numeral_eq_Suc)
  have id: "rrId ?row = i" "rrFundStartedAt ?row = None"
    using row_of_Some [OF row(1)] row(3) by (simp_all add: receive_toRow_def Let_def)
  obtain r1 where r1: "row_of d1 i = Some r1" "rwState r1 = R_armed" using others(2) by auto
  let ?w = "\<lparr>wDb = d1, wPos = Suc (Suc (Suc (Suc (Suc (Suc pos))))), wLog = map Rival acts\<rparr>"
  have refusal: "lightning_refusal dp ?row E \<lparr>wDb = d1, wPos = Suc (Suc (Suc (Suc pos))), wLog = map Rival acts\<rparr> =
      (Inr (Some ''refused to fund: invoice_expired''), ?w)" for E
    using expired unit by (simp add: lightning_refusal_def refundDeadlineSeconds_def bnd_def now_def ret_def evaluateReceiveFunding_def)
  obtain w' own where failed: "rfail dp i R_armed ''refused to fund: invoice_expired'' ?w = (Inr (), w')" "ids_distinct (wDb w')"
      "map_option rwState (row_of (wDb w') i) = Some R_refused" "wLog w' = map Rival acts @ map Own own" "sent_fundings i own = 0"
    using armed_row_refused [OF at(1), of ?w i r1 "''refused to fund: invoice_expired''"] r1 receive_store.run_ids [OF others(1) ids]
    by auto
  have "whenArmed dp fuel ?row \<lparr>wDb = d0, wPos = pos, wLog = []\<rparr> = (Inr False, w')"
    using lightning
    by (auto simp: whenArmed_def ask_def bnd_def race_awaits [OF at(1)] at(2,3) unseen(2) id others(1) Let_def findCoupled_def ret_def
        refusal failed(1))
  moreover have "sent_fundings i (map act_of (wLog w')) = sent_fundings i acts"
    using failed(4,5) by (simp add: sent_fundings_def o_def)
  moreover have "\<exists>e. fst (refundNow operator i w') = Inl e" for operator by (rule refused_not_refunded [OF failed(2,3)])
  ultimately show ?thesis using failed(3) refused_for_good [OF _ failed(2,3)] by auto
qed

text \<open>The other worker is one tick of the code, run up to its funding call while its clock says the invoice is still valid.\<close>

definition stale_deps :: ReceiveServiceDeps where
  "stale_deps = sample_receive_deps\<lparr>rdSchedule :=
     \<lparr>scRival = \<lambda>n _. if n = 2 then sample_tick_acts else [], scCrash = \<lambda>_. False, scClock = \<lambda>_. 1700003600\<rparr>\<rparr>"

theorem stale_refusal_strands_payout_witness:
  "own_acts (wLog (snd (tick sample_receive_deps 1 False ''a'' \<lparr>wDb = armed_db, wPos = 0, wLog = []\<rparr>))) = sample_tick_acts \<and>
   (case whenArmed stale_deps 3 (receive_toRow (hd (dbRows armed_db))) \<lparr>wDb = armed_db, wPos = 0, wLog = []\<rparr> of (res, w) \<Rightarrow>
      sent_fundings ''a'' (map act_of (wLog w)) = 1 \<and> map_option rwState (row_of (wDb w) ''a'') = Some R_refused)"
proof -
  let ?r = "hd (dbRows armed_db)"
  have row: "row_of armed_db ''a'' = Some ?r" "rwState ?r = R_armed" "rwCols ?r D_fund_started_at = SNull" "ids_distinct armed_db"
    "absoluteLocktimeUnit (rrRefundLocktime (receive_toRow ?r)) = Seconds" "rrInvoiceExpiresAt (receive_toRow ?r) \<le> 1700003600"
    by (simp add: armed_db_def row_of_def receive_quote_row_def sample_receive_quote_def) code_simp+
  obtain d1 where d1: "run_all (exec_receive (ropens stale_deps)) sample_tick_acts armed_db = Some d1" using sample_tick_runs by blast
  have armed: "map_option rwState (row_of d1 ''a'') = Some R_armed"
    using d1 by (auto simp: sample_tick_acts_def armed_db_def receive_eval)
  have sent: "sent_fundings ''a'' sample_tick_acts = 1" by (simp add: sample_tick_acts_def sent_fundings_def)
  have race: "races (rdSchedule stale_deps) (0 + 2) sample_tick_acts" by (simp add: races_def stale_deps_def)
  have ports: "rrInvoiceExpiresAt (receive_toRow ?r) \<le> scClock (rdSchedule stale_deps) n"
    "rdFindLockupOutpoints stale_deps (0 + 1) (rrPkScript (receive_toRow ?r)) = Inr []"
    "adoptFunding [] (rrPayoutSats (receive_toRow ?r)) = None"
    "rdGetHoldState stale_deps (0 + 3) (rrPaymentHash (receive_toRow ?r)) = Inr \<lparr>hsStatus = H_armed, hsExpiresAt = Some 1700090000\<rparr>"
    for n using row(6) by (simp_all add: stale_deps_def sample_receive_deps_def adoptFunding_def)
  have "case whenArmed stale_deps 3 (receive_toRow ?r) \<lparr>wDb = armed_db, wPos = 0, wLog = []\<rparr> of (res, w) \<Rightarrow>
      sent_fundings ''a'' (map act_of (wLog w)) = 1 \<and> map_option rwState (row_of (wDb w) ''a'') = Some R_refused"
    using stale_refusal_strands_payout [OF row(1-5) d1 armed _ race ports, of 3] sent by (auto split: prod.splits)
  then show ?thesis using sample_tick_acts_run by blast
qed

section \<open>The confirmation ends\<close>

lemma await_alive:
  "\<not> scCrash sc (wPos w) \<Longrightarrow> \<exists>w'. await exec sc w = (Inr (), w') \<and> wPos w' = Suc (wPos w)"
  by (auto simp: await_def split: prod.splits)

lemma bnd_now: "bnd (now sc) f w = f (scClock sc (wPos w)) (w\<lparr>wPos := Suc (wPos w)\<rparr>)"
  by (simp add: bnd_def now_def)

lemma ask_alive:
  assumes "\<not> scCrash sc (wPos w)"
  shows "\<exists>w'. ask exec sc f w = (f (Suc (wPos w)), w') \<and> wPos w < wPos w'"
  using await_alive [OF assms, of exec] by (auto simp: ask_def bnd_def)

text \<open>
  C37: waiting for the funded output to appear at the indexer always ends. Whatever the indexer answers
  and however often it fails, when the process lives and \<open>Date.now()\<close> passes every bound, enough rounds
  of the poll bring it to a result or to its own give-up.
\<close>

theorem confirmation_ends:
  assumes alive: "\<forall>n. \<not> scCrash (rdSchedule dp) n" and clock: "\<forall>b. \<exists>N. \<forall>n \<ge> N. b \<le> rdDateNow dp n"
    and port: "\<forall>n s. rdFindLockupOutpoints dp n s \<noteq> Inl Crash"
  shows "\<exists>F. \<forall>fuel \<ge> F. fst (confirmFunding dp fuel row txid w) \<noteq> Inl Crash"
proof -
  define sc where "sc = (rdSchedule dp)\<lparr>scClock := rdDateNow dp\<rparr>"
  define giveUpAt where "giveUpAt = scClock sc (wPos w) + FUND_CONFIRM_BUDGET_MS"
  define exhausted where "exhausted = ''swap '' @ rrId row @ '': funded output never appeared at the indexer''"
  define probe where "probe = bnd (now sc) (\<lambda>tm. if tm \<ge> giveUpAt then throw (GiveUp exhausted)
    else bnd (rcall dp (\<lambda>n. rdFindLockupOutpoints dp n (rrPkScript row))) (\<lambda>outs. ret (find (\<lambda>o1. opTxid o1 = txid) outs)))"
  obtain N where N: "\<And>n. N \<le> n \<Longrightarrow> giveUpAt \<le> rdDateNow dp n" using clock by blast
  have moves: "wPos v < wPos v' \<and> r \<noteq> Inl Crash" if "probe v = (r, v')" for v r v'
  proof (cases "rdDateNow dp (wPos v) \<ge> giveUpAt")
    case False
    let ?v = "v\<lparr>wPos := Suc (wPos v)\<rparr>"
    obtain v1 where "rcall dp (\<lambda>n. rdFindLockupOutpoints dp n (rrPkScript row)) ?v =
        (rdFindLockupOutpoints dp (Suc (Suc (wPos v))) (rrPkScript row), v1)" "Suc (wPos v) < wPos v1"
      using ask_alive [of "rdSchedule dp" ?v "exec_receive (ropens dp)"
          "\<lambda>n. rdFindLockupOutpoints dp n (rrPkScript row)"] alive by auto
    with that port False show ?thesis
      by (auto simp: probe_def sc_def bnd_def now_def ret_def split: sum.splits)
  qed (use that in \<open>auto simp: probe_def sc_def bnd_def now_def throw_def\<close>)
  have gives_up: "\<exists>m. fst (probe v) = Inl (GiveUp m)" if "N \<le> wPos v" for v
    using N [OF that] by (simp add: probe_def sc_def bnd_def now_def throw_def)
  have sleeps: "r = Inr () \<and> wPos v \<le> wPos v'" if "await (exec_receive (ropens dp)) (rdSchedule dp) v = (r, v')" for v r v'
    using await_alive [of "rdSchedule dp" v "exec_receive (ropens dp)"] alive that by auto
  have "fst (confirmFunding dp fuel row txid w) \<noteq> Inl Crash" if "Suc N \<le> fuel" for fuel
  proof -
    have "confirmFunding dp fuel row txid w =
        poll probe (await (exec_receive (ropens dp)) (rdSchedule dp)) None exhausted fuel 0 None (w\<lparr>wPos := Suc (wPos w)\<rparr>)"
      unfolding confirmFunding_def Let_def probe_def sc_def giveUpAt_def exhausted_def
      by (simp only: bnd_now)
    moreover have "fst (poll probe (await (exec_receive (ropens dp)) (rdSchedule dp)) None exhausted fuel 0 None
        (w\<lparr>wPos := Suc (wPos w)\<rparr>)) \<noteq> Inl Crash"
      by (rule poll_ends [OF moves gives_up sleeps]) (use that in auto)
    ultimately show ?thesis by (simp only: not_False_eq_True)
  qed
  then show ?thesis by blast
qed

theorem confirmation_ends_witness:
  "\<exists>F. \<forall>fuel \<ge> F. fst (confirmFunding sample_receive_deps fuel (receive_toRow (hd (dbRows armed_db))) ''t''
     \<lparr>wDb = armed_db, wPos = 0, wLog = []\<rparr>) \<noteq> Inl Crash"
proof (rule confirmation_ends)
  have "b \<le> int n" if "nat b \<le> n" for b n using that by linarith
  then show "\<forall>b. \<exists>N. \<forall>n \<ge> N. b \<le> rdDateNow sample_receive_deps n"
    unfolding sample_receive_deps_def by simp blast
qed (simp_all add: sample_receive_deps_def)

end
