(* ===== verification/Onchain_Gates.thy ===== *)
theory Onchain_Gates
  imports Send_Gates
begin

text \<open>
  \<^verbatim>\<open>solver-core/src/core/onchainSend.ts\<close>: the gates of the \<open>arkade:BTC->onchain:BTC\<close> leg. The solver
  funds an L1 HTLC against the client's Arkade lockup; the client claims it, revealing the preimage
  with which the solver claims the lockup before \<open>refundLocktime\<close>.
\<close>

section \<open>Policy constants\<close>

definition DEFAULT_ONCHAIN_LOCKUP_TIMEOUT :: int where [policy]:
  "DEFAULT_ONCHAIN_LOCKUP_TIMEOUT = 15 * MINUTE"
definition DEFAULT_MIN_CONFIRMATIONS :: int where [policy]: "DEFAULT_MIN_CONFIRMATIONS = 1"
definition ONCHAIN_SECONDS_PER_BLOCK :: int where [policy]: "ONCHAIN_SECONDS_PER_BLOCK = 600"
definition ONCHAIN_CLAIM_MARGIN_SECONDS :: int where [policy]:
  "ONCHAIN_CLAIM_MARGIN_SECONDS = 90 * MINUTE"
definition ONCHAIN_ORDER_MARGIN_SECONDS :: int where [policy]:
  "ONCHAIN_ORDER_MARGIN_SECONDS = 2 * HOUR"
definition MAX_MIN_CONFIRMATIONS :: int where [policy]: "MAX_MIN_CONFIRMATIONS = 6"
definition MIN_MIN_CONFIRMATIONS :: int where [policy]: "MIN_MIN_CONFIRMATIONS = 1"
definition HTLC_REFUND_MTP_MARGIN :: int where [policy]: "HTLC_REFUND_MTP_MARGIN = 90 * MINUTE"
definition ARKADE_CLAIM_WINDOW_SECONDS :: int where [policy]:
  "ARKADE_CLAIM_WINDOW_SECONDS = 90 * MINUTE"
definition MIN_ONCHAIN_FUND_WINDOW :: int where [policy]: "MIN_ONCHAIN_FUND_WINDOW = 90 * MINUTE"

section \<open>Confirmation depth\<close>

text \<open>\<open>Math.trunc\<close>\<close>

definition js_trunc :: "rat \<Rightarrow> int" where
  "js_trunc q = (if 0 \<le> q then \<lfloor>q\<rfloor> else \<lceil>q\<rceil>)"

fun clampMinConfirmations :: "jsnum option \<Rightarrow> int" where
  "clampMinConfirmations (Some (Fin requested)) =
     max MIN_MIN_CONFIRMATIONS (min (js_trunc requested) MAX_MIN_CONFIRMATIONS)"
| "clampMinConfirmations _ = DEFAULT_MIN_CONFIRMATIONS"

section \<open>Deadlines\<close>

definition htlcLocktimeFor :: "int \<Rightarrow> int \<Rightarrow> int" where [gate]:
  "htlcLocktimeFor minConfirmations now =
     now + minConfirmations * ONCHAIN_SECONDS_PER_BLOCK + 2 * ONCHAIN_CLAIM_MARGIN_SECONDS"

definition latestClaimArrival :: "int \<Rightarrow> int" where [gate]:
  "latestClaimArrival htlcLocktime = htlcLocktime + HTLC_REFUND_MTP_MARGIN"

definition arkadeClaimDeadline :: "int \<Rightarrow> int" where [gate]:
  "arkadeClaimDeadline htlcLocktime = latestClaimArrival htlcLocktime + ARKADE_CLAIM_WINDOW_SECONDS"

definition onchainRefundLocktimeFor :: "int \<Rightarrow> int \<Rightarrow> int \<Rightarrow> int" where [gate]:
  "onchainRefundLocktimeFor htlcLocktime claimDelay now =
     (let chainBound = htlcLocktime + 2 * ONCHAIN_ORDER_MARGIN_SECONDS;
          serverIndependentBound = now + rawDelaySeconds claimDelay + ONCHAIN_ORDER_MARGIN_SECONDS
      in max (max chainBound serverIndependentBound) (arkadeClaimDeadline htlcLocktime))"

definition onchainRefundConfirmDeadline :: "int \<Rightarrow> int" where [gate]:
  "onchainRefundConfirmDeadline refundLocktime = refundLocktime - ARKADE_CLAIM_WINDOW_SECONDS"

text \<open>Each output is its \<open>expiresAt\<close>, when it has one.\<close>

definition early_expiries :: "int option list \<Rightarrow> int \<Rightarrow> int list" where
  "early_expiries outputs deadline =
     List.map_filter (\<lambda>e. case e of Some x \<Rightarrow> if x < deadline then Some x else None | None \<Rightarrow> None) outputs"

definition expiryBeforeClaimDeadline :: "int option list \<Rightarrow> int \<Rightarrow> int option" where
  "expiryBeforeClaimDeadline outputs htlcLocktime =
     (case early_expiries outputs (arkadeClaimDeadline htlcLocktime) of
        [] \<Rightarrow> None | e # es \<Rightarrow> Some (foldl min e es))"

definition arkadeClaimTimeLeft :: "int \<Rightarrow> int \<Rightarrow> int" where [gate]:
  "arkadeClaimTimeLeft refundLocktime now = refundLocktime - now"

section \<open>Whether to quote\<close>

datatype OnchainSendAcceptanceRefusal = Oa_amount_out_of_range

record OnchainSendAcceptance =
  oaRefundLocktime :: int
  oaHtlcLocktime :: int
  oaMinConfirmations :: int
  oaLockupDeadline :: int

definition evaluateOnchainSendAcceptance ::
    "int \<Rightarrow> Limits \<Rightarrow> int \<Rightarrow> int \<Rightarrow> jsnum option
     \<Rightarrow> OnchainSendAcceptanceRefusal + OnchainSendAcceptance" where
  "evaluateOnchainSendAcceptance amountSats limits claimDelay now requested =
     and_then (refuse_if (amountSats < minSats limits \<or> amountSats > maxSats limits)
       Oa_amount_out_of_range) (\<lambda>_.
     let minConfirmations = clampMinConfirmations requested;
         htlcLocktime = htlcLocktimeFor minConfirmations now in
     Inr \<lparr>oaRefundLocktime = onchainRefundLocktimeFor htlcLocktime claimDelay now,
          oaHtlcLocktime = htlcLocktime,
          oaMinConfirmations = minConfirmations,
          oaLockupDeadline = now + DEFAULT_ONCHAIN_LOCKUP_TIMEOUT\<rparr>)"

section \<open>Whether to fund the HTLC\<close>

datatype OnchainSendFundingRefusal = Of_refund_window_closing | Of_inside_claim_window int

definition evaluateOnchainSendFunding ::
    "int \<Rightarrow> int \<Rightarrow> int \<Rightarrow> int \<Rightarrow> OnchainSendFundingRefusal + unit" where
  "evaluateOnchainSendFunding refundLocktime htlcLocktime minConfirmations now =
     and_then (refuse_if (now \<ge> refundLocktime - MIN_ONCHAIN_FUND_WINDOW) Of_refund_window_closing) (\<lambda>_.
     let claimWindow = minConfirmations * ONCHAIN_SECONDS_PER_BLOCK + ONCHAIN_CLAIM_MARGIN_SECONDS in
     refuse_if (htlcLocktime - now \<le> claimWindow) (Of_inside_claim_window (htlcLocktime - now)))"

section \<open>Facts\<close>

lemma evaluateOnchainSendFunding_ok_iff:
  "evaluateOnchainSendFunding R H c now = Inr u \<longleftrightarrow>
     now + MIN_ONCHAIN_FUND_WINDOW < R \<and>
     now + c * ONCHAIN_SECONDS_PER_BLOCK + ONCHAIN_CLAIM_MARGIN_SECONDS < H"
  by (auto simp: evaluateOnchainSendFunding_def result Let_def)

lemma clampMinConfirmations_range: "1 \<le> clampMinConfirmations r \<and> clampMinConfirmations r \<le> 6"
  by (cases r rule: clampMinConfirmations.cases) (simp_all add: policy)

lemma early_expiries_set:
  "set (early_expiries outputs d) = {x. Some x \<in> set outputs \<and> x < d}"
  by (induction outputs) (auto simp: early_expiries_def List.map_filter_simps split: option.splits)

lemma onchainRefundLocktimeFor_ge:
  "H + 2 * ONCHAIN_ORDER_MARGIN_SECONDS \<le> onchainRefundLocktimeFor H d now"
  "now + rawDelaySeconds d + ONCHAIN_ORDER_MARGIN_SECONDS \<le> onchainRefundLocktimeFor H d now"
  "arkadeClaimDeadline H \<le> onchainRefundLocktimeFor H d now"
  by (simp_all add: onchainRefundLocktimeFor_def Let_def)

text \<open>
  C22: an accepted onchain quote asks for between one and six confirmations whatever the client sent
  (also \<open>NaN\<close>, infinities and fractions), and is safe and fundable for its whole lockup window: at
  every moment up to the lockup deadline the funding gate passes, a client that claims as late as the
  HTLC and median-time-past allow leaves the solver \<open>ARKADE_CLAIM_WINDOW_SECONDS\<close> before the refund
  opens, and the refund opens no earlier than the solver's own server-independent claim.
\<close>

theorem onchain_quote_safe_and_fundable:
  assumes q: "evaluateOnchainSendAcceptance amount limits claimDelay now requested = Inr a"
    and t: "now \<le> fundedAt" "fundedAt \<le> oaLockupDeadline a"
  shows "1 \<le> oaMinConfirmations a \<and> oaMinConfirmations a \<le> 6 \<and>
    evaluateOnchainSendFunding (oaRefundLocktime a) (oaHtlcLocktime a) (oaMinConfirmations a) fundedAt
      = Inr () \<and>
    latestClaimArrival (oaHtlcLocktime a) + ARKADE_CLAIM_WINDOW_SECONDS \<le> oaRefundLocktime a \<and>
    now + rawDelaySeconds claimDelay + ONCHAIN_ORDER_MARGIN_SECONDS \<le> oaRefundLocktime a \<and>
    minSats limits \<le> amount \<and> amount \<le> maxSats limits"
proof -
  from q have a: "a = \<lparr>oaRefundLocktime =
      onchainRefundLocktimeFor (htlcLocktimeFor (clampMinConfirmations requested) now) claimDelay now,
    oaHtlcLocktime = htlcLocktimeFor (clampMinConfirmations requested) now,
    oaMinConfirmations = clampMinConfirmations requested,
    oaLockupDeadline = now + DEFAULT_ONCHAIN_LOCKUP_TIMEOUT\<rparr>"
    and amt: "minSats limits \<le> amount" "amount \<le> maxSats limits"
    by (auto simp: evaluateOnchainSendAcceptance_def result Let_def)
  let ?H = "htlcLocktimeFor (clampMinConfirmations requested) now"
  show ?thesis
    using amt t clampMinConfirmations_range [of requested]
      onchainRefundLocktimeFor_ge(1,3) [of ?H claimDelay now]
      onchainRefundLocktimeFor_ge(2) [of now claimDelay ?H]
    by (simp add: a evaluateOnchainSendFunding_ok_iff htlcLocktimeFor_def arkadeClaimDeadline_def policy)
qed

theorem onchain_quote_safe_and_fundable_witness:
  "evaluateOnchainSendFunding 1700612384 1700012600 3 1700000900 = Inr ()"
proof -
  have "\<lfloor>7 / 2 :: rat\<rfloor> = 3" by (simp add: floor_eq_iff)
  then have "evaluateOnchainSendAcceptance 5000 \<lparr>minSats = 1000, maxSats = 1000000\<rparr> 605184 1700000000
      (Some (Fin (7 / 2))) = Inr \<lparr>oaRefundLocktime = 1700612384, oaHtlcLocktime = 1700012600,
      oaMinConfirmations = 3, oaLockupDeadline = 1700000900\<rparr>"
    by (simp add: evaluateOnchainSendAcceptance_def js_trunc_def htlcLocktimeFor_def
        onchainRefundLocktimeFor_def arkadeClaimDeadline_def latestClaimArrival_def
        rawDelaySeconds_cases Let_def policy)
  from onchain_quote_safe_and_fundable [OF this, of 1700000900] show ?thesis by simp
qed

text \<open>
  \<open>expiryBeforeClaimDeadline\<close> answers nothing exactly when no output with a known batch expiry
  lapses before the solver's last possible claim, and otherwise the earliest such expiry.
\<close>

theorem expiryBeforeClaimDeadline_spec:
  "expiryBeforeClaimDeadline outputs H =
     (if \<exists>x. Some x \<in> set outputs \<and> x < arkadeClaimDeadline H
      then Some (Min {x. Some x \<in> set outputs \<and> x < arkadeClaimDeadline H}) else None)"
proof (cases "early_expiries outputs (arkadeClaimDeadline H)")
  case Nil
  then show ?thesis
    using early_expiries_set [of outputs "arkadeClaimDeadline H"]
    by (auto simp: expiryBeforeClaimDeadline_def)
next
  case (Cons e es)
  then have S: "{x. Some x \<in> set outputs \<and> x < arkadeClaimDeadline H} = set (e # es)"
    using early_expiries_set [of outputs "arkadeClaimDeadline H"] by simp
  have "Min (set (e # es)) = foldl min e es" by (rule Min_foldl)
  with S Cons show ?thesis by (auto simp: expiryBeforeClaimDeadline_def)
qed

end
