(* ===== verification/Onchain_Store.thy ===== *)
theory Onchain_Store
  imports Swap_Store Lockups Onchain_Gates
begin

text \<open>
  \<^verbatim>\<open>solver-corridors/src/db/onchainSwaps.ts\<close>: the table of the \<open>arkade:BTC->onchain:BTC\<close> leg, and the
  contract of the service that runs on it. The client locks an Arkade output; the solver answers with a
  Bitcoin HTLC of its own, whose transaction is recorded in \<open>funding_tx\<close> before it is broadcast, and
  collects the lockup with the preimage the client's claim of the HTLC reveals.
\<close>

section \<open>Columns and rows\<close>

datatype onchain_col =
    N_payment_hash | N_amount_sats | N_payout_sats | N_refund_locktime | N_provider_pubkey | N_server_pubkey |
    N_claim_delay | N_refund_delay | N_refund_without_receiver_delay | N_pk_script | N_lockup_address |
    N_refund_pk_script | N_emulator_pubkey | N_client_refund_pubkey | N_receiver_pk_script |
    N_non_interactive_parameters | N_payout_pubkey | N_htlc_pubkey | N_htlc_locktime | N_min_confirmations |
    N_onchain_address | N_onchain_pk_script | N_onchain_lockup_txid | N_onchain_lockup_vout |
    N_onchain_lockup_value | N_funding_txid | N_funding_vout | N_preimage | N_claim_ark_txid |
    N_onchain_refund_txid | N_onchain_refund_fee_rate | N_onchain_refund_broadcast_at |
    N_onchain_refund_prior_txids | N_refund_ark_txid | N_refund_outcome | N_failure_reason | N_rfq_id |
    N_fund_started_at | N_funding_tx | N_unrolled_claim | N_lockup_outpoints

type_synonym onchain_raw = "(OnchainSendSwapState, onchain_col) raw"
type_synonym onchain_db = "(OnchainSendSwapState, onchain_col) db"

definition ONCHAIN_TRANSITION_COLUMNS :: "onchain_col list" where
  "ONCHAIN_TRANSITION_COLUMNS =
     [N_onchain_lockup_txid, N_onchain_lockup_vout, N_onchain_lockup_value, N_funding_txid, N_funding_vout,
      N_preimage, N_claim_ark_txid, N_onchain_refund_txid, N_failure_reason, N_fund_started_at,
      N_lockup_outpoints]"

definition ONCHAIN_PATCH_COLUMNS :: "onchain_col list" where
  "ONCHAIN_PATCH_COLUMNS =
     [N_onchain_lockup_value, N_refund_ark_txid, N_refund_outcome, N_onchain_refund_txid,
      N_onchain_refund_fee_rate, N_onchain_refund_broadcast_at, N_onchain_refund_prior_txids,
      N_unrolled_claim, N_claim_ark_txid]"

record OnchainSendSwapRow =
  onId :: string
  onState :: OnchainSendSwapState
  onCreatedAt :: int
  onUpdatedAt :: int
  onPaymentHash :: string
  onAmountSats :: int
  onPayoutSats :: int
  onRefundLocktime :: int
  onProviderPubkey :: string
  onServerPubkey :: string
  onClaimDelay :: int
  onRefundDelay :: int
  onRefundWithoutReceiverDelay :: int
  onPkScript :: string
  onLockupAddress :: string
  onRefundPkScript :: string
  onEmulatorPubkey :: string
  onClientRefundPubkey :: string
  onReceiverPkScript :: string
  onNonInteractiveParameters :: "bool option"
  onPayoutPubkey :: string
  onHtlcPubkey :: string
  onHtlcLocktime :: int
  onMinConfirmations :: int
  onOnchainAddress :: string
  onOnchainPkScript :: string
  onOnchainLockupTxid :: "string option"
  onOnchainLockupVout :: "int option"
  onOnchainLockupValue :: "int option"
  onFundingTxid :: "string option"
  onFundingVout :: "int option"
  onPreimage :: "string option"
  onClaimArkTxid :: "string option"
  onOnchainRefundTxid :: "string option"
  onOnchainRefundFeeRate :: "real option"
  onOnchainRefundBroadcastAt :: "int option"
  onOnchainRefundPriorTxids :: "string list"
  onRefundArkTxid :: "string option"
  onRefundOutcome :: "string option"
  onFailureReason :: "string option"
  onRfqId :: "string option"
  onFundStartedAt :: "int option"
  onFundingTx :: "string option"
  onUnrolledClaim :: "((string \<times> int) \<times> unrolled_step) list option"
  onLockupOutpoints :: "(string \<times> int \<times> int) list option"

definition onchain_toRow :: "onchain_raw \<Rightarrow> OnchainSendSwapRow" where
  "onchain_toRow r = (let c = rwCols r in
     \<lparr>onId = rwId r,
      onState = rwState r,
      onCreatedAt = rwCreated r,
      onUpdatedAt = rwUpdated r,
      onPaymentHash = sql_text (c N_payment_hash),
      onAmountSats = sql_int (c N_amount_sats),
      onPayoutSats = (case numberOrNull (c N_payout_sats) of Some v \<Rightarrow> v | None \<Rightarrow> sql_int (c N_amount_sats)),
      onRefundLocktime = sql_int (c N_refund_locktime),
      onProviderPubkey = sql_text (c N_provider_pubkey),
      onServerPubkey = sql_text (c N_server_pubkey),
      onClaimDelay = sql_int (c N_claim_delay),
      onRefundDelay = sql_int (c N_refund_delay),
      onRefundWithoutReceiverDelay = sql_int (c N_refund_without_receiver_delay),
      onPkScript = sql_text (c N_pk_script),
      onLockupAddress = sql_text (c N_lockup_address),
      onRefundPkScript = sql_text (c N_refund_pk_script),
      onEmulatorPubkey = sql_text (c N_emulator_pubkey),
      onClientRefundPubkey = sql_text (c N_client_refund_pubkey),
      onReceiverPkScript = sql_text (c N_receiver_pk_script),
      onNonInteractiveParameters = (case c N_non_interactive_parameters of SNull \<Rightarrow> None | v \<Rightarrow> Some (v = SText ''1'')),
      onPayoutPubkey = sql_text (c N_payout_pubkey),
      onHtlcPubkey = sql_text (c N_htlc_pubkey),
      onHtlcLocktime = sql_int (c N_htlc_locktime),
      onMinConfirmations = sql_int (c N_min_confirmations),
      onOnchainAddress = sql_text (c N_onchain_address),
      onOnchainPkScript = sql_text (c N_onchain_pk_script),
      onOnchainLockupTxid = textOf (c N_onchain_lockup_txid),
      onOnchainLockupVout = numberOrNull (c N_onchain_lockup_vout),
      onOnchainLockupValue = numberOrNull (c N_onchain_lockup_value),
      onFundingTxid = textOf (c N_funding_txid),
      onFundingVout = numberOrNull (c N_funding_vout),
      onPreimage = textOf (c N_preimage),
      onClaimArkTxid = textOf (c N_claim_ark_txid),
      onOnchainRefundTxid = textOf (c N_onchain_refund_txid),
      onOnchainRefundFeeRate = realOrNull (c N_onchain_refund_fee_rate),
      onOnchainRefundBroadcastAt = numberOrNull (c N_onchain_refund_broadcast_at),
      onOnchainRefundPriorTxids = txidList (c N_onchain_refund_prior_txids),
      onRefundArkTxid = textOf (c N_refund_ark_txid),
      onRefundOutcome = textOf (c N_refund_outcome),
      onFailureReason = textOf (c N_failure_reason),
      onRfqId = textOf (c N_rfq_id),
      onFundStartedAt = numberOrNull (c N_fund_started_at),
      onFundingTx = textOf (c N_funding_tx),
      onUnrolledClaim = sql_steps (c N_unrolled_claim),
      onLockupOutpoints = sql_outpoints (c N_lockup_outpoints)\<rparr>)"

text \<open>\<open>funding_tx\<close> is in neither column set: only \<open>recordFundingTx\<close> writes it.\<close>

definition ONCHAIN_SHAPE :: "(OnchainSendSwapState, onchain_col) StoreShape" where
  "ONCHAIN_SHAPE =
     \<lparr>shNoun = ''onchain send swap'', shLabel = ''onchain send lifecycle'', shEdges = mEdges OnchainSendMachine,
      shTransitionColumns = ONCHAIN_TRANSITION_COLUMNS, shPatchColumns = ONCHAIN_PATCH_COLUMNS,
      shLive = mLive OnchainSendMachine, shExposed = mExposed OnchainSendMachine, shStart = O_quoted,
      shStuck = O_stuck, shRefused = O_refused, shPaymentHash = N_payment_hash, shRfqId = N_rfq_id,
      shPkScript = N_pk_script, shAmount = N_amount_sats, shFailure = N_failure_reason,
      shLease = Some N_fund_started_at, shOnce = Some N_funding_tx\<rparr>"

section \<open>Quotes\<close>

record OnchainQuoteRecord =
  oqId :: string
  oqPaymentHash :: string
  oqAmountSats :: int
  oqPayoutSats :: int
  oqRefundLocktime :: int
  oqProviderPubkey :: string
  oqServerPubkey :: string
  oqClaimDelay :: int
  oqRefundDelay :: int
  oqRefundWithoutReceiverDelay :: int
  oqPkScript :: string
  oqLockupAddress :: string
  oqRefundPkScript :: string
  oqEmulatorPubkey :: string
  oqClientRefundPubkey :: string
  oqReceiverPkScript :: string
  oqNonInteractiveParameters :: bool
  oqPayoutPubkey :: string
  oqHtlcPubkey :: string
  oqHtlcLocktime :: int
  oqMinConfirmations :: int
  oqOnchainAddress :: string
  oqOnchainPkScript :: string
  oqRfqId :: "string option"

definition onchain_quote_cols :: "OnchainQuoteRecord \<Rightarrow> onchain_col \<Rightarrow> sqlval" where
  "onchain_quote_cols q = (\<lambda>c. case c of
      N_payment_hash \<Rightarrow> SText (oqPaymentHash q)
    | N_amount_sats \<Rightarrow> SInt (oqAmountSats q)
    | N_payout_sats \<Rightarrow> SInt (oqPayoutSats q)
    | N_refund_locktime \<Rightarrow> SInt (oqRefundLocktime q)
    | N_provider_pubkey \<Rightarrow> SText (oqProviderPubkey q)
    | N_server_pubkey \<Rightarrow> SText (oqServerPubkey q)
    | N_claim_delay \<Rightarrow> SInt (oqClaimDelay q)
    | N_refund_delay \<Rightarrow> SInt (oqRefundDelay q)
    | N_refund_without_receiver_delay \<Rightarrow> SInt (oqRefundWithoutReceiverDelay q)
    | N_pk_script \<Rightarrow> SText (oqPkScript q)
    | N_lockup_address \<Rightarrow> SText (oqLockupAddress q)
    | N_refund_pk_script \<Rightarrow> SText (oqRefundPkScript q)
    | N_emulator_pubkey \<Rightarrow> SText (oqEmulatorPubkey q)
    | N_client_refund_pubkey \<Rightarrow> SText (oqClientRefundPubkey q)
    | N_receiver_pk_script \<Rightarrow> SText (oqReceiverPkScript q)
    | N_non_interactive_parameters \<Rightarrow> (if oqNonInteractiveParameters q then SText ''1'' else SNull)
    | N_payout_pubkey \<Rightarrow> SText (oqPayoutPubkey q)
    | N_htlc_pubkey \<Rightarrow> SText (oqHtlcPubkey q)
    | N_htlc_locktime \<Rightarrow> SInt (oqHtlcLocktime q)
    | N_min_confirmations \<Rightarrow> SInt (oqMinConfirmations q)
    | N_onchain_address \<Rightarrow> SText (oqOnchainAddress q)
    | N_onchain_pk_script \<Rightarrow> SText (oqOnchainPkScript q)
    | N_rfq_id \<Rightarrow> opt_text (oqRfqId q)
    | _ \<Rightarrow> SNull)"

definition onchain_quote_row :: "OnchainQuoteRecord \<Rightarrow> int \<Rightarrow> onchain_raw" where
  "onchain_quote_row q tm =
     \<lparr>rwId = oqId q, rwState = O_quoted, rwCreated = tm, rwUpdated = tm, rwCols = onchain_quote_cols q\<rparr>"

section \<open>Reads of this store\<close>

definition owedPayoutSats :: "onchain_db \<Rightarrow> int" where
  "owedPayoutSats d =
     sum_list (map (\<lambda>r. case numberOrNull (rwCols r N_payout_sats) of Some v \<Rightarrow> v | None \<Rightarrow> sql_int (rwCols r N_amount_sats))
       (filter (\<lambda>r. rwState r \<in> set (mWhere OnchainSendMachine ''owesPayout'')) (dbRows d)))"

definition findRefundable :: "int \<Rightarrow> onchain_db \<Rightarrow> onchain_raw list" where
  "findRefundable tm d = by_created (filter (\<lambda>r. rwState r = O_refused \<and> rwCols r N_refund_outcome = SNull \<and>
     (rwCols r N_client_refund_pubkey \<noteq> SNull \<or> sql_int (rwCols r N_refund_locktime) \<le> tm)) (dbRows d))"

definition CLIENT_LOCKUP_RELEASE_DELAY_SECONDS :: int where
  "CLIENT_LOCKUP_RELEASE_DELAY_SECONDS = 60 * MINUTE"

definition findReleasable :: "int \<Rightarrow> onchain_db \<Rightarrow> onchain_raw list" where
  "findReleasable tm d = by_created (filter (\<lambda>r. rwState r = O_refunded \<and> rwCols r N_refund_outcome = SNull \<and>
     rwUpdated r \<le> tm - CLIENT_LOCKUP_RELEASE_DELAY_SECONDS) (dbRows d))"

section \<open>The actions of the onchain send service\<close>

text \<open>
  \<open>BroadcastFunding id tx\<close> hands the solver's funding of the HTLC to the Bitcoin network,
  \<open>BroadcastRefund id txid\<close> the transaction that takes the HTLC back. \<open>ClaimOnchain\<close> and
  \<open>ClaimOnchainUnrolled\<close> collect the client's lockup with a preimage, \<open>ReturnLockup\<close> is the refund sweep
  giving it back and \<open>OperatorReturn\<close> an operator doing so by hand.
\<close>

datatype onchain_act =
    OSt "(OnchainSendSwapState, onchain_col) store_act"
  | BroadcastFunding string string
  | BroadcastRefund string string
  | ClaimOnchain string string
  | ClaimOnchainUnrolled string string "string \<times> int"
  | ReturnLockup string
  | OperatorReturn string

fun onchain_part :: "onchain_act \<Rightarrow> (OnchainSendSwapState, onchain_col) store_act option" where
  "onchain_part (OSt a) = Some a"
| "onchain_part _ = None"

definition onchain_hash :: "onchain_raw \<Rightarrow> string" where
  "onchain_hash r = sql_text (rwCols r N_payment_hash)"

definition onchain_opened :: "(string \<Rightarrow> string \<Rightarrow> bool) \<Rightarrow> onchain_raw \<Rightarrow> bool" where
  "onchain_opened opens r = (case textOf (rwCols r N_preimage) of Some p \<Rightarrow> opens p (onchain_hash r) | None \<Rightarrow> False)"

definition funded_output :: "onchain_raw \<Rightarrow> bool" where
  "funded_output r \<longleftrightarrow> textOf (rwCols r N_funding_txid) \<noteq> None \<and> numberOrNull (rwCols r N_funding_vout) \<noteq> None"

text \<open>
  What the service adds to the rules of a store: a quote is inserted only for a hash no live row has;
  \<open>refused\<close> is entered only while no funding transaction is recorded; \<open>awaiting_claim\<close> is entered with
  the funded output, which no other step touches; \<open>claiming\<close> is entered only with a preimage of the row's
  own hash, and no other step touches it; the funding transaction is recorded in \<open>funding_onchain\<close>.
\<close>

fun onchain_ok :: "(string \<Rightarrow> string \<Rightarrow> bool) \<Rightarrow> (OnchainSendSwapState, onchain_col) store_act \<Rightarrow> onchain_db \<Rightarrow> bool" where
  "onchain_ok opens (Insert q) d \<longleftrightarrow>
     (case textOf (rwCols q N_payment_hash) of
        None \<Rightarrow> False | Some h \<Rightarrow> findLiveByPaymentHash ONCHAIN_SHAPE h d = None) \<and>
     numberOrNull (rwCols q N_payout_sats) \<noteq> None \<and> textOf (rwCols q N_onchain_pk_script) \<noteq> None \<and>
     rwCols q N_preimage = SNull \<and> rwCols q N_funding_tx = SNull \<and> rwCols q N_funding_txid = SNull"
| "onchain_ok opens (Cas i s t fs tm) d \<longleftrightarrow> (case row_of d i of
     None \<Rightarrow> False
   | Some r \<Rightarrow>
       (t = O_refused \<longrightarrow> rwCols r N_funding_tx = SNull) \<and>
       (if t = O_awaiting_claim then funded_output (set_fields fs r)
        else rwCols (set_fields fs r) N_funding_txid = rwCols r N_funding_txid \<and>
          rwCols (set_fields fs r) N_funding_vout = rwCols r N_funding_vout) \<and>
       (if t = O_claiming then onchain_opened opens (set_fields fs r)
        else rwCols (set_fields fs r) N_preimage = rwCols r N_preimage))"
| "onchain_ok opens (Lease i s stale tm1 tm2) d \<longleftrightarrow> s = O_funding_onchain"
| "onchain_ok opens (Once i s v tm) d \<longleftrightarrow> s = O_funding_onchain \<and> textOf v \<noteq> None"
| "onchain_ok opens _ d \<longleftrightarrow> True"

text \<open>
  \<open>pays tx script sats\<close>: the transaction pays the script that value in exactly one output. Bitcoin
  transactions are parsed by a third-party package, so it is a parameter, like \<open>opens\<close>.
\<close>

definition may_broadcast :: "(string \<Rightarrow> string \<Rightarrow> int \<Rightarrow> bool) \<Rightarrow> onchain_raw \<Rightarrow> string \<Rightarrow> bool" where
  "may_broadcast pays r tx \<longleftrightarrow> rwCols r N_funding_tx = SText tx \<and>
     (\<exists>s v. rwCols r N_onchain_pk_script = SText s \<and> rwCols r N_payout_sats = SInt v \<and> pays tx s v)"

definition onchain_collecting :: "OnchainSendSwapState set" where
  "onchain_collecting = {O_claiming, O_claimed, O_stuck}"

definition may_collect_onchain :: "(string \<Rightarrow> string \<Rightarrow> bool) \<Rightarrow> onchain_raw \<Rightarrow> string \<Rightarrow> bool" where
  "may_collect_onchain opens r p \<longleftrightarrow> rwState r \<in> onchain_collecting \<and> opens p (onchain_hash r)"

definition may_return :: "onchain_raw \<Rightarrow> bool" where
  "may_return r \<longleftrightarrow> rwState r \<in> {O_refused, O_refunded}"

definition may_reclaim :: "onchain_raw \<Rightarrow> bool" where
  "may_reclaim r \<longleftrightarrow> rwCols r N_funding_txid \<noteq> SNull"

definition onchain_permitted :: "(onchain_raw \<Rightarrow> bool) \<Rightarrow> string \<Rightarrow> onchain_db \<Rightarrow> onchain_db option" where
  "onchain_permitted p i d = (case row_of d i of None \<Rightarrow> None | Some r \<Rightarrow> if p r then Some d else None)"

fun exec_onchain ::
    "(string \<Rightarrow> string \<Rightarrow> bool) \<Rightarrow> (string \<Rightarrow> string \<Rightarrow> int \<Rightarrow> bool) \<Rightarrow> onchain_act \<Rightarrow> onchain_db \<Rightarrow> onchain_db option" where
  "exec_onchain opens pays (OSt a) d = exec_store ONCHAIN_SHAPE (onchain_ok opens) a d"
| "exec_onchain opens pays (BroadcastFunding i tx) d = onchain_permitted (\<lambda>r. may_broadcast pays r tx) i d"
| "exec_onchain opens pays (BroadcastRefund i txid) d = onchain_permitted may_reclaim i d"
| "exec_onchain opens pays (ClaimOnchain i p) d = onchain_permitted (\<lambda>r. may_collect_onchain opens r p) i d"
| "exec_onchain opens pays (ClaimOnchainUnrolled i p key) d = onchain_permitted (\<lambda>r. may_collect_onchain opens r p) i d"
| "exec_onchain opens pays (ReturnLockup i) d = onchain_permitted may_return i d"
| "exec_onchain opens pays (OperatorReturn i) d = onchain_permitted (\<lambda>_. True) i d"

lemma onchain_permitted_Some:
  "onchain_permitted p i d = Some d' \<longleftrightarrow> d' = d \<and> (\<exists>r. row_of d i = Some r \<and> p r)"
  by (auto simp: onchain_permitted_def split: option.splits if_splits)

interpretation onchain_store: swap_store OnchainSendMachine O_quoted O_refused O_stuck O_funding_onchain
  "{O_awaiting_claim, O_claiming, O_refunding_onchain, O_claimed, O_refunded, O_refused, O_stuck}"
  ONCHAIN_SHAPE "onchain_ok opens" "exec_onchain opens pays" onchain_part
  for opens pays
proof unfold_locales
  fix s t
  show "t \<in> set (shEdges ONCHAIN_SHAPE s) \<longleftrightarrow> canTransition OnchainSendMachine s t"
    by (cases s) (simp_all add: ONCHAIN_SHAPE_def canTransition_def onchainSend_edges)
next
  fix a d d'
  assume "exec_onchain opens pays a d = Some d'"
  then show "case onchain_part a of None \<Rightarrow> d' = d | Some b \<Rightarrow> exec_store ONCHAIN_SHAPE (onchain_ok opens) b d = Some d'"
    by (cases a) (auto simp: onchain_permitted_Some)
qed (auto simp: ONCHAIN_SHAPE_def ONCHAIN_TRANSITION_COLUMNS_def ONCHAIN_PATCH_COLUMNS_def isExposed_def isLive_def)

interpretation onchain_service: service OnchainSendMachine O_quoted O_refused O_stuck O_funding_onchain
  "{O_awaiting_claim, O_claiming, O_refunding_onchain, O_claimed, O_refunded, O_refused, O_stuck}"
  ONCHAIN_SHAPE "onchain_ok opens" "exec_onchain opens pays" onchain_part OSt
  for opens pays
  by unfold_locales simp_all

section \<open>What an action may do to a row\<close>

lemma onchain_opened_cong:
  "rwCols r N_preimage = rwCols q N_preimage \<Longrightarrow> rwCols r N_payment_hash = rwCols q N_payment_hash \<Longrightarrow>
     onchain_opened opens r = onchain_opened opens q"
  by (simp add: onchain_opened_def onchain_hash_def split: option.split)

definition fixed_terms :: "onchain_raw \<Rightarrow> onchain_raw \<Rightarrow> bool" where
  "fixed_terms r r' \<longleftrightarrow> (\<forall>c \<in> {N_payment_hash, N_payout_sats, N_onchain_pk_script}. rwCols r' c = rwCols r c)"

text \<open>The row stays in its state, where its funding transaction may be recorded once, or takes one legal edge.\<close>

definition row_stays :: "onchain_raw \<Rightarrow> onchain_raw \<Rightarrow> bool" where
  "row_stays r r' \<longleftrightarrow> rwState r' = rwState r \<and>
     (\<forall>c \<in> {N_preimage, N_funding_txid, N_funding_vout}. rwCols r' c = rwCols r c) \<and>
     (rwCols r' N_funding_tx = rwCols r N_funding_tx \<or>
      rwState r = O_funding_onchain \<and> rwCols r N_funding_tx = SNull \<and> textOf (rwCols r' N_funding_tx) \<noteq> None)"

definition row_moves :: "(string \<Rightarrow> string \<Rightarrow> bool) \<Rightarrow> onchain_raw \<Rightarrow> onchain_raw \<Rightarrow> bool" where
  "row_moves opens r r' \<longleftrightarrow> canTransition OnchainSendMachine (rwState r) (rwState r') \<and>
     rwCols r' N_funding_tx = rwCols r N_funding_tx \<and>
     (rwState r' = O_refused \<longrightarrow> rwCols r N_funding_tx = SNull) \<and>
     (if rwState r' = O_awaiting_claim then funded_output r'
      else rwCols r' N_funding_txid = rwCols r N_funding_txid \<and> rwCols r' N_funding_vout = rwCols r N_funding_vout) \<and>
     (if rwState r' = O_claiming then onchain_opened opens r' else rwCols r' N_preimage = rwCols r N_preimage)"

lemma onchain_cas:
  assumes "exec_store ONCHAIN_SHAPE (onchain_ok opens) (Cas i s t fs tm) d = Some d'" and "row_of d i = Some r"
    and "ids_distinct d"
  obtains r' where "row_of d' i = Some r'" "rwState r = s" "rwState r' = t" "fixed_terms r r'" "row_moves opens r r'"
proof -
  let ?r = "(set_fields fs r)\<lparr>rwState := t, rwUpdated := tm\<rparr>"
  have cols: "fst ` set fs \<subseteq> set ONCHAIN_TRANSITION_COLUMNS" and ok: "onchain_ok opens (Cas i s t fs tm) d"
    using assms(1) by (simp_all add: ONCHAIN_SHAPE_def del: onchain_ok.simps split: if_split_asm)
  have fixed: "rwCols ?r c = rwCols r c" if "c \<notin> set ONCHAIN_TRANSITION_COLUMNS" for c
    using that cols by (auto intro!: set_fields_other)
  have "onchain_opened opens (set_fields fs r) \<longleftrightarrow> onchain_opened opens ?r" by (rule onchain_opened_cong) simp_all
  then have "row_moves opens r ?r"
    using onchain_store.store_row_cas [OF assms] ok assms(2) fixed [of N_funding_tx]
    by (auto simp: row_moves_def ONCHAIN_TRANSITION_COLUMNS_def funded_output_def simp del: onchainSend_can split: if_splits)
  moreover have "fixed_terms r ?r" using fixed by (simp add: fixed_terms_def ONCHAIN_TRANSITION_COLUMNS_def)
  ultimately show ?thesis using onchain_store.store_row_cas [OF assms] that [of ?r] by simp
qed

text \<open>The column of the funding transaction, under an action that is no compare-and-swap of the row.\<close>

lemma funding_tx_column:
  assumes "exec_store ONCHAIN_SHAPE (onchain_ok opens) a d = Some d'" and "row_of d i = Some r" and "row_of d' i = Some r'"
    and "\<forall>s t fs tm. a \<noteq> Cas i s t fs tm" and ids: "ids_distinct d"
  shows "rwCols r' N_funding_tx = rwCols r N_funding_tx \<or>
    (\<exists>v tm. a = Once i O_funding_onchain v tm \<and> rwState r = O_funding_onchain \<and> rwCols r N_funding_tx = SNull \<and>
      rwCols r' N_funding_tx = v \<and> textOf v \<noteq> None)"
proof (cases a)
  case (Once j s v tm)
  let ?p = "\<lambda>r. rwId r = j \<and> rwState r = s \<and> rwCols r N_funding_tx = SNull"
  let ?f = "\<lambda>r. (set_fields [(N_funding_tx, v)] r)\<lparr>rwUpdated := tm\<rparr>"
  have d': "d' = snd (update_rows ?p ?f d)" and s: "s = O_funding_onchain" and v: "textOf v \<noteq> None"
    using assms(1) Once by (auto simp: ONCHAIN_SHAPE_def once_row_def split: if_splits)
  have "rwId r = i" using row_of_Some [OF assms(2)] by simp
  then show ?thesis using assms(2,3) Once s v by (auto simp: d' update_rows_row_of set_fields_cols split: if_splits)
next
  case (Insert q)
  then have "row_of d' i = row_of d i"
    using assms(1,2) find_append_Some [of "\<lambda>r. rwId r = i" "dbRows d" r "[q]"] by (auto simp: row_of_def split: if_splits)
  then show ?thesis using assms(2,3) by simp
next
  case (Patch j fs tm)
  then have "N_funding_tx \<notin> fst ` set fs"
    using assms(1) by (auto simp: ONCHAIN_SHAPE_def ONCHAIN_PATCH_COLUMNS_def split: if_splits)
  then show ?thesis using assms(1-3) Patch by (auto simp: patch_row_def update_rows_row_of split: if_splits)
next
  case (Cas j s t fs tm)
  then have "j \<noteq> i" using assms(4) by auto
  moreover have "rwId r = i" using row_of_Some [OF assms(2)] by simp
  ultimately show ?thesis using assms(1-3) Cas by (auto simp: cas_def update_rows_row_of split: if_splits)
qed (use assms in \<open>auto simp: add_event_def row_of_def lease_row_def release_row_def ONCHAIN_SHAPE_def
  update_rows_row_of [unfolded row_of_def] split: if_splits\<close>)

lemma onchain_row_step:
  assumes "exec_onchain opens pays a d = Some d'" and "row_of d i = Some r" and "ids_distinct d"
  shows "\<exists>r'. row_of d' i = Some r' \<and> fixed_terms r r' \<and> (row_stays r r' \<or> row_moves opens r r')"
proof (cases a)
  case (OSt b)
  then have b: "exec_store ONCHAIN_SHAPE (onchain_ok opens) b d = Some d'" using assms(1) by simp
  show ?thesis
  proof (cases "\<exists>s t fs tm. b = Cas i s t fs tm")
    case True
    then show ?thesis using onchain_cas [of opens i _ _ _ _ d d' r] b assms(2,3) by metis
  next
    case False
    then obtain r' where r': "row_of d' i = Some r'" "rwState r' = rwState r"
      "\<forall>c. c \<notin> set (shPatchColumns ONCHAIN_SHAPE) \<union> set_option (shLease ONCHAIN_SHAPE) \<union> set_option (shOnce ONCHAIN_SHAPE) \<longrightarrow>
         rwCols r' c = rwCols r c"
      using store_row_still [OF b assms(2)] by blast
    have "rwCols r' c = rwCols r c" if "c \<in> {N_payment_hash, N_payout_sats, N_onchain_pk_script, N_preimage, N_funding_txid, N_funding_vout}" for c
      using r'(3) that by (auto simp: ONCHAIN_SHAPE_def ONCHAIN_PATCH_COLUMNS_def)
    then show ?thesis using r'(1,2) funding_tx_column [OF b assms(2) r'(1) _ assms(3)] False
      by (auto simp: fixed_terms_def row_stays_def)
  qed
qed (use assms(1,2) in \<open>auto simp: onchain_permitted_Some fixed_terms_def row_stays_def\<close>)

section \<open>The invariant of the table\<close>

text \<open>
  No funding transaction is recorded before \<open>funding_onchain\<close> nor on a refused row; a row that waits for the
  client's claim or for its own refund knows the output it funded; a row being collected holds a preimage.
\<close>

fun progress_ok :: "OnchainSendSwapState \<Rightarrow> bool \<Rightarrow> bool \<Rightarrow> bool \<Rightarrow> bool \<Rightarrow> bool" where
  "progress_ok O_quoted unrecorded unfunded funded opened = (unrecorded \<and> unfunded)"
| "progress_ok O_funded unrecorded unfunded funded opened = (unrecorded \<and> unfunded)"
| "progress_ok O_funding_onchain unrecorded unfunded funded opened = unfunded"
| "progress_ok O_awaiting_claim unrecorded unfunded funded opened = funded"
| "progress_ok O_refunding_onchain unrecorded unfunded funded opened = funded"
| "progress_ok O_refunded unrecorded unfunded funded opened = funded"
| "progress_ok O_claiming unrecorded unfunded funded opened = opened"
| "progress_ok O_claimed unrecorded unfunded funded opened = opened"
| "progress_ok O_refused unrecorded unfunded funded opened = unrecorded"
| "progress_ok O_stuck unrecorded unfunded funded opened = True"

definition well_typed :: "onchain_raw \<Rightarrow> bool" where
  "well_typed r \<longleftrightarrow> textOf (rwCols r N_payment_hash) \<noteq> None \<and> numberOrNull (rwCols r N_payout_sats) \<noteq> None \<and>
     textOf (rwCols r N_onchain_pk_script) \<noteq> None \<and>
     (rwCols r N_funding_tx = SNull \<or> textOf (rwCols r N_funding_tx) \<noteq> None)"

definition onchain_row_ok :: "(string \<Rightarrow> string \<Rightarrow> bool) \<Rightarrow> onchain_raw \<Rightarrow> bool" where
  "onchain_row_ok opens r \<longleftrightarrow> well_typed r \<and>
     progress_ok (rwState r) (rwCols r N_funding_tx = SNull) (rwCols r N_funding_txid = SNull) (funded_output r)
       (onchain_opened opens r)"

definition onchain_inv :: "(string \<Rightarrow> string \<Rightarrow> bool) \<Rightarrow> onchain_db \<Rightarrow> bool" where
  "onchain_inv opens d \<longleftrightarrow> ids_distinct d \<and> live_hash_unique ONCHAIN_SHAPE d \<and>
     (\<forall>i r. row_of d i = Some r \<longrightarrow> onchain_row_ok opens r)"

lemma well_typed_kept:
  "well_typed r \<Longrightarrow> fixed_terms r r' \<Longrightarrow> row_stays r r' \<or> row_moves opens r r' \<Longrightarrow> well_typed r'"
  unfolding well_typed_def fixed_terms_def row_stays_def row_moves_def by (metis insertCI)

lemma row_ok_stays:
  assumes ok: "onchain_row_ok opens r" and f: "fixed_terms r r'" and m: "row_stays r r'"
  shows "onchain_row_ok opens r'"
proof -
  have same: "onchain_opened opens r' = onchain_opened opens r" "funded_output r' = funded_output r"
    "rwCols r' N_funding_txid = rwCols r N_funding_txid" "rwState r' = rwState r"
    "rwState r \<noteq> O_funding_onchain \<Longrightarrow> rwCols r' N_funding_tx = rwCols r N_funding_tx"
    using m f by (auto simp: row_stays_def fixed_terms_def funded_output_def intro!: onchain_opened_cong)
  show ?thesis using ok well_typed_kept [OF _ f] m same unfolding onchain_row_ok_def
    by (cases "rwState r") simp_all
qed

lemma row_ok_moves:
  assumes ok: "onchain_row_ok opens r" and f: "fixed_terms r r'" and m: "row_moves opens r r'"
  shows "onchain_row_ok opens r'"
proof -
  have edge: "canTransition OnchainSendMachine (rwState r) (rwState r')" and tx: "rwCols r' N_funding_tx = rwCols r N_funding_tx"
    and clean: "rwState r' = O_refused \<Longrightarrow> rwCols r N_funding_tx = SNull"
    using m by (simp_all add: row_moves_def)
  have same: "funded_output r' = funded_output r" "rwCols r' N_funding_txid = rwCols r N_funding_txid"
    if "rwState r' \<noteq> O_awaiting_claim"
    using m that by (simp_all add: row_moves_def funded_output_def)
  have opened: "onchain_opened opens r' = onchain_opened opens r" if "rwState r' \<noteq> O_claiming"
    using m that f by (intro onchain_opened_cong) (simp_all add: row_moves_def fixed_terms_def)
  have "progress_ok (rwState r') (rwCols r' N_funding_tx = SNull) (rwCols r' N_funding_txid = SNull) (funded_output r')
      (onchain_opened opens r')"
  proof (cases "rwState r'")
    case O_awaiting_claim
    then show ?thesis using m by (simp add: row_moves_def)
  next
    case O_claiming
    then show ?thesis using m by (simp add: row_moves_def)
  qed (use ok edge same opened tx clean in \<open>(cases "rwState r"; simp add: onchain_row_ok_def)+\<close>)
  then show ?thesis using ok well_typed_kept [OF _ f] m unfolding onchain_row_ok_def by blast
qed

lemma exec_keeps_onchain_inv:
  assumes "exec_onchain opens pays a d = Some d'" and "onchain_inv opens d"
  shows "onchain_inv opens d'"
proof (cases a)
  case (OSt b)
  then have b: "exec_store ONCHAIN_SHAPE (onchain_ok opens) b d = Some d'" using assms(1) by simp
  have ids: "ids_distinct d" and u: "live_hash_unique ONCHAIN_SHAPE d"
    and rows: "\<And>i r. row_of d i = Some r \<Longrightarrow> onchain_row_ok opens r"
    using assms(2) by (auto simp: onchain_inv_def)
  have "live_hash_unique ONCHAIN_SHAPE d'"
  proof (rule onchain_store.store_keeps_unique [OF b ids u])
    fix q i r
    assume "onchain_ok opens (Insert q) d" "row_of d i = Some r"
      "rwCols r (shPaymentHash ONCHAIN_SHAPE) = rwCols q (shPaymentHash ONCHAIN_SHAPE)"
    then show "rwState r = O_refused"
      using no_live_row_with_hash [of ONCHAIN_SHAPE _ d i r]
      by (cases "rwCols q N_payment_hash") (auto simp: ONCHAIN_SHAPE_def)
  qed
  moreover have "onchain_row_ok opens r'" if r': "row_of d' i = Some r'" for i r'
  proof (cases "row_of d i")
    case None
    with store_row_back [OF b r'] have "b = Insert r'" by blast
    then have "onchain_ok opens (Insert r') d" "rwState r' = O_quoted"
      using b by (simp_all add: ONCHAIN_SHAPE_def del: onchain_ok.simps split: if_split_asm)
    then show ?thesis unfolding onchain_row_ok_def well_typed_def by (cases "textOf (rwCols r' N_payment_hash)") simp_all
  next
    case (Some r)
    obtain q where "row_of d' i = Some q" "fixed_terms r q" "row_stays r q \<or> row_moves opens r q"
      using onchain_row_step [OF assms(1) Some ids] by blast
    then show ?thesis using rows [OF Some] row_ok_stays [of opens r q] row_ok_moves [of opens r q] r' by (metis option.inject)
  qed
  ultimately show ?thesis unfolding onchain_inv_def using store_ids [OF b ids] by blast
qed (use assms in \<open>auto simp: onchain_permitted_Some\<close>)

lemma run_keeps_onchain_inv:
  "run_all (exec_onchain opens pays) as d = Some d' \<Longrightarrow> onchain_inv opens d \<Longrightarrow> onchain_inv opens d'"
  by (rule run_all_keeps) (auto intro: exec_keeps_onchain_inv)

section \<open>What is true of a whole log\<close>

definition empty_onchain_db :: onchain_db where
  "empty_onchain_db = \<lparr>dbRows = [], dbEvents = []\<rparr>"

lemma empty_onchain_inv: "onchain_inv opens empty_onchain_db"
  by (simp add: onchain_inv_def empty_onchain_db_def ids_distinct_def live_hash_unique_def row_of_def)

text \<open>What every step of a row keeps is kept to the end of a run.\<close>

lemma run_row_keeps:
  assumes "run_all (exec_onchain opens pays) as d = Some d'" and "row_of d i = Some r" and "ids_distinct d" and "J r"
    and J: "\<And>r r'. J r \<Longrightarrow> fixed_terms r r' \<Longrightarrow> row_stays r r' \<or> row_moves opens r r' \<Longrightarrow> J r'"
  shows "\<exists>r'. row_of d' i = Some r' \<and> J r'"
  using assms(1-4)
proof (induction as arbitrary: d r)
  case (Cons a as)
  obtain d1 where d1: "exec_onchain opens pays a d = Some d1" "run_all (exec_onchain opens pays) as d1 = Some d'"
    using Cons.prems(1) by (auto split: option.splits)
  obtain r1 where "row_of d1 i = Some r1" "fixed_terms r r1" "row_stays r r1 \<or> row_moves opens r r1"
    using onchain_row_step [OF d1(1) Cons.prems(2,3)] by blast
  with Cons.IH [OF d1(2) _ onchain_store.exec_ids [OF d1(1) Cons.prems(3)]] J Cons.prems(4) show ?case by blast
qed auto

text \<open>Whatever a permitted action found on its row, and every later step keeps, is there at the end.\<close>

lemma found_at_end:
  assumes run: "run_all (exec_onchain opens pays) as empty_onchain_db = Some d" and "a \<in> set as"
    and a: "\<And>d d'. exec_onchain opens pays a d = Some d' \<Longrightarrow> \<exists>r. row_of d i = Some r \<and> P r"
    and P: "\<And>r. P r \<Longrightarrow> onchain_row_ok opens r \<Longrightarrow> J r"
    and J: "\<And>r r'. J r \<Longrightarrow> fixed_terms r r' \<Longrightarrow> row_stays r r' \<or> row_moves opens r r' \<Longrightarrow> J r'"
  shows "\<exists>r. row_of d i = Some r \<and> onchain_row_ok opens r \<and> J r"
proof -
  obtain bs cs where as: "as = bs @ a # cs" using split_list [OF assms(2)] by blast
  obtain d1 where d1: "run_all (exec_onchain opens pays) bs empty_onchain_db = Some d1"
    and rest: "run_all (exec_onchain opens pays) (a # cs) d1 = Some d"
    using run unfolding as by (auto split: option.splits)
  have inv: "onchain_inv opens d1" "onchain_inv opens d"
    using run_keeps_onchain_inv [OF d1 empty_onchain_inv] run_keeps_onchain_inv [OF run empty_onchain_inv] .
  obtain r1 where r1: "row_of d1 i = Some r1" "P r1" using rest a [of d1] by (auto split: option.splits)
  then have "J r1" using inv(1) P by (simp add: onchain_inv_def)
  with run_row_keeps [OF rest r1(1), of J] inv J show ?thesis by (auto simp: onchain_inv_def)
qed

lemma collecting_kept:
  "rwState r \<in> onchain_collecting \<Longrightarrow> row_stays r r' \<or> row_moves opens r r' \<Longrightarrow> rwState r' \<in> onchain_collecting"
  by (cases "rwState r") (auto simp: row_stays_def row_moves_def onchain_collecting_def)

lemma returned_kept: "may_return r \<Longrightarrow> row_stays r r' \<or> row_moves opens r r' \<Longrightarrow> may_return r'"
  by (cases "rwState r") (auto simp: row_stays_def row_moves_def may_return_def)

lemma broadcast_kept:
  "may_broadcast pays r tx \<Longrightarrow> fixed_terms r r' \<Longrightarrow> row_stays r r' \<or> row_moves opens r r' \<Longrightarrow> may_broadcast pays r' tx"
  by (auto simp: may_broadcast_def fixed_terms_def row_stays_def row_moves_def)

lemma broadcast_at_end:
  assumes "run_all (exec_onchain opens pays) as empty_onchain_db = Some d" and "BroadcastFunding i tx \<in> set as"
  shows "\<exists>r. row_of d i = Some r \<and> onchain_row_ok opens r \<and> may_broadcast pays r tx"
  by (rule found_at_end [OF assms, where P = "\<lambda>r. may_broadcast pays r tx"])
    (auto simp: onchain_permitted_Some intro: broadcast_kept)

lemma return_at_end:
  assumes "run_all (exec_onchain opens pays) as empty_onchain_db = Some d" and "ReturnLockup i \<in> set as"
  shows "\<exists>r. row_of d i = Some r \<and> may_return r"
  using found_at_end [OF assms, where P = may_return and J = may_return]
  by (auto simp: onchain_permitted_Some intro: returned_kept)

lemma claim_at_end:
  assumes "run_all (exec_onchain opens pays) as empty_onchain_db = Some d"
    and "ClaimOnchain i p \<in> set as \<or> ClaimOnchainUnrolled i p key \<in> set as"
  shows "\<exists>r. row_of d i = Some r \<and> rwState r \<in> onchain_collecting \<and> opens p (onchain_hash r)"
proof -
  let ?J = "\<lambda>r. rwState r \<in> onchain_collecting \<and> opens p (onchain_hash r)"
  have kept: "?J r'" if "?J r" "fixed_terms r r'" "row_stays r r' \<or> row_moves opens r r'" for r r'
    using that collecting_kept [OF _ that(3)] by (simp add: fixed_terms_def onchain_hash_def)
  have "\<exists>a \<in> set as. \<forall>d d'. exec_onchain opens pays a d = Some d' \<longrightarrow>
      (\<exists>r. row_of d i = Some r \<and> may_collect_onchain opens r p)"
    using assms(2) by (elim disjE; intro bexI, assumption?) (simp_all add: onchain_permitted_Some)
  then obtain a where a: "a \<in> set as" "\<And>d d'. exec_onchain opens pays a d = Some d' \<Longrightarrow>
      \<exists>r. row_of d i = Some r \<and> may_collect_onchain opens r p" by blast
  have "\<exists>r. row_of d i = Some r \<and> onchain_row_ok opens r \<and> ?J r"
  proof (rule found_at_end [OF assms(1) a(1), where P = "\<lambda>r. may_collect_onchain opens r p"])
    show "?J r'" if "?J r" "fixed_terms r r'" "row_stays r r' \<or> row_moves opens r r'" for r r'
      using kept [OF that] .
  qed (fact a(2), simp add: may_collect_onchain_def)
  then show ?thesis by blast
qed

lemma refused_unrecorded: "onchain_row_ok opens r \<Longrightarrow> rwState r = O_refused \<Longrightarrow> \<not> may_broadcast pays r tx"
  by (auto simp: onchain_row_ok_def may_broadcast_def)

text \<open>
  C4: the promise of the onchain send table, for every interleaving of any number of workers. At most one
  swap per payment hash is not refused, and \<open>funding_onchain\<close> is entered at most once per swap. Every
  transaction broadcast to fund a swap is the one recorded in its row, so there is one such transaction,
  and it pays the HTLC the quoted payout in exactly one output. When the refund sweep gave a lockup back,
  either the swap's own HTLC was refunded or no funding of it was ever broadcast. When a lockup was
  collected, it was with a preimage of its hash, and the sweep never gave it back. An operator's manual
  return (\<open>OperatorReturn\<close>, \<open>refundNow\<close> in the code) is not covered by what is said of the sweep: the service
  lets an operator return the lockup of a swap in any state, and the code refuses it only when it finds
  the client's claim of the HTLC on chain.
\<close>

theorem onchain_service_sound:
  assumes "run_all (exec_onchain opens pays) as empty_onchain_db = Some d"
  shows "live_hash_unique ONCHAIN_SHAPE d \<and>
    (\<forall>i. length (filter (\<lambda>e. snd e = O_funding_onchain) (edges_in onchain_part i as)) \<le> 1) \<and>
    (\<forall>i tx. BroadcastFunding i tx \<in> set as \<longrightarrow> (\<exists>r. row_of d i = Some r \<and> rwState r \<noteq> O_refused \<and>
       onFundingTx (onchain_toRow r) = Some tx \<and>
       pays tx (onOnchainPkScript (onchain_toRow r)) (onPayoutSats (onchain_toRow r)))) \<and>
    (\<forall>i. ReturnLockup i \<in> set as \<longrightarrow> (\<exists>r. row_of d i = Some r \<and>
       (rwState r = O_refunded \<or> rwState r = O_refused \<and> (\<forall>tx. BroadcastFunding i tx \<notin> set as)))) \<and>
    (\<forall>i p key. ClaimOnchain i p \<in> set as \<or> ClaimOnchainUnrolled i p key \<in> set as \<longrightarrow>
       ReturnLockup i \<notin> set as \<and> (\<exists>r. row_of d i = Some r \<and> opens p (onchain_hash r)))"
proof (intro conjI allI impI)
  show "live_hash_unique ONCHAIN_SHAPE d"
    using run_keeps_onchain_inv [OF assms empty_onchain_inv] by (simp add: onchain_inv_def)
  show "length (filter (\<lambda>e. snd e = O_funding_onchain) (edges_in onchain_part i as)) \<le> 1" for i
    by (rule onchain_store.run_commit_once [OF assms]) (simp add: empty_onchain_db_def ids_distinct_def)
  show "\<exists>r. row_of d i = Some r \<and> rwState r \<noteq> O_refused \<and> onFundingTx (onchain_toRow r) = Some tx \<and>
      pays tx (onOnchainPkScript (onchain_toRow r)) (onPayoutSats (onchain_toRow r))"
    if "BroadcastFunding i tx \<in> set as" for i tx
    using broadcast_at_end [OF assms that] refused_unrecorded [of opens _ pays tx]
    by (fastforce simp: may_broadcast_def onchain_toRow_def Let_def)
  show "\<exists>r. row_of d i = Some r \<and> (rwState r = O_refunded \<or> rwState r = O_refused \<and> (\<forall>tx. BroadcastFunding i tx \<notin> set as))"
    if "ReturnLockup i \<in> set as" for i
    using return_at_end [OF assms that] broadcast_at_end [OF assms, of i] refused_unrecorded [of opens _ pays]
    by (fastforce simp: may_return_def)
  fix i p key
  assume c: "ClaimOnchain i p \<in> set as \<or> ClaimOnchainUnrolled i p key \<in> set as"
  from claim_at_end [OF assms c] obtain r where r: "row_of d i = Some r" "rwState r \<in> onchain_collecting" "opens p (onchain_hash r)"
    by blast
  then show "\<exists>r. row_of d i = Some r \<and> opens p (onchain_hash r)" by blast
  show "ReturnLockup i \<notin> set as"
    using return_at_end [OF assms, of i] r(1,2) by (auto simp: may_return_def onchain_collecting_def)
qed

definition sample_onchain_quote :: OnchainQuoteRecord where
  "sample_onchain_quote =
     \<lparr>oqId = ''a'', oqPaymentHash = ''ff'', oqAmountSats = 100000, oqPayoutSats = 99000, oqRefundLocktime = 1700050000,
      oqProviderPubkey = ''01'', oqServerPubkey = ''02'', oqClaimDelay = 512, oqRefundDelay = 1024,
      oqRefundWithoutReceiverDelay = 5120, oqPkScript = ''52'', oqLockupAddress = ''tark1l'', oqRefundPkScript = ''53'',
      oqEmulatorPubkey = ''03'', oqClientRefundPubkey = ''04'', oqReceiverPkScript = ''54'',
      oqNonInteractiveParameters = True, oqPayoutPubkey = ''05'', oqHtlcPubkey = ''01'', oqHtlcLocktime = 1700030000,
      oqMinConfirmations = 1, oqOnchainAddress = ''bcrt1p'', oqOnchainPkScript = ''51'', oqRfqId = None\<rparr>"

text \<open>A swap to its claim; two workers try to record a funding transaction and the first wins.\<close>

definition sample_onchain_log :: "onchain_act list" where
  "sample_onchain_log =
     [OSt (Insert (onchain_quote_row sample_onchain_quote 0)),
      OSt (Cas ''a'' O_quoted O_funded [(N_onchain_lockup_value, SInt 100000)] 1),
      OSt (Cas ''a'' O_funded O_funding_onchain [(N_fund_started_at, SInt 2)] 2),
      OSt (Once ''a'' O_funding_onchain (SText ''raw'') 3), BroadcastFunding ''a'' ''raw'',
      OSt (Cas ''a'' O_funding_onchain O_awaiting_claim [(N_funding_txid, SText ''t''), (N_funding_vout, SInt 0)] 4),
      OSt (Cas ''a'' O_awaiting_claim O_claiming [(N_preimage, SText ''ff'')] 5), ClaimOnchain ''a'' ''ff'',
      OSt (Cas ''a'' O_claiming O_claimed [(N_claim_ark_txid, SText ''u'')] 6)]"

lemmas onchain_eval =
  sample_onchain_quote_def onchain_quote_row_def onchain_quote_cols_def ONCHAIN_SHAPE_def onchain_permitted_def
  findLiveByPaymentHash_def ONCHAIN_TRANSITION_COLUMNS_def cas_def update_rows_def row_of_def set_fields_def once_row_def
  may_broadcast_def may_collect_onchain_def onchain_opened_def onchain_hash_def onchain_collecting_def funded_output_def
  onchainSend_edges spec_of_def onchainSendTable_def empty_onchain_db_def

lemma sample_onchain_runs:
  "run_all (exec_onchain (=) (\<lambda>tx s v. v = 99000)) sample_onchain_log empty_onchain_db \<noteq> None"
  by (simp add: sample_onchain_log_def onchain_eval)

theorem onchain_service_sound_witness:
  "\<exists>d r. run_all (exec_onchain (=) (\<lambda>tx s v. v = 99000)) sample_onchain_log empty_onchain_db = Some d \<and>
     live_hash_unique ONCHAIN_SHAPE d \<and> row_of d ''a'' = Some r \<and> onFundingTx (onchain_toRow r) = Some ''raw''"
proof -
  obtain d where d: "run_all (exec_onchain (=) (\<lambda>tx s v. v = 99000)) sample_onchain_log empty_onchain_db = Some d"
    using sample_onchain_runs by blast
  have "BroadcastFunding ''a'' ''raw'' \<in> set sample_onchain_log" by (simp add: sample_onchain_log_def)
  with onchain_service_sound [OF d] d show ?thesis by blast
qed

end
