(* ===== verification/Fee_Bump.thy ===== *)
theory Fee_Bump
  imports Effects
begin

text \<open>
  \<^verbatim>\<open>solver-rails/src/onchain/feeBump.ts\<close>: how much a refund of the solver's own HTLC bids, and when it bids
  again. Fee rates are JavaScript numbers and modelled as reals; fees, sizes and times are integers.
\<close>

section \<open>Definitions\<close>

definition FEE_BUMP_INTERVAL_SECONDS :: int where [policy]: "FEE_BUMP_INTERVAL_SECONDS = 20 * 60"
definition FEE_BUMP_ALL_IN_SECONDS :: int where [policy]: "FEE_BUMP_ALL_IN_SECONDS = 2 * FEE_BUMP_INTERVAL_SECONDS"
definition FEE_BUMP_RAMP_SECONDS :: int where [policy]: "FEE_BUMP_RAMP_SECONDS = 6 * FEE_BUMP_INTERVAL_SECONDS"
definition MIN_RELAY_FEE_RATE :: real where "MIN_RELAY_FEE_RATE = 1"

definition bumpDue :: "int \<Rightarrow> int \<Rightarrow> bool" where
  "bumpDue broadcastAt tm \<longleftrightarrow> tm - broadcastAt \<ge> FEE_BUMP_INTERVAL_SECONDS"

definition urgencyFeeRate :: "real \<Rightarrow> real \<Rightarrow> int \<Rightarrow> int \<Rightarrow> real" where
  "urgencyFeeRate estimateRate capRate deadline tm =
     (let estimate = max estimateRate MIN_RELAY_FEE_RATE;
          left = deadline - tm in
      if capRate \<le> estimate \<or> left \<le> FEE_BUMP_ALL_IN_SECONDS then capRate
      else if left \<ge> FEE_BUMP_RAMP_SECONDS then estimate
      else let progress = real_of_int (FEE_BUMP_RAMP_SECONDS - left) /
               real_of_int (FEE_BUMP_RAMP_SECONDS - FEE_BUMP_ALL_IN_SECONDS) in
        estimate * (capRate / estimate) powr progress)"

definition affordableFee :: "int \<Rightarrow> real \<Rightarrow> int \<Rightarrow> int \<Rightarrow> int option" where
  "affordableFee vsize feeRate valueSats dustSats =
     (let cap = valueSats - dustSats in
      if cap < \<lceil>real_of_int vsize * MIN_RELAY_FEE_RATE\<rceil> then None
      else Some (min \<lceil>real_of_int vsize * feeRate\<rceil> cap))"

datatype OnchainTxOutcome = Tx_confirmed | Tx_mempool | Tx_unknown

text \<open>The first confirmed one wins; without one, any that is in the mempool counts.\<close>

fun outcome_from ::
    "(nat \<Rightarrow> string \<Rightarrow> exn + OnchainTxOutcome) \<Rightarrow> ((nat \<Rightarrow> exn + OnchainTxOutcome) \<Rightarrow> ('db, 'act, OnchainTxOutcome) worker) \<Rightarrow>
     bool \<Rightarrow> string list \<Rightarrow> ('db, 'act, OnchainTxOutcome \<times> string option) worker" where
  "outcome_from outcomeOf asking seen [] = ret (if seen then Tx_mempool else Tx_unknown, None)"
| "outcome_from outcomeOf asking seen (txid # txids) =
     bnd (asking (\<lambda>n. outcomeOf n txid)) (\<lambda>outcome.
     if outcome = Tx_confirmed then ret (Tx_confirmed, Some txid)
     else outcome_from outcomeOf asking (seen \<or> outcome = Tx_mempool) txids)"

definition outcomeOfAny ::
    "(nat \<Rightarrow> string \<Rightarrow> exn + OnchainTxOutcome) \<Rightarrow> ((nat \<Rightarrow> exn + OnchainTxOutcome) \<Rightarrow> ('db, 'act, OnchainTxOutcome) worker) \<Rightarrow>
     string list \<Rightarrow> ('db, 'act, OnchainTxOutcome \<times> string option) worker" where
  "outcomeOfAny outcomeOf asking txids = outcome_from outcomeOf asking False txids"

lemma keeps_outcomeOfAny:
  "(\<And>f. keeps I (asking f)) \<Longrightarrow> keeps I (outcomeOfAny outcomeOf asking txids)"
proof -
  assume a: "\<And>f. keeps I (asking f)"
  have "keeps I (outcome_from outcomeOf asking seen txids)" for seen
    by (induction txids arbitrary: seen) (auto intro!: keep a)
  then show ?thesis by (simp add: outcomeOfAny_def)
qed

section \<open>How a bid grows\<close>

definition estimate_of :: "real \<Rightarrow> real" where
  "estimate_of e = max e MIN_RELAY_FEE_RATE"

lemma estimate_ge_1: "1 \<le> estimate_of e"
  by (simp add: estimate_of_def MIN_RELAY_FEE_RATE_def)

text \<open>The ramp between the estimate and the cap, as a function of how much of it has passed.\<close>

definition ramp :: "real \<Rightarrow> real \<Rightarrow> real \<Rightarrow> real" where
  "ramp estimate cap progress = estimate * (cap / estimate) powr progress"

lemma ramp_mono:
  assumes "1 \<le> e" "e \<le> cap" "p \<le> q"
  shows "ramp e cap p \<le> ramp e cap q"
  using assms by (auto simp: ramp_def intro!: mult_left_mono powr_mono)

lemma ramp_ends: "1 \<le> e \<Longrightarrow> e \<le> cap \<Longrightarrow> ramp e cap 0 = e \<and> ramp e cap 1 = cap"
  by (simp add: ramp_def)

lemma ramp_between: "1 \<le> e \<Longrightarrow> e \<le> cap \<Longrightarrow> 0 \<le> p \<Longrightarrow> p \<le> 1 \<Longrightarrow> e \<le> ramp e cap p \<and> ramp e cap p \<le> cap"
  using ramp_mono [of e cap 0 p] ramp_mono [of e cap p 1] ramp_ends [of e cap] by simp

lemma urgencyFeeRate_ramp:
  "urgencyFeeRate e cap deadline tm =
     (if cap \<le> estimate_of e \<or> deadline - tm \<le> 2400 then cap
      else if 7200 \<le> deadline - tm then estimate_of e
      else ramp (estimate_of e) cap (real_of_int (7200 - (deadline - tm)) / 4800))"
  by (simp add: urgencyFeeRate_def ramp_def estimate_of_def Let_def policy)

lemma urgencyFeeRate_bounds:
  "min (estimate_of e) cap \<le> urgencyFeeRate e cap deadline tm \<and> urgencyFeeRate e cap deadline tm \<le> cap"
proof (cases "cap \<le> estimate_of e \<or> deadline - tm \<le> 2400 \<or> 7200 \<le> deadline - tm")
  case True
  then show ?thesis by (auto simp: urgencyFeeRate_ramp)
next
  case False
  then show ?thesis
    using ramp_between [of "estimate_of e" cap "real_of_int (7200 - (deadline - tm)) / 4800"] estimate_ge_1 [of e]
    by (auto simp: urgencyFeeRate_ramp)
qed

lemma urgencyFeeRate_mono:
  assumes "tm \<le> tm'"
  shows "urgencyFeeRate e cap deadline tm \<le> urgencyFeeRate e cap deadline tm'"
proof (cases "cap \<le> estimate_of e \<or> deadline - tm \<le> 2400 \<or> deadline - tm' \<le> 2400 \<or> 7200 \<le> deadline - tm")
  case True
  then show ?thesis using assms urgencyFeeRate_bounds [of e cap deadline tm] urgencyFeeRate_bounds [of e cap deadline tm']
    by (auto simp: urgencyFeeRate_ramp [of e cap deadline tm] urgencyFeeRate_ramp [of e cap deadline tm'] split: if_splits)
next
  case False
  then show ?thesis
    using assms ramp_mono [of "estimate_of e" cap "real_of_int (7200 - (deadline - tm)) / 4800"
        "real_of_int (7200 - (deadline - tm')) / 4800"] estimate_ge_1 [of e]
    by (auto simp: urgencyFeeRate_ramp divide_right_mono)
qed

text \<open>The fee the refund of an HTLC of \<open>payout\<close> sats pays at a moment, when it can pay one at all.\<close>

definition refund_fee :: "real \<Rightarrow> int \<Rightarrow> int \<Rightarrow> int \<Rightarrow> int \<Rightarrow> int \<Rightarrow> int option" where
  "refund_fee estimate vsize payout dust deadline tm =
     affordableFee vsize (urgencyFeeRate estimate (real_of_int (payout - dust) / real_of_int vsize) deadline tm) payout dust"

lemma ceiling_cap: "0 < vsize \<Longrightarrow> \<lceil>real_of_int vsize * (real_of_int c / real_of_int vsize)\<rceil> = c"
  by simp

lemma affordableFee_mono:
  assumes "0 < vsize" and "rate \<le> rate'" and "affordableFee vsize rate v dust = Some f"
  shows "\<exists>f'. affordableFee vsize rate' v dust = Some f' \<and> f \<le> f'"
proof -
  have "\<lceil>real_of_int vsize * rate\<rceil> \<le> \<lceil>real_of_int vsize * rate'\<rceil>"
    using assms(1,2) by (intro ceiling_mono mult_left_mono) simp_all
  then show ?thesis using assms(3) by (auto simp: affordableFee_def Let_def split: if_splits)
qed

text \<open>
  C34: the refund of an HTLC bids at least the relay minimum, never so much that less than the dust limit is
  left, bids no less as the deadline comes closer, and from the last two bump intervals on bids everything
  above the dust limit.
\<close>

theorem refund_fee_ramps:
  assumes "0 < vsize" and "refund_fee estimate vsize payout dust deadline tm = Some fee" and "tm \<le> tm'"
  shows "vsize \<le> fee \<and> dust \<le> payout - fee \<and>
    (\<exists>fee'. refund_fee estimate vsize payout dust deadline tm' = Some fee' \<and> fee \<le> fee' \<and>
      (deadline - tm' \<le> FEE_BUMP_ALL_IN_SECONDS \<longrightarrow> fee' = payout - dust))"
proof (intro conjI)
  let ?cap = "real_of_int (payout - dust) / real_of_int vsize"
  let ?rate = "\<lambda>t. urgencyFeeRate estimate ?cap deadline t"
  have room: "vsize \<le> payout - dust" and fee: "fee = min \<lceil>real_of_int vsize * ?rate tm\<rceil> (payout - dust)"
    using assms(2) by (auto simp: refund_fee_def affordableFee_def MIN_RELAY_FEE_RATE_def Let_def split: if_splits)
  have "1 \<le> ?cap" using room assms(1) by (simp add: le_divide_eq)
  then have "1 \<le> ?rate tm" using urgencyFeeRate_bounds [of estimate ?cap deadline tm] estimate_ge_1 [of estimate] by linarith
  then have "real_of_int vsize \<le> real_of_int vsize * ?rate tm" using assms(1) by simp
  then show "vsize \<le> fee" unfolding fee using room by linarith
  show "dust \<le> payout - fee" unfolding fee by simp
  obtain fee' where fee': "refund_fee estimate vsize payout dust deadline tm' = Some fee'" "fee \<le> fee'"
    using affordableFee_mono [OF assms(1) urgencyFeeRate_mono [OF assms(3)]] assms(2) unfolding refund_fee_def by metis
  moreover have "fee' = payout - dust" if "deadline - tm' \<le> FEE_BUMP_ALL_IN_SECONDS"
  proof -
    have "?rate tm' = ?cap" using that by (simp add: urgencyFeeRate_def Let_def)
    then show ?thesis
      using fee'(1) ceiling_cap [OF assms(1), of "payout - dust"]
      by (simp add: refund_fee_def affordableFee_def Let_def split: if_splits)
  qed
  ultimately show "\<exists>fee'. refund_fee estimate vsize payout dust deadline tm' = Some fee' \<and> fee \<le> fee' \<and>
      (deadline - tm' \<le> FEE_BUMP_ALL_IN_SECONDS \<longrightarrow> fee' = payout - dust)" by blast
qed

theorem refund_fee_ramps_witness:
  "refund_fee 5 150 100000 330 1000000 900000 = Some 750 \<and>
   (\<exists>fee'. refund_fee 5 150 100000 330 1000000 999000 = Some fee' \<and> fee' = 99670)"
proof -
  have now1: "refund_fee 5 150 100000 330 1000000 900000 = Some 750"
    by (simp add: refund_fee_def urgencyFeeRate_def affordableFee_def MIN_RELAY_FEE_RATE_def Let_def policy)
  show ?thesis using refund_fee_ramps [OF _ now1, of 999000] now1 by (simp add: policy)
qed

end
