(* ===== verification/Onchain_Orchestrator.thy ===== *)
theory Onchain_Orchestrator
  imports Onchain_Store Fee_Bump Unrolled_Claims Sweeps Pricing
begin

text \<open>
  \<^verbatim>\<open>solver-corridors/src/send/onchainOrchestrator.ts\<close>: the driver of the \<open>arkade:BTC->onchain:BTC\<close> leg,
  handler by handler, with the methods \<^verbatim>\<open>db/onchainSwaps.ts\<close> adds to the base store. The Bitcoin backend, the
  Arkade wallet, the signer and the approval gate are fields of \<open>OnchainSendServiceDeps\<close>: functions from the
  position in the schedule to an answer or an error. Bitcoin transactions and HTLC scripts are built and parsed by
  third-party packages; what the code reads off them are fields too. Alerts (\<open>onTickError\<close>) are left out.
\<close>

section \<open>Ports\<close>

type_synonym onchain_schedule = "(onchain_db, onchain_act) schedule"
type_synonym 'a onchain_job = "(OnchainSendSwapState, onchain_col, onchain_act, 'a) job"

text \<open>
  \<open>odParseTx\<close> is \<open>Transaction.fromRaw\<close> on a hex string: the transaction's id and, for each output, its script in
  hex, when it has one, and its amount. \<open>odRebuiltPkScript\<close> is the script of the HTLC rebuilt from the row,
  \<open>odRefundVsize\<close> the size of the transaction that refunds it and \<open>odSignRefund\<close> that transaction at a given
  amount, signed: its id and its bytes.
\<close>

record OnchainSendServiceDeps =
  odSchedule :: onchain_schedule
  odHexDecode :: "string \<Rightarrow> nat list option"
  odHexEncode :: "nat list \<Rightarrow> string"
  odSha256Hex :: "nat list \<Rightarrow> string"
  odParseTx :: "string \<Rightarrow> exn + string \<times> (string option \<times> int) list"
  odRebuiltPkScript :: "OnchainSendSwapRow \<Rightarrow> exn + string"
  odRefundVsize :: "OnchainSendSwapRow \<Rightarrow> exn + int"
  odSignRefund :: "nat \<Rightarrow> OnchainSendSwapRow \<Rightarrow> int \<Rightarrow> exn + string \<times> string"
  odRecourse :: "OnchainSendSwapRow \<Rightarrow> string"
  odProviderPubkey :: string
  odNetwork :: SwapNetwork
  odFindLockups :: "nat \<Rightarrow> string \<Rightarrow> exn + FundedOutput list"
  odSpendEvidence :: "nat \<Rightarrow> string \<Rightarrow> exn + LockupSpendEvidence"
  odFindSweptLockups :: "(nat \<Rightarrow> string \<Rightarrow> exn + FundedOutput list) option"
  odRefundSwept :: "(nat \<Rightarrow> exn + string) option"
  odRefund :: "nat \<Rightarrow> exn + string"
  odClaim :: "nat \<Rightarrow> exn + string"
  odFinalizePendingClaim :: "(nat \<Rightarrow> exn + string option) option"
  odLockupOutpoints :: "(nat \<Rightarrow> string \<Rightarrow> exn + LockupOutpoint list) option"
  odFindClaimPreimage :: "(nat \<Rightarrow> LockupOutpoint list \<Rightarrow> string \<Rightarrow> exn + string option) option"
  odClaimUnrolled :: "(nat \<Rightarrow> string \<times> int \<Rightarrow> string option \<Rightarrow> string list \<times> (exn + unrolled_step)) option"
  odFindOutputs :: "nat \<Rightarrow> string \<Rightarrow> exn + (string \<times> int \<times> int) list"
  odEstimateFeeRate :: "nat \<Rightarrow> exn + real"
  odSignFunding :: "nat \<Rightarrow> string \<Rightarrow> int \<Rightarrow> int \<Rightarrow> exn + string"
  odTransactionOutcome :: "nat \<Rightarrow> string \<Rightarrow> exn + OnchainTxOutcome"
  odBroadcastRaw :: "nat \<Rightarrow> exn + unit"
  odFindSpendWitness :: "nat \<Rightarrow> string \<times> int \<Rightarrow> string \<Rightarrow> exn + nat list list option"
  odApprovalGate :: "(nat \<Rightarrow> string \<Rightarrow> int \<Rightarrow> exn + bool) option"

text \<open>The output of a transaction that pays a script a value: the index of the only one, or an error.\<close>

definition paying_vouts :: "(string option \<times> int) list \<Rightarrow> string \<Rightarrow> int \<Rightarrow> nat list" where
  "paying_vouts outs script sats = filter (\<lambda>i. outs ! i = (Some script, sats)) [0..<length outs]"

definition fundingOutput :: "OnchainSendServiceDeps \<Rightarrow> string \<Rightarrow> string \<Rightarrow> int \<Rightarrow> exn + string \<times> int" where
  "fundingOutput dp tx script sats = (case odParseTx dp tx of
     Inl e \<Rightarrow> Inl e
   | Inr (txid, outs) \<Rightarrow> (case paying_vouts outs script sats of
         [v] \<Rightarrow> Inr (txid, int v)
       | vouts \<Rightarrow> Inl (Thrown (''recorded funding '' @ txid @ '' pays this HTLC '' @ show_int (int (length vouts)) @ '' times''))))"

definition fundingOutputOf :: "OnchainSendServiceDeps \<Rightarrow> string \<Rightarrow> OnchainSendSwapRow \<Rightarrow> exn + string \<times> int" where
  "fundingOutputOf dp tx row = fundingOutput dp tx (onOnchainPkScript row) (onPayoutSats row)"

definition opays :: "OnchainSendServiceDeps \<Rightarrow> string \<Rightarrow> string \<Rightarrow> int \<Rightarrow> bool" where
  "opays dp tx script sats \<longleftrightarrow> (case fundingOutput dp tx script sats of Inl _ \<Rightarrow> False | Inr _ \<Rightarrow> True)"

abbreviation oopens :: "OnchainSendServiceDeps \<Rightarrow> string \<Rightarrow> string \<Rightarrow> bool" where
  "oopens dp \<equiv> preimageMatchesHash (odHexDecode dp) (odSha256Hex dp)"

abbreviation oexec :: "OnchainSendServiceDeps \<Rightarrow> onchain_act \<Rightarrow> onchain_db \<Rightarrow> onchain_db option" where
  "oexec dp \<equiv> exec_onchain (oopens dp) (opays dp)"

abbreviation ostore :: "OnchainSendServiceDeps \<Rightarrow> (OnchainSendSwapState, onchain_col, onchain_act) store" where
  "ostore dp \<equiv> \<lparr>soShape = ONCHAIN_SHAPE, soExec = oexec dp, soAct = OSt, soSchedule = odSchedule dp\<rparr>"

abbreviation ocall :: "OnchainSendServiceDeps \<Rightarrow> (nat \<Rightarrow> exn + 'a) \<Rightarrow> 'a onchain_job" where
  "ocall dp f \<equiv> ask (oexec dp) (odSchedule dp) f"

abbreviation oact :: "OnchainSendServiceDeps \<Rightarrow> onchain_act \<Rightarrow> (nat \<Rightarrow> exn + 'a) \<Rightarrow> 'a onchain_job" where
  "oact dp a f \<equiv> perform (oexec dp) (odSchedule dp) a f"

abbreviation oclock :: "OnchainSendServiceDeps \<Rightarrow> int onchain_job" where
  "oclock dp \<equiv> now (odSchedule dp)"

abbreviation omove :: "OnchainSendServiceDeps \<Rightarrow> string \<Rightarrow> OnchainSendSwapState \<Rightarrow> OnchainSendSwapState \<Rightarrow> onchain_col fields \<Rightarrow> bool onchain_job" where
  "omove dp \<equiv> transition (ostore dp)"

abbreviation ofail :: "OnchainSendServiceDeps \<Rightarrow> string \<Rightarrow> OnchainSendSwapState \<Rightarrow> string \<Rightarrow> unit onchain_job" where
  "ofail dp \<equiv> failRow (ostore dp)"

section \<open>The store's own methods\<close>

definition FUND_LEASE_TTL_SECONDS :: int where "FUND_LEASE_TTL_SECONDS = 10 * 60"

definition insertQuote :: "OnchainSendServiceDeps \<Rightarrow> OnchainQuoteRecord \<Rightarrow> OnchainSendSwapRow onchain_job" where
  "insertQuote dp quote =
     bnd (oclock dp) (\<lambda>tm.
     let r = onchain_quote_row quote tm in
     bnd (write_db (oexec dp) (odSchedule dp) (\<lambda>d.
       if findLiveByPaymentHash ONCHAIN_SHAPE (oqPaymentHash quote) d \<noteq> None then ([], Inl (UniqueConstraint ''payment_hash''), d)
       else if oqId quote \<in> rwId ` set (dbRows d) then ([], Inl (UniqueConstraint ''UNIQUE constraint failed: send_onchain_swap.id''), d)
       else ([OSt (Insert r)], Inr (), d\<lparr>dbRows := dbRows d @ [r]\<rparr>))) (\<lambda>res.
     case res of
       Inl e \<Rightarrow> throw e
     | Inr _ \<Rightarrow>
         thn (recordEvent (ostore dp) (oqId quote) None O_quoted None)
         (bnd (getRow (ostore dp) (oqId quote)) (\<lambda>raw. ret (onchain_toRow raw)))))"

definition get_onchain :: "OnchainSendServiceDeps \<Rightarrow> string \<Rightarrow> OnchainSendSwapRow onchain_job" where
  "get_onchain dp i = bnd (getRow (ostore dp) i) (\<lambda>raw. ret (onchain_toRow raw))"

definition claimLease :: "OnchainSendServiceDeps \<Rightarrow> string \<Rightarrow> OnchainSendSwapState \<Rightarrow> bool onchain_job" where
  "claimLease dp i s = bnd (oclock dp) (\<lambda>tm. claimFundLease (ostore dp) i s (Some (tm - FUND_LEASE_TTL_SECONDS)))"

definition refuseUnrecorded :: "OnchainSendServiceDeps \<Rightarrow> string \<Rightarrow> string \<Rightarrow> bool onchain_job" where
  "refuseUnrecorded dp i reason =
     transitionWhere (ostore dp) i O_funding_onchain O_refused [(N_failure_reason, SText reason)]
       (\<lambda>r. rwCols r N_funding_tx = SNull)"

definition recordFundingTx :: "OnchainSendServiceDeps \<Rightarrow> string \<Rightarrow> string \<Rightarrow> bool onchain_job" where
  "recordFundingTx dp i tx =
     bnd (oclock dp) (\<lambda>tm.
     bnd (logged_write (ostore dp) (Once i O_funding_onchain (SText tx) tm)
       (once_row ONCHAIN_SHAPE i O_funding_onchain (SText tx) tm)) (\<lambda>changes.
     ret (changes = 1)))"

definition enterFunding :: "OnchainSendServiceDeps \<Rightarrow> string \<Rightarrow> bool onchain_job" where
  "enterFunding dp i = bnd (oclock dp) (\<lambda>tm. omove dp i O_funded O_funding_onchain [(N_fund_started_at, SInt tm)])"

section \<open>Reading the chain\<close>

definition UNKNOWN_LOCKUP_RECHECK_SECONDS :: int where "UNKNOWN_LOCKUP_RECHECK_SECONDS = 3600"
definition ONCHAIN_DUST_SATS :: int where "ONCHAIN_DUST_SATS = 330"
definition KEY_ROTATED :: string where
  "KEY_ROTATED = ''provider key rotated since quote; refusing to fund an unclaimable lockup''"

text \<open>\<open>!row.fundingTxid || row.fundingVout === null\<close> negated: the output the solver funded.\<close>

definition funded_outpoint :: "OnchainSendSwapRow \<Rightarrow> (string \<times> int) option" where
  "funded_outpoint row = (case (truthy (onFundingTxid row), onFundingVout row) of
     (Some t, Some v) \<Rightarrow> Some (t, v) | _ \<Rightarrow> None)"

definition preimageFromClaimWitness :: "nat list list \<Rightarrow> nat list option" where
  "preimageFromClaimWitness witness = (if length witness \<ge> 2 then Some (witness ! 1) else None)"

text \<open>The witness that spent the HTLC, and the preimage of the swap's own hash if it shows one.\<close>

definition find_spend :: "OnchainSendServiceDeps \<Rightarrow> OnchainSendSwapRow \<Rightarrow> string \<times> int \<Rightarrow> nat list list option onchain_job" where
  "find_spend dp row out = ocall dp (\<lambda>n. odFindSpendWitness dp n out (onOnchainPkScript row))"

definition matching_preimage :: "OnchainSendServiceDeps \<Rightarrow> OnchainSendSwapRow \<Rightarrow> nat list list \<Rightarrow> nat list option" where
  "matching_preimage dp row witness = (case preimageFromClaimWitness witness of
     None \<Rightarrow> None
   | Some p \<Rightarrow> if odSha256Hex dp p = onPaymentHash row then Some p else None)"

definition trackedRefundTxids :: "OnchainSendSwapRow \<Rightarrow> string list" where
  "trackedRefundTxids row = (case onOnchainRefundTxid row of
     None \<Rightarrow> onOnchainRefundPriorTxids row | Some t \<Rightarrow> t # onOnchainRefundPriorTxids row)"

definition tracked_outcome :: "OnchainSendServiceDeps \<Rightarrow> string list \<Rightarrow> (OnchainTxOutcome \<times> string option) onchain_job" where
  "tracked_outcome dp txids = outcomeOfAny (odTransactionOutcome dp) (\<lambda>f. ocall dp f) txids"

definition askApproval :: "OnchainSendServiceDeps \<Rightarrow> string \<Rightarrow> int \<Rightarrow> bool onchain_job" where
  "askApproval dp swapId amountSats = (case odApprovalGate dp of
     None \<Rightarrow> ret True | Some gate \<Rightarrow> ocall dp (\<lambda>n. gate n swapId amountSats))"

section \<open>Giving the lockup back\<close>

definition unrefundableReason :: "LockupSpendEvidence \<Rightarrow> OnchainSendSwapRow \<Rightarrow> int \<Rightarrow> string" where
  "unrefundableReason evidence row tm =
     (if evidence = Ev_unknown
      then ''the unfiltered view reports no output at this lockup script, so no spend is provable and nothing is there to give back'' @ dash @
        ''an unfunded quote stays this way and is rechecked hourly; a funded one needs a human''
      else let stale = tm - onRefundLocktime row in
        if stale > DEFAULT_ONCHAIN_LOCKUP_TIMEOUT
        then ''the spendable view is empty; the unfiltered view still reports an unspent output, '' @ show_int stale @
          ''s past the refund locktime'' @ dash @ ''too long to be one view catching up, and it needs a human''
        else ''the spendable view is empty; the unfiltered view still reports an unspent output'' @ dash @
          ''the spendable view is behind, so this retries'')"

text \<open>
  \<open>give\<close> is how the return is written in the log: by the sweep or by an operator. The result is the
  transaction that returned the lockup, if this call did.
\<close>

definition pushRefund :: "OnchainSendServiceDeps \<Rightarrow> (string \<Rightarrow> onchain_act) \<Rightarrow> bool \<Rightarrow> OnchainSendSwapRow \<Rightarrow> string option onchain_job" where
  "pushRefund dp give sweptToo row =
     bnd (ocall dp (\<lambda>n. odFindLockups dp n (onPkScript row))) (\<lambda>outputs.
     if outputs = [] then
       bnd (case odFindSweptLockups dp of
              Some f \<Rightarrow> if sweptToo then ocall dp (\<lambda>n. f n (onPkScript row)) else ret []
            | None \<Rightarrow> ret []) (\<lambda>swept.
       case (swept, odRefundSwept dp) of
         (_ # _, Some refundSwept) \<Rightarrow>
           bnd (oact dp (give (onId row)) refundSwept) (\<lambda>txid.
           thn (patch (ostore dp) (onId row) [(N_refund_outcome, SText ''pushed''), (N_refund_ark_txid, SText txid)])
           (ret (Some txid)))
       | _ \<Rightarrow>
           bnd (ocall dp (\<lambda>n. odSpendEvidence dp n (onPkScript row))) (\<lambda>evidence.
           if evidence \<noteq> Ev_spent then
             bnd (oclock dp) (\<lambda>tm.
             let why = ''swap '' @ onId row @ '': '' @ unrefundableReason evidence row tm in
             throw (if evidence = Ev_unknown then UnknownLockup why else Thrown why))
           else thn (patch (ostore dp) (onId row) [(N_refund_outcome, SText ''external'')]) (ret None)))
     else
       bnd (oact dp (give (onId row)) (odRefund dp)) (\<lambda>txid.
       bnd (oclock dp) (\<lambda>tm.
       let all = (length (boundedSpendInputs outputs tm) = length outputs) in
       thn (patch (ostore dp) (onId row)
         ((if all then [(N_refund_outcome, SText ''pushed'')] else []) @ [(N_refund_ark_txid, SText txid)]))
       (ret (Some txid)))))"

definition onchainRefundIsFinal :: "OnchainSendServiceDeps \<Rightarrow> OnchainSendSwapRow \<Rightarrow> bool onchain_job" where
  "onchainRefundIsFinal dp row = (case funded_outpoint row of
     None \<Rightarrow> ret False
   | Some out \<Rightarrow>
       bnd (find_spend dp row out) (\<lambda>witness.
       case witness of
         None \<Rightarrow> ret False
       | Some w \<Rightarrow> (case matching_preimage dp row w of
             Some p \<Rightarrow> throw (Thrown (''swap '' @ onId row @
               '': the onchain HTLC this row refunded now reads as claimed, preimage '' @ odHexEncode dp p @ dash @
               ''claim the arkade lockup with it instead of releasing it to the client''))
           | None \<Rightarrow> ret True)))"

text \<open>
  The sweep over refused and refunded rows. \<open>parked\<close> is the service's map of lockups nothing is known of,
  with the time until which they are not asked about again; it is returned updated.
\<close>

type_synonym parked = "(string \<times> int) list"

definition sweep_one :: "OnchainSendServiceDeps \<Rightarrow> OnchainSendSwapRow \<Rightarrow> (bool \<times> int option) onchain_job" where
  "sweep_one dp row =
     catch
       (bnd (if onState row = O_refunded then onchainRefundIsFinal dp row else ret True) (\<lambda>final.
        if \<not> final then ret (False, None)
        else bnd (pushRefund dp ReturnLockup False row) (\<lambda>txid. ret (truthy txid \<noteq> None, None))))
       (\<lambda>e. case e of
          UnknownLockup _ \<Rightarrow> bnd (oclock dp) (\<lambda>tm. ret (False, Some (tm + UNKNOWN_LOCKUP_RECHECK_SECONDS)))
        | _ \<Rightarrow> ret (False, None))"

fun sweep_each :: "OnchainSendServiceDeps \<Rightarrow> OnchainSendSwapRow list \<Rightarrow> parked \<Rightarrow> (string list \<times> parked) onchain_job" where
  "sweep_each dp [] parked = ret ([], parked)"
| "sweep_each dp (row # rows) parked =
     bnd (case map_of parked (onId row) of
            None \<Rightarrow> ret False | Some until \<Rightarrow> bnd (oclock dp) (\<lambda>tm. ret (until > tm))) (\<lambda>skip.
     if skip then sweep_each dp rows parked
     else let rest = filter (\<lambda>p. fst p \<noteq> onId row) parked in
       bnd (sweep_one dp row) (\<lambda>(pushed, until).
       bnd (sweep_each dp rows (rest @ (case until of None \<Rightarrow> [] | Some u \<Rightarrow> [(onId row, u)]))) (\<lambda>(ids, parked').
       ret (if pushed then onId row # ids else ids, parked'))))"

definition refundSweep :: "OnchainSendServiceDeps \<Rightarrow> parked \<Rightarrow> (string list \<times> parked) onchain_job" where
  "refundSweep dp parked =
     bnd (oclock dp) (\<lambda>tm.
     bnd (read_db (oexec dp) (odSchedule dp) (\<lambda>d. Inr (map onchain_toRow (findRefundable tm d)))) (\<lambda>refundable.
     bnd (read_db (oexec dp) (odSchedule dp) (\<lambda>d. Inr (map onchain_toRow (findReleasable tm d)))) (\<lambda>releasable.
     let rows = refundable @ releasable in
     sweep_each dp rows (filter (\<lambda>p. fst p \<in> onId ` set rows) parked))))"

text \<open>\<open>refundSweptLockupFor\<close> of \<^verbatim>\<open>sweptLockupRefund.ts\<close> on this store: without \<open>decide\<close> only a refused row is refunded.\<close>

datatype SweptLockupRefund = Swept_held string OnchainSendSwapState | Swept_refunded string string bool

definition refundSweptLockup :: "OnchainSendServiceDeps \<Rightarrow> string \<Rightarrow> SweptLockupRefund option onchain_job" where
  "refundSweptLockup dp pkScript = (case (odFindSweptLockups dp, odRefundSwept dp) of
     (Some findSwept, Some refundSwept) \<Rightarrow>
       bnd (read_db (oexec dp) (odSchedule dp) (\<lambda>d. Inr (map_option onchain_toRow (findByPkScript ONCHAIN_SHAPE pkScript d)))) (\<lambda>found.
       case found of
         None \<Rightarrow> ret None
       | Some row \<Rightarrow>
           bnd (ocall dp (\<lambda>n. findSwept n pkScript)) (\<lambda>swept.
           if swept = [] then ret None
           else if onState row \<noteq> O_refused then ret (Some (Swept_held (onId row) (onState row)))
           else
             bnd (oact dp (ReturnLockup (onId row)) refundSwept) (\<lambda>txid.
             let recorded = (onRefundOutcome row = None) in
             thn (only_if recorded (patch (ostore dp) (onId row)
               ((N_refund_outcome, SText ''pushed'') # (if txid = [] then [] else [(N_refund_ark_txid, SText txid)]))))
             (ret (Some (Swept_refunded (onId row) txid recorded))))))
   | _ \<Rightarrow> ret None)"

section \<open>Taking the HTLC back\<close>

datatype OnchainHtlcRefundAttempt = Broadcast_done string | Broadcast_not string bool

definition pushOnchainHtlcRefund ::
    "OnchainSendServiceDeps \<Rightarrow> OnchainSendSwapRow \<Rightarrow> real \<Rightarrow> real option \<Rightarrow> OnchainHtlcRefundAttempt onchain_job" where
  "pushOnchainHtlcRefund dp row estimate previousFeeRate =
     bnd (from_result (odRebuiltPkScript dp row)) (\<lambda>rebuilt.
     if rebuilt \<noteq> onOnchainPkScript row
     then ret (Broadcast_not ''onchain HTLC rebuilt from row does not match the funded pkScript'' False)
     else
       bnd (from_result (odRefundVsize dp row)) (\<lambda>vsize.
       bnd (oclock dp) (\<lambda>tm.
       let payout = onPayoutSats row;
           capRate = real_of_int (payout - ONCHAIN_DUST_SATS) / real_of_int vsize;
           feeRate = urgencyFeeRate estimate capRate (onchainRefundConfirmDeadline (onRefundLocktime row)) tm in
       case affordableFee vsize feeRate payout ONCHAIN_DUST_SATS of
         None \<Rightarrow> ret (Broadcast_not (''a '' @ show_int payout @ '' sat HTLC cannot pay for its own '' @ show_int vsize @
           '' vB refund and still clear the '' @ show_int ONCHAIN_DUST_SATS @ '' sat dust limit'') True)
       | Some fee \<Rightarrow>
           let previous = (case previousFeeRate of
                 None \<Rightarrow> None | Some r \<Rightarrow> affordableFee vsize r payout ONCHAIN_DUST_SATS);
               stands = (case previous of None \<Rightarrow> False | Some p \<Rightarrow> fee - p < vsize) in
           if stands
           then ret (Broadcast_not (''refund at '' @ show_int (the previous) @ '' sats stands: '' @ show_int fee @
             '' is all the time left calls for, under the '' @ show_int vsize @ '' sat relay increment above it'') True)
           else
             bnd (ocall dp (\<lambda>n. odSignRefund dp n row (payout - fee))) (\<lambda>(txid, raw).
             bnd (oclock dp) (\<lambda>tm2.
             thn (patch (ostore dp) (onId row)
               [(N_onchain_refund_txid, SText txid),
                (N_onchain_refund_prior_txids, SText (join_with '' ''
                  (filter (\<lambda>t. t \<noteq> txid) (rev (remdups (rev (trackedRefundTxids row))))))),
                (N_onchain_refund_fee_rate, SReal feeRate), (N_onchain_refund_broadcast_at, SInt tm2)])
             (thn (oact dp (BroadcastRefund (onId row) txid) (odBroadcastRaw dp))
             (ret (Broadcast_done txid))))))))"

definition replaceOnchainHtlcRefund :: "OnchainSendServiceDeps \<Rightarrow> OnchainSendSwapRow \<Rightarrow> string option onchain_job" where
  "replaceOnchainHtlcRefund dp row =
     (let broadcastAt = (case onOnchainRefundBroadcastAt row of Some t \<Rightarrow> t | None \<Rightarrow> onUpdatedAt row) in
      bnd (oclock dp) (\<lambda>tm.
      if \<not> bumpDue broadcastAt tm then ret None
      else
        bnd (ocall dp (odEstimateFeeRate dp)) (\<lambda>estimate.
        bnd (pushOnchainHtlcRefund dp row estimate
          (Some (case onOnchainRefundFeeRate row of Some r \<Rightarrow> r | None \<Rightarrow> estimate))) (\<lambda>attempt.
        ret (case attempt of Broadcast_done txid \<Rightarrow> Some txid | Broadcast_not _ _ \<Rightarrow> None)))))"

definition whenRefundingOnchain :: "OnchainSendServiceDeps \<Rightarrow> OnchainSendSwapRow \<Rightarrow> bool onchain_job" where
  "whenRefundingOnchain dp row = (case funded_outpoint row of
     None \<Rightarrow> thn (ofail dp (onId row) O_refunding_onchain ''refunding_onchain state with no funding txid/vout'') (ret False)
   | Some out \<Rightarrow>
       bnd (if trackedRefundTxids row = [] then ret (Tx_unknown, None) else tracked_outcome dp (trackedRefundTxids row)) (\<lambda>(outcome, txid).
       if outcome = Tx_confirmed
       then omove dp (onId row) O_refunding_onchain O_refunded [(N_onchain_refund_txid, opt_text txid)]
       else if outcome = Tx_mempool
       then thn (replaceOnchainHtlcRefund dp row) (ret False)
       else
         bnd (find_spend dp row out) (\<lambda>claimWitness.
         case claimWitness of
           Some w \<Rightarrow> (case matching_preimage dp row w of
               Some p \<Rightarrow> omove dp (onId row) O_refunding_onchain O_claiming [(N_preimage, SText (odHexEncode dp p))]
             | None \<Rightarrow> thn (ofail dp (onId row) O_refunding_onchain
                 ''onchain HTLC spent by something other than a matching claim'') (ret False))
         | None \<Rightarrow>
             bnd (ocall dp (odEstimateFeeRate dp)) (\<lambda>estimate.
             bnd (pushOnchainHtlcRefund dp row estimate None) (\<lambda>attempt.
             case attempt of
               Broadcast_done _ \<Rightarrow> ret False
             | Broadcast_not reason retry \<Rightarrow>
                 bnd (if retry then bnd (oclock dp) (\<lambda>tm. ret (tm < onRefundLocktime row)) else ret False) (\<lambda>again.
                 if again then throw (Thrown reason)
                 else thn (ofail dp (onId row) O_refunding_onchain reason) (ret False)))))))"

section \<open>Funding the HTLC\<close>

fun funding_refusal_text :: "OnchainSendSwapRow \<Rightarrow> OnchainSendFundingRefusal \<Rightarrow> string" where
  "funding_refusal_text row Of_refund_window_closing = ''refused to fund: refund window closing''"
| "funding_refusal_text row (Of_inside_claim_window left) =
     ''refused to fund: '' @ show_int left @ ''s to htlc_locktime '' @ show_int (onHtlcLocktime row) @ '' is inside the '' @
     show_int (onMinConfirmations row * ONCHAIN_SECONDS_PER_BLOCK + ONCHAIN_CLAIM_MARGIN_SECONDS) @ ''s a '' @
     show_int (onMinConfirmations row) @ ''-confirmation claim needs'' @ dash @
     ''the arkade lockup of the client is untouched and refunds at '' @ show_int (onRefundLocktime row)"

definition fundingDecision :: "OnchainSendServiceDeps \<Rightarrow> OnchainSendSwapRow \<Rightarrow> string option onchain_job" where
  "fundingDecision dp row =
     bnd (oclock dp) (\<lambda>tm.
     ret (case evaluateOnchainSendFunding (onRefundLocktime row) (onHtlcLocktime row) (onMinConfirmations row) tm of
       Inl reason \<Rightarrow> Some (funding_refusal_text row reason) | Inr _ \<Rightarrow> None))"

definition lockupShortfall :: "OnchainSendServiceDeps \<Rightarrow> OnchainSendSwapRow \<Rightarrow> string option onchain_job" where
  "lockupShortfall dp row =
     bnd (ocall dp (\<lambda>n. odFindLockups dp n (onPkScript row))) (\<lambda>outputs.
     let held = totalValue outputs;
         funded = (case onOnchainLockupValue row of Some v \<Rightarrow> v | None \<Rightarrow> onAmountSats row) in
     ret (if held < funded
       then Some (''lockup holds '' @ show_int held @ '' of '' @ show_int funded @ '' sats at funding: unrolled, swept or spent'')
       else None))"

definition fundingRefusal :: "OnchainSendServiceDeps \<Rightarrow> OnchainSendSwapRow \<Rightarrow> string option onchain_job" where
  "fundingRefusal dp row =
     (if \<not> providerKeyCurrent (onProviderPubkey row) (odProviderPubkey dp) then ret (Some KEY_ROTATED)
      else fundingDecision dp row)"

definition publishFunding :: "OnchainSendServiceDeps \<Rightarrow> OnchainSendSwapRow \<Rightarrow> string \<Rightarrow> bool \<Rightarrow> bool onchain_job" where
  "publishFunding dp row tx recheck =
     bnd (from_result (fundingOutputOf dp tx row)) (\<lambda>(txid, vout).
     bnd (ocall dp (\<lambda>n. odTransactionOutcome dp n txid)) (\<lambda>outcome.
     bnd (if outcome \<noteq> Tx_unknown then ret None
          else
            bnd (if \<not> recheck then ret None
                 else bnd (fundingRefusal dp row) (\<lambda>r. case r of Some s \<Rightarrow> ret (Some s) | None \<Rightarrow> lockupShortfall dp row)) (\<lambda>refusal.
            case refusal of
              Some s \<Rightarrow> ret (Some s)
            | None \<Rightarrow> thn (oact dp (BroadcastFunding (onId row) tx) (odBroadcastRaw dp)) (ret None))) (\<lambda>refusal.
     case refusal of
       Some s \<Rightarrow> thn (ofail dp (onId row) O_funding_onchain
         (s @ ''; recorded funding '' @ txid @ '' was never seen on chain'')) (ret False)
     | None \<Rightarrow> omove dp (onId row) O_funding_onchain O_awaiting_claim
         [(N_funding_txid, SText txid), (N_funding_vout, SInt vout)])))"

definition refuseFunding :: "OnchainSendServiceDeps \<Rightarrow> OnchainSendSwapRow \<Rightarrow> bool \<Rightarrow> string \<Rightarrow> bool onchain_job" where
  "refuseFunding dp row fresh reason =
     (if \<not> fresh then thn (ofail dp (onId row) O_funding_onchain reason) (ret False)
      else bnd (refuseUnrecorded dp (onId row) reason) (\<lambda>won.
        thn (only_if won (releaseFundLease (ostore dp) (onId row))) (ret False)))"

definition js_round :: "real \<Rightarrow> int" where
  "js_round x = \<lfloor>x + 1 / 2\<rfloor>"

text \<open>
  The \<open>try\<close>: \<open>Inl\<close> why the lockup fell short, \<open>Inr\<close> the signed transaction. What it throws gives the lease back;
  the refusal that answers a shortfall is returned, not awaited, inside it, so its own errors are not caught here.
\<close>

definition sign_funding :: "OnchainSendServiceDeps \<Rightarrow> OnchainSendSwapRow \<Rightarrow> (string + string) onchain_job" where
  "sign_funding dp row =
     catch
       (bnd (lockupShortfall dp row) (\<lambda>shortfall.
        case shortfall of
          Some s \<Rightarrow> ret (Inl s)
        | None \<Rightarrow>
            bnd (ocall dp (odEstimateFeeRate dp)) (\<lambda>rate.
            let feeRateSatPerVbyte = js_round (max rate MIN_RELAY_FEE_RATE) in
            bnd (ocall dp (\<lambda>n. odSignFunding dp n (onOnchainAddress row) (onPayoutSats row) feeRateSatPerVbyte)) (\<lambda>tx.
            ret (Inr tx)))))
       (\<lambda>e. thn (releaseFundLease (ostore dp) (onId row)) (throw e))"

definition submitFunding :: "OnchainSendServiceDeps \<Rightarrow> OnchainSendSwapRow \<Rightarrow> bool \<Rightarrow> bool onchain_job" where
  "submitFunding dp row fresh =
     bnd (if fresh then ret True else claimLease dp (onId row) O_funding_onchain) (\<lambda>leased.
     if \<not> leased then ret False
     else
       bnd (fundingRefusal dp row) (\<lambda>refusal.
       case refusal of
         Some s \<Rightarrow> refuseFunding dp row fresh s
       | None \<Rightarrow>
           bnd (sign_funding dp row) (\<lambda>res.
           case res of
             Inl s \<Rightarrow> refuseFunding dp row fresh s
           | Inr tx \<Rightarrow>
               bnd (recordFundingTx dp (onId row) tx) (\<lambda>recorded.
               if \<not> recorded then ret False else publishFunding dp row tx False))))"

definition submit_fresh :: "OnchainSendServiceDeps \<Rightarrow> string \<Rightarrow> bool onchain_job" where
  "submit_fresh dp i = bnd (get_onchain dp i) (\<lambda>row. submitFunding dp row True)"

definition recoverFunding :: "OnchainSendServiceDeps \<Rightarrow> OnchainSendSwapRow \<Rightarrow> bool onchain_job" where
  "recoverFunding dp row = (case truthy (onFundingTx row) of
     Some tx \<Rightarrow> publishFunding dp row tx True
   | None \<Rightarrow>
       bnd (ocall dp (\<lambda>n. odFindOutputs dp n (onOnchainAddress row))) (\<lambda>outputs.
       case find (\<lambda>(_, _, value). value = onPayoutSats row) outputs of
         None \<Rightarrow> submitFunding dp row False
       | Some (txid, vout, _) \<Rightarrow> omove dp (onId row) O_funding_onchain O_awaiting_claim
           [(N_funding_txid, SText txid), (N_funding_vout, SInt vout)]))"

definition checkFunded :: "OnchainSendServiceDeps \<Rightarrow> OnchainSendSwapRow \<Rightarrow> bool onchain_job" where
  "checkFunded dp row = omove dp (onId row) O_funding_onchain O_awaiting_claim []"

definition whenFundingOnchain :: "OnchainSendServiceDeps \<Rightarrow> OnchainSendSwapRow \<Rightarrow> bool onchain_job" where
  "whenFundingOnchain dp row =
     (if truthy (onFundingTxid row) \<noteq> None then checkFunded dp row else recoverFunding dp row)"

definition whenFunded :: "OnchainSendServiceDeps \<Rightarrow> OnchainSendSwapRow \<Rightarrow> bool onchain_job" where
  "whenFunded dp row =
     (if \<not> providerKeyCurrent (onProviderPubkey row) (odProviderPubkey dp)
      then thn (ofail dp (onId row) O_funded KEY_ROTATED) (ret False)
      else
        bnd (fundingDecision dp row) (\<lambda>refusal.
        case refusal of
          Some s \<Rightarrow> thn (ofail dp (onId row) O_funded s) (ret False)
        | None \<Rightarrow>
            bnd (askApproval dp (onId row) (onAmountSats row)) (\<lambda>approved.
            if \<not> approved then ret False
            else
              bnd (lockupShortfall dp row) (\<lambda>shortfall.
              case shortfall of
                Some s \<Rightarrow> thn (ofail dp (onId row) O_funded s) (ret False)
              | None \<Rightarrow>
                  bnd (enterFunding dp (onId row)) (\<lambda>entered.
                  if \<not> entered then ret False
                  else submit_fresh dp (onId row))))))"

section \<open>The handler of quoted\<close>

definition whenQuoted :: "OnchainSendServiceDeps \<Rightarrow> OnchainSendSwapRow \<Rightarrow> bool onchain_job" where
  "whenQuoted dp row =
     bnd (ocall dp (\<lambda>n. odFindLockups dp n (onPkScript row))) (\<lambda>all.
     bnd (oclock dp) (\<lambda>tm.
     let outputs = satsOutputs all;
         locked = totalValue outputs;
         held = totalValue all;
         timedOut = (tm \<ge> onCreatedAt row + DEFAULT_ONCHAIN_LOCKUP_TIMEOUT);
         refuse = (\<lambda>reason. thn (ofail dp (onId row) O_quoted reason) (ret False));
         hold = patch (ostore dp) (onId row) [(N_onchain_lockup_value, SInt held)] in
     if locked > onAmountSats row
     then thn hold (refuse (''overfunded lockup: '' @ show_int locked @ '' > '' @ show_int (onAmountSats row) @ '' sats''))
     else if locked = onAmountSats row \<and> length outputs > MAX_LOCKUP_SPEND_INPUTS
     then refuse (''lockup funded in '' @ show_int (int (length outputs)) @ '' outputs, over '' @ show_int (int MAX_LOCKUP_SPEND_INPUTS))
     else if locked < onAmountSats row \<and> held \<ge> onAmountSats row
     then thn hold (refuse (''lockup funded on an asset vtxo a claim cannot spend: '' @ show_int held @ '' held, '' @
       show_int locked @ '' spendable''))
     else if locked = onAmountSats row \<and> \<not> timedOut then
       (case (if odNetwork dp = Regtest then None else expiryBeforeClaimDeadline (map foExpiresAt outputs) (onHtlcLocktime row)) of
          Some e \<Rightarrow> refuse (''lockup expires at '' @ show_int e @ '', before '' @
            show_int (arkadeClaimDeadline (onHtlcLocktime row)) @ dash @
            ''the last moment a claim answering this swap could still need it'')
        | None \<Rightarrow> omove dp (onId row) O_quoted O_funded
            [(N_onchain_lockup_txid, case outputs of [] \<Rightarrow> SNull | o1 # _ \<Rightarrow> SText (foTxid o1)),
             (N_onchain_lockup_vout, case outputs of [] \<Rightarrow> SNull | o1 # _ \<Rightarrow> SInt (foVout o1)),
             (N_onchain_lockup_value, SInt locked),
             (N_lockup_outpoints, SOutpoints (map (\<lambda>o1. (foTxid o1, foVout o1, foValue o1)) outputs))])
     else if timedOut then
       thn (only_if (held > 0) hold)
         (refuse (if locked > 0 then ''lockup timeout with partial '' @ show_int locked @ '' sats'' else ''lockup timeout''))
     else ret False))"

section \<open>The handler of awaiting\_claim\<close>

text \<open>The two alerts of this handler only report; the second one's question to the chain is kept.\<close>

definition FUNDING_STUCK_ALERT_SECONDS :: int where "FUNDING_STUCK_ALERT_SECONDS = 20 * 60"

definition whenAwaitingClaim :: "OnchainSendServiceDeps \<Rightarrow> OnchainSendSwapRow \<Rightarrow> bool onchain_job" where
  "whenAwaitingClaim dp row = (case funded_outpoint row of
     None \<Rightarrow> thn (ofail dp (onId row) O_awaiting_claim ''awaiting_claim state with no funding txid/vout'') (ret False)
   | Some out \<Rightarrow>
       bnd (find_spend dp row out) (\<lambda>witness.
       case witness of
         None \<Rightarrow>
           bnd (oclock dp) (\<lambda>tm.
           if tm \<ge> onHtlcLocktime row + HTLC_REFUND_MTP_MARGIN
           then omove dp (onId row) O_awaiting_claim O_refunding_onchain []
           else
             (case onFundStartedAt row of
                None \<Rightarrow> ret False
              | Some started \<Rightarrow>
                  bnd (oclock dp) (\<lambda>tm2.
                  if tm2 - started \<ge> FUNDING_STUCK_ALERT_SECONDS
                  then thn (ocall dp (\<lambda>n. odTransactionOutcome dp n (fst out))) (ret False)
                  else ret False)))
       | Some w \<Rightarrow> (case matching_preimage dp row w of
             None \<Rightarrow> thn (ofail dp (onId row) O_awaiting_claim
               ''onchain HTLC spent by something other than a matching claim'') (ret False)
           | Some p \<Rightarrow> omove dp (onId row) O_awaiting_claim O_claiming [(N_preimage, SText (odHexEncode dp p))])))"

section \<open>The handler of claiming\<close>

abbreviation onchain_leg :: "OnchainSendServiceDeps \<Rightarrow> (OnchainSendSwapState, onchain_col, onchain_act) claim_leg" where
  "onchain_leg dp \<equiv>
     \<lparr>clStore = ostore dp, clPatch = patch (ostore dp), clUnrolledClaimColumn = N_unrolled_claim,
      clClaimArkTxidColumn = N_claim_ark_txid, clClaiming = O_claiming, clClaimed = O_claimed,
      clClaimAct = ClaimOnchainUnrolled, clFindLockupOutpoints = odLockupOutpoints dp,
      clFindClaimPreimage = map_option (\<lambda>f n o1. f n [o1]) (odFindClaimPreimage dp),
      clClaimUnrolled = odClaimUnrolled dp\<rparr>"

definition onchain_claim_row :: "OnchainSendSwapRow \<Rightarrow> claim_row" where
  "onchain_claim_row row =
     \<lparr>kwId = onId row, kwPkScript = onPkScript row, kwPaymentHash = onPaymentHash row,
      kwUnrolledClaim = onUnrolledClaim row, kwLockupOutpoints = onLockupOutpoints row\<rparr>"

fun evidence_text :: "LockupSpendEvidence \<Rightarrow> string" where
  "evidence_text Ev_unknown = ''unknown''"
| "evidence_text Ev_unspent = ''unspent''"
| "evidence_text Ev_spent = ''spent''"

text \<open>Whether a claim of ours can be read off the spends of the lockup, and nothing of it is left.\<close>

definition claimed_before :: "OnchainSendServiceDeps \<Rightarrow> OnchainSendSwapRow \<Rightarrow> bool onchain_job" where
  "claimed_before dp row =
     bnd (case odLockupOutpoints dp of None \<Rightarrow> ret [] | Some f \<Rightarrow> ocall dp (\<lambda>n. f n (onPkScript row))) (\<lambda>outpoints.
     bnd (case odFindClaimPreimage dp of
            None \<Rightarrow> ret False
          | Some f \<Rightarrow> if outpoints = [] then ret False
              else bnd (ocall dp (\<lambda>n. f n outpoints (onPaymentHash row))) (\<lambda>p. ret (p \<noteq> None))) (\<lambda>ours.
     if \<not> ours then ret False
     else bnd (lockupLeftover (onchain_leg dp) (onchain_claim_row row) {} None) (\<lambda>leftover. ret (leftover = []))))"

definition when_short :: "OnchainSendServiceDeps \<Rightarrow> OnchainSendSwapRow \<Rightarrow> string \<Rightarrow> int \<Rightarrow> bool onchain_job" where
  "when_short dp row preimage held =
     bnd (ocall dp (\<lambda>n. odSpendEvidence dp n (onPkScript row))) (\<lambda>evidence.
     bnd (if evidence \<noteq> Ev_spent then bnd (oclock dp) (\<lambda>tm. ret (tm < onRefundLocktime row)) else ret False) (\<lambda>wait.
     if wait
     then throw (Thrown (''swap '' @ onId row @ '': lockup holds '' @ show_int held @ '' < '' @ show_int (onAmountSats row) @
       '' while claiming but no spend is provable ('' @ evidence_text evidence @ '')''))
     else
       bnd (case odFinalizePendingClaim dp of
              None \<Rightarrow> ret None
            | Some f \<Rightarrow> if evidence = Ev_spent then oact dp (ClaimOnchain (onId row) preimage) f else ret None) (\<lambda>pending.
       case truthy pending of
         Some txid \<Rightarrow> omove dp (onId row) O_claiming O_claimed [(N_claim_ark_txid, SText txid)]
       | None \<Rightarrow>
           bnd (claimed_before dp row) (\<lambda>before.
           if before then omove dp (onId row) O_claiming O_claimed [(N_claim_ark_txid, SNull)]
           else thn (ofail dp (onId row) O_claiming
             (''lockup holds '' @ show_int held @ '' < amount '' @ show_int (onAmountSats row) @
              '' while claiming; no claim txid recorded; needs review'')) (ret False)))))"

text \<open>The collaborative claim: \<open>Inl done\<close> when its failure was escalated, \<open>Inr txid\<close> otherwise.\<close>

definition claim_offchain ::
    "OnchainSendServiceDeps \<Rightarrow> OnchainSendSwapRow \<Rightarrow> string \<Rightarrow> FundedOutput list \<Rightarrow> (bool + string option) onchain_job" where
  "claim_offchain dp row preimage outputs =
     catch
       (if outputs = [] then ret (Inr None)
        else bnd (oact dp (ClaimOnchain (onId row) preimage) (odClaim dp)) (\<lambda>txid. ret (Inr (Some txid))))
       (\<lambda>e. bnd (oclock dp) (\<lambda>tm.
          if tm \<ge> onRefundLocktime row
          then thn (ofail dp (onId row) O_claiming
            (''claim failing past the refund deadline: '' @ message e @ dash @ odRecourse dp row)) (ret (Inl False))
          else throw e))"

definition finish_claim ::
    "OnchainSendServiceDeps \<Rightarrow> OnchainSendSwapRow \<Rightarrow> FundedOutput list \<Rightarrow> UnrolledClaims option \<Rightarrow> string option \<Rightarrow> bool onchain_job" where
  "finish_claim dp row outputs unrolled txid =
     bnd (if (case unrolled of None \<Rightarrow> True | Some c \<Rightarrow> ucSettled c)
          then
            bnd (if txid = None then ret {}
                 else bnd (oclock dp) (\<lambda>tm. ret ((\<lambda>o1. (foTxid o1, foVout o1)) ` set (boundedSpendInputs outputs tm)))) (\<lambda>claimedNow.
            lockupLeftover (onchain_leg dp) (onchain_claim_row row) claimedNow unrolled)
          else ret []) (\<lambda>leftover.
     if leftover \<noteq> [] then
       bnd (oclock dp) (\<lambda>tm.
       awaitLeftover (onchain_leg dp) (onId row) txid leftover (tm \<ge> onRefundLocktime row) (odRecourse dp row))
     else case unrolled of
       None \<Rightarrow> thn (omove dp (onId row) O_claiming O_claimed [(N_claim_ark_txid, opt_text txid)]) (ret False)
     | Some c \<Rightarrow>
         thn (case txid of
                None \<Rightarrow> ret () | Some t \<Rightarrow> patch (ostore dp) (onId row) [(N_claim_ark_txid, SText t)])
         (settleUnrolledClaims (onchain_leg dp) (onId row) c (odRecourse dp row)))"

definition whenClaiming :: "OnchainSendServiceDeps \<Rightarrow> OnchainSendSwapRow \<Rightarrow> bool onchain_job" where
  "whenClaiming dp row = (case truthy (onPreimage row) of
     None \<Rightarrow> thn (ofail dp (onId row) O_claiming ''claiming state with no preimage'') (ret False)
   | Some preimage \<Rightarrow>
       bnd (ocall dp (\<lambda>n. odFindLockups dp n (onPkScript row))) (\<lambda>found.
       let outputs = claimOutputs found (onAmountSats row) in
       bnd (advanceUnrolledClaims (onchain_leg dp) (onchain_claim_row row) preimage) (\<lambda>unrolled.
       let held = totalValue outputs in
       if held < onAmountSats row \<and> unrolled = None then when_short dp row preimage held
       else bnd (claim_offchain dp row preimage outputs) (\<lambda>claimed.
         case claimed of
           Inl done \<Rightarrow> ret done
         | Inr txid \<Rightarrow> finish_claim dp row outputs unrolled txid))))"

section \<open>Driving a swap\<close>

definition step :: "OnchainSendServiceDeps \<Rightarrow> OnchainSendSwapRow \<Rightarrow> bool onchain_job" where
  "step dp row = (case onState row of
     O_quoted \<Rightarrow> whenQuoted dp row
   | O_funded \<Rightarrow> whenFunded dp row
   | O_funding_onchain \<Rightarrow> whenFundingOnchain dp row
   | O_awaiting_claim \<Rightarrow> whenAwaitingClaim dp row
   | O_claiming \<Rightarrow> whenClaiming dp row
   | O_refunding_onchain \<Rightarrow> whenRefundingOnchain dp row
   | _ \<Rightarrow> ret False)"

definition tick :: "OnchainSendServiceDeps \<Rightarrow> nat \<Rightarrow> bool \<Rightarrow> string \<Rightarrow> OnchainSendSwapRow option onchain_job" where
  "tick dp = guardedTick (step dp) (get_onchain dp)"

definition tickAll :: "OnchainSendServiceDeps \<Rightarrow> nat \<Rightarrow> (string \<Rightarrow> bool) \<Rightarrow> unit onchain_job" where
  "tickAll dp fuel skip =
     bnd (read_db (oexec dp) (odSchedule dp) (\<lambda>d. Inr (map rwId (findRecoverable ONCHAIN_SHAPE d))))
       (sweep (tick dp fuel False) (get_onchain dp) skip)"

section \<open>Operator recovery\<close>

definition clientClaimPreimage :: "OnchainSendServiceDeps \<Rightarrow> OnchainSendSwapRow \<Rightarrow> nat list option onchain_job" where
  "clientClaimPreimage dp row = (case funded_outpoint row of
     None \<Rightarrow> ret None
   | Some out \<Rightarrow> bnd (find_spend dp row out) (\<lambda>witness.
       ret (case witness of None \<Rightarrow> None | Some w \<Rightarrow> matching_preimage dp row w)))"

definition refundNow :: "OnchainSendServiceDeps \<Rightarrow> string \<Rightarrow> string option onchain_job" where
  "refundNow dp i =
     bnd (get_onchain dp i) (\<lambda>row.
     bnd (clientClaimPreimage dp row) (\<lambda>preimage.
     case preimage of
       Some p \<Rightarrow> throw (Thrown (''swap '' @ i @ '': the client already claimed the onchain HTLC, preimage '' @ odHexEncode dp p @ dash @
         ''refunding the arkade lockup would pay them twice; claim the lockup with that preimage instead''))
     | None \<Rightarrow> pushRefund dp OperatorReturn True row))"

text \<open>
  No refund of the HTLC is confirmed. \<open>busy\<close>: whether the swap is being ticked by this process when the lock is taken.
\<close>

definition reclaim_unconfirmed ::
    "OnchainSendServiceDeps \<Rightarrow> bool \<Rightarrow> OnchainSendSwapRow \<Rightarrow> string \<times> int \<Rightarrow> OnchainTxOutcome \<Rightarrow> string onchain_job" where
  "reclaim_unconfirmed dp busy row out outcome =
     bnd (find_spend dp row out) (\<lambda>witness.
     case (case witness of None \<Rightarrow> None | Some w \<Rightarrow> matching_preimage dp row w) of
       Some p \<Rightarrow> throw (Thrown (''onchain HTLC of swap '' @ onId row @ '' was already claimed by the client, preimage '' @
         odHexEncode dp p @ dash @
         ''a refund of it can never confirm; claim the Arkade lockup with that preimage instead''))
     | None \<Rightarrow>
         if busy then throw (Thrown (''swap '' @ onId row @ '' is already being ticked; retry once that tick finishes''))
         else if outcome = Tx_mempool then
           bnd (replaceOnchainHtlcRefund dp row) (\<lambda>replaced.
           ret (case replaced of Some t \<Rightarrow> t | None \<Rightarrow> hd (trackedRefundTxids row)))
         else
           bnd (ocall dp (odEstimateFeeRate dp)) (\<lambda>estimate.
           bnd (pushOnchainHtlcRefund dp row estimate None) (\<lambda>attempt.
           case attempt of
             Broadcast_done t \<Rightarrow> ret t
           | Broadcast_not reason _ \<Rightarrow> throw (Thrown reason))))"

definition reclaimOnchainHtlc :: "OnchainSendServiceDeps \<Rightarrow> bool \<Rightarrow> string \<Rightarrow> string onchain_job" where
  "reclaimOnchainHtlc dp busy i =
     bnd (get_onchain dp i) (\<lambda>row.
     case funded_outpoint row of
       None \<Rightarrow> throw (Thrown (''swap '' @ i @ '' has no funding txid/vout: nothing was ever broadcast to the onchain HTLC''))
     | Some out \<Rightarrow>
         bnd (if trackedRefundTxids row = [] then ret (Tx_unknown, None) else tracked_outcome dp (trackedRefundTxids row)) (\<lambda>(outcome, confirmed).
         case confirmed of Some txid \<Rightarrow> ret txid | None \<Rightarrow> reclaim_unconfirmed dp busy row out outcome))"

end
