(* ===== verification/Onchain_Refinement.thy ===== *)
theory Onchain_Refinement
  imports Onchain_Orchestrator
begin

text \<open>
  The onchain orchestrator keeps to the service contract of \<open>Onchain_Store\<close>: whatever the ports answer, whoever
  else works on the table and wherever the process dies, every act of a job is enabled when it happens. For each
  handler a lemma shows it from what the row it was given tells of the present database (\<open>oknows\<close>).
\<close>

section \<open>What a handler knows of its row\<close>

definition oknows :: "(string \<Rightarrow> string \<Rightarrow> bool) \<Rightarrow> OnchainSendSwapRow \<Rightarrow> onchain_db \<Rightarrow> bool" where
  "oknows opens row d \<longleftrightarrow> onchain_inv opens d \<and>
     (onState row = O_funding_onchain \<longrightarrow> onFundingTxid row = None) \<and>
     (\<exists>r. row_of d (onId row) = Some r \<and> onchain_hash r = onPaymentHash row \<and>
       rwCols r N_payout_sats = SInt (onPayoutSats row) \<and>
       rwCols r N_onchain_pk_script = SText (onOnchainPkScript row) \<and>
       (onState row \<in> {O_refused, O_refunded} \<longrightarrow> may_return r) \<and>
       (onState row = O_claiming \<longrightarrow> (\<forall>p. onPreimage row = Some p \<longrightarrow> may_collect_onchain opens r p)) \<and>
       (\<forall>tx. onFundingTx row = Some tx \<longrightarrow> rwCols r N_funding_tx = SText tx) \<and>
       (onFundingTxid row \<noteq> None \<longrightarrow> may_reclaim r))"

lemma oknows_inv: "oknows opens row d \<Longrightarrow> onchain_inv opens d"
  by (simp add: oknows_def)

lemma collect_kept:
  "may_collect_onchain opens r p \<Longrightarrow> fixed_terms r r' \<Longrightarrow> row_stays r r' \<or> row_moves opens r r' \<Longrightarrow>
     may_collect_onchain opens r' p"
  using collecting_kept [of r r' opens] by (simp add: may_collect_onchain_def fixed_terms_def onchain_hash_def)

lemma reclaim_kept: "may_reclaim r \<Longrightarrow> row_stays r r' \<or> row_moves opens r r' \<Longrightarrow> may_reclaim r'"
  by (auto simp: may_reclaim_def row_stays_def row_moves_def funded_output_def split: if_splits)

lemma recorded_kept:
  "rwCols r N_funding_tx = SText tx \<Longrightarrow> row_stays r r' \<or> row_moves opens r r' \<Longrightarrow> rwCols r' N_funding_tx = SText tx"
  by (auto simp: row_stays_def row_moves_def)

text \<open>What every step of a row keeps is stable knowledge of it.\<close>

lemma stable_row:
  assumes "\<And>r r'. J r \<Longrightarrow> fixed_terms r r' \<Longrightarrow> row_stays r r' \<or> row_moves opens r r' \<Longrightarrow> J r'"
  shows "stable (exec_onchain opens pays) (\<lambda>d. \<exists>r. row_of d i = Some r \<and> J r)"
  unfolding stable_def
proof (intro allI impI, elim exE conjE)
  fix a d d' r
  assume "ids_distinct d" "exec_onchain opens pays a d = Some d'" "row_of d i = Some r" "J r"
  with onchain_row_step [of opens pays a d d' i r] assms show "\<exists>r. row_of d' i = Some r \<and> J r" by blast
qed

lemma stable_onchain_inv [intro]: "stable (exec_onchain opens pays) (onchain_inv opens)"
  unfolding stable_def by (auto intro: exec_keeps_onchain_inv)

lemma stable_oknows [intro]: "stable (exec_onchain opens pays) (oknows opens row)"
proof -
  let ?J = "\<lambda>r. onchain_hash r = onPaymentHash row \<and>
       rwCols r N_payout_sats = SInt (onPayoutSats row) \<and>
       rwCols r N_onchain_pk_script = SText (onOnchainPkScript row) \<and>
       (onState row \<in> {O_refused, O_refunded} \<longrightarrow> may_return r) \<and>
       (onState row = O_claiming \<longrightarrow> (\<forall>p. onPreimage row = Some p \<longrightarrow> may_collect_onchain opens r p)) \<and>
       (\<forall>tx. onFundingTx row = Some tx \<longrightarrow> rwCols r N_funding_tx = SText tx) \<and>
       (onFundingTxid row \<noteq> None \<longrightarrow> may_reclaim r)"
  have "?J r'" if "?J r" and f: "fixed_terms r r'" and m: "row_stays r r' \<or> row_moves opens r r'" for r r'
  proof -
    have "onchain_hash r' = onchain_hash r" "rwCols r' N_payout_sats = rwCols r N_payout_sats"
      "rwCols r' N_onchain_pk_script = rwCols r N_onchain_pk_script"
      using f by (simp_all add: fixed_terms_def onchain_hash_def)
    with that(1) show ?thesis
      using returned_kept [OF _ m] collect_kept [OF _ f m] recorded_kept [OF _ m] reclaim_kept [OF _ m] by metis
  qed
  then have "stable (exec_onchain opens pays) (\<lambda>d. \<exists>r. row_of d (onId row) = Some r \<and> ?J r)" by (rule stable_row)
  then show ?thesis unfolding stable_def oknows_def using exec_keeps_onchain_inv by blast
qed

lemma oknows_read:
  assumes "onchain_inv opens d" and "row_of d i = Some r"
  shows "oknows opens (onchain_toRow r) d"
proof -
  have id: "rwId r = i" using row_of_Some [OF assms(2)] by simp
  have ok: "onchain_row_ok opens r" using assms by (simp add: onchain_inv_def)
  then obtain v s where v: "rwCols r N_payout_sats = SInt v" "rwCols r N_onchain_pk_script = SText s"
    by (cases "rwCols r N_payout_sats"; cases "rwCols r N_onchain_pk_script") (auto simp: onchain_row_ok_def well_typed_def)
  have "textOf (rwCols r N_funding_txid) = None" if "rwState r = O_funding_onchain"
    using ok that by (simp add: onchain_row_ok_def)
  moreover have "may_return r" if "rwState r \<in> {O_refused, O_refunded}" using that by (simp add: may_return_def)
  moreover have "may_collect_onchain opens r p" if "rwState r = O_claiming" "textOf (rwCols r N_preimage) = Some p" for p
    using ok that by (simp add: onchain_row_ok_def onchain_opened_def may_collect_onchain_def onchain_collecting_def)
  moreover have "may_reclaim r" if "textOf (rwCols r N_funding_txid) \<noteq> None"
    using that by (cases "rwCols r N_funding_txid") (simp_all add: may_reclaim_def)
  ultimately show ?thesis
    using assms id v unfolding oknows_def
    by (simp add: onchain_toRow_def Let_def onchain_hash_def textOf_Some)
qed

section \<open>Base steps\<close>

named_theorems okeep

abbreviation ofollows ::
    "(string \<Rightarrow> string \<Rightarrow> bool) \<Rightarrow> (string \<Rightarrow> string \<Rightarrow> int \<Rightarrow> bool) \<Rightarrow> onchain_db \<Rightarrow> (onchain_db \<Rightarrow> bool) \<Rightarrow>
     (onchain_db, onchain_act) world \<Rightarrow> bool" where
  "ofollows opens pays d0 K \<equiv> tracks (exec_onchain opens pays) d0 K"

abbreviation on_table ::
    "(string \<Rightarrow> string \<Rightarrow> bool) \<Rightarrow> (string \<Rightarrow> string \<Rightarrow> int \<Rightarrow> bool) \<Rightarrow> onchain_schedule \<Rightarrow>
     (OnchainSendSwapState, onchain_col, onchain_act) store" where
  "on_table opens pays sc \<equiv>
     \<lparr>soShape = ONCHAIN_SHAPE, soExec = exec_onchain opens pays, soAct = OSt, soSchedule = sc\<rparr>"

lemma okeep_now [okeep]: "stable (exec_onchain opens pays) K \<Longrightarrow> keeps (ofollows opens pays d0 K) (now sc)"
  by (rule onchain_service.keeps_now')

lemma okeep_ask [okeep]:
  "stable (exec_onchain opens pays) K \<Longrightarrow> keeps (ofollows opens pays d0 K) (ask (exec_onchain opens pays) sc f)"
  by (rule onchain_service.keeps_ask')

lemma okeep_read [okeep]:
  "stable (exec_onchain opens pays) K \<Longrightarrow> keeps (ofollows opens pays d0 K) (read_db (exec_onchain opens pays) sc f)"
  by (rule onchain_service.keeps_read')

lemma okeep_patch [okeep]:
  "stable (exec_onchain opens pays) K \<Longrightarrow> keeps (ofollows opens pays d0 K) (patch (on_table opens pays sc) i fs)"
  by (rule onchain_service.keeps_patch) simp_all

lemma okeep_event [okeep]:
  "stable (exec_onchain opens pays) K \<Longrightarrow>
     keeps (ofollows opens pays d0 K) (recordEvent (on_table opens pays sc) i s t detail)"
  by (rule onchain_service.keeps_recordEvent)

lemma okeep_release [okeep]:
  "stable (exec_onchain opens pays) K \<Longrightarrow> keeps (ofollows opens pays d0 K) (releaseFundLease (on_table opens pays sc) i)"
  by (rule onchain_service.keeps_releaseFundLease) simp_all

lemma okeep_lease [okeep]:
  assumes "stable (exec_onchain opens pays) K"
  shows "keeps (ofollows opens pays d0 K) (claimFundLease (on_table opens pays sc) i O_funding_onchain stale)"
  by (rule spec_weaken [OF onchain_service.spec_claimFundLease
        [where P = "\<lambda>_. True" and Q = "\<lambda>_. True" and K = K, OF assms]])
    (auto simp: did_def)

lemma okeep_from_result [okeep]:
  "(\<And>x. r = Inr x \<Longrightarrow> keeps I (f x)) \<Longrightarrow> keeps I (bnd (from_result r) f)"
  by (cases r) (simp_all add: from_result_def keeps_throw)

lemma onchain_plain_cas_ok:
  assumes "row_of d i = Some r" and "t \<notin> {O_refused, O_awaiting_claim, O_claiming}"
    and "\<forall>c \<in> {N_preimage, N_funding_txid, N_funding_vout}. c \<notin> fst ` set fs"
  shows "onchain_ok opens (Cas i s t fs tm) d"
  using assms by simp

lemma okeep_move:
  assumes "stable (exec_onchain opens pays) K" and "t \<notin> {O_refused, O_awaiting_claim, O_claiming}"
    and "\<forall>c \<in> {N_preimage, N_funding_txid, N_funding_vout}. c \<notin> fst ` set fs"
  shows "keeps (ofollows opens pays d0 K) (transition (on_table opens pays sc) i s t fs)"
  by (rule onchain_service.keeps_transition [OF assms(1)]) (rule onchain_plain_cas_ok [OF _ assms(2,3)])

lemmas okeep_plain [okeep] =
  okeep_move [where t = O_funded] okeep_move [where t = O_funding_onchain] okeep_move [where t = O_refunding_onchain]
  okeep_move [where t = O_refunded] okeep_move [where t = O_claimed]

text \<open>A failed row is stuck when it was exposed and refused when it was not: then nothing was recorded.\<close>

lemma okeep_fail:
  assumes "stable (exec_onchain opens pays) K" and "\<And>d. K d \<Longrightarrow> onchain_inv opens d"
  shows "keeps (ofollows opens pays d0 K) (failRow (on_table opens pays sc) i s reason)"
proof (rule onchain_service.keeps_failRow [OF assms(1)])
  fix d r t tm
  assume d: "K d" and r: "row_of d i = Some r" "rwState r = s"
    and t: "t \<in> {O_stuck, O_refused}" "t = (if isExposed OnchainSendMachine s then O_stuck else O_refused)"
    and edge: "t \<in> set (shEdges ONCHAIN_SHAPE s)"
  have "rwCols r N_funding_tx = SNull" if "t = O_refused"
  proof -
    have "s \<in> {O_quoted, O_funded}"
      using t edge that by (cases s) (simp_all add: ONCHAIN_SHAPE_def onchainSend_edges spec_of_def onchainSendTable_def)
    moreover have "onchain_row_ok opens r" using assms(2) [OF d] r by (simp add: onchain_inv_def)
    ultimately show ?thesis using r by (auto simp: onchain_row_ok_def)
  qed
  then show "onchain_ok opens (Cas i s t [(shFailure ONCHAIN_SHAPE, SText reason)] tm) d"
    using r t(1) by (auto simp: ONCHAIN_SHAPE_def set_fields_cols)
qed

lemma okeep_awaiting [okeep]:
  assumes "stable (exec_onchain opens pays) K"
  shows "keeps (ofollows opens pays d0 K) (transition (on_table opens pays sc) i s O_awaiting_claim
    [(N_funding_txid, SText t), (N_funding_vout, SInt v)])"
  by (rule onchain_service.keeps_transition [OF assms]) (simp add: set_fields_cols funded_output_def)

lemma okeep_claiming:
  assumes "stable (exec_onchain opens pays) K" and "\<And>d. K d \<Longrightarrow> oknows opens row d" and "opens p (onPaymentHash row)"
  shows "keeps (ofollows opens pays d0 K)
    (transition (on_table opens pays sc) (onId row) s O_claiming [(N_preimage, SText p)])"
proof (rule onchain_service.keeps_transition [OF assms(1)])
  fix d r tm
  assume "K d" and r: "row_of d (onId row) = Some r"
  then have "onchain_hash r = onPaymentHash row" using assms(2) [of d] by (auto simp: oknows_def)
  then show "onchain_ok opens (Cas (onId row) s O_claiming [(N_preimage, SText p)] tm) d"
    using r assms(3) by (simp add: onchain_opened_def onchain_hash_def set_fields_cols)
qed

lemma okeep_act:
  assumes "stable (exec_onchain opens pays) K" and "\<And>d. K d \<Longrightarrow> exec_onchain opens pays a d = Some d"
  shows "keeps (ofollows opens pays d0 K) (perform (exec_onchain opens pays) sc a f)"
  using assms by (rule onchain_service.keeps_perform')

text \<open>The acts a known row allows.\<close>

lemma known_acts:
  assumes "oknows opens row d"
  shows "exec_onchain opens pays (OperatorReturn (onId row)) d = Some d"
    "onState row \<in> {O_refused, O_refunded} \<Longrightarrow> exec_onchain opens pays (ReturnLockup (onId row)) d = Some d"
    "onFundingTxid row \<noteq> None \<Longrightarrow> exec_onchain opens pays (BroadcastRefund (onId row) t) d = Some d"
    "onState row = O_claiming \<Longrightarrow> onPreimage row = Some p \<Longrightarrow> exec_onchain opens pays (ClaimOnchain (onId row) p) d = Some d"
  using assms by (auto simp: oknows_def onchain_permitted_Some)

section \<open>Giving back and taking back\<close>

lemma okeep_pushRefund:
  assumes K: "stable (oexec dp) K" and give: "\<And>d. K d \<Longrightarrow> oexec dp (give (onId row)) d = Some d"
  shows "keeps (ofollows (oopens dp) (opays dp) d0 K) (pushRefund dp give sweptToo row)"
  unfolding pushRefund_def Let_def
  by (rule keeps_bnd [OF okeep_ask [OF K]]) (auto intro!: keep okeep okeep_act [OF K give] K split: list.split option.split)

lemma okeep_find_spend [okeep]:
  "stable (oexec dp) K \<Longrightarrow> keeps (ofollows (oopens dp) (opays dp) d0 K) (find_spend dp row out)"
  unfolding find_spend_def by (rule okeep_ask)

lemma okeep_final:
  "stable (oexec dp) K \<Longrightarrow> keeps (ofollows (oopens dp) (opays dp) d0 K) (onchainRefundIsFinal dp row)"
  unfolding onchainRefundIsFinal_def by (intro keep okeep)

lemma okeep_tracked [okeep]:
  "stable (oexec dp) K \<Longrightarrow> keeps (ofollows (oopens dp) (opays dp) d0 K) (tracked_outcome dp txids)"
  unfolding tracked_outcome_def by (intro keeps_outcomeOfAny okeep_ask)

lemma keeps_case_attempt [okeep]:
  "(\<And>t. a = Broadcast_done t \<Longrightarrow> keeps I (f t)) \<Longrightarrow> (\<And>s b. a = Broadcast_not s b \<Longrightarrow> keeps I (g s b)) \<Longrightarrow>
     keeps I (case a of Broadcast_done t \<Rightarrow> f t | Broadcast_not s b \<Rightarrow> g s b)"
  by (cases a) auto

lemma funded_outpoint_txid: "funded_outpoint row = Some out \<Longrightarrow> onFundingTxid row \<noteq> None"
  by (auto simp: funded_outpoint_def split: option.splits dest: truthy_Some)

lemma okeep_pushOnchainHtlcRefund:
  assumes K: "stable (oexec dp) K" and k: "\<And>d. K d \<Longrightarrow> oknows (oopens dp) row d" and f: "onFundingTxid row \<noteq> None"
  shows "keeps (ofollows (oopens dp) (opays dp) d0 K) (pushOnchainHtlcRefund dp row estimate previous)"
  unfolding pushOnchainHtlcRefund_def Let_def
  by (intro keep okeep okeep_act [OF K] known_acts(3) [OF k f] K)

lemma okeep_replace:
  assumes K: "stable (oexec dp) K" and k: "\<And>d. K d \<Longrightarrow> oknows (oopens dp) row d" and f: "onFundingTxid row \<noteq> None"
  shows "keeps (ofollows (oopens dp) (opays dp) d0 K) (replaceOnchainHtlcRefund dp row)"
  unfolding replaceOnchainHtlcRefund_def Let_def
  by (intro keep okeep okeep_pushOnchainHtlcRefund [OF K k f] K)

text \<open>The law of the hex codec the code relies on.\<close>

definition hex_roundtrip :: "OnchainSendServiceDeps \<Rightarrow> bool" where
  "hex_roundtrip dp \<longleftrightarrow> (\<forall>b. odHexDecode dp (odHexEncode dp b) = Some b)"

lemma matching_opens:
  "hex_roundtrip dp \<Longrightarrow> matching_preimage dp row w = Some p \<Longrightarrow> oopens dp (odHexEncode dp p) (onPaymentHash row)"
  by (auto simp: matching_preimage_def hex_roundtrip_def preimageMatchesHash_def split: option.splits if_splits)

lemma okeep_whenRefundingOnchain:
  assumes K: "stable (oexec dp) K" and k: "\<And>d. K d \<Longrightarrow> oknows (oopens dp) row d" and hex: "hex_roundtrip dp"
  shows "keeps (ofollows (oopens dp) (opays dp) d0 K) (whenRefundingOnchain dp row)"
proof (cases "funded_outpoint row")
  case None
  then show ?thesis unfolding whenRefundingOnchain_def
    by (simp, intro keep okeep okeep_fail [OF K oknows_inv [OF k]])
next
  case (Some out)
  note f = funded_outpoint_txid [OF Some]
  show ?thesis unfolding whenRefundingOnchain_def Some option.case
    by (intro keep okeep okeep_fail [OF K oknows_inv [OF k]] okeep_replace [OF K k f] K
        okeep_pushOnchainHtlcRefund [OF K k f] okeep_claiming [OF K k matching_opens [OF hex]]) simp_all
qed

section \<open>Funding\<close>

lemma okeep_shortfall [okeep]:
  "stable (oexec dp) K \<Longrightarrow> keeps (ofollows (oopens dp) (opays dp) d0 K) (lockupShortfall dp row)"
  unfolding lockupShortfall_def Let_def by (intro keep okeep)

lemma okeep_decision [okeep]:
  "stable (oexec dp) K \<Longrightarrow> keeps (ofollows (oopens dp) (opays dp) d0 K) (fundingDecision dp row)"
  unfolding fundingDecision_def by (intro keep okeep)

lemma okeep_refusal [okeep]:
  "stable (oexec dp) K \<Longrightarrow> keeps (ofollows (oopens dp) (opays dp) d0 K) (fundingRefusal dp row)"
  unfolding fundingRefusal_def by (intro keep okeep)

text \<open>A row whose funding transaction is recorded.\<close>

definition recorded :: "OnchainSendSwapRow \<Rightarrow> string \<Rightarrow> onchain_db \<Rightarrow> bool" where
  "recorded row tx d \<longleftrightarrow> (\<exists>r. row_of d (onId row) = Some r \<and> rwCols r N_funding_tx = SText tx)"

lemma stable_recorded: "stable (exec_onchain opens pays) (recorded row tx)"
  unfolding recorded_def by (rule stable_row) (rule recorded_kept)

lemma knows_recorded: "oknows opens row d \<Longrightarrow> onFundingTx row = Some tx \<Longrightarrow> recorded row tx d"
  by (auto simp: oknows_def recorded_def)

lemma known_broadcast:
  assumes "oknows opens row d" and "recorded row tx d" and "opays dp tx (onOnchainPkScript row) (onPayoutSats row)"
  shows "exec_onchain opens (opays dp) (BroadcastFunding (onId row) tx) d = Some d"
  using assms by (auto simp: oknows_def recorded_def onchain_permitted_Some may_broadcast_def)

lemma okeep_publishFunding:
  assumes K: "stable (oexec dp) K" and k: "\<And>d. K d \<Longrightarrow> oknows (oopens dp) row d" and tx: "\<And>d. K d \<Longrightarrow> recorded row tx d"
  shows "keeps (ofollows (oopens dp) (opays dp) d0 K) (publishFunding dp row tx recheck)"
  unfolding publishFunding_def
proof (rule okeep_from_result)
  fix x
  assume "fundingOutputOf dp tx row = Inr x"
  then have p: "opays dp tx (onOnchainPkScript row) (onPayoutSats row)" by (simp add: fundingOutputOf_def opays_def)
  show "keeps (ofollows (oopens dp) (opays dp) d0 K) (case x of (txid, vout) \<Rightarrow>
     bnd (ocall dp (\<lambda>n. odTransactionOutcome dp n txid)) (\<lambda>outcome.
     bnd (if outcome \<noteq> Tx_unknown then ret None
          else
            bnd (if \<not> recheck then ret None
                 else bnd (fundingRefusal dp row) (\<lambda>r. case r of Some s \<Rightarrow> ret (Some s) | None \<Rightarrow> lockupShortfall dp row)) (\<lambda>refusal.
            case refusal of
              Some s \<Rightarrow> ret (Some s)
            | None \<Rightarrow> thn (oact dp (BroadcastFunding (onId row) tx) (odBroadcastRaw dp)) (ret None))) (\<lambda>refusal.
     case refusal of
       Some s \<Rightarrow> thn (ofail dp (onId row) O_funding_onchain
         (s @ ''; recorded funding '' @ txid @ '' was never seen on chain'')) (ret False)
     | None \<Rightarrow> omove dp (onId row) O_funding_onchain O_awaiting_claim
         [(N_funding_txid, SText txid), (N_funding_vout, SInt vout)])))"
    by (intro okeep_awaiting [OF K] keep okeep okeep_fail [OF K oknows_inv [OF k]]
        okeep_act [OF K known_broadcast [OF k tx p]] K)
qed

lemma okeep_refuseFunding:
  assumes K: "stable (oexec dp) K" and inv: "\<And>d. K d \<Longrightarrow> onchain_inv (oopens dp) d"
  shows "keeps (ofollows (oopens dp) (opays dp) d0 K) (refuseFunding dp row fresh reason)"
proof -
  have "keeps (ofollows (oopens dp) (opays dp) d0 K) (refuseUnrecorded dp i reason)" for i
    unfolding refuseUnrecorded_def
    by (rule spec_weaken [OF onchain_service.spec_transitionWhere [where L = "\<lambda>_. True", OF K]])
      (auto simp: set_fields_cols)
  then show ?thesis unfolding refuseFunding_def by (intro keep okeep okeep_fail [OF K inv] K)
qed

lemma okeep_sign [okeep]:
  "stable (oexec dp) K \<Longrightarrow> keeps (ofollows (oopens dp) (opays dp) d0 K) (sign_funding dp row)"
  unfolding sign_funding_def Let_def by (intro keep okeep)

lemma spec_recordFundingTx:
  assumes K: "stable (oexec dp) K" and k: "\<And>d. K d \<Longrightarrow> oknows (oopens dp) row d"
  shows "spec (ofollows (oopens dp) (opays dp) d0 K) (recordFundingTx dp (onId row) tx)
    (\<lambda>r w. ofollows (oopens dp) (opays dp) d0 K w \<and> (\<forall>won. r = Inr won \<longrightarrow> won \<longrightarrow> recorded row tx (wDb w)))"
  unfolding recordFundingTx_def
proof (rule onchain_service.spec_once [OF K])
  fix d d' tm
  assume "K d" and ids: "ids_distinct d" and e: "oexec dp (OSt (Once (onId row) O_funding_onchain (SText tx) tm)) d = Some d'"
  obtain r where r: "row_of d (onId row) = Some r" using k [OF \<open>K d\<close>] by (auto simp: oknows_def)
  let ?p = "\<lambda>r. rwId r = onId row \<and> rwState r = O_funding_onchain \<and> rwCols r N_funding_tx = SNull"
  let ?f = "\<lambda>r. (set_fields [(N_funding_tx, SText tx)] r)\<lparr>rwUpdated := tm\<rparr>"
  have d': "d' = snd (update_rows ?p ?f d)" and one: "fst (update_rows ?p ?f d) = 1"
    using e by (auto simp: ONCHAIN_SHAPE_def once_row_def split: if_splits)
  obtain q where q: "q \<in> set (dbRows d)" "?p q" using one update_rows_one [of ?p ?f d] by auto
  have "?p r" using row_of_eq [OF ids, of "onId row" q] q r by auto
  then show "recorded row tx d'" using r by (simp add: recorded_def d' update_rows_row_of set_fields_cols)
qed simp

lemma okeep_submitFunding:
  assumes K: "stable (oexec dp) K" and k: "\<And>d. K d \<Longrightarrow> oknows (oopens dp) row d"
  shows "keeps (ofollows (oopens dp) (opays dp) d0 K) (submitFunding dp row fresh)"
proof -
  have lease: "keeps (ofollows (oopens dp) (opays dp) d0 K) (claimLease dp i O_funding_onchain)" for i
    unfolding claimLease_def by (intro keep okeep K)
  have rec: "keeps (ofollows (oopens dp) (opays dp) d0 K) (bnd (recordFundingTx dp (onId row) tx) (\<lambda>recorded.
      if \<not> recorded then ret False else publishFunding dp row tx False))" for tx
  proof (rule keeps_learn [where L = "\<lambda>won d. won \<longrightarrow> recorded row tx d"])
    show "spec (ofollows (oopens dp) (opays dp) d0 K) (recordFundingTx dp (onId row) tx)
        (\<lambda>r w. ofollows (oopens dp) (opays dp) d0 K w \<and> (\<forall>won. r = Inr won \<longrightarrow> won \<longrightarrow> recorded row tx (wDb w)))"
      by (rule spec_recordFundingTx [OF K k])
    show "keeps (ofollows (oopens dp) (opays dp) d0 (\<lambda>d. K d \<and> (won \<longrightarrow> recorded row tx d)))
        (if \<not> won then ret False else publishFunding dp row tx False)" for won
      by (cases won) (auto intro!: keeps_ret okeep_publishFunding stable_conj K stable_recorded k)
  qed
  show ?thesis unfolding submitFunding_def
    by (intro lease rec keep okeep okeep_refuseFunding [OF K oknows_inv [OF k]] K)
qed

lemma okeep_whenFundingOnchain:
  assumes K: "stable (oexec dp) K" and k: "\<And>d. K d \<Longrightarrow> oknows (oopens dp) row d" and s: "onState row = O_funding_onchain"
    and some: "K d"
  shows "keeps (ofollows (oopens dp) (opays dp) d0 K) (whenFundingOnchain dp row)"
proof -
  have none: "truthy (onFundingTxid row) = None" using k [OF some] s by (auto simp: oknows_def)
  have "keeps (ofollows (oopens dp) (opays dp) d0 K) (publishFunding dp row tx True)" if "truthy (onFundingTx row) = Some tx" for tx
    by (rule okeep_publishFunding [OF K k knows_recorded [OF k truthy_Some [OF that]]])
  then show ?thesis unfolding whenFundingOnchain_def none recoverFunding_def
    by (simp, intro keep okeep okeep_submitFunding [OF K k] K) (auto intro!: keep okeep K split: prod.split)
qed

section \<open>The other handlers\<close>

lemma spec_get_onchain:
  assumes K: "stable (oexec dp) K" and inv: "\<And>d. K d \<Longrightarrow> onchain_inv (oopens dp) d"
  shows "spec (ofollows (oopens dp) (opays dp) d0 K) (get_onchain dp i)
    (\<lambda>r w. ofollows (oopens dp) (opays dp) d0 K w \<and> (\<forall>row. r = Inr row \<longrightarrow> oknows (oopens dp) row (wDb w)))"
  unfolding get_onchain_def
proof (rule spec_bnd)
  show "spec (ofollows (oopens dp) (opays dp) d0 K) (getRow (ostore dp) i)
      (\<lambda>res w. ofollows (oopens dp) (opays dp) d0 K w \<and> (\<forall>r. res = Inr r \<longrightarrow> oknows (oopens dp) (onchain_toRow r) (wDb w)))"
    by (rule onchain_service.spec_getRow [OF K]) (use inv oknows_read in blast)
qed (auto simp: spec_def ret_def)

lemma okeep_get:
  assumes "stable (oexec dp) K" and "\<And>d. K d \<Longrightarrow> onchain_inv (oopens dp) d"
    and "\<And>row. keeps (ofollows (oopens dp) (opays dp) d0 (\<lambda>d. K d \<and> oknows (oopens dp) row d)) (f row)"
  shows "keeps (ofollows (oopens dp) (opays dp) d0 K) (bnd (get_onchain dp i) f)"
  by (rule keeps_learn [OF spec_get_onchain [OF assms(1,2)] assms(3)])

lemma okeep_approval [okeep]:
  "stable (oexec dp) K \<Longrightarrow> keeps (ofollows (oopens dp) (opays dp) d0 K) (askApproval dp i amount)"
  unfolding askApproval_def by (intro keep okeep)

lemma okeep_enterFunding [okeep]:
  "stable (oexec dp) K \<Longrightarrow> keeps (ofollows (oopens dp) (opays dp) d0 K) (enterFunding dp i)"
  unfolding enterFunding_def by (intro keep okeep) simp_all

lemma okeep_whenFunded:
  assumes K: "stable (oexec dp) K" and k: "\<And>d. K d \<Longrightarrow> oknows (oopens dp) row d"
  shows "keeps (ofollows (oopens dp) (opays dp) d0 K) (whenFunded dp row)"
proof -
  have "keeps (ofollows (oopens dp) (opays dp) d0 K) (submit_fresh dp (onId row))"
    unfolding submit_fresh_def by (rule okeep_get [OF K oknows_inv [OF k]]) (auto intro!: okeep_submitFunding stable_conj K)
  then show ?thesis unfolding whenFunded_def by (intro keep okeep okeep_fail [OF K oknows_inv [OF k]] K)
qed

lemma okeep_whenQuoted:
  assumes K: "stable (oexec dp) K" and inv: "\<And>d. K d \<Longrightarrow> onchain_inv (oopens dp) d"
  shows "keeps (ofollows (oopens dp) (opays dp) d0 K) (whenQuoted dp row)"
  unfolding whenQuoted_def Let_def by (intro keep okeep okeep_fail [OF K inv] K) simp_all

lemma okeep_whenAwaitingClaim:
  assumes K: "stable (oexec dp) K" and k: "\<And>d. K d \<Longrightarrow> oknows (oopens dp) row d" and hex: "hex_roundtrip dp"
  shows "keeps (ofollows (oopens dp) (opays dp) d0 K) (whenAwaitingClaim dp row)"
  unfolding whenAwaitingClaim_def
  by (intro keep okeep okeep_fail [OF K oknows_inv [OF k]] okeep_claiming [OF K k matching_opens [OF hex]] K) simp_all

text \<open>The contract of the unrolled claims, on this leg.\<close>

definition onchain_collectable :: "(string \<Rightarrow> string \<Rightarrow> bool) \<Rightarrow> string \<Rightarrow> string \<Rightarrow> onchain_db \<Rightarrow> bool" where
  "onchain_collectable opens i p d \<longleftrightarrow> (\<exists>r. row_of d i = Some r \<and> may_collect_onchain opens r p)"

interpretation onchain_collects: claim_contract "oexec dp" d0 "onchain_leg dp" "onchain_collectable (oopens dp)"
  for dp d0
proof unfold_locales
  show "keeps (tracks (oexec dp) d0 K) (perform (oexec dp) sc (clClaimAct (onchain_leg dp) i p key) f)"
    if "stable (oexec dp) K" "\<And>d. K d \<Longrightarrow> onchain_collectable (oopens dp) i p d"
    for K i p sc key and f :: "nat \<Rightarrow> exn + string list \<times> (exn + unrolled_step)"
    by (rule okeep_act [OF that(1)]) (auto simp: onchain_permitted_Some onchain_collectable_def dest: that(2))
  show "keeps (tracks (oexec dp) d0 K) (failRow (clStore (onchain_leg dp)) i (clClaiming (onchain_leg dp)) reason)"
    if "stable (oexec dp) K" for K i reason
    by (simp, rule onchain_service.keeps_failRow [OF that])
      (auto simp: ONCHAIN_SHAPE_def set_fields_cols)
qed (auto intro: interference.pos_irrelevant [OF onchain_service.tracks_interference]
  interference.rival_keeps [OF onchain_service.tracks_interference] okeep_patch okeep_move)

lemma okeep_whenClaiming:
  assumes K: "stable (oexec dp) K" and k: "\<And>d. K d \<Longrightarrow> oknows (oopens dp) row d" and s: "onState row = O_claiming"
  shows "keeps (ofollows (oopens dp) (opays dp) d0 K) (whenClaiming dp row)"
proof (cases "truthy (onPreimage row)")
  case None
  then show ?thesis unfolding whenClaiming_def by (simp, intro keep okeep okeep_fail [OF K oknows_inv [OF k]])
next
  case (Some p)
  then have p: "onPreimage row = Some p" by (rule truthy_Some)
  have collect: "onchain_collectable (oopens dp) (kwId (onchain_claim_row row)) p d" if "K d" for d
    using k [OF that] s p by (auto simp: oknows_def onchain_collectable_def onchain_claim_row_def)
  note fail = okeep_fail [OF K oknows_inv [OF k]]
  note claim = okeep_act [OF K known_acts(4) [OF k s p]]
  note left = onchain_collects.leftover_keeps [OF K]
  have before: "keeps (ofollows (oopens dp) (opays dp) d0 K) (claimed_before dp row)"
    unfolding claimed_before_def by (intro left keep okeep K)
  have short: "keeps (ofollows (oopens dp) (opays dp) d0 K) (when_short dp row p held)" for held
    unfolding when_short_def by (intro before claim fail keep okeep K) simp_all
  have off: "keeps (ofollows (oopens dp) (opays dp) d0 K) (claim_offchain dp row p outs)" for outs
    unfolding claim_offchain_def by (intro claim fail keep okeep K)
  have finish: "keeps (ofollows (oopens dp) (opays dp) d0 K) (finish_claim dp row outs unrolled txid)" for outs unrolled txid
    unfolding finish_claim_def
    by (intro left onchain_collects.awaitLeftover_keeps [OF K] onchain_collects.settle_keeps [OF K] keep okeep K) simp_all
  show ?thesis unfolding whenClaiming_def Some option.case Let_def
    by (intro short off finish onchain_collects.advance_keeps [OF K collect] keep okeep K)
qed

lemma okeep_step:
  assumes K: "stable (oexec dp) K" and k: "\<And>d. K d \<Longrightarrow> oknows (oopens dp) row d" and hex: "hex_roundtrip dp"
  shows "keeps (ofollows (oopens dp) (opays dp) d0 K) (step dp row)"
proof (cases "\<exists>d. K d")
  case True
  then obtain d where d: "K d" ..
  show ?thesis
    by (cases "onState row")
      (simp_all add: step_def keeps_ret okeep_whenQuoted [OF K oknows_inv [OF k]] okeep_whenFunded [OF K k]
        okeep_whenFundingOnchain [OF K k _ d] okeep_whenAwaitingClaim [OF K k hex] okeep_whenClaiming [OF K k]
        okeep_whenRefundingOnchain [OF K k hex])
qed (simp add: spec_def tracks_def)

lemma onchain_driver:
  assumes "hex_roundtrip dp"
  shows "driver (oexec dp) (ofollows (oopens dp) (opays dp) d0) (onchain_inv (oopens dp)) (oknows (oopens dp))
    (get_onchain dp) (step dp)"
proof unfold_locales
  show "spec (ofollows (oopens dp) (opays dp) d0 K) (get_onchain dp i)
      (\<lambda>r w. ofollows (oopens dp) (opays dp) d0 K w \<and> (\<forall>row. r = Inr row \<longrightarrow> oknows (oopens dp) row (wDb w)))"
    if "stable (oexec dp) K" "\<And>d. K d \<Longrightarrow> onchain_inv (oopens dp) d" for K i
    by (rule spec_get_onchain [OF that])
qed (auto simp: tracks_conj intro: oknows_inv okeep_step assms)

section \<open>The sweep and the operator\<close>

definition all_returnable :: "(string \<Rightarrow> string \<Rightarrow> bool) \<Rightarrow> OnchainSendSwapRow list \<Rightarrow> onchain_db \<Rightarrow> bool" where
  "all_returnable opens rows d \<longleftrightarrow> (\<forall>row \<in> set rows. oknows opens row d \<and> onState row \<in> {O_refused, O_refunded})"

lemma stable_all_returnable: "stable (exec_onchain opens pays) (all_returnable opens rows)"
  using stable_oknows [of opens pays] unfolding stable_def all_returnable_def by blast

lemma okeep_sweep_each:
  assumes K: "stable (oexec dp) K" and k: "\<And>d. K d \<Longrightarrow> all_returnable (oopens dp) rows d"
  shows "keeps (ofollows (oopens dp) (opays dp) d0 K) (sweep_each dp rows parked)"
  using k
proof (induction rows arbitrary: parked)
  case (Cons row rows)
  have give: "oexec dp (ReturnLockup (onId row)) d = Some d" if "K d" for d
    using Cons.prems [OF that] by (intro known_acts(2)) (auto simp: all_returnable_def)
  have one: "keeps (ofollows (oopens dp) (opays dp) d0 K) (sweep_one dp row)"
    unfolding sweep_one_def by (intro okeep_pushRefund [where give = ReturnLockup, OF K give] okeep_final [OF K] keep okeep K)
  have rest: "keeps (ofollows (oopens dp) (opays dp) d0 K) (sweep_each dp rows ps)" for ps
    by (rule Cons.IH) (use Cons.prems in \<open>auto simp: all_returnable_def\<close>)
  show ?case unfolding sweep_each.simps Let_def by (intro one rest keep okeep K)
qed (simp add: keeps_ret)

lemma okeep_read_rows:
  assumes K: "stable (oexec dp) K" and inv: "\<And>d. K d \<Longrightarrow> onchain_inv (oopens dp) d"
    and pick: "\<And>d r. r \<in> set (pick d) \<Longrightarrow> r \<in> set (dbRows d) \<and> rwState r \<in> {O_refused, O_refunded}"
    and f: "\<And>rows. keeps (ofollows (oopens dp) (opays dp) d0 (\<lambda>d. K d \<and> all_returnable (oopens dp) rows d)) (f rows)"
  shows "keeps (ofollows (oopens dp) (opays dp) d0 K) (bnd (read_db (oexec dp) sc (\<lambda>d. Inr (map onchain_toRow (pick d)))) f)"
proof (rule keeps_learn [OF _ f])
  show "spec (ofollows (oopens dp) (opays dp) d0 K) (read_db (oexec dp) sc (\<lambda>d. Inr (map onchain_toRow (pick d))))
      (\<lambda>r w. ofollows (oopens dp) (opays dp) d0 K w \<and> (\<forall>rows. r = Inr rows \<longrightarrow> all_returnable (oopens dp) rows (wDb w)))"
  proof (rule interference.spec_read [OF onchain_service.tracks_interference [OF K]])
    fix w rows
    assume w: "ofollows (oopens dp) (opays dp) d0 K w" and "Inr (map onchain_toRow (pick (wDb w))) = (Inr rows :: exn + _)"
    then have rows: "rows = map onchain_toRow (pick (wDb w))" by simp
    have i: "onchain_inv (oopens dp) (wDb w)" and ids: "ids_distinct (wDb w)" using w inv by (auto simp: tracks_def)
    have "oknows (oopens dp) (onchain_toRow r) (wDb w) \<and> onState (onchain_toRow r) \<in> {O_refused, O_refunded}"
      if "r \<in> set (pick (wDb w))" for r
      using oknows_read [OF i, of "rwId r" r] row_of_eq [OF ids, of "rwId r" r] pick [OF that]
      by (simp add: onchain_toRow_def Let_def)
    then show "all_returnable (oopens dp) rows (wDb w)" by (auto simp: all_returnable_def rows)
  qed
qed

lemma okeep_refundSweep:
  assumes K: "stable (oexec dp) K" and inv: "\<And>d. K d \<Longrightarrow> onchain_inv (oopens dp) d"
  shows "keeps (ofollows (oopens dp) (opays dp) d0 K) (refundSweep dp parked)"
  unfolding refundSweep_def Let_def
proof (rule keeps_bnd [OF okeep_now [OF K]], rule okeep_read_rows [OF K inv])
  fix tm rows
  let ?J = "\<lambda>d. K d \<and> all_returnable (oopens dp) rows d"
  have J: "stable (oexec dp) ?J" by (intro stable_conj K stable_all_returnable)
  show "keeps (ofollows (oopens dp) (opays dp) d0 ?J)
      (bnd (read_db (oexec dp) (odSchedule dp) (\<lambda>d. Inr (map onchain_toRow (findReleasable tm d)))) (\<lambda>releasable.
        sweep_each dp (rows @ releasable) (filter (\<lambda>p. fst p \<in> onId ` set (rows @ releasable)) parked)))"
  proof (rule okeep_read_rows [OF J])
    fix more
    show "keeps (ofollows (oopens dp) (opays dp) d0 (\<lambda>d. ?J d \<and> all_returnable (oopens dp) more d))
        (sweep_each dp (rows @ more) (filter (\<lambda>p. fst p \<in> onId ` set (rows @ more)) parked))"
      by (rule okeep_sweep_each [OF stable_conj [OF J stable_all_returnable]]) (auto simp: all_returnable_def)
  qed (use inv in \<open>auto simp: findReleasable_def by_created_def\<close>)
qed (auto simp: findRefundable_def by_created_def)

lemma okeep_refundNow:
  assumes K: "stable (oexec dp) K" and inv: "\<And>d. K d \<Longrightarrow> onchain_inv (oopens dp) d"
  shows "keeps (ofollows (oopens dp) (opays dp) d0 K) (refundNow dp i)"
  unfolding refundNow_def
proof (rule okeep_get [OF K inv])
  fix row
  let ?J = "\<lambda>d. K d \<and> oknows (oopens dp) row d"
  have J: "stable (oexec dp) ?J" by (intro stable_conj K stable_oknows)
  have push: "keeps (ofollows (oopens dp) (opays dp) d0 ?J) (pushRefund dp OperatorReturn True row)"
    by (rule okeep_pushRefund [OF J]) (blast intro: known_acts(1))
  have find: "keeps (ofollows (oopens dp) (opays dp) d0 ?J) (clientClaimPreimage dp row)"
    unfolding clientClaimPreimage_def by (intro keep okeep J)
  show "keeps (ofollows (oopens dp) (opays dp) d0 ?J) (bnd (clientClaimPreimage dp row) (\<lambda>preimage.
     case preimage of
       Some p \<Rightarrow> throw (Thrown (''swap '' @ i @ '': the client already claimed the onchain HTLC, preimage '' @ odHexEncode dp p @ dash @
         ''refunding the arkade lockup would pay them twice; claim the lockup with that preimage instead''))
     | None \<Rightarrow> pushRefund dp OperatorReturn True row))"
    by (intro find push keep)
qed

lemma okeep_reclaim:
  assumes K: "stable (oexec dp) K" and inv: "\<And>d. K d \<Longrightarrow> onchain_inv (oopens dp) d"
  shows "keeps (ofollows (oopens dp) (opays dp) d0 K) (reclaimOnchainHtlc dp busy i)"
  unfolding reclaimOnchainHtlc_def
proof (rule okeep_get [OF K inv], assumption, intro keep okeep)
  fix row out and x :: "OnchainTxOutcome \<times> string option" and outcome confirmed
  assume "funded_outpoint row = Some out"
  note f = funded_outpoint_txid [OF this]
  let ?J = "\<lambda>d. K d \<and> oknows (oopens dp) row d"
  have J: "stable (oexec dp) ?J" by (intro stable_conj K stable_oknows)
  have k: "oknows (oopens dp) row d" if "?J d" for d using that by simp
  show "keeps (ofollows (oopens dp) (opays dp) d0 ?J) (reclaim_unconfirmed dp busy row out outcome)"
    unfolding reclaim_unconfirmed_def
    by (intro keep okeep okeep_replace [OF J k f] okeep_pushOnchainHtlcRefund [OF J k f] J)
qed (intro stable_conj K stable_oknows)

lemma first_of_in: "first_of xs = Some x \<Longrightarrow> x \<in> set xs"
  by (cases xs) (simp_all add: first_of_def)

lemma spec_read_row:
  assumes K: "stable (oexec dp) K" and inv: "\<And>d. K d \<Longrightarrow> onchain_inv (oopens dp) d"
    and pick: "\<And>d r. pick d = Some r \<Longrightarrow> r \<in> set (dbRows d)"
  shows "spec (ofollows (oopens dp) (opays dp) d0 K) (read_db (oexec dp) sc (\<lambda>d. Inr (map_option onchain_toRow (pick d))))
    (\<lambda>r w. ofollows (oopens dp) (opays dp) d0 K w \<and>
      (\<forall>found. r = Inr found \<longrightarrow> (\<forall>row. found = Some row \<longrightarrow> oknows (oopens dp) row (wDb w))))"
proof (rule interference.spec_read [OF onchain_service.tracks_interference [OF K]], intro allI impI)
  fix w found row
  assume w: "ofollows (oopens dp) (opays dp) d0 K w"
    and "Inr (map_option onchain_toRow (pick (wDb w))) = (Inr found :: exn + _)" "found = Some row"
  then obtain r where r: "pick (wDb w) = Some r" "row = onchain_toRow r" by auto
  have "onchain_inv (oopens dp) (wDb w)" "ids_distinct (wDb w)" using w inv by (auto simp: tracks_def)
  then show "oknows (oopens dp) row (wDb w)"
    using oknows_read [of "oopens dp" "wDb w" "rwId r" r] row_of_eq [of "wDb w" "rwId r" r] pick [OF r(1)] r(2) by simp
qed

lemma okeep_refundSweptLockup:
  assumes K: "stable (oexec dp) K" and inv: "\<And>d. K d \<Longrightarrow> onchain_inv (oopens dp) d"
  shows "keeps (ofollows (oopens dp) (opays dp) d0 K) (refundSweptLockup dp pkScript)"
proof (cases "odFindSweptLockups dp"; cases "odRefundSwept dp")
  fix findSwept refundSwept
  assume ports: "odFindSweptLockups dp = Some findSwept" "odRefundSwept dp = Some refundSwept"
  show ?thesis unfolding refundSweptLockup_def ports prod.case option.case
  proof (rule keeps_learn [OF spec_read_row [OF K inv]])
    show "r \<in> set (dbRows d)" if "findByPkScript ONCHAIN_SHAPE pkScript d = Some r" for d r
      using first_of_in [OF that [unfolded findByPkScript_def findBy_def]] by (simp add: newest_first_def)
    fix found :: "OnchainSendSwapRow option"
    let ?J = "\<lambda>d. K d \<and> (\<forall>row. found = Some row \<longrightarrow> oknows (oopens dp) row d)"
    have J: "stable (oexec dp) ?J" using K stable_oknows [of "oopens dp" "opays dp"] unfolding stable_def by blast
    have give: "oexec dp (ReturnLockup (onId row)) d = Some d" if "found = Some row" "\<not> onState row \<noteq> O_refused" "?J d" for row d
      using that by (intro known_acts(2)) auto
    show "keeps (ofollows (oopens dp) (opays dp) d0 ?J) (case found of
         None \<Rightarrow> ret None
       | Some row \<Rightarrow>
           bnd (ocall dp (\<lambda>n. findSwept n pkScript)) (\<lambda>swept.
           if swept = [] then ret None
           else if onState row \<noteq> O_refused then ret (Some (Swept_held (onId row) (onState row)))
           else
             bnd (oact dp (ReturnLockup (onId row)) refundSwept) (\<lambda>txid.
             let recorded = (onRefundOutcome row = None) in
             thn (only_if recorded (patch (ostore dp) (onId row)
               ((N_refund_outcome, SText ''pushed'') # (if txid = [] then [] else [(N_refund_ark_txid, SText txid)]))))
             (ret (Some (Swept_refunded (onId row) txid recorded))))))"
      unfolding Let_def by (intro keep okeep okeep_act [OF J give] J)
  qed assumption
qed (simp_all add: refundSweptLockup_def keeps_ret)

lemma okeep_insertQuote:
  assumes K: "stable (oexec dp) K"
  shows "keeps (ofollows (oopens dp) (opays dp) d0 K) (insertQuote dp quote)"
proof -
  have ins: "keeps (ofollows (oopens dp) (opays dp) d0 K) (write_db (oexec dp) (odSchedule dp) (\<lambda>d.
       if findLiveByPaymentHash ONCHAIN_SHAPE (oqPaymentHash quote) d \<noteq> None then ([], Inl (UniqueConstraint ''payment_hash''), d)
       else if oqId quote \<in> rwId ` set (dbRows d) then ([], Inl (UniqueConstraint ''UNIQUE constraint failed: send_onchain_swap.id''), d)
       else ([OSt (Insert (onchain_quote_row quote tm))], Inr (), d\<lparr>dbRows := dbRows d @ [onchain_quote_row quote tm]\<rparr>)))"
    for tm
  proof (rule interference.keeps_write [OF onchain_service.tracks_interference [OF K]])
    fix w acts and x :: "exn + unit" and db
    assume w: "ofollows (oopens dp) (opays dp) d0 K w"
    let ?r = "onchain_quote_row quote tm"
    assume "(if findLiveByPaymentHash ONCHAIN_SHAPE (oqPaymentHash quote) (wDb w) \<noteq> None
        then ([], Inl (UniqueConstraint ''payment_hash''), wDb w)
        else if oqId quote \<in> rwId ` set (dbRows (wDb w))
        then ([], Inl (UniqueConstraint ''UNIQUE constraint failed: send_onchain_swap.id''), wDb w)
        else ([OSt (Insert ?r)], Inr (), (wDb w)\<lparr>dbRows := dbRows (wDb w) @ [?r]\<rparr>)) = (acts, x, db)"
    then consider "acts = []" "db = wDb w"
      | "acts = [OSt (Insert ?r)]" "oexec dp (OSt (Insert ?r)) (wDb w) = Some db"
      by (auto simp: onchain_quote_row_def onchain_quote_cols_def ONCHAIN_SHAPE_def split: if_splits)
    then show "ofollows (oopens dp) (opays dp) d0 K (w\<lparr>wDb := db, wLog := wLog w @ map Own acts\<rparr>)"
      using w onchain_service.tracks_own [OF K w] by cases simp_all
  qed
  have get: "keeps (ofollows (oopens dp) (opays dp) d0 K) (getRow (ostore dp) i)" for i
    by (rule onchain_service.keeps_getRow [OF K])
  show ?thesis unfolding insertQuote_def Let_def by (intro ins get keep okeep K)
qed

section \<open>The service\<close>

abbreviation lawful_onchain :: "OnchainSendServiceDeps \<Rightarrow> onchain_db \<Rightarrow> 'a onchain_job \<Rightarrow> bool" where
  "lawful_onchain dp \<equiv> lawful_run (oexec dp) (onchain_inv (oopens dp))"

text \<open>
  C5: the onchain orchestrator refines the service contract. A tick of any swap, the recovery sweep, the refund
  sweep, the insertion of a quote and the operator's refunds of a lockup and of an HTLC perform only enabled acts,
  under every interleaving with other workers, every answer or error of the ports and a crash at any await, and the
  table invariant holds wherever a job stops. The hex codec must decode what it encodes.
\<close>

theorem onchain_service_refines:
  assumes "onchain_inv (oopens dp) d0" and "hex_roundtrip dp"
  shows "lawful_onchain dp d0 (tick dp fuel busy i) \<and> lawful_onchain dp d0 (tickAll dp fuel skip) \<and>
    lawful_onchain dp d0 (refundSweep dp parked) \<and> lawful_onchain dp d0 (refundSweptLockup dp pkScript) \<and>
    lawful_onchain dp d0 (insertQuote dp quote) \<and> lawful_onchain dp d0 (refundNow dp i) \<and>
    lawful_onchain dp d0 (reclaimOnchainHtlc dp busy i)"
proof -
  let ?I = "onchain_inv (oopens dp)"
  note K = stable_onchain_inv [of "oopens dp" "opays dp"]
  note driven = onchain_driver [OF assms(2)]
  have ids: "ids_distinct d0" using assms(1) by (simp add: onchain_inv_def)
  have tick: "keeps (ofollows (oopens dp) (opays dp) d0 ?I) (tick dp fuel busy i)"
    unfolding tick_def by (rule driver.keeps_guardedTick [OF driven K])
  have all: "keeps (ofollows (oopens dp) (opays dp) d0 ?I) (tickAll dp fuel skip)"
    unfolding tickAll_def tick_def by (intro keeps_bnd okeep_read [OF K] driver.keeps_sweep [OF driven K])
  show ?thesis
    by (intro conjI lawful_run_if_keeps [where J = ?I, OF _ assms(1) ids] tick all okeep_refundSweep [OF K] okeep_refundSweptLockup [OF K]
        okeep_insertQuote [OF K] okeep_refundNow [OF K] okeep_reclaim [OF K]; assumption)
qed

text \<open>A service wired to ports that cooperate, and a table with one fresh quote.\<close>

definition sample_onchain_deps :: OnchainSendServiceDeps where
  "sample_onchain_deps =
     \<lparr>odSchedule = \<lparr>scRival = \<lambda>_ _. [], scCrash = \<lambda>_. False, scClock = \<lambda>_. 1700000100\<rparr>,
      odHexDecode = unary_decode 0, odHexEncode = unary_encode, odSha256Hex = unary_encode,
      odParseTx = \<lambda>_. Inr (''t'', [(Some ''51'', 99000)]), odRebuiltPkScript = \<lambda>row. Inr (onOnchainPkScript row),
      odRefundVsize = \<lambda>_. Inr 150, odSignRefund = \<lambda>_ _ _. Inr (''rt'', ''rr''), odRecourse = \<lambda>_. [],
      odProviderPubkey = ''01'', odNetwork = Regtest,
      odFindLockups = \<lambda>_ _. Inr [\<lparr>foTxid = ''l'', foVout = 0, foValue = 100000, foAssets = [], foExpiresAt = None\<rparr>],
      odSpendEvidence = \<lambda>_ _. Inr Ev_unspent, odFindSweptLockups = None, odRefundSwept = None,
      odRefund = \<lambda>_. Inr ''r'', odClaim = \<lambda>_. Inr ''c'', odFinalizePendingClaim = None, odLockupOutpoints = None,
      odFindClaimPreimage = None, odClaimUnrolled = None, odFindOutputs = \<lambda>_ _. Inr [],
      odEstimateFeeRate = \<lambda>_. Inr 5, odSignFunding = \<lambda>_ _ _ _. Inr ''raw'', odTransactionOutcome = \<lambda>_ _. Inr Tx_unknown,
      odBroadcastRaw = \<lambda>_. Inr (), odFindSpendWitness = \<lambda>_ _ _. Inr None, odApprovalGate = None\<rparr>"

definition sample_onchain_db :: onchain_db where
  "sample_onchain_db = \<lparr>dbRows = [onchain_quote_row sample_onchain_quote 1700000000], dbEvents = []\<rparr>"

lemma sample_onchain_db_inv: "onchain_inv opens sample_onchain_db"
proof -
  have "run_all (exec_onchain opens (\<lambda>_ _ _. True)) [OSt (Insert (hd (dbRows sample_onchain_db)))] empty_onchain_db =
      Some sample_onchain_db"
    by (simp add: sample_onchain_db_def onchain_eval)
  then show ?thesis using run_keeps_onchain_inv empty_onchain_inv by blast
qed

lemma sample_onchain_hex: "hex_roundtrip sample_onchain_deps"
  by (simp add: hex_roundtrip_def sample_onchain_deps_def unary_roundtrip)

theorem onchain_service_refines_witness:
  "lawful_onchain sample_onchain_deps sample_onchain_db (tick sample_onchain_deps 10 False ''a'') \<and>
   lawful_onchain sample_onchain_deps sample_onchain_db (refundSweep sample_onchain_deps [])"
  using onchain_service_refines [OF sample_onchain_db_inv sample_onchain_hex] by blast

end
