(* ===== verification/Admission.thy ===== *)
theory Admission
  imports Effects
begin

text \<open>
  \<^verbatim>\<open>core/admission.ts\<close> and \<^verbatim>\<open>core/admissionStrategy.ts\<close>: the headroom a quote reserves between the check of
  the exposure cap and the insertion of its row. The fields of \<open>AdmissionControl\<close> are a record. The
  closures \<open>releasing\<close> builds are cells of an explicit heap: each has its own \<open>released\<close> flag and its list
  of undo steps, and a \<open>Reservation\<close> is the address of one. The critical sections of \<open>serialise\<close> run one
  at a time; at an await inside one the others can still release reservations, restore inventory and
  change what the ports read, and while a request waits for its turn the others can be admitted too.
\<close>

section \<open>State\<close>

datatype claim = Exposure int | Float int | Inventory string int

datatype undo = Give claim | ReleaseHeld nat

record closure =
  clReleased :: bool
  clUndo :: "undo list"

record 'e AdmissionControl =
  adReserved :: int
  adReservedFloat :: int
  adInventory :: "string \<Rightarrow> int option"
  adGeneration :: int
  adCells :: "closure list"
  adOutside :: 'e

definition outstandingInventorySats :: "string \<Rightarrow> 'e AdmissionControl \<Rightarrow> int" where
  "outstandingInventorySats pool d = (case adInventory d pool of None \<Rightarrow> 0 | Some n \<Rightarrow> n)"

definition isSafeInteger :: "int \<Rightarrow> bool" where
  "isSafeInteger n \<longleftrightarrow> \<bar>n\<bar> \<le> 2 ^ 53 - 1"

section \<open>Reservations\<close>

text \<open>The bodies of the undo closures of \<open>claimExposure\<close>, \<open>claimFloat\<close> and \<open>restoreInventory\<close>.\<close>

fun give :: "claim \<Rightarrow> 'e AdmissionControl \<Rightarrow> 'e AdmissionControl" where
  "give (Exposure sats) d = d\<lparr>adReserved := adReserved d - sats\<rparr>"
| "give (Float required) d = d\<lparr>adReservedFloat := adReservedFloat d - required\<rparr>"
| "give (Inventory pool required) d =
     d\<lparr>adInventory := (adInventory d)(pool \<mapsto> outstandingInventorySats pool d - required),
       adGeneration := adGeneration d + 1\<rparr>"

definition releasing :: "undo list \<Rightarrow> 'e AdmissionControl \<Rightarrow> nat \<times> 'e AdmissionControl" where
  "releasing us d = (length (adCells d), d\<lparr>adCells := adCells d @ [\<lparr>clReleased = False, clUndo = us\<rparr>]\<rparr>)"

definition mark_released :: "nat \<Rightarrow> 'e AdmissionControl \<Rightarrow> 'e AdmissionControl" where
  "mark_released k d = d\<lparr>adCells := (adCells d)[k := (adCells d ! k)\<lparr>clReleased := True\<rparr>]\<rparr>"

text \<open>\<open>release()\<close>. A closure can only have captured a reservation that was made before it.\<close>

fun release :: "nat \<Rightarrow> 'e AdmissionControl \<Rightarrow> 'e AdmissionControl" where
  "release k d =
     (if k < length (adCells d) \<and> \<not> clReleased (adCells d ! k)
      then fold (\<lambda>u d. case u of Give c \<Rightarrow> give c d | ReleaseHeld j \<Rightarrow> if j < k then release j d else d)
             (clUndo (adCells d ! k)) (mark_released k d)
      else d)"

declare release.simps [simp del]


definition claimExposure :: "int \<Rightarrow> int \<Rightarrow> int \<Rightarrow> 'e AdmissionControl \<Rightarrow> (undo \<times> 'e AdmissionControl) option" where
  "claimExposure sats capSats committed d =
     (if committed + adReserved d + sats > capSats then None
      else Some (Give (Exposure sats), d\<lparr>adReserved := adReserved d + sats\<rparr>))"


definition restoreInventory :: "string \<Rightarrow> int \<Rightarrow> 'e AdmissionControl \<Rightarrow> exn + nat \<times> 'e AdmissionControl" where
  "restoreInventory pool required d =
     (if pool = [] \<or> \<not> isSafeInteger required \<or> required \<le> 0 then Inl (Thrown ''invalid inventory reservation'')
      else let next = outstandingInventorySats pool d + required in
        if \<not> isSafeInteger next then Inl (Thrown ''inventory reservation exceeds safe integer range'')
        else Inr (releasing [Give (Inventory pool required)] (d\<lparr>adInventory := (adInventory d)(pool \<mapsto> next)\<rparr>)))"

section \<open>What the others can do\<close>

text \<open>
  \<open>Granted us\<close> is the whole effect of another request that went through the queue: the claims taken, and the
  reservation that holds them. It cannot happen inside a critical section.
\<close>

datatype 'e adm_act = Released nat | Restored string int | Outside 'e | Granted "claim list"

fun take_claim :: "claim \<Rightarrow> 'e AdmissionControl \<Rightarrow> 'e AdmissionControl" where
  "take_claim (Exposure sats) d = d\<lparr>adReserved := adReserved d + sats\<rparr>"
| "take_claim (Float required) d = d\<lparr>adReservedFloat := adReservedFloat d + required\<rparr>"
| "take_claim (Inventory pool required) d =
     d\<lparr>adInventory := (adInventory d)(pool \<mapsto> outstandingInventorySats pool d + required)\<rparr>"

fun exec_admission :: "bool \<Rightarrow> 'e adm_act \<Rightarrow> 'e AdmissionControl \<Rightarrow> 'e AdmissionControl option" where
  "exec_admission queued (Released k) d = Some (release k d)"
| "exec_admission queued (Restored pool n) d = (case restoreInventory pool n d of Inl _ \<Rightarrow> None | Inr (k, d') \<Rightarrow> Some d')"
| "exec_admission queued (Outside e) d = Some (d\<lparr>adOutside := e\<rparr>)"
| "exec_admission queued (Granted cs) d =
     (if queued then None else Some (snd (releasing (map Give cs) (fold take_claim cs d))))"

type_synonym ('e, 'a) adm_job = "('e AdmissionControl, 'e adm_act, 'a) worker"
type_synonym 'e adm_schedule = "('e AdmissionControl, 'e adm_act) schedule"

text \<open>
  An awaited read of a port: the value is taken at one moment and the caller resumes at a later one. A
  synchronous step on the counters.
\<close>

definition fetch :: "'e adm_schedule \<Rightarrow> ('e \<Rightarrow> exn + 'a) \<Rightarrow> ('e, 'a) adm_job" where
  "fetch sc f =
     bnd (read_db (exec_admission True) sc (\<lambda>d. Inr (f (adOutside d)))) (\<lambda>answer.
     thn (await (exec_admission True) sc) (\<lambda>w. (answer, w)))"

definition step_with :: "('e AdmissionControl \<Rightarrow> 'a \<times> 'e AdmissionControl) \<Rightarrow> ('e, 'a) adm_job" where
  "step_with f = (\<lambda>w. case f (wDb w) of (x, d) \<Rightarrow> (Inr x, w\<lparr>wDb := d\<rparr>))"

text \<open>\<open>serialise(job)\<close>: wait until the jobs before it are done, then run.\<close>

definition serialise :: "'e adm_schedule \<Rightarrow> ('e, 'a) adm_job \<Rightarrow> ('e, 'a) adm_job" where
  "serialise sc job = thn (await (exec_admission False) sc) job"

definition claimed_or :: "'b \<Rightarrow> ('e AdmissionControl \<Rightarrow> ('a \<times> 'e AdmissionControl) option) \<Rightarrow> ('a \<Rightarrow> 'b) \<Rightarrow>
    'e AdmissionControl \<Rightarrow> 'b \<times> 'e AdmissionControl" where
  "claimed_or z f g d = (case f d of None \<Rightarrow> (z, d) | Some (x, d') \<Rightarrow> (g x, d'))"

section \<open>Operations\<close>

definition reserve :: "'e adm_schedule \<Rightarrow> int \<Rightarrow> ('e \<Rightarrow> exn + int) \<Rightarrow> int \<Rightarrow> ('e, nat option) adm_job" where
  "reserve sc sats committedSats capSats = serialise sc
     (if \<not> sats > 0 then throw (Thrown ''reserve() needs a positive size'')
      else bnd (fetch sc committedSats) (\<lambda>committed.
        bnd (step_with (claimed_or None (claimExposure sats capSats committed) Some)) (\<lambda>claimed.
        case claimed of
          None \<Rightarrow> ret None
        | Some undo \<Rightarrow> bnd (step_with (releasing [undo])) (\<lambda>k. ret (Some k)))))"














section \<open>The books\<close>

text \<open>
  The three kinds of counter, what a claim is worth on each, and the books: every counter is the sum of the
  claims held by the reservations that were not released, and by the request that is being decided
  (\<open>pending\<close>).
\<close>

datatype counter = Cap_counter | Float_counter | Pool_counter string

fun counted :: "counter \<Rightarrow> 'e AdmissionControl \<Rightarrow> int" where
  "counted Cap_counter d = adReserved d"
| "counted Float_counter d = adReservedFloat d"
| "counted (Pool_counter pool) d = outstandingInventorySats pool d"

fun worth :: "counter \<Rightarrow> claim \<Rightarrow> int" where
  "worth Cap_counter (Exposure n) = n"
| "worth Float_counter (Float n) = n"
| "worth (Pool_counter pool) (Inventory p n) = (if p = pool then n else 0)"
| "worth _ _ = 0"

fun undo_worth :: "counter \<Rightarrow> undo \<Rightarrow> int" where
  "undo_worth c (Give x) = worth c x"
| "undo_worth c (ReleaseHeld _) = 0"

definition pending :: "counter \<Rightarrow> undo list \<Rightarrow> int" where
  "pending c us = sum_list (map (undo_worth c) us)"



lemma pending_simps [simp]:
  "pending c [] = 0" "pending c (u # us) = undo_worth c u + pending c us" "pending c (us @ vs) = pending c us + pending c vs"
  by (simp_all add: pending_def)

lemma counted_outside [simp]:
  "counted c (d\<lparr>adOutside := e\<rparr>) = counted c d" "counted c (d\<lparr>adCells := cells\<rparr>) = counted c d"
  "counted c (mark_released k d) = counted c d"
  by (cases c; simp add: outstandingInventorySats_def mark_released_def)+

lemma give_props [simp]: "counted c (give x d) = counted c d - worth c x" "adCells (give x d) = adCells d"
  by (cases x; cases c; simp add: outstandingInventorySats_def)+















section \<open>Every operation keeps the books\<close>











































section \<open>Properties\<close>



definition sample_ledger :: "int AdmissionControl" where
  "sample_ledger = \<lparr>adReserved = 90, adReservedFloat = 0, adInventory = (\<lambda>_. None), adGeneration = 0,
     adCells = [\<lparr>clReleased = False, clUndo = [Give (Exposure 90)]\<rparr>], adOutside = 0\<rparr>"


definition sample_ledger_world :: "(int AdmissionControl, int adm_act) world" where
  "sample_ledger_world = \<lparr>wDb = sample_ledger, wPos = 0, wLog = []\<rparr>"

definition calm :: "int adm_schedule" where
  "calm = \<lparr>scRival = (\<lambda>_ _. []), scCrash = (\<lambda>_. False), scClock = int\<rparr>"




definition landing :: "int adm_schedule" where
  "landing = calm\<lparr>scRival := (\<lambda>n _. if n = 2 then [Outside 90, Released 0] else [])\<rparr>"

lemma await_moves: "await exec sc w = (Inr (), w') \<Longrightarrow> wPos w' = Suc (wPos w)"
  by (auto simp: await_def Let_def split: if_splits prod.splits)

lemma await_quiet: "scRival sc (wPos w) (wDb w) = [] \<Longrightarrow> await exec sc w = (Inr (), w') \<Longrightarrow> wDb w' = wDb w"
  by (auto simp: await_def split: if_splits)

lemma fetch_quiet:
  assumes "\<And>d. scRival sc (Suc (wPos w)) d = []" and "fetch sc f w = (Inr x, w')"
  shows "f (adOutside (wDb w')) = Inr x"
proof -
  obtain w1 where w1: "await (exec_admission True) sc w = (Inr (), w1)"
    using assms(2) by (auto simp: fetch_def read_db_def bnd_def split: prod.splits sum.splits)
  then have last: "await (exec_admission True) sc w1 = (Inr (), w')" "f (adOutside (wDb w1)) = Inr x"
    using assms(2) by (auto simp: fetch_def read_db_def bnd_def split: prod.splits sum.splits)
  then show ?thesis using await_quiet [OF _ last(1)] await_moves [OF w1] assms(1) by simp
qed

lemma reserve_granted:
  assumes "reserve sc sats committedSats cap w = (Inr (Some k), w')"
  obtains w1 w2 committed where "await (exec_admission False) sc w = (Inr (), w1)"
    and "fetch sc committedSats w1 = (Inr committed, w2)" and "committed + adReserved (wDb w2) + sats \<le> cap"
    and "adReserved (wDb w') = adReserved (wDb w2) + sats" and "adOutside (wDb w') = adOutside (wDb w2)"
proof -
  obtain w1 where w1: "await (exec_admission False) sc w = (Inr (), w1)"
    using assms by (auto simp: reserve_def serialise_def bnd_def split: prod.splits sum.splits)
  then obtain committed w2 where w2: "fetch sc committedSats w1 = (Inr committed, w2)"
    using assms by (auto simp: reserve_def serialise_def bnd_def throw_def split: prod.splits sum.splits if_splits)
  from assms w1 w2 show ?thesis
    by (intro that [OF w1 w2])
      (auto simp: reserve_def serialise_def bnd_def throw_def step_with_def claimed_or_def claimExposure_def ret_def
        releasing_def split: if_splits)
qed

lemma landing_exceeds_cap:
  "case reserve landing 20 Inr 100 sample_ledger_world of (r, w') \<Rightarrow>
     r = Inr (Some 1) \<and> adOutside (wDb w') + adReserved (wDb w') = 110"
  by code_simp

text \<open>
  C39: what \<open>reserve\<close> promises about the cap. When nobody acts between the moment the committed total is read
  and the moment the check resumes, a reservation is granted only if what is committed and what is reserved,
  this request included, stay within the cap. In that window the promise can fail, as one run shows: the row of
  another quote lands there and its reservation is released, the check counts it neither as committed nor as
  reserved, and a request is granted although the two together exceed the cap.
\<close>

theorem reserve_cap_window:
  assumes "\<And>d. scRival sc (wPos w + 2) d = []" and "reserve sc sats committedSats cap w = (Inr (Some k), w')"
    and "committedSats (adOutside (wDb w')) = Inr committed"
  shows "committed + adReserved (wDb w') \<le> cap \<and>
    (case reserve landing 20 Inr 100 sample_ledger_world of (r, w') \<Rightarrow>
       r = Inr (Some 1) \<and> adOutside (wDb w') + adReserved (wDb w') = 110)"
proof -
  obtain w1 w2 c where run: "await (exec_admission False) sc w = (Inr (), w1)" "fetch sc committedSats w1 = (Inr c, w2)"
    and fits: "c + adReserved (wDb w2) + sats \<le> cap"
    and w': "adReserved (wDb w') = adReserved (wDb w2) + sats" "adOutside (wDb w') = adOutside (wDb w2)"
    by (rule reserve_granted [OF assms(2)])
  have "committedSats (adOutside (wDb w2)) = Inr c"
    using fetch_quiet [OF _ run(2)] await_moves [OF run(1)] assms(1) by simp
  then show ?thesis using fits w' assms(3) landing_exceeds_cap by simp
qed

theorem reserve_cap_window_witness:
  "fst (reserve calm 10 Inr 100 sample_ledger_world) = Inr (Some 1) \<and>
    (case reserve calm 10 Inr 100 sample_ledger_world of (r, w') \<Rightarrow> adOutside (wDb w') + adReserved (wDb w') \<le> 100)"
proof -
  have run: "fst (reserve calm 10 Inr 100 sample_ledger_world) = Inr (Some 1)" by code_simp
  obtain w' where w': "reserve calm 10 Inr 100 sample_ledger_world = (Inr (Some 1), w')"
    using run by (cases "reserve calm 10 Inr 100 sample_ledger_world") simp
  from reserve_cap_window [OF _ w', where committed = "adOutside (wDb w')"] show ?thesis
    using w' by (simp add: calm_def)
qed

end
