(* ===== verification/Evm_Store.thy ===== *)
theory Evm_Store
  imports Swap_Store Evm_Gates
begin

text \<open>
  \<^verbatim>\<open>db/evmSwapStore.ts\<close>, \<^verbatim>\<open>db/evmSendSwaps.ts\<close> and \<^verbatim>\<open>db/evmReceiveSwaps.ts\<close>: the two tables of the EVM corridors. They
  share the common columns; \<open>evm_col\<close> is the union of the two schemas. Unlike the stores of the Bitcoin
  corridors, \<open>transition\<close> here checks no table of legal edges: it compares the state, and throws when it lost.
\<close>

section \<open>Columns and rows\<close>

datatype evm_col =
    V_payment_hash | V_amount_sats | V_payout_sats | V_evm_amount | V_token_address | V_evm_contract_address
  | V_evm_chain_id | V_evm_timeout | V_valid_until | V_min_confirmations | V_min_age_seconds
  | V_evm_lock_txid | V_evm_claim_txid | V_evm_claim_address | V_evm_refund_address | V_refund_locktime
  | V_provider_pubkey | V_server_pubkey | V_claim_delay | V_refund_delay | V_refund_without_receiver_delay
  | V_pk_script | V_lockup_address | V_refund_pk_script | V_emulator_pubkey | V_client_refund_pubkey
  | V_receiver_pk_script | V_non_interactive_parameters | V_preimage | V_refund_ark_txid | V_rfq_id
  | V_failure_reason | V_evm_refund_txid | V_claim_ark_txid | V_refund_outcome | V_payout_pubkey
  | V_fund_ark_txid

record EvmCommonFields =
  ecId :: string
  ecCreatedAt :: int
  ecUpdatedAt :: int
  ecPaymentHash :: string
  ecAmountSats :: int
  ecPayoutSats :: int
  ecEvmAmount :: string
  ecTokenAddress :: string
  ecEvmContractAddress :: string
  ecEvmChainId :: int
  ecEvmTimeout :: int
  ecValidUntil :: int
  ecMinConfirmations :: int
  ecMinAgeSeconds :: int
  ecEvmLockTxid :: "string option"
  ecEvmClaimTxid :: "string option"
  ecEvmClaimAddress :: string
  ecEvmRefundAddress :: string
  ecRefundLocktime :: int
  ecProviderPubkey :: string
  ecServerPubkey :: string
  ecClaimDelay :: int
  ecRefundDelay :: int
  ecRefundWithoutReceiverDelay :: int
  ecPkScript :: string
  ecLockupAddress :: string
  ecRefundPkScript :: string
  ecEmulatorPubkey :: string
  ecClientRefundPubkey :: string
  ecReceiverPkScript :: string
  ecNonInteractiveParameters :: "bool option"
  ecPreimage :: "string option"
  ecRefundArkTxid :: "string option"
  ecRfqId :: "string option"
  ecFailureReason :: "string option"

text \<open>\<open>Number\<close> reads a null column as zero, \<open>String\<close> as the word \<open>null\<close>.\<close>

definition commonFields :: "('s, evm_col) raw \<Rightarrow> EvmCommonFields" where
  "commonFields raw = (let c = rwCols raw in
     \<lparr>ecId = rwId raw,
      ecCreatedAt = rwCreated raw,
      ecUpdatedAt = rwUpdated raw,
      ecPaymentHash = sql_text (c V_payment_hash),
      ecAmountSats = sql_int (c V_amount_sats),
      ecPayoutSats = (if c V_payout_sats = SNull then sql_int (c V_amount_sats) else sql_int (c V_payout_sats)),
      ecEvmAmount = sql_text (c V_evm_amount),
      ecTokenAddress = sql_text (c V_token_address),
      ecEvmContractAddress = sql_text (c V_evm_contract_address),
      ecEvmChainId = sql_int (c V_evm_chain_id),
      ecEvmTimeout = sql_int (c V_evm_timeout),
      ecValidUntil = sql_int (c V_valid_until),
      ecMinConfirmations = sql_int (c V_min_confirmations),
      ecMinAgeSeconds = sql_int (c V_min_age_seconds),
      ecEvmLockTxid = textOf (c V_evm_lock_txid),
      ecEvmClaimTxid = textOf (c V_evm_claim_txid),
      ecEvmClaimAddress = sql_text (c V_evm_claim_address),
      ecEvmRefundAddress = sql_text (c V_evm_refund_address),
      ecRefundLocktime = sql_int (c V_refund_locktime),
      ecProviderPubkey = sql_text (c V_provider_pubkey),
      ecServerPubkey = sql_text (c V_server_pubkey),
      ecClaimDelay = sql_int (c V_claim_delay),
      ecRefundDelay = sql_int (c V_refund_delay),
      ecRefundWithoutReceiverDelay = sql_int (c V_refund_without_receiver_delay),
      ecPkScript = sql_text (c V_pk_script),
      ecLockupAddress = sql_text (c V_lockup_address),
      ecRefundPkScript = sql_text (c V_refund_pk_script),
      ecEmulatorPubkey = sql_text (c V_emulator_pubkey),
      ecClientRefundPubkey = sql_text (c V_client_refund_pubkey),
      ecReceiverPkScript = sql_text (c V_receiver_pk_script),
      ecNonInteractiveParameters = (if c V_non_interactive_parameters = SNull then None else Some (c V_non_interactive_parameters = SText ''1'')),
      ecPreimage = textOf (c V_preimage),
      ecRefundArkTxid = textOf (c V_refund_ark_txid),
      ecRfqId = textOf (c V_rfq_id),
      ecFailureReason = textOf (c V_failure_reason)\<rparr>)"

record EvmSendSwapRow = EvmCommonFields +
  esState :: EvmSendSwapState
  esEvmRefundTxid :: "string option"
  esClaimArkTxid :: "string option"
  esRefundOutcome :: "string option"

record EvmReceiveSwapRow = EvmCommonFields +
  evState :: EvmReceiveSwapState
  evPayoutPubkey :: string
  evFundArkTxid :: "string option"

type_synonym evm_send_raw = "(EvmSendSwapState, evm_col) raw"
type_synonym evm_receive_raw = "(EvmReceiveSwapState, evm_col) raw"

definition evm_send_toRow :: "evm_send_raw \<Rightarrow> EvmSendSwapRow" where
  "evm_send_toRow raw = EvmCommonFields.extend (commonFields raw)
     (EvmSendSwapRow.fields (rwState raw) (textOf (rwCols raw V_evm_refund_txid)) (textOf (rwCols raw V_claim_ark_txid))
       (textOf (rwCols raw V_refund_outcome)))"

definition evm_receive_toRow :: "evm_receive_raw \<Rightarrow> EvmReceiveSwapRow" where
  "evm_receive_toRow raw = EvmCommonFields.extend (commonFields raw)
     (EvmReceiveSwapRow.fields (rwState raw) (sql_text (rwCols raw V_payout_pubkey)) (textOf (rwCols raw V_fund_ark_txid)))"

section \<open>Quotes\<close>

record EvmQuoteRecord =
  vqId :: string
  vqPaymentHash :: string
  vqAmountSats :: int
  vqPayoutSats :: int
  vqEvmAmount :: string
  vqTokenAddress :: string
  vqEvmContractAddress :: string
  vqEvmChainId :: int
  vqEvmTimeout :: int
  vqValidUntil :: int
  vqMinConfirmations :: int
  vqMinAgeSeconds :: int
  vqEvmClaimAddress :: string
  vqEvmRefundAddress :: string
  vqRefundLocktime :: int
  vqProviderPubkey :: string
  vqServerPubkey :: string
  vqClaimDelay :: int
  vqRefundDelay :: int
  vqRefundWithoutReceiverDelay :: int
  vqPkScript :: string
  vqLockupAddress :: string
  vqRefundPkScript :: string
  vqEmulatorPubkey :: string
  vqClientRefundPubkey :: string
  vqReceiverPkScript :: string
  vqNonInteractiveParameters :: bool
  vqRfqId :: "string option"

definition evm_quote_cols :: "EvmQuoteRecord \<Rightarrow> evm_col fields \<Rightarrow> evm_col \<Rightarrow> sqlval" where
  "evm_quote_cols q extra = (\<lambda>c. case map_of extra c of Some v \<Rightarrow> v | None \<Rightarrow> (case c of
      V_payment_hash \<Rightarrow> SText (vqPaymentHash q)
    | V_amount_sats \<Rightarrow> SInt (vqAmountSats q)
    | V_payout_sats \<Rightarrow> SInt (vqPayoutSats q)
    | V_evm_amount \<Rightarrow> SText (vqEvmAmount q)
    | V_token_address \<Rightarrow> SText (vqTokenAddress q)
    | V_evm_contract_address \<Rightarrow> SText (vqEvmContractAddress q)
    | V_evm_chain_id \<Rightarrow> SInt (vqEvmChainId q)
    | V_evm_timeout \<Rightarrow> SInt (vqEvmTimeout q)
    | V_valid_until \<Rightarrow> SInt (vqValidUntil q)
    | V_min_confirmations \<Rightarrow> SInt (vqMinConfirmations q)
    | V_min_age_seconds \<Rightarrow> SInt (vqMinAgeSeconds q)
    | V_evm_claim_address \<Rightarrow> SText (vqEvmClaimAddress q)
    | V_evm_refund_address \<Rightarrow> SText (vqEvmRefundAddress q)
    | V_refund_locktime \<Rightarrow> SInt (vqRefundLocktime q)
    | V_provider_pubkey \<Rightarrow> SText (vqProviderPubkey q)
    | V_server_pubkey \<Rightarrow> SText (vqServerPubkey q)
    | V_claim_delay \<Rightarrow> SInt (vqClaimDelay q)
    | V_refund_delay \<Rightarrow> SInt (vqRefundDelay q)
    | V_refund_without_receiver_delay \<Rightarrow> SInt (vqRefundWithoutReceiverDelay q)
    | V_pk_script \<Rightarrow> SText (vqPkScript q)
    | V_lockup_address \<Rightarrow> SText (vqLockupAddress q)
    | V_refund_pk_script \<Rightarrow> SText (vqRefundPkScript q)
    | V_emulator_pubkey \<Rightarrow> SText (vqEmulatorPubkey q)
    | V_client_refund_pubkey \<Rightarrow> SText (vqClientRefundPubkey q)
    | V_receiver_pk_script \<Rightarrow> SText (vqReceiverPkScript q)
    | V_non_interactive_parameters \<Rightarrow> (if vqNonInteractiveParameters q then SText ''1'' else SNull)
    | V_rfq_id \<Rightarrow> opt_text (vqRfqId q)
    | _ \<Rightarrow> SNull))"

definition evm_quote_row :: "('s, evm_col) StoreShape \<Rightarrow> EvmQuoteRecord \<Rightarrow> evm_col fields \<Rightarrow> int \<Rightarrow> ('s, evm_col) raw" where
  "evm_quote_row sh q extra tm =
     \<lparr>rwId = vqId q, rwState = shStart sh, rwCreated = tm, rwUpdated = tm, rwCols = evm_quote_cols q extra\<rparr>"

section \<open>Reads\<close>

definition evm_get :: "('s, 'c, 'act) store \<Rightarrow> string \<Rightarrow> ('s, 'c, 'act, ('s, 'c) raw) job" where
  "evm_get st i = read_db (soExec st) (soSchedule st) (\<lambda>d.
     case row_of d i of
       None \<Rightarrow> Inl (Thrown (''no evm '' @ shNoun (soShape st) @ '' swap '' @ i))
     | Some r \<Rightarrow> Inr r)"

definition evm_findByRfqId :: "string \<Rightarrow> ('s, evm_col) db \<Rightarrow> ('s, evm_col) raw option" where
  "evm_findByRfqId v d = first_of (filter (\<lambda>r. rwCols r V_rfq_id = SText v) (dbRows d))"

definition evm_findLiveByPaymentHash :: "('s, evm_col) StoreShape \<Rightarrow> string \<Rightarrow> ('s, evm_col) db \<Rightarrow> ('s, evm_col) raw option" where
  "evm_findLiveByPaymentHash sh v d =
     first_of (filter (\<lambda>r. rwCols r V_payment_hash = SText v \<and> rwState r \<noteq> shRefused sh) (dbRows d))"

definition evm_findByPkScript :: "string \<Rightarrow> ('s, evm_col) db \<Rightarrow> ('s, evm_col) raw option" where
  "evm_findByPkScript v d = first_of (newest_first (filter (\<lambda>r. rwCols r V_pk_script = SText v) (dbRows d)))"

definition evm_committedSats :: "('s, evm_col) StoreShape \<Rightarrow> string option \<Rightarrow> ('s, evm_col) db \<Rightarrow> int" where
  "evm_committedSats sh tokenAddress d =
     sum_list (map (\<lambda>r. sql_int (rwCols r V_amount_sats)) (filter (\<lambda>r. rwState r \<in> set (shLive sh) \<and>
       (case tokenAddress of None \<Rightarrow> True | Some t \<Rightarrow> rwCols r V_token_address = SText t)) (dbRows d)))"

definition evm_findByStates :: "'s list \<Rightarrow> ('s, 'c) db \<Rightarrow> ('s, 'c) raw list" where
  "evm_findByStates ss d = (if ss = [] then [] else by_created (filter (\<lambda>r. rwState r \<in> set ss) (dbRows d)))"

definition evm_findLive :: "('s, 'c) StoreShape \<Rightarrow> ('s, 'c) db \<Rightarrow> ('s, 'c) raw list" where
  "evm_findLive sh d = evm_findByStates (shLive sh) d"

definition evm_history :: "string \<Rightarrow> ('s, 'c) db \<Rightarrow> (int \<times> 's option \<times> 's \<times> string option) list" where
  "evm_history i d = map (\<lambda>e. (evAt e, evFrom e, evTo e, evDetail e)) (filter (\<lambda>e. evSwap e = i) (dbEvents d))"

definition evm_ledgerRows :: "int \<Rightarrow> int \<Rightarrow> nat \<Rightarrow> string option \<Rightarrow> ('s, evm_col) db \<Rightarrow> ('s, evm_col) raw list \<times> bool" where
  "evm_ledgerRows since until limit tokenAddress d =
     (let found = take (limit + 1) (sort_key (\<lambda>r. - rwUpdated r)
            (filter (\<lambda>r. since \<le> rwUpdated r \<and> rwUpdated r < until \<and>
               (case tokenAddress of None \<Rightarrow> True | Some t \<Rightarrow> rwCols r V_token_address = SText t)) (dbRows d)))
      in (take limit found, limit < length found))"

section \<open>Writes\<close>

definition evm_assertColumns :: "'c list \<Rightarrow> 'c list \<Rightarrow> string \<Rightarrow> ('s, 'c, 'act, unit) job" where
  "evm_assertColumns cs allowed meth =
     (if set cs \<subseteq> set allowed then ret () else throw (Thrown (meth @ '': unknown column'')))"

text \<open>The compare-and-swap, with the event at the same instant; losing it is an error.\<close>

definition evm_transition :: "('s, 'c, 'act) store \<Rightarrow> string \<Rightarrow> 's \<Rightarrow> 's \<Rightarrow> 'c fields \<Rightarrow> ('s, 'c, 'act, unit) job" where
  "evm_transition st i s t fs =
     thn (evm_assertColumns (map fst fs) (shTransitionColumns (soShape st)) ''transition()'')
     (bnd (now (soSchedule st)) (\<lambda>tm.
      bnd (logged_write st (Cas i s t fs tm) (cas i s t fs (\<lambda>_. True) tm)) (\<lambda>changes.
      if changes = 0 then throw (Thrown (''evm '' @ shNoun (soShape st) @ '' swap '' @ i @ '' is not in state''))
      else let e = \<lparr>evSwap = i, evAt = tm, evFrom = Some s, evTo = t, evDetail = None\<rparr> in
        thn (logged_write st (Note e) (\<lambda>d. (1, add_event e d))) (ret ()))))"

definition evm_patch :: "('s, 'c, 'act) store \<Rightarrow> string \<Rightarrow> 'c fields \<Rightarrow> ('s, 'c, 'act, unit) job" where
  "evm_patch st i fs =
     (if fs = [] then ret ()
      else thn (evm_assertColumns (map fst fs) (shTransitionColumns (soShape st)) ''patch()'')
        (bnd (now (soSchedule st)) (\<lambda>tm.
         thn (logged_write st (Patch i fs tm) (patch_row i fs tm)) (ret ()))))"

definition evm_fail :: "('s, 'c, 'act) store \<Rightarrow> string \<Rightarrow> 's \<Rightarrow> string \<Rightarrow> ('s, 'c, 'act, unit) job" where
  "evm_fail st i s reason = evm_transition st i s (shStuck (soShape st)) [(shFailure (soShape st), SText reason)]"

text \<open>
  The insert under the partial unique index on the payment hash, and its event. The primary key is a fresh
  UUID; should it clash, the driver reports a unique violation too.
\<close>

definition evm_insert :: "('s, evm_col, 'act) store \<Rightarrow> EvmQuoteRecord \<Rightarrow> evm_col fields \<Rightarrow> ('s, evm_col, 'act, ('s, evm_col) raw) job" where
  "evm_insert st q extra =
     bnd (now (soSchedule st)) (\<lambda>tm.
     let r = evm_quote_row (soShape st) q extra tm;
         e = \<lparr>evSwap = vqId q, evAt = tm, evFrom = None, evTo = shStart (soShape st), evDetail = None\<rparr> in
     bnd (write_db (soExec st) (soSchedule st) (\<lambda>d.
       if findLiveByPaymentHash (soShape st) (vqPaymentHash q) d \<noteq> None \<or> vqId q \<in> rwId ` set (dbRows d)
       then ([], Inl (UniqueConstraint ''UNIQUE constraint failed''), d)
       else ([soAct st (Insert r)], Inr (), d\<lparr>dbRows := dbRows d @ [r]\<rparr>))) (\<lambda>res.
     case res of
       Inl err \<Rightarrow> throw err
     | Inr _ \<Rightarrow> thn (logged_write st (Note e) (\<lambda>d. (1, add_event e d))) (evm_get st (vqId q))))"

section \<open>What the methods do\<close>

locale evm_service = service m start refused stuck commit after sh ok exec part act
  for m :: "'s StateMachine" and start refused stuck commit after and sh :: "('s, evm_col) StoreShape"
    and ok and exec :: "'act \<Rightarrow> ('s, evm_col) db \<Rightarrow> ('s, evm_col) db option" and part and act +
  assumes same_columns: "shTransitionColumns sh = shPatchColumns sh"
    and insert_ok: "findLiveByPaymentHash sh (vqPaymentHash q) d = None \<Longrightarrow> fst ` set extra \<subseteq> {V_payout_pubkey} \<Longrightarrow>
      ok (Insert (evm_quote_row sh q extra tm)) d"
begin

text \<open>
  The compare-and-swap of these stores checks no edge, so the caller has to know that the edge is legal
  whenever the row is in the state it names.
\<close>

lemma evm_cas_enabled:
  assumes K: "K d" and ids: "ids_distinct d" and c: "fst ` set fs \<subseteq> set (shTransitionColumns sh)"
    and legal: "\<And>d r. K d \<Longrightarrow> ids_distinct d \<Longrightarrow> row_of d i = Some r \<Longrightarrow> rwState r = s \<Longrightarrow>
      t \<in> set (shEdges sh s) \<and> ok (Cas i s t fs tm) d"
    and res: "cas i s t fs (\<lambda>_. True) tm d = (n, d')"
  shows "(n = 0 \<and> d' = d) \<or> (n = 1 \<and> exec (act (Cas i s t fs tm)) d = Some d')"
proof (cases "t \<in> set (shEdges sh s)")
  case True
  show ?thesis by (rule cas_enabled [OF ids True c _ res]) (use legal [OF K ids] in blast)
next
  case False
  then have "\<not> (\<exists>r \<in> set (dbRows d). rwId r = i \<and> rwState r = s)"
    using legal [OF K ids] row_of_eq [OF ids] by blast
  then have none: "fst (cas i s t fs (\<lambda>_. True) tm d) = 0"
    unfolding cas_def using update_rows_one [of "\<lambda>r. rwId r = i \<and> rwState r = s \<and> True"] by auto
  then have "snd (cas i s t fs (\<lambda>_. True) tm d) = d" unfolding cas_def by (rule update_rows_none)
  with none res show ?thesis by simp
qed

lemma spec_evm_transition:
  assumes K: "stable exec K"
    and legal: "\<And>d r tm. K d \<Longrightarrow> ids_distinct d \<Longrightarrow> row_of d i = Some r \<Longrightarrow> rwState r = s \<Longrightarrow>
      t \<in> set (shEdges sh s) \<and> ok (Cas i s t fs tm) d"
    and L: "stable exec L" "\<And>d d' tm. K d \<Longrightarrow> ids_distinct d \<Longrightarrow> exec (act (Cas i s t fs tm)) d = Some d' \<Longrightarrow> L d'"
  shows "spec (tracks exec d0 K) (evm_transition (here sc) i s t fs)
    (\<lambda>r w. tracks exec d0 K w \<and> (\<forall>x. r = Inr x \<longrightarrow> L (wDb w)))"
proof (cases "fst ` set fs \<subseteq> set (shTransitionColumns sh)")
  case c: True
  let ?Q = "\<lambda>r w. tracks exec d0 K w \<and> (\<forall>x :: unit. r = Inr x \<longrightarrow> L (wDb w))"
  have noted: "spec (tracks exec d0 (\<lambda>d. K d \<and> L d)) (thn (logged_write (here sc) (Note e) (\<lambda>d. (1, add_event e d))) (ret ())) ?Q" for e
    by (rule spec_weaken [OF keeps_bnd [OF keeps_logged_write [OF stable_conj [OF K L(1)]] keeps_ret]])
      (auto simp: tracks_conj exec_act note_ok)
  have body: "spec (tracks exec d0 K) (bnd (logged_write (here sc) (Cas i s t fs tm) (cas i s t fs (\<lambda>_. True) tm)) (\<lambda>changes.
      if changes = 0 then throw err
      else let e = \<lparr>evSwap = i, evAt = tm, evFrom = Some s, evTo = t, evDetail = None\<rparr> in
        thn (logged_write (here sc) (Note e) (\<lambda>d. (1, add_event e d))) (ret ()))) ?Q" for tm err
  proof (rule spec_bnd [OF spec_logged_write [OF K _ L(2)]])
    fix d n d'
    assume "K d" "ids_distinct d" "cas i s t fs (\<lambda>_. True) tm d = (n, d')"
    then show "(n = 0 \<and> d' = d) \<or> (n = 1 \<and> exec (act (Cas i s t fs tm)) d = Some d')"
      using evm_cas_enabled [where K = K, OF _ _ c] legal by blast
  next
    fix n :: nat
    show "spec (\<lambda>w. tracks exec d0 K w \<and> (\<forall>n'. Inr n = Inr n' \<longrightarrow> n' \<le> 1 \<and> (n' = 1 \<longrightarrow> L (wDb w))))
        (if n = 0 then throw err
         else let e = \<lparr>evSwap = i, evAt = tm, evFrom = Some s, evTo = t, evDetail = None\<rparr> in
           thn (logged_write (here sc) (Note e) (\<lambda>d. (1, add_event e d))) (ret ())) ?Q"
      using noted by (cases "n = 0") (auto elim!: spec_weaken simp: Let_def tracks_conj spec_def throw_def le_Suc_eq)
  qed auto
  have "evm_transition (here sc) i s t fs = bnd (now sc) (\<lambda>tm.
      bnd (logged_write (here sc) (Cas i s t fs tm) (cas i s t fs (\<lambda>_. True) tm)) (\<lambda>changes.
      if changes = 0 then throw (Thrown (''evm '' @ shNoun sh @ '' swap '' @ i @ '' is not in state''))
      else let e = \<lparr>evSwap = i, evAt = tm, evFrom = Some s, evTo = t, evDetail = None\<rparr> in
        thn (logged_write (here sc) (Note e) (\<lambda>d. (1, add_event e d))) (ret ())))"
    using c by (simp add: evm_transition_def evm_assertColumns_def cong: if_cong)
  then show ?thesis by (simp only:) (rule spec_bnd [OF keeps_now' [OF K] _ body], simp)
next
  case False
  then show ?thesis unfolding evm_transition_def evm_assertColumns_def store.simps
    by (auto simp: spec_def throw_def bnd_def)
qed

lemma keeps_evm_transition:
  assumes "stable exec K"
    and "\<And>d r tm. K d \<Longrightarrow> ids_distinct d \<Longrightarrow> row_of d i = Some r \<Longrightarrow> rwState r = s \<Longrightarrow>
      t \<in> set (shEdges sh s) \<and> ok (Cas i s t fs tm) d"
  shows "keeps (tracks exec d0 K) (evm_transition (here sc) i s t fs)"
  by (rule spec_weaken [OF spec_evm_transition [where L = "\<lambda>_. True", OF assms]]) (auto simp: stable_True)

lemma keeps_evm_patch:
  assumes "stable exec K" and "\<And>d r tm. K d \<Longrightarrow> row_of d i = Some r \<Longrightarrow> ok (Patch i fs tm) d"
  shows "keeps (tracks exec d0 K) (evm_patch (here sc) i fs)"
proof (cases "fst ` set fs \<subseteq> set (shPatchColumns sh)")
  case True
  show ?thesis unfolding evm_patch_def evm_assertColumns_def store.simps
    by (intro keep keeps_now' [OF assms(1)] keeps_logged_write [OF assms(1)] patch_enabled True) (simp_all add: assms(2))
next
  case False
  then show ?thesis unfolding evm_patch_def evm_assertColumns_def store.simps same_columns by (simp add: keeps_throw keeps_ret)
qed

lemma spec_evm_get:
  assumes "stable exec K" and "\<And>d r. K d \<Longrightarrow> ids_distinct d \<Longrightarrow> row_of d i = Some r \<Longrightarrow> L r d"
  shows "spec (tracks exec d0 K) (evm_get (here sc) i)
    (\<lambda>res w. tracks exec d0 K w \<and> (\<forall>r. res = Inr r \<longrightarrow> L r (wDb w)))"
  unfolding evm_get_def store.simps
  by (rule interference.spec_read [OF tracks_interference [OF assms(1)]])
    (use assms(2) in \<open>auto simp: tracks_def split: option.splits\<close>)

lemma keeps_evm_insert:
  assumes K: "stable exec K" and extra: "fst ` set extra \<subseteq> {V_payout_pubkey}"
  shows "keeps (tracks exec d0 K) (evm_insert (here sc) q extra)"
proof -
  have ins: "keeps (tracks exec d0 K) (write_db exec sc (\<lambda>d.
       if findLiveByPaymentHash sh (vqPaymentHash q) d \<noteq> None \<or> vqId q \<in> rwId ` set (dbRows d)
       then ([], Inl err, d)
       else ([act (Insert (evm_quote_row sh q extra tm))], Inr (), d\<lparr>dbRows := dbRows d @ [evm_quote_row sh q extra tm]\<rparr>)))"
    for tm and err :: exn
  proof (rule interference.keeps_write [OF tracks_interference [OF K]])
    fix w acts and x :: "exn + unit" and db
    assume w: "tracks exec d0 K w"
    let ?r = "evm_quote_row sh q extra tm"
    assume "(if findLiveByPaymentHash sh (vqPaymentHash q) (wDb w) \<noteq> None \<or> vqId q \<in> rwId ` set (dbRows (wDb w))
        then ([], Inl err, wDb w)
        else ([act (Insert ?r)], Inr (), (wDb w)\<lparr>dbRows := dbRows (wDb w) @ [?r]\<rparr>)) = (acts, x, db)"
    then consider "acts = []" "db = wDb w" | "acts = [act (Insert ?r)]" "exec (act (Insert ?r)) (wDb w) = Some db"
      using insert_ok [of q "wDb w" extra tm] extra by (auto simp: exec_act evm_quote_row_def split: if_splits)
    then show "tracks exec d0 K (w\<lparr>wDb := db, wLog := wLog w @ map Own acts\<rparr>)"
      using w tracks_own [OF K w] by cases simp_all
  qed
  have noted: "keeps (tracks exec d0 K) (logged_write (here sc) (Note e) (\<lambda>d. (1, add_event e d)))" for e
    by (rule keeps_logged_write [OF K]) (auto simp: exec_act note_ok)
  show ?thesis unfolding evm_insert_def evm_get_def Let_def store.simps
    by (intro keep keeps_now' [OF K] keeps_read' [OF K] noted ins)
qed

end

section \<open>A worker's own writes\<close>

lemma keeps_did_evm_transition:
  assumes "\<And>as tm. P as \<Longrightarrow> P (as @ [soAct st (Cas i s t fs tm)])" and "\<And>as e. P as \<Longrightarrow> P (as @ [soAct st (Note e)])"
  shows "keeps (did P) (evm_transition st i s t fs)"
  unfolding evm_transition_def evm_assertColumns_def Let_def by (intro did_keep assms)

lemma keeps_did_evm_patch:
  "(\<And>as tm. P as \<Longrightarrow> P (as @ [soAct st (Patch i fs tm)])) \<Longrightarrow> keeps (did P) (evm_patch st i fs)"
  unfolding evm_patch_def evm_assertColumns_def by (intro did_keep)

lemma keeps_did_evm_get: "keeps (did P) (evm_get st i)"
  unfolding evm_get_def by (rule own_log.keeps_read)

lemma keeps_did_evm_insert:
  assumes "\<And>as r. P as \<Longrightarrow> P (as @ [soAct st (Insert r)])" and "\<And>as e. P as \<Longrightarrow> P (as @ [soAct st (Note e)])"
  shows "keeps (did P) (evm_insert st q extra)"
  unfolding evm_insert_def Let_def
  by (intro did_keep keeps_did_evm_get keeps_did_write assms) (auto simp: assms split: if_splits)

text \<open>A transition that returned was won: its act is in the worker's own log.\<close>

lemma spec_did_evm_transition:
  assumes won: "\<And>as tm. P as \<Longrightarrow> Q (as @ [soAct st (Cas i s t fs tm)])"
    and noted: "\<And>as e. Q as \<Longrightarrow> Q (as @ [soAct st (Note e)])" and weaker: "\<And>as. Q as \<Longrightarrow> P as"
  shows "spec (did P) (evm_transition st i s t fs) (\<lambda>r. did (if is_ok r then Q else P))"
proof -
  let ?R = "\<lambda>r. did (if is_ok r then Q else P)"
  have note_keeps: "keeps (did Q) (thn (logged_write st (Note e) (\<lambda>d. (1, add_event e d))) (ret ()))" for e
    by (intro did_keep noted)
  have noting: "spec (did Q) (thn (logged_write st (Note e) (\<lambda>d. (1, add_event e d))) (ret ())) ?R" for e
    by (rule spec_weaken [OF note_keeps]) (auto simp: did_def weaker)
  have body: "spec (did P) (bnd (logged_write st (Cas i s t fs tm) f) (\<lambda>changes.
      if changes = 0 then throw err
      else let e = \<lparr>evSwap = i, evAt = tm, evFrom = Some s, evTo = t, evDetail = None\<rparr> in
        thn (logged_write st (Note e) (\<lambda>d. (1, add_event e d))) (ret ()))) ?R" for tm err f
  proof (rule spec_bnd [OF spec_did_logged_write [of P Q, OF won]])
    fix n :: nat
    show "spec (\<lambda>w. case Inr n of Inl _ \<Rightarrow> did P w | Inr n \<Rightarrow> did (if n = 0 then P else Q) w)
        (if n = 0 then throw err
         else let e = \<lparr>evSwap = i, evAt = tm, evFrom = Some s, evTo = t, evDetail = None\<rparr> in
           thn (logged_write st (Note e) (\<lambda>d. (1, add_event e d))) (ret ())) ?R"
      using noting by (cases "n = 0") (auto simp: Let_def spec_def throw_def)
  qed (auto simp:)
  have "spec (did P) (bnd (now (soSchedule st)) (\<lambda>tm. bnd (logged_write st (Cas i s t fs tm) (cas i s t fs (\<lambda>_. True) tm)) (\<lambda>changes.
      if changes = 0 then throw (Thrown (''evm '' @ shNoun (soShape st) @ '' swap '' @ i @ '' is not in state''))
      else let e = \<lparr>evSwap = i, evAt = tm, evFrom = Some s, evTo = t, evDetail = None\<rparr> in
        thn (logged_write st (Note e) (\<lambda>d. (1, add_event e d))) (ret ())))) ?R"
    by (rule spec_bnd [OF own_log.keeps_now _ body]) simp
  then show ?thesis unfolding evm_transition_def evm_assertColumns_def
    by (auto simp: spec_def bnd_def throw_def ret_def)
qed

end
