(* ===== verification/Follows.thy ===== *)
theory Follows
  imports Swap_Store
begin

text \<open>
  What a worker has done and knows at once: \<open>follows exec d0 P K\<close> says that everything done so far, by this worker and the
  others, is a run of enabled actions from \<open>d0\<close>, that \<open>K\<close> is known of the present table, and that \<open>P\<close> holds of the worker's
  own actions. The corridors whose payments are counted per worker are verified with it.
\<close>

definition follows ::
    "('act \<Rightarrow> ('s, 'c) db \<Rightarrow> ('s, 'c) db option) \<Rightarrow> ('s, 'c) db \<Rightarrow> ('act list \<Rightarrow> bool) \<Rightarrow> (('s, 'c) db \<Rightarrow> bool) \<Rightarrow>
     (('s, 'c) db, 'act) world \<Rightarrow> bool" where
  "follows exec d0 P K w \<longleftrightarrow> tracks exec d0 K w \<and> did P w"

lemma follows_conj: "follows exec d0 P (\<lambda>d. K d \<and> L d) w \<longleftrightarrow> follows exec d0 P K w \<and> L (wDb w)"
  by (auto simp: follows_def tracks_conj)

lemma follows_both: "keeps (tracks exec d0 K) m \<Longrightarrow> keeps (did P) m \<Longrightarrow> keeps (follows exec d0 P K) m"
  unfolding follows_def [abs_def] by (rule spec_conj)

lemma follows_use:
  assumes "\<And>d. K d \<Longrightarrow> L d" and "keeps (follows exec d0 P (\<lambda>d. K d \<and> L d)) m"
  shows "keeps (follows exec d0 P K) m"
  by (rule spec_weaken [OF assms(2)]) (auto simp: follows_conj follows_def tracks_def assms(1))

lemma bnd_assoc: "bnd (bnd m f) g = bnd m (\<lambda>x. bnd (f x) g)"
  by (auto simp: bnd_def fun_eq_iff split: prod.splits sum.splits)

text \<open>What a job did itself when it ran from \<open>d0\<close>.\<close>

definition own_run :: "('s, 'c) db \<Rightarrow> nat \<Rightarrow> (('s, 'c) db, 'act, 'a) worker \<Rightarrow> 'act list" where
  "own_run d0 pos m = own_acts (wLog (snd (m \<lparr>wDb = d0, wPos = pos, wLog = []\<rparr>)))"

lemma follows_lawful:
  assumes m: "keeps (follows exec d0 P K) m" and d0: "K d0" "ids_distinct d0" "P []"
  shows "lawful_run exec K d0 m \<and> P (own_run d0 pos m)"
proof -
  have "follows exec d0 P K \<lparr>wDb = d0, wPos = p, wLog = []\<rparr>" for p
    using d0 by (simp add: follows_def tracks_def did_def)
  then have "follows exec d0 P K (snd (m \<lparr>wDb = d0, wPos = p, wLog = []\<rparr>))" for p
    using m unfolding spec_def by (metis case_prod_beta)
  then show ?thesis by (simp add: lawful_run_def Let_def own_run_def follows_def tracks_def did_def)
qed

lemma yields_after: "keeps I m \<Longrightarrow> (\<And>x. yields I (f x) G) \<Longrightarrow> yields I (bnd m f) G"
  by (rule yields_bnd [OF keeps_yields])

lemma yields_from_result: "yields I (from_result r) (\<lambda>x. r = Inr x)"
  by (cases r) (auto simp: from_result_def spec_def ret_def throw_def)

lemma spec_did_perform:
  assumes "\<And>as. P as \<Longrightarrow> Q (as @ [a])" and "\<And>as. P as \<Longrightarrow> Q as"
  shows "spec (did P) (perform exec sc a f) (\<lambda>_. did Q)"
  unfolding perform_def
  by (rule spec_bnd [OF own_log.keeps_await]) (use assms in \<open>auto simp: spec_def did_def\<close>)

lemma spec_follows_bnd:
  assumes "spec I m (\<lambda>r w. J w \<and> (\<forall>x. r = Inr x \<longrightarrow> L x w))" and "\<And>w. J w \<Longrightarrow> E w"
    and "\<And>x. spec (\<lambda>w. J w \<and> L x w) (f x) (\<lambda>_. E)"
  shows "spec I (bnd m f) (\<lambda>_. E)"
proof (rule spec_bnd [OF assms(1)])
  fix x
  show "spec (\<lambda>w. J w \<and> (\<forall>y. Inr x = Inr y \<longrightarrow> L y w)) (f x) (\<lambda>_. E)"
    by (rule spec_weaken [OF assms(3) [of x]]) simp_all
qed (use assms(2) in auto)

text \<open>A fact about the program that follows from what is known may be used for the rest of the run.\<close>

lemma follows_fact:
  assumes "\<And>d. K d \<Longrightarrow> F" and "F \<Longrightarrow> keeps (follows exec d0 P K) m"
  shows "keeps (follows exec d0 P K) m"
proof (cases F)
  case False
  then have "\<not> K d" for d using assms(1) by blast
  then show ?thesis by (simp add: spec_def follows_def tracks_def)
qed (rule assms(2))

context keyed
begin

lemma follows_interference: "stable exec K \<Longrightarrow> interference exec (follows exec d0 P K)"
  unfolding follows_def [abs_def] by (intro interference_conj tracks_interference own_log.interference_axioms)

lemmas fkeep_now = interference.keeps_now [OF follows_interference]
lemmas fkeep_ask = interference.keeps_ask [OF follows_interference]
lemmas fyield_ask = interference.yields_ask [OF follows_interference]
lemmas fkeep_read = interference.keeps_read [OF follows_interference]
lemmas fkeep_await = interference.keeps_await [OF follows_interference]

lemma fkeep_act:
  assumes "stable exec K" and "\<And>as. P as \<Longrightarrow> P (as @ [a])" and "\<And>d. K d \<Longrightarrow> exec a d = Some d"
  shows "keeps (follows exec d0 P K) (perform exec sc a f)"
  by (intro follows_both keeps_perform' keeps_did_perform assms)

end

end
