(* ===== verification/Evm_Table.thy ===== *)
theory Evm_Table
  imports Evm_Store Follows
begin

text \<open>
  The contract the two EVM tables share, as a locale over their shapes and services: quotes are inserted for a
  hash no live row has, hash and payout of a row never change, a preimage is written only when it opens the
  hash of its row, and \<open>claiming\<close> is entered only with one. From this the locale proves the invariant of the
  table, and what a worker keeps knowing about a row it has read, whoever else writes to the table.
\<close>

definition evm_hash :: "('s, evm_col) raw \<Rightarrow> string" where
  "evm_hash r = sql_text (rwCols r V_payment_hash)"

definition evm_opened :: "(string \<Rightarrow> string \<Rightarrow> bool) \<Rightarrow> ('s, evm_col) raw \<Rightarrow> bool" where
  "evm_opened opens r = (case textOf (rwCols r V_preimage) of Some p \<Rightarrow> opens p (evm_hash r) | None \<Rightarrow> False)"

definition evm_permitted :: "(('s, evm_col) raw \<Rightarrow> bool) \<Rightarrow> string \<Rightarrow> ('s, evm_col) db \<Rightarrow> ('s, evm_col) db option" where
  "evm_permitted p i d = (case row_of d i of None \<Rightarrow> None | Some r \<Rightarrow> if p r then Some d else None)"

lemma evm_permitted_Some: "evm_permitted p i d = Some d' \<longleftrightarrow> d' = d \<and> (\<exists>r. row_of d i = Some r \<and> p r)"
  by (auto simp: evm_permitted_def split: option.splits if_splits)

lemma evm_opened_cong:
  "rwCols r V_preimage = rwCols q V_preimage \<Longrightarrow> rwCols r V_payment_hash = rwCols q V_payment_hash \<Longrightarrow>
     evm_opened opens r = evm_opened opens q"
  by (simp add: evm_opened_def evm_hash_def split: option.split)

text \<open>Where the edges of a machine can lead.\<close>

definition reach :: "'s StateMachine \<Rightarrow> 's \<Rightarrow> 's set" where
  "reach m s = {t. (s, t) \<in> {(a, b). canTransition m a b}\<^sup>*}"

lemma reach_refl [simp]: "s \<in> reach m s"
  by (simp add: reach_def)

lemma reach_step: "t \<in> reach m s \<Longrightarrow> canTransition m t u \<Longrightarrow> u \<in> reach m s"
  unfolding reach_def by (auto intro: rtrancl_into_rtrancl)

lemma reach_subset:
  assumes "s \<in> A" and "\<And>a b. a \<in> A \<Longrightarrow> canTransition m a b \<Longrightarrow> b \<in> A"
  shows "reach m s \<subseteq> A"
proof
  fix t
  assume "t \<in> reach m s"
  then have "(s, t) \<in> {(a, b). canTransition m a b}\<^sup>*" by (simp add: reach_def)
  then show "t \<in> A" by (induction rule: rtrancl_induct) (use assms in auto)
qed

locale evm_table = evm_service m start refused stuck commit after sh ok exec part act
  for m :: "'s StateMachine" and start refused stuck commit after and sh :: "('s, evm_col) StoreShape"
    and ok and exec :: "'act \<Rightarrow> ('s, evm_col) db \<Rightarrow> ('s, evm_col) db option" and part and act +
  fixes opens :: "string \<Rightarrow> string \<Rightarrow> bool" and claiming claimed :: 's and early :: "'s set"
  assumes shape_columns: "shPaymentHash sh = V_payment_hash" "shLease sh = None" "shOnce sh = None"
    and terms_fixed: "{V_payment_hash, V_payout_sats} \<inter> set (shTransitionColumns sh) = {}"
    and start_unclaimed: "start \<noteq> claiming" "start \<noteq> claimed"
    and ok_insert: "ok (Insert q) d \<Longrightarrow> (\<exists>h. rwCols q V_payment_hash = SText h \<and> findLiveByPaymentHash sh h d = None) \<and>
      (\<exists>v. rwCols q V_payout_sats = SInt v) \<and> rwCols q V_preimage = SNull"
    and ok_cas: "ok (Cas i s t fs tm) d \<Longrightarrow> row_of d i = Some r \<Longrightarrow> V_preimage \<in> fst ` set fs \<or> t = claiming \<Longrightarrow>
      evm_opened opens (set_fields fs r)"
    and ok_patch: "ok (Patch i fs tm) d \<Longrightarrow> row_of d i = Some r \<Longrightarrow> V_preimage \<in> fst ` set fs \<Longrightarrow>
      evm_opened opens (set_fields fs r)"
    and into_claimed: "canTransition m s claimed \<Longrightarrow> s = claiming"
    and early_closed: "s \<notin> early \<Longrightarrow> canTransition m s t \<Longrightarrow> t \<notin> early"
    and cas_late: "ok (Cas i s t fs tm) d \<Longrightarrow> row_of d i = Some r \<Longrightarrow> V_preimage \<in> fst ` set fs \<Longrightarrow> t \<notin> early"
    and patch_late: "ok (Patch i fs tm) d \<Longrightarrow> row_of d i = Some r \<Longrightarrow> V_preimage \<in> fst ` set fs \<Longrightarrow> rwState r \<notin> early"
begin

text \<open>One action, seen from one row.\<close>

lemma table_row_step:
  assumes "exec a d = Some d'" and "row_of d i = Some r" and "ids_distinct d"
  shows "\<exists>r'. row_of d' i = Some r' \<and>
    (\<forall>c \<in> {V_payment_hash, V_payout_sats}. rwCols r' c = rwCols r c) \<and>
    (rwCols r' V_preimage = rwCols r V_preimage \<or> evm_opened opens r' \<and> rwState r' \<notin> early) \<and>
    (rwState r' = rwState r \<or> canTransition m (rwState r) (rwState r') \<and> (rwState r' = claiming \<longrightarrow> evm_opened opens r'))"
proof (cases "part a")
  case None
  then show ?thesis using exec_part [OF assms(1)] assms(2) by simp
next
  case (Some b)
  then have b: "exec_store sh ok b d = Some d'" using exec_part [OF assms(1)] by simp
  have id: "rwId r = i" using row_of_Some [OF assms(2)] by simp
  show ?thesis
  proof (cases b)
    case (Cas j s t fs tm)
    show ?thesis
    proof (cases "j = i")
      case True
      let ?r = "(set_fields fs r)\<lparr>rwState := t, rwUpdated := tm\<rparr>"
      have cols: "fst ` set fs \<subseteq> set (shTransitionColumns sh)" and okb: "ok (Cas i s t fs tm) d"
        using b Cas True by (auto split: if_splits)
      have cas: "row_of d' i = Some ?r" "rwState r = s" "canTransition m s t"
        using store_row_cas [of i s t fs tm d d' r] b Cas True assms(2,3) by auto
      have same: "evm_opened opens ?r = evm_opened opens (set_fields fs r)" by (rule evm_opened_cong) simp_all
      have terms: "\<forall>c \<in> {V_payment_hash, V_payout_sats}. rwCols ?r c = rwCols r c"
        using cols terms_fixed by (auto intro!: set_fields_other)
      have "rwCols ?r V_preimage = rwCols r V_preimage \<or> evm_opened opens ?r \<and> rwState ?r \<notin> early"
        using ok_cas [OF okb assms(2)] cas_late [OF okb assms(2)] same by (cases "V_preimage \<in> fst ` set fs") simp_all
      moreover have "t = claiming \<longrightarrow> evm_opened opens ?r" using ok_cas [OF okb assms(2)] same by blast
      ultimately show ?thesis using terms cas by auto
    next
      case False
      then show ?thesis using store_row_still [OF b assms(2)] Cas b assms(2) id
        by (auto simp: cas_def update_rows_row_of split: if_splits)
    qed
  next
    case (Patch j fs tm)
    let ?r = "(set_fields fs r)\<lparr>rwUpdated := tm\<rparr>"
    have cols: "fst ` set fs \<subseteq> set (shTransitionColumns sh)" and okb: "ok (Patch j fs tm) d"
      and d': "d' = snd (patch_row j fs tm d)"
      using b Patch same_columns by (auto split: if_splits)
    have row: "row_of d' i = Some (if j = i then ?r else r)"
      using assms(2) id by (auto simp: d' patch_row_def update_rows_row_of)
    have same: "evm_opened opens ?r = evm_opened opens (set_fields fs r)" by (rule evm_opened_cong) simp_all
    have terms: "\<forall>c \<in> {V_payment_hash, V_payout_sats}. rwCols ?r c = rwCols r c"
      using cols terms_fixed by (auto intro!: set_fields_other)
    have "rwCols ?r V_preimage = rwCols r V_preimage \<or> evm_opened opens ?r \<and> rwState ?r \<notin> early" if "j = i"
      using ok_patch [OF okb] patch_late [OF okb] assms(2) that same by (cases "V_preimage \<in> fst ` set fs") auto
    then show ?thesis using row terms by (cases "j = i") auto
  next
    case (Insert q)
    then have "row_of d' i = row_of d i"
      using b assms(2) find_append_Some [of "\<lambda>r. rwId r = i" "dbRows d" r "[q]"] by (auto simp: row_of_def split: if_splits)
    then show ?thesis using assms(2) by auto
  qed (use b assms(2) in \<open>auto simp: add_event_def row_of_def lease_row_def release_row_def once_row_def shape_columns split: if_splits\<close>)
qed

section \<open>The invariant of the table\<close>

definition table_row_ok :: "('s, evm_col) raw \<Rightarrow> bool" where
  "table_row_ok r \<longleftrightarrow> (\<exists>h. rwCols r V_payment_hash = SText h) \<and> (\<exists>v. rwCols r V_payout_sats = SInt v) \<and>
     (rwCols r V_preimage = SNull \<or> evm_opened opens r) \<and> (rwState r \<in> {claiming, claimed} \<longrightarrow> evm_opened opens r) \<and>
     (rwState r \<in> early \<longrightarrow> rwCols r V_preimage = SNull)"

definition table_inv :: "('s, evm_col) db \<Rightarrow> bool" where
  "table_inv d \<longleftrightarrow> ids_distinct d \<and> live_hash_unique sh d \<and> (\<forall>i r. row_of d i = Some r \<longrightarrow> table_row_ok r)"

lemma row_ok_step:
  assumes "exec a d = Some d'" and "row_of d i = Some r" and "ids_distinct d" and ok: "table_row_ok r"
    and "row_of d' i = Some r'"
  shows "table_row_ok r'"
proof -
  have step: "\<forall>c \<in> {V_payment_hash, V_payout_sats}. rwCols r' c = rwCols r c"
    "rwCols r' V_preimage = rwCols r V_preimage \<or> evm_opened opens r' \<and> rwState r' \<notin> early"
    "rwState r' = rwState r \<or> canTransition m (rwState r) (rwState r') \<and> (rwState r' = claiming \<longrightarrow> evm_opened opens r')"
    using table_row_step [OF assms(1-3)] assms(5) by auto
  have kept: "evm_opened opens r'" if "evm_opened opens r"
    using that step(1,2) evm_opened_cong [of r' r opens] by auto
  have "evm_opened opens r'" if "rwState r' \<in> {claiming, claimed}"
    using that step(3) ok kept into_claimed [of "rwState r"] unfolding table_row_ok_def by auto
  moreover have "rwCols r' V_preimage = SNull \<or> evm_opened opens r'"
    using step(2) kept ok unfolding table_row_ok_def by auto
  moreover have "rwCols r' V_preimage = SNull" if "rwState r' \<in> early"
  proof -
    have "rwState r \<in> early" using that step(3) early_closed [of "rwState r" "rwState r'"] by auto
    then show ?thesis using that step(2) ok unfolding table_row_ok_def by auto
  qed
  ultimately show ?thesis using step(1) ok unfolding table_row_ok_def by auto
qed

lemma exec_keeps_inv:
  assumes "exec a d = Some d'" and "table_inv d"
  shows "table_inv d'"
proof -
  have ids: "ids_distinct d" and uniq: "live_hash_unique sh d" and rows: "\<And>i r. row_of d i = Some r \<Longrightarrow> table_row_ok r"
    using assms(2) by (auto simp: table_inv_def)
  have row: "table_row_ok r'" if r': "row_of d' i = Some r'" for i r'
  proof (cases "row_of d i")
    case (Some r)
    then show ?thesis using row_ok_step [OF assms(1) Some ids rows [OF Some] r'] by simp
  next
    case None
    then obtain b where b: "part a = Some b" "exec_store sh ok b d = Some d'"
      using exec_part [OF assms(1)] r' by (cases "part a") auto
    then have "b = Insert r'" using store_row_back [OF b(2) r' None] by auto
    then have "ok (Insert r') d" "rwState r' = start" using b(2) shape_states(1) by (auto split: if_splits)
    then show ?thesis using ok_insert start_unclaimed by (auto simp: table_row_ok_def)
  qed
  have "live_hash_unique sh d'"
  proof (cases "part a")
    case None
    then show ?thesis using exec_part [OF assms(1)] uniq by simp
  next
    case (Some b)
    then have b: "exec_store sh ok b d = Some d'" using exec_part [OF assms(1)] by simp
    show ?thesis
    proof (rule store_keeps_unique [OF b ids uniq])
      fix q i r
      assume "ok (Insert q) d" "row_of d i = Some r" "rwCols r (shPaymentHash sh) = rwCols q (shPaymentHash sh)"
      then show "rwState r = refused"
        using ok_insert [of q d] no_live_row_with_hash [of sh _ d i r] shape_columns(1) shape_states(3) by auto
    qed
  qed
  then show ?thesis using exec_ids [OF assms(1) ids] row by (simp add: table_inv_def)
qed

lemma run_keeps_inv: "run_all exec as d = Some d' \<Longrightarrow> table_inv d \<Longrightarrow> table_inv d'"
  by (rule run_all_keeps) (auto intro: exec_keeps_inv)

lemma stable_inv: "stable exec table_inv"
  by (auto simp: stable_def intro: exec_keeps_inv)

section \<open>What a worker knows of a row it read\<close>

definition seen :: "string \<Rightarrow> string \<Rightarrow> int \<Rightarrow> 's set \<Rightarrow> ('s, evm_col) db \<Rightarrow> bool" where
  "seen i h v A d \<longleftrightarrow> table_inv d \<and>
     (\<exists>r. row_of d i = Some r \<and> evm_hash r = h \<and> rwCols r V_payout_sats = SInt v \<and> rwState r \<in> A)"

lemma stable_seen:
  assumes "\<And>a b. a \<in> A \<Longrightarrow> canTransition m a b \<Longrightarrow> b \<in> A"
  shows "stable exec (seen i h v A)"
  unfolding stable_def
proof (intro allI impI)
  fix a d d'
  assume d: "seen i h v A d" and "ids_distinct d" and a: "exec a d = Some d'"
  then obtain r where r: "row_of d i = Some r" "evm_hash r = h" "rwCols r V_payout_sats = SInt v" "rwState r \<in> A"
    by (auto simp: seen_def)
  obtain r' where "row_of d' i = Some r'" "\<forall>c \<in> {V_payment_hash, V_payout_sats}. rwCols r' c = rwCols r c"
    "rwState r' = rwState r \<or> canTransition m (rwState r) (rwState r')"
    using table_row_step [OF a r(1) \<open>ids_distinct d\<close>] by blast
  then show "seen i h v A d'" using r assms exec_keeps_inv [OF a] d by (auto simp: seen_def evm_hash_def)
qed

lemma stable_reached: "stable exec (seen i h v (reach m t))"
  by (rule stable_seen [OF reach_step])

lemma seen_mono: "seen i h v A d \<Longrightarrow> A \<subseteq> B \<Longrightarrow> seen i h v B d"
  by (auto simp: seen_def)

lemma seen_inv: "seen i h v A d \<Longrightarrow> table_inv d"
  by (simp add: seen_def)

lemma seen_read:
  assumes "table_inv d" and "row_of d i = Some r"
  shows "seen i (evm_hash r) (sql_int (rwCols r V_payout_sats)) (reach m (rwState r)) d \<and>
    (\<forall>p. textOf (rwCols r V_preimage) = Some p \<longrightarrow> opens p (evm_hash r)) \<and> rwCols r V_payout_sats \<noteq> SNull \<and>
    (rwState r \<in> early \<longrightarrow> textOf (rwCols r V_preimage) = None)"
proof -
  have "table_row_ok r" using assms by (auto simp: table_inv_def)
  then show ?thesis using assms by (auto simp: seen_def table_row_ok_def evm_opened_def split: option.splits)
qed

text \<open>After a transition that was won the row is past the state it entered.\<close>

lemma seen_after_cas:
  assumes "exec (act (Cas i s t fs tm)) d = Some d'" and "ids_distinct d" and "seen i h v A d"
  shows "seen i h v (reach m t) d'"
proof -
  obtain r where r: "row_of d i = Some r" "evm_hash r = h" "rwCols r V_payout_sats = SInt v"
    using assms(3) by (auto simp: seen_def)
  have b: "exec_store sh ok (Cas i s t fs tm) d = Some d'" using assms(1) by (simp add: exec_act)
  have "row_of d' i = Some ((set_fields fs r)\<lparr>rwState := t, rwUpdated := tm\<rparr>)"
    using store_row_cas [OF b r(1) assms(2)] by simp
  moreover obtain r' where "row_of d' i = Some r'" "\<forall>c \<in> {V_payment_hash, V_payout_sats}. rwCols r' c = rwCols r c"
    using table_row_step [OF assms(1) r(1) assms(2)] by blast
  ultimately show ?thesis using r exec_keeps_inv [OF assms(1)] assms(3) by (auto simp: seen_def evm_hash_def)
qed

end

section \<open>Workers\<close>

text \<open>
  A corridor on such a table: \<open>pays i\<close> tells the acts by which the solver pays for the swap \<open>i\<close>, and a worker's
  own acts are balanced when it paid for each swap at most as often as it won the commitment of that swap.
\<close>

locale evm_corridor = evm_table m start refused stuck commit after sh ok exec part act opens claiming claimed early
  for m :: "'s StateMachine" and start refused stuck commit after and sh :: "('s, evm_col) StoreShape"
    and ok and exec :: "'act \<Rightarrow> ('s, evm_col) db \<Rightarrow> ('s, evm_col) db option" and part and act
    and opens and claiming claimed and early +
  fixes pays :: "string \<Rightarrow> 'act \<Rightarrow> bool"
  assumes act_part: "part (act b) = Some b"
    and store_pays_nothing: "\<not> pays i (act b)"
begin

fun commits :: "string \<Rightarrow> 'act \<Rightarrow> nat" where
  "commits i a = (case part a of Some (Cas j s t fs tm) \<Rightarrow> if j = i \<and> t = commit then 1 else 0 | _ \<Rightarrow> 0)"

definition payments :: "string \<Rightarrow> 'act \<Rightarrow> nat" where
  "payments i a = (if pays i a then 1 else 0)"

definition balanced :: "'act list \<Rightarrow> bool" where
  "balanced as \<longleftrightarrow> (\<forall>i. sum_list (map (payments i) as) \<le> sum_list (map (commits i) as))"

definition committed_for :: "string \<Rightarrow> 'act list \<Rightarrow> bool" where
  "committed_for i as \<longleftrightarrow> balanced as \<and> sum_list (map (payments i) as) < sum_list (map (commits i) as)"

declare commits.simps [simp del]

lemma commits_once:
  assumes "run_all exec as d = Some d'" and "ids_distinct d"
  shows "sum_list (map (commits i) as) \<le> 1"
proof -
  have "sum_list (map (commits i) as) = length (filter (\<lambda>e. snd e = commit) (edges_in part i as))"
    by (induction as) (auto simp: commits.simps split: option.splits store_act.splits)
  then show ?thesis using run_commit_once [OF assms, of i] by simp
qed

text \<open>However many workers: if each is balanced, the solver paid for no swap twice.\<close>

lemma pays_once:
  assumes "run_all exec (map snd trace) d = Some d'" and "ids_distinct d" and "\<And>w. balanced (acts_by w trace)"
  shows "length (filter (pays i) (map snd trace)) \<le> 1"
proof -
  have count: "length (filter (pays i) as) = sum_list (map (payments i) as)" for as
    by (induction as) (auto simp: payments_def)
  have "sum_list (map (payments i) (map snd trace)) \<le> sum_list (map (commits i) (map snd trace))"
    by (rule counts_by_worker) (use assms(3) in \<open>auto simp: balanced_def\<close>)
  then show ?thesis unfolding count using commits_once [OF assms(1,2), of i] by (rule order_trans)
qed

lemma balanced_store: "balanced as \<Longrightarrow> balanced (as @ [act b])"
  by (simp add: balanced_def payments_def store_pays_nothing trans_le_add1)

lemma balanced_free: "balanced as \<Longrightarrow> (\<And>i. \<not> pays i a) \<Longrightarrow> balanced (as @ [a])"
  by (simp add: balanced_def payments_def trans_le_add1)

lemma committed_store: "committed_for i as \<Longrightarrow> committed_for i (as @ [act b])"
  by (simp add: committed_for_def balanced_store payments_def store_pays_nothing trans_less_add1)

lemma committed_cas: "balanced as \<Longrightarrow> committed_for i (as @ [act (Cas i s commit fs tm)])"
  using balanced_store [of as "Cas i s commit fs tm"]
  by (simp add: committed_for_def payments_def store_pays_nothing commits.simps act_part) (simp add: balanced_def less_Suc_eq_le)

lemma committed_pays:
  assumes "committed_for i as" and "pays i a" and "\<And>j. pays j a \<Longrightarrow> j = i"
  shows "balanced (as @ [a])"
proof -
  have le: "sum_list (map (payments j) as) \<le> sum_list (map (commits j) as)" for j
    using assms(1) by (simp add: committed_for_def balanced_def)
  have "sum_list (map (payments j) as) + payments j a \<le> sum_list (map (commits j) as)" for j
  proof (cases "j = i")
    case True
    then show ?thesis using assms(1,2) by (simp add: committed_for_def payments_def)
  next
    case False
    then show ?thesis using assms(3) le by (auto simp: payments_def)
  qed
  then show ?thesis unfolding balanced_def by (simp add: trans_le_add1)
qed

lemma committed_balanced: "committed_for i as \<Longrightarrow> balanced as"
  by (simp add: committed_for_def)

text \<open>The predicates on own acts that every write to the table leaves alone.\<close>

definition tolerant :: "('act list \<Rightarrow> bool) \<Rightarrow> bool" where
  "tolerant P \<longleftrightarrow> (\<forall>as b. P as \<longrightarrow> P (as @ [act b]))"

lemma tolerant_balanced [intro]: "tolerant balanced"
  by (simp add: tolerant_def balanced_store)

lemma tolerant_committed [intro]: "tolerant (committed_for i)"
  by (simp add: tolerant_def committed_store)

lemma fkeep_patch:
  assumes "stable exec K" and "tolerant P" and "\<And>d r tm. K d \<Longrightarrow> row_of d i = Some r \<Longrightarrow> ok (Patch i fs tm) d"
  shows "keeps (follows exec d0 P K) (evm_patch (here sc) i fs)"
proof (rule follows_both)
  show "keeps (tracks exec d0 K) (evm_patch (here sc) i fs)" by (rule keeps_evm_patch [OF assms(1,3)])
  show "keeps (did P) (evm_patch (here sc) i fs)"
    by (rule keeps_did_evm_patch) (use assms(2) in \<open>simp add: tolerant_def\<close>)
qed

lemma fkeep_transition:
  assumes "stable exec K" and "tolerant P"
    and "\<And>d r tm. K d \<Longrightarrow> ids_distinct d \<Longrightarrow> row_of d i = Some r \<Longrightarrow> rwState r = s \<Longrightarrow>
      t \<in> set (shEdges sh s) \<and> ok (Cas i s t fs tm) d"
  shows "keeps (follows exec d0 P K) (evm_transition (here sc) i s t fs)"
proof (rule follows_both)
  show "keeps (tracks exec d0 K) (evm_transition (here sc) i s t fs)" by (rule keeps_evm_transition [OF assms(1,3)])
  show "keeps (did P) (evm_transition (here sc) i s t fs)"
    by (rule keeps_did_evm_transition) (use assms(2) in \<open>simp_all add: tolerant_def\<close>)
qed

text \<open>A transition of a row that was read, and what is known when it was won.\<close>

lemma seen_transition:
  assumes K: "stable exec K" and k: "\<And>d. K d \<Longrightarrow> seen i h v A d"
    and legal: "\<And>d r tm. K d \<Longrightarrow> ids_distinct d \<Longrightarrow> row_of d i = Some r \<Longrightarrow> rwState r = s \<Longrightarrow>
      t \<in> set (shEdges sh s) \<and> ok (Cas i s t fs tm) d"
  shows "spec (tracks exec d0 K) (evm_transition (here sc) i s t fs)
    (\<lambda>r w. tracks exec d0 K w \<and> (\<forall>x. r = Inr x \<longrightarrow> seen i h v (reach m t) (wDb w)))"
proof (rule spec_evm_transition [OF K legal])
  show "stable exec (seen i h v (reach m t))" by (rule stable_reached)
  show "seen i h v (reach m t) d'" if "K d" "ids_distinct d" "exec (act (Cas i s t fs tm)) d = Some d'" for d d' tm
    by (rule seen_after_cas [OF that(3,2) k [OF that(1)]])
qed

lemma fspec_transition:
  assumes K: "stable exec K" and P: "tolerant P" and k: "\<And>d. K d \<Longrightarrow> seen i h v A d"
    and legal: "\<And>d r tm. K d \<Longrightarrow> ids_distinct d \<Longrightarrow> row_of d i = Some r \<Longrightarrow> rwState r = s \<Longrightarrow>
      t \<in> set (shEdges sh s) \<and> ok (Cas i s t fs tm) d"
  shows "spec (follows exec d0 P K) (evm_transition (here sc) i s t fs)
    (\<lambda>r w. follows exec d0 P K w \<and> (\<forall>x. r = Inr x \<longrightarrow> seen i h v (reach m t) (wDb w)))"
proof -
  note seen_transition [OF K k legal]
  moreover have "keeps (did P) (evm_transition (here sc) i s t fs)"
    by (rule keeps_did_evm_transition) (use P in \<open>simp_all add: tolerant_def\<close>)
  ultimately show ?thesis
    unfolding follows_def [abs_def] by (rule spec_weaken [OF spec_conj]) auto
qed

text \<open>Enter a state, unless the row is in it already.\<close>

lemma fkeep_enter:
  assumes K: "stable exec K" and k: "\<And>d. K d \<Longrightarrow> seen i h v (reach m s) d"
    and legal: "\<And>d r tm. s \<noteq> t \<Longrightarrow> K d \<Longrightarrow> ids_distinct d \<Longrightarrow> row_of d i = Some r \<Longrightarrow> rwState r = s \<Longrightarrow>
      t \<in> set (shEdges sh s) \<and> ok (Cas i s t fs tm) d"
    and body: "keeps (follows exec d0 balanced (\<lambda>d. K d \<and> seen i h v (reach m t) d)) body"
  shows "keeps (follows exec d0 balanced K) (thn (only_if (s \<noteq> t) (evm_transition (here sc) i s t fs)) body)"
proof -
  have entered: "spec (follows exec d0 balanced K) (only_if (s \<noteq> t) (evm_transition (here sc) i s t fs))
      (\<lambda>r w. follows exec d0 balanced K w \<and> (\<forall>x. r = Inr x \<longrightarrow> seen i h v (reach m t) (wDb w)))"
  proof (cases "s = t")
    case True
    then show ?thesis using k by (auto simp: only_if_def spec_def ret_def follows_def tracks_def)
  next
    case False
    show ?thesis using fspec_transition [OF K tolerant_balanced k legal [OF False]] False
      by (simp only: only_if_def if_True not_False_eq_True)
  qed
  show ?thesis
    by (rule spec_follows_bnd [OF entered], assumption) (rule spec_weaken [OF body], simp_all add: follows_conj)
qed

lemma fspec_commit:
  assumes K: "stable exec K" and k: "\<And>d. K d \<Longrightarrow> seen i h v A d"
    and legal: "\<And>d r tm. K d \<Longrightarrow> ids_distinct d \<Longrightarrow> row_of d i = Some r \<Longrightarrow> rwState r = s \<Longrightarrow>
      commit \<in> set (shEdges sh s) \<and> ok (Cas i s commit fs tm) d"
  shows "spec (follows exec d0 balanced K) (evm_transition (here sc) i s commit fs)
    (\<lambda>r w. tracks exec d0 K w \<and> (if is_ok r then seen i h v (reach m commit) (wDb w) \<and> did (committed_for i) w
      else did balanced w))"
proof -
  note seen_transition [OF K k legal]
  moreover have "spec (did balanced) (evm_transition (here sc) i s commit fs)
      (\<lambda>r. did (if is_ok r then committed_for i else balanced))"
    by (rule spec_did_evm_transition) (auto simp: committed_cas committed_store committed_balanced)
  ultimately show ?thesis
    unfolding follows_def [abs_def] by (rule spec_weaken [OF spec_conj]) (auto simp: is_ok_iff)
qed

lemma fkeep_insert:
  assumes "stable exec K" and "tolerant P" and "fst ` set extra \<subseteq> {V_payout_pubkey}"
  shows "keeps (follows exec d0 P K) (evm_insert (here sc) q extra)"
  by (intro follows_both keeps_evm_insert keeps_did_evm_insert assms) (use assms(2) in \<open>simp_all add: tolerant_def\<close>)

text \<open>A payment that follows a commitment the worker has won and not paid for.\<close>

lemma fspec_pays_then:
  assumes K: "stable exec K" and e: "\<And>d. K d \<Longrightarrow> exec a d = Some d" and p: "pays i a" "\<And>j. pays j a \<Longrightarrow> j = i"
    and f: "\<And>x. keeps (follows exec d0 balanced K) (f x)"
  shows "spec (follows exec d0 (committed_for i) K) (bnd (perform exec sc a g) f) (\<lambda>_. follows exec d0 balanced K)"
proof -
  have "spec (follows exec d0 (committed_for i) K) (perform exec sc a g) (\<lambda>_. follows exec d0 balanced K)"
    unfolding follows_def [abs_def]
  proof (rule spec_conj)
    show "keeps (tracks exec d0 K) (perform exec sc a g)" by (rule keeps_perform' [OF K e])
    show "spec (did (committed_for i)) (perform exec sc a g) (\<lambda>_. did balanced)"
      by (rule spec_did_perform) (use committed_pays p committed_balanced in blast)+
  qed
  then show ?thesis by (rule spec_bnd) (simp_all add: f)
qed

lemma fspec_commit_then:
  assumes "stable exec K" and "\<And>d. K d \<Longrightarrow> seen i h v A d"
    and "\<And>d r tm. K d \<Longrightarrow> ids_distinct d \<Longrightarrow> row_of d i = Some r \<Longrightarrow> rwState r = s \<Longrightarrow>
      commit \<in> set (shEdges sh s) \<and> ok (Cas i s commit fs tm) d"
    and body: "spec (follows exec d0 (committed_for i) (\<lambda>d. K d \<and> seen i h v (reach m commit) d)) body
      (\<lambda>_. follows exec d0 balanced K)"
  shows "keeps (follows exec d0 balanced K) (thn (evm_transition (here sc) i s commit fs) body)"
proof (rule spec_bnd [OF fspec_commit [OF assms(1-3)]])
  fix x :: unit
  show "spec (\<lambda>w. tracks exec d0 K w \<and> (if is_ok (Inr x) then seen i h v (reach m commit) (wDb w) \<and> did (committed_for i) w
      else did balanced w)) body (\<lambda>_. follows exec d0 balanced K)"
    by (rule spec_weaken [OF body]) (auto simp: follows_def tracks_conj)
qed (auto simp: follows_def)

text \<open>What a service knows of a row it has read as a record.\<close>

definition has_read :: "('z EvmCommonFields_scheme \<Rightarrow> 's) \<Rightarrow> 'z EvmCommonFields_scheme \<Rightarrow> ('s, evm_col) db \<Rightarrow> bool" where
  "has_read st row d \<longleftrightarrow> seen (ecId row) (ecPaymentHash row) (ecPayoutSats row) (reach m (st row)) d \<and>
     (\<forall>p. ecPreimage row = Some p \<longrightarrow> opens p (ecPaymentHash row)) \<and> (st row \<in> early \<longrightarrow> ecPreimage row = None)"

lemma stable_has_read [intro]: "stable exec (has_read st row)"
  using stable_reached unfolding has_read_def [abs_def] by (auto simp: stable_def)

lemma has_read_inv: "has_read st row d \<Longrightarrow> table_inv d"
  unfolding has_read_def by (blast intro: seen_inv)

lemma has_read_row:
  assumes "has_read st row d"
  obtains r where "row_of d (ecId row) = Some r" "evm_hash r = ecPaymentHash row" "rwCols r V_payout_sats = SInt (ecPayoutSats row)"
    "rwState r \<in> reach m (st row)"
  using assms by (auto simp: has_read_def seen_def)

lemma seen_has_read:
  "seen i h v A d \<Longrightarrow> has_read st row d \<Longrightarrow> ecId row = i \<Longrightarrow>
     \<exists>r. row_of d i = Some r \<and> rwState r \<in> A \<and> rwCols r V_payout_sats = SInt (ecPayoutSats row) \<and> evm_hash r = ecPaymentHash row"
  by (auto simp: has_read_def seen_def)

lemma committed_weaken: "follows exec d0 (committed_for i) (\<lambda>d. K d \<and> L d) w \<Longrightarrow> follows exec d0 balanced K w"
  by (simp add: follows_def tracks_conj did_def committed_for_def)

definition reads :: "('z EvmCommonFields_scheme \<Rightarrow> 's) \<Rightarrow> (('s, evm_col) raw \<Rightarrow> 'z EvmCommonFields_scheme) \<Rightarrow> bool" where
  "reads st conv \<longleftrightarrow> (\<forall>r. EvmCommonFields.truncate (conv r) = commonFields r \<and> st (conv r) = rwState r)"

lemma truncate_fields:
  assumes "EvmCommonFields.truncate x = commonFields r"
  shows "ecId x = rwId r" "ecPaymentHash x = evm_hash r" "ecPreimage x = textOf (rwCols r V_preimage)"
    "rwCols r V_payout_sats \<noteq> SNull \<Longrightarrow> ecPayoutSats x = sql_int (rwCols r V_payout_sats)"
  using arg_cong [OF assms, of ecId] arg_cong [OF assms, of ecPaymentHash] arg_cong [OF assms, of ecPreimage]
    arg_cong [OF assms, of ecPayoutSats]
  by (simp_all add: EvmCommonFields.truncate_def commonFields_def Let_def evm_hash_def)

lemma has_read_of:
  assumes "reads st conv" and "table_inv d" and "row_of d i = Some r"
  shows "has_read st (conv r) d \<and> ecId (conv r) = i"
  using seen_read [OF assms(2,3)] row_of_Some [OF assms(3)] assms(1)
    truncate_fields [of "conv r" r] by (auto simp: has_read_def reads_def)

text \<open>A row that is read is known from then on, and was in a state \<open>Q\<close> if every row that can be there is.\<close>

lemma fspec_get_given:
  assumes K: "stable exec K" and inv: "\<And>d. K d \<Longrightarrow> table_inv d" and conv: "reads st conv"
    and Q: "\<And>d r. K d \<Longrightarrow> row_of d i = Some r \<Longrightarrow> Q (rwState r)"
  shows "spec (follows exec d0 P K) (bnd (evm_get (here sc) i) (\<lambda>raw. ret (conv raw)))
    (\<lambda>r w. follows exec d0 P K w \<and> (\<forall>row. r = Inr row \<longrightarrow> has_read st row (wDb w) \<and> ecId row = i \<and> Q (st row)))"
proof (rule spec_bnd)
  let ?L = "\<lambda>r w. has_read st (conv r) (wDb w) \<and> ecId (conv r) = i \<and> Q (st (conv r))"
  have st: "st (conv r) = rwState r" for r using conv by (simp add: reads_def)
  have "spec (tracks exec d0 K) (evm_get (here sc) i) (\<lambda>res w. tracks exec d0 K w \<and> (\<forall>r. res = Inr r \<longrightarrow> ?L r w))"
    unfolding st by (rule spec_evm_get [OF K]) (use has_read_of [OF conv] inv Q in blast)
  then show "spec (follows exec d0 P K) (evm_get (here sc) i) (\<lambda>res w. follows exec d0 P K w \<and> (\<forall>r. res = Inr r \<longrightarrow> ?L r w))"
    unfolding follows_def [abs_def] by (rule spec_weaken [OF spec_conj [OF _ keeps_did_evm_get]]) auto
qed (auto simp: spec_def ret_def)

lemmas fspec_get_row = fspec_get_given [where Q = "\<lambda>_. True", simplified]

text \<open>Continue with a row that was read, keeping what was known before.\<close>

lemma fspec_get_then:
  assumes "stable exec K" and "\<And>d. K d \<Longrightarrow> table_inv d" and "reads st conv"
    and E: "\<And>w. follows exec d0 P K w \<Longrightarrow> E w"
    and "\<And>row. ecId row = i \<Longrightarrow> spec (follows exec d0 P (\<lambda>d. K d \<and> has_read st row d)) (f row) (\<lambda>_. E)"
  shows "spec (follows exec d0 P K) (bnd (bnd (evm_get (here sc) i) (\<lambda>raw. ret (conv raw))) f) (\<lambda>_. E)"
proof (rule spec_follows_bnd [OF fspec_get_row [OF assms(1-3)] E])
  fix row
  show "spec (\<lambda>w. follows exec d0 P K w \<and> has_read st row (wDb w) \<and> ecId row = i) (f row) (\<lambda>_. E)"
  proof (cases "ecId row = i")
    case True
    show ?thesis by (rule spec_weaken [OF assms(5) [OF True]]) (auto simp: follows_conj)
  qed (simp add: spec_def)
qed

lemma fkeep_get_given:
  fixes st :: "'z EvmCommonFields_scheme \<Rightarrow> 's"
  assumes K: "stable exec K" and inv: "\<And>d. K d \<Longrightarrow> table_inv d" and conv: "reads st conv"
    and Q: "\<And>d r. K d \<Longrightarrow> row_of d i = Some r \<Longrightarrow> Q (rwState r)"
    and f: "\<And>row. ecId row = i \<Longrightarrow> Q (st row) \<Longrightarrow> keeps (follows exec d0 balanced (\<lambda>d. K d \<and> has_read st row d)) (f row)"
  shows "keeps (follows exec d0 balanced K) (bnd (bnd (evm_get (here sc) i) (\<lambda>raw. ret (conv raw))) f)"
proof (rule spec_follows_bnd [OF fspec_get_given [where Q = Q, OF K inv conv Q]])
  fix row :: "'z EvmCommonFields_scheme"
  show "spec (\<lambda>w. follows exec d0 balanced K w \<and> has_read st row (wDb w) \<and> ecId row = i \<and> Q (st row)) (f row)
      (\<lambda>_. follows exec d0 balanced K)"
  proof (cases "ecId row = i \<and> Q (st row)")
    case True
    then show ?thesis by (intro spec_weaken [OF f]) (auto simp: follows_conj)
  qed (auto simp: spec_def)
qed

lemmas fkeep_get_then = fkeep_get_given [where Q = "\<lambda>_. True", simplified]

text \<open>Between the commitment and the payment.\<close>

lemma committed_free: "committed_for i as \<Longrightarrow> (\<And>j. \<not> pays j a) \<Longrightarrow> committed_for i (as @ [a])"
  by (simp add: committed_for_def balanced_free payments_def trans_less_add1)

lemma committed_follows: "follows exec d0 (committed_for i) K w \<Longrightarrow> follows exec d0 balanced K w"
  by (simp add: follows_def did_def committed_for_def)

lemma fspec_prefix:
  assumes "keeps (follows exec d0 (committed_for i) K) m'"
    and "\<And>x. spec (follows exec d0 (committed_for i) K) (f x) (\<lambda>_. follows exec d0 balanced K)"
  shows "spec (follows exec d0 (committed_for i) K) (bnd m' f) (\<lambda>_. follows exec d0 balanced K)"
  by (rule spec_bnd [OF assms(1) committed_follows assms(2)])

end

section \<open>A sample quote\<close>

definition sample_evm_quote :: EvmQuoteRecord where
  "sample_evm_quote =
     \<lparr>vqId = ''a'', vqPaymentHash = replicate 64 (CHR ''0''), vqAmountSats = 1000, vqPayoutSats = 990, vqEvmAmount = ''600000'',
      vqTokenAddress = ''0x'' @ replicate 40 (CHR ''1''), vqEvmContractAddress = ''0x'' @ replicate 40 (CHR ''2''), vqEvmChainId = 1,
      vqEvmTimeout = 100000, vqValidUntil = 1700000600, vqMinConfirmations = 1, vqMinAgeSeconds = 10,
      vqEvmClaimAddress = ''0x'' @ replicate 40 (CHR ''3''), vqEvmRefundAddress = ''0x'' @ replicate 40 (CHR ''4''),
      vqRefundLocktime = 1700020000, vqProviderPubkey = ''01'', vqServerPubkey = ''02'', vqClaimDelay = 512,
      vqRefundDelay = 1024, vqRefundWithoutReceiverDelay = 2048, vqPkScript = ''51'', vqLockupAddress = ''ark1'',
      vqRefundPkScript = ''52'', vqEmulatorPubkey = ''03'', vqClientRefundPubkey = ''04'', vqReceiverPkScript = ''53'',
      vqNonInteractiveParameters = True, vqRfqId = None\<rparr>"

lemmas worker_eval = bnd_def ret_def now_def await_def read_db_def write_db_def perform_def logged_write_def

end
