(* ===== verification/Evm_Legs.thy ===== *)
theory Evm_Legs
  imports Evm_Table Lockups Admission
begin

text \<open>
  The pure parts of the two EVM corridors: the ERC20 lock a row describes (\<^verbatim>\<open>evm/lockFromRow.ts\<close>), the covenant
  script of its Arkade leg (\<^verbatim>\<open>evm/covenantRow.ts\<close>), when that leg counts as funded (\<^verbatim>\<open>core/lockupFunded.ts\<close>), how
  deep a lock is proven to be (\<^verbatim>\<open>evm/lockDepth.ts\<close>), seconds and blocks of an EVM chain (\<^verbatim>\<open>evm/blockTime.ts\<close>), and the
  binding handed to a payout funding provider (\<^verbatim>\<open>send/evmPayoutFunding.ts\<close>).
\<close>

section \<open>Text\<close>

definition is_digit :: "char \<Rightarrow> bool" where
  "is_digit c \<longleftrightarrow> c \<in> set ''0123456789''"

fun position_of :: "char \<Rightarrow> string \<Rightarrow> nat" where
  "position_of c [] = 0"
| "position_of c (x # xs) = (if x = c then 0 else Suc (position_of c xs))"

definition decimal_value :: "string \<Rightarrow> int" where
  "decimal_value s = foldl (\<lambda>n c. 10 * n + int (position_of c ''0123456789'')) 0 s"

definition is_hex_char :: "char \<Rightarrow> bool" where
  "is_hex_char c \<longleftrightarrow> c \<in> set ''0123456789abcdefABCDEF''"

definition hex_digit :: "char \<Rightarrow> nat" where
  "hex_digit c = (let p = position_of c ''0123456789abcdefABCDEF'' in if p < 16 then p else p - 6)"

fun hex_bytes :: "string \<Rightarrow> nat list" where
  "hex_bytes (a # b # s) = (16 * hex_digit a + hex_digit b) # hex_bytes s"
| "hex_bytes _ = []"

definition strip_0x :: "string \<Rightarrow> string" where
  "strip_0x s = (if take 2 s = ''0x'' then drop 2 s else s)"

fun hex_of_bytes :: "nat list \<Rightarrow> string" where
  "hex_of_bytes [] = []"
| "hex_of_bytes (b # bs) = ''0123456789abcdef'' ! (b div 16 mod 16) # ''0123456789abcdef'' ! (b mod 16) # hex_of_bytes bs"

section \<open>The lock of a row\<close>

record Erc20SwapLock =
  lkPreimageHash :: "nat list"
  lkAmount :: int
  lkTokenAddress :: "nat list"
  lkClaimAddress :: "nat list"
  lkRefundAddress :: "nat list"
  lkTimelock :: int

definition bytesFromHex :: "string \<Rightarrow> string \<Rightarrow> nat \<Rightarrow> exn + nat list" where
  "bytesFromHex v name len =
     (let body = strip_0x v in
      if length body \<noteq> len * 2 \<or> \<not> list_all is_hex_char body
      then Inl (Thrown (name @ '' must be bytes of hex''))
      else Inr (hex_bytes body))"

definition amountOf :: "string \<Rightarrow> string \<Rightarrow> exn + int" where
  "amountOf raw name =
     (if raw = [] \<or> \<not> list_all is_digit raw then Inl (Thrown (name @ '' must be a decimal integer''))
      else Inr (decimal_value raw))"

text \<open>The properties of the object literal are evaluated in order; the first that throws wins.\<close>

definition lockFromRow :: "'a EvmCommonFields_scheme \<Rightarrow> exn + Erc20SwapLock" where
  "lockFromRow row =
     and_then (bytesFromHex (ecPaymentHash row) ''paymentHash'' 32) (\<lambda>preimageHash.
     and_then (amountOf (ecEvmAmount row) ''evmAmount'') (\<lambda>amount.
     and_then (bytesFromHex (ecTokenAddress row) ''tokenAddress'' 20) (\<lambda>tokenAddress.
     and_then (bytesFromHex (ecEvmClaimAddress row) ''evmClaimAddress'' 20) (\<lambda>claimAddress.
     and_then (bytesFromHex (ecEvmRefundAddress row) ''evmRefundAddress'' 20) (\<lambda>refundAddress.
     Inr \<lparr>lkPreimageHash = preimageHash, lkAmount = amount, lkTokenAddress = tokenAddress,
       lkClaimAddress = claimAddress, lkRefundAddress = refundAddress, lkTimelock = ecEvmTimeout row\<rparr>)))))"

section \<open>The Arkade leg\<close>

record EvmCovenantRow =
  crId :: string
  crReceiverPubkey :: string
  crServerPubkey :: string
  crPaymentHash :: string
  crRefundLocktime :: int
  crClaimDelay :: int
  crEmulatorPubkey :: string
  crRefundPkScript :: string
  crPkScript :: string
  crClientRefundPubkey :: string
  crRefundWithoutReceiverDelay :: int
  crRefundDelay :: int
  crReceiverPkScript :: string
  crNonInteractiveParameters :: "bool option"

definition covenantRowWith :: "'a EvmCommonFields_scheme \<Rightarrow> string \<Rightarrow> EvmCovenantRow" where
  "covenantRowWith row receiverPubkey =
     \<lparr>crId = ecId row, crReceiverPubkey = receiverPubkey, crServerPubkey = ecServerPubkey row,
      crPaymentHash = ecPaymentHash row, crRefundLocktime = ecRefundLocktime row, crClaimDelay = ecClaimDelay row,
      crEmulatorPubkey = ecEmulatorPubkey row, crRefundPkScript = ecRefundPkScript row, crPkScript = ecPkScript row,
      crClientRefundPubkey = ecClientRefundPubkey row,
      crRefundWithoutReceiverDelay = ecRefundWithoutReceiverDelay row, crRefundDelay = ecRefundDelay row,
      crReceiverPkScript = ecReceiverPkScript row, crNonInteractiveParameters = ecNonInteractiveParameters row\<rparr>"

definition evmSendCovenantRowFor :: "EvmSendSwapRow \<Rightarrow> EvmCovenantRow" where
  "evmSendCovenantRowFor row = covenantRowWith row (ecProviderPubkey row)"

definition evmReceiveCovenantRowFor :: "EvmReceiveSwapRow \<Rightarrow> EvmCovenantRow" where
  "evmReceiveCovenantRowFor row = covenantRowWith row (evPayoutPubkey row)"

datatype LockupExpectation = Expect_sats int | Expect_asset string int

text \<open>An output as its value and the assets it carries.\<close>

definition lockupIsFunded :: "(int \<times> (string \<times> int) list) list \<Rightarrow> LockupExpectation \<Rightarrow> bool" where
  "lockupIsFunded outputs expectation =
     (case expectation of
        Expect_sats amount \<Rightarrow> foldl (\<lambda>total out. total + fst out) 0 outputs \<ge> amount
      | Expect_asset assetId amount \<Rightarrow>
          (let held = sum_list (map snd (filter (\<lambda>a. fst a = assetId) (concat (map snd outputs)))) in
           amount > 0 \<and> held \<ge> amount))"

section \<open>Depth of a lock\<close>

record LockDepth =
  ldConfirmations :: int
  ldAgeSeconds :: int

definition UNPROVEN :: LockDepth where
  "UNPROVEN = \<lparr>ldConfirmations = 0, ldAgeSeconds = 0\<rparr>"

record DepthQuestion =
  dqPresent :: bool
  dqHeight :: int
  dqMinConfirmations :: int
  dqNowSeconds :: int

text \<open>\<open>asking\<close> awaits a call of the backend; \<open>lockedAt\<close> and \<open>stampAt\<close> answer for one block.\<close>

definition provenDepth ::
    "((nat \<Rightarrow> exn + bool) \<Rightarrow> ('db, 'act, bool) worker) \<Rightarrow> ((nat \<Rightarrow> exn + int) \<Rightarrow> ('db, 'act, int) worker) \<Rightarrow>
     (nat \<Rightarrow> int \<Rightarrow> exn + bool) \<Rightarrow> (nat \<Rightarrow> int \<Rightarrow> exn + int) \<Rightarrow> DepthQuestion \<Rightarrow> ('db, 'act, LockDepth) worker" where
  "provenDepth askLocked askStamp lockedAt stampAt question =
     (let probe = dqHeight question - dqMinConfirmations question + 1 in
      if \<not> dqPresent question \<or> probe < 1 then ret UNPROVEN
      else catch
        (bnd (askLocked (\<lambda>n. lockedAt n probe)) (\<lambda>locked.
         if \<not> locked then ret UNPROVEN
         else bnd (askStamp (\<lambda>n. stampAt n probe)) (\<lambda>stamp.
           ret \<lparr>ldConfirmations = dqMinConfirmations question, ldAgeSeconds = dqNowSeconds question - stamp\<rparr>)))
        (\<lambda>_. ret UNPROVEN))"

lemma keeps_provenDepth:
  "(\<And>f. keeps I (askLocked f)) \<Longrightarrow> (\<And>f. keeps I (askStamp f)) \<Longrightarrow>
     keeps I (provenDepth askLocked askStamp lockedAt stampAt question)"
  unfolding provenDepth_def by (intro keep)

section \<open>Blocks and seconds\<close>

record EvmBlockCadence =
  cdFastest :: real
  cdSlowest :: real

definition assertCadence :: "EvmBlockCadence \<Rightarrow> exn + unit" where
  "assertCadence cadence =
     (if cdFastest cadence \<le> 0 then Inl (Thrown ''fastestSecondsPerBlock must be a positive number'')
      else if cdSlowest cadence \<le> 0 then Inl (Thrown ''slowestSecondsPerBlock must be a positive number'')
      else if cdFastest cadence > cdSlowest cadence
      then Inl (Thrown ''fastestSecondsPerBlock must be <= slowestSecondsPerBlock'')
      else Inr ())"

definition deadlineSecondsForBlock :: "int \<Rightarrow> int \<Rightarrow> int \<Rightarrow> EvmBlockCadence \<Rightarrow> exn + real" where
  "deadlineSecondsForBlock timeoutBlock currentBlock nowSeconds cadence =
     and_then (assertCadence cadence) (\<lambda>_.
     Inr (of_int nowSeconds + of_int (timeoutBlock - currentBlock) * cdFastest cadence))"

definition blocksForDuration :: "int \<Rightarrow> EvmBlockCadence \<Rightarrow> exn + int" where
  "blocksForDuration seconds cadence =
     and_then (assertCadence cadence) (\<lambda>_.
     if seconds \<le> 0 then Inl (Thrown ''duration must be positive seconds'')
     else Inr (max 1 \<lfloor>of_int seconds / cdSlowest cadence\<rfloor>))"

section \<open>Payout funding\<close>

definition bytesHex :: "nat list \<Rightarrow> nat \<Rightarrow> exn + string" where
  "bytesHex bytes len = (if length bytes \<noteq> len then Inl (Thrown ''invalid payout funding bytes'') else Inr (hex_of_bytes bytes))"

definition normalizedHex :: "string \<Rightarrow> nat \<Rightarrow> exn + string" where
  "normalizedHex v len =
     (let normalized = toLowerCase (strip_0x v) in
      if length normalized \<noteq> len * 2 \<or> \<not> list_all (\<lambda>c. c \<in> set ''0123456789abcdef'') normalized
      then Inl (Thrown ''invalid payout funding hex'') else Inr normalized)"

definition validInteger :: "int \<Rightarrow> bool \<Rightarrow> bool" where
  "validInteger v positive \<longleftrightarrow> isSafeInteger v \<and> v \<ge> (if positive then 1 else 0)"

definition positive_decimal :: "string \<Rightarrow> bool" where
  "positive_decimal s = (case s of [] \<Rightarrow> False | c # _ \<Rightarrow> c \<noteq> CHR ''0'' \<and> list_all is_digit s)"

record EvmPayoutFundingBinding =
  fbAdapterId :: string
  fbIntentId :: string
  fbChainId :: int
  fbContractAddress :: string
  fbPaymentHash :: string
  fbTokenAddress :: string
  fbAmount :: string
  fbArkadeAmountSats :: string
  fbPayoutSats :: string
  fbQuoteValidUntil :: int
  fbClaimAddress :: string
  fbRefundAddress :: string
  fbEvmTimeout :: string
  fbArkadeRefundLocktime :: int
  fbMinConfirmations :: int
  fbMinAgeSeconds :: int

text \<open>What \<open>trim\<close> removes, among the ASCII characters.\<close>

definition is_space :: "char \<Rightarrow> bool" where
  "is_space c \<longleftrightarrow> c = CHR '' '' \<or> 9 \<le> (of_char c :: nat) \<and> (of_char c :: nat) \<le> 13"

definition lock_matches :: "'a EvmCommonFields_scheme \<Rightarrow> Erc20SwapLock \<Rightarrow> string \<Rightarrow> string \<Rightarrow> string \<Rightarrow> string \<Rightarrow> exn + bool" where
  "lock_matches row lock paymentHash token claim refund =
     and_then (bytesHex (lkPreimageHash lock) 32) (\<lambda>h. if h \<noteq> paymentHash then Inr False else
     and_then (bytesHex (lkTokenAddress lock) 20) (\<lambda>t. if t \<noteq> token then Inr False else
     and_then (bytesHex (lkClaimAddress lock) 20) (\<lambda>c. if c \<noteq> claim then Inr False else
     and_then (bytesHex (lkRefundAddress lock) 20) (\<lambda>r.
     Inr (r = refund \<and> lkAmount lock = decimal_value (ecEvmAmount row) \<and> lkTimelock lock = ecEvmTimeout row)))))"

definition payoutFundingBinding ::
    "string \<Rightarrow> 'a EvmCommonFields_scheme \<Rightarrow> Erc20SwapLock \<Rightarrow> exn + EvmPayoutFundingBinding" where
  "payoutFundingBinding adapterId row lock =
     (if list_all is_space adapterId \<or> ecId row = [] \<or> \<not> positive_decimal (ecEvmAmount row)
      then Inl (Thrown ''invalid payout funding identity or amount'')
      else if \<not> validInteger (ecAmountSats row) True \<or> \<not> validInteger (ecPayoutSats row) True \<or>
        \<not> validInteger (ecValidUntil row) True \<or> \<not> validInteger (ecEvmChainId row) True \<or>
        \<not> validInteger (ecEvmTimeout row) True \<or> \<not> validInteger (ecRefundLocktime row) True \<or>
        \<not> validInteger (ecMinConfirmations row) False \<or> \<not> validInteger (ecMinAgeSeconds row) False
      then Inl (Thrown ''invalid payout funding deadline or chain'')
      else if decimal_value (ecEvmAmount row) \<ge> 2 ^ 256 then Inl (Thrown ''payout funding amount exceeds uint256'')
      else
        and_then (normalizedHex (ecPaymentHash row) 32) (\<lambda>paymentHash.
        and_then (normalizedHex (ecTokenAddress row) 20) (\<lambda>token.
        and_then (normalizedHex (ecEvmClaimAddress row) 20) (\<lambda>claim.
        and_then (normalizedHex (ecEvmRefundAddress row) 20) (\<lambda>refund.
        and_then (lock_matches row lock paymentHash token claim refund) (\<lambda>same.
        if \<not> same then Inl (Thrown ''payout funding lock does not match persisted quote'')
        else and_then (normalizedHex (ecEvmContractAddress row) 20) (\<lambda>contract.
        Inr \<lparr>fbAdapterId = adapterId, fbIntentId = ecId row, fbChainId = ecEvmChainId row,
          fbContractAddress = ''0x'' @ contract, fbPaymentHash = paymentHash, fbTokenAddress = ''0x'' @ token,
          fbAmount = ecEvmAmount row, fbArkadeAmountSats = show_int (ecAmountSats row),
          fbPayoutSats = show_int (ecPayoutSats row), fbQuoteValidUntil = ecValidUntil row,
          fbClaimAddress = ''0x'' @ claim, fbRefundAddress = ''0x'' @ refund, fbEvmTimeout = show_int (ecEvmTimeout row),
          fbArkadeRefundLocktime = ecRefundLocktime row, fbMinConfirmations = ecMinConfirmations row,
          fbMinAgeSeconds = ecMinAgeSeconds row\<rparr>)))))))"

definition checkedActivationTxid :: "string option \<Rightarrow> exn + string option" where
  "checkedActivationTxid activationTxid =
     (case activationTxid of
        None \<Rightarrow> Inr None
      | Some t \<Rightarrow>
          if take 2 t \<noteq> ''0x'' \<or> length t \<noteq> 66 \<or> \<not> list_all is_hex_char (drop 2 t)
          then Inl (Thrown ''invalid payout funding activation transaction hash'')
          else Inr (Some (toLowerCase t)))"

end
