(* ===== verification/Evm_Receive.thy ===== *)
theory Evm_Receive
  imports Evm_Legs Sweeps Pricing
begin

text \<open>
  \<^verbatim>\<open>receive/evmOrchestrator.ts\<close> and \<^verbatim>\<open>receive/evmArkadeDeps.ts\<close>: the client locks an ERC20 on an EVM chain, the solver
  funds an Arkade lockup, the client opens it with the preimage, and the solver uses the preimage to claim
  the ERC20. \<open>EVM_RECEIVE_SHAPE\<close> is what the store is constructed with; its table of edges is not in the code,
  which leaves the choice of the next state to the planner. It is the set of edges the service promises to
  take, and \<open>Evm_Receive_Refinement\<close> proves that it takes no other.
\<close>

section \<open>The table\<close>

fun evm_receive_edges :: "EvmReceiveSwapState \<Rightarrow> EvmReceiveSwapState list" where
  "evm_receive_edges Ev_quoted = [Ev_funding_arkade, Ev_refused, Ev_claiming, Ev_stuck]"
| "evm_receive_edges Ev_awaiting_lock = [Ev_funding_arkade, Ev_refused, Ev_claiming, Ev_stuck]"
| "evm_receive_edges Ev_locked = [Ev_funding_arkade, Ev_refused, Ev_claiming, Ev_stuck]"
| "evm_receive_edges Ev_funding_arkade = [Ev_awaiting_claim, Ev_claiming, Ev_stuck]"
| "evm_receive_edges Ev_awaiting_claim = [Ev_refunding_arkade, Ev_claiming, Ev_stuck]"
| "evm_receive_edges Ev_refunding_arkade = [Ev_refunded, Ev_claiming, Ev_stuck]"
| "evm_receive_edges Ev_claiming = [Ev_claimed, Ev_stuck]"
| "evm_receive_edges _ = []"

definition EvmReceiveMachine :: "EvmReceiveSwapState StateMachine" where
  "EvmReceiveMachine =
     \<lparr>mStates = EVM_RECEIVE_NON_TERMINAL @ EVM_RECEIVE_TERMINAL, mLive = EVM_RECEIVE_NON_TERMINAL,
      mExposed = EVM_RECEIVE_EXPOSED, mTerminal = EVM_RECEIVE_TERMINAL, mEdges = evm_receive_edges, mWhere = (\<lambda>_. [])\<rparr>"

definition EVM_RECEIVE_COLUMNS :: "evm_col list" where
  "EVM_RECEIVE_COLUMNS = [V_evm_lock_txid, V_evm_claim_txid, V_preimage, V_fund_ark_txid, V_refund_ark_txid, V_failure_reason]"

definition EVM_RECEIVE_SHAPE :: "(EvmReceiveSwapState, evm_col) StoreShape" where
  "EVM_RECEIVE_SHAPE =
     \<lparr>shNoun = ''receive'', shLabel = ''receive_evm_swap'', shEdges = evm_receive_edges,
      shTransitionColumns = EVM_RECEIVE_COLUMNS, shPatchColumns = EVM_RECEIVE_COLUMNS,
      shLive = EVM_RECEIVE_NON_TERMINAL, shExposed = EVM_RECEIVE_EXPOSED, shStart = Ev_quoted,
      shStuck = Ev_stuck, shRefused = Ev_refused, shPaymentHash = V_payment_hash, shRfqId = V_rfq_id,
      shPkScript = V_pk_script, shAmount = V_amount_sats, shFailure = V_failure_reason,
      shLease = None, shOnce = None\<rparr>"

section \<open>The actions of the service\<close>

text \<open>
  \<open>FundArkade id sats\<close> pays the Arkade lockup, \<open>ClaimErc20 id p\<close> takes the client's lock with the preimage
  \<open>p\<close>, \<open>RefundArkade id\<close> takes the solver's lockup back.
\<close>

datatype evm_receive_act =
    VSt "(EvmReceiveSwapState, evm_col) store_act"
  | FundArkade string int
  | ClaimErc20 string string
  | RefundArkade string

type_synonym evm_receive_db = "(EvmReceiveSwapState, evm_col) db"
type_synonym 'a evm_receive_job = "(evm_receive_db, evm_receive_act, 'a) worker"

fun evm_receive_part :: "evm_receive_act \<Rightarrow> (EvmReceiveSwapState, evm_col) store_act option" where
  "evm_receive_part (VSt a) = Some a"
| "evm_receive_part _ = None"

text \<open>
  What the service adds to the rules of a store: a quote is inserted only for a hash no live row has;
  \<open>claiming\<close> is entered with a preimage of the row's own hash, and nothing else writes the preimage.
\<close>

fun evm_receive_ok :: "(string \<Rightarrow> string \<Rightarrow> bool) \<Rightarrow> (EvmReceiveSwapState, evm_col) store_act \<Rightarrow> evm_receive_db \<Rightarrow> bool" where
  "evm_receive_ok opens (Insert q) d \<longleftrightarrow>
     (case textOf (rwCols q V_payment_hash) of
        None \<Rightarrow> False | Some h \<Rightarrow> findLiveByPaymentHash EVM_RECEIVE_SHAPE h d = None) \<and>
     numberOrNull (rwCols q V_payout_sats) \<noteq> None \<and> rwCols q V_preimage = SNull"
| "evm_receive_ok opens (Cas i s t fs tm) d \<longleftrightarrow> (case row_of d i of
     None \<Rightarrow> False
   | Some r \<Rightarrow> if t = Ev_claiming then evm_opened opens (set_fields fs r) else V_preimage \<notin> fst ` set fs)"
| "evm_receive_ok opens (Patch i fs tm) d \<longleftrightarrow> V_preimage \<notin> fst ` set fs"
| "evm_receive_ok opens _ d \<longleftrightarrow> True"

text \<open>The states from the commitment of the payout on, from the claim on, and from the refund on.\<close>

definition arkade_committed :: "EvmReceiveSwapState set" where
  "arkade_committed = {Ev_funding_arkade, Ev_awaiting_claim, Ev_refunding_arkade, Ev_refunded, Ev_claiming, Ev_claimed, Ev_stuck}"

definition erc20_claiming :: "EvmReceiveSwapState set" where
  "erc20_claiming = {Ev_claiming, Ev_claimed, Ev_stuck}"

definition arkade_refunding :: "EvmReceiveSwapState set" where
  "arkade_refunding = {Ev_refunding_arkade, Ev_refunded, Ev_claiming, Ev_claimed, Ev_stuck}"

fun exec_evm_receive :: "(string \<Rightarrow> string \<Rightarrow> bool) \<Rightarrow> evm_receive_act \<Rightarrow> evm_receive_db \<Rightarrow> evm_receive_db option" where
  "exec_evm_receive opens (VSt a) d = exec_store EVM_RECEIVE_SHAPE (evm_receive_ok opens) a d"
| "exec_evm_receive opens (FundArkade i sats) d =
     evm_permitted (\<lambda>r. rwState r \<in> arkade_committed \<and> rwCols r V_payout_sats = SInt sats) i d"
| "exec_evm_receive opens (ClaimErc20 i p) d = evm_permitted (\<lambda>r. rwState r \<in> erc20_claiming \<and> opens p (evm_hash r)) i d"
| "exec_evm_receive opens (RefundArkade i) d = evm_permitted (\<lambda>r. rwState r \<in> arkade_refunding) i d"

section \<open>Ports\<close>

text \<open>
  The EVM node, the Arkade server and its indexer are parameters, and so is the signer behind \<open>broadcast\<close>.
  \<open>vdFund\<close> and \<open>vdRefund\<close> are the server's answers to the two spends.
\<close>

record EvmReceiveServiceDeps =
  vdSchedule :: "(evm_receive_db, evm_receive_act) schedule"
  vdHexDecode :: "string \<Rightarrow> nat list option"
  vdHexEncode :: "nat list \<Rightarrow> string"
  vdBufferFromHex :: "string \<Rightarrow> nat list"
  vdSha256Hex :: "nat list \<Rightarrow> string"
  vdIsLocked :: "nat \<Rightarrow> Erc20SwapLock \<Rightarrow> exn + bool"
  vdIsLockedAt :: "nat \<Rightarrow> Erc20SwapLock \<Rightarrow> int \<Rightarrow> exn + bool"
  vdBlockTimestampAt :: "nat \<Rightarrow> int \<Rightarrow> exn + int"
  vdTransactionOutcome :: "nat \<Rightarrow> string \<Rightarrow> exn + EvmTransactionOutcome"
  vdBlockHeight :: "nat \<Rightarrow> exn + int"
  vdTimelockHeight :: "nat \<Rightarrow> exn + int"
  vdFindLockups :: "nat \<Rightarrow> string \<Rightarrow> exn + FundedOutput list"
  vdFindLockupOutpoints :: "nat \<Rightarrow> string \<Rightarrow> exn + LockupOutpoint list"
  vdIndexer :: "nat \<Rightarrow> nat list indexer"
  vdFund :: "nat \<Rightarrow> string \<Rightarrow> int \<Rightarrow> exn + string"
  vdRefund :: "nat \<Rightarrow> EvmCovenantRow \<Rightarrow> FundedOutput list \<Rightarrow> exn + string"
  vdClaimCall :: "nat \<Rightarrow> nat list \<Rightarrow> Erc20SwapLock \<Rightarrow> exn + string"

abbreviation vopens :: "EvmReceiveServiceDeps \<Rightarrow> string \<Rightarrow> string \<Rightarrow> bool" where
  "vopens dp \<equiv> preimageMatchesHash (vdHexDecode dp) (vdSha256Hex dp)"

abbreviation vexec :: "EvmReceiveServiceDeps \<Rightarrow> evm_receive_act \<Rightarrow> evm_receive_db \<Rightarrow> evm_receive_db option" where
  "vexec dp \<equiv> exec_evm_receive (vopens dp)"

abbreviation vstore :: "EvmReceiveServiceDeps \<Rightarrow> (EvmReceiveSwapState, evm_col, evm_receive_act) store" where
  "vstore dp \<equiv> \<lparr>soShape = EVM_RECEIVE_SHAPE, soExec = vexec dp, soAct = VSt, soSchedule = vdSchedule dp\<rparr>"

abbreviation vcall :: "EvmReceiveServiceDeps \<Rightarrow> (nat \<Rightarrow> exn + 'a) \<Rightarrow> 'a evm_receive_job" where
  "vcall dp f \<equiv> ask (vexec dp) (vdSchedule dp) f"

abbreviation vact :: "EvmReceiveServiceDeps \<Rightarrow> evm_receive_act \<Rightarrow> (nat \<Rightarrow> exn + 'a) \<Rightarrow> 'a evm_receive_job" where
  "vact dp a f \<equiv> perform (vexec dp) (vdSchedule dp) a f"

definition get_evm_receive :: "EvmReceiveServiceDeps \<Rightarrow> string \<Rightarrow> EvmReceiveSwapRow evm_receive_job" where
  "get_evm_receive dp i = bnd (evm_get (vstore dp) i) (\<lambda>raw. ret (evm_receive_toRow raw))"

definition insertEvmReceiveQuote :: "EvmReceiveServiceDeps \<Rightarrow> EvmQuoteRecord \<Rightarrow> string \<Rightarrow> EvmReceiveSwapRow evm_receive_job" where
  "insertEvmReceiveQuote dp quote payoutPubkey =
     bnd (evm_insert (vstore dp) quote [(V_payout_pubkey, SText payoutPubkey)]) (\<lambda>raw. ret (evm_receive_toRow raw))"

section \<open>The Arkade leg\<close>

definition receiveLockupFunded :: "EvmReceiveServiceDeps \<Rightarrow> EvmReceiveSwapRow \<Rightarrow> bool evm_receive_job" where
  "receiveLockupFunded dp row =
     bnd (vcall dp (\<lambda>n. vdFindLockupOutpoints dp n (ecPkScript row))) (\<lambda>outpoints.
     ret (lockupIsFunded (map (\<lambda>o1. (opValue o1, [])) outpoints) (Expect_sats (ecPayoutSats row))))"

definition arkadePreimage :: "EvmReceiveServiceDeps \<Rightarrow> EvmReceiveSwapRow \<Rightarrow> string option evm_receive_job" where
  "arkadePreimage dp row =
     bnd (vcall dp (\<lambda>n. vdFindLockupOutpoints dp n (ecPkScript row))) (\<lambda>outpoints.
     if outpoints = [] then ret None
     else bnd (vcall dp (\<lambda>n.
       findClaimPreimage (vdSha256Hex dp) (vdIndexer dp n) (map outpoint_key outpoints) (ecPaymentHash row))) (\<lambda>preimage.
     ret (map_option (vdHexEncode dp) preimage)))"

definition fundArkade :: "EvmReceiveServiceDeps \<Rightarrow> EvmReceiveSwapRow \<Rightarrow> string evm_receive_job" where
  "fundArkade dp row =
     vact dp (FundArkade (ecId row) (ecPayoutSats row)) (\<lambda>n. vdFund dp n (ecLockupAddress row) (ecPayoutSats row))"

definition refundArkade :: "EvmReceiveServiceDeps \<Rightarrow> EvmReceiveSwapRow \<Rightarrow> string evm_receive_job" where
  "refundArkade dp row =
     bnd (vcall dp (\<lambda>n. vdFindLockups dp n (ecPkScript row))) (\<lambda>outputs.
     if outputs = [] then throw (Thrown ''no spendable output at the lockup - nothing to refund'')
     else vact dp (RefundArkade (ecId row)) (\<lambda>n. vdRefund dp n (evmReceiveCovenantRowFor row) outputs))"

section \<open>One step\<close>

definition evm_claimOutcome :: "EvmReceiveServiceDeps \<Rightarrow> EvmReceiveSwapRow \<Rightarrow> EvmTransactionOutcome evm_receive_job" where
  "evm_claimOutcome dp row =
     (case ecEvmClaimTxid row of
        None \<Rightarrow> ret Tx_pending
      | Some txid \<Rightarrow> catch (vcall dp (\<lambda>n. vdTransactionOutcome dp n txid)) (\<lambda>_. ret Tx_pending))"

text \<open>The members of \<open>Promise.all\<close> are awaited in turn: each can still answer at any moment of the schedule.\<close>

definition observe :: "EvmReceiveServiceDeps \<Rightarrow> EvmReceiveSwapRow \<Rightarrow> EvmReceiveObservation evm_receive_job" where
  "observe dp row =
     bnd (from_result (lockFromRow row)) (\<lambda>lock.
     bnd (vcall dp (\<lambda>n. vdIsLocked dp n lock)) (\<lambda>present.
     bnd (receiveLockupFunded dp row) (\<lambda>funded.
     bnd (vcall dp (vdBlockHeight dp)) (\<lambda>height.
     bnd (vcall dp (vdTimelockHeight dp)) (\<lambda>clock.
     bnd (evm_claimOutcome dp row) (\<lambda>outcome.
     bnd (case ecPreimage row of
            Some p \<Rightarrow> ret (Some p)
          | None \<Rightarrow> if funded then arkadePreimage dp row else ret None) (\<lambda>preimage.
     bnd (now (vdSchedule dp)) (\<lambda>probing.
     bnd (provenDepth (vcall dp) (vcall dp) (\<lambda>n. vdIsLockedAt dp n lock) (vdBlockTimestampAt dp)
            \<lparr>dqPresent = present, dqHeight = height, dqMinConfirmations = ecMinConfirmations row, dqNowSeconds = probing\<rparr>) (\<lambda>depth.
     bnd (now (vdSchedule dp)) (\<lambda>tm.
     ret \<lparr>orEvmLockPresent = present, orEvmLockConfirmations = ldConfirmations depth,
       orEvmLockAgeSeconds = ldAgeSeconds depth, orArkadeLockupFunded = funded, orEvmClaimOutcome = outcome,
       orPreimage = preimage, orNowSeconds = tm, orEvmTimelockHeight = clock\<rparr>))))))))))"

definition receive_plan_row :: "EvmReceiveSwapRow \<Rightarrow> EvmReceivePlanRow" where
  "receive_plan_row row =
     \<lparr>prState = evState row, prRefundLocktime = ecRefundLocktime row, prEvmTimeout = ecEvmTimeout row,
      prValidUntil = ecValidUntil row, prMinConfirmations = ecMinConfirmations row,
      prMinAgeSeconds = ecMinAgeSeconds row, prPreimage = ecPreimage row, prEvmClaimTxid = ecEvmClaimTxid row\<rparr>"

definition fund_arkade_step :: "EvmReceiveServiceDeps \<Rightarrow> EvmReceiveSwapRow \<Rightarrow> bool evm_receive_job" where
  "fund_arkade_step dp row =
     bnd (vcall dp (vdTimelockHeight dp)) (\<lambda>height.
     if evmReceiveFundWindowClosed height (ecEvmTimeout row)
     then thn (evm_transition (vstore dp) (ecId row) (evState row) Ev_refused
            [(V_failure_reason, SText EVM_RECEIVE_FUND_WINDOW_REFUSAL)]) (ret False)
     else
       thn (evm_transition (vstore dp) (ecId row) (evState row) Ev_funding_arkade [])
       (bnd (get_evm_receive dp (ecId row)) (\<lambda>fresh.
        bnd (fundArkade dp fresh) (\<lambda>txid.
        thn (evm_patch (vstore dp) (ecId row) [(V_fund_ark_txid, SText txid)]) (ret True)))))"

definition claim_evm_step :: "EvmReceiveServiceDeps \<Rightarrow> EvmReceiveSwapRow \<Rightarrow> string \<Rightarrow> bool evm_receive_job" where
  "claim_evm_step dp row preimage =
     thn (only_if (evState row \<noteq> Ev_claiming)
       (evm_transition (vstore dp) (ecId row) (evState row) Ev_claiming [(V_preimage, SText preimage)]))
     (bnd (get_evm_receive dp (ecId row)) (\<lambda>fresh.
      bnd (from_result (lockFromRow fresh)) (\<lambda>lock.
      bnd (vact dp (ClaimErc20 (ecId row) preimage) (\<lambda>n. vdClaimCall dp n (vdBufferFromHex dp preimage) lock)) (\<lambda>txid.
      thn (evm_patch (vstore dp) (ecId row) [(V_evm_claim_txid, SText txid)]) (ret False)))))"

definition refund_arkade_step :: "EvmReceiveServiceDeps \<Rightarrow> EvmReceiveSwapRow \<Rightarrow> bool evm_receive_job" where
  "refund_arkade_step dp row =
     thn (only_if (evState row \<noteq> Ev_refunding_arkade)
       (evm_transition (vstore dp) (ecId row) (evState row) Ev_refunding_arkade []))
     (bnd (get_evm_receive dp (ecId row)) (\<lambda>fresh.
      bnd (refundArkade dp fresh) (\<lambda>txid.
      thn (evm_transition (vstore dp) (ecId row) Ev_refunding_arkade Ev_refunded [(V_refund_ark_txid, SText txid)])
        (ret False))))"

definition evm_receive_step :: "EvmReceiveServiceDeps \<Rightarrow> EvmReceiveSwapRow \<Rightarrow> bool evm_receive_job" where
  "evm_receive_step dp row =
     bnd (observe dp row) (\<lambda>seen.
     case planEvmReceive (receive_plan_row row) seen of
       RWait \<Rightarrow> ret False
     | RRefuse reason \<Rightarrow>
         thn (evm_transition (vstore dp) (ecId row) (evState row) Ev_refused [(V_failure_reason, SText reason)]) (ret False)
     | RStick reason \<Rightarrow> thn (evm_fail (vstore dp) (ecId row) (evState row) reason) (ret False)
     | Fund_arkade \<Rightarrow> fund_arkade_step dp row
     | RAwait_claim \<Rightarrow> thn (evm_transition (vstore dp) (ecId row) (evState row) Ev_awaiting_claim []) (ret True)
     | Claim_evm preimage \<Rightarrow> claim_evm_step dp row preimage
     | Record_claim \<Rightarrow> thn (evm_transition (vstore dp) (ecId row) Ev_claiming Ev_claimed []) (ret False)
     | Refund_arkade \<Rightarrow> refund_arkade_step dp row)"

definition tick :: "EvmReceiveServiceDeps \<Rightarrow> nat \<Rightarrow> bool \<Rightarrow> string \<Rightarrow> EvmReceiveSwapRow option evm_receive_job" where
  "tick dp fuel busy i = guardedTick (evm_receive_step dp) (get_evm_receive dp) fuel busy i"

text \<open>\<open>busy\<close>: the swaps another tick of this process is driving.\<close>

definition tickAll :: "EvmReceiveServiceDeps \<Rightarrow> nat \<Rightarrow> (string \<Rightarrow> bool) \<Rightarrow> unit evm_receive_job" where
  "tickAll dp fuel busy =
     bnd (read_db (vexec dp) (vdSchedule dp) (\<lambda>d. Inr (map rwId (evm_findLive EVM_RECEIVE_SHAPE d)))) (\<lambda>is.
     sweep (\<lambda>i. tick dp fuel (busy i) i) (get_evm_receive dp) (\<lambda>_. False) is)"

end
