(* ===== verification/Evm_Receive_Refinement.thy ===== *)
theory Evm_Receive_Refinement
  imports Evm_Receive
begin

text \<open>
  The EVM receive orchestrator keeps to the service contract of \<open>Evm_Receive\<close>: whatever the ports answer, whoever
  else acts on the table and wherever the process dies, its jobs perform only enabled acts, and each worker
  funds a lockup at most as often as it won the compare-and-swap into \<open>funding_arkade\<close>.
\<close>

section \<open>The contract\<close>

lemma evm_receive_can: "canTransition EvmReceiveMachine s t \<longleftrightarrow> t \<in> set (evm_receive_edges s)"
  by (cases s) (simp_all add: canTransition_def EvmReceiveMachine_def EVM_RECEIVE_NON_TERMINAL_def EVM_RECEIVE_TERMINAL_def)

lemmas evm_receive_shape = EVM_RECEIVE_SHAPE_def EVM_RECEIVE_COLUMNS_def

fun pays_arkade :: "string \<Rightarrow> evm_receive_act \<Rightarrow> bool" where
  "pays_arkade i (FundArkade j _) \<longleftrightarrow> j = i"
| "pays_arkade i _ \<longleftrightarrow> False"

interpretation vr: evm_corridor EvmReceiveMachine Ev_quoted Ev_refused Ev_stuck Ev_funding_arkade
  "{Ev_awaiting_claim, Ev_refunding_arkade, Ev_refunded, Ev_claiming, Ev_claimed, Ev_stuck}"
  EVM_RECEIVE_SHAPE "evm_receive_ok opens" "exec_evm_receive opens" evm_receive_part VSt opens Ev_claiming Ev_claimed
  "{}" pays_arkade
  for opens
proof unfold_locales
  fix a d d'
  assume "exec_evm_receive opens a d = Some d'"
  then show "case evm_receive_part a of None \<Rightarrow> d' = d
      | Some b \<Rightarrow> exec_store EVM_RECEIVE_SHAPE (evm_receive_ok opens) b d = Some d'"
    by (cases a) (auto simp: evm_permitted_Some)
next
  fix q :: EvmQuoteRecord and d and extra :: "evm_col fields" and tm
  assume "findLiveByPaymentHash EVM_RECEIVE_SHAPE (vqPaymentHash q) d = None"
    and "fst ` set extra \<subseteq> {V_payout_pubkey}"
  moreover have "map_of extra c = None" if "fst ` set extra \<subseteq> {V_payout_pubkey}" "c \<noteq> V_payout_pubkey" for c
    using that by (auto simp: map_of_eq_None_iff)
  ultimately show "evm_receive_ok opens (Insert (evm_quote_row EVM_RECEIVE_SHAPE q extra tm)) d"
    by (simp add: evm_quote_row_def evm_quote_cols_def)
next
  fix s t
  assume "s \<in> {Ev_awaiting_claim, Ev_refunding_arkade, Ev_refunded, Ev_claiming, Ev_claimed, Ev_stuck}"
    and "canTransition EvmReceiveMachine s t"
  then show "t \<in> {Ev_awaiting_claim, Ev_refunding_arkade, Ev_refunded, Ev_claiming, Ev_claimed, Ev_stuck}"
    by (cases s) (auto simp: evm_receive_can)
next
  fix q d
  assume "evm_receive_ok opens (Insert q) d"
  then show "(\<exists>h. rwCols q V_payment_hash = SText h \<and> findLiveByPaymentHash EVM_RECEIVE_SHAPE h d = None) \<and>
      (\<exists>v. rwCols q V_payout_sats = SInt v) \<and> rwCols q V_preimage = SNull"
    by (cases "rwCols q V_payment_hash"; cases "rwCols q V_payout_sats") auto
next
  fix i s t fs tm d r
  assume "evm_receive_ok opens (Cas i s t fs tm) d" "row_of d i = Some r" "V_preimage \<in> fst ` set fs \<or> t = Ev_claiming"
  then show "evm_opened opens (set_fields fs r)" by (auto split: if_splits)
next
  fix i and fs :: "evm_col fields" and tm d r
  assume "evm_receive_ok opens (Patch i fs tm) d" "V_preimage \<in> fst ` set fs"
  then show "evm_opened opens (set_fields fs r)" by simp
next
  fix s
  assume "canTransition EvmReceiveMachine s Ev_claimed"
  then show "s = Ev_claiming" by (cases s) (auto simp: evm_receive_can)
next
  fix s
  show "\<not> canTransition EvmReceiveMachine Ev_refused s" by (simp add: evm_receive_can)
next
  fix s t
  show "(t \<in> set (shEdges EVM_RECEIVE_SHAPE s)) = canTransition EvmReceiveMachine s t" by (simp add: evm_receive_can evm_receive_shape)
next
  fix s
  assume "canTransition EvmReceiveMachine Ev_funding_arkade s"
  then show "s \<in> {Ev_awaiting_claim, Ev_refunding_arkade, Ev_refunded, Ev_claiming, Ev_claimed, Ev_stuck}"
    by (auto simp: evm_receive_can)
next
  fix s
  show "(s \<in> set (shExposed EVM_RECEIVE_SHAPE)) = isExposed EvmReceiveMachine s"
    "(s \<in> set (shLive EVM_RECEIVE_SHAPE)) = isLive EvmReceiveMachine s"
    by (simp_all add: evm_receive_shape EvmReceiveMachine_def isExposed_def isLive_def)
qed (simp_all add: evm_receive_shape)

lemma evm_receive_reach:
  "reach EvmReceiveMachine Ev_funding_arkade \<subseteq> arkade_committed"
  "reach EvmReceiveMachine Ev_claiming \<subseteq> erc20_claiming"
  "reach EvmReceiveMachine Ev_refunding_arkade \<subseteq> arkade_refunding"
  by (rule reach_subset; auto simp: arkade_committed_def erc20_claiming_def arkade_refunding_def evm_receive_can)+

section \<open>Base steps\<close>

named_theorems vkeep

text \<open>\<open>vfollows dp d0 P K\<close>: the log is a lawful run from \<open>d0\<close>, \<open>K\<close> holds now and \<open>P\<close> of the worker's own acts.\<close>

abbreviation vfollows ::
    "EvmReceiveServiceDeps \<Rightarrow> evm_receive_db \<Rightarrow> (evm_receive_act list \<Rightarrow> bool) \<Rightarrow> (evm_receive_db \<Rightarrow> bool) \<Rightarrow>
     (evm_receive_db, evm_receive_act) world \<Rightarrow> bool" where
  "vfollows dp \<equiv> follows (vexec dp)"

abbreviation vknows :: "EvmReceiveServiceDeps \<Rightarrow> EvmReceiveSwapRow \<Rightarrow> evm_receive_db \<Rightarrow> bool" where
  "vknows dp \<equiv> vr.has_read (vopens dp) evState"

lemma vkeep_base [vkeep]:
  assumes "stable (vexec dp) K"
  shows "keeps (vfollows dp d0 P K) (now sc)" "keeps (vfollows dp d0 P K) (vcall dp f)"
    "keeps (vfollows dp d0 P K) (read_db (vexec dp) sc g)"
  by (rule vr.fkeep_now [OF assms] vr.fkeep_ask [OF assms] vr.fkeep_read [OF assms])+

lemma evm_receive_reads: "vr.reads evState evm_receive_toRow"
  unfolding vr.reads_def
  by (simp add: evm_receive_toRow_def EvmCommonFields.truncate_def EvmCommonFields.extend_def EvmReceiveSwapRow.fields_def)

lemma vkeep_get [vkeep]:
  assumes "stable (vexec dp) K" and "\<And>d. K d \<Longrightarrow> vr.table_inv (vopens dp) d"
  shows "keeps (vfollows dp d0 P K) (get_evm_receive dp i)"
  unfolding get_evm_receive_def
  by (rule spec_weaken [OF vr.fspec_get_row [OF assms evm_receive_reads]]) auto

text \<open>A transition the plan may take: the edge exists, and the preimage is not touched.\<close>

lemma vkeep_transition:
  assumes "stable (vexec dp) K" and "t \<in> set (evm_receive_edges s)" and "t \<noteq> Ev_claiming" and "V_preimage \<notin> fst ` set fs"
  shows "keeps (vfollows dp d0 (vr.balanced) K) (evm_transition (vstore dp) i s t fs)"
  by (rule vr.fkeep_transition [OF assms(1)]) (use assms in \<open>auto simp: evm_receive_shape\<close>)

lemma vkeep_patch:
  assumes "stable (vexec dp) K" and "V_preimage \<notin> fst ` set fs"
  shows "keeps (vfollows dp d0 (vr.balanced) K) (evm_patch (vstore dp) i fs)"
  by (rule vr.fkeep_patch [OF assms(1)]) (use assms in auto)

section \<open>What an observation tells\<close>

text \<open>The law of the hex codec the code relies on.\<close>

definition evm_hex_roundtrip :: "EvmReceiveServiceDeps \<Rightarrow> bool" where
  "evm_hex_roundtrip dp \<longleftrightarrow> (\<forall>b. vdHexDecode dp (vdHexEncode dp b) = Some b)"

lemma yields_arkadePreimage:
  assumes K: "stable (vexec dp) K" and hex: "evm_hex_roundtrip dp"
  shows "yields (vfollows dp d0 P K) (arkadePreimage dp row) (\<lambda>found. \<forall>p. found = Some p \<longrightarrow> vopens dp p (ecPaymentHash row))"
proof -
  have "yields (vfollows dp d0 P K) (vcall dp (\<lambda>n.
      findClaimPreimage (vdSha256Hex dp) (vdIndexer dp n) outs (ecPaymentHash row)))
      (\<lambda>found. \<forall>b. found = Some b \<longrightarrow> vdSha256Hex dp b = ecPaymentHash row)" for outs
    by (rule vr.fyield_ask [OF K]) (auto dest: findClaimPreimage_sound(1))
  then have "yields (vfollows dp d0 P K) (bnd (vcall dp (\<lambda>n.
      findClaimPreimage (vdSha256Hex dp) (vdIndexer dp n) outs (ecPaymentHash row))) (\<lambda>preimage.
      ret (map_option (vdHexEncode dp) preimage)))
      (\<lambda>found. \<forall>p. found = Some p \<longrightarrow> vopens dp p (ecPaymentHash row))" for outs
    by (rule yields_bnd)
      (rule yields_ret, use hex in \<open>auto simp: evm_hex_roundtrip_def preimageMatchesHash_def\<close>)
  then show ?thesis unfolding arkadePreimage_def
    by (intro yields_after vkeep K) (auto intro: yields_ret)
qed

lemma yields_observe:
  assumes K: "stable (vexec dp) K" and hex: "evm_hex_roundtrip dp"
    and own: "\<And>p. ecPreimage row = Some p \<Longrightarrow> vopens dp p (ecPaymentHash row)"
  shows "yields (vfollows dp d0 P K) (observe dp row)
    (\<lambda>seen :: EvmReceiveObservation. \<forall>p. coalesce (orPreimage seen) (ecPreimage row) = Some p \<longrightarrow> vopens dp p (ecPaymentHash row))"
proof -
  let ?G = "\<lambda>found. \<forall>p. found = Some p \<longrightarrow> vopens dp p (ecPaymentHash row)"
  have found: "yields (vfollows dp d0 P K) (case ecPreimage row of
      Some p \<Rightarrow> ret (Some p) | None \<Rightarrow> if funded then arkadePreimage dp row else ret None) ?G" for funded
    using own yields_arkadePreimage [OF K hex] by (cases "ecPreimage row") (auto intro!: yields_ret)
  have parts: "keeps (vfollows dp d0 P K) (receiveLockupFunded dp row)" "keeps (vfollows dp d0 P K) (evm_claimOutcome dp row)"
    "keeps (vfollows dp d0 P K) (from_result r)" for r :: "exn + Erc20SwapLock"
    unfolding receiveLockupFunded_def evm_claimOutcome_def by (intro keep vkeep K keeps_from_result)+
  have depth: "keeps (vfollows dp d0 P K) (provenDepth (vcall dp) (vcall dp) a b q)" for a b q
    by (intro keeps_provenDepth vkeep K)
  show ?thesis unfolding observe_def
    by (intro yields_after parts vkeep K yields_bnd [OF found] depth yields_ret)
      (use own in \<open>auto elim!: coalesce.elims\<close>)
qed

section \<open>The steps of the plan\<close>

lemma plan_settles:
  "planEvmReceive p seen = RRefuse reason \<Longrightarrow> prState p \<in> {Ev_quoted, Ev_awaiting_lock}"
  "planEvmReceive p seen = RStick reason \<Longrightarrow> prState p \<in> set EVM_RECEIVE_NON_TERMINAL"
  "planEvmReceive p seen = RAwait_claim \<Longrightarrow> prState p = Ev_funding_arkade"
  by (cases "prState p"; cases "coalesce (orPreimage seen) (prPreimage p)"; simp add: planEvmReceive_defs split: if_splits)+

lemma live_edges:
  "s \<in> set EVM_RECEIVE_NON_TERMINAL \<Longrightarrow> Ev_stuck \<in> set (evm_receive_edges s)"
  "s \<in> set EVM_RECEIVE_NON_TERMINAL \<Longrightarrow> s \<noteq> Ev_claiming \<Longrightarrow> Ev_claiming \<in> set (evm_receive_edges s)"
  by (cases s; simp add: EVM_RECEIVE_NON_TERMINAL_def)+

lemma plan_edges:
  "planEvmReceive p seen = RRefuse reason \<Longrightarrow> Ev_refused \<in> set (evm_receive_edges (prState p))"
  "planEvmReceive p seen = RStick reason \<Longrightarrow> Ev_stuck \<in> set (evm_receive_edges (prState p))"
  "planEvmReceive p seen = RAwait_claim \<Longrightarrow> Ev_awaiting_claim \<in> set (evm_receive_edges (prState p))"
  "planEvmReceive p seen = Fund_arkade \<Longrightarrow> {Ev_funding_arkade, Ev_refused} \<subseteq> set (evm_receive_edges (prState p))"
  "planEvmReceive p seen = Refund_arkade \<Longrightarrow> prState p \<noteq> Ev_refunding_arkade \<Longrightarrow>
     Ev_refunding_arkade \<in> set (evm_receive_edges (prState p))"
  "planEvmReceive p seen = Claim_evm q \<Longrightarrow> prState p \<noteq> Ev_claiming \<Longrightarrow> Ev_claiming \<in> set (evm_receive_edges (prState p))"
  subgoal using plan_settles(1) [of p seen reason] by auto
  subgoal by (rule live_edges(1) [OF plan_settles(2)])
  subgoal using plan_settles(3) [of p seen] by simp
  subgoal unfolding planEvmReceive_Fund_arkade by auto
  subgoal unfolding planEvmReceive_Refund_arkade by auto
  subgoal unfolding planEvmReceive_Claim_evm by (blast intro: live_edges(2))
  done

lemma vkeep_fund:
  assumes K: "stable (vexec dp) K" and k: "\<And>d. K d \<Longrightarrow> vknows dp row d"
    and e: "{Ev_funding_arkade, Ev_refused} \<subseteq> set (evm_receive_edges (evState row))"
  shows "keeps (vfollows dp d0 vr.balanced K) (fund_arkade_step dp row)"
proof -
  let ?S = "vr.seen (vopens dp) (ecId row) (ecPaymentHash row) (ecPayoutSats row)"
  let ?J = "\<lambda>d. K d \<and> ?S (reach EvmReceiveMachine Ev_funding_arkade) d"
  have J: "stable (vexec dp) ?J" by (intro stable_conj K vr.stable_reached)
  have paid: "spec (vfollows dp d0 (vr.committed_for (ecId row)) (\<lambda>d. ?J d \<and> vknows dp fresh d))
      (bnd (fundArkade dp fresh) (\<lambda>txid.
        thn (evm_patch (vstore dp) (ecId row) [(V_fund_ark_txid, SText txid)]) (ret True)))
      (\<lambda>_. vfollows dp d0 vr.balanced K)" if same: "ecId fresh = ecId row" for fresh
  proof -
    let ?L = "\<lambda>d. ?J d \<and> vknows dp fresh d"
    have L: "stable (vexec dp) ?L" by (intro stable_conj J vr.stable_has_read)
    have patched: "keeps (vfollows dp d0 vr.balanced ?L)
        (thn (evm_patch (vstore dp) (ecId row) [(V_fund_ark_txid, SText txid)]) (ret True))" for txid
      by (rule keeps_bnd [OF vkeep_patch [OF L] keeps_ret]) simp
    have "vexec dp (FundArkade (ecId fresh) (ecPayoutSats fresh)) d = Some d" if "?L d" for d
      using vr.seen_has_read [of "vopens dp" "ecId row" _ _ _ d evState fresh] that same evm_receive_reach(1)
      by (simp add: evm_permitted_Some) blast
    then have "spec (vfollows dp d0 (vr.committed_for (ecId row)) ?L) (bnd (fundArkade dp fresh) (\<lambda>txid.
        thn (evm_patch (vstore dp) (ecId row) [(V_fund_ark_txid, SText txid)]) (ret True)))
        (\<lambda>_. vfollows dp d0 vr.balanced ?L)"
      unfolding fundArkade_def
      by (rule vr.fspec_pays_then [OF L _ _ _ patched]) (simp_all add: same)
    then show ?thesis by (rule spec_weaken) (simp_all add: follows_conj)
  qed
  have won: "keeps (vfollows dp d0 vr.balanced K) (thn (evm_transition (vstore dp) (ecId row) (evState row) Ev_funding_arkade [])
       (bnd (get_evm_receive dp (ecId row)) (\<lambda>fresh. bnd (fundArkade dp fresh) (\<lambda>txid.
        thn (evm_patch (vstore dp) (ecId row) [(V_fund_ark_txid, SText txid)]) (ret True)))))"
  proof (rule vr.fspec_commit_then [OF K])
    show "?S (reach EvmReceiveMachine (evState row)) d" if "K d" for d using k [OF that] by (simp add: vr.has_read_def)
    show "spec (vfollows dp d0 (vr.committed_for (ecId row)) ?J) (bnd (get_evm_receive dp (ecId row)) (\<lambda>fresh.
        bnd (fundArkade dp fresh) (\<lambda>txid.
        thn (evm_patch (vstore dp) (ecId row) [(V_fund_ark_txid, SText txid)]) (ret True))))
        (\<lambda>_. vfollows dp d0 vr.balanced K)"
      unfolding get_evm_receive_def
    proof (rule vr.fspec_get_then [OF J _ evm_receive_reads])
      show "vr.table_inv (vopens dp) d" if "?J d" for d using that vr.seen_inv by blast
      show "vfollows dp d0 vr.balanced K w" if "vfollows dp d0 (vr.committed_for (ecId row)) ?J w" for w
        by (rule vr.committed_weaken [OF that])
    qed (rule paid)
  qed (use e in \<open>auto simp: evm_receive_shape\<close>)
  show ?thesis unfolding fund_arkade_step_def
  proof (rule keeps_bnd [OF vkeep_base(2) [OF K]], rule keeps_if)
    show "keeps (vfollows dp d0 vr.balanced K) (thn (evm_transition (vstore dp) (ecId row) (evState row) Ev_refused
        [(V_failure_reason, SText EVM_RECEIVE_FUND_WINDOW_REFUSAL)]) (ret False))"
      by (rule keeps_bnd [OF vkeep_transition [OF K] keeps_ret]) (use e in auto)
  qed (rule won)
qed

text \<open>An act that does not pay leaves the balance alone.\<close>

lemma vkeep_free:
  assumes "stable (vexec dp) K" and "\<And>d. K d \<Longrightarrow> vexec dp a d = Some d" and "\<And>i. \<not> pays_arkade i a"
  shows "keeps (vfollows dp d0 vr.balanced K) (vact dp a f)"
  by (rule vr.fkeep_act [OF assms(1)]) (use assms(2,3) vr.balanced_free in auto)

lemma vkeep_claim:
  assumes K: "stable (vexec dp) K" and k: "\<And>d. K d \<Longrightarrow> vknows dp row d" and p: "vopens dp p (ecPaymentHash row)"
    and e: "evState row \<noteq> Ev_claiming \<Longrightarrow> Ev_claiming \<in> set (evm_receive_edges (evState row))"
  shows "keeps (vfollows dp d0 vr.balanced K) (claim_evm_step dp row p)"
proof -
  let ?S = "vr.seen (vopens dp) (ecId row) (ecPaymentHash row) (ecPayoutSats row)"
  let ?J = "\<lambda>d. K d \<and> ?S (reach EvmReceiveMachine Ev_claiming) d"
  have J: "stable (vexec dp) ?J" by (intro stable_conj K vr.stable_reached)
  have known: "?S (reach EvmReceiveMachine (evState row)) d" if "K d" for d using k [OF that] by (simp add: vr.has_read_def)
  have enabled: "vexec dp (ClaimErc20 (ecId row) p) d = Some d" if "?J d" for d
    using that p evm_receive_reach(2) by (auto simp: evm_permitted_Some vr.seen_def)
  have rest: "keeps (vfollows dp d0 vr.balanced ?J) (bnd (get_evm_receive dp (ecId row)) (\<lambda>fresh.
      bnd (from_result (lockFromRow fresh)) (\<lambda>lock.
      bnd (vact dp (ClaimErc20 (ecId row) p) (\<lambda>n. vdClaimCall dp n (vdBufferFromHex dp p) lock)) (\<lambda>txid.
      thn (evm_patch (vstore dp) (ecId row) [(V_evm_claim_txid, SText txid)]) (ret False)))))"
    by (intro keep vkeep keeps_from_result J vkeep_free [OF J enabled] vkeep_patch [OF J]) (auto dest: vr.seen_inv)
  have "evm_opened (vopens dp) (set_fields [(V_preimage, SText p)] r)" if "K d" "row_of d (ecId row) = Some r" for d r
    using known [OF that(1)] that(2) p by (simp add: vr.seen_def evm_opened_def evm_hash_def set_fields_cols)
  then show ?thesis unfolding claim_evm_step_def
    by (intro vr.fkeep_enter [OF K known _ rest]) (use e in \<open>auto simp: evm_receive_shape\<close>)
qed

lemma vkeep_refund:
  assumes K: "stable (vexec dp) K" and k: "\<And>d. K d \<Longrightarrow> vknows dp row d"
    and e: "evState row \<noteq> Ev_refunding_arkade \<Longrightarrow> Ev_refunding_arkade \<in> set (evm_receive_edges (evState row))"
  shows "keeps (vfollows dp d0 vr.balanced K) (refund_arkade_step dp row)"
proof -
  let ?S = "vr.seen (vopens dp) (ecId row) (ecPaymentHash row) (ecPayoutSats row)"
  let ?J = "\<lambda>d. K d \<and> ?S (reach EvmReceiveMachine Ev_refunding_arkade) d"
  have J: "stable (vexec dp) ?J" by (intro stable_conj K vr.stable_reached)
  have known: "?S (reach EvmReceiveMachine (evState row)) d" if "K d" for d using k [OF that] by (simp add: vr.has_read_def)
  have enabled: "vexec dp (RefundArkade (ecId row)) d = Some d" if "?J d" for d
    using that evm_receive_reach(3) by (auto simp: evm_permitted_Some vr.seen_def)
  have rest: "spec (vfollows dp d0 vr.balanced ?J) (bnd (get_evm_receive dp (ecId row)) (\<lambda>fresh.
      bnd (refundArkade dp fresh) (\<lambda>txid.
      thn (evm_transition (vstore dp) (ecId row) Ev_refunding_arkade Ev_refunded [(V_refund_ark_txid, SText txid)])
        (ret False)))) (\<lambda>_. vfollows dp d0 vr.balanced ?J)"
    unfolding get_evm_receive_def
  proof (rule vr.fspec_get_then [OF J _ evm_receive_reads])
    show "vr.table_inv (vopens dp) d" if "?J d" for d using that vr.seen_inv by blast
    fix fresh :: EvmReceiveSwapRow
    assume same: "ecId fresh = ecId row"
    have "keeps (vfollows dp d0 vr.balanced ?J) (bnd (refundArkade dp fresh) (\<lambda>txid.
      thn (evm_transition (vstore dp) (ecId row) Ev_refunding_arkade Ev_refunded [(V_refund_ark_txid, SText txid)])
        (ret False)))"
      unfolding refundArkade_def same
      by (intro keep vkeep J vkeep_free [OF J enabled] vkeep_transition [OF J]) simp_all
    then show "spec (vfollows dp d0 vr.balanced (\<lambda>d. ?J d \<and> vknows dp fresh d)) (bnd (refundArkade dp fresh) (\<lambda>txid.
      thn (evm_transition (vstore dp) (ecId row) Ev_refunding_arkade Ev_refunded [(V_refund_ark_txid, SText txid)])
        (ret False))) (\<lambda>_. vfollows dp d0 vr.balanced ?J)"
      by (rule spec_weaken) (simp_all add: follows_conj)
  qed
  show ?thesis unfolding refund_arkade_step_def
    by (rule vr.fkeep_enter [OF K known _ rest]) (use e in \<open>auto simp: evm_receive_shape\<close>)
qed

lemma vkeep_step:
  assumes K: "stable (vexec dp) K" and k: "\<And>d. K d \<Longrightarrow> vknows dp row d" and hex: "evm_hex_roundtrip dp"
  shows "keeps (vfollows dp d0 vr.balanced K) (evm_receive_step dp row)"
proof (cases "\<exists>d. K d")
  case True
  then obtain d where "K d" ..
  then have own: "vopens dp p (ecPaymentHash row)" if "ecPreimage row = Some p" for p
    using k that by (simp add: vr.has_read_def)
  have st: "prState (receive_plan_row row) = evState row" "prPreimage (receive_plan_row row) = ecPreimage row"
    by (simp_all add: receive_plan_row_def)
  show ?thesis unfolding evm_receive_step_def
  proof (rule keeps_given [OF yields_observe [OF K hex own]])
    fix seen :: EvmReceiveObservation
    assume opens: "\<forall>p. coalesce (orPreimage seen) (ecPreimage row) = Some p \<longrightarrow> vopens dp p (ecPaymentHash row)"
    note plan = plan_edges [of "receive_plan_row row" seen, unfolded st]
    show "keeps (vfollows dp d0 vr.balanced K) (case planEvmReceive (receive_plan_row row) seen of
       RWait \<Rightarrow> ret False
     | RRefuse reason \<Rightarrow>
         thn (evm_transition (vstore dp) (ecId row) (evState row) Ev_refused [(V_failure_reason, SText reason)]) (ret False)
     | RStick reason \<Rightarrow> thn (evm_fail (vstore dp) (ecId row) (evState row) reason) (ret False)
     | Fund_arkade \<Rightarrow> fund_arkade_step dp row
     | RAwait_claim \<Rightarrow> thn (evm_transition (vstore dp) (ecId row) (evState row) Ev_awaiting_claim []) (ret True)
     | Claim_evm preimage \<Rightarrow> claim_evm_step dp row preimage
     | Record_claim \<Rightarrow> thn (evm_transition (vstore dp) (ecId row) Ev_claiming Ev_claimed []) (ret False)
     | Refund_arkade \<Rightarrow> refund_arkade_step dp row)"
    proof (cases "planEvmReceive (receive_plan_row row) seen")
      case (RRefuse reason)
      then show ?thesis by simp (rule keeps_bnd [OF vkeep_transition [OF K plan(1)] keeps_ret], simp_all)
    next
      case (RStick reason)
      then show ?thesis by (simp add: evm_fail_def evm_receive_shape)
        (rule keeps_bnd [OF vkeep_transition [OF K plan(2), unfolded evm_receive_shape] keeps_ret], simp_all)
    next
      case RAwait_claim
      then show ?thesis by simp (rule keeps_bnd [OF vkeep_transition [OF K plan(3)] keeps_ret], simp_all)
    next
      case (Claim_evm p)
      then have "vopens dp p (ecPaymentHash row)"
        using opens unfolding planEvmReceive_Claim_evm st by simp
      then show ?thesis using Claim_evm plan(6) by (simp add: vkeep_claim [OF K k])
    next
      case Record_claim
      then show ?thesis by simp (rule keeps_bnd [OF vkeep_transition [OF K] keeps_ret], simp_all)
    next
      case Fund_arkade
      then show ?thesis using plan(4) by (simp add: vkeep_fund [OF K k])
    next
      case Refund_arkade
      then show ?thesis using plan(5) by (simp add: vkeep_refund [OF K k])
    qed (simp_all add: keeps_ret)
  qed
qed (simp add: spec_def follows_def tracks_def)

lemma evm_receive_driver:
  assumes "evm_hex_roundtrip dp"
  shows "driver (vexec dp) (vfollows dp d0 vr.balanced) (vr.table_inv (vopens dp)) (vknows dp) (get_evm_receive dp) (evm_receive_step dp)"
proof unfold_locales
  show "spec (vfollows dp d0 vr.balanced K) (get_evm_receive dp i)
      (\<lambda>r w. vfollows dp d0 vr.balanced K w \<and> (\<forall>row. r = Inr row \<longrightarrow> vknows dp row (wDb w)))"
    if "stable (vexec dp) K" "\<And>d. K d \<Longrightarrow> vr.table_inv (vopens dp) d" for K i
    unfolding get_evm_receive_def by (rule spec_weaken [OF vr.fspec_get_row [OF that evm_receive_reads]]) auto
qed (auto simp: follows_conj intro: vr.has_read_inv vkeep_step assms)

section \<open>The service\<close>

text \<open>
  The invariant of the table: ids are distinct, one live row per payment hash, every row has a hash and a payout,
  a preimage on a row opens its hash, and a row that is being claimed or was claimed has one.
\<close>

definition evm_receive_inv :: "(string \<Rightarrow> string \<Rightarrow> bool) \<Rightarrow> evm_receive_db \<Rightarrow> bool" where
  "evm_receive_inv opens d \<longleftrightarrow> ids_distinct d \<and> live_hash_unique EVM_RECEIVE_SHAPE d \<and>
     (\<forall>i r. row_of d i = Some r \<longrightarrow>
       (\<exists>h. rwCols r V_payment_hash = SText h) \<and> (\<exists>v. rwCols r V_payout_sats = SInt v) \<and>
       (rwCols r V_preimage = SNull \<or> evm_opened opens r) \<and> (rwState r \<in> {Ev_claiming, Ev_claimed} \<longrightarrow> evm_opened opens r))"

lemma evm_receive_inv_eq: "evm_receive_inv opens = vr.table_inv opens"
  unfolding evm_receive_inv_def [abs_def] vr.table_inv_def [abs_def] vr.table_row_ok_def by simp

text \<open>A worker's own acts pay for a swap at most as often as it won the commitment of that swap.\<close>

fun commits_arkade :: "string \<Rightarrow> evm_receive_act \<Rightarrow> bool" where
  "commits_arkade i (VSt (Cas j s t fs tm)) \<longleftrightarrow> j = i \<and> t = Ev_funding_arkade"
| "commits_arkade i _ \<longleftrightarrow> False"

definition pays_commitments :: "evm_receive_act list \<Rightarrow> bool" where
  "pays_commitments as \<longleftrightarrow>
     (\<forall>i. length (filter (pays_arkade i) as) \<le> length (filter (commits_arkade i) as))"

lemma pays_commitments_eq: "pays_commitments = vr.balanced"
proof -
  have "vr.commits i a = (if commits_arkade i a then 1 else 0)" for i a
    by (cases a rule: evm_receive_part.cases; simp add: vr.commits.simps split: store_act.split)
  then have "sum_list (map (vr.commits i) as) = length (filter (commits_arkade i) as)"
    "sum_list (map (vr.payments i) as) = length (filter (pays_arkade i) as)" for i as
    by (induction as) (simp_all add: vr.payments_def)
  then show ?thesis unfolding pays_commitments_def [abs_def] vr.balanced_def [abs_def] by simp
qed

abbreviation lawful_evm_receive :: "EvmReceiveServiceDeps \<Rightarrow> evm_receive_db \<Rightarrow> 'a evm_receive_job \<Rightarrow> bool" where
  "lawful_evm_receive dp \<equiv> lawful_run (vexec dp) (evm_receive_inv (vopens dp))"

lemma evm_receive_jobs_keep:
  assumes "evm_hex_roundtrip dp"
  shows "keeps (vfollows dp d0 pays_commitments (evm_receive_inv (vopens dp))) (tick dp fuel b i)"
    and "keeps (vfollows dp d0 pays_commitments (evm_receive_inv (vopens dp))) (tickAll dp fuel busy)"
    and "keeps (vfollows dp d0 pays_commitments (evm_receive_inv (vopens dp))) (insertEvmReceiveQuote dp q key)"
proof -
  note driven = evm_receive_driver [OF assms]
  have K: "stable (vexec dp) (vr.table_inv (vopens dp))"
    unfolding stable_def using vr.exec_keeps_inv by blast
  show "keeps (vfollows dp d0 pays_commitments (evm_receive_inv (vopens dp))) (tick dp fuel b i)"
    unfolding evm_receive_inv_eq pays_commitments_eq tick_def by (rule driver.keeps_guardedTick [OF driven K])
  show "keeps (vfollows dp d0 pays_commitments (evm_receive_inv (vopens dp))) (tickAll dp fuel busy)"
    unfolding evm_receive_inv_eq pays_commitments_eq tickAll_def tick_def
    by (intro keeps_bnd vkeep [OF K] driver.keeps_sweep [OF driven K])
  show "keeps (vfollows dp d0 pays_commitments (evm_receive_inv (vopens dp))) (insertEvmReceiveQuote dp q key)"
    unfolding evm_receive_inv_eq pays_commitments_eq insertEvmReceiveQuote_def
    by (intro keeps_bnd keeps_ret vr.fkeep_insert [OF K]) auto
qed

lemma evm_receive_job:
  assumes "keeps (vfollows dp d0 pays_commitments (evm_receive_inv (vopens dp))) m" and "evm_receive_inv (vopens dp) d0"
  shows "lawful_evm_receive dp d0 m \<and> pays_commitments (own_run d0 pos m)"
  by (rule follows_lawful [OF assms]) (use assms(2) in \<open>simp_all add: evm_receive_inv_def pays_commitments_def\<close>)

text \<open>
  C7: the EVM receive orchestrator refines the service contract. A tick of any swap, the recovery sweep and the
  insertion of a quote perform only enabled acts - the Arkade lockup funded with the quoted payout and only once
  the swap is committed to it, the ERC20 claimed only with a preimage of the row's own hash and after it was
  recorded, the lockup refunded only from \<open>refunding_arkade\<close> on - under every interleaving with other workers,
  every answer or error of the ports and a crash at any await; and the job's own acts fund a lockup at most
  as often as it won the compare-and-swap into \<open>funding_arkade\<close>. The hex codec must decode what it encodes.
\<close>

theorem evm_receive_service_refines:
  assumes "evm_receive_inv (vopens dp) d0" and "evm_hex_roundtrip dp"
  shows "lawful_evm_receive dp d0 (tick dp fuel b i) \<and> pays_commitments (own_run d0 pos (tick dp fuel b i)) \<and>
    lawful_evm_receive dp d0 (tickAll dp fuel busy) \<and> pays_commitments (own_run d0 pos (tickAll dp fuel busy)) \<and>
    lawful_evm_receive dp d0 (insertEvmReceiveQuote dp q key) \<and>
    pays_commitments (own_run d0 pos (insertEvmReceiveQuote dp q key))"
  using evm_receive_job [OF evm_receive_jobs_keep(1) [OF assms(2)] assms(1)]
    evm_receive_job [OF evm_receive_jobs_keep(2) [OF assms(2)] assms(1)]
    evm_receive_job [OF evm_receive_jobs_keep(3) [OF assms(2)] assms(1)] by blast

text \<open>The acts of one worker that runs a job of the service.\<close>

definition evm_job_acts :: "EvmReceiveServiceDeps \<Rightarrow> evm_receive_act list \<Rightarrow> bool" where
  "evm_job_acts dp as \<longleftrightarrow> (\<exists>d0 pos fuel b busy i q key. evm_receive_inv (vopens dp) d0 \<and>
     (as = own_run d0 pos (tick dp fuel b i) \<or> as = own_run d0 pos (tickAll dp fuel busy) \<or>
      as = own_run d0 pos (insertEvmReceiveQuote dp q key)))"

lemma evm_job_acts_pay:
  assumes "evm_job_acts dp as" and "evm_hex_roundtrip dp"
  shows "pays_commitments as"
  using assms(1) evm_receive_job [OF evm_receive_jobs_keep(1) [OF assms(2)]] evm_receive_job [OF evm_receive_jobs_keep(2) [OF assms(2)]]
    evm_receive_job [OF evm_receive_jobs_keep(3) [OF assms(2)]]
  unfolding evm_job_acts_def by blast

text \<open>
  C8: the solver funds the Arkade lockup of an EVM receive swap at most once. Any number of workers, each running
  a tick, a sweep or a quote as the code has them with its own schedule, crashes and port answers: in every
  interleaving of what they did on the shared table at most one call that funds the lockup of a swap was made,
  although the store checks no table of edges and every worker decides on a snapshot of the row.
\<close>

theorem evm_receive_pays_out_once:
  assumes "run_all (exec_evm_receive opens) (map snd trace) d0 = Some d" and "evm_receive_inv opens d0"
    and "\<forall>w. \<exists>dp. evm_hex_roundtrip dp \<and> evm_job_acts dp (acts_by w trace)"
  shows "length (filter (pays_arkade i) (map snd trace)) \<le> 1"
proof (rule vr.pays_once [OF assms(1)])
  show "ids_distinct d0" using assms(2) by (simp add: evm_receive_inv_def)
  show "vr.balanced (acts_by w trace)" for w
    using assms(3) evm_job_acts_pay unfolding pays_commitments_eq by blast
qed

text \<open>A service wired to ports that cooperate, and a table with one fresh quote.\<close>

definition sample_evm_receive_deps :: EvmReceiveServiceDeps where
  "sample_evm_receive_deps =
     \<lparr>vdSchedule = \<lparr>scRival = \<lambda>_ _. [], scCrash = \<lambda>_. False, scClock = \<lambda>_. 1700000100\<rparr>,
      vdHexDecode = unary_decode 0, vdHexEncode = unary_encode, vdBufferFromHex = (\<lambda>_. []), vdSha256Hex = unary_encode,
      vdIsLocked = \<lambda>_ _. Inr True, vdIsLockedAt = \<lambda>_ _ _. Inr True, vdBlockTimestampAt = \<lambda>_ _. Inr 1700000000,
      vdTransactionOutcome = \<lambda>_ _. Inr Tx_pending, vdBlockHeight = \<lambda>_. Inr 50, vdTimelockHeight = \<lambda>_. Inr 50,
      vdFindLockups = \<lambda>_ _. Inr [], vdFindLockupOutpoints = \<lambda>_ _. Inr [],
      vdIndexer = \<lambda>_. \<lparr>ixCoins = \<lambda>_. Inr [], ixVirtualTxs = \<lambda>_. []\<rparr>, vdFund = \<lambda>_ _ _. Inr ''f'',
      vdRefund = \<lambda>_ _ _. Inr ''r'', vdClaimCall = \<lambda>_ _ _. Inr ''c''\<rparr>"

definition sample_evm_receive_db :: evm_receive_db where
  "sample_evm_receive_db = \<lparr>dbRows = [evm_quote_row EVM_RECEIVE_SHAPE sample_evm_quote [] 1700000000], dbEvents = []\<rparr>"

lemma sample_evm_receive_inv: "evm_receive_inv opens sample_evm_receive_db"
proof -
  have "run_all (exec_evm_receive opens) [VSt (Insert (hd (dbRows sample_evm_receive_db)))] \<lparr>dbRows = [], dbEvents = []\<rparr> =
      Some sample_evm_receive_db"
    by (simp add: sample_evm_receive_db_def evm_quote_row_def evm_quote_cols_def EVM_RECEIVE_SHAPE_def
        findLiveByPaymentHash_def findBy_def newest_first_def first_of_def)
  moreover have "vr.table_inv opens \<lparr>dbRows = [], dbEvents = []\<rparr>"
    by (simp add: vr.table_inv_def ids_distinct_def live_hash_unique_def row_of_def)
  ultimately show ?thesis unfolding evm_receive_inv_eq using vr.run_keeps_inv by blast
qed

lemma sample_evm_receive_hex: "evm_hex_roundtrip sample_evm_receive_deps"
  by (simp add: evm_hex_roundtrip_def sample_evm_receive_deps_def unary_roundtrip)

theorem evm_receive_service_refines_witness:
  "lawful_evm_receive sample_evm_receive_deps sample_evm_receive_db (tick sample_evm_receive_deps 3 False ''a'') \<and>
   lawful_evm_receive sample_evm_receive_deps sample_evm_receive_db (tickAll sample_evm_receive_deps 3 (\<lambda>_. False))"
  using evm_receive_service_refines [OF sample_evm_receive_inv sample_evm_receive_hex] by blast

text \<open>What a tick of the quote does, as it runs.\<close>

definition sample_evm_receive_acts :: "evm_receive_act list" where
  "sample_evm_receive_acts =
     [VSt (Cas ''a'' Ev_quoted Ev_funding_arkade [] 1700000100),
      VSt (Note \<lparr>evSwap = ''a'', evAt = 1700000100, evFrom = Some Ev_quoted, evTo = Ev_funding_arkade, evDetail = None\<rparr>),
      FundArkade ''a'' 990, VSt (Patch ''a'' [(V_fund_ark_txid, SText ''f'')] 1700000100)]"

definition sample_evm_row :: EvmReceiveSwapRow where
  "sample_evm_row = evm_receive_toRow (hd (dbRows sample_evm_receive_db))"

definition sample_evm_seen :: EvmReceiveObservation where
  "sample_evm_seen = \<lparr>orEvmLockPresent = True, orEvmLockConfirmations = 1,
       orEvmLockAgeSeconds = 100, orArkadeLockupFunded = False, orEvmClaimOutcome = Tx_pending,
       orPreimage = None, orNowSeconds = 1700000100, orEvmTimelockHeight = 50\<rparr>"

abbreviation sample_world :: "nat \<Rightarrow> (evm_receive_db, evm_receive_act) world" where
  "sample_world n \<equiv> \<lparr>wDb = sample_evm_receive_db, wPos = n, wLog = []\<rparr>"

lemma sample_fields:
  "ecId sample_evm_row = ''a''" "ecPreimage sample_evm_row = None" "ecEvmClaimTxid sample_evm_row = None"
  "ecPayoutSats sample_evm_row = 990" "ecMinConfirmations sample_evm_row = 1" "evState sample_evm_row = Ev_quoted"
  "ecEvmTimeout sample_evm_row = 100000" "ecValidUntil sample_evm_row = 1700000600" "ecMinAgeSeconds sample_evm_row = 10"
  by (simp_all add: sample_evm_row_def evm_receive_toRow_def EvmCommonFields.extend_def EvmReceiveSwapRow.fields_def commonFields_def Let_def
    sample_evm_receive_db_def evm_quote_row_def evm_quote_cols_def sample_evm_quote_def EVM_RECEIVE_SHAPE_def)

lemma sample_lock: "\<exists>l. lockFromRow sample_evm_row = Inr l"
  unfolding is_ok_iff [symmetric] by code_simp

lemma sample_observe:
  "\<exists>n. observe sample_evm_receive_deps sample_evm_row w = (Inr sample_evm_seen, w\<lparr>wPos := n\<rparr>)"
proof -
  obtain l where "lockFromRow sample_evm_row = Inr l" using sample_lock by blast
  then show ?thesis
    by (simp add: observe_def from_result_def bnd_def ret_def ask_def await_def now_def sample_evm_receive_deps_def receiveLockupFunded_def
      lockupIsFunded_def evm_claimOutcome_def sample_fields provenDepth_def Let_def catch_def sample_evm_seen_def) blast
qed

lemma sample_plan: "planEvmReceive (receive_plan_row sample_evm_row) sample_evm_seen = Fund_arkade"
  by (simp add: planEvmReceive_Fund_arkade receive_plan_row_def sample_fields policy sample_evm_seen_def)

lemma sample_evm_receive_run:
  "own_run sample_evm_receive_db 0 (tick sample_evm_receive_deps 1 False ''a'') = sample_evm_receive_acts"
proof -
  have get: "get_evm_receive sample_evm_receive_deps ''a'' (sample_world 0) = (Inr sample_evm_row, (sample_world (Suc 0)))"
    by (simp add: get_evm_receive_def evm_get_def worker_eval sample_evm_receive_deps_def row_of_def sample_evm_row_def sample_evm_receive_db_def evm_quote_row_def sample_evm_quote_def)
  obtain n where obs: "observe sample_evm_receive_deps sample_evm_row (sample_world (Suc 0)) = (Inr sample_evm_seen, (sample_world n))"
    using sample_observe [of "(sample_world (Suc 0))"] by auto
  have fund: "fund_arkade_step sample_evm_receive_deps sample_evm_row (sample_world n) = (r, w) \<Longrightarrow>
     own_acts (wLog w) = sample_evm_receive_acts \<and> r = Inr True" for r w
    by (auto simp: fund_arkade_step_def fundArkade_def evmReceiveFundWindowClosed_def policy sample_fields evm_transition_def evm_patch_def evm_assertColumns_def
      get_evm_receive_def evm_get_def worker_eval ask_def sample_evm_receive_deps_def row_of_def sample_evm_receive_db_def evm_quote_row_def sample_evm_quote_def
      cas_def update_rows_def EVM_RECEIVE_SHAPE_def EVM_RECEIVE_COLUMNS_def add_event_def patch_row_def set_fields_def sample_evm_receive_acts_def
      evm_receive_toRow_def EvmCommonFields.extend_def EvmReceiveSwapRow.fields_def commonFields_def Let_def evm_quote_cols_def)
  have log: "wLog (snd (get_evm_receive sample_evm_receive_deps ''a'' w)) = wLog w" for w
    by (simp add: get_evm_receive_def evm_get_def worker_eval sample_evm_receive_deps_def split: option.split)
  obtain r w where w: "fund_arkade_step sample_evm_receive_deps sample_evm_row (sample_world n) = (r, w)"
    by fastforce
  have step: "evm_receive_step sample_evm_receive_deps sample_evm_row (sample_world (Suc 0)) = (Inr True, w)"
    using fund [OF w] w by (simp add: evm_receive_step_def bnd_def obs sample_plan)
  have "wLog (snd (tick sample_evm_receive_deps 1 False ''a'' (sample_world 0))) = wLog w"
    using log [of w] log [of "snd (get_evm_receive sample_evm_receive_deps ''a'' w)"]
    by (auto simp: tick_def guardedTick_def get step bnd_def ret_def split: prod.splits sum.splits)
  then show ?thesis using fund [OF w] by (simp add: own_run_def)
qed

lemma sample_evm_receive_idle: "own_run sample_evm_receive_db 0 (tick sample_evm_receive_deps 1 True ''a'') = []"
  by (simp add: own_run_def tick_def guardedTick_def get_evm_receive_def evm_get_def worker_eval sample_evm_receive_deps_def
      split: option.split)

lemma sample_evm_receive_runs:
  "\<exists>d. run_all (exec_evm_receive opens) sample_evm_receive_acts sample_evm_receive_db = Some d"
  by (simp add: sample_evm_receive_acts_def sample_evm_receive_db_def evm_quote_row_def evm_quote_cols_def EVM_RECEIVE_SHAPE_def
      EVM_RECEIVE_COLUMNS_def cas_def update_rows_def row_of_def add_event_def evm_permitted_def set_fields_def
      arkade_committed_def patch_row_def sample_evm_quote_def)

theorem evm_receive_pays_out_once_witness:
  "length (filter (pays_arkade ''a'') sample_evm_receive_acts) = 1 \<and>
   length (filter (pays_arkade ''a'') (map snd (map (Pair (0::nat)) sample_evm_receive_acts))) \<le> 1"
proof -
  let ?t = "map (Pair (0::nat)) sample_evm_receive_acts"
  have ids: "map snd ?t = sample_evm_receive_acts" "acts_by 0 ?t = sample_evm_receive_acts" "acts_by (Suc n) ?t = []" for n
    by (simp_all add: acts_by_def filter_map o_def)
  have "evm_job_acts sample_evm_receive_deps sample_evm_receive_acts" "evm_job_acts sample_evm_receive_deps []"
    unfolding evm_job_acts_def using sample_evm_receive_inv sample_evm_receive_run sample_evm_receive_idle by metis+
  then have "\<forall>w. \<exists>dp. evm_hex_roundtrip dp \<and> evm_job_acts dp (acts_by w ?t)"
    using sample_evm_receive_hex ids(2,3) by (metis not0_implies_Suc)
  moreover obtain d where "run_all (exec_evm_receive (=)) (map snd ?t) sample_evm_receive_db = Some d"
    using sample_evm_receive_runs [of "(=)"] ids(1) by auto
  ultimately have "length (filter (pays_arkade ''a'') (map snd ?t)) \<le> 1"
    using evm_receive_pays_out_once [OF _ sample_evm_receive_inv] by blast
  then show ?thesis by (simp add: sample_evm_receive_acts_def)
qed

end
