(* ===== verification/Evm_Send.thy ===== *)
theory Evm_Send
  imports Evm_Legs Sweeps Pricing
begin

text \<open>
  \<^verbatim>\<open>send/evmOrchestrator.ts\<close> and \<^verbatim>\<open>send/evmArkadeDeps.ts\<close>: the client locks sats at an Arkade script, the solver locks
  an ERC20 for the client, the client claims it and so reveals the preimage, and the solver claims the sats with
  it. As on the receive leg the code has no table of edges: \<open>EvmSendMachine\<close> is the set of edges the service
  promises to take. Two steps transition from whatever state they just read, so a closed row can be reopened.
\<close>

section \<open>The table\<close>

fun evm_send_edges :: "EvmSendSwapState \<Rightarrow> EvmSendSwapState list" where
  "evm_send_edges Es_quoted = [Es_locking_evm, Es_refused]"
| "evm_send_edges Es_funded = [Es_locking_evm]"
| "evm_send_edges Es_locking_evm = [Es_awaiting_claim, Es_refunding_evm, Es_claiming, Es_stuck]"
| "evm_send_edges Es_awaiting_claim = [Es_refunding_evm, Es_claiming, Es_stuck]"
| "evm_send_edges Es_refunding_evm = [Es_refunded, Es_claiming, Es_stuck]"
| "evm_send_edges Es_claiming = [Es_claimed, Es_stuck]"
| "evm_send_edges Es_claimed = [Es_claiming, Es_stuck]"
| "evm_send_edges Es_refunded = [Es_claiming, Es_stuck]"
| "evm_send_edges Es_stuck = [Es_claiming, Es_stuck]"
| "evm_send_edges Es_refused = []"

definition EvmSendMachine :: "EvmSendSwapState StateMachine" where
  "EvmSendMachine =
     \<lparr>mStates = EVM_SEND_NON_TERMINAL @ EVM_SEND_TERMINAL, mLive = EVM_SEND_NON_TERMINAL,
      mExposed = EVM_SEND_EXPOSED, mTerminal = EVM_SEND_TERMINAL, mEdges = evm_send_edges, mWhere = (\<lambda>_. [])\<rparr>"

definition EVM_SEND_COLUMNS :: "evm_col list" where
  "EVM_SEND_COLUMNS = [V_evm_lock_txid, V_evm_refund_txid, V_evm_claim_txid, V_preimage, V_claim_ark_txid,
     V_refund_ark_txid, V_refund_outcome, V_failure_reason]"

definition EVM_SEND_SHAPE :: "(EvmSendSwapState, evm_col) StoreShape" where
  "EVM_SEND_SHAPE =
     \<lparr>shNoun = ''send'', shLabel = ''send_evm_swap'', shEdges = evm_send_edges,
      shTransitionColumns = EVM_SEND_COLUMNS, shPatchColumns = EVM_SEND_COLUMNS,
      shLive = EVM_SEND_NON_TERMINAL, shExposed = EVM_SEND_EXPOSED, shStart = Es_quoted,
      shStuck = Es_stuck, shRefused = Es_refused, shPaymentHash = V_payment_hash, shRfqId = V_rfq_id,
      shPkScript = V_pk_script, shAmount = V_amount_sats, shFailure = V_failure_reason,
      shLease = None, shOnce = None\<rparr>"

type_synonym evm_send_db = "(EvmSendSwapState, evm_col) db"

definition evm_findRefundable :: "evm_send_db \<Rightarrow> evm_send_raw list" where
  "evm_findRefundable d =
     by_created (filter (\<lambda>r. rwState r = Es_refused \<and> rwCols r V_refund_outcome = SNull) (dbRows d))"

definition findClosedOverLock :: "int \<Rightarrow> evm_send_db \<Rightarrow> evm_send_raw list" where
  "findClosedOverLock nowSeconds d =
     by_created (filter (\<lambda>r. rwState r \<in> {Es_stuck, Es_refunded} \<and> sql_int (rwCols r V_refund_locktime) > nowSeconds \<and>
       (\<exists>e \<in> set (dbEvents d). evSwap e = rwId r \<and> evTo e = Es_locking_evm)) (dbRows d))"

section \<open>The actions of the service\<close>

text \<open>
  \<open>ApproveErc20\<close> and \<open>LockErc20\<close> are the calls broadcast to create the lock, \<open>StartPayout\<close> asks a funding
  provider to create it, \<open>ClaimArkade id p\<close> takes the client's sats with the preimage \<open>p\<close>, \<open>RefundErc20\<close> takes the
  solver's tokens back and \<open>ReturnSats\<close> gives the client's sats back.
\<close>

datatype evm_send_act =
    ESt "(EvmSendSwapState, evm_col) store_act"
  | ApproveErc20 string
  | LockErc20 string
  | StartPayout string
  | ClaimArkade string string
  | RefundErc20 string
  | ReturnSats string

type_synonym 'a evm_send_job = "(evm_send_db, evm_send_act, 'a) worker"

fun evm_send_part :: "evm_send_act \<Rightarrow> (EvmSendSwapState, evm_col) store_act option" where
  "evm_send_part (ESt a) = Some a"
| "evm_send_part _ = None"

text \<open>The states before the commitment, where a row has no preimage.\<close>

definition evm_send_early :: "EvmSendSwapState set" where
  "evm_send_early = {Es_quoted, Es_funded, Es_refused}"

fun evm_send_ok :: "(string \<Rightarrow> string \<Rightarrow> bool) \<Rightarrow> (EvmSendSwapState, evm_col) store_act \<Rightarrow> evm_send_db \<Rightarrow> bool" where
  "evm_send_ok opens (Insert q) d \<longleftrightarrow>
     (case textOf (rwCols q V_payment_hash) of
        None \<Rightarrow> False | Some h \<Rightarrow> findLiveByPaymentHash EVM_SEND_SHAPE h d = None) \<and>
     numberOrNull (rwCols q V_payout_sats) \<noteq> None \<and> rwCols q V_preimage = SNull"
| "evm_send_ok opens (Cas i s t fs tm) d \<longleftrightarrow> (case row_of d i of
     None \<Rightarrow> False
   | Some r \<Rightarrow> if t = Es_claiming then evm_opened opens (set_fields fs r) else V_preimage \<notin> fst ` set fs)"
| "evm_send_ok opens (Patch i fs tm) d \<longleftrightarrow> (V_preimage \<in> fst ` set fs \<longrightarrow> (case row_of d i of
     None \<Rightarrow> False
   | Some r \<Rightarrow> evm_opened opens (set_fields fs r) \<and> rwState r \<notin> evm_send_early))"
| "evm_send_ok opens _ d \<longleftrightarrow> True"

definition evm_committed :: "EvmSendSwapState set" where
  "evm_committed = - evm_send_early"

definition sats_claiming :: "EvmSendSwapState set" where
  "sats_claiming = {Es_claiming, Es_claimed, Es_stuck}"

definition erc20_refunding :: "EvmSendSwapState set" where
  "erc20_refunding = {Es_refunding_evm, Es_refunded, Es_claiming, Es_claimed, Es_stuck}"

fun exec_evm_send :: "(string \<Rightarrow> string \<Rightarrow> bool) \<Rightarrow> evm_send_act \<Rightarrow> evm_send_db \<Rightarrow> evm_send_db option" where
  "exec_evm_send opens (ESt a) d = exec_store EVM_SEND_SHAPE (evm_send_ok opens) a d"
| "exec_evm_send opens (ApproveErc20 i) d = evm_permitted (\<lambda>r. rwState r \<in> evm_committed) i d"
| "exec_evm_send opens (LockErc20 i) d = evm_permitted (\<lambda>r. rwState r \<in> evm_committed) i d"
| "exec_evm_send opens (StartPayout i) d = evm_permitted (\<lambda>r. rwState r \<in> evm_committed) i d"
| "exec_evm_send opens (ClaimArkade i p) d = evm_permitted (\<lambda>r. rwState r \<in> sats_claiming \<and> opens p (evm_hash r)) i d"
| "exec_evm_send opens (RefundErc20 i) d = evm_permitted (\<lambda>r. rwState r \<in> erc20_refunding) i d"
| "exec_evm_send opens (ReturnSats i) d = evm_permitted (\<lambda>r. rwState r = Es_refused) i d"

section \<open>Ports\<close>

datatype EvmPayoutFundingMode = Mode_start | Mode_reconcile | Mode_recover

record EvmPayoutFundingContext =
  fcBinding :: EvmPayoutFundingBinding
  fcNowSeconds :: int
  fcBlockHeight :: int
  fcTimelockHeight :: int

record EvmPayoutFundingAdapter =
  faIdentity :: string
  faEnsure :: "nat \<Rightarrow> EvmPayoutFundingContext \<Rightarrow> EvmPayoutFundingMode \<Rightarrow> exn + string option"
  faSweepRecovery :: "nat \<Rightarrow> exn + unit"

record EvmClaimFinalityPolicy =
  cpMinConfirmations :: int
  cpMinAgeSeconds :: int
  cpNowSeconds :: int

text \<open>
  The EVM node behind \<open>EvmHtlcBackend\<close>, the signer behind \<open>broadcast\<close>, the Arkade server and the funding provider
  are parameters.
\<close>

record EvmSendServiceDeps =
  sdSchedule :: "(evm_send_db, evm_send_act) schedule"
  sdHexDecode :: "string \<Rightarrow> nat list option"
  sdHexEncode :: "nat list \<Rightarrow> string"
  sdSha256 :: "nat list \<Rightarrow> nat list"
  sdSolverEvmAddress :: "nat list"
  sdCadence :: EvmBlockCadence
  sdIsLocked :: "nat \<Rightarrow> Erc20SwapLock \<Rightarrow> exn + bool"
  sdIsLockedAt :: "nat \<Rightarrow> Erc20SwapLock \<Rightarrow> int \<Rightarrow> exn + bool"
  sdBlockTimestampAt :: "nat \<Rightarrow> int \<Rightarrow> exn + int"
  sdTransactionOutcome :: "nat \<Rightarrow> string \<Rightarrow> exn + EvmTransactionOutcome"
  sdTransactionBlock :: "nat \<Rightarrow> string \<Rightarrow> exn + int option"
  sdFindRefund :: "nat \<Rightarrow> Erc20SwapLock \<Rightarrow> int \<Rightarrow> exn + bool"
  sdFindClaimPreimage :: "nat \<Rightarrow> Erc20SwapLock \<Rightarrow> int \<Rightarrow> EvmClaimFinalityPolicy \<Rightarrow> exn + nat list option"
  sdAllowance :: "nat \<Rightarrow> nat list \<Rightarrow> nat list \<Rightarrow> exn + int"
  sdLockCalls :: "Erc20SwapLock \<Rightarrow> int \<Rightarrow> string list"
  sdRefundCall :: "Erc20SwapLock \<Rightarrow> string"
  sdBroadcast :: "nat \<Rightarrow> string \<Rightarrow> exn + string"
  sdBlockHeight :: "nat \<Rightarrow> exn + int"
  sdTimelockHeight :: "nat \<Rightarrow> exn + int"
  sdFindLockups :: "nat \<Rightarrow> string \<Rightarrow> exn + FundedOutput list"
  sdLockupProvablySpent :: "nat \<Rightarrow> string \<Rightarrow> exn + bool"
  sdClaim :: "nat \<Rightarrow> EvmCovenantRow \<Rightarrow> FundedOutput list \<Rightarrow> string \<Rightarrow> exn + string"
  sdRefund :: "nat \<Rightarrow> EvmCovenantRow \<Rightarrow> FundedOutput list \<Rightarrow> exn + string"
  sdFindSweptLockups :: "(nat \<Rightarrow> string \<Rightarrow> exn + FundedOutput list) option"
  sdRefundSwept :: "(nat \<Rightarrow> EvmCovenantRow \<Rightarrow> FundedOutput list \<Rightarrow> exn + string) option"
  sdPayoutFunding :: "EvmPayoutFundingAdapter option"
  sdApprovalGate :: "(nat \<Rightarrow> string \<Rightarrow> int \<Rightarrow> exn + bool) option"

text \<open>A preimage of a row's hash, compared as bytes.\<close>

definition opens_lock :: "EvmSendServiceDeps \<Rightarrow> string \<Rightarrow> string \<Rightarrow> bool" where
  "opens_lock dp p h = (case sdHexDecode dp p of None \<Rightarrow> False | Some b \<Rightarrow> sdSha256 dp b = hex_bytes (strip_0x h))"

abbreviation sexec :: "EvmSendServiceDeps \<Rightarrow> evm_send_act \<Rightarrow> evm_send_db \<Rightarrow> evm_send_db option" where
  "sexec dp \<equiv> exec_evm_send (opens_lock dp)"

abbreviation sstore :: "EvmSendServiceDeps \<Rightarrow> (EvmSendSwapState, evm_col, evm_send_act) store" where
  "sstore dp \<equiv> \<lparr>soShape = EVM_SEND_SHAPE, soExec = sexec dp, soAct = ESt, soSchedule = sdSchedule dp\<rparr>"

abbreviation scall :: "EvmSendServiceDeps \<Rightarrow> (nat \<Rightarrow> exn + 'a) \<Rightarrow> 'a evm_send_job" where
  "scall dp f \<equiv> ask (sexec dp) (sdSchedule dp) f"

abbreviation sact :: "EvmSendServiceDeps \<Rightarrow> evm_send_act \<Rightarrow> (nat \<Rightarrow> exn + 'a) \<Rightarrow> 'a evm_send_job" where
  "sact dp a f \<equiv> perform (sexec dp) (sdSchedule dp) a f"

definition get_evm_send :: "EvmSendServiceDeps \<Rightarrow> string \<Rightarrow> EvmSendSwapRow evm_send_job" where
  "get_evm_send dp i = bnd (evm_get (sstore dp) i) (\<lambda>raw. ret (evm_send_toRow raw))"

definition insertEvmSendQuote :: "EvmSendServiceDeps \<Rightarrow> EvmQuoteRecord \<Rightarrow> EvmSendSwapRow evm_send_job" where
  "insertEvmSendQuote dp quote = bnd (evm_insert (sstore dp) quote []) (\<lambda>raw. ret (evm_send_toRow raw))"

text \<open>First writer wins: the update matches only a row that has no refund transaction yet.\<close>

definition refund_txid_row :: "string \<Rightarrow> string \<Rightarrow> int \<Rightarrow> evm_send_db \<Rightarrow> nat \<times> evm_send_db" where
  "refund_txid_row i txid tm = update_rows (\<lambda>r. rwId r = i \<and> rwCols r V_evm_refund_txid = SNull)
     (\<lambda>r. (set_fields [(V_evm_refund_txid, SText txid)] r)\<lparr>rwUpdated := tm\<rparr>)"

definition claimRefundTxid :: "EvmSendServiceDeps \<Rightarrow> string \<Rightarrow> string \<Rightarrow> bool evm_send_job" where
  "claimRefundTxid dp i txid =
     bnd (now (sdSchedule dp)) (\<lambda>tm.
     bnd (logged_write (sstore dp) (Patch i [(V_evm_refund_txid, SText txid)] tm) (refund_txid_row i txid tm)) (\<lambda>changes.
     ret (changes > 0)))"

section \<open>The Arkade leg\<close>

definition sendLockupFunded :: "EvmSendServiceDeps \<Rightarrow> EvmSendSwapRow \<Rightarrow> bool evm_send_job" where
  "sendLockupFunded dp row =
     bnd (scall dp (\<lambda>n. sdFindLockups dp n (ecPkScript row))) (\<lambda>outputs.
     ret (lockupIsFunded (map (\<lambda>o1. (foValue o1, foAssets o1)) outputs) (Expect_sats (ecAmountSats row))))"

definition claimArkade :: "EvmSendServiceDeps \<Rightarrow> EvmSendSwapRow \<Rightarrow> string \<Rightarrow> string evm_send_job" where
  "claimArkade dp row preimage =
     bnd (scall dp (\<lambda>n. sdFindLockups dp n (ecPkScript row))) (\<lambda>outputs.
     if outputs = [] then throw (Thrown (''no spendable output at the lockup for '' @ ecId row @ '' - nothing to claim yet''))
     else sact dp (ClaimArkade (ecId row) preimage) (\<lambda>n. sdClaim dp n (evmSendCovenantRowFor row) outputs preimage))"

section \<open>Observing\<close>

definition lockReverted :: "EvmSendServiceDeps \<Rightarrow> EvmSendSwapRow \<Rightarrow> bool evm_send_job" where
  "lockReverted dp row =
     (case ecEvmLockTxid row of
        None \<Rightarrow> ret False
      | Some txid \<Rightarrow>
          if esState row \<noteq> Es_locking_evm then ret False
          else catch (bnd (scall dp (\<lambda>n. sdTransactionOutcome dp n txid)) (\<lambda>outcome. ret (outcome = Tx_reverted)))
            (\<lambda>_. ret False))"

definition refundOutcome :: "EvmSendServiceDeps \<Rightarrow> EvmSendSwapRow \<Rightarrow> EvmTransactionOutcome evm_send_job" where
  "refundOutcome dp row =
     (case esEvmRefundTxid row of
        None \<Rightarrow> ret Tx_pending
      | Some txid \<Rightarrow>
          if esState row \<noteq> Es_refunding_evm then ret Tx_pending
          else catch (scall dp (\<lambda>n. sdTransactionOutcome dp n txid)) (\<lambda>_. ret Tx_pending))"

definition refundLanded :: "EvmSendServiceDeps \<Rightarrow> EvmSendSwapRow \<Rightarrow> bool evm_send_job" where
  "refundLanded dp row =
     (if esState row \<noteq> Es_refunding_evm then ret False
      else bnd (from_result (lockFromRow row)) (\<lambda>lock.
        catch (scall dp (\<lambda>n. sdFindRefund dp n lock (lkTimelock lock))) (\<lambda>_. ret False)))"

text \<open>Division by zero is \<open>Infinity\<close> or \<open>NaN\<close>, which \<open>BigInt\<close> refuses.\<close>

definition rowCreationFloor :: "EvmBlockCadence \<Rightarrow> int \<Rightarrow> int \<Rightarrow> int \<Rightarrow> exn + int" where
  "rowCreationFloor cadence createdAt height nowSeconds =
     (let elapsed = nowSeconds - createdAt in
      if elapsed < 0 then Inr 0
      else if cdFastest cadence = 0 then Inl (Thrown ''RangeError'')
      else let blocks = \<lceil>of_int elapsed / cdFastest cadence\<rceil> in
        Inr (if height > blocks then height - blocks else 0))"

definition claimScanFloor :: "EvmSendServiceDeps \<Rightarrow> EvmSendSwapRow \<Rightarrow> int \<Rightarrow> int evm_send_job" where
  "claimScanFloor dp row height =
     bnd (case ecEvmLockTxid row of None \<Rightarrow> ret None | Some txid \<Rightarrow> scall dp (\<lambda>n. sdTransactionBlock dp n txid)) (\<lambda>mined.
     bnd (case mined of
            Some block \<Rightarrow> ret block
          | None \<Rightarrow> bnd (now (sdSchedule dp)) (\<lambda>tm. from_result (rowCreationFloor (sdCadence dp) (ecCreatedAt row) height tm))) (\<lambda>floor.
     let margin = ecMinConfirmations row in
     ret (if floor > margin then floor - margin else 0)))"

definition scanClaim :: "EvmSendServiceDeps \<Rightarrow> EvmSendSwapRow \<Rightarrow> Erc20SwapLock \<Rightarrow> int \<Rightarrow> nat list option evm_send_job" where
  "scanClaim dp row lock height =
     bnd (claimScanFloor dp row height) (\<lambda>floor.
     bnd (now (sdSchedule dp)) (\<lambda>tm.
     scall dp (\<lambda>n. sdFindClaimPreimage dp n lock floor
       \<lparr>cpMinConfirmations = ecMinConfirmations row, cpMinAgeSeconds = ecMinAgeSeconds row, cpNowSeconds = tm\<rparr>)))"

definition observe_preimage :: "EvmSendServiceDeps \<Rightarrow> EvmSendSwapRow \<Rightarrow> Erc20SwapLock \<Rightarrow> int \<Rightarrow> string option evm_send_job" where
  "observe_preimage dp row lock height =
     (if ecPreimage row = None \<and> esState row \<in> set EVM_SEND_EXPOSED
      then catch
        (bnd (scanClaim dp row lock height) (\<lambda>found. ret (map_option (sdHexEncode dp) found)))
        (\<lambda>e. case e of ClaimVerification m \<Rightarrow> throw e | _ \<Rightarrow> ret None)
      else ret (ecPreimage row))"

text \<open>The members of \<open>Promise.all\<close> are awaited in turn: each can still answer at any moment of the schedule.\<close>

definition observe :: "EvmSendServiceDeps \<Rightarrow> EvmSendSwapRow \<Rightarrow> EvmSendObservation evm_send_job" where
  "observe dp row =
     bnd (from_result (lockFromRow row)) (\<lambda>lock.
     bnd (sendLockupFunded dp row) (\<lambda>funded.
     bnd (scall dp (\<lambda>n. sdIsLocked dp n lock)) (\<lambda>present.
     bnd (scall dp (sdBlockHeight dp)) (\<lambda>height.
     bnd (scall dp (sdTimelockHeight dp)) (\<lambda>clock.
     bnd (lockReverted dp row) (\<lambda>reverted.
     bnd (refundOutcome dp row) (\<lambda>outcome.
     bnd (refundLanded dp row) (\<lambda>landed.
     bnd (observe_preimage dp row lock height) (\<lambda>preimage.
     bnd (now (sdSchedule dp)) (\<lambda>probing.
     bnd (provenDepth (scall dp) (scall dp) (\<lambda>n. sdIsLockedAt dp n lock) (sdBlockTimestampAt dp)
            \<lparr>dqPresent = present, dqHeight = height, dqMinConfirmations = ecMinConfirmations row, dqNowSeconds = probing\<rparr>) (\<lambda>depth.
     bnd (now (sdSchedule dp)) (\<lambda>tm.
     ret \<lparr>osArkadeLockupFunded = funded, osEvmLockPresent = present, osEvmLockReverted = reverted,
       osEvmRefundOutcome = outcome, osEvmRefundLanded = landed, osEvmLockConfirmations = ldConfirmations depth,
       osEvmLockAgeSeconds = ldAgeSeconds depth, osPreimage = preimage, osNowSeconds = tm,
       osEvmTimelockHeight = clock\<rparr>))))))))))))"

definition send_plan_row :: "EvmSendSwapRow \<Rightarrow> EvmSendPlanRow" where
  "send_plan_row row =
     \<lparr>psState = esState row, psRefundLocktime = ecRefundLocktime row, psEvmTimeout = ecEvmTimeout row,
      psValidUntil = ecValidUntil row, psMinConfirmations = ecMinConfirmations row,
      psMinAgeSeconds = ecMinAgeSeconds row, psPreimage = ecPreimage row, psEvmRefundTxid = esEvmRefundTxid row\<rparr>"

section \<open>A payout funded by a provider\<close>

text \<open>\<open>start\<close> is the mode that may dispatch a transfer; the other two only reconcile or recover.\<close>

definition ask_provider ::
    "EvmSendServiceDeps \<Rightarrow> EvmPayoutFundingAdapter \<Rightarrow> string \<Rightarrow> EvmPayoutFundingContext \<Rightarrow> EvmPayoutFundingMode \<Rightarrow> string option evm_send_job" where
  "ask_provider dp adapter i context mode =
     (if mode = Mode_start then sact dp (StartPayout i) (\<lambda>n. faEnsure adapter n context mode)
      else scall dp (\<lambda>n. faEnsure adapter n context mode))"

definition record_activation :: "EvmSendServiceDeps \<Rightarrow> string \<Rightarrow> string \<Rightarrow> unit evm_send_job" where
  "record_activation dp i txid =
     bnd (get_evm_send dp i) (\<lambda>current.
     case ecEvmLockTxid current of
       Some known \<Rightarrow>
         if toLowerCase known \<noteq> txid then throw (Thrown (''payout funding changed activation transaction for '' @ i)) else ret ()
     | None \<Rightarrow> evm_patch (sstore dp) i [(V_evm_lock_txid, SText txid)])"

definition ensurePayoutFunding :: "EvmSendServiceDeps \<Rightarrow> EvmSendSwapRow \<Rightarrow> EvmPayoutFundingMode \<Rightarrow> unit evm_send_job" where
  "ensurePayoutFunding dp row mode =
     (case sdPayoutFunding dp of
        None \<Rightarrow> ret ()
      | Some adapter \<Rightarrow>
          bnd (from_result (and_then (lockFromRow row) (payoutFundingBinding (faIdentity adapter) row))) (\<lambda>binding.
          bnd (now (sdSchedule dp)) (\<lambda>tm.
          bnd (scall dp (sdBlockHeight dp)) (\<lambda>height.
          bnd (scall dp (sdTimelockHeight dp)) (\<lambda>clock.
          bnd (ask_provider dp adapter (ecId row)
                 \<lparr>fcBinding = binding, fcNowSeconds = tm, fcBlockHeight = height, fcTimelockHeight = clock\<rparr> mode) (\<lambda>result.
          bnd (from_result (checkedActivationTxid result)) (\<lambda>txid.
          case txid of None \<Rightarrow> ret () | Some t \<Rightarrow> record_activation dp (ecId row) t)))))))"

section \<open>One step\<close>

definition evm_askApproval :: "EvmSendServiceDeps \<Rightarrow> string \<Rightarrow> int \<Rightarrow> bool evm_send_job" where
  "evm_askApproval dp swapId amountSats = (case sdApprovalGate dp of
     None \<Rightarrow> ret True | Some gate \<Rightarrow> scall dp (\<lambda>n. gate n swapId amountSats))"

text \<open>The calls are broadcast in order; the last one is the lock.\<close>

fun broadcast_calls :: "EvmSendServiceDeps \<Rightarrow> string \<Rightarrow> string list \<Rightarrow> string \<Rightarrow> string evm_send_job" where
  "broadcast_calls dp i [] txid = ret txid"
| "broadcast_calls dp i (call # calls) txid =
     bnd (sact dp (if calls = [] then LockErc20 i else ApproveErc20 i) (\<lambda>n. sdBroadcast dp n call)) (\<lambda>sent.
     broadcast_calls dp i calls sent)"

definition send_lock :: "EvmSendServiceDeps \<Rightarrow> EvmSendSwapRow \<Rightarrow> bool evm_send_job" where
  "send_lock dp current =
     bnd (from_result (lockFromRow current)) (\<lambda>lock.
     bnd (scall dp (\<lambda>n. sdAllowance dp n (lkTokenAddress lock) (sdSolverEvmAddress dp))) (\<lambda>allowance.
     if sdLockCalls dp lock allowance = []
     then throw (Thrown (''lockCalls returned no calls for swap '' @ ecId current @ ''; the lock call is never optional''))
     else bnd (broadcast_calls dp (ecId current) (sdLockCalls dp lock allowance) []) (\<lambda>txid.
       thn (evm_patch (sstore dp) (ecId current) [(V_evm_lock_txid, SText txid)]) (ret True))))"

text \<open>\<open>lockSequence\<close> makes the locks of one process wait for each other.\<close>

definition lock_evm_step :: "EvmSendServiceDeps \<Rightarrow> EvmSendSwapRow \<Rightarrow> bool evm_send_job" where
  "lock_evm_step dp row =
     thn (await (sexec dp) (sdSchedule dp))
     (bnd (get_evm_send dp (ecId row)) (\<lambda>current.
      bnd (observe dp current) (\<lambda>seen.
      if planEvmSend (send_plan_row current) seen \<noteq> Lock_evm then ret True
      else bnd (evm_askApproval dp (ecId current) (ecAmountSats current)) (\<lambda>approved.
        if \<not> approved then ret False
        else thn (case sdPayoutFunding dp of
                 None \<Rightarrow> ret ()
               | Some adapter \<Rightarrow> thn (from_result (and_then (lockFromRow current) (payoutFundingBinding (faIdentity adapter) current))) (ret ()))
          (thn (evm_transition (sstore dp) (ecId current) (esState current) Es_locking_evm [])
            (if sdPayoutFunding dp \<noteq> None
             then bnd (get_evm_send dp (ecId current)) (\<lambda>fresh. thn (ensurePayoutFunding dp fresh Mode_start) (ret True))
             else send_lock dp current))))))"

definition claim_arkade_step :: "EvmSendServiceDeps \<Rightarrow> EvmSendSwapRow \<Rightarrow> string \<Rightarrow> bool evm_send_job" where
  "claim_arkade_step dp row preimage =
     bnd (if esState row = Es_claiming then ret row else get_evm_send dp (ecId row)) (\<lambda>current.
     thn (only_if (esState current \<noteq> Es_claiming)
       (evm_transition (sstore dp) (ecId row) (esState current) Es_claiming [(V_preimage, SText preimage)]))
     (bnd (get_evm_send dp (ecId row)) (\<lambda>fresh.
      bnd (claimArkade dp fresh preimage) (\<lambda>arkTxid.
      thn (evm_transition (sstore dp) (ecId row) Es_claiming Es_claimed [(V_claim_ark_txid, SText arkTxid)]) (ret False)))))"

definition refund_evm_step :: "EvmSendServiceDeps \<Rightarrow> EvmSendSwapRow \<Rightarrow> bool evm_send_job" where
  "refund_evm_step dp row =
     thn (only_if (esState row \<noteq> Es_refunding_evm) (evm_transition (sstore dp) (ecId row) (esState row) Es_refunding_evm []))
     (bnd (from_result (lockFromRow row)) (\<lambda>lock.
      bnd (sact dp (RefundErc20 (ecId row)) (\<lambda>n. sdBroadcast dp n (sdRefundCall dp lock))) (\<lambda>txid.
      thn (claimRefundTxid dp (ecId row) txid) (ret False))))"

text \<open>A refund of a lock that does not exist: the provider recovers, and the row is parked from whatever state it is in.\<close>

definition recover_step :: "EvmSendServiceDeps \<Rightarrow> EvmSendSwapRow \<Rightarrow> bool evm_send_job" where
  "recover_step dp row =
     bnd (catch (thn (ensurePayoutFunding dp row Mode_recover) (ret True)) (\<lambda>_. ret False)) (\<lambda>recovered.
     bnd (get_evm_send dp (ecId row)) (\<lambda>current.
     thn (evm_fail (sstore dp) (ecId current) (esState current)
       (if recovered then ''no EVM lock is proven; provider recovery remains in its independent ledger''
        else ''provider recovery failed without a proven EVM lock; independent ledger retained'')) (ret False)))"

definition reconciled :: "EvmSendServiceDeps \<Rightarrow> EvmSendSwapRow \<Rightarrow> EvmSendObservation \<Rightarrow> (EvmSendSwapRow \<times> EvmSendObservation) evm_send_job" where
  "reconciled dp row seen =
     (if sdPayoutFunding dp \<noteq> None \<and> esState row = Es_locking_evm \<and> planEvmSend (send_plan_row row) seen = Wait
      then thn (ensurePayoutFunding dp row Mode_reconcile)
        (bnd (get_evm_send dp (ecId row)) (\<lambda>fresh. bnd (observe dp fresh) (\<lambda>again. ret (fresh, again))))
      else ret (row, seen))"

definition perform_action :: "EvmSendServiceDeps \<Rightarrow> EvmSendSwapRow \<Rightarrow> EvmSendAction \<Rightarrow> bool evm_send_job" where
  "perform_action dp row action =
     (case action of
        Wait \<Rightarrow> ret False
      | RefuseSwap reason \<Rightarrow>
          thn (evm_transition (sstore dp) (ecId row) (esState row) Es_refused [(V_failure_reason, SText reason)]) (ret False)
      | Stick reason \<Rightarrow> thn (evm_fail (sstore dp) (ecId row) (esState row) reason) (ret False)
      | Lock_evm \<Rightarrow> lock_evm_step dp row
      | Await_claim \<Rightarrow> thn (evm_transition (sstore dp) (ecId row) (esState row) Es_awaiting_claim []) (ret True)
      | Claim_arkade preimage \<Rightarrow> claim_arkade_step dp row preimage
      | Refund_evm \<Rightarrow> refund_evm_step dp row
      | Record_refund \<Rightarrow> thn (evm_transition (sstore dp) (ecId row) Es_refunding_evm Es_refunded []) (ret False))"

definition evm_send_step :: "EvmSendServiceDeps \<Rightarrow> EvmSendSwapRow \<Rightarrow> bool evm_send_job" where
  "evm_send_step dp row0 =
     bnd (observe dp row0) (\<lambda>seen0.
     bnd (reconciled dp row0 seen0) (\<lambda>(row, seen).
     let action = planEvmSend (send_plan_row row) seen in
     if sdPayoutFunding dp \<noteq> None \<and> action = Refund_evm \<and> \<not> osEvmLockPresent seen
     then recover_step dp row
     else perform_action dp row action))"

section \<open>Ticks and sweeps\<close>

definition evm_send_guarded :: "EvmSendServiceDeps \<Rightarrow> EvmSendSwapRow \<Rightarrow> bool evm_send_job" where
  "evm_send_guarded dp row =
     catch (evm_send_step dp row) (\<lambda>e. case e of
       FundingQuarantined m \<Rightarrow>
         bnd (get_evm_send dp (ecId row)) (\<lambda>current.
         if esState current \<noteq> Es_locking_evm then throw e
         else thn (evm_fail (sstore dp) (ecId current) (esState current) m) (ret False))
     | _ \<Rightarrow> throw e)"

definition tick :: "EvmSendServiceDeps \<Rightarrow> nat \<Rightarrow> bool \<Rightarrow> string \<Rightarrow> EvmSendSwapRow option evm_send_job" where
  "tick dp fuel busy i = guardedTick (evm_send_guarded dp) (get_evm_send dp) fuel busy i"

definition watch_one :: "EvmSendServiceDeps \<Rightarrow> int \<Rightarrow> EvmSendSwapRow \<Rightarrow> unit evm_send_job" where
  "watch_one dp height row =
     bnd (from_result (lockFromRow row)) (\<lambda>lock.
     bnd (scall dp (\<lambda>n. sdIsLocked dp n lock)) (\<lambda>present.
     bnd (if ecPreimage row = None then scanClaim dp row lock height else ret None) (\<lambda>claimed.
     case claimed of
       Some bytes \<Rightarrow> evm_patch (sstore dp) (ecId row) [(V_preimage, SText (sdHexEncode dp bytes))]
     | None \<Rightarrow> ret ())))"

fun watch_each :: "EvmSendServiceDeps \<Rightarrow> int \<Rightarrow> EvmSendSwapRow list \<Rightarrow> unit evm_send_job" where
  "watch_each dp height [] = ret ()"
| "watch_each dp height (row # rows) = thn (catch (watch_one dp height row) (\<lambda>_. ret ())) (watch_each dp height rows)"

definition watchLateLocks :: "EvmSendServiceDeps \<Rightarrow> unit evm_send_job" where
  "watchLateLocks dp =
     bnd (now (sdSchedule dp)) (\<lambda>tm.
     bnd (read_db (sexec dp) (sdSchedule dp) (\<lambda>d. Inr (map evm_send_toRow (findClosedOverLock tm d)))) (\<lambda>watched.
     if watched = [] then ret ()
     else bnd (scall dp (sdBlockHeight dp)) (\<lambda>height. watch_each dp height watched)))"

text \<open>\<open>busy\<close>: the swaps another tick of this process is driving.\<close>

definition tickAll :: "EvmSendServiceDeps \<Rightarrow> nat \<Rightarrow> (string \<Rightarrow> bool) \<Rightarrow> unit evm_send_job" where
  "tickAll dp fuel busy =
     bnd (read_db (sexec dp) (sdSchedule dp) (\<lambda>d. Inr (map rwId (evm_findLive EVM_SEND_SHAPE d)))) (\<lambda>is.
     thn (sweep (\<lambda>i. tick dp fuel (busy i) i) (get_evm_send dp) (\<lambda>_. False) is) (watchLateLocks dp))"

definition payoutFundingRecoverySweep :: "EvmSendServiceDeps \<Rightarrow> unit evm_send_job" where
  "payoutFundingRecoverySweep dp =
     (case sdPayoutFunding dp of
        None \<Rightarrow> ret ()
      | Some adapter \<Rightarrow> catch (scall dp (faSweepRecovery adapter)) (\<lambda>_. ret ()))"

definition refund_one :: "EvmSendServiceDeps \<Rightarrow> EvmSendSwapRow \<Rightarrow> bool evm_send_job" where
  "refund_one dp row =
     bnd (scall dp (\<lambda>n. sdFindLockups dp n (ecPkScript row))) (\<lambda>outputs.
     if outputs = [] then
       bnd (scall dp (\<lambda>n. sdLockupProvablySpent dp n (ecPkScript row))) (\<lambda>spent.
       if \<not> spent then ret False
       else thn (evm_patch (sstore dp) (ecId row) [(V_refund_outcome, SText ''external'')]) (ret False))
     else
       bnd (sact dp (ReturnSats (ecId row)) (\<lambda>n. sdRefund dp n (evmSendCovenantRowFor row) outputs)) (\<lambda>txid.
       thn (evm_patch (sstore dp) (ecId row) [(V_refund_outcome, SText ''pushed''), (V_refund_ark_txid, SText txid)]) (ret True)))"

fun refund_each :: "EvmSendServiceDeps \<Rightarrow> EvmSendSwapRow list \<Rightarrow> string list evm_send_job" where
  "refund_each dp [] = ret []"
| "refund_each dp (row # rows) =
     bnd (catch (refund_one dp row) (\<lambda>_. ret False)) (\<lambda>pushed.
     bnd (refund_each dp rows) (\<lambda>rest. ret (if pushed then ecId row # rest else rest)))"

definition refundSweep :: "EvmSendServiceDeps \<Rightarrow> string list evm_send_job" where
  "refundSweep dp =
     bnd (read_db (sexec dp) (sdSchedule dp) (\<lambda>d. Inr (map evm_send_toRow (evm_findRefundable d)))) (\<lambda>rows.
     refund_each dp rows)"

text \<open>\<open>refundSweptLockupFor\<close> of \<^verbatim>\<open>sweptLockupRefund.ts\<close> on this store: without \<open>decide\<close> only a refused row is refunded.\<close>

datatype evm_swept_refund = Evm_swept_held string EvmSendSwapState | Evm_swept_refunded string string bool

definition refundSweptLockup :: "EvmSendServiceDeps \<Rightarrow> string \<Rightarrow> evm_swept_refund option evm_send_job" where
  "refundSweptLockup dp pkScript = (case (sdFindSweptLockups dp, sdRefundSwept dp) of
     (Some findSwept, Some refundSwept) \<Rightarrow>
       bnd (read_db (sexec dp) (sdSchedule dp) (\<lambda>d. Inr (map_option evm_send_toRow (evm_findByPkScript pkScript d)))) (\<lambda>found.
       case found of
         None \<Rightarrow> ret None
       | Some row \<Rightarrow>
           bnd (scall dp (\<lambda>n. findSwept n pkScript)) (\<lambda>swept.
           if swept = [] then ret None
           else if esState row \<noteq> Es_refused then ret (Some (Evm_swept_held (ecId row) (esState row)))
           else
             bnd (sact dp (ReturnSats (ecId row)) (\<lambda>n. refundSwept n (evmSendCovenantRowFor row) swept)) (\<lambda>txid.
             let recorded = (esRefundOutcome row = None) in
             thn (evm_patch (sstore dp) (ecId row)
               (if recorded then (V_refund_outcome, SText ''pushed'') # (if txid = [] then [] else [(V_refund_ark_txid, SText txid)]) else []))
             (ret (Some (Evm_swept_refunded (ecId row) txid recorded))))))
   | _ \<Rightarrow> ret None)"

end
