(* ===== verification/Evm_Send_Refinement.thy ===== *)
theory Evm_Send_Refinement
  imports Evm_Send
begin

text \<open>
  The EVM send orchestrator keeps to the service contract of \<open>Evm_Send\<close>: whatever the ports answer, whoever else
  acts on the table and wherever the process dies, its jobs perform only enabled acts, and each worker locks
  tokens for a swap at most as often as it won the compare-and-swap into \<open>locking_evm\<close>.
\<close>

section \<open>The contract\<close>

lemma evm_send_can: "canTransition EvmSendMachine s t \<longleftrightarrow> t \<in> set (evm_send_edges s)"
  by (cases s) (simp_all add: canTransition_def EvmSendMachine_def EVM_SEND_NON_TERMINAL_def EVM_SEND_TERMINAL_def)

lemmas evm_send_shape = EVM_SEND_SHAPE_def EVM_SEND_COLUMNS_def

fun pays_erc20 :: "string \<Rightarrow> evm_send_act \<Rightarrow> bool" where
  "pays_erc20 i (LockErc20 j) \<longleftrightarrow> j = i"
| "pays_erc20 i (StartPayout j) \<longleftrightarrow> j = i"
| "pays_erc20 i _ \<longleftrightarrow> False"

abbreviation past_locking :: "EvmSendSwapState set" where
  "past_locking \<equiv> {Es_awaiting_claim, Es_refunding_evm, Es_claiming, Es_claimed, Es_refunded, Es_stuck}"

interpretation vs: evm_corridor EvmSendMachine Es_quoted Es_refused Es_stuck Es_locking_evm past_locking
  EVM_SEND_SHAPE "evm_send_ok opens" "exec_evm_send opens" evm_send_part ESt opens Es_claiming Es_claimed
  evm_send_early pays_erc20
  for opens
proof unfold_locales
  fix a d d'
  assume "exec_evm_send opens a d = Some d'"
  then show "case evm_send_part a of None \<Rightarrow> d' = d
      | Some b \<Rightarrow> exec_store EVM_SEND_SHAPE (evm_send_ok opens) b d = Some d'"
    by (cases a) (auto simp: evm_permitted_Some)
next
  fix q :: EvmQuoteRecord and d and extra :: "evm_col fields" and tm
  assume "findLiveByPaymentHash EVM_SEND_SHAPE (vqPaymentHash q) d = None"
    and "fst ` set extra \<subseteq> {V_payout_pubkey}"
  moreover have "map_of extra c = None" if "fst ` set extra \<subseteq> {V_payout_pubkey}" "c \<noteq> V_payout_pubkey" for c
    using that by (auto simp: map_of_eq_None_iff)
  ultimately show "evm_send_ok opens (Insert (evm_quote_row EVM_SEND_SHAPE q extra tm)) d"
    by (simp add: evm_quote_row_def evm_quote_cols_def)
next
  fix s t
  assume "s \<in> past_locking" and "canTransition EvmSendMachine s t"
  then show "t \<in> past_locking" by (cases s) (auto simp: evm_send_can)
next
  fix q d
  assume "evm_send_ok opens (Insert q) d"
  then show "(\<exists>h. rwCols q V_payment_hash = SText h \<and> findLiveByPaymentHash EVM_SEND_SHAPE h d = None) \<and>
      (\<exists>v. rwCols q V_payout_sats = SInt v) \<and> rwCols q V_preimage = SNull"
    by (cases "rwCols q V_payment_hash"; cases "rwCols q V_payout_sats") auto
next
  fix i s t fs tm d r
  assume "evm_send_ok opens (Cas i s t fs tm) d" "row_of d i = Some r" "V_preimage \<in> fst ` set fs \<or> t = Es_claiming"
  then show "evm_opened opens (set_fields fs r)" by (auto split: if_splits)
next
  fix i and fs :: "evm_col fields" and tm d r
  assume "evm_send_ok opens (Patch i fs tm) d" "row_of d i = Some r" "V_preimage \<in> fst ` set fs"
  then show "evm_opened opens (set_fields fs r)" "rwState r \<notin> evm_send_early" by auto
next
  fix i s t fs tm d r
  assume "evm_send_ok opens (Cas i s t fs tm) d" "row_of d i = Some r" "V_preimage \<in> fst ` set fs"
  then show "t \<notin> evm_send_early" by (auto simp: evm_send_early_def split: if_splits)
next
  fix s t
  assume "s \<notin> evm_send_early" "canTransition EvmSendMachine s t"
  then show "t \<notin> evm_send_early" by (cases s) (auto simp: evm_send_can evm_send_early_def)
next
  fix s
  assume "canTransition EvmSendMachine s Es_claimed"
  then show "s = Es_claiming" by (cases s) (auto simp: evm_send_can)
next
  fix s
  show "\<not> canTransition EvmSendMachine Es_refused s" by (simp add: evm_send_can)
next
  fix s t
  show "(t \<in> set (shEdges EVM_SEND_SHAPE s)) = canTransition EvmSendMachine s t" by (simp add: evm_send_can evm_send_shape)
next
  fix s
  assume "canTransition EvmSendMachine Es_locking_evm s"
  then show "s \<in> past_locking" by (auto simp: evm_send_can)
next
  fix s
  show "(s \<in> set (shExposed EVM_SEND_SHAPE)) = isExposed EvmSendMachine s"
    "(s \<in> set (shLive EVM_SEND_SHAPE)) = isLive EvmSendMachine s"
    by (simp_all add: evm_send_shape EvmSendMachine_def isExposed_def isLive_def)
qed (simp_all add: evm_send_shape)

lemma committed_stay: "s \<in> evm_committed \<Longrightarrow> reach EvmSendMachine s \<subseteq> evm_committed"
  by (rule reach_subset, assumption) (use vs.early_closed in \<open>auto simp: evm_committed_def\<close>)

lemma evm_send_reach:
  "reach EvmSendMachine Es_locking_evm \<subseteq> evm_committed"
  "reach EvmSendMachine Es_claiming \<subseteq> sats_claiming"
  "reach EvmSendMachine Es_refunding_evm \<subseteq> erc20_refunding"
  "reach EvmSendMachine Es_refused \<subseteq> {Es_refused}"
  subgoal by (rule committed_stay) (simp add: evm_committed_def evm_send_early_def)
  by (rule reach_subset; auto simp: sats_claiming_def erc20_refunding_def evm_send_can)+

lemma committed_edges:
  "s \<in> evm_committed \<Longrightarrow> Es_stuck \<in> set (evm_send_edges s)"
  "s \<in> evm_committed \<Longrightarrow> s \<noteq> Es_claiming \<Longrightarrow> Es_claiming \<in> set (evm_send_edges s)"
  by (cases s; simp add: evm_committed_def evm_send_early_def)+

section \<open>Base steps\<close>

named_theorems skeep

abbreviation sfollows ::
    "EvmSendServiceDeps \<Rightarrow> evm_send_db \<Rightarrow> (evm_send_act list \<Rightarrow> bool) \<Rightarrow> (evm_send_db \<Rightarrow> bool) \<Rightarrow>
     (evm_send_db, evm_send_act) world \<Rightarrow> bool" where
  "sfollows dp \<equiv> follows (sexec dp)"

abbreviation sknows :: "EvmSendServiceDeps \<Rightarrow> EvmSendSwapRow \<Rightarrow> evm_send_db \<Rightarrow> bool" where
  "sknows dp \<equiv> vs.has_read (opens_lock dp) esState"

lemma skeep_base [skeep]:
  assumes "stable (sexec dp) K"
  shows "keeps (sfollows dp d0 P K) (now sc)" "keeps (sfollows dp d0 P K) (scall dp f)"
    "keeps (sfollows dp d0 P K) (read_db (sexec dp) sc g)" "keeps (sfollows dp d0 P K) (await (sexec dp) sc)"
  by (rule vs.fkeep_now [OF assms] vs.fkeep_ask [OF assms] vs.fkeep_read [OF assms] vs.fkeep_await [OF assms])+

lemmas skeep_from_result [skeep] = keeps_from_result

lemma evm_send_reads: "vs.reads esState evm_send_toRow"
  unfolding vs.reads_def
  by (simp add: evm_send_toRow_def EvmCommonFields.truncate_def EvmCommonFields.extend_def EvmSendSwapRow.fields_def)

lemma skeep_get [skeep]:
  assumes "stable (sexec dp) K" and "\<And>d. K d \<Longrightarrow> vs.table_inv (opens_lock dp) d"
  shows "keeps (sfollows dp d0 P K) (get_evm_send dp i)"
  unfolding get_evm_send_def
  by (rule spec_weaken [OF vs.fspec_get_row [OF assms evm_send_reads]]) auto

lemma skeep_get_then:
  assumes "stable (sexec dp) K" and "\<And>d. K d \<Longrightarrow> vs.table_inv (opens_lock dp) d"
    and "\<And>row. ecId row = i \<Longrightarrow> keeps (sfollows dp d0 vs.balanced (\<lambda>d. K d \<and> sknows dp row d)) (f row)"
  shows "keeps (sfollows dp d0 vs.balanced K) (bnd (get_evm_send dp i) f)"
  unfolding get_evm_send_def by (rule vs.fkeep_get_then [OF assms(1,2) evm_send_reads assms(3)])

lemma skeep_get_given:
  assumes "stable (sexec dp) K" and "\<And>d. K d \<Longrightarrow> vs.table_inv (opens_lock dp) d"
    and "\<And>d r. K d \<Longrightarrow> row_of d i = Some r \<Longrightarrow> rwState r \<in> A"
    and "\<And>row. ecId row = i \<Longrightarrow> esState row \<in> A \<Longrightarrow> keeps (sfollows dp d0 vs.balanced (\<lambda>d. K d \<and> sknows dp row d)) (f row)"
  shows "keeps (sfollows dp d0 vs.balanced K) (bnd (get_evm_send dp i) f)"
  unfolding get_evm_send_def
  by (rule vs.fkeep_get_given [where Q = "\<lambda>s. s \<in> A", OF assms(1,2) evm_send_reads assms(3,4)])

lemma skeep_transition:
  assumes "stable (sexec dp) K" and "t \<in> set (evm_send_edges s)" and "t \<noteq> Es_claiming" and "V_preimage \<notin> fst ` set fs"
  shows "keeps (sfollows dp d0 vs.balanced K) (evm_transition (sstore dp) i s t fs)"
  by (rule vs.fkeep_transition [OF assms(1)]) (use assms in \<open>auto simp: evm_send_shape\<close>)

text \<open>Parking a row that is known to be committed, from whatever state it is in.\<close>

lemma skeep_fail:
  assumes "stable (sexec dp) K" and "\<And>d r. K d \<Longrightarrow> row_of d i = Some r \<Longrightarrow> rwState r \<in> evm_committed"
  shows "keeps (sfollows dp d0 vs.balanced K) (evm_fail (sstore dp) i s reason)"
  unfolding evm_fail_def store.simps
  by (rule vs.fkeep_transition [OF assms(1)]) (use assms(2) committed_edges(1) in \<open>auto simp: evm_send_shape\<close>)

lemma skeep_patch:
  assumes "stable (sexec dp) K" and "vs.tolerant P" and "V_preimage \<notin> fst ` set fs"
  shows "keeps (sfollows dp d0 P K) (evm_patch (sstore dp) i fs)"
  by (rule vs.fkeep_patch [OF assms(1,2)]) (use assms(3) in auto)

lemma skeep_free:
  assumes "stable (sexec dp) K" and "\<And>d. K d \<Longrightarrow> sexec dp a d = Some d" and "\<And>i. \<not> pays_erc20 i a"
  shows "keeps (sfollows dp d0 vs.balanced K) (sact dp a f)"
  by (rule vs.fkeep_act [OF assms(1)]) (use assms(2,3) vs.balanced_free in auto)

section \<open>What an observation tells\<close>

text \<open>
  What the code relies on: the hex codec decodes what it encodes, and the backend answers a search for a claim only
  with a preimage of the lock's hash (its evidence is checked against the hash before it is returned).
\<close>

definition verified_claims :: "EvmSendServiceDeps \<Rightarrow> bool" where
  "verified_claims dp \<longleftrightarrow> (\<forall>b. sdHexDecode dp (sdHexEncode dp b) = Some b) \<and>
     (\<forall>n lock from policy b. sdFindClaimPreimage dp n lock from policy = Inr (Some b) \<longrightarrow> sdSha256 dp b = lkPreimageHash lock)"

lemma lockFromRow_hash:
  fixes row :: "'z EvmCommonFields_scheme"
  shows "lockFromRow row = Inr lock \<Longrightarrow> lkPreimageHash lock = hex_bytes (strip_0x (ecPaymentHash row))"
  by (auto simp: lockFromRow_def bytesFromHex_def amountOf_def Let_def split: if_splits)

lemma skeep_floor [skeep]:
  "stable (sexec dp) K \<Longrightarrow> keeps (sfollows dp d0 P K) (claimScanFloor dp row height)"
  unfolding claimScanFloor_def Let_def by (intro keep skeep)

lemma yields_scanClaim:
  assumes K: "stable (sexec dp) K" and ok: "verified_claims dp" and lock: "lockFromRow row = Inr lock"
  shows "yields (sfollows dp d0 P K) (scanClaim dp row lock height)
    (\<lambda>found. \<forall>b. found = Some b \<longrightarrow> opens_lock dp (sdHexEncode dp b) (ecPaymentHash row))"
  unfolding scanClaim_def
proof (intro yields_after skeep K vs.fyield_ask [OF K] allI impI)
  fix floor tm n found b
  assume "sdFindClaimPreimage dp n lock floor \<lparr>cpMinConfirmations = ecMinConfirmations row,
      cpMinAgeSeconds = ecMinAgeSeconds row, cpNowSeconds = tm\<rparr> = Inr found" "found = Some b"
  then show "opens_lock dp (sdHexEncode dp b) (ecPaymentHash row)"
    using ok lockFromRow_hash [OF lock] by (auto simp: verified_claims_def opens_lock_def)
qed

text \<open>A preimage the planner can act on opens the hash of the row, and the row is committed.\<close>

definition usable :: "EvmSendServiceDeps \<Rightarrow> EvmSendSwapRow \<Rightarrow> string option \<Rightarrow> bool" where
  "usable dp row found \<longleftrightarrow> (\<forall>p. found = Some p \<longrightarrow> opens_lock dp p (ecPaymentHash row) \<and> esState row \<in> evm_committed)"

lemma usable_coalesce: "usable dp row x \<Longrightarrow> usable dp row y \<Longrightarrow> usable dp row (coalesce x y)"
  by (cases x) simp_all

lemma yields_observe_preimage:
  assumes K: "stable (sexec dp) K" and ok: "verified_claims dp" and lock: "lockFromRow row = Inr lock"
    and own: "usable dp row (ecPreimage row)"
  shows "yields (sfollows dp d0 P K) (observe_preimage dp row lock height) (usable dp row)"
proof (cases "ecPreimage row = None \<and> esState row \<in> set EVM_SEND_EXPOSED")
  case True
  then have late: "esState row \<in> evm_committed"
    by (cases "esState row") (auto simp: EVM_SEND_EXPOSED_def evm_committed_def evm_send_early_def)
  have "yields (sfollows dp d0 P K) (bnd (scanClaim dp row lock height) (\<lambda>found. ret (map_option (sdHexEncode dp) found))) (usable dp row)"
    by (rule yields_bnd [OF yields_scanClaim [OF K ok lock]]) (rule yields_ret, use late in \<open>auto simp: usable_def\<close>)
  then have "yields (sfollows dp d0 P K) (catch (bnd (scanClaim dp row lock height) (\<lambda>found. ret (map_option (sdHexEncode dp) found)))
      (\<lambda>e. case e of ClaimVerification m \<Rightarrow> throw e | _ \<Rightarrow> ret None)) (usable dp row)"
    by (rule yields_catch) (auto simp: usable_def intro!: yields_ret yields_throw split: exn.split)
  then show ?thesis using True by (simp add: observe_preimage_def)
qed (use own in \<open>auto simp: observe_preimage_def intro!: yields_ret\<close>)

lemma yields_send_observe:
  assumes K: "stable (sexec dp) K" and ok: "verified_claims dp" and own: "usable dp row (ecPreimage row)"
  shows "yields (sfollows dp d0 P K) (observe dp row) (\<lambda>seen :: EvmSendObservation. usable dp row (coalesce (osPreimage seen) (ecPreimage row)))"
proof -
  have parts: "keeps (sfollows dp d0 P K) (sendLockupFunded dp row)" "keeps (sfollows dp d0 P K) (lockReverted dp row)"
    "keeps (sfollows dp d0 P K) (refundOutcome dp row)" "keeps (sfollows dp d0 P K) (refundLanded dp row)"
    unfolding sendLockupFunded_def lockReverted_def refundOutcome_def refundLanded_def by (intro keep skeep K)+
  have depth: "keeps (sfollows dp d0 P K) (provenDepth (scall dp) (scall dp) a b q)" for a b q
    by (intro keeps_provenDepth skeep K)
  show ?thesis unfolding observe_def
    by (rule yields_bnd [OF yields_from_result], intro yields_bnd [OF yields_observe_preimage [OF K ok _ own]] yields_after
        parts skeep K depth yields_ret)
      (auto intro: usable_coalesce own)
qed

lemma has_read_usable: "sknows dp row d \<Longrightarrow> usable dp row (ecPreimage row)"
  by (auto simp: vs.has_read_def usable_def evm_committed_def)

lemma skeep_observe:
  assumes "stable (sexec dp) K" and "verified_claims dp" and "\<And>d. K d \<Longrightarrow> sknows dp row d"
  shows "keeps (sfollows dp d0 P K) (observe dp row)"
  by (rule follows_fact [where F = "usable dp row (ecPreimage row)"])
    (use assms has_read_usable in \<open>blast intro: yields_keeps [OF yields_send_observe]\<close>)+

section \<open>The provider\<close>

lemma skeep_activation:
  assumes K: "stable (sexec dp) K" and inv: "\<And>d. K d \<Longrightarrow> vs.table_inv (opens_lock dp) d" and P: "vs.tolerant P"
  shows "keeps (sfollows dp d0 P K) (record_activation dp i txid)"
  unfolding record_activation_def by (intro keep skeep K inv skeep_patch [OF K P]) simp_all

lemma skeep_provider:
  assumes K: "stable (sexec dp) K" and inv: "\<And>d. K d \<Longrightarrow> vs.table_inv (opens_lock dp) d" and mode: "mode \<noteq> Mode_start"
  shows "keeps (sfollows dp d0 vs.balanced K) (ensurePayoutFunding dp row mode)"
  unfolding ensurePayoutFunding_def ask_provider_def
  by (intro keep skeep skeep_activation [OF K inv] K) (use mode in auto)

lemma committed_row:
  "vs.seen (opens_lock dp) i h v (reach EvmSendMachine s) d \<Longrightarrow> s \<in> evm_committed \<Longrightarrow>
     \<exists>r. row_of d i = Some r \<and> rwState r \<in> evm_committed"
  using committed_stay by (fastforce simp: vs.seen_def)

text \<open>Between winning the commitment and the payment, with a provider.\<close>

lemma spec_start_payout:
  assumes K: "stable (sexec dp) K" and k: "\<And>d. K d \<Longrightarrow> vs.seen (opens_lock dp) (ecId row) h v (reach EvmSendMachine Es_locking_evm) d"
    and some: "sdPayoutFunding dp = Some adapter"
  shows "spec (sfollows dp d0 (vs.committed_for (ecId row)) K) (ensurePayoutFunding dp row Mode_start) (\<lambda>_. sfollows dp d0 vs.balanced K)"
proof -
  have inv: "vs.table_inv (opens_lock dp) d" if "K d" for d using vs.seen_inv [OF k [OF that]] .
  have enabled: "sexec dp (StartPayout (ecId row)) d = Some d" if "K d" for d
    using committed_row [OF k [OF that]] by (auto simp: evm_permitted_Some evm_committed_def evm_send_early_def)
  have rest: "keeps (sfollows dp d0 vs.balanced K) (bnd (from_result (checkedActivationTxid result)) (\<lambda>txid.
      case txid of None \<Rightarrow> ret () | Some t \<Rightarrow> record_activation dp (ecId row) t))" for result
    by (intro keep skeep skeep_activation [OF K inv]) auto
  have paid: "spec (sfollows dp d0 (vs.committed_for (ecId row)) K)
      (bnd (ask_provider dp adapter (ecId row) ctx Mode_start) (\<lambda>result.
       bnd (from_result (checkedActivationTxid result)) (\<lambda>txid.
       case txid of None \<Rightarrow> ret () | Some t \<Rightarrow> record_activation dp (ecId row) t)))
      (\<lambda>_. sfollows dp d0 vs.balanced K)" for ctx
    unfolding ask_provider_def if_P [OF refl]
    by (rule vs.fspec_pays_then [OF K enabled _ _ rest]) simp_all
  show ?thesis unfolding ensurePayoutFunding_def some option.case
    by (intro vs.fspec_prefix skeep K paid)
qed

section \<open>The lock\<close>

lemma spec_broadcast:
  assumes K: "stable (sexec dp) K" and k: "\<And>d. K d \<Longrightarrow> vs.seen (opens_lock dp) i h v (reach EvmSendMachine Es_locking_evm) d"
    and f: "\<And>x. keeps (sfollows dp d0 vs.balanced K) (f x)"
  shows "calls \<noteq> [] \<Longrightarrow>
    spec (sfollows dp d0 (vs.committed_for i) K) (bnd (broadcast_calls dp i calls txid) f) (\<lambda>_. sfollows dp d0 vs.balanced K)"
proof (induction calls arbitrary: txid)
  case (Cons call calls)
  have enabled: "sexec dp (LockErc20 i) d = Some d" "sexec dp (ApproveErc20 i) d = Some d" if "K d" for d
    using committed_row [OF k [OF that]] by (auto simp: evm_permitted_Some evm_committed_def evm_send_early_def)
  show ?case
  proof (cases "calls = []")
    case True
    have "spec (sfollows dp d0 (vs.committed_for i) K) (bnd (sact dp (LockErc20 i) (\<lambda>n. sdBroadcast dp n call)) f)
        (\<lambda>_. sfollows dp d0 vs.balanced K)"
      by (rule vs.fspec_pays_then [OF K enabled(1) _ _ f]) simp_all
    then show ?thesis using True by (simp add: bnd_assoc)
  next
    case False
    have "keeps (sfollows dp d0 (vs.committed_for i) K) (sact dp (ApproveErc20 i) (\<lambda>n. sdBroadcast dp n call))"
      by (rule vs.fkeep_act [OF K _ enabled(2)]) (simp_all add: vs.committed_free)
    then show ?thesis using False Cons.IH by (simp add: bnd_assoc) (rule vs.fspec_prefix)
  qed
qed simp

lemma spec_send_lock:
  assumes K: "stable (sexec dp) K" and k: "\<And>d. K d \<Longrightarrow> vs.seen (opens_lock dp) (ecId row) h v (reach EvmSendMachine Es_locking_evm) d"
  shows "spec (sfollows dp d0 (vs.committed_for (ecId row)) K) (send_lock dp row) (\<lambda>_. sfollows dp d0 vs.balanced K)"
proof -
  have patched: "keeps (sfollows dp d0 vs.balanced K) (thn (evm_patch (sstore dp) (ecId row) [(V_evm_lock_txid, SText txid)]) (ret True))"
    for txid
    by (intro keep skeep_patch [OF K vs.tolerant_balanced]) simp
  have calls: "spec (sfollows dp d0 (vs.committed_for (ecId row)) K)
      (if calls = [] then throw e
       else bnd (broadcast_calls dp (ecId row) calls []) (\<lambda>txid.
         thn (evm_patch (sstore dp) (ecId row) [(V_evm_lock_txid, SText txid)]) (ret True)))
      (\<lambda>_. sfollows dp d0 vs.balanced K)" for calls e
    using spec_broadcast [OF K k patched] by (cases "calls = []") (auto simp: spec_def throw_def dest: vs.committed_follows)
  show ?thesis unfolding send_lock_def by (intro vs.fspec_prefix skeep K calls)
qed

lemma skeep_lock:
  assumes K: "stable (sexec dp) K" and inv: "\<And>d. K d \<Longrightarrow> vs.table_inv (opens_lock dp) d" and ok: "verified_claims dp"
  shows "keeps (sfollows dp d0 vs.balanced K) (lock_evm_step dp row)"
  unfolding lock_evm_step_def
proof (rule keeps_bnd [OF skeep_base(4) [OF K]], rule skeep_get_then [OF K inv], assumption)
  fix current :: EvmSendSwapRow
  let ?K = "\<lambda>d. K d \<and> sknows dp current d"
  let ?S = "vs.seen (opens_lock dp) (ecId current) (ecPaymentHash current) (ecPayoutSats current)"
  let ?J = "\<lambda>d. ?K d \<and> ?S (reach EvmSendMachine Es_locking_evm) d"
  let ?pay = "if sdPayoutFunding dp \<noteq> None
      then bnd (get_evm_send dp (ecId current)) (\<lambda>fresh. thn (ensurePayoutFunding dp fresh Mode_start) (ret True))
      else send_lock dp current"
  have KK: "stable (sexec dp) ?K" and J: "stable (sexec dp) ?J" by (intro stable_conj K vs.stable_has_read vs.stable_reached)+
  have pay: "spec (sfollows dp d0 (vs.committed_for (ecId current)) ?J) ?pay (\<lambda>_. sfollows dp d0 vs.balanced ?J)"
  proof (cases "sdPayoutFunding dp")
    case None
    show ?thesis unfolding None simp_thms if_False by (rule spec_send_lock [OF J, where h = "ecPaymentHash current" and v = "ecPayoutSats current"]) simp
  next
    case (Some adapter)
    have "spec (sfollows dp d0 (vs.committed_for (ecId current)) (\<lambda>d. ?J d \<and> sknows dp fresh d))
        (thn (ensurePayoutFunding dp fresh Mode_start) (ret True)) (\<lambda>_. sfollows dp d0 vs.balanced ?J)"
      if same: "ecId fresh = ecId current" for fresh
    proof (rule spec_bnd)
      let ?L = "\<lambda>d. ?J d \<and> sknows dp fresh d"
      have L: "stable (sexec dp) ?L" by (intro stable_conj J vs.stable_has_read)
      show "spec (sfollows dp d0 (vs.committed_for (ecId current)) ?L) (ensurePayoutFunding dp fresh Mode_start)
          (\<lambda>_. sfollows dp d0 vs.balanced ?L)"
        using spec_start_payout [OF L _ Some, where row = fresh and h = "ecPaymentHash current" and v = "ecPayoutSats current"] same
        by simp
    qed (auto simp: follows_conj spec_def ret_def)
    then have "spec (sfollows dp d0 (vs.committed_for (ecId current)) ?J)
        (bnd (get_evm_send dp (ecId current)) (\<lambda>fresh. thn (ensurePayoutFunding dp fresh Mode_start) (ret True)))
        (\<lambda>_. sfollows dp d0 vs.balanced ?J)"
      unfolding get_evm_send_def by (intro vs.fspec_get_then [OF J _ evm_send_reads]) (auto intro: vs.seen_inv vs.committed_follows)
    then show ?thesis using Some by (simp only: option.distinct simp_thms if_True)
  qed
  have commit: "keeps (sfollows dp d0 vs.balanced ?K) (thn (evm_transition (sstore dp) (ecId current) (esState current) Es_locking_evm []) ?pay)"
    if "Es_locking_evm \<in> set (evm_send_edges (esState current))"
  proof (rule vs.fspec_commit_then [OF KK])
    show "?S (reach EvmSendMachine (esState current)) d" if "?K d" for d using that by (simp add: vs.has_read_def)
    show "spec (sfollows dp d0 (vs.committed_for (ecId current)) ?J) ?pay (\<lambda>_. sfollows dp d0 vs.balanced ?K)"
      by (rule spec_weaken [OF pay]) (simp_all add: follows_conj)
  qed (use that in \<open>auto simp: evm_send_shape\<close>)
  have planned: "Es_locking_evm \<in> set (evm_send_edges (esState current))" if "planEvmSend (send_plan_row current) seen = Lock_evm" for seen
    using that unfolding planEvmSend_Lock_evm by (auto simp: send_plan_row_def)
  have approval: "keeps (sfollows dp d0 vs.balanced ?K) (evm_askApproval dp i sats)" for i sats
    unfolding evm_askApproval_def by (intro keep skeep KK)
  have watched: "keeps (sfollows dp d0 vs.balanced ?K) (observe dp current)" by (rule skeep_observe [OF KK ok]) simp
  show "keeps (sfollows dp d0 vs.balanced ?K) (bnd (observe dp current) (\<lambda>seen.
      if planEvmSend (send_plan_row current) seen \<noteq> Lock_evm then ret True
      else bnd (evm_askApproval dp (ecId current) (ecAmountSats current)) (\<lambda>approved.
        if \<not> approved then ret False
        else thn (case sdPayoutFunding dp of
                 None \<Rightarrow> ret ()
               | Some adapter \<Rightarrow> thn (from_result (and_then (lockFromRow current) (payoutFundingBinding (faIdentity adapter) current))) (ret ()))
          (thn (evm_transition (sstore dp) (ecId current) (esState current) Es_locking_evm []) ?pay))))"
    using planned by (intro watched approval commit keep skeep) auto
qed

section \<open>Claiming the sats\<close>

text \<open>The claim enters \<open>claiming\<close> with the preimage from whatever state the row is read in, so the row read is committed.\<close>

lemma skeep_claim_current:
  assumes K: "stable (sexec dp) K" and k: "\<And>d. K d \<Longrightarrow> sknows dp current d" and c: "esState current \<in> evm_committed"
    and p: "opens_lock dp p (ecPaymentHash current)" and i: "ecId current = i"
  shows "keeps (sfollows dp d0 vs.balanced K) (thn (only_if (esState current \<noteq> Es_claiming)
      (evm_transition (sstore dp) i (esState current) Es_claiming [(V_preimage, SText p)]))
     (bnd (get_evm_send dp i) (\<lambda>fresh.
      bnd (claimArkade dp fresh p) (\<lambda>arkTxid.
      thn (evm_transition (sstore dp) i Es_claiming Es_claimed [(V_claim_ark_txid, SText arkTxid)]) (ret False)))))"
proof -
  let ?S = "vs.seen (opens_lock dp) i (ecPaymentHash current) (ecPayoutSats current)"
  let ?J = "\<lambda>d. K d \<and> ?S (reach EvmSendMachine Es_claiming) d"
  have J: "stable (sexec dp) ?J" by (intro stable_conj K vs.stable_reached)
  have known: "?S (reach EvmSendMachine (esState current)) d" if "K d" for d using k [OF that] i by (simp add: vs.has_read_def)
  have enabled: "sexec dp (ClaimArkade i p) d = Some d" if "?J d" for d
    using that p evm_send_reach(2) by (auto simp: evm_permitted_Some vs.seen_def)
  have claim: "keeps (sfollows dp d0 vs.balanced (\<lambda>d. ?J d \<and> sknows dp fresh d)) (bnd (claimArkade dp fresh p) (\<lambda>arkTxid.
      thn (evm_transition (sstore dp) i Es_claiming Es_claimed [(V_claim_ark_txid, SText arkTxid)]) (ret False)))"
    if same: "ecId fresh = i" for fresh
  proof -
    have L: "stable (sexec dp) (\<lambda>d. ?J d \<and> sknows dp fresh d)" by (intro stable_conj J vs.stable_has_read)
    show ?thesis unfolding claimArkade_def same
      by (intro keep skeep L skeep_free [OF L] skeep_transition [OF L]) (use enabled in simp_all)
  qed
  have rest: "keeps (sfollows dp d0 vs.balanced ?J) (bnd (get_evm_send dp i) (\<lambda>fresh.
      bnd (claimArkade dp fresh p) (\<lambda>arkTxid.
      thn (evm_transition (sstore dp) i Es_claiming Es_claimed [(V_claim_ark_txid, SText arkTxid)]) (ret False))))"
    by (rule skeep_get_then [OF J _ claim]) (auto dest: vs.seen_inv)
  have "evm_opened (opens_lock dp) (set_fields [(V_preimage, SText p)] r)" if "K d" "row_of d i = Some r" for d r
    using known [OF that(1)] that(2) p by (simp add: vs.seen_def evm_opened_def evm_hash_def set_fields_cols)
  then show ?thesis
    by (intro vs.fkeep_enter [OF K known _ rest]) (use committed_edges(2) [OF c] in \<open>auto simp: evm_send_shape\<close>)
qed

lemma same_row:
  assumes "sknows dp row d" and "sknows dp current d" and "ecId current = ecId row"
  shows "ecPaymentHash current = ecPaymentHash row"
  using assms by (auto simp: vs.has_read_def vs.seen_def)

lemma known_committed:
  "sknows dp row d \<Longrightarrow> esState row \<in> evm_committed \<Longrightarrow> row_of d (ecId row) = Some r \<Longrightarrow> rwState r \<in> evm_committed"
  using committed_stay by (auto simp: vs.has_read_def vs.seen_def)

lemma skeep_claim:
  assumes K: "stable (sexec dp) K" and k: "\<And>d. K d \<Longrightarrow> sknows dp row d" and c: "esState row \<in> evm_committed"
    and p: "opens_lock dp p (ecPaymentHash row)"
  shows "keeps (sfollows dp d0 vs.balanced K) (claim_arkade_step dp row p)"
proof (cases "esState row = Es_claiming")
  case True
  show ?thesis unfolding claim_arkade_step_def if_P [OF True] bnd_ret by (rule skeep_claim_current [OF K k c p refl])
next
  case False
  have inv: "vs.table_inv (opens_lock dp) d" if "K d" for d using vs.has_read_inv [OF k [OF that]] .
  show ?thesis unfolding claim_arkade_step_def if_not_P [OF False]
  proof (rule skeep_get_given [where A = evm_committed, OF K inv])
    show "rwState r \<in> evm_committed" if "K d" "row_of d (ecId row) = Some r" for d r
      by (rule known_committed [OF k [OF that(1)] c that(2)])
    fix current :: EvmSendSwapRow
    assume same: "ecId current = ecId row" and late: "esState current \<in> evm_committed"
    let ?K = "\<lambda>d. K d \<and> sknows dp current d"
    have KK: "stable (sexec dp) ?K" by (intro stable_conj K vs.stable_has_read)
    show "keeps (sfollows dp d0 vs.balanced ?K) (thn (only_if (esState current \<noteq> Es_claiming)
       (evm_transition (sstore dp) (ecId row) (esState current) Es_claiming [(V_preimage, SText p)]))
     (bnd (get_evm_send dp (ecId row)) (\<lambda>fresh.
      bnd (claimArkade dp fresh p) (\<lambda>arkTxid.
      thn (evm_transition (sstore dp) (ecId row) Es_claiming Es_claimed [(V_claim_ark_txid, SText arkTxid)]) (ret False)))))"
    proof (rule follows_fact [where F = "ecPaymentHash current = ecPaymentHash row"])
      assume "ecPaymentHash current = ecPaymentHash row"
      then show ?thesis using p same by (intro skeep_claim_current [OF KK _ late]) simp_all
    qed (use k same in \<open>blast intro: same_row\<close>)
  qed
qed

section \<open>Taking the lock back\<close>

text \<open>The conditional update either matches nothing or is the patch of the one row it names.\<close>

lemma refund_txid_patch:
  assumes ids: "ids_distinct d" and u: "refund_txid_row i txid tm d = (n, d')" and "n \<noteq> 0"
  shows "patch_row i [(V_evm_refund_txid, SText txid)] tm d = (n, d')"
proof -
  let ?p = "\<lambda>r. rwId r = i \<and> rwCols r V_evm_refund_txid = SNull"
  let ?f = "\<lambda>r. (set_fields [(V_evm_refund_txid, SText txid)] r)\<lparr>rwUpdated := tm\<rparr>"
  have u': "update_rows ?p ?f d = (n, d')" using u by (simp add: refund_txid_row_def)
  then obtain r where r: "r \<in> set (dbRows d)" "?p r" using update_rows_one [of ?p ?f d] assms(3) by auto
  have inj: "inj_on rwId (set (dbRows d))" using ids by (simp add: ids_distinct_def distinct_map)
  have same: "?p q = (rwId q = i)" if "q \<in> set (dbRows d)" for q
    using inj_onD [OF inj _ that r(1)] r(2) by auto
  have "update_rows (\<lambda>r. rwId r = i) ?f d = update_rows ?p ?f d"
    unfolding update_rows_def using same by (auto cong: filter_cong)
  then show ?thesis using u' by (simp add: patch_row_def)
qed

lemma skeep_refund_txid:
  assumes K: "stable (sexec dp) K"
  shows "keeps (sfollows dp d0 vs.balanced K) (claimRefundTxid dp i txid)"
proof -
  let ?fs = "[(V_evm_refund_txid, SText txid)]"
  have "keeps (tracks (sexec dp) d0 K) (logged_write (sstore dp) (Patch i ?fs tm) (refund_txid_row i txid tm))" for tm
  proof (rule vs.keeps_logged_write [OF K])
    fix d n d'
    assume ids: "ids_distinct d" and u: "refund_txid_row i txid tm d = (n, d')"
    show "(n = 0 \<and> d' = d) \<or> (n = 1 \<and> sexec dp (ESt (Patch i ?fs tm)) d = Some d')"
    proof (cases "n = 0")
      case True
      then show ?thesis using u update_rows_none [of "\<lambda>r. rwId r = i \<and> rwCols r V_evm_refund_txid = SNull"
          "\<lambda>r. (set_fields ?fs r)\<lparr>rwUpdated := tm\<rparr>" d] by (simp add: refund_txid_row_def)
    next
      case False
      show ?thesis by (rule vs.patch_enabled [OF ids _ _ refund_txid_patch [OF ids u False]]) (simp_all add: evm_send_shape)
    qed
  qed
  moreover have "keeps (did vs.balanced) (logged_write (sstore dp) (Patch i ?fs tm) (refund_txid_row i txid tm))" for tm
    by (intro did_keep) (simp add: vs.balanced_store)
  ultimately have "keeps (sfollows dp d0 vs.balanced K) (logged_write (sstore dp) (Patch i ?fs tm) (refund_txid_row i txid tm))" for tm
    by (rule follows_both)
  then show ?thesis unfolding claimRefundTxid_def by (intro keep skeep K)
qed

lemma skeep_refund:
  assumes K: "stable (sexec dp) K" and k: "\<And>d. K d \<Longrightarrow> sknows dp row d"
    and e: "esState row \<noteq> Es_refunding_evm \<Longrightarrow> Es_refunding_evm \<in> set (evm_send_edges (esState row))"
  shows "keeps (sfollows dp d0 vs.balanced K) (refund_evm_step dp row)"
proof -
  let ?S = "vs.seen (opens_lock dp) (ecId row) (ecPaymentHash row) (ecPayoutSats row)"
  let ?J = "\<lambda>d. K d \<and> ?S (reach EvmSendMachine Es_refunding_evm) d"
  have J: "stable (sexec dp) ?J" by (intro stable_conj K vs.stable_reached)
  have known: "?S (reach EvmSendMachine (esState row)) d" if "K d" for d using k [OF that] by (simp add: vs.has_read_def)
  have enabled: "sexec dp (RefundErc20 (ecId row)) d = Some d" if "?J d" for d
    using that evm_send_reach(3) by (auto simp: evm_permitted_Some vs.seen_def)
  have rest: "keeps (sfollows dp d0 vs.balanced ?J) (bnd (from_result (lockFromRow row)) (\<lambda>lock.
      bnd (sact dp (RefundErc20 (ecId row)) (\<lambda>n. sdBroadcast dp n (sdRefundCall dp lock))) (\<lambda>txid.
      thn (claimRefundTxid dp (ecId row) txid) (ret False))))"
    by (intro keep skeep J skeep_free [OF J enabled] skeep_refund_txid) simp_all
  show ?thesis unfolding refund_evm_step_def
    by (rule vs.fkeep_enter [OF K known _ rest]) (use e in \<open>auto simp: evm_send_shape\<close>)
qed

lemma skeep_recover:
  assumes K: "stable (sexec dp) K" and k: "\<And>d. K d \<Longrightarrow> sknows dp row d" and c: "esState row \<in> evm_committed"
  shows "keeps (sfollows dp d0 vs.balanced K) (recover_step dp row)"
proof -
  have inv: "vs.table_inv (opens_lock dp) d" if "K d" for d using vs.has_read_inv [OF k [OF that]] .
  have asked: "keeps (sfollows dp d0 vs.balanced K) (catch (thn (ensurePayoutFunding dp row Mode_recover) (ret True)) (\<lambda>_. ret False))"
    by (intro keep skeep_provider [OF K inv]) simp_all
  have parked: "keeps (sfollows dp d0 vs.balanced (\<lambda>d. K d \<and> sknows dp current d))
      (thn (evm_fail (sstore dp) (ecId current) (esState current) reason) (ret False))" if "ecId current = ecId row" for current reason
    by (intro keep skeep_fail stable_conj K vs.stable_has_read) (use known_committed [OF k _ _] c that in auto)
  show ?thesis unfolding recover_step_def
    by (rule keeps_bnd [OF asked]) (rule skeep_get_then [OF K inv parked])
qed

section \<open>A step of the plan\<close>

lemma send_plan_settles:
  "planEvmSend p seen = RefuseSwap reason \<Longrightarrow> psState p = Es_quoted"
  "planEvmSend p seen = Stick reason \<Longrightarrow> coalesce (osPreimage seen) (psPreimage p) = None \<Longrightarrow>
     psState p \<in> {Es_locking_evm, Es_refunding_evm}"
  "planEvmSend p seen = Await_claim \<Longrightarrow> psState p = Es_locking_evm"
  by (cases "psState p"; cases "coalesce (osPreimage seen) (psPreimage p)"; simp add: planEvmSend_defs split: if_splits)+

lemma send_plan_edges:
  "planEvmSend p seen = RefuseSwap reason \<Longrightarrow> Es_refused \<in> set (evm_send_edges (psState p))"
  "planEvmSend p seen = Await_claim \<Longrightarrow> Es_awaiting_claim \<in> set (evm_send_edges (psState p))"
  "planEvmSend p seen = Refund_evm \<Longrightarrow> psState p \<noteq> Es_refunding_evm \<Longrightarrow>
     Es_refunding_evm \<in> set (evm_send_edges (psState p))"
  "planEvmSend p seen = Refund_evm \<Longrightarrow> psState p \<in> evm_committed"
  subgoal using send_plan_settles(1) [of p seen reason] by simp
  subgoal using send_plan_settles(3) [of p seen] by simp
  subgoal unfolding planEvmSend_Refund_evm by auto
  subgoal unfolding planEvmSend_Refund_evm by (auto simp: evm_committed_def evm_send_early_def)
  done

lemma stick_committed:
  assumes "planEvmSend (send_plan_row row) seen = Stick reason" and "usable dp row (coalesce (osPreimage seen) (ecPreimage row))"
  shows "esState row \<in> evm_committed"
proof (cases "coalesce (osPreimage seen) (ecPreimage row)")
  case None
  then show ?thesis using send_plan_settles(2) [OF assms(1)] by (auto simp: send_plan_row_def evm_committed_def evm_send_early_def)
qed (use assms(2) in \<open>simp add: usable_def\<close>)

lemma skeep_action:
  assumes K: "stable (sexec dp) K" and k: "\<And>d. K d \<Longrightarrow> sknows dp row d" and ok: "verified_claims dp"
    and u: "usable dp row (coalesce (osPreimage seen) (ecPreimage row))"
  shows "keeps (sfollows dp d0 vs.balanced K) (perform_action dp row (planEvmSend (send_plan_row row) seen))"
proof -
  have st: "psState (send_plan_row row) = esState row" "psPreimage (send_plan_row row) = ecPreimage row"
    by (simp_all add: send_plan_row_def)
  note plan = send_plan_edges [of "send_plan_row row" seen, unfolded st]
  show ?thesis
  proof (cases "planEvmSend (send_plan_row row) seen")
    case (RefuseSwap reason)
    then show ?thesis by (simp add: perform_action_def)
      (rule keeps_bnd [OF skeep_transition [OF K plan(1)] keeps_ret], simp_all)
  next
    case (Stick reason)
    have "keeps (sfollows dp d0 vs.balanced K) (evm_fail (sstore dp) (ecId row) (esState row) reason)"
      by (rule skeep_fail [OF K]) (rule known_committed [OF k stick_committed [OF Stick u]])
    then show ?thesis by (simp add: perform_action_def Stick) (rule keeps_bnd [OF _ keeps_ret])
  next
    case Lock_evm
    then show ?thesis by (simp add: perform_action_def skeep_lock [OF K vs.has_read_inv [OF k] ok])
  next
    case Await_claim
    then show ?thesis by (simp add: perform_action_def)
      (rule keeps_bnd [OF skeep_transition [OF K plan(2)] keeps_ret], simp_all)
  next
    case (Claim_arkade p)
    then have "opens_lock dp p (ecPaymentHash row)" "esState row \<in> evm_committed"
      using u unfolding planEvmSend_Claim_arkade st by (simp_all add: usable_def)
    then show ?thesis by (simp add: perform_action_def Claim_arkade skeep_claim [OF K k])
  next
    case Refund_evm
    then show ?thesis using plan(3) by (simp add: perform_action_def skeep_refund [OF K k])
  next
    case Record_refund
    then show ?thesis by (simp add: perform_action_def)
      (rule keeps_bnd [OF skeep_transition [OF K] keeps_ret], simp_all)
  qed (simp add: perform_action_def keeps_ret)
qed

lemma skeep_reconciled_then:
  assumes K: "stable (sexec dp) K" and k: "\<And>d. K d \<Longrightarrow> sknows dp row d" and ok: "verified_claims dp"
    and u: "usable dp row (coalesce (osPreimage seen) (ecPreimage row))"
    and f: "\<And>row' seen'. usable dp row' (coalesce (osPreimage seen') (ecPreimage row')) \<Longrightarrow>
      keeps (sfollows dp d0 vs.balanced (\<lambda>d. K d \<and> sknows dp row' d)) (f (row', seen'))"
  shows "keeps (sfollows dp d0 vs.balanced K) (bnd (reconciled dp row seen) f)"
proof -
  have inv: "vs.table_inv (opens_lock dp) d" if "K d" for d using vs.has_read_inv [OF k [OF that]] .
  have again: "keeps (sfollows dp d0 vs.balanced (\<lambda>d. K d \<and> sknows dp fresh d))
      (bnd (observe dp fresh) (\<lambda>again. f (fresh, again)))" for fresh
  proof (rule follows_fact [where F = "usable dp fresh (ecPreimage fresh)"])
    assume "usable dp fresh (ecPreimage fresh)"
    then show "keeps (sfollows dp d0 vs.balanced (\<lambda>d. K d \<and> sknows dp fresh d)) (bnd (observe dp fresh) (\<lambda>again. f (fresh, again)))"
      by (rule keeps_given [OF yields_send_observe [OF stable_conj [OF K vs.stable_has_read] ok]]) (rule f)
  qed (use has_read_usable in blast)
  have taken: "keeps (sfollows dp d0 vs.balanced K) (thn (ensurePayoutFunding dp row Mode_reconcile)
      (bnd (get_evm_send dp (ecId row)) (\<lambda>fresh. bnd (observe dp fresh) (\<lambda>again. f (fresh, again)))))"
    by (rule keeps_bnd [OF skeep_provider [OF K inv]], simp_all) (rule skeep_get_then [OF K inv again])
  have "keeps (sfollows dp d0 vs.balanced K) (f (row, seen))" by (rule follows_use [OF k f [OF u]])
  then show ?thesis using taken by (simp add: reconciled_def bnd_assoc)
qed

lemma skeep_step:
  assumes K: "stable (sexec dp) K" and k: "\<And>d. K d \<Longrightarrow> sknows dp row d" and ok: "verified_claims dp"
  shows "keeps (sfollows dp d0 vs.balanced K) (evm_send_step dp row)"
proof (rule follows_fact [where F = "usable dp row (ecPreimage row)"])
  assume own: "usable dp row (ecPreimage row)"
  have act: "keeps (sfollows dp d0 vs.balanced (\<lambda>d. K d \<and> sknows dp row' d))
      (if sdPayoutFunding dp \<noteq> None \<and> planEvmSend (send_plan_row row') seen' = Refund_evm \<and> \<not> osEvmLockPresent seen'
       then recover_step dp row' else perform_action dp row' (planEvmSend (send_plan_row row') seen'))"
    if "usable dp row' (coalesce (osPreimage seen') (ecPreimage row'))" for row' seen'
  proof (rule keeps_if)
    have KK: "stable (sexec dp) (\<lambda>d. K d \<and> sknows dp row' d)" by (intro stable_conj K vs.stable_has_read)
    show "keeps (sfollows dp d0 vs.balanced (\<lambda>d. K d \<and> sknows dp row' d)) (recover_step dp row')"
      if "sdPayoutFunding dp \<noteq> None \<and> planEvmSend (send_plan_row row') seen' = Refund_evm \<and> \<not> osEvmLockPresent seen'"
      by (rule skeep_recover [OF KK]) (use that send_plan_edges(4) [of "send_plan_row row'" seen'] in \<open>simp_all add: send_plan_row_def\<close>)
    show "keeps (sfollows dp d0 vs.balanced (\<lambda>d. K d \<and> sknows dp row' d))
        (perform_action dp row' (planEvmSend (send_plan_row row') seen'))"
      by (rule skeep_action [OF KK _ ok that]) simp
  qed
  show "keeps (sfollows dp d0 vs.balanced K) (evm_send_step dp row)" unfolding evm_send_step_def Let_def
    by (rule keeps_given [OF yields_send_observe [OF K ok own]], rule skeep_reconciled_then [OF K k ok], assumption+, simp only: prod.case)
      (rule act)
qed (use k has_read_usable in blast)

lemma locking_committed: "Es_locking_evm \<in> evm_committed"
  by (simp add: evm_committed_def evm_send_early_def)

lemma skeep_guarded:
  assumes K: "stable (sexec dp) K" and k: "\<And>d. K d \<Longrightarrow> sknows dp row d" and ok: "verified_claims dp"
  shows "keeps (sfollows dp d0 vs.balanced K) (evm_send_guarded dp row)"
proof -
  have inv: "vs.table_inv (opens_lock dp) d" if "K d" for d using vs.has_read_inv [OF k [OF that]] .
  have parked: "keeps (sfollows dp d0 vs.balanced (\<lambda>d. K d \<and> sknows dp current d))
      (if esState current \<noteq> Es_locking_evm then throw e
       else thn (evm_fail (sstore dp) (ecId current) (esState current) m) (ret False))" for current e m
    by (intro keep skeep_fail stable_conj K vs.stable_has_read)
      (use known_committed locking_committed in auto)
  show ?thesis unfolding evm_send_guarded_def
    by (intro keeps_catch skeep_step [OF K k ok]) (auto split: exn.split intro!: skeep_get_then [OF K inv parked] keeps_throw)
qed

lemma evm_send_driver:
  assumes "verified_claims dp"
  shows "driver (sexec dp) (sfollows dp d0 vs.balanced) (vs.table_inv (opens_lock dp)) (sknows dp) (get_evm_send dp) (evm_send_guarded dp)"
proof unfold_locales
  show "spec (sfollows dp d0 vs.balanced K) (get_evm_send dp i)
      (\<lambda>r w. sfollows dp d0 vs.balanced K w \<and> (\<forall>row. r = Inr row \<longrightarrow> sknows dp row (wDb w)))"
    if "stable (sexec dp) K" "\<And>d. K d \<Longrightarrow> vs.table_inv (opens_lock dp) d" for K i
    unfolding get_evm_send_def by (rule spec_weaken [OF vs.fspec_get_row [OF that evm_send_reads]]) auto
qed (auto simp: follows_conj intro: vs.has_read_inv skeep_guarded assms)

section \<open>Closed rows\<close>

text \<open>Rows listed by a finder, each in one of the states it selects.\<close>

definition all_seen :: "EvmSendServiceDeps \<Rightarrow> EvmSendSwapState set \<Rightarrow> EvmSendSwapRow list \<Rightarrow> evm_send_db \<Rightarrow> bool" where
  "all_seen dp A rows d \<longleftrightarrow> (\<forall>row \<in> set rows. sknows dp row d \<and> esState row \<in> A)"

lemma stable_all_seen: "stable (sexec dp) (all_seen dp A rows)"
  using vs.stable_has_read [of "opens_lock dp" esState] unfolding stable_def all_seen_def by blast

lemma all_seen_of:
  assumes "vs.table_inv (opens_lock dp) d" and "set rs \<subseteq> {r \<in> set (dbRows d). rwState r \<in> A}"
  shows "all_seen dp A (map evm_send_toRow rs) d"
proof -
  have "ids_distinct d" using assms(1) by (simp add: vs.table_inv_def)
  then have "row_of d (rwId r) = Some r \<and> rwState r \<in> A" if "r \<in> set rs" for r
    using that assms(2) row_of_eq [of d "rwId r" r] by auto
  then show ?thesis
    using vs.has_read_of [OF evm_send_reads assms(1)] evm_send_reads by (fastforce simp: all_seen_def vs.reads_def)
qed

lemma skeep_list_then:
  assumes K: "stable (sexec dp) K" and inv: "\<And>d. K d \<Longrightarrow> vs.table_inv (opens_lock dp) d"
    and g: "\<And>d. set (g d) \<subseteq> {r \<in> set (dbRows d). rwState r \<in> A}"
    and f: "\<And>rows. keeps (sfollows dp d0 vs.balanced (\<lambda>d. K d \<and> all_seen dp A rows d)) (f rows)"
  shows "keeps (sfollows dp d0 vs.balanced K) (bnd (read_db (sexec dp) (sdSchedule dp) (\<lambda>d. Inr (map evm_send_toRow (g d)))) f)"
proof (rule keeps_knowing [where L = "all_seen dp A", OF interference.spec_read [OF vs.follows_interference [OF K]] follows_conj f])
  fix w rows
  assume "sfollows dp d0 vs.balanced K w" and "Inr (map evm_send_toRow (g (wDb w))) = Inr rows"
  then show "all_seen dp A rows (wDb w)" using all_seen_of [OF inv g] by (auto simp: follows_def tracks_def)
qed

lemma skeep_watch_one:
  assumes K: "stable (sexec dp) K" and k: "\<And>d. K d \<Longrightarrow> sknows dp row d" and c: "esState row \<in> evm_committed" and ok: "verified_claims dp"
  shows "keeps (sfollows dp d0 vs.balanced K) (watch_one dp height row)"
proof -
  have patched: "keeps (sfollows dp d0 vs.balanced K) (evm_patch (sstore dp) (ecId row) [(V_preimage, SText (sdHexEncode dp b))])"
    if "opens_lock dp (sdHexEncode dp b) (ecPaymentHash row)" for b
  proof (rule vs.fkeep_patch [OF K vs.tolerant_balanced])
    fix d r tm
    assume "K d" "row_of d (ecId row) = Some r"
    then show "evm_send_ok (opens_lock dp) (Patch (ecId row) [(V_preimage, SText (sdHexEncode dp b))] tm) d"
      using known_committed [OF k c] k that
      by (fastforce simp: evm_committed_def vs.has_read_def vs.seen_def evm_opened_def evm_hash_def set_fields_cols)
  qed
  have found: "keeps (sfollows dp d0 vs.balanced K) (bnd (if ecPreimage row = None then scanClaim dp row lock height else ret None) (\<lambda>claimed.
      case claimed of Some bytes \<Rightarrow> evm_patch (sstore dp) (ecId row) [(V_preimage, SText (sdHexEncode dp bytes))] | None \<Rightarrow> ret ()))"
    if "lockFromRow row = Inr lock" for lock
    by (rule keeps_given [where H = "\<lambda>found. \<forall>b. found = Some b \<longrightarrow> opens_lock dp (sdHexEncode dp b) (ecPaymentHash row)"])
      (use yields_scanClaim [OF K ok that] patched in \<open>auto intro!: yields_ret keeps_ret split: option.split\<close>)
  show ?thesis unfolding watch_one_def
    by (rule keeps_given [OF yields_from_result], rule keeps_bnd [OF skeep_base(2) [OF K]]) (rule found)
qed

lemma skeep_watch_each:
  "stable (sexec dp) K \<Longrightarrow> (\<And>d. K d \<Longrightarrow> all_seen dp evm_committed rows d) \<Longrightarrow> verified_claims dp \<Longrightarrow>
     keeps (sfollows dp d0 vs.balanced K) (watch_each dp height rows)"
proof (induction rows)
  case (Cons row rows)
  have "keeps (sfollows dp d0 vs.balanced K) (watch_one dp height row)"
    by (rule follows_fact [where F = "esState row \<in> evm_committed"])
      (use Cons.prems in \<open>auto simp: all_seen_def intro!: skeep_watch_one\<close>)
  then show ?case using Cons by (auto simp: all_seen_def intro!: keeps_bnd keeps_catch keeps_ret)
qed (simp add: keeps_ret)

lemma skeep_watch:
  assumes K: "stable (sexec dp) K" and inv: "\<And>d. K d \<Longrightarrow> vs.table_inv (opens_lock dp) d" and ok: "verified_claims dp"
  shows "keeps (sfollows dp d0 vs.balanced K) (watchLateLocks dp)"
  unfolding watchLateLocks_def
proof (rule keeps_bnd [OF skeep_base(1) [OF K]], rule skeep_list_then [where A = evm_committed, OF K inv])
  show "set (findClosedOverLock tm d) \<subseteq> {r \<in> set (dbRows d). rwState r \<in> evm_committed}" for tm d
    by (auto simp: findClosedOverLock_def by_created_def evm_committed_def evm_send_early_def)
  fix tm rows
  have J: "stable (sexec dp) (\<lambda>d. K d \<and> all_seen dp evm_committed rows d)" by (intro stable_conj K stable_all_seen)
  show "keeps (sfollows dp d0 vs.balanced (\<lambda>d. K d \<and> all_seen dp evm_committed rows d))
      (if rows = [] then ret () else bnd (scall dp (sdBlockHeight dp)) (\<lambda>height. watch_each dp height rows))"
    by (intro keep skeep_base [OF J] skeep_watch_each [OF J _ ok]) simp
qed

text \<open>Only a refused row is refunded to the client.\<close>

lemma returns_enabled:
  "sknows dp row d \<Longrightarrow> esState row = Es_refused \<Longrightarrow> sexec dp (ReturnSats (ecId row)) d = Some d"
  using evm_send_reach(4) by (auto simp: vs.has_read_def vs.seen_def evm_permitted_Some)

lemma skeep_refund_one:
  assumes K: "stable (sexec dp) K" and k: "\<And>d. K d \<Longrightarrow> sknows dp row d" and r: "esState row = Es_refused"
  shows "keeps (sfollows dp d0 vs.balanced K) (refund_one dp row)"
  unfolding refund_one_def
  by (intro keep skeep K skeep_free [OF K] skeep_patch [OF K vs.tolerant_balanced]) (use returns_enabled [OF k r] in simp_all)

lemma skeep_refund_each:
  "stable (sexec dp) K \<Longrightarrow> (\<And>d. K d \<Longrightarrow> all_seen dp {Es_refused} rows d) \<Longrightarrow>
     keeps (sfollows dp d0 vs.balanced K) (refund_each dp rows)"
proof (induction rows)
  case (Cons row rows)
  have "keeps (sfollows dp d0 vs.balanced K) (refund_one dp row)"
    by (rule follows_fact [where F = "esState row = Es_refused"])
      (use Cons.prems in \<open>auto simp: all_seen_def intro!: skeep_refund_one\<close>)
  then show ?case using Cons by (auto simp: all_seen_def intro!: keeps_bnd keeps_catch keeps_ret)
qed (simp add: keeps_ret)

lemma skeep_refund_sweep:
  assumes K: "stable (sexec dp) K" and inv: "\<And>d. K d \<Longrightarrow> vs.table_inv (opens_lock dp) d"
  shows "keeps (sfollows dp d0 vs.balanced K) (refundSweep dp)"
  unfolding refundSweep_def
proof (rule skeep_list_then [where A = "{Es_refused}", OF K inv])
  show "set (evm_findRefundable d) \<subseteq> {r \<in> set (dbRows d). rwState r \<in> {Es_refused}}" for d
    by (auto simp: evm_findRefundable_def by_created_def)
  show "keeps (sfollows dp d0 vs.balanced (\<lambda>d. K d \<and> all_seen dp {Es_refused} rows d)) (refund_each dp rows)" for rows
    by (intro skeep_refund_each stable_conj K stable_all_seen) simp
qed

lemma evm_found_seen:
  assumes "vs.table_inv (opens_lock dp) d" and "evm_findByPkScript pk d = Some r"
  shows "sknows dp (evm_send_toRow r) d"
proof -
  have "r \<in> set (newest_first (filter (\<lambda>r. rwCols r V_pk_script = SText pk) (dbRows d)))"
    using assms(2) by (auto simp: evm_findByPkScript_def first_of_def split: list.splits)
  then have "r \<in> set (dbRows d)" by (simp add: newest_first_def)
  then have "all_seen dp UNIV (map evm_send_toRow [r]) d" by (intro all_seen_of assms(1)) simp
  then show ?thesis by (simp add: all_seen_def)
qed

lemma skeep_swept:
  assumes K: "stable (sexec dp) K" and inv: "\<And>d. K d \<Longrightarrow> vs.table_inv (opens_lock dp) d"
  shows "keeps (sfollows dp d0 vs.balanced K) (refundSweptLockup dp pk)"
proof (cases "(sdFindSweptLockups dp, sdRefundSwept dp)")
  case (Pair a b)
  let ?L = "\<lambda>found d. \<forall>row. found = Some row \<longrightarrow> sknows dp row d"
  show ?thesis
  proof (cases "a = None \<or> b = None")
    case False
    then obtain findSwept refundSwept where some: "sdFindSweptLockups dp = Some findSwept" "sdRefundSwept dp = Some refundSwept"
      using Pair by auto
    have J: "stable (sexec dp) (\<lambda>d. K d \<and> ?L found d)" for found
      using K vs.stable_has_read [of "opens_lock dp" esState] unfolding stable_def by blast
    show ?thesis unfolding refundSweptLockup_def some prod.case option.case Let_def
    proof (rule keeps_knowing [where L = ?L, OF interference.spec_read [OF vs.follows_interference [OF K]] follows_conj])
      show "?L found (wDb w)" if "sfollows dp d0 vs.balanced K w" "Inr (map_option evm_send_toRow (evm_findByPkScript pk (wDb w))) = Inr found" for w found
        using that evm_found_seen [OF inv] by (auto simp: follows_def tracks_def)
    qed (intro keep skeep_base [OF J] skeep_free [OF J] skeep_patch [OF J vs.tolerant_balanced], use returns_enabled in auto)
  qed (use Pair in \<open>auto simp: refundSweptLockup_def keeps_ret split: option.splits\<close>)
qed

section \<open>The service\<close>

text \<open>
  The invariant of the table: ids are distinct, one live row per payment hash, every row has a hash and a payout,
  a preimage on a row opens its hash, a row that is being claimed or was claimed has one, and a row that was
  never committed has none.
\<close>

definition evm_send_inv :: "(string \<Rightarrow> string \<Rightarrow> bool) \<Rightarrow> evm_send_db \<Rightarrow> bool" where
  "evm_send_inv opens d \<longleftrightarrow> ids_distinct d \<and> live_hash_unique EVM_SEND_SHAPE d \<and>
     (\<forall>i r. row_of d i = Some r \<longrightarrow>
       (\<exists>h. rwCols r V_payment_hash = SText h) \<and> (\<exists>v. rwCols r V_payout_sats = SInt v) \<and>
       (rwCols r V_preimage = SNull \<or> evm_opened opens r) \<and> (rwState r \<in> {Es_claiming, Es_claimed} \<longrightarrow> evm_opened opens r) \<and>
       (rwState r \<in> evm_send_early \<longrightarrow> rwCols r V_preimage = SNull))"

lemma evm_send_inv_eq: "evm_send_inv opens = vs.table_inv opens"
  unfolding evm_send_inv_def [abs_def] vs.table_inv_def [abs_def] vs.table_row_ok_def by simp

text \<open>A worker's own acts lock tokens for a swap at most as often as it won the commitment of that swap.\<close>

fun commits_erc20 :: "string \<Rightarrow> evm_send_act \<Rightarrow> bool" where
  "commits_erc20 i (ESt (Cas j s t fs tm)) \<longleftrightarrow> j = i \<and> t = Es_locking_evm"
| "commits_erc20 i _ \<longleftrightarrow> False"

definition locks_commitments :: "evm_send_act list \<Rightarrow> bool" where
  "locks_commitments as \<longleftrightarrow> (\<forall>i. length (filter (pays_erc20 i) as) \<le> length (filter (commits_erc20 i) as))"

lemma locks_commitments_eq: "locks_commitments = vs.balanced"
proof -
  have "vs.commits i a = (if commits_erc20 i a then 1 else 0)" for i a
    by (cases a rule: evm_send_part.cases; simp add: vs.commits.simps split: store_act.split)
  then have "sum_list (map (vs.commits i) as) = length (filter (commits_erc20 i) as)"
    "sum_list (map (vs.payments i) as) = length (filter (pays_erc20 i) as)" for i as
    by (induction as) (simp_all add: vs.payments_def)
  then show ?thesis unfolding locks_commitments_def [abs_def] vs.balanced_def [abs_def] by simp
qed

text \<open>The jobs the service runs: ticks, the sweep, the watch on closed rows, refunds, recovery, and storing a quote.\<close>

datatype evm_send_task =
    Tick nat bool string
  | TickAll nat "string \<Rightarrow> bool"
  | RefundSweep
  | RefundSwept string
  | RecoverySweep
  | StoreQuote EvmQuoteRecord

fun evm_send_task_job :: "EvmSendServiceDeps \<Rightarrow> evm_send_task \<Rightarrow> unit evm_send_job" where
  "evm_send_task_job dp (Tick fuel b i) = thn (tick dp fuel b i) (ret ())"
| "evm_send_task_job dp (TickAll fuel busy) = tickAll dp fuel busy"
| "evm_send_task_job dp RefundSweep = thn (refundSweep dp) (ret ())"
| "evm_send_task_job dp (RefundSwept pk) = thn (refundSweptLockup dp pk) (ret ())"
| "evm_send_task_job dp RecoverySweep = payoutFundingRecoverySweep dp"
| "evm_send_task_job dp (StoreQuote q) = thn (insertEvmSendQuote dp q) (ret ())"

lemma evm_send_job_keeps:
  assumes ok: "verified_claims dp"
  shows "keeps (sfollows dp d0 locks_commitments (evm_send_inv (opens_lock dp))) (evm_send_task_job dp t)"
proof -
  note driven = evm_send_driver [OF ok]
  have K: "stable (sexec dp) (vs.table_inv (opens_lock dp))" unfolding stable_def using vs.exec_keeps_inv by blast
  show ?thesis unfolding evm_send_inv_eq locks_commitments_eq
  proof (cases t)
    case (Tick fuel b i)
    show "keeps (sfollows dp d0 vs.balanced (vs.table_inv (opens_lock dp))) (evm_send_task_job dp t)"
      unfolding Tick evm_send_task_job.simps tick_def by (rule keeps_bnd [OF driver.keeps_guardedTick [OF driven K] keeps_ret])
  next
    case (TickAll fuel busy)
    show "keeps (sfollows dp d0 vs.balanced (vs.table_inv (opens_lock dp))) (evm_send_task_job dp t)"
      unfolding TickAll evm_send_task_job.simps tickAll_def tick_def
      by (intro keeps_bnd skeep_base [OF K] driver.keeps_sweep [OF driven K] skeep_watch [OF K _ ok])
  next
    case RefundSweep
    then show "keeps (sfollows dp d0 vs.balanced (vs.table_inv (opens_lock dp))) (evm_send_task_job dp t)"
      by (simp add: keeps_bnd [OF skeep_refund_sweep [OF K] keeps_ret])
  next
    case (RefundSwept pk)
    then show "keeps (sfollows dp d0 vs.balanced (vs.table_inv (opens_lock dp))) (evm_send_task_job dp t)"
      by (simp add: keeps_bnd [OF skeep_swept [OF K] keeps_ret])
  next
    case RecoverySweep
    show "keeps (sfollows dp d0 vs.balanced (vs.table_inv (opens_lock dp))) (evm_send_task_job dp t)"
      unfolding RecoverySweep evm_send_task_job.simps payoutFundingRecoverySweep_def by (intro keep skeep_base [OF K])
  next
    case (StoreQuote q)
    show "keeps (sfollows dp d0 vs.balanced (vs.table_inv (opens_lock dp))) (evm_send_task_job dp t)"
      unfolding StoreQuote evm_send_task_job.simps insertEvmSendQuote_def
      by (intro keeps_bnd keeps_ret vs.fkeep_insert [OF K]) auto
  qed
qed

abbreviation lawful_evm_send :: "EvmSendServiceDeps \<Rightarrow> evm_send_db \<Rightarrow> 'a evm_send_job \<Rightarrow> bool" where
  "lawful_evm_send dp \<equiv> lawful_run (sexec dp) (evm_send_inv (opens_lock dp))"

lemma evm_send_job_lawful:
  assumes "evm_send_inv (opens_lock dp) d0" and "verified_claims dp"
  shows "lawful_evm_send dp d0 (evm_send_task_job dp t) \<and> locks_commitments (own_run d0 pos (evm_send_task_job dp t))"
  by (rule follows_lawful [OF evm_send_job_keeps [OF assms(2)] assms(1)])
    (use assms(1) in \<open>simp_all add: evm_send_inv_def locks_commitments_def\<close>)

text \<open>
  C9: the EVM send orchestrator refines the service contract. A tick of any swap, the recovery sweep with its watch on
  closed rows, the refund sweeps, the provider's recovery and the insertion of a quote perform only enabled acts - tokens
  approved, locked or ordered only for a swap committed to it, the client's sats claimed only with a preimage of the
  row's own hash and after it was recorded, the lock refunded only from \<open>refunding_evm\<close> on, the client's sats returned
  only for a refused swap - under every interleaving with other workers, every answer or error of the ports and a
  crash at any await; and the job's own acts lock tokens at most as often as it won the compare-and-swap into
  \<open>locking_evm\<close>. The backend must answer a search for a claim only with a preimage of the lock.
\<close>

theorem evm_send_service_refines:
  assumes "evm_send_inv (opens_lock dp) d0" and "verified_claims dp"
  shows "lawful_evm_send dp d0 (evm_send_task_job dp t) \<and> locks_commitments (own_run d0 pos (evm_send_task_job dp t))"
  by (rule evm_send_job_lawful [OF assms])

text \<open>The acts of one worker that runs a job of the service.\<close>

definition evm_send_job_acts :: "EvmSendServiceDeps \<Rightarrow> evm_send_act list \<Rightarrow> bool" where
  "evm_send_job_acts dp as \<longleftrightarrow> (\<exists>d0 pos t. evm_send_inv (opens_lock dp) d0 \<and> as = own_run d0 pos (evm_send_task_job dp t))"

text \<open>
  C10: the solver locks tokens for an EVM send swap at most once, with its own key or through a funding provider. Any
  number of workers, each running a job of the service as the code has it with its own schedule, crashes and port
  answers: in every interleaving of what they did on the shared table at most one lock was broadcast or ordered for a
  swap, although the store checks no table of edges and two steps transition from whatever state they just read.
\<close>

theorem evm_send_locks_once:
  assumes "run_all (exec_evm_send opens) (map snd trace) d0 = Some d" and "evm_send_inv opens d0"
    and "\<forall>w. \<exists>dp. verified_claims dp \<and> evm_send_job_acts dp (acts_by w trace)"
  shows "length (filter (pays_erc20 i) (map snd trace)) \<le> 1"
proof (rule vs.pays_once [OF assms(1)])
  show "ids_distinct d0" using assms(2) by (simp add: evm_send_inv_def)
  show "vs.balanced (acts_by w trace)" for w
    using assms(3) evm_send_job_lawful unfolding locks_commitments_eq evm_send_job_acts_def by metis
qed

text \<open>A service wired to ports that cooperate, and a table with one quote whose lockup is funded.\<close>

definition sample_evm_send_deps :: EvmSendServiceDeps where
  "sample_evm_send_deps =
     \<lparr>sdSchedule = \<lparr>scRival = \<lambda>_ _. [], scCrash = \<lambda>_. False, scClock = \<lambda>_. 1700000100\<rparr>,
      sdHexDecode = unary_decode 0, sdHexEncode = unary_encode, sdSha256 = id, sdSolverEvmAddress = [],
      sdCadence = \<lparr>cdFastest = 1, cdSlowest = 20\<rparr>, sdIsLocked = \<lambda>_ _. Inr False, sdIsLockedAt = \<lambda>_ _ _. Inr False,
      sdBlockTimestampAt = \<lambda>_ _. Inr 1700000000, sdTransactionOutcome = \<lambda>_ _. Inr Tx_pending, sdTransactionBlock = \<lambda>_ _. Inr None,
      sdFindRefund = \<lambda>_ _ _. Inr False, sdFindClaimPreimage = \<lambda>_ _ _ _. Inr None, sdAllowance = \<lambda>_ _ _. Inr 0,
      sdLockCalls = \<lambda>_ _. [''approve'', ''lock''], sdRefundCall = \<lambda>_. ''refund'', sdBroadcast = \<lambda>_ _. Inr ''t'',
      sdBlockHeight = \<lambda>_. Inr 50, sdTimelockHeight = \<lambda>_. Inr 50,
      sdFindLockups = \<lambda>_ _. Inr [\<lparr>foTxid = ''u'', foVout = 0, foValue = 1000, foAssets = [], foExpiresAt = None\<rparr>],
      sdLockupProvablySpent = \<lambda>_ _. Inr False, sdClaim = \<lambda>_ _ _ _. Inr ''c'', sdRefund = \<lambda>_ _ _. Inr ''r'',
      sdFindSweptLockups = None, sdRefundSwept = None, sdPayoutFunding = None, sdApprovalGate = None\<rparr>"

definition sample_evm_send_db :: evm_send_db where
  "sample_evm_send_db = \<lparr>dbRows = [evm_quote_row EVM_SEND_SHAPE sample_evm_quote [] 1700000000], dbEvents = []\<rparr>"

lemma sample_evm_send_inv: "evm_send_inv opens sample_evm_send_db"
proof -
  have "run_all (exec_evm_send opens) [ESt (Insert (hd (dbRows sample_evm_send_db)))] \<lparr>dbRows = [], dbEvents = []\<rparr> =
      Some sample_evm_send_db"
    by (simp add: sample_evm_send_db_def evm_quote_row_def evm_quote_cols_def EVM_SEND_SHAPE_def
        findLiveByPaymentHash_def findBy_def newest_first_def first_of_def)
  moreover have "vs.table_inv opens \<lparr>dbRows = [], dbEvents = []\<rparr>"
    by (simp add: vs.table_inv_def ids_distinct_def live_hash_unique_def row_of_def)
  ultimately show ?thesis unfolding evm_send_inv_eq using vs.run_keeps_inv by blast
qed

lemma sample_evm_send_claims: "verified_claims sample_evm_send_deps"
  by (simp add: verified_claims_def sample_evm_send_deps_def unary_roundtrip)

theorem evm_send_service_refines_witness:
  "lawful_evm_send sample_evm_send_deps sample_evm_send_db (evm_send_task_job sample_evm_send_deps (Tick 3 False ''a'')) \<and>
   lawful_evm_send sample_evm_send_deps sample_evm_send_db (evm_send_task_job sample_evm_send_deps (TickAll 3 (\<lambda>_. False)))"
  using evm_send_service_refines [OF sample_evm_send_inv sample_evm_send_claims] by blast

text \<open>What a tick of the quote does, as it runs.\<close>

definition sample_evm_send_acts :: "evm_send_act list" where
  "sample_evm_send_acts =
     [ESt (Cas ''a'' Es_quoted Es_locking_evm [] 1700000100),
      ESt (Note \<lparr>evSwap = ''a'', evAt = 1700000100, evFrom = Some Es_quoted, evTo = Es_locking_evm, evDetail = None\<rparr>),
      ApproveErc20 ''a'', LockErc20 ''a'', ESt (Patch ''a'' [(V_evm_lock_txid, SText ''t'')] 1700000100)]"

definition sample_send_row :: EvmSendSwapRow where
  "sample_send_row = evm_send_toRow (hd (dbRows sample_evm_send_db))"

definition sample_send_seen :: EvmSendObservation where
  "sample_send_seen = \<lparr>osArkadeLockupFunded = True, osEvmLockPresent = False, osEvmLockReverted = False,
     osEvmRefundOutcome = Tx_pending, osEvmRefundLanded = False, osEvmLockConfirmations = ldConfirmations UNPROVEN,
     osEvmLockAgeSeconds = ldAgeSeconds UNPROVEN, osPreimage = None, osNowSeconds = 1700000100, osEvmTimelockHeight = 50\<rparr>"

abbreviation send_world :: "nat \<Rightarrow> (evm_send_db, evm_send_act) world" where
  "send_world n \<equiv> \<lparr>wDb = sample_evm_send_db, wPos = n, wLog = []\<rparr>"

lemma send_fields:
  "ecId sample_send_row = ''a''" "ecPreimage sample_send_row = None" "ecEvmLockTxid sample_send_row = None"
  "ecAmountSats sample_send_row = 1000" "ecMinConfirmations sample_send_row = 1" "esState sample_send_row = Es_quoted"
  "esEvmRefundTxid sample_send_row = None" "ecValidUntil sample_send_row = 1700000600"
  by (simp_all add: sample_send_row_def evm_send_toRow_def EvmCommonFields.extend_def EvmSendSwapRow.fields_def commonFields_def Let_def
    sample_evm_send_db_def evm_quote_row_def evm_quote_cols_def sample_evm_quote_def EVM_SEND_SHAPE_def)

lemma send_lock_row: "\<exists>l. lockFromRow sample_send_row = Inr l"
  unfolding is_ok_iff [symmetric] by code_simp

lemma sample_send_observe:
  "\<exists>n. observe sample_evm_send_deps sample_send_row w = (Inr sample_send_seen, w\<lparr>wPos := n\<rparr>)"
proof -
  obtain l where "lockFromRow sample_send_row = Inr l" using send_lock_row by blast
  then show ?thesis
    by (simp add: observe_def from_result_def bnd_def ret_def ask_def await_def now_def sample_evm_send_deps_def sendLockupFunded_def
      lockupIsFunded_def lockReverted_def refundOutcome_def refundLanded_def observe_preimage_def EVM_SEND_EXPOSED_def
      send_fields provenDepth_def Let_def sample_send_seen_def) blast
qed

lemma sample_send_plan: "planEvmSend (send_plan_row sample_send_row) sample_send_seen = Lock_evm"
  by (simp add: planEvmSend_Lock_evm send_plan_row_def send_fields sample_send_seen_def)

lemma sample_send_get:
  "get_evm_send sample_evm_send_deps ''a'' (send_world n) = (Inr sample_send_row, send_world (Suc n))"
  by (simp add: get_evm_send_def evm_get_def worker_eval sample_evm_send_deps_def row_of_def sample_send_row_def sample_evm_send_db_def
      evm_quote_row_def sample_evm_quote_def)

lemma sample_send_commit:
  assumes "thn (evm_transition (sstore sample_evm_send_deps) ''a'' Es_quoted Es_locking_evm []) (send_lock sample_evm_send_deps sample_send_row)
    (send_world n) = (r, w)"
  shows "own_acts (wLog w) = sample_evm_send_acts \<and> r = Inr True"
proof -
  obtain l where "lockFromRow sample_send_row = Inr l" using send_lock_row by blast
  then show ?thesis using assms
    by (auto simp: send_lock_def from_result_def send_fields evm_transition_def evm_patch_def evm_assertColumns_def worker_eval ask_def
      sample_evm_send_deps_def sample_evm_send_db_def evm_quote_row_def sample_evm_quote_def cas_def update_rows_def
      EVM_SEND_SHAPE_def EVM_SEND_COLUMNS_def add_event_def patch_row_def set_fields_def sample_evm_send_acts_def Let_def)
qed

lemma sample_evm_send_run:
  "own_run sample_evm_send_db 0 (evm_send_task_job sample_evm_send_deps (Tick 1 False ''a'')) = sample_evm_send_acts"
proof -
  obtain n where obs: "observe sample_evm_send_deps sample_send_row (send_world (Suc 0)) = (Inr sample_send_seen, send_world n)"
    using sample_send_observe [of "send_world (Suc 0)"] by auto
  have awaited: "await (sexec sample_evm_send_deps) (sdSchedule sample_evm_send_deps) (send_world n) = (Inr (), send_world (Suc n))"
    by (simp add: await_def sample_evm_send_deps_def)
  obtain k where again: "observe sample_evm_send_deps sample_send_row (send_world (Suc (Suc n))) = (Inr sample_send_seen, send_world k)"
    using sample_send_observe [of "send_world (Suc (Suc n))"] by auto
  obtain r w where w: "thn (evm_transition (sstore sample_evm_send_deps) ''a'' Es_quoted Es_locking_evm [])
      (send_lock sample_evm_send_deps sample_send_row) (send_world k) = (r, w)" by fastforce
  have none: "sdPayoutFunding sample_evm_send_deps = None" "sdApprovalGate sample_evm_send_deps = None"
    by (simp_all add: sample_evm_send_deps_def)
  have locked: "lock_evm_step sample_evm_send_deps sample_send_row (send_world n) = (r, w)"
    unfolding lock_evm_step_def evm_askApproval_def none
    by (simp add: bnd_def [of "await _ _"] bnd_def [of "get_evm_send _ _"] bnd_def [of "observe _ _"] awaited again
        sample_send_get send_fields sample_send_plan w)
  have step: "evm_send_guarded sample_evm_send_deps sample_send_row (send_world (Suc 0)) = (Inr True, w)"
    using sample_send_commit [OF w] locked
    by (simp add: evm_send_guarded_def evm_send_step_def reconciled_def none perform_action_def catch_def bnd_def obs sample_send_plan ret_def)
  have log: "wLog (snd (get_evm_send sample_evm_send_deps ''a'' w)) = wLog w" for w
    by (simp add: get_evm_send_def evm_get_def worker_eval sample_evm_send_deps_def split: option.split)
  have "wLog (snd (evm_send_task_job sample_evm_send_deps (Tick 1 False ''a'') (send_world 0))) = wLog w"
    using log [of w] log [of "snd (get_evm_send sample_evm_send_deps ''a'' w)"]
    by (auto simp: tick_def guardedTick_def sample_send_get step bnd_def ret_def split: prod.splits sum.splits)
  then show ?thesis using sample_send_commit [OF w] by (simp add: own_run_def)
qed

lemma sample_evm_send_idle: "own_run sample_evm_send_db 0 (evm_send_task_job sample_evm_send_deps RecoverySweep) = []"
  by (simp add: own_run_def payoutFundingRecoverySweep_def sample_evm_send_deps_def ret_def)

lemma sample_evm_send_runs:
  "\<exists>d. run_all (exec_evm_send opens) sample_evm_send_acts sample_evm_send_db = Some d"
  by (simp add: sample_evm_send_acts_def sample_evm_send_db_def evm_quote_row_def evm_quote_cols_def EVM_SEND_SHAPE_def
      EVM_SEND_COLUMNS_def cas_def update_rows_def row_of_def add_event_def evm_permitted_def set_fields_def
      evm_committed_def evm_send_early_def patch_row_def sample_evm_quote_def)

theorem evm_send_locks_once_witness:
  "length (filter (pays_erc20 ''a'') sample_evm_send_acts) = 1 \<and>
   length (filter (pays_erc20 ''a'') (map snd (map (Pair (0::nat)) sample_evm_send_acts))) \<le> 1"
proof -
  let ?t = "map (Pair (0::nat)) sample_evm_send_acts"
  have ids: "map snd ?t = sample_evm_send_acts" "acts_by 0 ?t = sample_evm_send_acts" "acts_by (Suc n) ?t = []" for n
    by (simp_all add: acts_by_def filter_map o_def)
  have "evm_send_job_acts sample_evm_send_deps sample_evm_send_acts" "evm_send_job_acts sample_evm_send_deps []"
    unfolding evm_send_job_acts_def using sample_evm_send_inv sample_evm_send_run sample_evm_send_idle by metis+
  then have "\<forall>w. \<exists>dp. verified_claims dp \<and> evm_send_job_acts dp (acts_by w ?t)"
    using sample_evm_send_claims ids(2,3) by (metis not0_implies_Suc)
  moreover obtain d where "run_all (exec_evm_send (=)) (map snd ?t) sample_evm_send_db = Some d"
    using sample_evm_send_runs [of "(=)"] ids(1) by auto
  ultimately have "length (filter (pays_erc20 ''a'') (map snd ?t)) \<le> 1"
    using evm_send_locks_once [OF _ sample_evm_send_inv] by blast
  then show ?thesis by (simp add: sample_evm_send_acts_def)
qed

end
