(* ===== verification/Fill_Latch.thy ===== *)
theory Fill_Latch
  imports Follows
begin

text \<open>
  The fill of an Arkade offer, as the two tables that record one share it (\<^verbatim>\<open>db/assetRfqSwaps.ts\<close> for a negotiated quote,
  \<^verbatim>\<open>db/offerFills.ts\<close> for a discovered offer): a row is claimed by the compare-and-swap into \<open>filling\<close> with the phase
  \<open>selecting\<close>, walked back to where it came from only while that phase stands, and latched to \<open>submitting\<close> by one
  statement immediately before the call that spends. The locale holds what follows for every such table: the latch is
  won at most once per row and never given back, so a fill is submitted at most once.
\<close>

section \<open>The table\<close>

text \<open>What a table of fills names: the state a fill starts from, the state it holds, the phase, and the terms that are fixed at insert.\<close>

record ('s, 'c) Latch =
  laReady :: 's
  laFilling :: 's
  laPhase :: 'c
  laWant :: 'c
  laWantAsset :: 'c
  laOfferAsset :: 'c
  laDeposit :: 'c
  laMarks :: "'c list"

definition selecting :: "('s, 'c) Latch \<Rightarrow> string \<Rightarrow> ('s, 'c) raw \<Rightarrow> bool" where
  "selecting la i r \<longleftrightarrow> rwId r = i \<and> rwState r = laFilling la \<and> rwCols r (laPhase la) = SText ''selecting''"

definition revert_row :: "('s, 'c) Latch \<Rightarrow> string \<Rightarrow> int \<Rightarrow> ('s, 'c) db \<Rightarrow> nat \<times> ('s, 'c) db" where
  "revert_row la i tm = update_rows (selecting la i)
     (\<lambda>r. (set_fields [(laPhase la, SNull)] r)\<lparr>rwState := laReady la, rwUpdated := tm\<rparr>)"

definition latch_row :: "('s, 'c) Latch \<Rightarrow> string \<Rightarrow> int \<Rightarrow> ('s, 'c) db \<Rightarrow> nat \<times> ('s, 'c) db" where
  "latch_row la i tm = update_rows (selecting la i)
     (\<lambda>r. (set_fields [(laPhase la, SText ''submitting'')] r)\<lparr>rwUpdated := tm\<rparr>)"

definition mark_row :: "string \<Rightarrow> 'c fields \<Rightarrow> ('s, 'c) db \<Rightarrow> nat \<times> ('s, 'c) db" where
  "mark_row i fs = update_rows (\<lambda>r. rwId r = i) (set_fields fs)"

section \<open>Actions\<close>

text \<open>
  \<open>SubmitFill i want wantAsset offerAsset held\<close> is the call that builds and submits the spend: it pays \<open>want\<close> of
  \<open>wantAsset\<close> and takes a deposit that holds \<open>held\<close> of \<open>offerAsset\<close>. It is allowed on a latched row only, for the
  terms the row records and for a deposit that covers them.
\<close>

datatype ('s, 'c) fill_act =
    FSt "('s, 'c) store_act"
  | Revert string int
  | MarkSubmitting string int
  | FillMark string "'c fields"
  | SubmitFill string int "string option" "string option" int

definition priced_at :: "('s, 'c) Latch \<Rightarrow> int \<Rightarrow> string option \<Rightarrow> string option \<Rightarrow> int \<Rightarrow> ('s, 'c) raw \<Rightarrow> bool" where
  "priced_at la want wantAsset offerAsset held r \<longleftrightarrow>
     rwCols r (laWant la) = SInt want \<and> rwCols r (laWantAsset la) = opt_text wantAsset \<and>
     rwCols r (laOfferAsset la) = opt_text offerAsset \<and> (case rwCols r (laDeposit la) of SInt v \<Rightarrow> v \<le> held | _ \<Rightarrow> False)"

text \<open>Amounts are stored as canonical decimal text and read with \<open>BigInt\<close>; the model holds the number.\<close>

fun is_int :: "sqlval \<Rightarrow> bool" where
  "is_int (SInt _) \<longleftrightarrow> True"
| "is_int _ \<longleftrightarrow> False"

fun is_leg :: "sqlval \<Rightarrow> bool" where
  "is_leg SNull \<longleftrightarrow> True"
| "is_leg (SText _) \<longleftrightarrow> True"
| "is_leg _ \<longleftrightarrow> False"

lemma is_leg_opt [simp]: "is_leg (opt_text x)"
  by (cases x) simp_all

definition typed_terms :: "('s, 'c) Latch \<Rightarrow> ('s, 'c) raw \<Rightarrow> bool" where
  "typed_terms la r \<longleftrightarrow> is_int (rwCols r (laWant la)) \<and> is_int (rwCols r (laDeposit la)) \<and>
     is_leg (rwCols r (laWantAsset la)) \<and> is_leg (rwCols r (laOfferAsset la))"

lemma typed_priced:
  "typed_terms la r \<Longrightarrow> priced_at la (sql_int (rwCols r (laWant la))) (textOf (rwCols r (laWantAsset la)))
     (textOf (rwCols r (laOfferAsset la))) (sql_int (rwCols r (laDeposit la))) r"
  unfolding typed_terms_def priced_at_def
  by (cases "rwCols r (laWant la)"; cases "rwCols r (laDeposit la)"; cases "rwCols r (laWantAsset la)"; cases "rwCols r (laOfferAsset la)")
    simp_all

fun fill_ok ::
    "('s, 'c) Latch \<Rightarrow> (('s, 'c) raw \<Rightarrow> ('s, 'c) db \<Rightarrow> bool) \<Rightarrow> ('s, 'c) store_act \<Rightarrow> ('s, 'c) db \<Rightarrow> bool" where
  "fill_ok la fresh (Insert r) d \<longleftrightarrow> rwCols r (laPhase la) = SNull \<and> fresh r d"
| "fill_ok la fresh (Cas i s t fs tm) d \<longleftrightarrow>
     (laPhase la \<in> fst ` set fs \<longrightarrow> t = laFilling la \<and> map_of fs (laPhase la) = Some (SText ''selecting''))"
| "fill_ok la fresh (Note e) d \<longleftrightarrow> True"
| "fill_ok la fresh _ d \<longleftrightarrow> False"

fun exec_fill ::
    "('s, 'c) StoreShape \<Rightarrow> ('s, 'c) Latch \<Rightarrow> (('s, 'c) raw \<Rightarrow> ('s, 'c) db \<Rightarrow> bool) \<Rightarrow> ('s, 'c) fill_act \<Rightarrow>
     ('s, 'c) db \<Rightarrow> ('s, 'c) db option" where
  "exec_fill sh la fresh (FSt b) d = exec_store sh (fill_ok la fresh) b d"
| "exec_fill sh la fresh (Revert i tm) d =
     (if fst (revert_row la i tm d) = 1 then Some (snd (revert_row la i tm d)) else None)"
| "exec_fill sh la fresh (MarkSubmitting i tm) d =
     (if fst (latch_row la i tm d) = 1 then Some (snd (latch_row la i tm d)) else None)"
| "exec_fill sh la fresh (FillMark i fs) d =
     (if fst ` set fs \<subseteq> set (laMarks la) then Some (snd (mark_row i fs d)) else None)"
| "exec_fill sh la fresh (SubmitFill i want wantAsset offerAsset held) d =
     (case row_of d i of
        None \<Rightarrow> None
      | Some r \<Rightarrow> if rwCols r (laPhase la) = SText ''submitting'' \<and> priced_at la want wantAsset offerAsset held r then Some d else None)"

text \<open>How often a log latches and submits the fill of a row.\<close>

fun latches :: "string \<Rightarrow> ('s, 'c) fill_act \<Rightarrow> nat" where
  "latches i (MarkSubmitting j tm) = (if j = i then 1 else 0)"
| "latches i _ = 0"

fun submits :: "string \<Rightarrow> ('s, 'c) fill_act \<Rightarrow> nat" where
  "submits i (SubmitFill j _ _ _ _) = (if j = i then 1 else 0)"
| "submits i _ = 0"

text \<open>A worker submits the fill of a row at most as often as it latched it.\<close>

definition latches_first :: "('s, 'c) fill_act list \<Rightarrow> bool" where
  "latches_first as \<longleftrightarrow> (\<forall>i. sum_list (map (submits i) as) \<le> sum_list (map (latches i) as))"

section \<open>Unique indexes\<close>

text \<open>\<open>CREATE UNIQUE INDEX ... ON table(cols) WHERE state IN live\<close>: no two such rows agree on the columns.\<close>

definition unique_in :: "'c list \<Rightarrow> 's set \<Rightarrow> ('s, 'c) db \<Rightarrow> bool" where
  "unique_in cs live d \<longleftrightarrow> (\<forall>i j r q. row_of d i = Some r \<longrightarrow> row_of d j = Some q \<longrightarrow>
     map (rwCols r) cs = map (rwCols q) cs \<longrightarrow> rwState r \<in> live \<longrightarrow> rwState q \<in> live \<longrightarrow> i = j)"

definition taken_in :: "'c list \<Rightarrow> 's list \<Rightarrow> ('s, 'c) raw \<Rightarrow> ('s, 'c) db \<Rightarrow> bool" where
  "taken_in cs live r d \<longleftrightarrow> list_ex (\<lambda>q. map (rwCols q) cs = map (rwCols r) cs \<and> rwState q \<in> set live) (dbRows d)"

lemma not_taken:
  "\<not> taken_in cs live r d \<Longrightarrow> row_of d i = Some q \<Longrightarrow> map (rwCols q) cs = map (rwCols r) cs \<Longrightarrow> rwState q \<notin> set live"
  using row_of_Some [of d i q] by (auto simp: taken_in_def list_ex_iff)

section \<open>Methods\<close>

type_synonym ('s, 'c) fill_store = "('s, 'c, ('s, 'c) fill_act) store"
type_synonym ('s, 'c, 'a) fill_job = "('s, 'c, ('s, 'c) fill_act, 'a) job"

definition revertUnsubmitted :: "('s, 'c) fill_store \<Rightarrow> ('s, 'c) Latch \<Rightarrow> string \<Rightarrow> ('s, 'c, bool) fill_job" where
  "revertUnsubmitted st la i =
     bnd (now (soSchedule st)) (\<lambda>tm.
     bnd (logged_act (soExec st) (soSchedule st) (Revert i tm) (revert_row la i tm)) (\<lambda>changes.
     if changes = 1 then thn (recordEvent st i (Some (laFilling la)) (laReady la) None) (ret True) else ret False))"

definition markSubmitting :: "('s, 'c) fill_store \<Rightarrow> ('s, 'c) Latch \<Rightarrow> string \<Rightarrow> ('s, 'c, bool) fill_job" where
  "markSubmitting st la i =
     bnd (now (soSchedule st)) (\<lambda>tm.
     bnd (logged_act (soExec st) (soSchedule st) (MarkSubmitting i tm) (latch_row la i tm)) (\<lambda>changes. ret (changes = 1)))"

text \<open>\<open>fail\<close> of both stores refuses a terminal state before it looks for an edge.\<close>

definition failFill :: "('s, 'c) fill_store \<Rightarrow> string \<Rightarrow> 's \<Rightarrow> string \<Rightarrow> ('s, 'c, unit) fill_job" where
  "failFill st i s reason =
     (if s \<notin> set (shLive (soShape st))
      then throw (Thrown ''fail() cannot act on a terminal state: there is nothing left to fail'')
      else failRow st i s reason)"

definition findRow :: "('s, 'c) fill_store \<Rightarrow> string \<Rightarrow> ('s, 'c, ('s, 'c) raw option) fill_job" where
  "findRow st i = read_db (soExec st) (soSchedule st) (\<lambda>d. Inr (row_of d i))"

text \<open>The insert of both stores, under the unique indexes of the table: \<open>conflict\<close> tells a row they refuse.\<close>

definition insertFill :: "('s, 'c) fill_store \<Rightarrow> (('s, 'c) raw \<Rightarrow> ('s, 'c) db \<Rightarrow> bool) \<Rightarrow> ('s, 'c) raw \<Rightarrow> ('s, 'c, ('s, 'c) raw) fill_job" where
  "insertFill st conflict r =
     bnd (write_db (soExec st) (soSchedule st) (\<lambda>d.
       if conflict r d \<or> rwId r \<in> rwId ` set (dbRows d)
       then ([], Inl (UniqueConstraint ''UNIQUE constraint failed''), d)
       else ([soAct st (Insert r)], Inr (), d\<lparr>dbRows := dbRows d @ [r]\<rparr>))) (\<lambda>res.
     case res of
       Inl err \<Rightarrow> throw err
     | Inr _ \<Rightarrow> thn (recordEvent st (rwId r) None (rwState r) None)
         (bnd (findRow st (rwId r)) (\<lambda>found.
          case found of
            None \<Rightarrow> throw (Thrown (shNoun (soShape st) @ '' '' @ rwId r @ '' vanished immediately after insert''))
          | Some row \<Rightarrow> ret row)))"

lemma spec_did_logged_act:
  assumes "\<And>as. P as \<Longrightarrow> Q (as @ [a])"
  shows "spec (did P) (logged_act exec sc a f) (\<lambda>r w. case r of Inr n \<Rightarrow> did (if n = 0 then P else Q) w | Inl _ \<Rightarrow> did P w)"
  unfolding logged_act_def write_db_def
  by (rule spec_bnd [OF own_log.keeps_await]) (auto simp: spec_def did_def assms split: prod.splits)

lemma keeps_did_logged_act: "(\<And>as. P as \<Longrightarrow> P (as @ [a])) \<Longrightarrow> keeps (did P) (logged_act exec sc a f)"
  by (rule spec_weaken [OF spec_did_logged_act [of P P]]) (auto split: sum.splits)

lemmas did_fill = did_keep keeps_did_logged_act keeps_did_recordEvent

lemma keeps_did_revert:
  assumes "\<And>as tm. P as \<Longrightarrow> P (as @ [Revert i tm])" and "\<And>as e. P as \<Longrightarrow> P (as @ [soAct st (Note e)])"
  shows "keeps (did P) (revertUnsubmitted st la i)"
  unfolding revertUnsubmitted_def by (intro did_fill assms)

lemma keeps_did_insertFill:
  assumes "\<And>as. P as \<Longrightarrow> P (as @ [soAct st (Insert r)])" and "\<And>as e. P as \<Longrightarrow> P (as @ [soAct st (Note e)])"
  shows "keeps (did P) (insertFill st conflict r)"
  unfolding insertFill_def findRow_def
  by (intro did_fill keeps_did_write assms(2)) (auto split: if_splits intro: assms(1))

section \<open>The contract\<close>

text \<open>
  \<open>after\<close> are the states a latched row can be in. The terms of a fill are written by no statement but the insert.
\<close>

locale fill_table =
  fixes sh :: "('s, 'c) StoreShape" and la :: "('s, 'c) Latch"
    and fresh :: "('s, 'c) raw \<Rightarrow> ('s, 'c) db \<Rightarrow> bool" and after :: "'s set"
  assumes past_filling: "laFilling la \<in> after" "s \<in> after \<Longrightarrow> t \<in> set (shEdges sh s) \<Longrightarrow> t \<in> after"
    and entered_before: "laFilling la \<in> set (shEdges sh s) \<Longrightarrow> s \<notin> after"
    and no_patches: "shPatchColumns sh = []" "shLease sh = None" "shOnce sh = None"
    and phase_unmarked: "laPhase la \<notin> set (laMarks la)"
    and fresh_typed: "fresh r d \<Longrightarrow> typed_terms la r"
    and terms_fixed: "{laWant la, laWantAsset la, laOfferAsset la, laDeposit la} \<inter>
      (set (shTransitionColumns sh) \<union> set (laMarks la) \<union> {laPhase la}) = {}"
begin

abbreviation exec :: "('s, 'c) fill_act \<Rightarrow> ('s, 'c) db \<Rightarrow> ('s, 'c) db option" where
  "exec \<equiv> exec_fill sh la fresh"

abbreviation writable :: "'c set" where
  "writable \<equiv> set (shTransitionColumns sh) \<union> set (laMarks la) \<union> {laPhase la}"

lemmas latch_defs = revert_row_def latch_row_def mark_row_def

lemma fill_ids:
  assumes "exec a d = Some d'" and "ids_distinct d"
  shows "ids_distinct d'"
proof (cases a)
  case (FSt b)
  then show ?thesis using assms store_ids by (metis exec_fill.simps(1))
qed (use assms in \<open>auto simp: ids_distinct_def latch_defs update_rows_ids split: if_splits option.splits\<close>)

text \<open>An update by id that changes one row found it as the condition says.\<close>

lemma one_selecting:
  assumes "fst (update_rows (selecting la j) f d) = 1" and "ids_distinct d" and "row_of d i = Some r" and "i = j"
  shows "selecting la i r"
proof -
  obtain q where "q \<in> set (dbRows d)" "selecting la j q"
    using assms(1) update_rows_one [of "selecting la j" f d] by auto
  then have "row_of d i = Some q" using assms(2,4) by (simp add: row_of_eq selecting_def)
  with assms(3,4) \<open>selecting la j q\<close> show ?thesis by simp
qed

text \<open>What one action does to a row: columns outside the writable ones stay, and a latched row stays latched.\<close>

definition steps_to :: "'s \<Rightarrow> 's \<Rightarrow> bool" where
  "steps_to s t \<longleftrightarrow> t = s \<or> t \<in> set (shEdges sh s) \<or> (s = laFilling la \<and> t = laReady la)"

definition latched :: "('s, 'c) raw \<Rightarrow> bool" where
  "latched r \<longleftrightarrow> rwState r \<in> after \<and> rwCols r (laPhase la) = SText ''submitting''"

lemma store_row_step:
  assumes b: "exec_store sh (fill_ok la fresh) b d = Some d'" and r: "row_of d i = Some r" and d: "ids_distinct d"
  shows "\<exists>r'. row_of d' i = Some r' \<and> (\<forall>c. c \<notin> writable \<longrightarrow> rwCols r' c = rwCols r c) \<and> steps_to (rwState r) (rwState r') \<and>
    (latched r \<longrightarrow> latched r')"
proof (cases "\<exists>s t fs tm. b = Cas i s t fs tm")
  case True
  then obtain s t fs tm where b': "b = Cas i s t fs tm" by blast
  note c = store_cas_row [OF b [unfolded b'] r d]
  have "laPhase la \<notin> fst ` set fs" if "rwState r \<in> after" using c entered_before that by auto
  then have "latched r \<longrightarrow> latched ((set_fields fs r)\<lparr>rwState := t, rwUpdated := tm\<rparr>)"
    using c past_filling(2) by (auto simp: latched_def)
  moreover have "rwCols (set_fields fs r) e = rwCols r e" if "e \<notin> writable" for e
    using c that by (intro set_fields_other) auto
  ultimately show ?thesis using c by (auto simp: steps_to_def)
next
  case False
  then show ?thesis using store_row_still [OF b r] no_patches by (auto simp: steps_to_def latched_def)
qed

lemma fill_row_step:
  assumes a: "exec a d = Some d'" and r: "row_of d i = Some r" and d: "ids_distinct d"
  shows "\<exists>r'. row_of d' i = Some r' \<and> (\<forall>c. c \<notin> writable \<longrightarrow> rwCols r' c = rwCols r c) \<and> steps_to (rwState r) (rwState r') \<and>
    (latched r \<longrightarrow> latched r')"
proof (cases a)
  case (FSt b)
  then show ?thesis using a store_row_step [OF _ r d] by simp
next
  case (Revert j tm)
  then have d': "d' = snd (revert_row la j tm d)" and one: "fst (revert_row la j tm d) = 1" using a by (auto split: if_splits)
  show ?thesis using one_selecting [OF one [unfolded revert_row_def] d r] r
    by (auto simp: d' revert_row_def update_rows_row_of steps_to_def latched_def selecting_def)
next
  case (MarkSubmitting j tm)
  then have d': "d' = snd (latch_row la j tm d)" and one: "fst (latch_row la j tm d) = 1" using a by (auto split: if_splits)
  show ?thesis using one_selecting [OF one [unfolded latch_row_def] d r] r
    by (auto simp: d' latch_row_def update_rows_row_of steps_to_def latched_def selecting_def set_fields_cols)
next
  case (FillMark j fs)
  then have d': "d' = snd (mark_row j fs d)" and fs: "fst ` set fs \<subseteq> set (laMarks la)" using a by (auto split: if_splits)
  then have other: "rwCols (set_fields fs r) e = rwCols r e" if "e \<notin> set (laMarks la)" for e
    using that by (intro set_fields_other) auto
  show ?thesis using r other phase_unmarked
    by (auto simp: d' mark_row_def update_rows_row_of steps_to_def latched_def)
next
  case (SubmitFill j want wantAsset offerAsset held)
  then show ?thesis using a r by (auto simp: steps_to_def split: option.splits if_splits)
qed

end

sublocale fill_table \<subseteq> store_client "exec_fill sh la fresh" sh "fill_ok la fresh" FSt
  by unfold_locales (auto intro: fill_ids)

context fill_table
begin

section \<open>One submission per row\<close>

lemma stable_fill_row:
  assumes "\<And>r r'. Q r \<Longrightarrow> (\<forall>c. c \<notin> writable \<longrightarrow> rwCols r' c = rwCols r c) \<Longrightarrow> (latched r \<longrightarrow> latched r') \<Longrightarrow> Q r'"
  shows "stable exec (\<lambda>d. \<exists>r. row_of d i = Some r \<and> Q r)"
  unfolding stable_def using fill_row_step assms by metis

abbreviation latched_in :: "string \<Rightarrow> ('s, 'c) db \<Rightarrow> bool" where
  "latched_in i d \<equiv> \<exists>r. row_of d i = Some r \<and> latched r"

abbreviation terms_in :: "string \<Rightarrow> int \<Rightarrow> string option \<Rightarrow> string option \<Rightarrow> int \<Rightarrow> ('s, 'c) db \<Rightarrow> bool" where
  "terms_in i want wantAsset offerAsset held d \<equiv> \<exists>r. row_of d i = Some r \<and> priced_at la want wantAsset offerAsset held r"

lemma stable_latched [intro]: "stable exec (latched_in i)"
  by (rule stable_fill_row) blast

lemma stable_terms [intro]: "stable exec (terms_in i want wantAsset offerAsset held)"
  by (rule stable_fill_row) (use terms_fixed in \<open>auto simp: priced_at_def\<close>)

lemma mark_latches:
  assumes "exec (MarkSubmitting i tm) d = Some d'" and "ids_distinct d"
  shows "latched_in i d'"
proof -
  have d': "d' = snd (latch_row la i tm d)" and one: "fst (latch_row la i tm d) = 1"
    using assms(1) by (auto split: if_splits)
  obtain q where q: "q \<in> set (dbRows d)" "selecting la i q"
    using one update_rows_one [of "selecting la i" _ d] unfolding latch_row_def by (metis zero_neq_one)
  then have "row_of d i = Some q" using assms(2) by (simp add: row_of_eq selecting_def)
  then show ?thesis using q(2) past_filling(1)
    by (simp add: d' latch_row_def update_rows_row_of latched_def selecting_def set_fields_cols)
qed

lemma latched_once:
  assumes "latched_in i d" and "ids_distinct d"
  shows "exec (MarkSubmitting i tm) d = None"
proof -
  have "\<not> selecting la i q" if "q \<in> set (dbRows d)" for q
  proof
    assume "selecting la i q"
    then have "row_of d i = Some q" using that assms(2) by (simp add: row_of_eq selecting_def)
    with assms(1) \<open>selecting la i q\<close> show False by (auto simp: latched_def selecting_def)
  qed
  then have "fst (latch_row la i tm d) = 0" unfolding latch_row_def using update_rows_one by blast
  then show ?thesis by simp
qed

lemma latched_submit:
  assumes "latched_in i d" and "terms_in i want wantAsset offerAsset held d"
  shows "exec (SubmitFill i want wantAsset offerAsset held) d = Some d"
  using assms by (auto simp: latched_def)

lemma run_latched_none:
  "run_all exec as d = Some d' \<Longrightarrow> ids_distinct d \<Longrightarrow> latched_in i d \<Longrightarrow> sum_list (map (latches i) as) = 0"
proof (induction as arbitrary: d)
  case (Cons a as)
  then obtain d1 where d1: "exec a d = Some d1" "run_all exec as d1 = Some d'" by (auto split: option.splits)
  have "latches i a = 0" using latched_once [OF Cons.prems(3,2)] d1(1) by (cases a) auto
  moreover have "latched_in i d1" using stable_latched d1(1) Cons.prems(2,3) unfolding stable_def by blast
  ultimately show ?case using Cons.IH [OF d1(2) fill_ids [OF d1(1) Cons.prems(2)]] by simp
qed simp

lemma run_latches_once:
  "run_all exec as d = Some d' \<Longrightarrow> ids_distinct d \<Longrightarrow> sum_list (map (latches i) as) \<le> 1"
proof (induction as arbitrary: d)
  case (Cons a as)
  then obtain d1 where d1: "exec a d = Some d1" "run_all exec as d1 = Some d'" by (auto split: option.splits)
  note ids = fill_ids [OF d1(1) Cons.prems(2)]
  show ?case
  proof (cases "latches i a = 0")
    case True
    then show ?thesis using Cons.IH [OF d1(2) ids] by simp
  next
    case False
    then obtain tm where "a = MarkSubmitting i tm" by (cases a) (auto split: if_splits)
    then have "latches i a = 1" "latched_in i d1" using mark_latches d1(1) Cons.prems(2) by auto
    then show ?thesis using run_latched_none [OF d1(2) ids] by simp
  qed
qed simp

definition holds_latch :: "string \<Rightarrow> ('s, 'c) fill_act list \<Rightarrow> bool" where
  "holds_latch i as \<longleftrightarrow> latches_first as \<and> sum_list (map (submits i) as) < sum_list (map (latches i) as)"

text \<open>However many workers: if each submits only what it latched, no fill is submitted twice.\<close>

lemma submits_once:
  assumes "run_all exec (map snd trace) d = Some d'" and "ids_distinct d" and "\<And>w. latches_first (acts_by w trace)"
  shows "sum_list (map (submits i) (map snd trace)) \<le> 1"
proof -
  have "sum_list (map (submits i) (map snd trace)) \<le> sum_list (map (latches i) (map snd trace))"
    by (rule counts_by_worker) (use assms(3) in \<open>auto simp: latches_first_def\<close>)
  then show ?thesis using run_latches_once [OF assms(1,2), of i] by (rule order_trans)
qed

lemma balanced_free: "latches_first as \<Longrightarrow> (\<And>i. submits i a = 0) \<Longrightarrow> latches_first (as @ [a])"
  by (simp add: latches_first_def trans_le_add1)

lemma balanced_mark: "latches_first as \<Longrightarrow> holds_latch i (as @ [MarkSubmitting i tm])"
  by (simp add: holds_latch_def balanced_free) (simp add: latches_first_def less_Suc_eq_le)

lemma holds_submit:
  assumes "holds_latch i as"
  shows "latches_first (as @ [SubmitFill i want wantAsset offerAsset held])"
  using assms by (auto simp: holds_latch_def latches_first_def Suc_le_eq)

lemma holds_balanced: "holds_latch i as \<Longrightarrow> latches_first as"
  by (simp add: holds_latch_def)

abbreviation works :: "('s, 'c) db \<Rightarrow> (('s, 'c) db \<Rightarrow> bool) \<Rightarrow> (('s, 'c) db, ('s, 'c) fill_act) world \<Rightarrow> bool" where
  "works d0 K \<equiv> follows exec d0 latches_first K"

end

context fill_table
begin

section \<open>Workers\<close>

lemma updated_one:
  assumes "ids_distinct d" and "\<And>r. p r \<Longrightarrow> rwId r = i" and "update_rows p f d = (n, d')"
  shows "n \<le> 1 \<and> (n = 0 \<longrightarrow> d' = d)"
  using update_by_id_count [OF assms(1,2), of p f] update_rows_none [of p f d] assms(3) by simp

lemma revert_enabled:
  "ids_distinct d \<Longrightarrow> revert_row la i tm d = (n, d') \<Longrightarrow> (n = 0 \<and> d' = d) \<or> (n = 1 \<and> exec (Revert i tm) d = Some d')"
  using updated_one [of d "selecting la i" i _ n d'] by (auto simp: revert_row_def selecting_def le_Suc_eq)

lemma latch_enabled:
  "ids_distinct d \<Longrightarrow> latch_row la i tm d = (n, d') \<Longrightarrow> (n = 0 \<and> d' = d) \<or> (n = 1 \<and> exec (MarkSubmitting i tm) d = Some d')"
  using updated_one [of d "selecting la i" i _ n d'] by (auto simp: latch_row_def selecting_def le_Suc_eq)

lemma mark_enabled:
  "ids_distinct d \<Longrightarrow> fst ` set fs \<subseteq> set (laMarks la) \<Longrightarrow> mark_row i fs d = (n, d') \<Longrightarrow>
     (n = 0 \<and> d' = d) \<or> (n = 1 \<and> exec (FillMark i fs) d = Some d')"
  using updated_one [of d "\<lambda>r. rwId r = i" i _ n d'] by (auto simp: mark_row_def le_Suc_eq)

lemma keeps_logged_act:
  assumes "stable exec K" and "\<And>d n d'. K d \<Longrightarrow> ids_distinct d \<Longrightarrow> f d = (n, d') \<Longrightarrow> (n = 0 \<and> d' = d) \<or> (n = 1 \<and> exec a d = Some d')"
  shows "keeps (tracks exec d0 K) (logged_act exec sc a f)"
  by (rule spec_weaken [OF spec_logged_act [where L = "\<lambda>_. True", OF assms]]) auto

lemma balanced_store [intro]: "latches_first as \<Longrightarrow> latches_first (as @ [FSt b])"
  by (rule balanced_free) simp_all

lemma wkeep_revert:
  assumes "stable exec K"
  shows "keeps (works d0 K) (revertUnsubmitted (here sc) la i)"
proof (rule follows_both)
  show "keeps (tracks exec d0 K) (revertUnsubmitted (here sc) la i)"
    unfolding revertUnsubmitted_def store.simps
    by (intro keep keeps_now' [OF assms] keeps_logged_act [OF assms] keeps_recordEvent [OF assms] revert_enabled)
  show "keeps (did latches_first) (revertUnsubmitted (here sc) la i)"
    by (rule keeps_did_revert) (auto intro: balanced_free)
qed

lemma wkeep_mark:
  assumes "stable exec K" and "fst ` set fs \<subseteq> set (laMarks la)"
  shows "keeps (works d0 K) (logged_act exec sc (FillMark i fs) (mark_row i fs))"
  by (intro follows_both keeps_logged_act [OF assms(1)] mark_enabled assms(2) keeps_did_logged_act) (auto intro: balanced_free)

lemma wkeep_transition:
  assumes "stable exec K"
    and "laPhase la \<in> fst ` set fs \<Longrightarrow> t = laFilling la \<and> map_of fs (laPhase la) = Some (SText ''selecting'')"
  shows "keeps (works d0 K) (transition (here sc) i s t fs)"
proof (rule follows_both)
  show "keeps (tracks exec d0 K) (transition (here sc) i s t fs)"
    by (rule keeps_transition [OF assms(1)]) (use assms(2) in simp)
  show "keeps (did latches_first) (transition (here sc) i s t fs)" by (rule keeps_did_transition) auto
qed

lemma wkeep_fail:
  assumes "stable exec K" and "laPhase la \<noteq> shFailure sh"
  shows "keeps (works d0 K) (failFill (here sc) i s reason)"
  unfolding failFill_def failRow_def Let_def store.simps
  by (intro keep wkeep_transition [OF assms(1)]) (use assms(2) in auto)

lemma wkeep_find: "stable exec K \<Longrightarrow> keeps (works d0 K) (findRow (here sc) i)"
  unfolding findRow_def store.simps by (rule fkeep_read)

lemma wkeep_insert:
  assumes K: "stable exec K" and r: "rwState r = shStart sh" "rwCols r (laPhase la) = SNull" "\<And>d. \<not> conflict r d \<Longrightarrow> fresh r d"
  shows "keeps (works d0 K) (insertFill (here sc) conflict r)"
proof (rule follows_both)
  let ?f = "\<lambda>d. if conflict r d \<or> rwId r \<in> rwId ` set (dbRows d) then ([], Inl (UniqueConstraint ''UNIQUE constraint failed''), d)
    else ([FSt (Insert r)], Inr (), d\<lparr>dbRows := dbRows d @ [r]\<rparr>)"
  have "tracks exec d0 K (w\<lparr>wDb := db, wLog := wLog w @ map Own acts\<rparr>)"
    if w: "tracks exec d0 K w" and f: "?f (wDb w) = (acts, x, db)" for w acts x db
  proof (cases "conflict r (wDb w) \<or> rwId r \<in> rwId ` set (dbRows (wDb w))")
    case True
    then show ?thesis using w f by auto
  next
    case False
    then have "exec (FSt (Insert r)) (wDb w) = Some db" "acts = [FSt (Insert r)]" using f r by auto
    then show ?thesis using tracks_own [OF K w] by simp
  qed
  then have "keeps (tracks exec d0 K) (write_db exec sc ?f)"
    by (intro interference.keeps_write [OF tracks_interference [OF K]])
  then show "keeps (tracks exec d0 K) (insertFill (here sc) conflict r)"
    unfolding insertFill_def findRow_def store.simps
    by (intro keep keeps_recordEvent [OF K] keeps_read' [OF K])
  show "keeps (did latches_first) (insertFill (here sc) conflict r)" by (rule keeps_did_insertFill) auto
qed

text \<open>The latch and the submission it gates.\<close>

lemma spec_markSubmitting:
  assumes K: "stable exec K"
  shows "spec (works d0 K) (markSubmitting (here sc) la i)
    (\<lambda>r w. tracks exec d0 K w \<and> (if r = Inr True then latched_in i (wDb w) \<and> did (holds_latch i) w else did latches_first w))"
proof -
  let ?Q = "\<lambda>r w. tracks exec d0 K w \<and> (if r = Inr True then latched_in i (wDb w) \<and> did (holds_latch i) w else did latches_first w)"
  let ?go = "\<lambda>tm. logged_act exec sc (MarkSubmitting i tm) (latch_row la i tm)"
  have go: "spec (works d0 K) (?go tm)
      (\<lambda>r w. (tracks exec d0 K w \<and> (\<forall>n. r = Inr n \<longrightarrow> n \<le> 1 \<and> (n = 1 \<longrightarrow> latched_in i (wDb w)))) \<and>
        (case r of Inr n \<Rightarrow> did (if n = 0 then latches_first else holds_latch i) w | Inl _ \<Rightarrow> did latches_first w))" for tm
    unfolding follows_def [abs_def]
    by (intro spec_conj spec_logged_act [OF K latch_enabled mark_latches] spec_did_logged_act balanced_mark)
  have "spec (works d0 K) (bnd (?go tm) (\<lambda>changes. ret (changes = 1))) ?Q" for tm
    by (rule spec_bnd [OF go]) (auto simp: spec_def ret_def le_Suc_eq)
  then show ?thesis unfolding markSubmitting_def store.simps
    by (intro spec_bnd [OF fkeep_now [OF K]]) (auto simp: follows_def)
qed

lemma wkeep_submit:
  assumes K: "stable exec K" and terms: "\<And>d. K d \<Longrightarrow> terms_in i want wantAsset offerAsset held d"
  shows "keeps (works d0 K) (bnd (markSubmitting (here sc) la i) (\<lambda>won.
    if \<not> won then throw e else perform exec sc (SubmitFill i want wantAsset offerAsset held) f))"
proof (rule spec_bnd [OF spec_markSubmitting [OF K]])
  fix won
  let ?a = "SubmitFill i want wantAsset offerAsset held"
  have KL: "stable exec (\<lambda>d. K d \<and> latched_in i d)" by (intro stable_conj K stable_latched)
  have "spec (\<lambda>w. tracks exec d0 (\<lambda>d. K d \<and> latched_in i d) w \<and> did (holds_latch i) w) (perform exec sc ?a f)
      (\<lambda>_ w. tracks exec d0 (\<lambda>d. K d \<and> latched_in i d) w \<and> did latches_first w)"
    by (intro spec_conj keeps_perform' [OF KL] latched_submit spec_did_perform)
      (auto intro: holds_submit holds_balanced terms)
  then have "spec (\<lambda>w. tracks exec d0 K w \<and> latched_in i (wDb w) \<and> did (holds_latch i) w) (perform exec sc ?a f)
      (\<lambda>_. works d0 K)"
    by (rule spec_weaken) (auto simp: tracks_conj follows_def)
  then show "spec (\<lambda>w. tracks exec d0 K w \<and> (if Inr won = (Inr True :: exn + bool) then latched_in i (wDb w) \<and> did (holds_latch i) w
      else did latches_first w)) (if \<not> won then throw e else perform exec sc ?a f) (\<lambda>_. works d0 K)"
    by (cases won) (auto simp: spec_def throw_def follows_def)
qed (auto simp: follows_def)

end

context fill_table
begin

section \<open>The indexes hold\<close>

text \<open>
  SQLite checks a unique index on every statement; here only the insert checks it, and no other action can break it: the
  indexed columns are fixed, and no row enters the indexed states from outside them.
\<close>

lemma fill_row_origin:
  assumes "exec a d = Some d'" and "ids_distinct d" and "row_of d' i = Some r'" and "set cs \<inter> writable = {}"
    and "\<And>s t. steps_to s t \<Longrightarrow> t \<in> live \<Longrightarrow> s \<in> live"
  obtains (old) r where "row_of d i = Some r" "map (rwCols r) cs = map (rwCols r') cs" "rwState r' \<in> live \<Longrightarrow> rwState r \<in> live"
    | (new) "a = FSt (Insert r')" "rwId r' = i"
proof (cases "row_of d i")
  case (Some r)
  then obtain q where "row_of d' i = Some q" "\<forall>c. c \<notin> writable \<longrightarrow> rwCols q c = rwCols r c" "steps_to (rwState r) (rwState q)"
    using fill_row_step [OF assms(1) _ assms(2)] by blast
  with old [OF Some] assms(3-5) show ?thesis by (auto simp: disjoint_iff)
next
  case None
  have "map rwId (dbRows d') = map rwId (dbRows d)" if "\<forall>b. a \<noteq> FSt b"
    using assms(1) that by (cases a) (auto simp: latch_defs update_rows_ids split: if_splits option.splits)
  moreover have "i \<in> set (map rwId (dbRows d'))" "i \<notin> set (map rwId (dbRows d))"
    using row_of_Some [OF assms(3)] None row_of_None [of d i] by auto
  ultimately obtain b where "a = FSt b" by metis
  then show ?thesis using store_row_back [of sh "fill_ok la fresh" b d d' i r'] assms(1,3) None new by auto
qed

lemma keeps_unique:
  assumes step: "exec a d = Some d'" and d: "ids_distinct d" "unique_in cs live d" and cs: "set cs \<inter> writable = {}"
    and live: "\<And>s t. steps_to s t \<Longrightarrow> t \<in> live \<Longrightarrow> s \<in> live"
    and new: "\<And>q i r. fresh q d \<Longrightarrow> row_of d i = Some r \<Longrightarrow> map (rwCols r) cs = map (rwCols q) cs \<Longrightarrow> rwState r \<notin> live"
  shows "unique_in cs live d'"
  unfolding unique_in_def
proof (intro allI impI)
  fix i j r q
  assume r: "row_of d' i = Some r" and q: "row_of d' j = Some q"
    and k: "map (rwCols r) cs = map (rwCols q) cs" and rl: "rwState r \<in> live" and ql: "rwState q \<in> live"
  have inserted: "fresh x d" if "a = FSt (Insert x)" for x using step that by (auto split: if_splits)
  have origin: "(\<exists>x0. row_of d k = Some x0 \<and> map (rwCols x0) cs = map (rwCols x) cs \<and> (rwState x \<in> live \<longrightarrow> rwState x0 \<in> live)) \<or>
      (a = FSt (Insert x) \<and> rwId x = k)" if x: "row_of d' k = Some x" for k x
    by (rule fill_row_origin [where live = live, OF step d(1) x cs]) (use live in blast)+
  show "i = j" using origin [OF r] origin [OF q]
  proof (elim disjE exE conjE)
    fix r0 q0
    assume "row_of d i = Some r0" "map (rwCols r0) cs = map (rwCols r) cs" "rwState r \<in> live \<longrightarrow> rwState r0 \<in> live"
      "row_of d j = Some q0" "map (rwCols q0) cs = map (rwCols q) cs" "rwState q \<in> live \<longrightarrow> rwState q0 \<in> live"
    with d(2) k rl ql show "i = j" unfolding unique_in_def by metis
  next
    fix r0
    assume "row_of d i = Some r0" "map (rwCols r0) cs = map (rwCols r) cs" "rwState r \<in> live \<longrightarrow> rwState r0 \<in> live"
      "a = FSt (Insert q)"
    then show "i = j" using new [OF inserted] k rl by auto
  next
    fix q0
    assume "a = FSt (Insert r)" "row_of d j = Some q0" "map (rwCols q0) cs = map (rwCols q) cs" "rwState q \<in> live \<longrightarrow> rwState q0 \<in> live"
    then show "i = j" using new [OF inserted] k ql by auto
  qed auto
qed

end

context fill_table
begin

abbreviation rows_typed :: "('s, 'c) db \<Rightarrow> bool" where
  "rows_typed d \<equiv> \<forall>i r. row_of d i = Some r \<longrightarrow> typed_terms la r"

lemma fresh_insert: "exec (FSt (Insert r)) d = Some d' \<Longrightarrow> fresh r d"
  by (auto split: if_splits)

lemma stable_typed: "stable exec rows_typed"
  unfolding stable_def
proof (intro allI impI)
  fix a d d' i r'
  assume typed: "rows_typed d" and d: "ids_distinct d" and a: "exec a d = Some d'" and r': "row_of d' i = Some r'"
  let ?cs = "[laWant la, laWantAsset la, laOfferAsset la, laDeposit la]"
  have cs: "set ?cs \<inter> writable = {}" using terms_fixed by auto
  show "typed_terms la r'"
  proof (rule fill_row_origin [where live = UNIV, OF a d r' cs])
    fix r
    assume "row_of d i = Some r" "map (rwCols r) ?cs = map (rwCols r') ?cs"
    moreover from this(1) typed have "typed_terms la r" by blast
    ultimately show ?thesis by (simp add: typed_terms_def)
  next
    assume "a = FSt (Insert r')"
    then show ?thesis using fresh_insert a fresh_typed by blast
  qed simp
qed

text \<open>A row that was read is one whose terms are known from then on.\<close>

lemma spec_find:
  assumes "stable exec K" and "\<And>d r. K d \<Longrightarrow> ids_distinct d \<Longrightarrow> row_of d i = Some r \<Longrightarrow> L r d"
  shows "spec (works d0 K) (findRow (here sc) i) (\<lambda>res w. works d0 K w \<and> (\<forall>x. res = Inr x \<longrightarrow> (\<forall>r. x = Some r \<longrightarrow> L r (wDb w))))"
  unfolding findRow_def store.simps
  by (rule interference.spec_read [OF follows_interference [OF assms(1)]])
    (use assms(2) in \<open>auto simp: follows_def tracks_def\<close>)

lemma spec_getFill:
  assumes "stable exec K" and "\<And>d r. K d \<Longrightarrow> ids_distinct d \<Longrightarrow> row_of d i = Some r \<Longrightarrow> L r d"
  shows "spec (works d0 K) (getRow (here sc) i) (\<lambda>res w. works d0 K w \<and> (\<forall>r. res = Inr r \<longrightarrow> L r (wDb w)))"
  unfolding getRow_def store.simps
  by (rule interference.spec_read [OF follows_interference [OF assms(1)]])
    (use assms(2) in \<open>auto simp: follows_def tracks_def split: option.splits\<close>)

lemma wkeep_learn:
  assumes "spec (works d0 K) m (\<lambda>r w. works d0 K w \<and> (\<forall>x. r = Inr x \<longrightarrow> L x (wDb w)))"
    and "\<And>x. keeps (works d0 (\<lambda>d. K d \<and> L x d)) (f x)"
  shows "keeps (works d0 K) (bnd m f)"
  using assms(1) follows_conj assms(2) by (rule keeps_knowing)

end

end
