(* ===== verification/Asset_Rfq.thy ===== *)
theory Asset_Rfq
  imports Prelude Effects
begin

text \<open>
  \<^verbatim>\<open>solver-core/src/core/assetRfq.ts\<close> with its helpers \<^verbatim>\<open>priceFeed.ts\<close>, \<^verbatim>\<open>assetExactInPrice.ts\<close>, \<^verbatim>\<open>assetOfferPrice.ts\<close>
  and \<^verbatim>\<open>assetOffer.ts\<close>: exact prices between an Arkade asset and sats, the quote of both sides, and the gates that decide
  whether a deposit is filled. Amounts are JavaScript bigints, so \<open>int\<close>; a bigint division truncates and throws on zero,
  a power throws on a negative exponent.
\<close>

section \<open>Bigints\<close>

definition big_div :: "int \<Rightarrow> int \<Rightarrow> exn + int" where
  "big_div a b = (if b = 0 then Inl (Thrown ''RangeError: Division by zero'') else Inr (sgn a * sgn b * (\<bar>a\<bar> div \<bar>b\<bar>)))"

definition pow10 :: "int \<Rightarrow> exn + int" where
  "pow10 n = (if n < 0 then Inl (Thrown ''RangeError: Exponent must be non-negative'') else Inr (10 ^ nat n))"

lemma pow10_ok [simp]: "0 \<le> n \<Longrightarrow> pow10 n = Inr (10 ^ nat n)"
  by (simp add: pow10_def)

lemma big_div_ok [simp]: "0 \<le> a \<Longrightarrow> 0 < b \<Longrightarrow> big_div a b = Inr (a div b)"
  by (cases "a = 0") (simp_all add: big_div_def)

section \<open>The price feed\<close>

record Price =
  pxMantissa :: int
  pxScale :: int

datatype Rounding = Round_down | Round_up

definition MAX_DECIMALS :: int where
  "MAX_DECIMALS = 36"

definition decimals_ok :: "int \<Rightarrow> bool" where
  "decimals_ok n \<longleftrightarrow> 0 \<le> n \<and> n \<le> MAX_DECIMALS"

definition checkDecimals :: "int \<Rightarrow> int \<Rightarrow> exn + unit" where
  "checkDecimals baseDecimals quoteDecimals =
     and_then (refuse_if (\<not> decimals_ok baseDecimals) (Thrown ''baseDecimals must be an integer in 0..36''))
     (\<lambda>_. refuse_if (\<not> decimals_ok quoteDecimals) (Thrown ''quoteDecimals must be an integer in 0..36''))"

definition is_decimal_digit :: "char \<Rightarrow> bool" where
  "is_decimal_digit c \<longleftrightarrow> c \<in> set ''0123456789''"

definition digit_value :: "char \<Rightarrow> int" where
  "digit_value c = int (of_char c) - 48"

definition digits_value :: "string \<Rightarrow> int" where
  "digits_value s = foldl (\<lambda>n c. 10 * n + digit_value c) 0 s"

text \<open>\<open>/^(\d+)(?:\.(\d+))?$/\<close> on the trimmed text of the feed's value.\<close>

definition decimal_parts :: "string \<Rightarrow> (string \<times> string) option" where
  "decimal_parts s =
     (let whole = takeWhile is_decimal_digit s; rest = dropWhile is_decimal_digit s in
      if whole = [] then None
      else case rest of
        [] \<Rightarrow> Some (whole, [])
      | c # fraction \<Rightarrow>
          if c = CHR ''.'' \<and> fraction \<noteq> [] \<and> list_all is_decimal_digit fraction then Some (whole, fraction) else None)"

definition priceFrom :: "string \<Rightarrow> exn + Price" where
  "priceFrom s =
     (case decimal_parts s of
        None \<Rightarrow> Inl (Thrown ''price must be a plain decimal'')
      | Some (whole, fraction) \<Rightarrow>
          let mantissa = digits_value (whole @ fraction) in
          if mantissa \<le> 0 then Inl (Thrown ''price must be positive'')
          else Inr \<lparr>pxMantissa = mantissa, pxScale = int (length fraction)\<rparr>)"

text \<open>\<open>numerator % denominator\<close> is zero exactly when the denominator divides, whatever the signs.\<close>

definition divRound :: "int \<Rightarrow> int \<Rightarrow> Rounding \<Rightarrow> exn + int" where
  "divRound numerator denominator rounding =
     and_then (big_div numerator denominator) (\<lambda>quotient.
     Inr (if rounding = Round_up \<and> \<not> denominator dvd numerator then quotient + 1 else quotient))"

record Conversion =
  cvPrice :: Price
  cvBaseDecimals :: int
  cvQuoteDecimals :: int

definition convertAmount :: "Conversion \<Rightarrow> int \<Rightarrow> Rounding \<Rightarrow> exn + int" where
  "convertAmount cv baseAmount rounding =
     and_then (refuse_if (baseAmount < 0) (Thrown ''baseAmount must not be negative'')) (\<lambda>_.
     and_then (checkDecimals (cvBaseDecimals cv) (cvQuoteDecimals cv)) (\<lambda>_.
     and_then (pow10 (cvQuoteDecimals cv)) (\<lambda>quoteUnit.
     and_then (pow10 (pxScale (cvPrice cv))) (\<lambda>scale.
     and_then (pow10 (cvBaseDecimals cv)) (\<lambda>baseUnit.
     divRound (baseAmount * pxMantissa (cvPrice cv) * quoteUnit) (scale * baseUnit) rounding)))))"

definition convertQuoteToBase :: "Conversion \<Rightarrow> int \<Rightarrow> Rounding \<Rightarrow> exn + int" where
  "convertQuoteToBase cv quoteAmount rounding =
     and_then (refuse_if (quoteAmount < 0) (Thrown ''quoteAmount must not be negative'')) (\<lambda>_.
     and_then (checkDecimals (cvBaseDecimals cv) (cvQuoteDecimals cv)) (\<lambda>_.
     and_then (pow10 (pxScale (cvPrice cv))) (\<lambda>scale.
     and_then (pow10 (cvBaseDecimals cv)) (\<lambda>baseUnit.
     and_then (pow10 (cvQuoteDecimals cv)) (\<lambda>quoteUnit.
     divRound (quoteAmount * scale * baseUnit) (pxMantissa (cvPrice cv) * quoteUnit) rounding)))))"

section \<open>Exact in and exact out\<close>

definition BPS :: int where
  "BPS = 10000"

record AssetRate =
  raGivesBase :: bool
  raBaseDecimals :: int
  raQuoteDecimals :: int
  raFeeBps :: int
  raToleranceBps :: int
  raFeed :: Price

definition assetExactInPayout :: "AssetRate \<Rightarrow> int \<Rightarrow> exn + int" where
  "assetExactInPayout ra netInput =
     and_then (pow10 (pxScale (raFeed ra))) (\<lambda>scale.
     and_then (pow10 (raBaseDecimals ra)) (\<lambda>baseUnit.
     and_then (pow10 (raQuoteDecimals ra)) (\<lambda>quoteUnit.
     and_then (if raGivesBase ra
               then big_div (netInput * pxMantissa (raFeed ra) * (BPS + raToleranceBps ra) * quoteUnit) (baseUnit * scale * BPS)
               else big_div (netInput * baseUnit * scale * BPS) (quoteUnit * pxMantissa (raFeed ra) * (BPS - raToleranceBps ra))) (\<lambda>mid.
     and_then (big_div (mid * raFeeBps ra + BPS - 1) BPS) (\<lambda>fee.
     Inr (mid - fee))))))"

text \<open>The doubling loop of at most \<open>fuel\<close> rounds, and the bisection between \<open>lo\<close> and \<open>hi\<close>.\<close>

fun double_until :: "(int \<Rightarrow> exn + bool) \<Rightarrow> nat \<Rightarrow> int \<Rightarrow> exn + int" where
  "double_until reaches 0 hi = Inr hi"
| "double_until reaches (Suc fuel) hi =
     and_then (reaches hi) (\<lambda>yes. if yes then Inr hi else double_until reaches fuel (hi * 2))"

function bisect :: "(int \<Rightarrow> exn + bool) \<Rightarrow> int \<Rightarrow> int \<Rightarrow> exn + int" where
  "bisect reaches lo hi =
     (if lo < hi
      then let mid = (lo + hi) div 2 in
        (case reaches mid of
           Inl e \<Rightarrow> Inl e
         | Inr True \<Rightarrow> bisect reaches lo mid
         | Inr False \<Rightarrow> bisect reaches (mid + 1) hi)
      else Inr lo)"
  by pat_completeness auto
termination by (relation "measure (\<lambda>(_, lo, hi). nat (hi - lo))") auto

declare bisect.simps [simp del]

definition assetExactOutInput :: "AssetRate \<Rightarrow> int \<Rightarrow> exn + int option" where
  "assetExactOutInput ra payout =
     (if payout \<le> 0 then Inr None
      else
        let reaches = (\<lambda>netInput. and_then (assetExactInPayout ra netInput) (\<lambda>p. Inr (p \<ge> payout))) in
        and_then (double_until reaches 256 1) (\<lambda>hi.
        and_then (reaches hi) (\<lambda>yes.
        if \<not> yes then Inr None
        else and_then (bisect reaches 1 hi) (\<lambda>lo. Inr (Some lo)))))"

section \<open>Pairs\<close>

text \<open>A leg is an asset id of 68 lower-case hex digits, or sats (\<open>None\<close>).\<close>

type_synonym AssetLeg = "string option"

record AssetPair =
  apFrom :: AssetLeg
  apTo :: AssetLeg

definition ASSET_ID_HEX :: "string \<Rightarrow> bool" where
  "ASSET_ID_HEX s \<longleftrightarrow> length s = 68 \<and> list_all (\<lambda>c. c \<in> set ''0123456789abcdef'') s"

definition is_alnum :: "char \<Rightarrow> bool" where
  "is_alnum c \<longleftrightarrow> c \<in> set ''ABCDEFGHIJKLMNOPQRSTUVWXYZabcdefghijklmnopqrstuvwxyz0123456789''"

definition legOf :: "string \<Rightarrow> AssetLeg option" where
  "legOf ticker = (if ticker = ''BTC'' then Some None else if ASSET_ID_HEX ticker then Some (Some ticker) else None)"

fun strip_prefix :: "string \<Rightarrow> string \<Rightarrow> string option" where
  "strip_prefix [] s = Some s"
| "strip_prefix (c # cs) [] = None"
| "strip_prefix (c # cs) (d # ds) = (if c = d then strip_prefix cs ds else None)"

text \<open>\<open>/^arkade:([A-Za-z0-9]+)->arkade:([A-Za-z0-9]+)$/\<close>; no alphanumeric run can be split in two ways.\<close>

definition ARKADE_PAIR :: "string \<Rightarrow> (string \<times> string) option" where
  "ARKADE_PAIR pair =
     (case strip_prefix ''arkade:'' pair of
        None \<Rightarrow> None
      | Some s \<Rightarrow>
          let from = takeWhile is_alnum s in
          case strip_prefix ''->arkade:'' (dropWhile is_alnum s) of
            None \<Rightarrow> None
          | Some to \<Rightarrow> if from \<noteq> [] \<and> to \<noteq> [] \<and> list_all is_alnum to then Some (from, to) else None)"

definition parseAssetPair :: "string \<Rightarrow> AssetPair option" where
  "parseAssetPair pair =
     (case ARKADE_PAIR pair of
        None \<Rightarrow> None
      | Some (a, b) \<Rightarrow>
          (case (legOf a, legOf b) of
             (Some from, Some to) \<Rightarrow>
               if (from = None) = (to = None) then None else Some \<lparr>apFrom = from, apTo = to\<rparr>
           | _ \<Rightarrow> None))"

definition leg_ticker :: "AssetLeg \<Rightarrow> string" where
  "leg_ticker leg = (case leg of None \<Rightarrow> ''BTC'' | Some a \<Rightarrow> a)"

definition assetRfqPairFor :: "AssetLeg \<Rightarrow> AssetLeg \<Rightarrow> string" where
  "assetRfqPairFor from to = ''arkade:'' @ leg_ticker from @ ''->arkade:'' @ leg_ticker to"

section \<open>Quoting\<close>

record AssetQuoteMarket =
  amBase :: AssetLeg
  amQuote :: AssetLeg
  amBaseDecimals :: int
  amQuoteDecimals :: int
  amFeeBps :: int
  amSellBaseFeeBps :: "int option"
  amBuyBaseFeeBps :: "int option"
  amSellBaseFeeFlat :: "int option"
  amBuyBaseFeeFlat :: "int option"
  amMinPayout :: int
  amMaxPayout :: int

datatype AssetQuoteRefusal = Aq_unsupported_pair | Aq_price_unavailable | Aq_fee_consumes_swap | Aq_amount_out_of_range

definition assetQuoteGivesBase :: "AssetPair \<Rightarrow> 'z AssetQuoteMarket_scheme \<Rightarrow> bool option" where
  "assetQuoteGivesBase pair market =
     (if apFrom pair = amBase market \<and> apTo pair = amQuote market then Some True
      else if apFrom pair = amQuote market \<and> apTo pair = amBase market then Some False
      else None)"

definition assetFlatFeeFor :: "bool \<Rightarrow> 'z AssetQuoteMarket_scheme \<Rightarrow> int" where
  "assetFlatFeeFor givesBase market =
     (case (if givesBase then amSellBaseFeeFlat market else amBuyBaseFeeFlat market) of None \<Rightarrow> 0 | Some f \<Rightarrow> f)"

definition assetFeeBpsFor :: "bool \<Rightarrow> 'z AssetQuoteMarket_scheme \<Rightarrow> int" where
  "assetFeeBpsFor givesBase market =
     (case (if givesBase then amSellBaseFeeBps market else amBuyBaseFeeBps market) of None \<Rightarrow> amFeeBps market | Some f \<Rightarrow> f)"

record CarrierLegs =
  clCharged :: int
  clReturned :: int

definition carrierLegs :: "AssetPair \<Rightarrow> int \<Rightarrow> CarrierLegs" where
  "carrierLegs pair carrierSats =
     (let clientFronts = (apFrom pair \<noteq> None); solverDelivers = (apTo pair \<noteq> None) in
      \<lparr>clCharged = (if solverDelivers \<and> \<not> clientFronts then carrierSats else 0),
       clReturned = (if clientFronts \<and> \<not> solverDelivers then carrierSats else 0)\<rparr>)"

record FlatParts =
  fpFlatFee :: int
  fpFrom :: int
  fpTo :: int

definition flatPartsOf :: "AssetPair \<Rightarrow> 'z AssetQuoteMarket_scheme \<Rightarrow> bool \<Rightarrow> int \<Rightarrow> FlatParts" where
  "flatPartsOf pair market givesBase carrierSats =
     (let flatFee = assetFlatFeeFor givesBase market; legs = carrierLegs pair carrierSats in
      \<lparr>fpFlatFee = flatFee, fpFrom = flatFee + clCharged legs, fpTo = clReturned legs\<rparr>)"

datatype AmountSide = Side_from | Side_to

record AssetQuoteArgs =
  aaPair :: AssetPair
  aaAmount :: int
  aaSide :: AmountSide
  aaMarket :: AssetQuoteMarket
  aaFeed :: Price
  aaCarrierSats :: int
  aaDustSats :: int

text \<open>An outcome is a refusal or the two amounts; the outer sum is an exception of the bigint arithmetic.\<close>

definition resolve_to :: "AssetQuoteArgs \<Rightarrow> AssetRate \<Rightarrow> FlatParts \<Rightarrow> exn + (AssetQuoteRefusal + int \<times> int)" where
  "resolve_to aa ra flat =
     (let market = aaMarket aa; wanted = aaAmount aa - fpTo flat in
      if wanted \<le> 0 then Inr (Inl Aq_fee_consumes_swap)
      else if wanted < amMinPayout market \<or> wanted > amMaxPayout market then Inr (Inl Aq_amount_out_of_range)
      else and_then (assetExactOutInput ra wanted) (\<lambda>netInput.
        case netInput of
          None \<Rightarrow> Inr (Inl Aq_price_unavailable)
        | Some net \<Rightarrow>
            if apTo (aaPair aa) = None \<and> aaAmount aa < aaDustSats aa then Inr (Inl Aq_amount_out_of_range)
            else Inr (Inr (net + fpFrom flat, aaAmount aa))))"

definition resolve_from :: "AssetQuoteArgs \<Rightarrow> AssetRate \<Rightarrow> FlatParts \<Rightarrow> exn + (AssetQuoteRefusal + int \<times> int)" where
  "resolve_from aa ra flat =
     (let market = aaMarket aa; netAmount = aaAmount aa - fpFrom flat in
      if netAmount \<le> 0 then Inr (Inl Aq_fee_consumes_swap)
      else and_then (assetExactInPayout ra netAmount) (\<lambda>payout.
        if payout \<le> 0 then Inr (Inl Aq_fee_consumes_swap)
        else if payout < amMinPayout market \<or> payout > amMaxPayout market then Inr (Inl Aq_amount_out_of_range)
        else let toAmount = payout + fpTo flat in
          if apTo (aaPair aa) = None \<and> toAmount < aaDustSats aa then Inr (Inl Aq_amount_out_of_range)
          else Inr (Inr (aaAmount aa, toAmount))))"

definition quote_rate :: "AssetQuoteArgs \<Rightarrow> bool \<Rightarrow> AssetRate" where
  "quote_rate aa givesBase =
     \<lparr>raGivesBase = givesBase, raBaseDecimals = amBaseDecimals (aaMarket aa), raQuoteDecimals = amQuoteDecimals (aaMarket aa),
      raFeeBps = assetFeeBpsFor givesBase (aaMarket aa), raToleranceBps = 0, raFeed = aaFeed aa\<rparr>"

definition resolveAssetQuote :: "AssetQuoteArgs \<Rightarrow> exn + (AssetQuoteRefusal + int \<times> int)" where
  "resolveAssetQuote aa =
     (let market = aaMarket aa in
      case assetQuoteGivesBase (aaPair aa) market of
        None \<Rightarrow> Inr (Inl Aq_unsupported_pair)
      | Some givesBase \<Rightarrow>
          if pxMantissa (aaFeed aa) \<le> 0 then Inr (Inl Aq_price_unavailable)
          else if amFeeBps market < 0 \<or> amFeeBps market \<ge> 10000 then Inr (Inl Aq_price_unavailable)
          else if aaAmount aa \<le> 0 then Inr (Inl Aq_amount_out_of_range)
          else if aaCarrierSats aa < 0 \<or> aaDustSats aa < 0 then Inr (Inl Aq_price_unavailable)
          else
            let flat = flatPartsOf (aaPair aa) market givesBase (aaCarrierSats aa);
                feeBps = assetFeeBpsFor givesBase market;
                ra = quote_rate aa givesBase in
            if fpFlatFee flat < 0 then Inr (Inl Aq_price_unavailable)
            else if feeBps < 0 \<or> feeBps \<ge> 10000 then Inr (Inl Aq_price_unavailable)
            else case aaSide aa of Side_to \<Rightarrow> resolve_to aa ra flat | Side_from \<Rightarrow> resolve_from aa ra flat)"

definition IMPLIED_PRICE_HEADROOM :: int where
  "IMPLIED_PRICE_HEADROOM = 12"

record ImpliedArgs =
  iaFromAmount :: int
  iaToAmount :: int
  iaGivesBase :: bool
  iaBaseDecimals :: int
  iaQuoteDecimals :: int
  iaScale :: int

definition impliedQuotePrice :: "ImpliedArgs \<Rightarrow> exn + Price option" where
  "impliedQuotePrice ia =
     (let baseAtomic = (if iaGivesBase ia then iaFromAmount ia else iaToAmount ia);
          quoteAtomic = (if iaGivesBase ia then iaToAmount ia else iaFromAmount ia) in
      if baseAtomic \<le> 0 \<or> quoteAtomic \<le> 0 \<or> iaScale ia < 0 then Inr None
      else
        let scale = iaScale ia + IMPLIED_PRICE_HEADROOM in
        and_then (pow10 (iaBaseDecimals ia)) (\<lambda>baseUnit.
        and_then (pow10 scale) (\<lambda>unit.
        and_then (pow10 (iaQuoteDecimals ia)) (\<lambda>quoteUnit.
        and_then (big_div (quoteAtomic * baseUnit * unit) (baseAtomic * quoteUnit)) (\<lambda>mantissa.
        Inr (if mantissa > 0 then Some \<lparr>pxMantissa = mantissa, pxScale = scale\<rparr> else None))))))"

definition struckQuotePrice :: "AssetPair \<Rightarrow> 'z AssetQuoteMarket_scheme \<Rightarrow> int \<Rightarrow> bool \<Rightarrow> int \<Rightarrow> int \<Rightarrow> int \<Rightarrow> exn + Price option" where
  "struckQuotePrice pair market carrierSats givesBase scale fromAmount toAmount =
     (let flat = flatPartsOf pair market givesBase carrierSats in
      impliedQuotePrice \<lparr>iaFromAmount = fromAmount - fpFrom flat, iaToAmount = toAmount - fpTo flat, iaGivesBase = givesBase,
        iaBaseDecimals = amBaseDecimals market, iaQuoteDecimals = amQuoteDecimals market, iaScale = scale\<rparr>)"

section \<open>Filling\<close>

datatype AssetFillRefusal = Af_quote_expired | Af_deposit_short | Af_insufficient_inventory

record AssetFillInput =
  afToAmount :: int
  afToAssetId :: AssetLeg
  afFromAmount :: int
  afDepositedAmount :: int
  afAvailable :: "AssetLeg \<Rightarrow> int option"
  afNow :: int
  afValidUntil :: int

definition evaluateAssetFill :: "AssetFillInput \<Rightarrow> AssetFillRefusal + unit" where
  "evaluateAssetFill f =
     and_then (refuse_if (afNow f > afValidUntil f) Af_quote_expired) (\<lambda>_.
     and_then (refuse_if (afDepositedAmount f < afFromAmount f) Af_deposit_short) (\<lambda>_.
     refuse_if ((case afAvailable f (afToAssetId f) of None \<Rightarrow> 0 | Some held \<Rightarrow> held) < afToAmount f) Af_insufficient_inventory))"

section \<open>Published offers\<close>

datatype OfferDirection = Sell_base | Buy_base

record OfferPriceMarket =
  omBaseDecimals :: int
  omQuoteDecimals :: int
  omToleranceBps :: int
  omFeeBps :: int
  omSellBaseFeeBps :: "int option"
  omBuyBaseFeeBps :: "int option"
  omSellBaseFeeFlat :: "int option"
  omBuyBaseFeeFlat :: "int option"

record OfferPriceArgs =
  ooDepositAmount :: int
  ooWantAmount :: int
  ooDirection :: OfferDirection
  ooMarket :: OfferPriceMarket
  ooFeed :: Price
  ooCarrierCharged :: int
  ooCarrierReturned :: int

definition offerWithinTolerance :: "OfferPriceArgs \<Rightarrow> exn + bool" where
  "offerWithinTolerance oo =
     (let market = ooMarket oo; sells = (ooDirection oo = Sell_base) in
      if ooCarrierCharged oo < 0 \<or> ooCarrierReturned oo < 0 then Inr False
      else if ooDepositAmount oo \<le> 0 \<or> ooWantAmount oo \<le> 0 then Inr False
      else if pxMantissa (ooFeed oo) \<le> 0 then Inr False
      else if omToleranceBps market < 0 \<or> omToleranceBps market \<ge> BPS then Inr False
      else
        let feeBps = (case (if sells then omSellBaseFeeBps market else omBuyBaseFeeBps market) of None \<Rightarrow> omFeeBps market | Some f \<Rightarrow> f);
            flatFee = (case (if sells then omSellBaseFeeFlat market else omBuyBaseFeeFlat market) of None \<Rightarrow> 0 | Some f \<Rightarrow> f);
            netDeposit = ooDepositAmount oo - flatFee - ooCarrierCharged oo in
        if feeBps < 0 \<or> feeBps \<ge> BPS then Inr False
        else if flatFee < 0 then Inr False
        else if netDeposit \<le> 0 then Inr False
        else and_then (assetExactInPayout \<lparr>raGivesBase = sells, raBaseDecimals = omBaseDecimals market, raQuoteDecimals = omQuoteDecimals market,
                         raFeeBps = feeBps, raToleranceBps = omToleranceBps market, raFeed = ooFeed oo\<rparr> netDeposit) (\<lambda>payout.
          Inr (ooWantAmount oo \<le> payout + ooCarrierReturned oo)))"

definition offerDirectionOn :: "AssetLeg \<Rightarrow> AssetLeg \<Rightarrow> AssetLeg \<Rightarrow> AssetLeg \<Rightarrow> OfferDirection option" where
  "offerDirectionOn base quote depositAssetId wantAssetId =
     (if depositAssetId = base \<and> wantAssetId = quote then Some Sell_base
      else if depositAssetId = quote \<and> wantAssetId = base then Some Buy_base
      else None)"

record OfferFillInput =
  ofWantAssetId :: AssetLeg
  ofWantAmount :: int
  ofOfferAssetId :: AssetLeg
  ofOfferAmount :: int

record OfferFillPolicy =
  opMarkets :: "(AssetLeg \<times> AssetLeg) list"
  opAvailable :: "AssetLeg \<Rightarrow> int option"
  opMinFillAmount :: int
  opMaxFillAmount :: int

datatype OfferFillRefusal =
    Ofr_degenerate_pair | Ofr_unsupported_pair | Ofr_amount_out_of_range | Ofr_insufficient_inventory | Ofr_offer_unfunded
  | Ofr_price_out_of_tolerance | Ofr_offer_inconsistent

definition sameMarket :: "AssetLeg \<times> AssetLeg \<Rightarrow> AssetLeg \<Rightarrow> AssetLeg \<Rightarrow> bool" where
  "sameMarket market x y \<longleftrightarrow> fst market = x \<and> snd market = y \<or> fst market = y \<and> snd market = x"

definition evaluateOfferFill :: "OfferFillInput \<Rightarrow> OfferFillPolicy \<Rightarrow> OfferFillRefusal + unit" where
  "evaluateOfferFill off pol =
     and_then (refuse_if (ofWantAssetId off = ofOfferAssetId off) Ofr_degenerate_pair) (\<lambda>_.
     and_then (refuse_if (ofOfferAmount off \<le> 0) Ofr_offer_unfunded) (\<lambda>_.
     and_then (refuse_if (\<not> list_ex (\<lambda>m. sameMarket m (ofWantAssetId off) (ofOfferAssetId off)) (opMarkets pol)) Ofr_unsupported_pair) (\<lambda>_.
     and_then (refuse_if (ofWantAmount off < opMinFillAmount pol \<or> ofWantAmount off > opMaxFillAmount pol) Ofr_amount_out_of_range) (\<lambda>_.
     refuse_if ((case opAvailable pol (ofWantAssetId off) of None \<Rightarrow> 0 | Some held \<Rightarrow> held) < ofWantAmount off) Ofr_insufficient_inventory))))"

section \<open>The search is exact\<close>

text \<open>A rate the arithmetic never throws on: decimals and scale are powers, the price is positive, fee and tolerance are below one.\<close>

definition rate_ok :: "AssetRate \<Rightarrow> bool" where
  "rate_ok ra \<longleftrightarrow> 0 \<le> pxScale (raFeed ra) \<and> 0 \<le> raBaseDecimals ra \<and> 0 \<le> raQuoteDecimals ra \<and> 0 < pxMantissa (raFeed ra) \<and>
     0 \<le> raFeeBps ra \<and> raFeeBps ra < BPS \<and> 0 \<le> raToleranceBps ra \<and> raToleranceBps ra < BPS"

definition rate_num :: "AssetRate \<Rightarrow> int" where
  "rate_num ra = (if raGivesBase ra then pxMantissa (raFeed ra) * (BPS + raToleranceBps ra) * 10 ^ nat (raQuoteDecimals ra)
     else 10 ^ nat (raBaseDecimals ra) * 10 ^ nat (pxScale (raFeed ra)) * BPS)"

definition rate_den :: "AssetRate \<Rightarrow> int" where
  "rate_den ra = (if raGivesBase ra then 10 ^ nat (raBaseDecimals ra) * 10 ^ nat (pxScale (raFeed ra)) * BPS
     else 10 ^ nat (raQuoteDecimals ra) * pxMantissa (raFeed ra) * (BPS - raToleranceBps ra))"

definition less_fee :: "int \<Rightarrow> int \<Rightarrow> int" where
  "less_fee feeBps mid = mid - ceil_div (mid * feeBps) BPS"

definition payout_at :: "AssetRate \<Rightarrow> int \<Rightarrow> int" where
  "payout_at ra n = less_fee (raFeeBps ra) (n * rate_num ra div rate_den ra)"

lemma rate_positive: "rate_ok ra \<Longrightarrow> 0 < rate_num ra \<and> 0 < rate_den ra"
  by (auto simp: rate_ok_def rate_num_def rate_den_def BPS_def intro!: mult_pos_pos)

lemma ceil_div_bps: "(x + BPS - 1) div BPS = ceil_div x BPS"
proof (rule antisym)
  have b: "0 < BPS" by (simp add: BPS_def)
  have "x + BPS - 1 < (ceil_div x BPS + 1) * BPS" using ceil_div_ge [OF b, of x] by (simp add: algebra_simps)
  moreover have "(x + BPS - 1) div BPS * BPS \<le> x + BPS - 1"
    unfolding minus_mod_eq_div_mult [symmetric] using pos_mod_sign [OF b, of "x + BPS - 1"] by linarith
  ultimately have "(x + BPS - 1) div BPS * BPS < (ceil_div x BPS + 1) * BPS" by linarith
  then show "(x + BPS - 1) div BPS \<le> ceil_div x BPS" using b by simp
  have "x + BPS - 1 < ((x + BPS - 1) div BPS) * BPS + BPS" using b pos_mod_bound [of BPS "x + BPS - 1"] by (simp add: div_mult_mod_eq minus_mod_eq_div_mult [symmetric])
  then show "ceil_div x BPS \<le> (x + BPS - 1) div BPS" by (intro ceil_div_least [OF b]) linarith
qed

lemma exact_in_closed:
  assumes "rate_ok ra" and "0 \<le> n"
  shows "assetExactInPayout ra n = Inr (payout_at ra n)"
proof -
  have mid: "(if raGivesBase ra
      then big_div (n * pxMantissa (raFeed ra) * (BPS + raToleranceBps ra) * 10 ^ nat (raQuoteDecimals ra))
        (10 ^ nat (raBaseDecimals ra) * 10 ^ nat (pxScale (raFeed ra)) * BPS)
      else big_div (n * 10 ^ nat (raBaseDecimals ra) * 10 ^ nat (pxScale (raFeed ra)) * BPS)
        (10 ^ nat (raQuoteDecimals ra) * pxMantissa (raFeed ra) * (BPS - raToleranceBps ra))) =
      Inr (n * rate_num ra div rate_den ra)"
    using assms rate_positive [OF assms(1)] by (auto simp: rate_ok_def rate_num_def rate_den_def BPS_def mult.assoc)
  have "0 \<le> n * rate_num ra div rate_den ra"
    using rate_positive [OF assms(1)] assms(2) by (simp add: pos_imp_zdiv_nonneg_iff)
  then have "big_div (n * rate_num ra div rate_den ra * raFeeBps ra + BPS - 1) BPS =
      Inr (ceil_div (n * rate_num ra div rate_den ra * raFeeBps ra) BPS)"
    using assms(1) unfolding ceil_div_bps [symmetric] by (intro big_div_ok) (auto simp: rate_ok_def BPS_def)
  then show ?thesis using assms(1) mid
    by (simp add: assetExactInPayout_def rate_ok_def payout_at_def less_fee_def)
qed

lemma less_fee_mono:
  assumes "0 \<le> feeBps" and "feeBps < BPS" and "m \<le> m'"
  shows "less_fee feeBps m \<le> less_fee feeBps m'"
proof -
  have "ceil_div (m' * feeBps) BPS \<le> ceil_div (m * feeBps) BPS + (m' - m)"
  proof (rule ceil_div_least)
    have "m * feeBps \<le> ceil_div (m * feeBps) BPS * BPS" by (rule ceil_div_ge) (simp add: BPS_def)
    moreover have "(m' - m) * feeBps \<le> (m' - m) * BPS" using assms by (intro mult_left_mono) simp_all
    ultimately show "m' * feeBps \<le> (ceil_div (m * feeBps) BPS + (m' - m)) * BPS" by (simp add: algebra_simps)
  qed (simp add: BPS_def)
  then show ?thesis by (simp add: less_fee_def)
qed

lemma payout_mono:
  assumes "rate_ok ra" and "n \<le> n'"
  shows "payout_at ra n \<le> payout_at ra n'"
  unfolding payout_at_def
  using assms rate_positive [OF assms(1)] by (intro less_fee_mono zdiv_mono1 mult_right_mono) (auto simp: rate_ok_def)

lemma double_until_total:
  assumes "\<And>n. 0 < n \<Longrightarrow> reaches n = Inr (R n)" and "0 < hi"
  shows "\<exists>k. double_until reaches fuel hi = Inr (hi * 2 ^ k) \<and> (R (hi * 2 ^ k) \<or> k = fuel) \<and> k \<le> fuel"
  using assms(2)
proof (induction fuel arbitrary: hi)
  case 0
  then show ?case by simp
next
  case (Suc fuel)
  show ?case
  proof (cases "R hi")
    case True
    then show ?thesis using assms(1) [OF Suc.prems] by (intro exI [of _ 0]) simp
  next
    case False
    then obtain k where "double_until reaches fuel (hi * 2) = Inr (hi * 2 * 2 ^ k)" "R (hi * 2 * 2 ^ k) \<or> k = fuel" "k \<le> fuel"
      using Suc.IH [of "hi * 2"] Suc.prems by auto
    then show ?thesis using assms(1) [OF Suc.prems] False by (intro exI [of _ "Suc k"]) (simp add: mult.assoc)
  qed
qed

lemma bisect_least:
  assumes "\<And>n. 0 < n \<Longrightarrow> reaches n = Inr (R n)" and "\<And>a b. a \<le> b \<Longrightarrow> R a \<Longrightarrow> R b"
  shows "0 < lo \<Longrightarrow> lo \<le> hi \<Longrightarrow> R hi \<Longrightarrow> (\<And>m. m < lo \<Longrightarrow> 0 < m \<Longrightarrow> \<not> R m) \<Longrightarrow>
    \<exists>n. bisect reaches lo hi = Inr n \<and> R n \<and> 0 < n \<and> n \<le> hi \<and> (\<forall>m. 0 < m \<longrightarrow> m < n \<longrightarrow> \<not> R m)"
proof (induction "nat (hi - lo)" arbitrary: lo hi rule: less_induct)
  case less
  let ?mid = "(lo + hi) div 2"
  show ?case
  proof (cases "lo < hi")
    case True
    then have mid: "lo \<le> ?mid" "?mid < hi" "0 < ?mid" using less.prems(1) by auto
    have step: "bisect reaches lo hi = (if R ?mid then bisect reaches lo ?mid else bisect reaches (?mid + 1) hi)"
      using True assms(1) [OF mid(3)] by (subst bisect.simps) (simp add: Let_def)
    show ?thesis
    proof (cases "R ?mid")
      case yes: True
      then show ?thesis using less.hyps [of ?mid lo] less.prems mid step by fastforce
    next
      case no: False
      then have "\<not> R m" if "m < ?mid + 1" for m using assms(2) [of m ?mid] that by auto
      then show ?thesis using less.hyps [of hi "?mid + 1"] less.prems mid step no by auto
    qed
  next
    case False
    then have "lo = hi" using less.prems(2) by simp
    then show ?thesis using less.prems by (subst bisect.simps) auto
  qed
qed

lemma exact_out_cases:
  assumes ra: "rate_ok ra" and p: "0 < p"
  obtains (found) n where "assetExactOutInput ra p = Inr (Some n)" "0 < n" "p \<le> payout_at ra n" "\<And>m. 0 < m \<Longrightarrow> m < n \<Longrightarrow> payout_at ra m < p"
    | (none) "assetExactOutInput ra p = Inr None" "payout_at ra (2 ^ 256) < p"
proof -
  let ?R = "\<lambda>n. p \<le> payout_at ra n"
  let ?reaches = "\<lambda>n. and_then (assetExactInPayout ra n) (\<lambda>q. Inr (p \<le> q))"
  have total: "?reaches n = Inr (?R n)" if "0 < n" for n using exact_in_closed [OF ra, of n] that by simp
  have mono: "?R a \<Longrightarrow> ?R b" if "a \<le> b" for a b using payout_mono [OF ra that] by linarith
  obtain k where k: "double_until ?reaches 256 1 = Inr (1 * 2 ^ k)" "?R (1 * 2 ^ k) \<or> k = 256"
    using double_until_total [where reaches = ?reaches and R = ?R and hi = 1 and fuel = 256, OF total] by auto
  let ?hi = "2 ^ k :: int"
  show thesis
  proof (cases "?R ?hi")
    case True
    have "\<exists>n. bisect ?reaches 1 ?hi = Inr n \<and> ?R n \<and> 0 < n \<and> n \<le> ?hi \<and> (\<forall>m. 0 < m \<longrightarrow> m < n \<longrightarrow> \<not> ?R m)"
      by (rule bisect_least [where R = ?R]) (use True total mono in \<open>auto simp del: and_then.simps\<close>)
    then obtain n where n: "bisect ?reaches 1 ?hi = Inr n" "?R n" "0 < n" "\<forall>m. 0 < m \<longrightarrow> m < n \<longrightarrow> \<not> ?R m" by blast
    then show thesis using k(1) total [of ?hi] True p
      by (intro found [of n]) (auto simp: assetExactOutInput_def Let_def not_le)
  next
    case False
    then have "k = 256" using k(2) by simp
    then show thesis using k(1) total [of ?hi] False p by (intro none) (simp_all add: assetExactOutInput_def Let_def)
  qed
qed

text \<open>An input that pays enough is found, if it is at most \<open>2 ^ 256\<close>, and none below the one found is.\<close>

lemma exact_out_least:
  assumes "rate_ok ra" and "0 < p" and "0 < m" and "m \<le> 2 ^ 256" and "p \<le> payout_at ra m"
  obtains n where "assetExactOutInput ra p = Inr (Some n)" "0 < n" "n \<le> m" "p \<le> payout_at ra n"
proof (rule exact_out_cases [OF assms(1,2)])
  fix n
  assume "assetExactOutInput ra p = Inr (Some n)" "0 < n" "p \<le> payout_at ra n" "\<And>m. 0 < m \<Longrightarrow> m < n \<Longrightarrow> payout_at ra m < p"
  then show thesis using that assms(3,5) by (metis leI not_le)
next
  assume "payout_at ra (2 ^ 256) < p"
  then show thesis using payout_mono [OF assms(1,4)] assms(5) by linarith
qed

section \<open>What a quote promises\<close>

text \<open>The checks every quote passes, whichever side the client named.\<close>

definition quotable :: "AssetQuoteArgs \<Rightarrow> bool \<Rightarrow> bool" where
  "quotable aa givesBase \<longleftrightarrow>
     assetQuoteGivesBase (aaPair aa) (aaMarket aa) = Some givesBase \<and> 0 < pxMantissa (aaFeed aa) \<and>
     0 \<le> amFeeBps (aaMarket aa) \<and> amFeeBps (aaMarket aa) < 10000 \<and> 0 \<le> aaCarrierSats aa \<and> 0 \<le> aaDustSats aa \<and>
     0 \<le> assetFlatFeeFor givesBase (aaMarket aa) \<and> 0 \<le> assetFeeBpsFor givesBase (aaMarket aa) \<and>
     assetFeeBpsFor givesBase (aaMarket aa) < 10000"

lemma flat_fee_part: "fpFlatFee (flatPartsOf pair market givesBase carrierSats) = assetFlatFeeFor givesBase market"
  by (simp add: flatPartsOf_def Let_def)

lemma resolve_quotable:
  assumes "resolveAssetQuote aa = Inr (Inr q)"
  obtains givesBase where "quotable aa givesBase" "0 < aaAmount aa"
    "(case aaSide aa of Side_to \<Rightarrow> resolve_to aa (quote_rate aa givesBase) (flatPartsOf (aaPair aa) (aaMarket aa) givesBase (aaCarrierSats aa))
      | Side_from \<Rightarrow> resolve_from aa (quote_rate aa givesBase) (flatPartsOf (aaPair aa) (aaMarket aa) givesBase (aaCarrierSats aa))) = Inr (Inr q)"
  using assms
  by (auto simp: resolveAssetQuote_def quotable_def Let_def flat_fee_part not_le not_less split: option.splits if_splits)

lemma quotable_resolve:
  assumes "quotable aa givesBase" and "0 < aaAmount aa"
  shows "resolveAssetQuote aa =
    (case aaSide aa of Side_to \<Rightarrow> resolve_to aa (quote_rate aa givesBase) (flatPartsOf (aaPair aa) (aaMarket aa) givesBase (aaCarrierSats aa))
      | Side_from \<Rightarrow> resolve_from aa (quote_rate aa givesBase) (flatPartsOf (aaPair aa) (aaMarket aa) givesBase (aaCarrierSats aa)))"
  using assms by (simp add: resolveAssetQuote_def quotable_def Let_def flat_fee_part)

lemma quotable_rate:
  assumes "quotable aa givesBase" and "0 \<le> pxScale (aaFeed aa)" "0 \<le> amBaseDecimals (aaMarket aa)" "0 \<le> amQuoteDecimals (aaMarket aa)"
  shows "rate_ok (quote_rate aa givesBase)"
  using assms by (simp add: quotable_def rate_ok_def quote_rate_def BPS_def)

text \<open>
  The deposit and payout of a quote net of the flat parts: the payout is positive, within the market's bounds and above dust,
  and it is at most what the exact-in price pays for the deposit.
\<close>

lemma resolved_terms:
  assumes "rate_ok ra"
    and "(case aaSide aa of Side_to \<Rightarrow> resolve_to aa ra flat | Side_from \<Rightarrow> resolve_from aa ra flat) = Inr (Inr (f, t))"
  shows "(case aaSide aa of Side_from \<Rightarrow> f = aaAmount aa | Side_to \<Rightarrow> t = aaAmount aa) \<and> 0 < f - fpFrom flat \<and> 0 < t - fpTo flat \<and>
    amMinPayout (aaMarket aa) \<le> t - fpTo flat \<and> t - fpTo flat \<le> amMaxPayout (aaMarket aa) \<and>
    (apTo (aaPair aa) = None \<longrightarrow> aaDustSats aa \<le> t) \<and> t - fpTo flat \<le> payout_at ra (f - fpFrom flat) \<and>
    (aaSide aa = Side_to \<longrightarrow> (\<forall>m. 0 < m \<longrightarrow> m < f - fpFrom flat \<longrightarrow> payout_at ra m < t - fpTo flat))"
proof (cases "aaSide aa")
  case Side_from
  then have r: "resolve_from aa ra flat = Inr (Inr (f, t))" using assms(2) by simp
  then have net: "0 < aaAmount aa - fpFrom flat" by (auto simp: resolve_from_def Let_def split: if_splits)
  then show ?thesis using Side_from r exact_in_closed [OF assms(1), of "aaAmount aa - fpFrom flat"]
    by (auto simp: resolve_from_def Let_def split: if_splits)
next
  case Side_to
  then have r: "resolve_to aa ra flat = Inr (Inr (f, t))" using assms(2) by simp
  then have w: "0 < aaAmount aa - fpTo flat" by (auto simp: resolve_to_def Let_def split: if_splits)
  show ?thesis
  proof (rule exact_out_cases [OF assms(1) w])
    fix n
    assume "assetExactOutInput ra (aaAmount aa - fpTo flat) = Inr (Some n)" "0 < n"
      "aaAmount aa - fpTo flat \<le> payout_at ra n" "\<And>m. 0 < m \<Longrightarrow> m < n \<Longrightarrow> payout_at ra m < aaAmount aa - fpTo flat"
    then show ?thesis using Side_to r by (auto simp: resolve_to_def Let_def split: if_splits)
  next
    assume "assetExactOutInput ra (aaAmount aa - fpTo flat) = Inr None"
    then show ?thesis using r by (auto simp: resolve_to_def Let_def split: if_splits)
  qed
qed

text \<open>
  C28: a quote of the asset corridor never gives away more than its price. For every accepted quote the client's deposit, net of
  the flat fee and the carrier, is positive; the payout net of a returned carrier lies within the market's bounds, is not
  below dust when it is in sats, and is at most what the exact-in price with the spread pays for that deposit; when the
  client named the payout, no smaller deposit would have earned it; and asking for the same payout again, by its
  amount, costs no more than this quote. The sides cannot be played against each other.
\<close>

theorem asset_quote_sound:
  assumes "resolveAssetQuote aa = Inr (Inr (f, t))"
    and "0 \<le> pxScale (aaFeed aa)" and "0 \<le> amBaseDecimals (aaMarket aa)" and "0 \<le> amQuoteDecimals (aaMarket aa)"
  shows "\<exists>givesBase. assetQuoteGivesBase (aaPair aa) (aaMarket aa) = Some givesBase \<and>
    (let flat = flatPartsOf (aaPair aa) (aaMarket aa) givesBase (aaCarrierSats aa); net = f - fpFrom flat; paid = t - fpTo flat in
     0 < net \<and> amMinPayout (aaMarket aa) \<le> paid \<and> paid \<le> amMaxPayout (aaMarket aa) \<and> (apTo (aaPair aa) = None \<longrightarrow> aaDustSats aa \<le> t) \<and>
     (\<exists>q. assetExactInPayout (quote_rate aa givesBase) net = Inr q \<and> paid \<le> q) \<and>
     (aaSide aa = Side_to \<longrightarrow> (\<forall>m q. 0 < m \<longrightarrow> m < net \<longrightarrow> assetExactInPayout (quote_rate aa givesBase) m = Inr q \<longrightarrow> q < paid)) \<and>
     (net \<le> 2 ^ 256 \<longrightarrow> (\<exists>f'. resolveAssetQuote (aa\<lparr>aaSide := Side_to, aaAmount := t\<rparr>) = Inr (Inr (f', t)) \<and> f' \<le> f)))"
proof (rule resolve_quotable [OF assms(1)])
  fix givesBase
  let ?ra = "quote_rate aa givesBase" and ?flat = "flatPartsOf (aaPair aa) (aaMarket aa) givesBase (aaCarrierSats aa)"
  assume q: "quotable aa givesBase" and "0 < aaAmount aa"
    and r: "(case aaSide aa of Side_to \<Rightarrow> resolve_to aa ?ra ?flat | Side_from \<Rightarrow> resolve_from aa ?ra ?flat) = Inr (Inr (f, t))"
  have ra: "rate_ok ?ra" by (rule quotable_rate [OF q assms(2-4)])
  note terms = resolved_terms [OF ra r]
  let ?again = "aa\<lparr>aaSide := Side_to, aaAmount := t\<rparr>"
  have again: "\<exists>f'. resolveAssetQuote ?again = Inr (Inr (f', t)) \<and> f' \<le> f" if small: "f - fpFrom ?flat \<le> 2 ^ 256"
  proof -
    have "0 \<le> fpTo ?flat" using q by (auto simp: quotable_def flatPartsOf_def carrierLegs_def Let_def)
    then have pos: "0 < aaAmount ?again" using terms by auto
    have same: "quotable ?again givesBase" "quote_rate ?again givesBase = ?ra" using q by (simp_all add: quotable_def quote_rate_def)
    obtain n where "assetExactOutInput ?ra (t - fpTo ?flat) = Inr (Some n)" "n \<le> f - fpFrom ?flat"
      by (rule exact_out_least [OF ra, of "t - fpTo ?flat" "f - fpFrom ?flat"]) (use terms small in auto)
    then have "resolve_to ?again ?ra ?flat = Inr (Inr (n + fpFrom ?flat, t)) \<and> n + fpFrom ?flat \<le> f"
      using terms by (auto simp: resolve_to_def Let_def)
    then show ?thesis using quotable_resolve [OF same(1) pos] same(2) by simp
  qed
  have closed: "assetExactInPayout ?ra m = Inr (payout_at ?ra m)" if "0 < m" for m
    using exact_in_closed [OF ra, of m] that by simp
  show ?thesis using terms again closed q by (intro exI [of _ givesBase]) (auto simp: Let_def quotable_def)
qed

text \<open>Sats for an asset at 2.5 units per sat, with a spread of 30 basis points and a carrier of 330 sats.\<close>

definition sample_asset :: string where
  "sample_asset = replicate 68 (CHR ''a'')"

definition sample_market :: AssetQuoteMarket where
  "sample_market = \<lparr>amBase = None, amQuote = Some sample_asset, amBaseDecimals = 0, amQuoteDecimals = 0, amFeeBps = 30,
     amSellBaseFeeBps = None, amBuyBaseFeeBps = None, amSellBaseFeeFlat = Some 10, amBuyBaseFeeFlat = None,
     amMinPayout = 100, amMaxPayout = 100000\<rparr>"

definition sample_quote_args :: AssetQuoteArgs where
  "sample_quote_args = \<lparr>aaPair = \<lparr>apFrom = None, apTo = Some sample_asset\<rparr>, aaAmount = 10340, aaSide = Side_from, aaMarket = sample_market,
     aaFeed = \<lparr>pxMantissa = 25, pxScale = 1\<rparr>, aaCarrierSats = 330, aaDustSats = 330\<rparr>"

lemma sample_quote_resolves: "resolveAssetQuote sample_quote_args = Inr (Inr (10340, 24925))"
  by code_simp

theorem asset_quote_sound_witness:
  "resolveAssetQuote sample_quote_args = Inr (Inr (10340, 24925)) \<and>
   (\<exists>f'. resolveAssetQuote (sample_quote_args\<lparr>aaSide := Side_to, aaAmount := 24925\<rparr>) = Inr (Inr (f', 24925)) \<and> f' \<le> 10340)"
proof -
  have fields: "0 \<le> pxScale (aaFeed sample_quote_args)" "0 \<le> amBaseDecimals (aaMarket sample_quote_args)"
    "0 \<le> amQuoteDecimals (aaMarket sample_quote_args)"
    by (simp_all add: sample_quote_args_def sample_market_def)
  have "assetQuoteGivesBase (aaPair sample_quote_args) (aaMarket sample_quote_args) = Some True"
    by (simp add: assetQuoteGivesBase_def sample_quote_args_def sample_market_def)
  moreover have "10340 - fpFrom (flatPartsOf (aaPair sample_quote_args) (aaMarket sample_quote_args) True (aaCarrierSats sample_quote_args)) \<le> 2 ^ 256"
    by (simp add: flatPartsOf_def carrierLegs_def assetFlatFeeFor_def sample_quote_args_def sample_market_def Let_def)
  ultimately show ?thesis
    using asset_quote_sound [OF sample_quote_resolves fields] sample_quote_resolves by (auto simp: Let_def)
qed

section \<open>Spelling of pairs\<close>

definition valid_leg :: "AssetLeg \<Rightarrow> bool" where
  "valid_leg leg \<longleftrightarrow> (case leg of None \<Rightarrow> True | Some a \<Rightarrow> ASSET_ID_HEX a)"

lemma strip_prefix_Some: "strip_prefix p s = Some r \<longleftrightarrow> s = p @ r"
  by (induction p s rule: strip_prefix.induct) auto

lemma alnum_ticker: "valid_leg leg \<Longrightarrow> list_all is_alnum (leg_ticker leg) \<and> leg_ticker leg \<noteq> []"
proof (cases leg)
  case None
  have "list_all is_alnum ''BTC''" by code_simp
  then show ?thesis using None by (simp add: leg_ticker_def)
next
  case (Some a)
  have hex: "list_all is_alnum ''0123456789abcdef''" by code_simp
  assume "valid_leg leg"
  then have "length a = 68" "set a \<subseteq> set ''0123456789abcdef''"
    using Some by (auto simp: valid_leg_def ASSET_ID_HEX_def list_all_iff simp del: list.set)
  then show ?thesis using Some hex by (auto simp: leg_ticker_def list_all_iff simp del: list.set)
qed

lemma legOf_Some: "legOf t = Some leg \<longleftrightarrow> valid_leg leg \<and> t = leg_ticker leg"
proof -
  have "\<not> ASSET_ID_HEX ''BTC''" by (simp add: ASSET_ID_HEX_def)
  then show ?thesis by (cases leg) (auto simp: legOf_def valid_leg_def leg_ticker_def)
qed

lemma span_alnum:
  assumes "list_all is_alnum a"
  shows "takeWhile is_alnum (a @ ''->arkade:'' @ b) = a" "dropWhile is_alnum (a @ ''->arkade:'' @ b) = ''->arkade:'' @ b"
proof -
  have "\<not> is_alnum (CHR ''-'')" by code_simp
  then show "takeWhile is_alnum (a @ ''->arkade:'' @ b) = a" "dropWhile is_alnum (a @ ''->arkade:'' @ b) = ''->arkade:'' @ b"
    using assms by (simp_all add: list_all_iff)
qed

lemma ARKADE_PAIR_Some:
  "ARKADE_PAIR pair = Some (a, b) \<longleftrightarrow>
     pair = ''arkade:'' @ a @ ''->arkade:'' @ b \<and> a \<noteq> [] \<and> b \<noteq> [] \<and> list_all is_alnum a \<and> list_all is_alnum b"
  (is "_ \<longleftrightarrow> ?r")
proof
  assume l: "ARKADE_PAIR pair = Some (a, b)"
  then obtain s where s: "strip_prefix ''arkade:'' pair = Some s"
    unfolding ARKADE_PAIR_def by (cases "strip_prefix ''arkade:'' pair") simp_all
  then obtain t where t: "strip_prefix ''->arkade:'' (dropWhile is_alnum s) = Some t"
    using l unfolding ARKADE_PAIR_def Let_def by (cases "strip_prefix ''->arkade:'' (dropWhile is_alnum s)") simp_all
  have ab: "a = takeWhile is_alnum s" "b = t" "a \<noteq> []" "b \<noteq> []" "list_all is_alnum b"
    using l unfolding ARKADE_PAIR_def s t Let_def option.case by (auto split: if_splits)
  have "s = takeWhile is_alnum s @ dropWhile is_alnum s" by simp
  then have "s = a @ ''->arkade:'' @ b" using t ab(1,2) unfolding strip_prefix_Some by metis
  moreover have "list_all is_alnum a" using ab(1) by (auto simp: list_all_iff dest: set_takeWhileD)
  ultimately show ?r using s ab(3-5) unfolding strip_prefix_Some by blast
next
  assume r: ?r
  then have s: "strip_prefix ''arkade:'' pair = Some (a @ ''->arkade:'' @ b)" unfolding strip_prefix_Some by blast
  have t: "strip_prefix ''->arkade:'' (''->arkade:'' @ b) = Some b" unfolding strip_prefix_Some by (rule refl)
  have "list_all is_alnum a" using r by blast
  then show "ARKADE_PAIR pair = Some (a, b)"
    unfolding ARKADE_PAIR_def s option.case Let_def span_alnum [OF \<open>list_all is_alnum a\<close>] t using r by simp
qed

text \<open>
  C29: a pair has one spelling. \<open>parseAssetPair\<close> accepts a string exactly when it is what \<open>assetRfqPairFor\<close> writes for
  the legs it returns, the legs are well formed and exactly one of them is an asset; so the pair a row records is the
  client's own, and no two spellings name one market.
\<close>

theorem asset_pair_roundtrip:
  "parseAssetPair s = Some p \<longleftrightarrow>
     s = assetRfqPairFor (apFrom p) (apTo p) \<and> valid_leg (apFrom p) \<and> valid_leg (apTo p) \<and> (apFrom p = None) \<noteq> (apTo p = None)"
proof
  assume l: "parseAssetPair s = Some p"
  then obtain a b where ab: "ARKADE_PAIR s = Some (a, b)" unfolding parseAssetPair_def by (cases "ARKADE_PAIR s") auto
  obtain x where x: "legOf a = Some x" using l unfolding parseAssetPair_def ab by (cases "legOf a") simp_all
  obtain y where y: "legOf b = Some y" using l unfolding parseAssetPair_def ab by (cases "legOf b") (simp_all add: x)
  have "p = \<lparr>apFrom = x, apTo = y\<rparr>" "(x = None) \<noteq> (y = None)"
    using l unfolding parseAssetPair_def ab option.case prod.case x y by (simp_all split: if_splits)
  then show "s = assetRfqPairFor (apFrom p) (apTo p) \<and> valid_leg (apFrom p) \<and> valid_leg (apTo p) \<and> (apFrom p = None) \<noteq> (apTo p = None)"
    using ab x y unfolding ARKADE_PAIR_Some legOf_Some assetRfqPairFor_def by simp
next
  assume r: "s = assetRfqPairFor (apFrom p) (apTo p) \<and> valid_leg (apFrom p) \<and> valid_leg (apTo p) \<and> (apFrom p = None) \<noteq> (apTo p = None)"
  have ab: "ARKADE_PAIR s = Some (leg_ticker (apFrom p), leg_ticker (apTo p))"
    unfolding ARKADE_PAIR_Some using r alnum_ticker unfolding assetRfqPairFor_def by blast
  have legs: "legOf (leg_ticker (apFrom p)) = Some (apFrom p)" "legOf (leg_ticker (apTo p)) = Some (apTo p)"
    unfolding legOf_Some using r by blast+
  show "parseAssetPair s = Some p" using r unfolding parseAssetPair_def ab option.case prod.case legs by auto
qed

section \<open>Conversions\<close>

definition conversion_ok :: "Conversion \<Rightarrow> bool" where
  "conversion_ok cv \<longleftrightarrow> 0 < pxMantissa (cvPrice cv) \<and> 0 \<le> pxScale (cvPrice cv) \<and> decimals_ok (cvBaseDecimals cv) \<and> decimals_ok (cvQuoteDecimals cv)"

lemma divRound_pos: "0 \<le> a \<Longrightarrow> 0 < b \<Longrightarrow> divRound a b r = Inr (if r = Round_up then ceil_div a b else a div b)"
  by (cases r) (auto simp: divRound_def ceil_div_def div_minus_minus zdiv_zminus1_eq_if dvd_eq_mod_eq_0)

text \<open>Converting there with the rounding against the client and back with the rounding against it never gains a unit.\<close>

lemma conversion_never_gains:
  assumes "conversion_ok cv" and "0 \<le> b"
  shows "\<exists>q b'. convertAmount cv b Round_down = Inr q \<and> convertQuoteToBase cv q Round_up = Inr b' \<and> b' \<le> b"
    and "\<exists>q b'. convertAmount cv b Round_up = Inr q \<and> convertQuoteToBase cv q Round_down = Inr b' \<and> b \<le> b'"
proof -
  let ?N = "pxMantissa (cvPrice cv) * 10 ^ nat (cvQuoteDecimals cv)"
  let ?D = "10 ^ nat (pxScale (cvPrice cv)) * 10 ^ nat (cvBaseDecimals cv) :: int"
  have pos: "0 < ?N" "0 < ?D" using assms(1) by (auto simp: conversion_ok_def)
  have ok: "checkDecimals (cvBaseDecimals cv) (cvQuoteDecimals cv) = Inr ()"
    using assms(1) by (simp add: checkDecimals_def conversion_ok_def refuse_if_def)
  have there: "convertAmount cv x r = divRound (x * ?N) ?D r" "convertQuoteToBase cv x r = divRound (x * ?D) ?N r" if "0 \<le> x" for x r
    using assms(1) that by (simp_all add: convertAmount_def convertQuoteToBase_def ok refuse_if_def conversion_ok_def decimals_ok_def mult.assoc)
  have down: "0 \<le> b * ?N div ?D" "b * ?N div ?D * ?D \<le> b * ?N"
    using pos assms(2) pos_mod_sign [OF pos(2), of "b * ?N"]
    by (simp_all add: pos_imp_zdiv_nonneg_iff minus_mod_eq_div_mult [symmetric])
  have up: "0 \<le> ceil_div (b * ?N) ?D" "b * ?N \<le> ceil_div (b * ?N) ?D * ?D"
    using pos assms(2) ceil_div_ge [OF pos(2), of "b * ?N"] by (simp_all add: ceil_div_nonneg)
  show "\<exists>q b'. convertAmount cv b Round_down = Inr q \<and> convertQuoteToBase cv q Round_up = Inr b' \<and> b' \<le> b"
    using there(1) [OF assms(2)] there(2) [OF down(1)] down pos assms(2) ceil_div_least [OF pos(1), of "b * ?N div ?D * ?D" b]
    by (simp add: divRound_pos)
  have "b * ?N div ?N = b" by (rule nonzero_mult_div_cancel_right) (use pos(1) in linarith)
  then have "b \<le> ceil_div (b * ?N) ?D * ?D div ?N" using zdiv_mono1 [OF up(2) pos(1)] by (simp only:)
  then show "\<exists>q b'. convertAmount cv b Round_up = Inr q \<and> convertQuoteToBase cv q Round_down = Inr b' \<and> b \<le> b'"
    using there(1) [OF assms(2)] there(2) [OF up(1)] up pos assms(2) by (simp add: divRound_pos)
qed

end
