(* ===== verification/Offer_Fill.thy ===== *)
theory Offer_Fill
  imports Fill_Latch Asset_Rfq Admission
begin

text \<open>
  \<^verbatim>\<open>solver-arkade/src/arkade/offer*.ts\<close> and \<^verbatim>\<open>quotedOfferSettle.ts\<close>: what an offer's script holds, what the wallet can pay
  out of, which deposit a fill spends, and the spend itself up to the call of the SDK's \<open>fillOffer\<close>, which builds and
  submits it. Compiling a covenant, decoding a packet, selecting coins and submitting are the SDK's and stay parameters.
  An asset id and a script are their canonical hex spelling.
\<close>

section \<open>Deposits\<close>

record OfferDeposit =
  depSats :: int
  depAssets :: "(string \<times> int) list"

record OfferOutpoint = OfferDeposit +
  outTxid :: string
  outVout :: int

definition heldOf :: "'z OfferDeposit_scheme \<Rightarrow> AssetLeg \<Rightarrow> int" where
  "heldOf deposit leg = (case leg of
     None \<Rightarrow> depSats deposit
   | Some assetId \<Rightarrow> fold (\<lambda>entry held. if fst entry = assetId then held + snd entry else held) (depAssets deposit) 0)"

definition largestOfferOutpoint :: "OfferOutpoint list \<Rightarrow> AssetLeg \<Rightarrow> OfferOutpoint option" where
  "largestOfferOutpoint outpoints leg = fold (\<lambda>next best. case best of
     None \<Rightarrow> Some next
   | Some b \<Rightarrow>
       if heldOf next leg \<noteq> heldOf b leg then Some (if heldOf next leg > heldOf b leg then next else b)
       else Some (if depSats next > depSats b then next else b)) outpoints None"

record OfferOutputView =
  viewScript :: string
  viewValue :: int
  viewIsSpent :: bool
  viewIsSwept :: bool
  viewAssets :: "(string \<times> int) list"

definition satsOf :: "int \<Rightarrow> string \<Rightarrow> exn + int" where
  "satsOf value script = (if \<not> isSafeInteger value \<or> value < 0
     then Inl (Thrown (''output at '' @ script @ '' has a nonsensical sats value: '' @ show_int value)) else Inr value)"

definition assetAmountOf :: "int \<Rightarrow> string \<Rightarrow> string \<Rightarrow> exn + int" where
  "assetAmountOf amount assetId script = (if amount < 0
     then Inl (Thrown (''output at '' @ script @ '' has a negative amount of asset '' @ assetId @ '': '' @ show_int amount)) else Inr amount)"

text \<open>A \<open>Map\<close> with its insertion order: setting a known key keeps its place.\<close>

fun add_amount :: "'k \<Rightarrow> int \<Rightarrow> ('k \<times> int) list \<Rightarrow> ('k \<times> int) list" where
  "add_amount k v [] = [(k, v)]"
| "add_amount k v ((k', v') # xs) = (if k' = k then (k', v' + v) # xs else (k', v') # add_amount k v xs)"

fun add_assets :: "string \<Rightarrow> (string \<times> int) list \<Rightarrow> (string \<times> int) list \<Rightarrow> exn + (string \<times> int) list" where
  "add_assets script [] assets = Inr assets"
| "add_assets script (entry # entries) assets =
     and_then (assetAmountOf (snd entry) (fst entry) script) (\<lambda>amount.
     add_assets script entries (add_amount (fst entry) amount assets))"

definition counts_for :: "string \<Rightarrow> OfferOutputView \<Rightarrow> bool" where
  "counts_for want output \<longleftrightarrow> toLowerCase (viewScript output) = want \<and> \<not> viewIsSpent output \<and> \<not> viewIsSwept output"

fun sum_outputs :: "string \<Rightarrow> OfferOutputView list \<Rightarrow> OfferDeposit \<Rightarrow> exn + OfferDeposit" where
  "sum_outputs want [] deposit = Inr deposit"
| "sum_outputs want (output # outputs) deposit =
     (if \<not> counts_for want output then sum_outputs want outputs deposit
      else and_then (satsOf (viewValue output) (viewScript output)) (\<lambda>sats.
        and_then (add_assets (viewScript output) (viewAssets output) (depAssets deposit)) (\<lambda>assets.
        sum_outputs want outputs \<lparr>depSats = depSats deposit + sats, depAssets = assets\<rparr>)))"

definition offerDepositFrom :: "string \<Rightarrow> OfferOutputView list \<Rightarrow> exn + OfferDeposit" where
  "offerDepositFrom swapPkScript outputs = sum_outputs (toLowerCase swapPkScript) outputs \<lparr>depSats = 0, depAssets = []\<rparr>"

section \<open>Inventory\<close>

record SpendableBalance =
  sbAvailable :: int
  sbAvailableAssets :: "(string \<times> int) list"

definition offerInventoryFrom :: "SpendableBalance \<Rightarrow> AssetLeg \<Rightarrow> int option" where
  "offerInventoryFrom balance = fold (\<lambda>entry inventory.
       if snd entry \<le> 0 then inventory
       else inventory(Some (fst entry) \<mapsto> (case inventory (Some (fst entry)) of None \<Rightarrow> 0 | Some v \<Rightarrow> v) + snd entry))
     (sbAvailableAssets balance) (Map.empty(None \<mapsto> (if sbAvailable balance > 0 then sbAvailable balance else 0)))"

section \<open>Offers\<close>

record Offer =
  ofrWantAmount :: int
  ofrWantAsset :: AssetLeg
  ofrOfferAsset :: AssetLeg
  ofrMakerPkScript :: string
  ofrMakerPublicKey :: string
  ofrSwapPkScript :: string

definition offerFillInputFrom :: "Offer \<Rightarrow> 'z OfferDeposit_scheme \<Rightarrow> OfferFillInput" where
  "offerFillInputFrom offer deposit =
     \<lparr>ofWantAssetId = ofrWantAsset offer, ofWantAmount = ofrWantAmount offer, ofOfferAssetId = ofrOfferAsset offer,
      ofOfferAmount = heldOf deposit (ofrOfferAsset offer)\<rparr>"

record QuotedOfferTerms =
  qtWantAmount :: int
  qtWantAssetId :: AssetLeg
  qtOfferAssetId :: AssetLeg
  qtMakerPkScript :: string
  qtMakerPublicKey :: string

text \<open>The offer a set of terms describes, with the script it was derived to.\<close>

definition offerFromTerms :: "QuotedOfferTerms \<Rightarrow> string \<Rightarrow> Offer" where
  "offerFromTerms terms swapPkScript =
     \<lparr>ofrWantAmount = qtWantAmount terms, ofrWantAsset = qtWantAssetId terms, ofrOfferAsset = qtOfferAssetId terms,
      ofrMakerPkScript = qtMakerPkScript terms, ofrMakerPublicKey = qtMakerPublicKey terms, ofrSwapPkScript = swapPkScript\<rparr>"

text \<open>
  \<open>compile\<close> is \<open>hex.encode(offerVtxoScript(offer, serverPubkey).pkScript)\<close>, which may throw.
\<close>

definition offerIsConsistent :: "(Offer \<Rightarrow> exn + string) \<Rightarrow> Offer \<Rightarrow> bool" where
  "offerIsConsistent compile offer = (case compile offer of Inl _ \<Rightarrow> False | Inr script \<Rightarrow> script = ofrSwapPkScript offer)"

text \<open>A funding transaction: its id and outputs, each a script in hex and an amount, either of which may be missing.\<close>

record FundingTx =
  ftId :: string
  ftOutputs :: "(string option \<times> int option) list"

record DiscoveredOfferTx =
  dtOffer :: Offer
  dtTxid :: string
  dtVout :: int
  dtValue :: int

fun find_output :: "string \<Rightarrow> nat \<Rightarrow> (string option \<times> int option) list \<Rightarrow> (int \<times> int) option" where
  "find_output want vout [] = None"
| "find_output want vout (output # outputs) = (case output of
     (Some script, Some value) \<Rightarrow>
       if toLowerCase script \<noteq> want then find_output want (Suc vout) outputs
       else if \<not> isSafeInteger value \<or> value < 0 then None
       else Some (int vout, value)
   | _ \<Rightarrow> find_output want (Suc vout) outputs)"

text \<open>\<open>decode\<close> reads the transaction and its offer packet and answers nothing where the SDK throws or finds none.\<close>

definition offerFromFundingTx :: "(string \<Rightarrow> (FundingTx \<times> Offer) option) \<Rightarrow> string \<Rightarrow> DiscoveredOfferTx option" where
  "offerFromFundingTx decode rawArkadeTx = (case decode rawArkadeTx of
     None \<Rightarrow> None
   | Some (tx, offer) \<Rightarrow> (case find_output (toLowerCase (ofrSwapPkScript offer)) 0 (ftOutputs tx) of
       None \<Rightarrow> None
     | Some (vout, value) \<Rightarrow> Some \<lparr>dtOffer = offer, dtTxid = ftId tx, dtVout = vout, dtValue = value\<rparr>))"

section \<open>The spend\<close>

record FillCoin =
  coinTxid :: string
  coinVout :: int
  coinValue :: int

record OfferDepositOutpoint =
  spTxid :: string
  spVout :: int
  spValue :: int
  spAssetAmount :: "int option"

text \<open>What the fill reaches for: the wallet, the indexer, the SDK and the reservations of this process.\<close>

record FillPorts =
  fiCompile :: "Offer \<Rightarrow> exn + string"
  fiDerive :: "QuotedOfferTerms \<Rightarrow> exn + string \<times> string"
  fiDecode :: "string \<Rightarrow> (FundingTx \<times> Offer) option"
  fiFetchTx :: "nat \<Rightarrow> string \<Rightarrow> exn + string option"
  fiOutpointsAt :: "nat \<Rightarrow> string \<Rightarrow> exn + OfferOutpoint list"
  fiSpendable :: "nat \<Rightarrow> exn + FillCoin list"
  fiReserved :: "nat \<Rightarrow> string list"
  fiDustSats :: int
  fiSelectVirtualCoins :: "FillCoin list \<Rightarrow> int \<Rightarrow> exn + FillCoin list"
  fiSelectCoinsWithAsset :: "FillCoin list \<Rightarrow> string \<Rightarrow> int \<Rightarrow> exn + FillCoin list"
  fiFillOffer :: "nat \<Rightarrow> Offer \<Rightarrow> FillCoin list \<Rightarrow> string \<Rightarrow> exn + string"

definition outpointKey :: "string \<Rightarrow> int \<Rightarrow> string" where
  "outpointKey txid vout = txid @ '':'' @ show_int vout"

definition held_by_spend :: "OfferDepositOutpoint \<Rightarrow> int" where
  "held_by_spend deposit = (case spAssetAmount deposit of Some amount \<Rightarrow> amount | None \<Rightarrow> spValue deposit)"

definition select_funding :: "FillPorts \<Rightarrow> Offer \<Rightarrow> FillCoin list \<Rightarrow> exn + FillCoin list" where
  "select_funding po offer free = (case ofrWantAsset offer of
     None \<Rightarrow> fiSelectVirtualCoins po free (ofrWantAmount offer)
   | Some wantedAssetId \<Rightarrow> fiSelectCoinsWithAsset po free wantedAssetId (ofrWantAmount offer))"

definition no_coins :: "Offer \<Rightarrow> FillCoin list \<Rightarrow> exn \<Rightarrow> exn" where
  "no_coins offer free e = OfferNotSubmitted (''no spendable coins to pay the maker '' @ show_int (ofrWantAmount offer) @ '' '' @
     (case ofrWantAsset offer of None \<Rightarrow> ''sats'' | Some a \<Rightarrow> a) @
     '' (holding '' @ show_int (sum_list (map coinValue free)) @ '' sats): '' @ message e)"

text \<open>
  The coins this process has pinned are read in the turn the wallet answers. \<open>markSubmitting\<close> is the last await before
  the submission. The pin on the chosen coins is this process's own memory and its effect is what \<open>fiReserved\<close> answers.
\<close>

definition fulfillOffer ::
    "FillPorts \<Rightarrow> ('s, 'c) fill_store \<Rightarrow> ('s, 'c) Latch \<Rightarrow> string \<Rightarrow> Offer \<Rightarrow> OfferDepositOutpoint \<Rightarrow> ('s, 'c, string) fill_job" where
  "fulfillOffer po st la i offer deposit =
     (if \<not> offerIsConsistent (fiCompile po) offer
      then throw (Thrown ''offer inconsistency: the script does not encode the stated terms'')
      else if ofrWantAsset offer \<noteq> None \<and> ofrOfferAsset offer \<noteq> None
      then throw (Thrown ''an offer names an asset on exactly one leg, not both'')
      else
        bnd (ask (soExec st) (soSchedule st) (\<lambda>n. map_sum id (\<lambda>coins. (coins, fiReserved po n)) (fiSpendable po n))) (\<lambda>(spendable, reserved).
        let free = filter (\<lambda>coin. outpointKey (coinTxid coin) (coinVout coin) \<notin> set reserved) spendable in
        case select_funding po offer free of
          Inl e \<Rightarrow> throw (no_coins offer free e)
        | Inr funding \<Rightarrow>
            if funding = [] then throw (OfferNotSubmitted (''no spendable coins to pay the maker '' @ show_int (ofrWantAmount offer) @ '' sats''))
            else bnd (markSubmitting st la i) (\<lambda>won.
              if \<not> won then throw (OfferNotSubmitted (''another attempt already holds the fill for '' @
                outpointKey (spTxid deposit) (spVout deposit) @ ''; nothing was submitted''))
              else perform (soExec st) (soSchedule st)
                (SubmitFill i (ofrWantAmount offer) (ofrWantAsset offer) (ofrOfferAsset offer) (held_by_spend deposit))
                (\<lambda>n. fiFillOffer po n offer funding (spTxid deposit)))))"

section \<open>Settling a quote\<close>

text \<open>The negotiated row, as \<^verbatim>\<open>quotedOfferSettle.ts\<close> reads it.\<close>

record QuotedOfferIntent =
  qiOfferPkScript :: string
  qiFromAssetId :: AssetLeg
  qiFromAmount :: int
  qiToAssetId :: AssetLeg
  qiToAmount :: int
  qiMakerPkScript :: string
  qiMakerPublicKey :: string
  qiDepositTxid :: "string option"
  qiDepositVout :: "int option"

definition assertSafeSats :: "int \<Rightarrow> exn + int" where
  "assertSafeSats sats = (if sats > 2 ^ 53 - 1 then Inl (Thrown (''deposit of '' @ show_int sats @ '' sats exceeds a safe integer'')) else Inr sats)"

definition quoted_terms :: "QuotedOfferIntent \<Rightarrow> QuotedOfferTerms" where
  "quoted_terms intent = \<lparr>qtWantAmount = qiToAmount intent, qtWantAssetId = qiToAssetId intent, qtOfferAssetId = qiFromAssetId intent,
     qtMakerPkScript = qiMakerPkScript intent, qtMakerPublicKey = qiMakerPublicKey intent\<rparr>"

definition quotedOfferSettle ::
    "FillPorts \<Rightarrow> ('s, 'c) fill_store \<Rightarrow> ('s, 'c) Latch \<Rightarrow> string \<Rightarrow> QuotedOfferIntent \<Rightarrow> ('s, 'c, string) fill_job" where
  "quotedOfferSettle po st la i intent = (case (qiDepositTxid intent, qiDepositVout intent) of
     (Some txid, Some vout) \<Rightarrow>
       bnd (from_result (fiDerive po (quoted_terms intent))) (\<lambda>derived.
       if toLowerCase (fst derived) \<noteq> toLowerCase (qiOfferPkScript intent)
       then throw (Thrown (''the recorded terms derive '' @ fst derived @ '', not the offer script '' @ qiOfferPkScript intent))
       else bnd (ask (soExec st) (soSchedule st) (\<lambda>n. fiOutpointsAt po n (qiOfferPkScript intent))) (\<lambda>live.
         case find (\<lambda>x. outTxid x = txid \<and> outVout x = vout) live of
           None \<Rightarrow> throw (Thrown (outpointKey txid vout @ '' is no longer live at '' @ qiOfferPkScript intent))
         | Some deposit \<Rightarrow>
             let held = heldOf deposit (qiFromAssetId intent) in
             if held < qiFromAmount intent
             then throw (Thrown (outpointKey txid vout @ '' holds '' @ show_int held @ '' of the deposit leg, but the quote was priced against '' @
               show_int (qiFromAmount intent)))
             else bnd (from_result (assertSafeSats (depSats deposit))) (\<lambda>value.
               fulfillOffer po st la i (offerFromTerms (quoted_terms intent) (fst derived))
                 \<lparr>spTxid = outTxid deposit, spVout = outVout deposit, spValue = value,
                  spAssetAmount = (if qiFromAssetId intent = None then None else Some held)\<rparr>)))
   | _ \<Rightarrow> throw (Thrown (''the negotiation at '' @ qiOfferPkScript intent @ '' records no deposit outpoint to spend'')))"

section \<open>Settling a discovered offer\<close>

record OfferFillIntent =
  fnOfferTxid :: string
  fnOfferVout :: int
  fnOfferPkScript :: string
  fnWantAssetId :: AssetLeg
  fnWantAmount :: int
  fnOfferAssetId :: AssetLeg
  fnOfferAmount :: int

text \<open>Every way the funding transaction can differ from what was recorded.\<close>

definition intent_mismatch :: "OfferFillIntent \<Rightarrow> DiscoveredOfferTx \<Rightarrow> OfferFillInput \<Rightarrow> string option" where
  "intent_mismatch intent found terms =
     (if dtTxid found \<noteq> fnOfferTxid intent then Some (dtTxid found @ '' is not the funding transaction '' @ fnOfferTxid intent @ '' this intent was recorded on'')
      else if dtVout found \<noteq> fnOfferVout intent then Some (''the offer's deposit is at vout '' @ show_int (dtVout found) @ '', but the intent was recorded on '' @ show_int (fnOfferVout intent))
      else if toLowerCase (ofrSwapPkScript (dtOffer found)) \<noteq> toLowerCase (fnOfferPkScript intent) then Some (fnOfferTxid intent @ '' funds a different offer script than the intent was recorded against'')
      else if ofWantAmount terms \<noteq> fnWantAmount intent then Some (fnOfferTxid intent @ '' wants '' @ show_int (ofWantAmount terms) @ '', but the intent was priced at '' @ show_int (fnWantAmount intent))
      else if ofWantAssetId terms \<noteq> fnWantAssetId intent then Some (fnOfferTxid intent @ '' names want asset '' @ leg_ticker (ofWantAssetId terms) @ '', not '' @ leg_ticker (fnWantAssetId intent))
      else if ofOfferAssetId terms \<noteq> fnOfferAssetId intent then Some (fnOfferTxid intent @ '' names deposit asset '' @ leg_ticker (ofOfferAssetId terms) @ '', not '' @ leg_ticker (fnOfferAssetId intent))
      else None)"

text \<open>The deposit leg re-measured: the transaction's sats, or the asset the live output carries.\<close>

definition remeasured :: "OfferFillIntent \<Rightarrow> DiscoveredOfferTx \<Rightarrow> OfferFillInput \<Rightarrow> OfferOutpoint \<Rightarrow> exn + int option" where
  "remeasured intent found terms deposit =
     (let short = (\<lambda>held unit. Inl (Thrown (outpointKey (fnOfferTxid intent) (fnOfferVout intent) @ '' holds '' @ show_int held @ unit @
        '', but the intent was priced against '' @ show_int (fnOfferAmount intent)))) in
      if ofOfferAssetId terms = None \<and> ofOfferAmount terms < fnOfferAmount intent then short (ofOfferAmount terms) '' sats''
      else if ofOfferAssetId terms = None then Inr None
      else let assetAmount = heldOf deposit (ofOfferAssetId terms) in
        if assetAmount < fnOfferAmount intent then short assetAmount '' of the deposit leg'' else Inr (Some assetAmount))"

definition offerSettle ::
    "FillPorts \<Rightarrow> ('s, 'c) fill_store \<Rightarrow> ('s, 'c) Latch \<Rightarrow> string \<Rightarrow> OfferFillIntent \<Rightarrow> ('s, 'c, string) fill_job" where
  "offerSettle po st la i intent =
     bnd (ask (soExec st) (soSchedule st) (\<lambda>n. fiFetchTx po n (fnOfferTxid intent))) (\<lambda>raw.
     if raw = None \<or> raw = Some [] then throw (Thrown (''no funding transaction for '' @ fnOfferTxid intent @ '': the offer cannot be rebuilt to fill it''))
     else case offerFromFundingTx (fiDecode po) (the raw) of
       None \<Rightarrow> throw (Thrown (fnOfferTxid intent @ '' carries no offer this taker can decode''))
     | Some found \<Rightarrow>
         let terms = offerFillInputFrom (dtOffer found) \<lparr>depSats = dtValue found, depAssets = []\<rparr> in
         case intent_mismatch intent found terms of
           Some reason \<Rightarrow> throw (Thrown reason)
         | None \<Rightarrow>
             bnd (ask (soExec st) (soSchedule st) (\<lambda>n. fiOutpointsAt po n (fnOfferPkScript intent))) (\<lambda>live.
             case find (\<lambda>x. outTxid x = fnOfferTxid intent \<and> outVout x = fnOfferVout intent) live of
               None \<Rightarrow> throw (Thrown (outpointKey (fnOfferTxid intent) (fnOfferVout intent) @ '' is no longer live at '' @ fnOfferPkScript intent))
             | Some deposit \<Rightarrow>
                 bnd (from_result (remeasured intent found terms deposit)) (\<lambda>assetAmount.
                 fulfillOffer po st la i (dtOffer found)
                   \<lparr>spTxid = dtTxid found, spVout = dtVout found, spValue = dtValue found, spAssetAmount = assetAmount\<rparr>)))"

section \<open>A settlement spends what was recorded\<close>

context fill_table
begin

lemma wkeep_fulfillOffer:
  assumes K: "stable exec K"
    and terms: "\<And>d. K d \<Longrightarrow> terms_in i (ofrWantAmount offer) (ofrWantAsset offer) (ofrOfferAsset offer) (held_by_spend deposit) d"
  shows "keeps (works d0 K) (fulfillOffer po (here sc) la i offer deposit)"
  unfolding fulfillOffer_def store.simps
  by (intro keep fkeep_ask [OF K] wkeep_submit [OF K terms])

lemma terms_cover: "terms_in i want wantAsset offerAsset v d \<Longrightarrow> v \<le> held \<Longrightarrow> terms_in i want wantAsset offerAsset held d"
  by (auto simp: priced_at_def split: sqlval.splits)

lemma wkeep_quotedOfferSettle:
  assumes K: "stable exec K"
    and terms: "\<And>d. K d \<Longrightarrow> terms_in i (qiToAmount intent) (qiToAssetId intent) (qiFromAssetId intent) (qiFromAmount intent) d"
  shows "keeps (works d0 K) (quotedOfferSettle po (here sc) la i intent)"
proof -
  have spend: "keeps (works d0 K) (bnd (from_result (assertSafeSats (depSats deposit))) (\<lambda>value.
      fulfillOffer po (here sc) la i (offerFromTerms (quoted_terms intent) script)
        \<lparr>spTxid = outTxid deposit, spVout = outVout deposit, spValue = value,
         spAssetAmount = (if qiFromAssetId intent = None then None else Some (heldOf deposit (qiFromAssetId intent)))\<rparr>))"
    if held: "\<not> heldOf deposit (qiFromAssetId intent) < qiFromAmount intent" for deposit :: OfferOutpoint and script
  proof (rule keeps_given [OF yields_from_result])
    fix sats
    assume v: "assertSafeSats (depSats deposit) = Inr sats"
    let ?spend = "\<lparr>spTxid = outTxid deposit, spVout = outVout deposit, spValue = sats,
         spAssetAmount = (if qiFromAssetId intent = None then None else Some (heldOf deposit (qiFromAssetId intent)))\<rparr>"
    have "held_by_spend ?spend = heldOf deposit (qiFromAssetId intent)"
      using v by (auto simp: held_by_spend_def assertSafeSats_def heldOf_def split: if_splits)
    moreover have "terms_in i (qiToAmount intent) (qiToAssetId intent) (qiFromAssetId intent) (heldOf deposit (qiFromAssetId intent)) d"
      if "K d" for d by (rule terms_cover [OF terms [OF that]]) (use held in simp)
    ultimately show "keeps (works d0 K) (fulfillOffer po (here sc) la i (offerFromTerms (quoted_terms intent) script) ?spend)"
      by (intro wkeep_fulfillOffer [OF K]) (simp add: offerFromTerms_def quoted_terms_def)
  qed
  show ?thesis unfolding quotedOfferSettle_def store.simps Let_def
    by (cases "qiDepositTxid intent"; cases "qiDepositVout intent"; simp only: option.case prod.case)
      (intro keep keeps_from_result fkeep_ask [OF K] spend, assumption?)+
qed

end

context fill_table
begin

lemma wkeep_offerSettle:
  assumes K: "stable exec K"
    and terms: "\<And>d. K d \<Longrightarrow> terms_in i (fnWantAmount intent) (fnWantAssetId intent) (fnOfferAssetId intent) (fnOfferAmount intent) d"
  shows "keeps (works d0 K) (offerSettle po (here sc) la i intent)"
proof -
  have spend: "keeps (works d0 K) (bnd (from_result (remeasured intent found read deposit)) (\<lambda>assetAmount.
      fulfillOffer po (here sc) la i (dtOffer found)
        \<lparr>spTxid = dtTxid found, spVout = dtVout found, spValue = dtValue found, spAssetAmount = assetAmount\<rparr>))"
    if read: "read = offerFillInputFrom (dtOffer found) \<lparr>depSats = dtValue found, depAssets = []\<rparr>"
      and same: "intent_mismatch intent found read = None" for found :: DiscoveredOfferTx and read and deposit :: OfferOutpoint
  proof (rule keeps_given [OF yields_from_result])
    fix assetAmount
    assume m: "remeasured intent found read deposit = Inr assetAmount"
    let ?spend = "\<lparr>spTxid = dtTxid found, spVout = dtVout found, spValue = dtValue found, spAssetAmount = assetAmount\<rparr>"
    have offer: "ofrWantAmount (dtOffer found) = fnWantAmount intent" "ofrWantAsset (dtOffer found) = fnWantAssetId intent"
      "ofrOfferAsset (dtOffer found) = fnOfferAssetId intent"
      using same by (auto simp: intent_mismatch_def read offerFillInputFrom_def split: if_splits)
    have "fnOfferAmount intent \<le> held_by_spend ?spend"
      using m by (auto simp: remeasured_def held_by_spend_def read offerFillInputFrom_def heldOf_def Let_def split: if_splits option.splits)
    then have "terms_in i (fnWantAmount intent) (fnWantAssetId intent) (fnOfferAssetId intent) (held_by_spend ?spend) d"
      if "K d" for d by (rule terms_cover [OF terms [OF that]])
    then show "keeps (works d0 K) (fulfillOffer po (here sc) la i (dtOffer found) ?spend)"
      by (intro wkeep_fulfillOffer [OF K]) (simp add: offer)
  qed
  show ?thesis unfolding offerSettle_def store.simps
    by (intro keep fkeep_ask [OF K] spend)
qed

end

end
