(* ===== verification/Asset_Service.thy ===== *)
theory Asset_Service
  imports Offer_Fill
begin

text \<open>
  \<^verbatim>\<open>solver-corridors/src/db/assetRfqSwaps.ts\<close> and \<^verbatim>\<open>asset/assetRfqOrchestrator.ts\<close>: swaps between two Arkade assets negotiated
  over RFQ. A quote is a row with the covenant the client will fund; a tick watches that script, decides at the
  moment of spending, claims the row, and fills it through \<^verbatim>\<open>quotedOfferSettle.ts\<close>. The jobs of one process run one at
  a time (\<open>createSerialiser\<close>); the others of the schedule are other processes on the same table.
\<close>

section \<open>The table\<close>

datatype AssetRfqSwapState = Ar_quoted | Ar_funded | Ar_filling | Ar_filled | Ar_refused | Ar_stuck

datatype asset_col =
    AS_rfq_id | AS_pair | AS_from_asset_id | AS_from_amount | AS_to_asset_id | AS_to_amount | AS_maker_pk_script
  | AS_maker_public_key | AS_offer_pk_script | AS_offer_address | AS_solver_pubkey | AS_valid_until | AS_deposit_txid
  | AS_deposit_vout | AS_fill_txid | AS_failure_reason | AS_quote_implied_mantissa | AS_quote_implied_scale
  | AS_quote_gives_base | AS_fill_price_mantissa | AS_fill_price_scale | AS_fill_phase

definition ASSET_NON_TERMINAL :: "AssetRfqSwapState list" where
  "ASSET_NON_TERMINAL = [Ar_quoted, Ar_funded, Ar_filling]"

definition ASSET_EXPOSED :: "AssetRfqSwapState list" where
  "ASSET_EXPOSED = [Ar_filling]"

fun ASSET_LEGAL_EDGES :: "AssetRfqSwapState \<Rightarrow> AssetRfqSwapState list" where
  "ASSET_LEGAL_EDGES Ar_quoted = [Ar_funded, Ar_refused]"
| "ASSET_LEGAL_EDGES Ar_funded = [Ar_filling, Ar_refused]"
| "ASSET_LEGAL_EDGES Ar_filling = [Ar_filled, Ar_stuck]"
| "ASSET_LEGAL_EDGES _ = []"

definition ASSET_TRANSITION_COLUMNS :: "asset_col list" where
  "ASSET_TRANSITION_COLUMNS = [AS_deposit_txid, AS_deposit_vout, AS_fill_txid, AS_failure_reason, AS_fill_phase]"

text \<open>The table has no payment hash: the shared finder by hash would read the column its live index is on.\<close>

definition ASSET_SHAPE :: "(AssetRfqSwapState, asset_col) StoreShape" where
  "ASSET_SHAPE = \<lparr>shNoun = ''asset rfq swap'', shLabel = ''asset rfq lifecycle'', shEdges = ASSET_LEGAL_EDGES,
     shTransitionColumns = ASSET_TRANSITION_COLUMNS, shPatchColumns = [], shLive = ASSET_NON_TERMINAL, shExposed = ASSET_EXPOSED,
     shStart = Ar_quoted, shStuck = Ar_stuck, shRefused = Ar_refused, shPaymentHash = AS_offer_pk_script, shRfqId = AS_rfq_id,
     shPkScript = AS_offer_pk_script, shAmount = AS_to_amount, shFailure = AS_failure_reason, shLease = None, shOnce = None\<rparr>"

definition ASSET_LATCH :: "(AssetRfqSwapState, asset_col) Latch" where
  "ASSET_LATCH = \<lparr>laReady = Ar_funded, laFilling = Ar_filling, laPhase = AS_fill_phase, laWant = AS_to_amount,
     laWantAsset = AS_to_asset_id, laOfferAsset = AS_from_asset_id, laDeposit = AS_from_amount,
     laMarks = [AS_fill_price_mantissa, AS_fill_price_scale]\<rparr>"

record AssetRfqSwapRow =
  arId :: string
  arState :: AssetRfqSwapState
  arFillPhase :: "string option"
  arCreatedAt :: int
  arUpdatedAt :: int
  arRfqId :: string
  arPair :: string
  arFromAssetId :: AssetLeg
  arFromAmount :: int
  arToAssetId :: AssetLeg
  arToAmount :: int
  arMakerPkScript :: string
  arMakerPublicKey :: string
  arOfferPkScript :: string
  arOfferAddress :: string
  arSolverPubkey :: string
  arValidUntil :: int
  arDepositTxid :: "string option"
  arDepositVout :: "int option"
  arFillTxid :: "string option"
  arFailureReason :: "string option"
  arQuoteImpliedMantissa :: "int option"
  arQuoteImpliedScale :: "int option"
  arQuoteGivesBase :: "bool option"
  arFillPriceMantissa :: "int option"
  arFillPriceScale :: "int option"

type_synonym asset_raw = "(AssetRfqSwapState, asset_col) raw"
type_synonym asset_db = "(AssetRfqSwapState, asset_col) db"
type_synonym asset_act = "(AssetRfqSwapState, asset_col) fill_act"
type_synonym 'a asset_job = "(AssetRfqSwapState, asset_col, 'a) fill_job"

definition asset_toRow :: "asset_raw \<Rightarrow> AssetRfqSwapRow" where
  "asset_toRow raw = (let c = rwCols raw in
     \<lparr>arId = rwId raw, arState = rwState raw, arFillPhase = textOf (c AS_fill_phase), arCreatedAt = rwCreated raw,
      arUpdatedAt = rwUpdated raw, arRfqId = sql_text (c AS_rfq_id), arPair = sql_text (c AS_pair),
      arFromAssetId = textOf (c AS_from_asset_id), arFromAmount = sql_int (c AS_from_amount),
      arToAssetId = textOf (c AS_to_asset_id), arToAmount = sql_int (c AS_to_amount),
      arMakerPkScript = sql_text (c AS_maker_pk_script), arMakerPublicKey = sql_text (c AS_maker_public_key),
      arOfferPkScript = sql_text (c AS_offer_pk_script), arOfferAddress = sql_text (c AS_offer_address),
      arSolverPubkey = sql_text (c AS_solver_pubkey), arValidUntil = sql_int (c AS_valid_until),
      arDepositTxid = textOf (c AS_deposit_txid), arDepositVout = numberOrNull (c AS_deposit_vout),
      arFillTxid = textOf (c AS_fill_txid), arFailureReason = textOf (c AS_failure_reason),
      arQuoteImpliedMantissa = numberOrNull (c AS_quote_implied_mantissa), arQuoteImpliedScale = numberOrNull (c AS_quote_implied_scale),
      arQuoteGivesBase = map_option (\<lambda>v. v = 1) (numberOrNull (c AS_quote_gives_base)),
      arFillPriceMantissa = numberOrNull (c AS_fill_price_mantissa), arFillPriceScale = numberOrNull (c AS_fill_price_scale)\<rparr>)"

record AssetRfqQuoteRecord =
  akId :: string
  akRfqId :: string
  akPair :: string
  akFromAssetId :: AssetLeg
  akFromAmount :: int
  akToAssetId :: AssetLeg
  akToAmount :: int
  akMakerPkScript :: string
  akMakerPublicKey :: string
  akOfferPkScript :: string
  akOfferAddress :: string
  akSolverPubkey :: string
  akValidUntil :: int
  akQuotePrice :: "(int \<times> int \<times> bool) option"

definition asset_quote_cols :: "AssetRfqQuoteRecord \<Rightarrow> asset_col \<Rightarrow> sqlval" where
  "asset_quote_cols q c = (case c of
     AS_rfq_id \<Rightarrow> SText (akRfqId q) | AS_pair \<Rightarrow> SText (akPair q)
   | AS_from_asset_id \<Rightarrow> opt_text (akFromAssetId q) | AS_from_amount \<Rightarrow> SInt (akFromAmount q)
   | AS_to_asset_id \<Rightarrow> opt_text (akToAssetId q) | AS_to_amount \<Rightarrow> SInt (akToAmount q)
   | AS_maker_pk_script \<Rightarrow> SText (akMakerPkScript q) | AS_maker_public_key \<Rightarrow> SText (akMakerPublicKey q)
   | AS_offer_pk_script \<Rightarrow> SText (akOfferPkScript q) | AS_offer_address \<Rightarrow> SText (akOfferAddress q)
   | AS_solver_pubkey \<Rightarrow> SText (akSolverPubkey q) | AS_valid_until \<Rightarrow> SInt (akValidUntil q)
   | AS_quote_implied_mantissa \<Rightarrow> opt_int (map_option fst (akQuotePrice q))
   | AS_quote_implied_scale \<Rightarrow> opt_int (map_option (fst \<circ> snd) (akQuotePrice q))
   | AS_quote_gives_base \<Rightarrow> opt_int (map_option (\<lambda>p. if snd (snd p) then 1 else 0) (akQuotePrice q))
   | _ \<Rightarrow> SNull)"

definition asset_quote_row :: "AssetRfqQuoteRecord \<Rightarrow> int \<Rightarrow> asset_raw" where
  "asset_quote_row q tm = \<lparr>rwId = akId q, rwState = Ar_quoted, rwCreated = tm, rwUpdated = tm, rwCols = asset_quote_cols q\<rparr>"

text \<open>The two unique indexes of the schema: the RFQ id over all states, the offer script over the ones a deposit can belong to.\<close>

definition ASSET_INDEXED :: "AssetRfqSwapState list" where
  "ASSET_INDEXED = [Ar_quoted, Ar_funded, Ar_filling, Ar_filled]"

definition ASSET_STATES :: "AssetRfqSwapState list" where
  "ASSET_STATES = ASSET_INDEXED @ [Ar_refused, Ar_stuck]"

definition asset_conflict :: "asset_raw \<Rightarrow> asset_db \<Rightarrow> bool" where
  "asset_conflict r d \<longleftrightarrow> taken_in [AS_rfq_id] ASSET_STATES r d \<or> taken_in [AS_offer_pk_script] ASSET_INDEXED r d"

definition asset_fresh :: "asset_raw \<Rightarrow> asset_db \<Rightarrow> bool" where
  "asset_fresh r d \<longleftrightarrow> typed_terms ASSET_LATCH r \<and> \<not> asset_conflict r d"

abbreviation exec_asset :: "asset_act \<Rightarrow> asset_db \<Rightarrow> asset_db option" where
  "exec_asset \<equiv> exec_fill ASSET_SHAPE ASSET_LATCH asset_fresh"

definition findLiveByOfferScript :: "string \<Rightarrow> asset_db \<Rightarrow> AssetRfqSwapRow option" where
  "findLiveByOfferScript offerPkScript d = map_option asset_toRow
     (find (\<lambda>r. rwCols r AS_offer_pk_script = SText offerPkScript \<and> rwState r \<in> set ASSET_INDEXED) (dbRows d))"

definition asset_committedSats :: "string option \<Rightarrow> asset_db \<Rightarrow> int" where
  "asset_committedSats pair d = sum_list (map (\<lambda>r. sql_int (rwCols r AS_to_amount))
     (filter (\<lambda>r. rwState r = Ar_filling \<and> rwCols r AS_to_asset_id = SNull \<and>
        (case pair of None \<Rightarrow> True | Some p \<Rightarrow> rwCols r AS_pair = SText p)) (dbRows d)))"

text \<open>\<open>limit\<close> is the one \<open>clampLedgerLimit\<close> answers.\<close>

definition asset_ledgerRows :: "int \<Rightarrow> int \<Rightarrow> nat \<Rightarrow> string option \<Rightarrow> asset_db \<Rightarrow> AssetRfqSwapRow list \<times> bool" where
  "asset_ledgerRows since until limit pair d =
     (let found = take (limit + 1) (sort_key (\<lambda>r. - rwUpdated r)
            (filter (\<lambda>r. since \<le> rwUpdated r \<and> rwUpdated r < until \<and> (case pair of None \<Rightarrow> True | Some p \<Rightarrow> rwCols r AS_pair = SText p)) (dbRows d)))
      in (map asset_toRow (take limit found), limit < length found))"

section \<open>The service\<close>

record AssetRfqMarket =
  mkSymbol :: string
  mkBase :: AssetLeg
  mkQuote :: AssetLeg
  mkBaseDecimals :: int
  mkQuoteDecimals :: int
  mkFeeBps :: int
  mkSellBaseFeeBps :: "int option"
  mkBuyBaseFeeBps :: "int option"
  mkSellBaseFeeFlat :: "int option"
  mkBuyBaseFeeFlat :: "int option"
  mkSellBase :: "int \<times> int"
  mkBuyBase :: "int \<times> int"
  mkFeedUrl :: string
  mkPricePath :: string
  mkCarrierSats :: int

text \<open>
  \<open>adQuotaTake\<close> is what the rate limiter answers for a key at a time; the limiter itself is the one of \<open>Pricing\<close>.
  \<open>adMarkets\<close> is the list that stands while a job runs: \<open>replaceMarkets\<close> waits for its turn.
\<close>

record AssetRfqDeps =
  adSchedule :: "(asset_db, asset_act) schedule"
  adMarkets :: "AssetRfqMarket list"
  adSolverPubkey :: string
  adQuoteValiditySeconds :: int
  adDustSats :: int
  adQuotaTake :: "string \<Rightarrow> int \<Rightarrow> bool"
  adBalance :: "nat \<Rightarrow> exn + SpendableBalance"
  adFetchPrice :: "nat \<Rightarrow> string \<Rightarrow> string \<Rightarrow> exn + Price"
  adPorts :: FillPorts
  adApprovalGate :: "(nat \<Rightarrow> string \<Rightarrow> AssetLeg \<Rightarrow> int \<Rightarrow> exn + bool) option"

abbreviation astore :: "AssetRfqDeps \<Rightarrow> (AssetRfqSwapState, asset_col) fill_store" where
  "astore dp \<equiv> \<lparr>soShape = ASSET_SHAPE, soExec = exec_asset, soAct = FSt, soSchedule = adSchedule dp\<rparr>"

abbreviation acall :: "AssetRfqDeps \<Rightarrow> (nat \<Rightarrow> exn + 'a) \<Rightarrow> 'a asset_job" where
  "acall dp \<equiv> ask exec_asset (adSchedule dp)"

definition depositAt :: "AssetRfqDeps \<Rightarrow> string \<Rightarrow> AssetLeg \<Rightarrow> OfferOutpoint option asset_job" where
  "depositAt dp offerPkScript depositLeg =
     bnd (acall dp (\<lambda>n. fiOutpointsAt (adPorts dp) n offerPkScript)) (\<lambda>live. ret (largestOfferOutpoint live depositLeg))"

definition asset_balance :: "AssetRfqDeps \<Rightarrow> (AssetLeg \<Rightarrow> int option) asset_job" where
  "asset_balance dp = bnd (acall dp (adBalance dp)) (\<lambda>balance. ret (offerInventoryFrom balance))"

definition asset_get :: "AssetRfqDeps \<Rightarrow> string \<Rightarrow> AssetRfqSwapRow asset_job" where
  "asset_get dp i = bnd (findRow (astore dp) i) (\<lambda>found. case found of
     None \<Rightarrow> throw (Thrown (''no asset rfq swap '' @ i)) | Some raw \<Rightarrow> ret (asset_toRow raw))"

definition insertAssetQuote :: "AssetRfqDeps \<Rightarrow> AssetRfqQuoteRecord \<Rightarrow> AssetRfqSwapRow asset_job" where
  "insertAssetQuote dp record =
     bnd (now (adSchedule dp)) (\<lambda>tm.
     bnd (insertFill (astore dp) asset_conflict (asset_quote_row record tm)) (\<lambda>raw. ret (asset_toRow raw)))"

subsection \<open>Quotes\<close>

datatype AssetRfqQuoteRefusal =
    Qr_rate_limited | Qr_resolved AssetQuoteRefusal | Qr_insufficient_inventory | Qr_duplicate_swap

record AssetRfqQuoteRequest =
  rfRequesterKey :: "string option"
  rfRfqId :: string
  rfPair :: string
  rfAmount :: int
  rfAmountSide :: AmountSide
  rfMakerPkScript :: string
  rfMakerPublicKey :: string

definition on_market :: "AssetLeg \<Rightarrow> AssetLeg \<Rightarrow> AssetRfqMarket \<Rightarrow> bool" where
  "on_market from to m \<longleftrightarrow> from = mkBase m \<and> to = mkQuote m \<or> from = mkQuote m \<and> to = mkBase m"

definition priced_market :: "AssetPair \<Rightarrow> AssetRfqMarket \<Rightarrow> AssetQuoteMarket" where
  "priced_market pair m = (let bounds = (if apFrom pair = mkBase m then mkSellBase m else mkBuyBase m) in
     \<lparr>amBase = mkBase m, amQuote = mkQuote m, amBaseDecimals = mkBaseDecimals m, amQuoteDecimals = mkQuoteDecimals m,
      amFeeBps = mkFeeBps m, amSellBaseFeeBps = mkSellBaseFeeBps m, amBuyBaseFeeBps = mkBuyBaseFeeBps m,
      amSellBaseFeeFlat = mkSellBaseFeeFlat m, amBuyBaseFeeFlat = mkBuyBaseFeeFlat m,
      amMinPayout = fst bounds, amMaxPayout = snd bounds\<rparr>)"

definition quoteSnapshot :: "int \<times> int \<Rightarrow> AssetQuoteMarket \<Rightarrow> AssetPair \<Rightarrow> Price \<Rightarrow> int \<Rightarrow> exn + (int \<times> int \<times> bool) option" where
  "quoteSnapshot resolved market pair feed carrierSats =
     (let givesBase = (apFrom pair = amBase market \<and> apTo pair = amQuote market) in
      and_then (struckQuotePrice pair market carrierSats givesBase (pxScale feed) (fst resolved) (snd resolved)) (\<lambda>implied.
      Inr (map_option (\<lambda>p. (pxMantissa p, pxScale p, givesBase)) implied)))"

text \<open>
  The terms are recorded before they are sent; only a unique index means a duplicate. \<open>newId\<close> is the identifier drawn
  for the request.
\<close>

definition record_quote ::
    "AssetRfqDeps \<Rightarrow> string \<Rightarrow> AssetRfqQuoteRequest \<Rightarrow> AssetPair \<Rightarrow> AssetRfqMarket \<Rightarrow> Price \<Rightarrow> int \<times> int \<Rightarrow> string \<times> string \<Rightarrow>
     (AssetRfqQuoteRefusal + AssetRfqSwapRow \<times> int) asset_job" where
  "record_quote dp newId request pair market feed resolved offer =
     catch (bnd (now (adSchedule dp)) (\<lambda>tm.
        bnd (from_result (quoteSnapshot resolved (priced_market pair market) pair feed (mkCarrierSats market))) (\<lambda>snapshot.
        bnd (insertAssetQuote dp
          \<lparr>akId = newId, akRfqId = rfRfqId request, akPair = assetRfqPairFor (apFrom pair) (apTo pair), akFromAssetId = apFrom pair,
           akFromAmount = fst resolved, akToAssetId = apTo pair, akToAmount = snd resolved,
           akMakerPkScript = rfMakerPkScript request, akMakerPublicKey = rfMakerPublicKey request,
           akOfferPkScript = fst offer, akOfferAddress = snd offer, akSolverPubkey = adSolverPubkey dp,
           akValidUntil = tm + adQuoteValiditySeconds dp, akQuotePrice = snapshot\<rparr>) (\<lambda>swap.
        ret (Inr (swap, mkCarrierSats market))))))
       (\<lambda>e. case e of UniqueConstraint _ \<Rightarrow> ret (Inl Qr_duplicate_swap) | _ \<Rightarrow> throw e)"

definition offer_terms :: "AssetRfqQuoteRequest \<Rightarrow> AssetPair \<Rightarrow> int \<Rightarrow> QuotedOfferTerms" where
  "offer_terms request pair toAmount = \<lparr>qtWantAmount = toAmount, qtWantAssetId = apTo pair, qtOfferAssetId = apFrom pair,
     qtMakerPkScript = rfMakerPkScript request, qtMakerPublicKey = rfMakerPublicKey request\<rparr>"

definition quote_priced ::
    "AssetRfqDeps \<Rightarrow> string \<Rightarrow> AssetRfqQuoteRequest \<Rightarrow> AssetPair \<Rightarrow> AssetRfqMarket \<Rightarrow> Price \<Rightarrow>
     (AssetRfqQuoteRefusal + AssetRfqSwapRow \<times> int) asset_job" where
  "quote_priced dp newId request pair market feed =
     bnd (from_result (resolveAssetQuote \<lparr>aaPair = pair, aaAmount = rfAmount request, aaSide = rfAmountSide request,
        aaMarket = priced_market pair market, aaFeed = feed, aaCarrierSats = mkCarrierSats market, aaDustSats = adDustSats dp\<rparr>)) (\<lambda>outcome.
     case outcome of
       Inl reason \<Rightarrow> ret (Inl (Qr_resolved reason))
     | Inr resolved \<Rightarrow>
         bnd (asset_balance dp) (\<lambda>available.
         if (case available (apTo pair) of None \<Rightarrow> 0 | Some v \<Rightarrow> v) < snd resolved then ret (Inl Qr_insufficient_inventory)
         else bnd (from_result (fiDerive (adPorts dp) (offer_terms request pair (snd resolved)))) (\<lambda>offer.
           record_quote dp newId request pair market feed resolved offer)))"

definition quoteInner :: "AssetRfqDeps \<Rightarrow> string \<Rightarrow> AssetRfqQuoteRequest \<Rightarrow> (AssetRfqQuoteRefusal + AssetRfqSwapRow \<times> int) asset_job" where
  "quoteInner dp newId request = (case parseAssetPair (rfPair request) of
     None \<Rightarrow> ret (Inl (Qr_resolved Aq_unsupported_pair))
   | Some pair \<Rightarrow> (case find (on_market (apFrom pair) (apTo pair)) (adMarkets dp) of
       None \<Rightarrow> ret (Inl (Qr_resolved Aq_unsupported_pair))
     | Some market \<Rightarrow>
         bnd (read_db exec_asset (adSchedule dp) (\<lambda>d. Inr (findByRfqId ASSET_SHAPE (rfRfqId request) d))) (\<lambda>existing.
         if existing \<noteq> None then ret (Inl Qr_duplicate_swap)
         else bnd (case rfRequesterKey request of None \<Rightarrow> ret True | Some key \<Rightarrow> bnd (now (adSchedule dp)) (\<lambda>tm. ret (adQuotaTake dp key tm))) (\<lambda>admitted.
           if \<not> admitted then ret (Inl Qr_rate_limited)
           else bnd (catch (bnd (acall dp (\<lambda>n. adFetchPrice dp n (mkFeedUrl market) (mkPricePath market))) (\<lambda>feed. ret (Some feed))) (\<lambda>_. ret None)) (\<lambda>read.
             case read of
               None \<Rightarrow> ret (Inl (Qr_resolved Aq_price_unavailable))
             | Some feed \<Rightarrow> quote_priced dp newId request pair market feed)))))"

subsection \<open>Driving a row\<close>

definition asset_askApproval :: "AssetRfqDeps \<Rightarrow> string \<Rightarrow> AssetLeg \<Rightarrow> int \<Rightarrow> bool asset_job" where
  "asset_askApproval dp swapId assetId amount = (case adApprovalGate dp of
     None \<Rightarrow> ret True | Some gate \<Rightarrow> acall dp (\<lambda>n. gate n swapId assetId amount))"

definition whenQuoted :: "AssetRfqDeps \<Rightarrow> AssetRfqSwapRow \<Rightarrow> unit asset_job" where
  "whenQuoted dp row =
     bnd (now (adSchedule dp)) (\<lambda>tm.
     if tm > arValidUntil row then failFill (astore dp) (arId row) Ar_quoted ''quote expired before the deposit was observed''
     else bnd (depositAt dp (arOfferPkScript row) (arFromAssetId row)) (\<lambda>seen.
       case seen of
         None \<Rightarrow> ret ()
       | Some deposit \<Rightarrow>
           if heldOf deposit (arFromAssetId row) \<le> 0 then ret ()
           else thn (transition (astore dp) (arId row) Ar_quoted Ar_funded
             [(AS_deposit_txid, SText (outTxid deposit)), (AS_deposit_vout, SInt (outVout deposit))]) (ret ())))"

definition recordFillMark :: "AssetRfqDeps \<Rightarrow> AssetRfqSwapRow \<Rightarrow> unit asset_job" where
  "recordFillMark dp row =
     catch (case find (on_market (arFromAssetId row) (arToAssetId row)) (adMarkets dp) of
         None \<Rightarrow> ret ()
       | Some market \<Rightarrow>
           bnd (acall dp (\<lambda>n. adFetchPrice dp n (mkFeedUrl market) (mkPricePath market))) (\<lambda>feed.
           if pxMantissa feed \<le> 0 \<or> pxScale feed < 0 then ret ()
           else let mark = [(AS_fill_price_mantissa, SInt (pxMantissa feed)), (AS_fill_price_scale, SInt (pxScale feed))] in
             thn (logged_act exec_asset (adSchedule dp) (FillMark (arId row) mark) (mark_row (arId row) mark)) (ret ())))
       (\<lambda>_. ret ())"

definition asset_intent :: "AssetRfqSwapRow \<Rightarrow> QuotedOfferIntent" where
  "asset_intent row = \<lparr>qiOfferPkScript = arOfferPkScript row, qiFromAssetId = arFromAssetId row, qiFromAmount = arFromAmount row,
     qiToAssetId = arToAssetId row, qiToAmount = arToAmount row, qiMakerPkScript = arMakerPkScript row,
     qiMakerPublicKey = arMakerPublicKey row, qiDepositTxid = arDepositTxid row, qiDepositVout = arDepositVout row\<rparr>"

text \<open>The settlement of a claimed row, and what becomes of the row when it throws.\<close>

definition settle_claimed :: "AssetRfqDeps \<Rightarrow> AssetRfqSwapRow \<Rightarrow> unit asset_job" where
  "settle_claimed dp row =
     catch (bnd (asset_get dp (arId row)) (\<lambda>fresh.
        bnd (quotedOfferSettle (adPorts dp) (astore dp) ASSET_LATCH (arId row) (asset_intent fresh)) (\<lambda>txid.
        bnd (transition (astore dp) (arId row) Ar_filling Ar_filled [(AS_fill_txid, SText txid)]) (\<lambda>filled.
        only_if filled (recordFillMark dp row)))))
       (\<lambda>e. case e of
          OfferNotSubmitted _ \<Rightarrow> thn (revertUnsubmitted (astore dp) ASSET_LATCH (arId row)) (ret ())
        | _ \<Rightarrow> failFill (astore dp) (arId row) Ar_filling (message e))"

fun asset_refusal_text :: "AssetFillRefusal \<Rightarrow> string" where
  "asset_refusal_text Af_quote_expired = ''quote_expired''"
| "asset_refusal_text Af_deposit_short = ''deposit_short''"
| "asset_refusal_text Af_insufficient_inventory = ''insufficient_inventory''"

definition whenFunded :: "AssetRfqDeps \<Rightarrow> AssetRfqSwapRow \<Rightarrow> unit asset_job" where
  "whenFunded dp row =
     bnd (depositAt dp (arOfferPkScript row) (arFromAssetId row)) (\<lambda>deposit.
     bnd (asset_balance dp) (\<lambda>available.
     bnd (now (adSchedule dp)) (\<lambda>tm.
     case evaluateAssetFill \<lparr>afToAmount = arToAmount row, afToAssetId = arToAssetId row, afFromAmount = arFromAmount row,
        afDepositedAmount = (case deposit of None \<Rightarrow> 0 | Some x \<Rightarrow> heldOf x (arFromAssetId row)), afAvailable = available,
        afNow = tm, afValidUntil = arValidUntil row\<rparr> of
       Inl reason \<Rightarrow> failFill (astore dp) (arId row) Ar_funded (''not filled: '' @ asset_refusal_text reason)
     | Inr _ \<Rightarrow>
         bnd (asset_askApproval dp (arId row) (arToAssetId row) (arToAmount row)) (\<lambda>approved.
         if \<not> approved then ret ()
         else let seen = (case deposit of None \<Rightarrow> [] | Some x \<Rightarrow> [(AS_deposit_txid, SText (outTxid x)), (AS_deposit_vout, SInt (outVout x))]) in
           bnd (transition (astore dp) (arId row) Ar_funded Ar_filling (seen @ [(AS_fill_phase, SText ''selecting'')])) (\<lambda>won.
           only_if won (settle_claimed dp row))))))"

definition whenFilling :: "AssetRfqDeps \<Rightarrow> AssetRfqSwapRow \<Rightarrow> unit asset_job" where
  "whenFilling dp row =
     (if arFillPhase row = Some ''selecting'' then thn (revertUnsubmitted (astore dp) ASSET_LATCH (arId row)) (ret ())
      else failFill (astore dp) (arId row) Ar_filling ''fill outcome unknown after restart; check the offer address'')"

definition asset_drive :: "AssetRfqDeps \<Rightarrow> string \<Rightarrow> unit asset_job" where
  "asset_drive dp i = bnd (findRow (astore dp) i) (\<lambda>found. case map_option asset_toRow found of
     None \<Rightarrow> ret ()
   | Some row \<Rightarrow> (case arState row of
       Ar_quoted \<Rightarrow> whenQuoted dp row
     | Ar_funded \<Rightarrow> whenFunded dp row
     | Ar_filling \<Rightarrow> whenFilling dp row
     | _ \<Rightarrow> ret ()))"

fun drive_each :: "AssetRfqDeps \<Rightarrow> string list \<Rightarrow> string list asset_job" where
  "drive_each dp [] = ret []"
| "drive_each dp (i # is) =
     bnd (catch (thn (asset_drive dp i) (ret [i])) (\<lambda>_. ret [])) (\<lambda>driven.
     bnd (drive_each dp is) (\<lambda>rest. ret (driven @ rest)))"

definition tickAll :: "AssetRfqDeps \<Rightarrow> string list asset_job" where
  "tickAll dp = bnd (read_db exec_asset (adSchedule dp) (\<lambda>d. Inr (findRecoverable ASSET_SHAPE d))) (\<lambda>rows. drive_each dp (map rwId rows))"

section \<open>The contract\<close>

interpretation af: fill_table ASSET_SHAPE ASSET_LATCH asset_fresh "{Ar_filling, Ar_filled, Ar_stuck}"
proof unfold_locales
  fix s t
  assume "s \<in> {Ar_filling, Ar_filled, Ar_stuck}" and "t \<in> set (shEdges ASSET_SHAPE s)"
  then show "t \<in> {Ar_filling, Ar_filled, Ar_stuck}" by (auto simp: ASSET_SHAPE_def)
next
  fix s
  assume "laFilling ASSET_LATCH \<in> set (shEdges ASSET_SHAPE s)"
  then show "s \<notin> {Ar_filling, Ar_filled, Ar_stuck}" by (cases s) (auto simp: ASSET_SHAPE_def ASSET_LATCH_def)
qed (auto simp: ASSET_SHAPE_def ASSET_LATCH_def ASSET_TRANSITION_COLUMNS_def asset_fresh_def)

text \<open>
  What the table keeps: terms that can be read, one negotiation per RFQ id for good, and one row per offer script among
  those a deposit can belong to.
\<close>

definition asset_inv :: "asset_db \<Rightarrow> bool" where
  "asset_inv d \<longleftrightarrow> ids_distinct d \<and> (\<forall>i r. row_of d i = Some r \<longrightarrow> typed_terms ASSET_LATCH r) \<and>
     unique_in [AS_rfq_id] UNIV d \<and> unique_in [AS_offer_pk_script] (set ASSET_INDEXED) d"

lemma all_states: "s \<in> set ASSET_STATES"
  by (cases s) (simp_all add: ASSET_STATES_def ASSET_INDEXED_def)

lemma asset_steps_back: "af.steps_to s t \<Longrightarrow> t \<in> set ASSET_INDEXED \<Longrightarrow> s \<in> set ASSET_INDEXED"
  unfolding af.steps_to_def by (cases s) (auto simp: ASSET_SHAPE_def ASSET_LATCH_def ASSET_INDEXED_def)

lemma asset_indexes:
  assumes "exec_asset a d = Some d'" and "ids_distinct d"
  shows "unique_in [AS_rfq_id] UNIV d \<Longrightarrow> unique_in [AS_rfq_id] UNIV d'"
    and "unique_in [AS_offer_pk_script] (set ASSET_INDEXED) d \<Longrightarrow> unique_in [AS_offer_pk_script] (set ASSET_INDEXED) d'"
proof -
  have fixed: "set [AS_rfq_id] \<inter> af.writable = {}" "set [AS_offer_pk_script] \<inter> af.writable = {}"
    by (auto simp: ASSET_SHAPE_def ASSET_LATCH_def ASSET_TRANSITION_COLUMNS_def)
  show "unique_in [AS_rfq_id] UNIV d \<Longrightarrow> unique_in [AS_rfq_id] UNIV d'"
    by (rule af.keeps_unique [OF assms _ fixed(1)])
      (use not_taken [of "[AS_rfq_id]" ASSET_STATES _ d] all_states in \<open>auto simp: asset_fresh_def asset_conflict_def\<close>)
  show "unique_in [AS_offer_pk_script] (set ASSET_INDEXED) d \<Longrightarrow> unique_in [AS_offer_pk_script] (set ASSET_INDEXED) d'"
    by (rule af.keeps_unique [OF assms _ fixed(2) asset_steps_back])
      (use not_taken [of "[AS_offer_pk_script]" ASSET_INDEXED _ d] in \<open>auto simp: asset_fresh_def asset_conflict_def\<close>)
qed

lemma asset_inv_step:
  assumes "asset_inv d" and "exec_asset a d = Some d'"
  shows "asset_inv d'"
proof -
  have "ids_distinct d" using assms(1) by (simp add: asset_inv_def)
  moreover have "af.rows_typed d'"
    using af.stable_typed assms calculation unfolding stable_def asset_inv_def by metis
  ultimately show ?thesis
    using af.fill_ids [OF assms(2)] asset_indexes [OF assms(2)] assms(1) by (simp add: asset_inv_def)
qed

lemma stable_asset_inv: "stable exec_asset asset_inv"
  unfolding stable_def using asset_inv_step by blast

lemma run_asset_inv: "run_all exec_asset as d = Some d' \<Longrightarrow> asset_inv d \<Longrightarrow> asset_inv d'"
  by (rule run_all_keeps) (assumption | rule asset_inv_step)+

end
