(* ===== verification/Asset_Refinement.thy ===== *)
theory Asset_Refinement
  imports Asset_Service
begin

text \<open>
  The asset RFQ service keeps to the contract of \<open>Fill_Latch\<close>: whatever the wallet, the indexer, the feed and the gate
  answer, whoever else acts on the table and wherever the process dies, a quote, a tick and a sweep perform only enabled
  actions, and each worker submits a fill at most as often as it latched it.
\<close>

abbreviation aworks :: "asset_db \<Rightarrow> (asset_db \<Rightarrow> bool) \<Rightarrow> (asset_db, asset_act) world \<Rightarrow> bool" where
  "aworks d0 K \<equiv> follows exec_asset d0 latches_first K"

lemma akeep_state:
  assumes "keeps I a" "keeps I b" "keeps I c" "keeps I e"
  shows "keeps I (case s of Ar_quoted \<Rightarrow> a | Ar_funded \<Rightarrow> b | Ar_filling \<Rightarrow> c | Ar_filled \<Rightarrow> e | Ar_refused \<Rightarrow> e | Ar_stuck \<Rightarrow> e)"
  using assms by (cases s) simp_all

named_theorems akeep

lemma akeep_reads [akeep]:
  assumes "stable exec_asset K"
  shows "keeps (aworks d0 K) (now sc)" "keeps (aworks d0 K) (ask exec_asset sc f)" "keeps (aworks d0 K) (read_db exec_asset sc g)"
    "keeps (aworks d0 K) (findRow (af.here sc) i)" "keeps (aworks d0 K) (depositAt dp script leg)"
    "keeps (aworks d0 K) (asset_balance dp)" "keeps (aworks d0 K) (asset_askApproval dp i leg v)"
  unfolding depositAt_def asset_balance_def asset_askApproval_def
  by (intro keep af.fkeep_now af.fkeep_ask af.fkeep_read af.wkeep_find assms)+

lemma akeep_writes [akeep]:
  assumes "stable exec_asset K"
  shows "keeps (aworks d0 K) (revertUnsubmitted (af.here sc) ASSET_LATCH i)" "keeps (aworks d0 K) (failFill (af.here sc) i s reason)"
  by (intro af.wkeep_revert af.wkeep_fail assms; simp add: ASSET_LATCH_def ASSET_SHAPE_def)+

lemma asset_quote_fresh:
  "rwState (asset_quote_row q tm) = shStart ASSET_SHAPE" "rwCols (asset_quote_row q tm) (laPhase ASSET_LATCH) = SNull"
  "\<not> asset_conflict (asset_quote_row q tm) d \<Longrightarrow> asset_fresh (asset_quote_row q tm) d"
  by (simp_all add: asset_quote_row_def asset_quote_cols_def ASSET_SHAPE_def ASSET_LATCH_def asset_fresh_def typed_terms_def)

lemma akeep_insert [akeep]:
  assumes "stable exec_asset K"
  shows "keeps (aworks d0 K) (insertAssetQuote dp q)"
  unfolding insertAssetQuote_def by (intro keep akeep assms af.wkeep_insert asset_quote_fresh)

lemma akeep_quote:
  assumes "stable exec_asset K"
  shows "keeps (aworks d0 K) (quoteInner dp newId request)"
proof -
  have recorded: "keeps (aworks d0 K) (record_quote dp newId request pair market feed resolved offer)" for pair market feed resolved offer
    unfolding record_quote_def by (intro keep akeep assms keeps_from_result)
  have priced: "keeps (aworks d0 K) (quote_priced dp newId request pair market feed)" for pair market feed
    unfolding quote_priced_def by (intro keep akeep assms keeps_from_result recorded)
  show ?thesis unfolding quoteInner_def by (intro keep akeep assms priced)
qed

text \<open>The row a settlement reads is the row it fills: its terms are the recorded ones.\<close>

lemma akeep_settle:
  assumes K: "stable exec_asset K" and inv: "\<And>d. K d \<Longrightarrow> asset_inv d"
    and f: "\<And>L row txid. stable exec_asset L \<Longrightarrow> keeps (aworks d0 L) (f row txid)"
  shows "keeps (aworks d0 K) (bnd (asset_get dp i) (\<lambda>fresh.
    bnd (quotedOfferSettle po (astore dp) ASSET_LATCH i (asset_intent fresh)) (f fresh)))"
  unfolding asset_get_def bnd_assoc
proof (rule af.wkeep_learn [OF af.spec_find [where L = "\<lambda>r. af.terms_in i (arToAmount (asset_toRow r)) (arToAssetId (asset_toRow r))
      (arFromAssetId (asset_toRow r)) (arFromAmount (asset_toRow r))", OF K]])
  fix d r
  assume "K d" "row_of d i = Some r"
  then have "typed_terms ASSET_LATCH r" using inv by (auto simp: asset_inv_def)
  then show "af.terms_in i (arToAmount (asset_toRow r)) (arToAssetId (asset_toRow r)) (arFromAssetId (asset_toRow r)) (arFromAmount (asset_toRow r)) d"
    using typed_priced \<open>row_of d i = Some r\<close> by (fastforce simp: asset_toRow_def Let_def ASSET_LATCH_def)
next
  fix found
  show "keeps (aworks d0 (\<lambda>d. K d \<and> (\<forall>r. found = Some r \<longrightarrow> af.terms_in i (arToAmount (asset_toRow r)) (arToAssetId (asset_toRow r))
      (arFromAssetId (asset_toRow r)) (arFromAmount (asset_toRow r)) d)))
    (bnd (case found of None \<Rightarrow> throw (Thrown (''no asset rfq swap '' @ i)) | Some raw \<Rightarrow> ret (asset_toRow raw)) (\<lambda>fresh.
      bnd (quotedOfferSettle po (astore dp) ASSET_LATCH i (asset_intent fresh)) (f fresh)))"
  proof (cases found)
    case (Some r)
    let ?row = "asset_toRow r"
    let ?L = "\<lambda>d. K d \<and> af.terms_in i (arToAmount ?row) (arToAssetId ?row) (arFromAssetId ?row) (arFromAmount ?row) d"
    have L: "stable exec_asset ?L" by (intro stable_conj K af.stable_terms)
    have "keeps (aworks d0 ?L) (bnd (quotedOfferSettle po (astore dp) ASSET_LATCH i (asset_intent ?row)) (f ?row))"
      by (intro keeps_bnd af.wkeep_quotedOfferSettle f L) (simp add: asset_intent_def)
    then show ?thesis using Some by simp
  qed (simp add: keeps_throw)
qed

lemma akeep_mark:
  assumes "stable exec_asset K"
  shows "keeps (aworks d0 K) (recordFillMark dp row)"
  unfolding recordFillMark_def
  by (intro keep akeep assms af.wkeep_mark) (simp add: ASSET_LATCH_def)

lemma akeep_transition:
  assumes "stable exec_asset K" and "AS_fill_phase \<notin> fst ` set fs"
  shows "keeps (aworks d0 K) (transition (af.here sc) i s t fs)"
  by (rule af.wkeep_transition [OF assms(1)]) (use assms(2) in \<open>simp add: ASSET_LATCH_def\<close>)

lemma akeep_claim:
  assumes "stable exec_asset K" and "AS_fill_phase \<notin> fst ` set fs"
  shows "keeps (aworks d0 K) (transition (af.here sc) i s Ar_filling (fs @ [(AS_fill_phase, SText ''selecting'')]))"
  by (rule af.wkeep_transition [OF assms(1)]) (use assms(2) in \<open>auto simp: ASSET_LATCH_def map_add_Some_iff map_of_eq_None_iff\<close>)

lemma akeep_settle_claimed:
  assumes "stable exec_asset K" and "\<And>d. K d \<Longrightarrow> asset_inv d"
  shows "keeps (aworks d0 K) (settle_claimed dp row)"
  unfolding settle_claimed_def
proof (rule keeps_catch)
  have settled: "keeps (aworks d0 L) (bnd (transition (astore dp) (arId row) Ar_filling Ar_filled [(AS_fill_txid, SText txid)]) (\<lambda>filled.
      only_if filled (recordFillMark dp row)))" if "stable exec_asset L" for L txid
    by (intro keep akeep_transition akeep_mark that) simp
  show "keeps (aworks d0 K) (bnd (asset_get dp (arId row)) (\<lambda>fresh.
      bnd (quotedOfferSettle (adPorts dp) (astore dp) ASSET_LATCH (arId row) (asset_intent fresh)) (\<lambda>txid.
      bnd (transition (astore dp) (arId row) Ar_filling Ar_filled [(AS_fill_txid, SText txid)]) (\<lambda>filled.
      only_if filled (recordFillMark dp row)))))"
    by (rule akeep_settle [where f = "\<lambda>_ txid. bnd (transition (astore dp) (arId row) Ar_filling Ar_filled [(AS_fill_txid, SText txid)])
        (\<lambda>filled. only_if filled (recordFillMark dp row))", OF assms settled])
qed (intro keep akeep assms(1))

lemma akeep_whenFunded:
  assumes "stable exec_asset K" and "\<And>d. K d \<Longrightarrow> asset_inv d"
  shows "keeps (aworks d0 K) (whenFunded dp row)"
  unfolding whenFunded_def
  by (intro keep akeep akeep_claim akeep_settle_claimed assms) (auto split: option.splits)

lemma akeep_drive:
  assumes "stable exec_asset K" and "\<And>d. K d \<Longrightarrow> asset_inv d"
  shows "keeps (aworks d0 K) (asset_drive dp i)"
proof -
  have "keeps (aworks d0 K) (whenQuoted dp row)" for row
    unfolding whenQuoted_def by (intro keep akeep akeep_transition assms(1)) auto
  moreover have "keeps (aworks d0 K) (whenFilling dp row)" for row
    unfolding whenFilling_def by (intro keep akeep assms(1))
  ultimately show ?thesis unfolding asset_drive_def
    by (intro keep akeep akeep_state akeep_whenFunded assms)
qed

lemma akeep_drive_each:
  assumes "stable exec_asset K" and "\<And>d. K d \<Longrightarrow> asset_inv d"
  shows "keeps (aworks d0 K) (drive_each dp is)"
  by (induction "is") (simp_all only: drive_each.simps, (intro keep akeep_drive assms; assumption?)+)

section \<open>Refinement\<close>

abbreviation lawful_asset :: "asset_db \<Rightarrow> 'a asset_job \<Rightarrow> bool" where
  "lawful_asset \<equiv> lawful_run exec_asset asset_inv"

lemma asset_job:
  assumes "keeps (aworks d0 asset_inv) m" and "asset_inv d0"
  shows "lawful_asset d0 m \<and> latches_first (own_run d0 pos m)"
  by (rule follows_lawful [OF assms]) (use assms(2) in \<open>simp_all add: asset_inv_def latches_first_def\<close>)

lemma asset_jobs_keep:
  "keeps (aworks d0 asset_inv) (quoteInner dp newId request)" "keeps (aworks d0 asset_inv) (asset_drive dp i)"
  "keeps (aworks d0 asset_inv) (tickAll dp)"
  unfolding tickAll_def
  by (intro keep akeep akeep_quote akeep_drive akeep_drive_each stable_asset_inv; assumption)+

text \<open>
  C11: every job of the asset RFQ service is a run of enabled actions of its table. Whatever the wallet, the indexer, the
  feed, the approval gate and the SDK answer, whoever else acts on the table and wherever the process dies, a quote, a
  tick and a sweep insert only quotes no index refuses, move rows only along the lifecycle or back from an unsubmitted
  fill, and submit a fill only on a row latched for it, paying what the row records for a deposit that covers it; and
  each worker submits a fill at most as often as it won the latch. One negotiation holds an RFQ id, and one live row an
  offer script.
\<close>

theorem asset_service_refines:
  assumes "asset_inv d0"
  shows "lawful_asset d0 (quoteInner dp newId request) \<and> latches_first (own_run d0 pos (quoteInner dp newId request)) \<and>
    lawful_asset d0 (asset_drive dp i) \<and> latches_first (own_run d0 pos (asset_drive dp i)) \<and>
    lawful_asset d0 (tickAll dp) \<and> latches_first (own_run d0 pos (tickAll dp))"
  using asset_job [OF asset_jobs_keep(1) assms] asset_job [OF asset_jobs_keep(2) assms] asset_job [OF asset_jobs_keep(3) assms] by blast

definition asset_job_acts :: "asset_act list \<Rightarrow> bool" where
  "asset_job_acts as \<longleftrightarrow> (\<exists>dp d0 pos newId request i. asset_inv d0 \<and>
     (as = own_run d0 pos (quoteInner dp newId request) \<or> as = own_run d0 pos (asset_drive dp i) \<or> as = own_run d0 pos (tickAll dp)))"

text \<open>
  C12: the solver fills a negotiated offer at most once. Any number of workers, each running a quote, a tick or a sweep as
  the code has them with its own schedule, crashes and port answers: in every interleaving of what they did on the shared
  table at most one fill of a swap was submitted, although a claimed row can be walked back and claimed again.
\<close>

theorem asset_fills_once:
  assumes "run_all exec_asset (map snd trace) d0 = Some d" and "asset_inv d0" and "\<forall>w. asset_job_acts (acts_by w trace)"
  shows "sum_list (map (submits i) (map snd trace)) \<le> 1"
proof (rule af.submits_once [OF assms(1)])
  show "ids_distinct d0" using assms(2) by (simp add: asset_inv_def)
  show "latches_first (acts_by w trace)" for w
    using assms(3) asset_job [OF asset_jobs_keep(1)] asset_job [OF asset_jobs_keep(2)] asset_job [OF asset_jobs_keep(3)]
    unfolding asset_job_acts_def by metis
qed

text \<open>A service wired to ports that cooperate, and a table with one funded negotiation: 10000 sats for 24000 units of an asset.\<close>

definition sample_fill_ports :: FillPorts where
  "sample_fill_ports = \<lparr>fiCompile = \<lambda>_. Inr ''51'', fiDerive = \<lambda>_. Inr (''51'', ''addr''), fiDecode = \<lambda>_. None,
     fiFetchTx = \<lambda>_ _. Inr None,
     fiOutpointsAt = \<lambda>_ _. Inr [\<lparr>depSats = 10000, depAssets = [], outTxid = ''d'', outVout = 0\<rparr>],
     fiSpendable = \<lambda>_. Inr [\<lparr>coinTxid = ''c'', coinVout = 1, coinValue = 330\<rparr>], fiReserved = \<lambda>_. [], fiDustSats = 330,
     fiSelectVirtualCoins = \<lambda>coins _. Inr coins, fiSelectCoinsWithAsset = \<lambda>coins _ _. Inr coins,
     fiFillOffer = \<lambda>_ _ _ _. Inr ''f''\<rparr>"

definition sample_asset_deps :: AssetRfqDeps where
  "sample_asset_deps = \<lparr>adSchedule = \<lparr>scRival = \<lambda>_ _. [], scCrash = \<lambda>_. False, scClock = \<lambda>_. 1700000010\<rparr>, adMarkets = [],
     adSolverPubkey = ''k'', adQuoteValiditySeconds = 30, adDustSats = 330, adQuotaTake = \<lambda>_ _. True,
     adBalance = \<lambda>_. Inr \<lparr>sbAvailable = 5000, sbAvailableAssets = [(''u'', 50000)]\<rparr>,
     adFetchPrice = \<lambda>_ _ _. Inl (Thrown ''feed''), adPorts = sample_fill_ports, adApprovalGate = None\<rparr>"

definition sample_asset_quote :: AssetRfqQuoteRecord where
  "sample_asset_quote = \<lparr>akId = ''a'', akRfqId = ''r'', akPair = ''p'', akFromAssetId = None, akFromAmount = 10000,
     akToAssetId = Some ''u'', akToAmount = 24000, akMakerPkScript = ''m'', akMakerPublicKey = ''n'', akOfferPkScript = ''51'',
     akOfferAddress = ''addr'', akSolverPubkey = ''k'', akValidUntil = 1700000030, akQuotePrice = None\<rparr>"

definition sample_asset_db :: asset_db where
  "sample_asset_db = \<lparr>dbRows = [(set_fields [(AS_deposit_txid, SText ''d''), (AS_deposit_vout, SInt 0)]
     (asset_quote_row sample_asset_quote 1700000000))\<lparr>rwState := Ar_funded\<rparr>], dbEvents = []\<rparr>"

definition sample_asset_acts :: "asset_act list" where
  "sample_asset_acts =
     (let tm = 1700000010; note = (\<lambda>s t. FSt (Note \<lparr>evSwap = ''a'', evAt = tm, evFrom = Some s, evTo = t, evDetail = None\<rparr>)) in
     [FSt (Cas ''a'' Ar_funded Ar_filling [(AS_deposit_txid, SText ''d''), (AS_deposit_vout, SInt 0), (AS_fill_phase, SText ''selecting'')] tm),
      note Ar_funded Ar_filling, MarkSubmitting ''a'' tm, SubmitFill ''a'' 24000 (Some ''u'') None 10000,
      FSt (Cas ''a'' Ar_filling Ar_filled [(AS_fill_txid, SText ''f'')] tm), note Ar_filling Ar_filled])"

lemmas asset_table = ASSET_SHAPE_def ASSET_LATCH_def ASSET_TRANSITION_COLUMNS_def ASSET_NON_TERMINAL_def ASSET_EXPOSED_def

lemmas sample_asset_table = sample_asset_db_def asset_quote_row_def asset_quote_cols_def sample_asset_quote_def set_fields_def row_of_def

lemmas store_steps = cas_def update_rows_def add_event_def latch_row_def selecting_def priced_at_def

lemma sample_asset_run: "own_run sample_asset_db 0 (asset_drive sample_asset_deps ''a'') = sample_asset_acts"
  by (simp add: own_run_def asset_drive_def findRow_def read_db_def write_db_def bnd_def ret_def throw_def await_def now_def ask_def perform_def
      catch_def only_if_def from_result_def sample_asset_deps_def sample_asset_table asset_toRow_def Let_def whenFunded_def depositAt_def asset_balance_def
      largestOfferOutpoint_def heldOf_def offerInventoryFrom_def evaluateAssetFill_def refuse_if_def asset_askApproval_def
      transition_def transitionWhere_def assertColumns_def logged_write_def recordEvent_def asset_table store_steps
      settle_claimed_def asset_get_def quotedOfferSettle_def asset_intent_def quoted_terms_def offerFromTerms_def sample_fill_ports_def assertSafeSats_def
      fulfillOffer_def offerIsConsistent_def outpointKey_def select_funding_def markSubmitting_def logged_act_def held_by_spend_def recordFillMark_def
      sample_asset_acts_def)

lemma sample_asset_runs: "\<exists>d. run_all exec_asset sample_asset_acts sample_asset_db = Some d"
  by (simp add: sample_asset_acts_def Let_def sample_asset_table asset_table store_steps)

lemma sample_asset_inv: "asset_inv sample_asset_db"
  by (auto simp: asset_inv_def sample_asset_table asset_table ids_distinct_def unique_in_def typed_terms_def split: if_splits)

theorem asset_service_refines_witness:
  "lawful_asset sample_asset_db (asset_drive sample_asset_deps ''a'') \<and> lawful_asset sample_asset_db (tickAll sample_asset_deps) \<and>
   latches_first sample_asset_acts"
  using asset_service_refines [OF sample_asset_inv, of sample_asset_deps _ _ 0 "''a''"] sample_asset_run by metis

lemma asset_job_acts_idle: "asset_job_acts []"
proof -
  let ?d = "\<lparr>dbRows = [], dbEvents = []\<rparr> :: asset_db"
  have "asset_inv ?d" by (simp add: asset_inv_def ids_distinct_def unique_in_def row_of_def)
  moreover have "own_run ?d 0 (asset_drive sample_asset_deps ''a'') = []"
    by (simp add: own_run_def asset_drive_def findRow_def read_db_def bnd_def ret_def await_def sample_asset_deps_def row_of_def)
  ultimately show ?thesis unfolding asset_job_acts_def by metis
qed

theorem asset_fills_once_witness:
  "sum_list (map (submits ''a'') (map snd (map (Pair (0::nat)) sample_asset_acts))) \<le> 1 \<and>
   SubmitFill ''a'' 24000 (Some ''u'') None 10000 \<in> set sample_asset_acts"
proof -
  let ?t = "map (Pair (0::nat)) sample_asset_acts"
  have ids: "map snd ?t = sample_asset_acts" "acts_by 0 ?t = sample_asset_acts" "acts_by (Suc n) ?t = []" for n
    by (simp_all add: acts_by_def filter_map o_def)
  have "asset_job_acts sample_asset_acts" unfolding asset_job_acts_def using sample_asset_inv sample_asset_run by metis
  then have "\<forall>w. asset_job_acts (acts_by w ?t)" using ids(2,3) asset_job_acts_idle by (metis not0_implies_Suc)
  moreover obtain d where "run_all exec_asset (map snd ?t) sample_asset_db = Some d" using sample_asset_runs ids(1) by auto
  ultimately have "sum_list (map (submits ''a'') (map snd ?t)) \<le> 1"
    using asset_fills_once [OF _ sample_asset_inv] by blast
  then show ?thesis by (simp add: sample_asset_acts_def Let_def)
qed

end
