(* ===== verification/Asset_Offers.thy ===== *)
theory Asset_Offers
  imports Offer_Fill
begin

text \<open>
  \<^verbatim>\<open>solver-corridors/src/db/offerFills.ts\<close> and \<^verbatim>\<open>solver-app/src/ops/assetOffers.ts\<close>: offers published by makers. A discovered
  offer that can be filled at an accepted price becomes a row; a sweep re-checks the price, claims the row and fills it
  through \<^verbatim>\<open>offerSettle.ts\<close>. The jobs of one process run one at a time (\<open>createSerialiser\<close>). The number of deferrals per
  row is memory of the process: a sweep takes it and returns it.
\<close>

section \<open>The table\<close>

datatype OfferFillState = Of_fillable | Of_filling | Of_filled | Of_lost | Of_refused | Of_stuck

datatype offer_col =
    OF_offer_txid | OF_offer_vout | OF_offer_pk_script | OF_want_asset_id | OF_want_amount | OF_offer_asset_id | OF_offer_amount
  | OF_fill_txid | OF_failure_reason | OF_rfq_id | OF_fill_phase

definition OFFER_NON_TERMINAL :: "OfferFillState list" where
  "OFFER_NON_TERMINAL = [Of_fillable, Of_filling]"

fun OFFER_LEGAL_EDGES :: "OfferFillState \<Rightarrow> OfferFillState list" where
  "OFFER_LEGAL_EDGES Of_fillable = [Of_filling, Of_refused, Of_lost]"
| "OFFER_LEGAL_EDGES Of_filling = [Of_filled, Of_lost, Of_stuck]"
| "OFFER_LEGAL_EDGES _ = []"

definition OFFER_TRANSITION_COLUMNS :: "offer_col list" where
  "OFFER_TRANSITION_COLUMNS = [OF_fill_txid, OF_failure_reason, OF_fill_phase]"

text \<open>
  The store is not built on \<^verbatim>\<open>baseSwapStore.ts\<close> but its \<open>transition\<close>, \<open>recordEvent\<close> and \<open>fail\<close> are the same statements:
  \<open>fail\<close> sends \<open>fillable\<close> to \<open>refused\<close> and \<open>filling\<close> to \<open>stuck\<close>. It has no payment hash.
\<close>

definition OFFER_SHAPE :: "(OfferFillState, offer_col) StoreShape" where
  "OFFER_SHAPE = \<lparr>shNoun = ''offer fill'', shLabel = ''offer fill lifecycle'', shEdges = OFFER_LEGAL_EDGES,
     shTransitionColumns = OFFER_TRANSITION_COLUMNS, shPatchColumns = [], shLive = OFFER_NON_TERMINAL, shExposed = [Of_filling],
     shStart = Of_fillable, shStuck = Of_stuck, shRefused = Of_refused, shPaymentHash = OF_offer_txid, shRfqId = OF_rfq_id,
     shPkScript = OF_offer_pk_script, shAmount = OF_want_amount, shFailure = OF_failure_reason, shLease = None, shOnce = None\<rparr>"

definition OFFER_LATCH :: "(OfferFillState, offer_col) Latch" where
  "OFFER_LATCH = \<lparr>laReady = Of_fillable, laFilling = Of_filling, laPhase = OF_fill_phase, laWant = OF_want_amount,
     laWantAsset = OF_want_asset_id, laOfferAsset = OF_offer_asset_id, laDeposit = OF_offer_amount, laMarks = []\<rparr>"

record OfferFillRow =
  orwId :: string
  orwState :: OfferFillState
  orwFillPhase :: "string option"
  orwCreatedAt :: int
  orwUpdatedAt :: int
  orwOfferTxid :: string
  orwOfferVout :: int
  orwOfferPkScript :: string
  orwWantAssetId :: AssetLeg
  orwWantAmount :: int
  orwOfferAssetId :: AssetLeg
  orwOfferAmount :: int
  orwFillTxid :: "string option"
  orwFailureReason :: "string option"
  orwRfqId :: "string option"

type_synonym offer_raw = "(OfferFillState, offer_col) raw"
type_synonym offer_db = "(OfferFillState, offer_col) db"
type_synonym offer_act = "(OfferFillState, offer_col) fill_act"
type_synonym 'a offer_job = "(OfferFillState, offer_col, 'a) fill_job"

definition offer_toRow :: "offer_raw \<Rightarrow> OfferFillRow" where
  "offer_toRow raw = (let c = rwCols raw in
     \<lparr>orwId = rwId raw, orwState = rwState raw, orwFillPhase = textOf (c OF_fill_phase), orwCreatedAt = rwCreated raw,
      orwUpdatedAt = rwUpdated raw, orwOfferTxid = sql_text (c OF_offer_txid), orwOfferVout = sql_int (c OF_offer_vout),
      orwOfferPkScript = sql_text (c OF_offer_pk_script), orwWantAssetId = textOf (c OF_want_asset_id),
      orwWantAmount = sql_int (c OF_want_amount), orwOfferAssetId = textOf (c OF_offer_asset_id),
      orwOfferAmount = sql_int (c OF_offer_amount), orwFillTxid = textOf (c OF_fill_txid),
      orwFailureReason = textOf (c OF_failure_reason), orwRfqId = textOf (c OF_rfq_id)\<rparr>)"

record OfferFillRecord =
  oicId :: string
  oicOfferTxid :: string
  oicOfferVout :: int
  oicOfferPkScript :: string
  oicInput :: OfferFillInput
  oicRfqId :: "string option"

definition offer_intent_cols :: "OfferFillRecord \<Rightarrow> offer_col \<Rightarrow> sqlval" where
  "offer_intent_cols q c = (case c of
     OF_offer_txid \<Rightarrow> SText (oicOfferTxid q) | OF_offer_vout \<Rightarrow> SInt (oicOfferVout q) | OF_offer_pk_script \<Rightarrow> SText (oicOfferPkScript q)
   | OF_want_asset_id \<Rightarrow> opt_text (ofWantAssetId (oicInput q)) | OF_want_amount \<Rightarrow> SInt (ofWantAmount (oicInput q))
   | OF_offer_asset_id \<Rightarrow> opt_text (ofOfferAssetId (oicInput q)) | OF_offer_amount \<Rightarrow> SInt (ofOfferAmount (oicInput q))
   | OF_rfq_id \<Rightarrow> opt_text (oicRfqId q) | _ \<Rightarrow> SNull)"

definition offer_intent_row :: "OfferFillRecord \<Rightarrow> int \<Rightarrow> offer_raw" where
  "offer_intent_row q tm = \<lparr>rwId = oicId q, rwState = Of_fillable, rwCreated = tm, rwUpdated = tm, rwCols = offer_intent_cols q\<rparr>"

text \<open>The unique index: one row per funded outpoint among those that may still spend it or have.\<close>

definition OFFER_INDEXED :: "OfferFillState list" where
  "OFFER_INDEXED = [Of_fillable, Of_filling, Of_filled]"

definition offer_conflict :: "offer_raw \<Rightarrow> offer_db \<Rightarrow> bool" where
  "offer_conflict r d \<longleftrightarrow> taken_in [OF_offer_txid, OF_offer_vout] OFFER_INDEXED r d"

definition offer_fresh :: "offer_raw \<Rightarrow> offer_db \<Rightarrow> bool" where
  "offer_fresh r d \<longleftrightarrow> typed_terms OFFER_LATCH r \<and> \<not> offer_conflict r d"

abbreviation exec_offer :: "offer_act \<Rightarrow> offer_db \<Rightarrow> offer_db option" where
  "exec_offer \<equiv> exec_fill OFFER_SHAPE OFFER_LATCH offer_fresh"

definition findLiveByOutpoint :: "string \<Rightarrow> int \<Rightarrow> offer_db \<Rightarrow> offer_raw option" where
  "findLiveByOutpoint txid vout d = find (\<lambda>r. rwCols r OF_offer_txid = SText txid \<and> rwCols r OF_offer_vout = SInt vout \<and>
     rwState r \<in> set OFFER_INDEXED) (dbRows d)"

text \<open>\<open>ORDER BY created_at DESC, rowid DESC LIMIT 1\<close>.\<close>

definition offer_findByRfqId :: "string \<Rightarrow> offer_db \<Rightarrow> OfferFillRow option" where
  "offer_findByRfqId rfqId d = map_option offer_toRow
     (first_of (rev (sort_key rwCreated (filter (\<lambda>r. rwCols r OF_rfq_id = SText rfqId) (dbRows d)))))"

definition offer_listNonTerminal :: "offer_db \<Rightarrow> OfferFillRow list" where
  "offer_listNonTerminal d = map offer_toRow (by_created (filter (\<lambda>r. rwState r \<in> set OFFER_NON_TERMINAL) (dbRows d)))"

section \<open>The service\<close>

record AssetMarketPricing = OfferPriceMarket +
  mpBase :: AssetLeg
  mpQuote :: AssetLeg
  mpFeedUrl :: string
  mpPricePath :: string
  mpSellBase :: "(int \<times> int) option"
  mpBuyBase :: "(int \<times> int) option"

text \<open>
  \<open>ofChecksScript\<close> and \<open>ofSettles\<close> tell whether the optional dependencies \<open>serverPubkey\<close> and \<open>settle\<close> are given.
\<close>

record AssetOfferDeps =
  ofSchedule :: "(offer_db, offer_act) schedule"
  ofMarkets :: "(AssetLeg \<times> AssetLeg) list"
  ofMinFillAmount :: int
  ofMaxFillAmount :: int
  ofBalance :: "nat \<Rightarrow> exn + SpendableBalance"
  ofOutputsAt :: "nat \<Rightarrow> string \<Rightarrow> exn + OfferOutputView list"
  ofChecksScript :: bool
  ofPricing :: "AssetMarketPricing list option"
  ofFetchPrice :: "(nat \<Rightarrow> string \<Rightarrow> string \<Rightarrow> exn + Price) option"
  ofCarrierSats :: int
  ofChargesDeliveredCarrier :: bool
  ofSettles :: bool
  ofPorts :: FillPorts
  ofApprovalGate :: "(nat \<Rightarrow> string \<Rightarrow> AssetLeg \<Rightarrow> int \<Rightarrow> exn + bool) option"

definition MAX_FILL_DEFERRALS :: nat where
  "MAX_FILL_DEFERRALS = 40"

abbreviation ostore :: "AssetOfferDeps \<Rightarrow> (OfferFillState, offer_col) fill_store" where
  "ostore dp \<equiv> \<lparr>soShape = OFFER_SHAPE, soExec = exec_offer, soAct = FSt, soSchedule = ofSchedule dp\<rparr>"

abbreviation ofcall :: "AssetOfferDeps \<Rightarrow> (nat \<Rightarrow> exn + 'a) \<Rightarrow> 'a offer_job" where
  "ofcall dp \<equiv> ask exec_offer (ofSchedule dp)"

definition insertIntent :: "AssetOfferDeps \<Rightarrow> OfferFillRecord \<Rightarrow> OfferFillRow offer_job" where
  "insertIntent dp q =
     bnd (now (ofSchedule dp)) (\<lambda>tm.
     bnd (insertFill (ostore dp) offer_conflict (offer_intent_row q tm)) (\<lambda>raw. ret (offer_toRow raw)))"

fun pricing_among :: "AssetMarketPricing list \<Rightarrow> OfferFillInput \<Rightarrow> (AssetMarketPricing \<times> OfferDirection) option" where
  "pricing_among [] input = None"
| "pricing_among (m # ms) input = (case offerDirectionOn (mpBase m) (mpQuote m) (ofOfferAssetId input) (ofWantAssetId input) of
     Some direction \<Rightarrow> Some (m, direction) | None \<Rightarrow> pricing_among ms input)"

definition pricingFor :: "AssetOfferDeps \<Rightarrow> OfferFillInput \<Rightarrow> (AssetMarketPricing \<times> OfferDirection) option" where
  "pricingFor dp input = pricing_among (case ofPricing dp of None \<Rightarrow> [] | Some ms \<Rightarrow> ms) input"

definition boundsFor :: "AssetOfferDeps \<Rightarrow> OfferFillInput \<Rightarrow> (int \<times> int) option" where
  "boundsFor dp input = (case pricingFor dp input of
     None \<Rightarrow> None
   | Some (market, direction) \<Rightarrow> (if direction = Sell_base then mpSellBase market else mpBuyBase market))"

definition boundsIn :: "AssetOfferDeps \<Rightarrow> OfferFillInput \<Rightarrow> int \<times> int" where
  "boundsIn dp input = (case boundsFor dp input of None \<Rightarrow> (ofMinFillAmount dp, ofMaxFillAmount dp) | Some b \<Rightarrow> b)"

definition tolerance_args :: "AssetOfferDeps \<Rightarrow> OfferFillInput \<Rightarrow> AssetMarketPricing \<Rightarrow> OfferDirection \<Rightarrow> Price \<Rightarrow> OfferPriceArgs" where
  "tolerance_args dp input market direction feed =
     (let fronted = (ofOfferAssetId input \<noteq> None); delivered = (ofWantAssetId input \<noteq> None) in
     \<lparr>ooDepositAmount = ofOfferAmount input, ooWantAmount = ofWantAmount input, ooDirection = direction,
      ooMarket = OfferPriceMarket.truncate market, ooFeed = feed,
      ooCarrierCharged = (if delivered \<and> \<not> fronted \<and> ofChargesDeliveredCarrier dp then ofCarrierSats dp else 0),
      ooCarrierReturned = (if fronted \<and> \<not> delivered then ofCarrierSats dp else 0)\<rparr>)"

definition withinTolerance :: "AssetOfferDeps \<Rightarrow> OfferFillInput \<Rightarrow> bool offer_job" where
  "withinTolerance dp input =
     (if ofPricing dp = None then ret True
      else case (pricingFor dp input, ofFetchPrice dp) of
        (Some (market, direction), Some fetchPrice) \<Rightarrow>
          catch (bnd (ofcall dp (\<lambda>n. fetchPrice n (mpFeedUrl market) (mpPricePath market))) (\<lambda>feed.
              from_result (offerWithinTolerance (tolerance_args dp input market direction feed))))
            (\<lambda>_. ret False)
      | _ \<Rightarrow> ret False)"

definition considerInner :: "AssetOfferDeps \<Rightarrow> string \<Rightarrow> Offer \<Rightarrow> string \<Rightarrow> int \<Rightarrow> (OfferFillRefusal + string) offer_job" where
  "considerInner dp newId offer txid vout =
     bnd (read_db exec_offer (ofSchedule dp) (\<lambda>d. Inr (findLiveByOutpoint txid vout d))) (\<lambda>existing.
     case existing of
       Some raw \<Rightarrow> ret (Inr (rwId raw))
     | None \<Rightarrow>
         if ofChecksScript dp \<and> \<not> offerIsConsistent (fiCompile (ofPorts dp)) offer then ret (Inl Ofr_offer_inconsistent)
         else let pkScript = ofrSwapPkScript offer in
           bnd (ofcall dp (\<lambda>n. ofOutputsAt dp n pkScript)) (\<lambda>outputs.
           bnd (from_result (offerDepositFrom pkScript outputs)) (\<lambda>deposit.
           let input = offerFillInputFrom offer deposit; bounds = boundsIn dp input in
           bnd (ofcall dp (ofBalance dp)) (\<lambda>balance.
           case evaluateOfferFill input \<lparr>opMarkets = ofMarkets dp, opAvailable = offerInventoryFrom balance,
              opMinFillAmount = fst bounds, opMaxFillAmount = snd bounds\<rparr> of
             Inl reason \<Rightarrow> ret (Inl reason)
           | Inr _ \<Rightarrow>
               bnd (withinTolerance dp input) (\<lambda>priced.
               if \<not> priced then ret (Inl Ofr_price_out_of_tolerance)
               else bnd (insertIntent dp \<lparr>oicId = newId, oicOfferTxid = txid, oicOfferVout = vout, oicOfferPkScript = pkScript,
                     oicInput = input, oicRfqId = None\<rparr>) (\<lambda>row. ret (Inr (orwId row))))))))"

text \<open>The transactions of a stream, each with the identifier that would be drawn for its row.\<close>

fun consumeOfferTxs :: "AssetOfferDeps \<Rightarrow> (string \<times> string) list \<Rightarrow> unit offer_job" where
  "consumeOfferTxs dp [] = ret ()"
| "consumeOfferTxs dp ((newId, tx) # txs) =
     thn (catch (case offerFromFundingTx (fiDecode (ofPorts dp)) tx of
           None \<Rightarrow> ret ()
         | Some found \<Rightarrow> thn (considerInner dp newId (dtOffer found) (dtTxid found) (dtVout found)) (ret ()))
         (\<lambda>_. ret ()))
       (consumeOfferTxs dp txs)"

section \<open>The sweep\<close>

definition offer_askApproval :: "AssetOfferDeps \<Rightarrow> string \<Rightarrow> AssetLeg \<Rightarrow> int \<Rightarrow> bool offer_job" where
  "offer_askApproval dp swapId assetId amount = (case ofApprovalGate dp of
     None \<Rightarrow> ret True | Some gate \<Rightarrow> ofcall dp (\<lambda>n. gate n swapId assetId amount))"

definition row_terms :: "OfferFillRow \<Rightarrow> OfferFillInput" where
  "row_terms row = \<lparr>ofWantAssetId = orwWantAssetId row, ofWantAmount = orwWantAmount row, ofOfferAssetId = orwOfferAssetId row,
     ofOfferAmount = orwOfferAmount row\<rparr>"

definition row_intent :: "OfferFillRow \<Rightarrow> OfferFillIntent" where
  "row_intent row = \<lparr>fnOfferTxid = orwOfferTxid row, fnOfferVout = orwOfferVout row, fnOfferPkScript = orwOfferPkScript row,
     fnWantAssetId = orwWantAssetId row, fnWantAmount = orwWantAmount row, fnOfferAssetId = orwOfferAssetId row, fnOfferAmount = orwOfferAmount row\<rparr>"

definition amountsOf :: "OfferFillInput \<Rightarrow> string" where
  "amountsOf input = ''wants '' @ show_int (ofWantAmount input) @ '' '' @ leg_ticker (ofWantAssetId input) @ '' for '' @
     show_int (ofOfferAmount input) @ '' '' @ leg_ticker (ofOfferAssetId input)"

definition recoverFilling :: "AssetOfferDeps \<Rightarrow> OfferFillRow \<Rightarrow> unit offer_job" where
  "recoverFilling dp row =
     (if orwFillPhase row = Some ''selecting'' then thn (revertUnsubmitted (ostore dp) OFFER_LATCH (orwId row)) (ret ())
      else failFill (ostore dp) (orwId row) Of_filling ''fill outcome unknown after restart; check the offer address'')"

fun recover_each :: "AssetOfferDeps \<Rightarrow> OfferFillRow list \<Rightarrow> unit offer_job" where
  "recover_each dp [] = ret ()"
| "recover_each dp (row # rows) = thn (only_if (orwState row = Of_filling) (recoverFilling dp row)) (recover_each dp rows)"

type_synonym deferrals = "string \<Rightarrow> nat"

text \<open>A claimed row: filled, put back for a later sweep, or in need of a human.\<close>

definition settle_offer :: "AssetOfferDeps \<Rightarrow> OfferFillRow \<Rightarrow> deferrals \<Rightarrow> (nat \<times> deferrals) offer_job" where
  "settle_offer dp row deferrals =
     catch (bnd (offerSettle (ofPorts dp) (ostore dp) OFFER_LATCH (orwId row) (row_intent row)) (\<lambda>txid.
        thn (transition (ostore dp) (orwId row) Of_filling Of_filled [(OF_fill_txid, SText txid)]) (ret (1, deferrals))))
       (\<lambda>e. let count = deferrals (orwId row) + 1 in
        case e of
          OfferNotSubmitted reason \<Rightarrow>
            if count \<le> MAX_FILL_DEFERRALS
            then bnd (revertUnsubmitted (ostore dp) OFFER_LATCH (orwId row)) (\<lambda>put_back.
              ret (0, if put_back then deferrals(orwId row := count) else deferrals))
            else thn (failFill (ostore dp) (orwId row) Of_filling (reason @ ''; '' @ show_nat MAX_FILL_DEFERRALS @ '' retries exhausted'')) (ret (0, deferrals))
        | _ \<Rightarrow> thn (failFill (ostore dp) (orwId row) Of_filling (message e)) (ret (0, deferrals)))"

definition fill_offer :: "AssetOfferDeps \<Rightarrow> OfferFillRow \<Rightarrow> deferrals \<Rightarrow> (nat \<times> deferrals) offer_job" where
  "fill_offer dp row deferrals =
     (if orwState row \<noteq> Of_fillable then ret (0, deferrals)
      else bnd (withinTolerance dp (row_terms row)) (\<lambda>priced.
        if \<not> priced
        then thn (failFill (ostore dp) (orwId row) Of_fillable (''price_out_of_tolerance; '' @ amountsOf (row_terms row))) (ret (0, deferrals))
        else bnd (offer_askApproval dp (orwId row) (orwWantAssetId row) (orwWantAmount row)) (\<lambda>approved.
          if \<not> approved then ret (0, deferrals)
          else bnd (transition (ostore dp) (orwId row) Of_fillable Of_filling [(OF_fill_phase, SText ''selecting'')]) (\<lambda>won.
            if \<not> won then ret (0, deferrals) else settle_offer dp row deferrals))))"

fun fill_each :: "AssetOfferDeps \<Rightarrow> OfferFillRow list \<Rightarrow> deferrals \<Rightarrow> (nat \<times> deferrals) offer_job" where
  "fill_each dp [] deferrals = ret (0, deferrals)"
| "fill_each dp (row # rows) deferrals =
     bnd (fill_offer dp row deferrals) (\<lambda>(n, kept). bnd (fill_each dp rows kept) (\<lambda>(m, left). ret (n + m, left)))"

definition tickAllInner :: "AssetOfferDeps \<Rightarrow> deferrals \<Rightarrow> (nat \<times> deferrals) offer_job" where
  "tickAllInner dp deferrals =
     (if \<not> ofSettles dp then ret (0, deferrals)
      else bnd (read_db exec_offer (ofSchedule dp) (\<lambda>d. Inr (offer_listNonTerminal d))) (\<lambda>rows.
        let live = set (map orwId rows); kept = (\<lambda>i. if i \<in> live then deferrals i else 0) in
        thn (recover_each dp rows) (fill_each dp rows kept)))"

end
