(* ===== verification/Offer_Refinement.thy ===== *)
theory Offer_Refinement
  imports Asset_Offers
begin

text \<open>
  The service for published offers keeps to the contract of \<open>Fill_Latch\<close>, with the table of \<^verbatim>\<open>db/offerFills.ts\<close>: deciding an
  offer and sweeping the recorded ones perform only enabled actions, whatever the relay, the feed and the wallet answer.
\<close>

section \<open>The contract\<close>

interpretation of: fill_table OFFER_SHAPE OFFER_LATCH offer_fresh "{Of_filling, Of_filled, Of_lost, Of_stuck}"
proof unfold_locales
  fix s t
  assume "s \<in> {Of_filling, Of_filled, Of_lost, Of_stuck}" and "t \<in> set (shEdges OFFER_SHAPE s)"
  then show "t \<in> {Of_filling, Of_filled, Of_lost, Of_stuck}" by (auto simp: OFFER_SHAPE_def)
next
  fix s
  assume "laFilling OFFER_LATCH \<in> set (shEdges OFFER_SHAPE s)"
  then show "s \<notin> {Of_filling, Of_filled, Of_lost, Of_stuck}" by (cases s) (auto simp: OFFER_SHAPE_def OFFER_LATCH_def)
qed (auto simp: OFFER_SHAPE_def OFFER_LATCH_def OFFER_TRANSITION_COLUMNS_def offer_fresh_def)

definition offer_inv :: "offer_db \<Rightarrow> bool" where
  "offer_inv d \<longleftrightarrow> ids_distinct d \<and> (\<forall>i r. row_of d i = Some r \<longrightarrow> typed_terms OFFER_LATCH r) \<and>
     unique_in [OF_offer_txid, OF_offer_vout] (set OFFER_INDEXED) d"

lemma offer_steps_back: "of.steps_to s t \<Longrightarrow> t \<in> set OFFER_INDEXED \<Longrightarrow> s \<in> set OFFER_INDEXED"
  unfolding of.steps_to_def by (cases s) (auto simp: OFFER_SHAPE_def OFFER_LATCH_def OFFER_INDEXED_def)

lemma offer_inv_step:
  assumes "offer_inv d" and "exec_offer a d = Some d'"
  shows "offer_inv d'"
proof -
  have d: "ids_distinct d" "unique_in [OF_offer_txid, OF_offer_vout] (set OFFER_INDEXED) d" using assms(1) by (simp_all add: offer_inv_def)
  have "of.rows_typed d'" using of.stable_typed assms d(1) unfolding stable_def offer_inv_def by metis
  moreover have "set [OF_offer_txid, OF_offer_vout] \<inter> of.writable = {}"
    by (auto simp: OFFER_SHAPE_def OFFER_LATCH_def OFFER_TRANSITION_COLUMNS_def)
  then have "unique_in [OF_offer_txid, OF_offer_vout] (set OFFER_INDEXED) d'"
    by (rule of.keeps_unique [OF assms(2) d _ offer_steps_back])
      (use not_taken [of "[OF_offer_txid, OF_offer_vout]" OFFER_INDEXED _ d] in \<open>auto simp: offer_fresh_def offer_conflict_def\<close>)
  ultimately show ?thesis using of.fill_ids [OF assms(2) d(1)] by (simp add: offer_inv_def)
qed

lemma stable_offer_inv: "stable exec_offer offer_inv"
  unfolding stable_def using offer_inv_step by blast

section \<open>Jobs\<close>

abbreviation oworks :: "offer_db \<Rightarrow> (offer_db \<Rightarrow> bool) \<Rightarrow> (offer_db, offer_act) world \<Rightarrow> bool" where
  "oworks d0 K \<equiv> follows exec_offer d0 latches_first K"

named_theorems ofkeep

lemma ofkeep_reads [ofkeep]:
  assumes "stable exec_offer K"
  shows "keeps (oworks d0 K) (now sc)" "keeps (oworks d0 K) (ask exec_offer sc f)" "keeps (oworks d0 K) (read_db exec_offer sc g)"
    "keeps (oworks d0 K) (offer_askApproval dp i leg v)"
  unfolding offer_askApproval_def
  by (intro keep of.fkeep_now of.fkeep_ask of.fkeep_read assms)+

lemma ofkeep_tolerance [ofkeep]:
  assumes "stable exec_offer K"
  shows "keeps (oworks d0 K) (withinTolerance dp input)"
  unfolding withinTolerance_def
  by (cases "pricingFor dp input"; cases "ofFetchPrice dp"; simp only: option.case prod.case split_beta)
    (intro keep ofkeep_reads assms keeps_from_result)+

lemma ofkeep_writes [ofkeep]:
  assumes "stable exec_offer K"
  shows "keeps (oworks d0 K) (revertUnsubmitted (of.here sc) OFFER_LATCH i)" "keeps (oworks d0 K) (failFill (of.here sc) i s reason)"
    "keeps (oworks d0 K) (transition (of.here sc) i s Of_filled [(OF_fill_txid, v)])"
    "keeps (oworks d0 K) (transition (of.here sc) i s Of_filling [(OF_fill_phase, SText ''selecting'')])"
  by (intro of.wkeep_revert of.wkeep_fail of.wkeep_transition assms; simp add: OFFER_LATCH_def OFFER_SHAPE_def)+

lemma offer_intent_fresh:
  "rwState (offer_intent_row q tm) = shStart OFFER_SHAPE" "rwCols (offer_intent_row q tm) (laPhase OFFER_LATCH) = SNull"
  "\<not> offer_conflict (offer_intent_row q tm) d \<Longrightarrow> offer_fresh (offer_intent_row q tm) d"
  by (simp_all add: offer_intent_row_def offer_intent_cols_def OFFER_SHAPE_def OFFER_LATCH_def offer_fresh_def typed_terms_def)

lemma ofkeep_insert [ofkeep]:
  assumes "stable exec_offer K"
  shows "keeps (oworks d0 K) (insertIntent dp q)"
  unfolding insertIntent_def by (intro keep ofkeep assms of.wkeep_insert offer_intent_fresh)

lemma ofkeep_consider [ofkeep]:
  assumes "stable exec_offer K"
  shows "keeps (oworks d0 K) (considerInner dp newId offer txid vout)"
  unfolding considerInner_def by (intro keep ofkeep assms keeps_from_result)

lemma ofkeep_consume:
  assumes "stable exec_offer K"
  shows "keeps (oworks d0 K) (consumeOfferTxs dp txs)"
  by (induction txs) (auto intro!: keep ofkeep assms)

lemma ofkeep_recover:
  assumes "stable exec_offer K"
  shows "keeps (oworks d0 K) (recover_each dp rows)"
  by (induction rows) (auto simp: recoverFilling_def intro!: keep ofkeep assms)

text \<open>A row of the list a sweep read keeps the terms it was read with.\<close>

definition listed :: "OfferFillRow list \<Rightarrow> offer_db \<Rightarrow> bool" where
  "listed rows d \<longleftrightarrow> (\<forall>row \<in> set rows. of.terms_in (orwId row) (orwWantAmount row) (orwWantAssetId row) (orwOfferAssetId row) (orwOfferAmount row) d)"

lemma stable_listed: "stable exec_offer (listed rows)"
  unfolding stable_def listed_def using of.stable_terms unfolding stable_def by blast

lemma listed_rows:
  assumes "offer_inv d"
  shows "listed (offer_listNonTerminal d) d"
  unfolding listed_def
proof
  fix row
  assume "row \<in> set (offer_listNonTerminal d)"
  then obtain r where r: "r \<in> set (dbRows d)" "row = offer_toRow r" by (auto simp: offer_listNonTerminal_def by_created_def)
  then have "row_of d (rwId r) = Some r" using assms by (simp add: row_of_eq offer_inv_def)
  moreover from this have "typed_terms OFFER_LATCH r" using assms by (auto simp: offer_inv_def)
  ultimately show "of.terms_in (orwId row) (orwWantAmount row) (orwWantAssetId row) (orwOfferAssetId row) (orwOfferAmount row) d"
    using typed_priced [of OFFER_LATCH r] by (simp add: r(2) offer_toRow_def Let_def OFFER_LATCH_def)
qed

lemma ofkeep_fill:
  assumes K: "stable exec_offer K" and row: "\<And>d. K d \<Longrightarrow> listed rows d" "row \<in> set rows"
  shows "keeps (oworks d0 K) (fill_offer dp row deferrals)"
proof -
  have "of.terms_in (orwId row) (fnWantAmount (row_intent row)) (fnWantAssetId (row_intent row)) (fnOfferAssetId (row_intent row))
      (fnOfferAmount (row_intent row)) d" if "K d" for d
    using row(1) [OF that] row(2) by (simp add: listed_def row_intent_def)
  then have "keeps (oworks d0 K) (offerSettle (ofPorts dp) (ostore dp) OFFER_LATCH (orwId row) (row_intent row))"
    by (rule of.wkeep_offerSettle [OF K])
  then have "keeps (oworks d0 K) (settle_offer dp row deferrals)"
    unfolding settle_offer_def by (intro keep ofkeep K)
  then show ?thesis unfolding fill_offer_def by (intro keep ofkeep K)
qed

lemma ofkeep_fill_each:
  assumes K: "stable exec_offer K" and rows: "\<And>d. K d \<Longrightarrow> listed rows d"
  shows "set some \<subseteq> set rows \<Longrightarrow> keeps (oworks d0 K) (fill_each dp some deferrals)"
proof (induction "some" arbitrary: deferrals)
  case (Cons row some)
  then have "keeps (oworks d0 K) (fill_offer dp row deferrals)" for deferrals by (intro ofkeep_fill [OF K rows]) auto
  then show ?case unfolding fill_each.simps using Cons by (intro keep) auto
qed (simp add: keeps_ret)

lemma ofkeep_sweep:
  "keeps (oworks d0 offer_inv) (tickAllInner dp deferrals)"
proof -
  have read: "spec (oworks d0 offer_inv) (read_db exec_offer sc (\<lambda>d. Inr (offer_listNonTerminal d)))
      (\<lambda>r w. oworks d0 offer_inv w \<and> (\<forall>rows. r = Inr rows \<longrightarrow> listed rows (wDb w)))" for sc
    by (rule interference.spec_read [OF of.follows_interference [OF stable_offer_inv]])
      (auto simp: follows_def tracks_def intro: listed_rows)
  have K: "stable exec_offer (\<lambda>d. offer_inv d \<and> listed rows d)" for rows by (intro stable_conj stable_offer_inv stable_listed)
  have "keeps (oworks d0 (\<lambda>d. offer_inv d \<and> listed rows d)) (let live = set (map orwId rows); kept = (\<lambda>i. if i \<in> live then deferrals i else 0) in
      thn (recover_each dp rows) (fill_each dp rows kept))" for rows
    by (intro keep ofkeep_recover [OF K] ofkeep_fill_each [OF K, of rows rows]) auto
  then show ?thesis unfolding tickAllInner_def by (intro keeps_if keeps_ret of.wkeep_learn [OF read])
qed

section \<open>Refinement\<close>

abbreviation lawful_offers :: "offer_db \<Rightarrow> 'a offer_job \<Rightarrow> bool" where
  "lawful_offers \<equiv> lawful_run exec_offer offer_inv"

lemma offer_job:
  assumes "keeps (oworks d0 offer_inv) m" and "offer_inv d0"
  shows "lawful_offers d0 m \<and> latches_first (own_run d0 pos m)"
  by (rule follows_lawful [OF assms]) (use assms(2) in \<open>simp_all add: offer_inv_def latches_first_def\<close>)

lemmas offer_jobs_keep = ofkeep_consider [OF stable_offer_inv] ofkeep_consume [OF stable_offer_inv] ofkeep_sweep

text \<open>
  C13: every job of the service for published offers is a run of enabled actions of its table. Whatever arrives on the
  public stream and whatever the wallet, the indexer, the feed and the SDK answer, deciding an offer, consuming the stream
  and sweeping the recorded intents insert at most one live row per funded outpoint, move rows only along the lifecycle
  or back from an unsubmitted fill, and submit a fill only on a row latched for it, for the recorded amount of the
  recorded asset and a deposit that holds what was priced - also when the packet, the transaction and the live output
  disagree with the row; and each worker submits a fill at most as often as it won the latch.
\<close>

theorem offer_service_refines:
  assumes "offer_inv d0"
  shows "lawful_offers d0 (considerInner dp newId offer txid vout) \<and> latches_first (own_run d0 pos (considerInner dp newId offer txid vout)) \<and>
    lawful_offers d0 (consumeOfferTxs dp txs) \<and> latches_first (own_run d0 pos (consumeOfferTxs dp txs)) \<and>
    lawful_offers d0 (tickAllInner dp deferrals) \<and> latches_first (own_run d0 pos (tickAllInner dp deferrals))"
  using offer_job [OF offer_jobs_keep(1) assms] offer_job [OF offer_jobs_keep(2) assms] offer_job [OF offer_jobs_keep(3) assms] by blast

definition offer_job_acts :: "offer_act list \<Rightarrow> bool" where
  "offer_job_acts as \<longleftrightarrow> (\<exists>dp d0 pos newId offer txid vout txs deferrals. offer_inv d0 \<and>
     (as = own_run d0 pos (considerInner dp newId offer txid vout) \<or> as = own_run d0 pos (consumeOfferTxs dp txs) \<or>
      as = own_run d0 pos (tickAllInner dp deferrals)))"

text \<open>
  C14: the solver submits at most one fill per recorded intent. Any number of workers, each considering offers, consuming
  the stream or sweeping as the code has them: in every interleaving of what they did at most one fill of a row was
  submitted, however often it was put back for a later sweep.
\<close>

theorem offer_fills_once:
  assumes "run_all exec_offer (map snd trace) d0 = Some d" and "offer_inv d0" and "\<forall>w. offer_job_acts (acts_by w trace)"
  shows "sum_list (map (submits i) (map snd trace)) \<le> 1"
proof (rule of.submits_once [OF assms(1)])
  show "ids_distinct d0" using assms(2) by (simp add: offer_inv_def)
  show "latches_first (acts_by w trace)" for w
    using assms(3) offer_job [OF offer_jobs_keep(1)] offer_job [OF offer_jobs_keep(2)] offer_job [OF offer_jobs_keep(3)]
    unfolding offer_job_acts_def by metis
qed

text \<open>An offer of 5000 sats for 900 units of an asset, recorded and swept by a service whose ports cooperate.\<close>

definition sample_offer :: Offer where
  "sample_offer = \<lparr>ofrWantAmount = 900, ofrWantAsset = Some ''u'', ofrOfferAsset = None, ofrMakerPkScript = ''m'', ofrMakerPublicKey = ''n'',
     ofrSwapPkScript = ''51''\<rparr>"

definition sample_offer_ports :: FillPorts where
  "sample_offer_ports = \<lparr>fiCompile = \<lambda>_. Inr ''51'', fiDerive = \<lambda>_. Inr (''51'', ''addr''),
     fiDecode = \<lambda>_. Some (\<lparr>ftId = ''t'', ftOutputs = [(Some ''51'', Some 5000)]\<rparr>, sample_offer), fiFetchTx = \<lambda>_ _. Inr (Some ''raw''),
     fiOutpointsAt = \<lambda>_ _. Inr [\<lparr>depSats = 5000, depAssets = [], outTxid = ''t'', outVout = 0\<rparr>],
     fiSpendable = \<lambda>_. Inr [\<lparr>coinTxid = ''c'', coinVout = 1, coinValue = 330\<rparr>], fiReserved = \<lambda>_. [], fiDustSats = 330,
     fiSelectVirtualCoins = \<lambda>coins _. Inr coins, fiSelectCoinsWithAsset = \<lambda>coins _ _. Inr coins,
     fiFillOffer = \<lambda>_ _ _ _. Inr ''f''\<rparr>"

definition sample_offer_deps :: AssetOfferDeps where
  "sample_offer_deps = \<lparr>ofSchedule = \<lparr>scRival = \<lambda>_ _. [], scCrash = \<lambda>_. False, scClock = \<lambda>_. 1700000010\<rparr>,
     ofMarkets = [(None, Some ''u'')], ofMinFillAmount = 1, ofMaxFillAmount = 1000,
     ofBalance = \<lambda>_. Inr \<lparr>sbAvailable = 5000, sbAvailableAssets = [(''u'', 1000)]\<rparr>, ofOutputsAt = \<lambda>_ _. Inr [],
     ofChecksScript = True, ofPricing = None, ofFetchPrice = None, ofCarrierSats = 330, ofChargesDeliveredCarrier = False,
     ofSettles = True, ofPorts = sample_offer_ports, ofApprovalGate = None\<rparr>"

definition sample_offer_db :: offer_db where
  "sample_offer_db = \<lparr>dbRows = [offer_intent_row \<lparr>oicId = ''o'', oicOfferTxid = ''t'', oicOfferVout = 0, oicOfferPkScript = ''51'',
     oicInput = \<lparr>ofWantAssetId = Some ''u'', ofWantAmount = 900, ofOfferAssetId = None, ofOfferAmount = 5000\<rparr>, oicRfqId = None\<rparr> 1700000000],
     dbEvents = []\<rparr>"

definition sample_offer_acts :: "offer_act list" where
  "sample_offer_acts =
     (let tm = 1700000010; note = (\<lambda>s t. FSt (Note \<lparr>evSwap = ''o'', evAt = tm, evFrom = Some s, evTo = t, evDetail = None\<rparr>)) in
     [FSt (Cas ''o'' Of_fillable Of_filling [(OF_fill_phase, SText ''selecting'')] tm), note Of_fillable Of_filling,
      MarkSubmitting ''o'' tm, SubmitFill ''o'' 900 (Some ''u'') None 5000,
      FSt (Cas ''o'' Of_filling Of_filled [(OF_fill_txid, SText ''f'')] tm), note Of_filling Of_filled])"

lemmas offer_table = OFFER_SHAPE_def OFFER_LATCH_def OFFER_TRANSITION_COLUMNS_def OFFER_NON_TERMINAL_def

lemmas sample_offer_table = sample_offer_db_def offer_intent_row_def offer_intent_cols_def set_fields_def row_of_def

lemma sample_offer_run: "own_run sample_offer_db 0 (tickAllInner sample_offer_deps (\<lambda>_. 0)) = sample_offer_acts"
  by (simp add: own_run_def tickAllInner_def read_db_def write_db_def bnd_def ret_def throw_def await_def now_def ask_def perform_def
      catch_def only_if_def from_result_def sample_offer_deps_def sample_offer_table offer_toRow_def Let_def offer_listNonTerminal_def by_created_def
      fill_offer_def withinTolerance_def offer_askApproval_def settle_offer_def
      transition_def transitionWhere_def assertColumns_def logged_write_def recordEvent_def offer_table cas_def update_rows_def add_event_def
      latch_row_def selecting_def priced_at_def
      offerSettle_def row_intent_def sample_offer_ports_def offerFromFundingTx_def sample_offer_def toLowerCase_def isSafeInteger_def
      offerFillInputFrom_def heldOf_def intent_mismatch_def remeasured_def
      fulfillOffer_def offerIsConsistent_def outpointKey_def select_funding_def markSubmitting_def logged_act_def held_by_spend_def
      sample_offer_acts_def)

lemma sample_offer_runs: "\<exists>d. run_all exec_offer sample_offer_acts sample_offer_db = Some d"
  by (simp add: sample_offer_acts_def Let_def sample_offer_table offer_table cas_def update_rows_def add_event_def latch_row_def selecting_def priced_at_def)

lemma sample_offer_inv: "offer_inv sample_offer_db"
  by (auto simp: offer_inv_def sample_offer_table offer_table ids_distinct_def unique_in_def typed_terms_def split: if_splits)

theorem offer_service_refines_witness:
  "lawful_offers sample_offer_db (tickAllInner sample_offer_deps (\<lambda>_. 0)) \<and> latches_first sample_offer_acts"
  using offer_service_refines [OF sample_offer_inv, of sample_offer_deps _ _ _ _ 0 _ "\<lambda>_. 0"] sample_offer_run by metis

lemma offer_job_acts_idle: "offer_job_acts []"
proof -
  have "own_run sample_offer_db 0 (consumeOfferTxs sample_offer_deps []) = []" by (simp add: own_run_def ret_def)
  then show ?thesis unfolding offer_job_acts_def using sample_offer_inv by metis
qed

theorem offer_fills_once_witness:
  "sum_list (map (submits ''o'') (map snd (map (Pair (0::nat)) sample_offer_acts))) \<le> 1 \<and>
   SubmitFill ''o'' 900 (Some ''u'') None 5000 \<in> set sample_offer_acts"
proof -
  let ?t = "map (Pair (0::nat)) sample_offer_acts"
  have ids: "map snd ?t = sample_offer_acts" "acts_by 0 ?t = sample_offer_acts" "acts_by (Suc n) ?t = []" for n
    by (simp_all add: acts_by_def filter_map o_def)
  have "offer_job_acts sample_offer_acts" unfolding offer_job_acts_def using sample_offer_inv sample_offer_run by metis
  then have "\<forall>w. offer_job_acts (acts_by w ?t)" using ids(2,3) offer_job_acts_idle by (metis not0_implies_Suc)
  moreover obtain d where "run_all exec_offer (map snd ?t) sample_offer_db = Some d" using sample_offer_runs ids(1) by auto
  ultimately have "sum_list (map (submits ''o'') (map snd ?t)) \<le> 1"
    using offer_fills_once [OF _ sample_offer_inv] by blast
  then show ?thesis by (simp add: sample_offer_acts_def Let_def)
qed

end
