(* ===== verification/Spec2Isabelle.thy ===== *)
theory Spec2Isabelle
  imports Evm_Gates Receive_Gates Send_Refinement Receive_Refinement Onchain_Refinement Admission Evm_Receive_Refinement Evm_Send_Refinement Asset_Refinement Offer_Refinement
begin

text \<open>
  A verification library for the intent solver: a service that swaps value between Arkade, Lightning,
  Bitcoin, EVM chains and Arkade assets. A client asks for a quote, funds one leg, and the solver pays the
  other; what can go wrong is paying twice, paying for a leg that cannot be collected, or keeping what has
  to be refunded.

  \<^bold>\<open>Layers.\<close>
  \<^item> \<open>Prelude\<close>: JavaScript numbers, ceiling division, refusals as sums, text formatting.
  \<^item> Pure decisions, one theory per group of modules of \<^verbatim>\<open>solver-core/src/core\<close>: \<open>Timelocks\<close>, \<open>Invoice\<close>,
    \<open>Send_Gates\<close>, \<open>Receive_Gates\<close>, \<open>Onchain_Gates\<close>, \<open>Evm_Gates\<close>, \<open>Pricing\<close>, \<open>Asset_Rfq\<close> (prices, pairs and the two
    amounts of an asset quote), and \<open>Fee_Bump\<close> (\<^verbatim>\<open>solver-rails/src/onchain/feeBump.ts\<close>). Each gate is a function
    from its inputs to a refusal or a decision, branch by branch.
  \<^item> \<open>Machines\<close>: \<^verbatim>\<open>stateMachine.ts\<close> and the lifecycle tables. The locale \<open>commit_machine\<close> says that the state that
    commits the payout is entered once; \<open>lifecycle\<close> adds what holds of the Bitcoin corridors and is interpreted
    on their three tables.
  \<^item> \<open>Effects\<close>: asynchronous code over a shared database. Every await may crash or let other workers act; the
    locale \<open>interference\<close> says which invariants survive. \<open>Follows\<close> adds what a worker has itself done.
  \<^item> \<open>Admission\<close>: \<^verbatim>\<open>admission.ts\<close> and \<^verbatim>\<open>admissionStrategy.ts\<close>, the reservations a quote holds, with their releases.
  \<^item> \<open>Swap_Store\<close>: \<^verbatim>\<open>baseSwapStore.ts\<close>, the rows, the compare-and-swap and the event log. The locale \<open>swap_store\<close>
    is the contract of a table whose payout is committed once, \<open>keyed\<close> and \<open>store_client\<close> say what a worker may do
    on any table and still know, and \<open>service\<close> joins the two.

  \<^bold>\<open>The Bitcoin corridors.\<close>
  \<^item> \<open>Lockups\<close>, \<open>Chain_Clock\<close>, \<open>Sweeps\<close>, \<open>Lightning_Port\<close>, \<open>Unrolled_Claims\<close>: what the legs share. The rules of
    \<^verbatim>\<open>legs/arkadeLockup.ts\<close> and of the output selection and preimage search in \<^verbatim>\<open>arkade/wallet.ts\<close>; refund
    deadlines against the chain's clock (\<^verbatim>\<open>chainClock.ts\<close>); \<^verbatim>\<open>util/sweep.ts\<close> and \<^verbatim>\<open>util/poll.ts\<close>, where the
    locale \<open>driver\<close> carries an invariant through the tick loop and the sweeps; the claim of a lockup that was
    taken onchain (\<^verbatim>\<open>unrolledSpendStep.ts\<close>), whose locale \<open>claim_contract\<close> is interpreted on both send legs.
  \<^item> \<open>Send_Store\<close>, \<open>Send_Orchestrator\<close>, \<open>Send_Refinement\<close>: \<^verbatim>\<open>db/swaps.ts\<close>, \<^verbatim>\<open>send/orchestrator.ts\<close> handler by handler,
    and the proof that every job refines the service contract.
  \<^item> \<open>Receive_Store\<close>, \<open>Receive_Orchestrator\<close>, \<open>Receive_Refinement\<close>: the same for \<^verbatim>\<open>db/receiveSwaps.ts\<close> and
    \<^verbatim>\<open>receive/orchestrator.ts\<close>, where the solver pays first. The contract has a second half, the fund lease:
    a worker's own acts form a word of a small automaton (\<open>disciplined\<close>), and if every worker's do, the
    payout leaves at most once.
  \<^item> \<open>Onchain_Store\<close>, \<open>Onchain_Orchestrator\<close>, \<open>Onchain_Refinement\<close>: \<^verbatim>\<open>db/onchainSwaps.ts\<close> and
    \<^verbatim>\<open>send/onchainOrchestrator.ts\<close>, where the solver's own HTLC is recorded before it is broadcast.

  \<^bold>\<open>The EVM corridors.\<close>
  \<^item> \<open>Evm_Store\<close> and \<open>Evm_Table\<close>: the tables of \<^verbatim>\<open>solver-corridors-evm/src/db\<close>; their \<open>transition\<close> checks no edges, so
    the locales \<open>evm_service\<close>, \<open>evm_table\<close> and \<open>evm_corridor\<close> state what the orchestrators keep in its place.
  \<^item> \<open>Evm_Legs\<close>: the lock and covenant of a row, proven depth, block cadence, the payout funding binding.
  \<^item> \<open>Evm_Receive\<close>, \<open>Evm_Receive_Refinement\<close>, \<open>Evm_Send\<close>, \<open>Evm_Send_Refinement\<close>: \<^verbatim>\<open>receive/evmOrchestrator.ts\<close> and
    \<^verbatim>\<open>send/evmOrchestrator.ts\<close>, each job against \<open>evm_corridor\<close>: the payout is committed before it is made, and made
    at most once.

  \<^bold>\<open>Arkade assets.\<close>
  \<^item> \<open>Fill_Latch\<close>: what the two tables of fills share. A fill is claimed, may be walked back while nothing was
    sent, and is latched immediately before it is submitted. The locale \<open>fill_table\<close> proves that the latch is won
    at most once per row and is a client of \<open>store_client\<close>.
  \<^item> \<open>Offer_Fill\<close>: \<^verbatim>\<open>solver-arkade/src/arkade/offer*.ts\<close> and \<^verbatim>\<open>quotedOfferSettle.ts\<close>, the deposit, the offer and the
    spend; inside \<open>fill_table\<close>, that a settlement spends only what the row records.
  \<^item> \<open>Asset_Service\<close> and \<open>Asset_Refinement\<close>: \<^verbatim>\<open>db/assetRfqSwaps.ts\<close> and \<^verbatim>\<open>asset/assetRfqOrchestrator.ts\<close>, negotiated
    swaps. \<open>Asset_Offers\<close> and \<open>Offer_Refinement\<close>: \<^verbatim>\<open>db/offerFills.ts\<close> and \<^verbatim>\<open>ops/assetOffers.ts\<close>, offers found on a
    public stream. Both tables interpret \<open>fill_table\<close>, and every job of both services refines it.

  \<^bold>\<open>Bounds.\<close> The loop of \<open>tick\<close> takes fuel and answers \<open>None\<close> when it runs out; the safety theorems hold
  for every amount of fuel. \<open>poll\<close> without an attempt limit takes fuel too; running out of it is the same
  outcome as the process dying while it waits, and \<open>confirmation_ends\<close> shows that enough fuel exists.

  \<^bold>\<open>Not modelled.\<close> Third-party code is a parameter: the BOLT11 parser, hex and SHA-256, the Lightning
  backend, the Arkade SDK with its coin selection and covenant compiler, the EVM node, the chain tip. The
  quotes of the Bitcoin and EVM corridors are modelled as their gates, their admission and the insertion of
  their rows, without the code that strings these together. Walking a feed's JSON document, the coin
  reservations of one process, indexer paging, transport, configuration, the operator's CLI and admin
  pages, the SQL driver, cursor paging, schema migration and logging are left out.
\<close>

end
